(* ===== verification/Prelude.thy ===== *)
theory Prelude
  imports Main "HOL-Library.AList" "HOL-Library.Char_ord" "HOL-Library.List_Lexorder" "HOL-Library.Product_Lexorder"
begin

text \<open>
  What every other theory of the development shares: the fact collections, the Python exceptions
  the code can raise as values, results that may carry one, Python dictionaries as association
  lists in insertion order, and the generic lemmas on lists, dictionaries and sorting that the
  component proofs rest on.
\<close>

named_theorems py_defs "definitions of the Python helpers, unfolded to evaluate a model"
named_theorems inv_intros "introduction rules for the invariants of the components"
named_theorems db_defs "definitions of the statements the code sends to the database"

section \<open>Exceptions and results\<close>

text \<open>
  An operation that may raise returns \<open>Inl e\<close> when it does. Only the class of the exception
  is kept; the message of an exception that crosses a library boundary is a parameter where the
  code shows it to a caller.
\<close>

datatype pyexn =
    TypeError
  | ValueError
  | KeyError
  | IndexError
  | OSError
  | DBError

type_synonym 'a result = "pyexn + 'a"

fun rbind :: "'e + 'a \<Rightarrow> ('a \<Rightarrow> 'e + 'b) \<Rightarrow> 'e + 'b" where
  "rbind (Inl e) f = Inl e"
| "rbind (Inr x) f = f x"

lemma rbind_Inr_conv [simp]: "rbind m f = Inr y \<longleftrightarrow> (\<exists>x. m = Inr x \<and> f x = Inr y)"
  by (cases m) auto

lemma rbind_Inl_conv: "rbind m f = Inl e \<longleftrightarrow> m = Inl e \<or> (\<exists>x. m = Inr x \<and> f x = Inl e)"
  by (cases m) auto

lemma rbind_cong [fundef_cong]:
  "m = m' \<Longrightarrow> (\<And>x. m' = Inr x \<Longrightarrow> f x = g x) \<Longrightarrow> rbind m f = rbind m' g"
  by (cases m') auto

section \<open>Time\<close>

text \<open>
  Instants and durations are counted in microseconds, the resolution of Python's
  \<open>datetime\<close>; the clock is read by the caller and passed in.
\<close>

type_synonym instant = int

abbreviation (input) seconds :: "int \<Rightarrow> int" where
  "seconds n \<equiv> n * 1000000"

definition floor_minute :: "instant \<Rightarrow> instant" where
  "floor_minute t = t - t mod seconds 60"

lemma floor_minute_le [simp]: "floor_minute t \<le> t"
  by (simp add: floor_minute_def)

lemma floor_minute_gt: "t - seconds 60 < floor_minute t"
proof -
  have "t mod seconds 60 < seconds 60" by (rule pos_mod_bound) simp
  then show ?thesis by (simp add: floor_minute_def)
qed

section \<open>Dictionaries\<close>

text \<open>
  A Python dictionary whose insertion order matters is an association list with distinct keys:
  \<open>AList.update\<close> replaces the value of a key in place and appends a new key at the end,
  as \<open>d[k] = v\<close> does; \<open>AList.delete\<close> is \<open>del d[k]\<close> for a key that is present.
\<close>

type_synonym ('k, 'v) dict = "('k \<times> 'v) list"

definition dict_ok :: "('k, 'v) dict \<Rightarrow> bool" where
  "dict_ok d \<longleftrightarrow> distinct (map fst d)"

lemma dict_ok_Nil [simp, inv_intros]: "dict_ok []"
  by (simp add: dict_ok_def)

lemma dict_ok_update [simp, inv_intros]: "dict_ok d \<Longrightarrow> dict_ok (AList.update k v d)"
  by (simp add: dict_ok_def distinct_update)

lemma dict_ok_delete [simp, inv_intros]: "dict_ok d \<Longrightarrow> dict_ok (AList.delete k d)"
  by (simp add: dict_ok_def distinct_delete)

lemma dict_ok_filter [simp, inv_intros]: "dict_ok d \<Longrightarrow> dict_ok (filter P d)"
  by (auto simp: dict_ok_def distinct_map inj_on_def)

lemma dict_ok_drop [simp, inv_intros]: "dict_ok d \<Longrightarrow> dict_ok (drop n d)"
  by (simp add: dict_ok_def drop_map [symmetric])

lemma length_update_absent: "k \<notin> fst ` set d \<Longrightarrow> length (AList.update k v d) = Suc (length d)"
  by (induction d) auto

lemma length_update_present: "k \<in> fst ` set d \<Longrightarrow> length (AList.update k v d) = length d"
  by (induction d) auto

lemma length_update_le: "length (AList.update k v d) \<le> Suc (length d)"
  by (cases "k \<in> fst ` set d") (simp_all add: length_update_absent length_update_present)

lemma length_delete_present:
  "k \<in> fst ` set d \<Longrightarrow> length (AList.delete k d) < length d"
  by (induction d) (auto simp: le_imp_less_Suc AList.length_delete_le)

lemma map_of_filter_dict:
  "dict_ok d \<Longrightarrow> map_of (filter P d) k =
     (case map_of d k of None \<Rightarrow> None | Some v \<Rightarrow> if P (k, v) then Some v else None)"
proof (induction d)
  case (Cons x d)
  then have "fst x \<notin> fst ` set d" and "dict_ok d"
    by (auto simp: dict_ok_def)
  then have "map_of d (fst x) = None" by (simp add: map_of_eq_None_iff)
  with Cons \<open>dict_ok d\<close> show ?case by (cases x) (auto split: option.splits)
qed simp

lemma map_of_in_dict: "dict_ok d \<Longrightarrow> (k, v) \<in> set d \<longleftrightarrow> map_of d k = Some v"
  by (simp add: dict_ok_def map_of_eq_Some_iff)

section \<open>Lists\<close>

lemma hd_filter_split:
  assumes "filter P xs = y # ys"
  shows "\<exists>us vs. xs = us @ y # vs \<and> P y \<and> (\<forall>u\<in>set us. \<not> P u)"
  using assms by (auto simp: filter_eq_Cons_iff)

lemma find_SomeD: "List.find P xs = Some x \<Longrightarrow> x \<in> set xs \<and> P x"
  by (auto simp: find_Some_iff)

text \<open>The first match of a list sorted by a key has the least key among the matches.\<close>

lemma find_sorted_least:
  assumes "sorted (map f xs)" and "List.find P xs = Some x" and "y \<in> set xs" and "P y"
  shows "f x \<le> f y"
  using assms
proof (induction xs)
  case (Cons z zs)
  show ?case
  proof (cases "P z")
    case True
    with Cons.prems show ?thesis by auto
  next
    case False
    with Cons show ?thesis by auto
  qed
qed simp

lemma find_sort_key_least:
  assumes "List.find P (sort_key f xs) = Some x"
  shows "x \<in> set xs \<and> P x \<and> (\<forall>y\<in>set xs. P y \<longrightarrow> f x \<le> f y)"
  using assms find_sorted_least [of f "sort_key f xs" P x] by (auto dest: find_SomeD)

lemma find_sort_key_None: "List.find P (sort_key f xs) = None \<longleftrightarrow> (\<forall>x\<in>set xs. \<not> P x)"
  by (auto simp: find_None_iff)

lemma find_map_keep: "(\<And>r. P (f r) = P r) \<Longrightarrow> find P (map f t) = map_option f (find P t)"
  by (induction t) auto

lemma find_snoc: "\<forall>r\<in>set t. \<not> P r \<Longrightarrow> P n \<Longrightarrow> find P (t @ [n]) = Some n"
  by (induction t) auto

end
