(* ===== verification/Py_Text.thy ===== *)
theory Py_Text
  imports Prelude
begin

text \<open>
  The parts of Python's standard library on strings and JSON values that the modelled code calls:
  \<open>str\<close> methods, \<open>shlex.split\<close> in its POSIX mode, and parsed JSON documents with Python's
  truthiness. Strings are lists of characters, compared and sorted by character code.
\<close>

section \<open>String methods\<close>

definition py_space :: "char \<Rightarrow> bool" where
  "py_space c \<longleftrightarrow> (let n = (of_char c :: nat) in 9 \<le> n \<and> n \<le> 13 \<or> 28 \<le> n \<and> n \<le> 32 \<or> n = 133 \<or> n = 160)"

fun py_split_ws_acc :: "string \<Rightarrow> string \<Rightarrow> string list" where
  "py_split_ws_acc acc [] = (if acc = [] then [] else [rev acc])"
| "py_split_ws_acc acc (c # cs) =
     (if py_space c then (if acc = [] then [] else [rev acc]) @ py_split_ws_acc [] cs
      else py_split_ws_acc (c # acc) cs)"

definition py_split_ws :: "string \<Rightarrow> string list" where
  "py_split_ws s = py_split_ws_acc [] s"

definition py_strip :: "string \<Rightarrow> string" where
  "py_strip s = rev (dropWhile py_space (rev (dropWhile py_space s)))"

definition py_rstrip :: "char \<Rightarrow> string \<Rightarrow> string" where
  "py_rstrip c s = rev (dropWhile (\<lambda>x. x = c) (rev s))"

definition py_startswith :: "string \<Rightarrow> string \<Rightarrow> bool" where
  "py_startswith s p \<longleftrightarrow> take (length p) s = p"

definition py_endswith :: "string \<Rightarrow> string \<Rightarrow> bool" where
  "py_endswith s p \<longleftrightarrow> py_startswith (rev s) (rev p)"

fun py_contains :: "string \<Rightarrow> string \<Rightarrow> bool" where
  "py_contains p [] \<longleftrightarrow> p = []"
| "py_contains p (c # cs) \<longleftrightarrow> py_startswith (c # cs) p \<or> py_contains p cs"

fun py_join :: "string \<Rightarrow> string list \<Rightarrow> string" where
  "py_join sep [] = []"
| "py_join sep [x] = x"
| "py_join sep (x # xs) = x @ sep @ py_join sep xs"

text \<open>\<open>s.split(sep, 1)[0]\<close> and \<open>s.rsplit(c, 1)[-1]\<close> for a one-character \<open>c\<close>.\<close>

fun py_before :: "string \<Rightarrow> string \<Rightarrow> string" where
  "py_before sep [] = []"
| "py_before sep (c # cs) = (if py_startswith (c # cs) sep then [] else c # py_before sep cs)"

definition py_after_last :: "char \<Rightarrow> string \<Rightarrow> string" where
  "py_after_last c s = rev (takeWhile (\<lambda>x. x \<noteq> c) (rev s))"

text \<open>\<open>str(n)\<close> for an integer.\<close>

fun digits_of_nat :: "nat \<Rightarrow> string" where
  "digits_of_nat n =
     (if n < 10 then [char_of (48 + n)] else digits_of_nat (n div 10) @ [char_of (48 + n mod 10)])"

declare digits_of_nat.simps [simp del]

definition str_of_int :: "int \<Rightarrow> string" where
  "str_of_int n = (if n < 0 then ''-'' @ digits_of_nat (nat (- n)) else digits_of_nat (nat n))"

definition py_digit :: "char \<Rightarrow> bool" where
  "py_digit c \<longleftrightarrow> (let n = (of_char c :: nat) in 48 \<le> n \<and> n \<le> 57)"

definition ascii_lower :: "char \<Rightarrow> char" where
  "ascii_lower c = (let n = (of_char c :: nat) in if 65 \<le> n \<and> n \<le> 90 then char_of (n + 32) else c)"

text \<open>\<open>s.lower()\<close>, and \<open>s.rsplit(c, 1)[0]\<close> for a character that occurs.\<close>

definition lower_char :: "char \<Rightarrow> char" where
  "lower_char c = (let n = (of_char c :: nat) in
     if 65 \<le> n \<and> n \<le> 90 \<or> 192 \<le> n \<and> n \<le> 222 \<and> n \<noteq> 215 then char_of (n + 32) else c)"

definition py_lower :: "string \<Rightarrow> string" where
  "py_lower s = map lower_char s"

definition py_before_last :: "char \<Rightarrow> string \<Rightarrow> string" where
  "py_before_last c s = rev (tl (dropWhile (\<lambda>x. x \<noteq> c) (rev s)))"

text \<open>\<open>s.splitlines()\<close>\<close>

definition line_break :: "char \<Rightarrow> bool" where
  "line_break c \<longleftrightarrow> (let n = (of_char c :: nat) in 10 \<le> n \<and> n \<le> 13 \<or> 28 \<le> n \<and> n \<le> 30 \<or> n = 133)"

fun py_lines_acc :: "string \<Rightarrow> bool \<Rightarrow> string \<Rightarrow> string list" where
  "py_lines_acc acc after_cr [] = (if acc = [] then [] else [rev acc])"
| "py_lines_acc acc after_cr (c # cs) =
     (if after_cr \<and> c = CHR 0x0A then py_lines_acc [] False cs
      else if line_break c then rev acc # py_lines_acc [] (c = CHR 0x0D) cs
      else py_lines_acc (c # acc) False cs)"

definition py_splitlines :: "string \<Rightarrow> string list" where
  "py_splitlines s = py_lines_acc [] False s"

text \<open>\<open>s.split(c)\<close> for a one-character \<open>c\<close>\<close>

fun split_char :: "char \<Rightarrow> string \<Rightarrow> string list" where
  "split_char d [] = [[]]"
| "split_char d (c # cs) =
     (if c = d then [] # split_char d cs
      else (case split_char d cs of w # ws \<Rightarrow> (c # w) # ws | [] \<Rightarrow> [[c]]))"

lemma split_char_plain: "c \<notin> set x \<Longrightarrow> split_char c x = [x]"
  by (induction x) auto

lemma split_char_cons: "c \<notin> set x \<Longrightarrow> split_char c (x @ c # y) = x # split_char c y"
  by (induction x) (auto split: list.splits)

fun py_digits :: "bool \<Rightarrow> nat \<Rightarrow> string \<Rightarrow> nat option" where
  "py_digits digit acc [] = (if digit then Some acc else None)"
| "py_digits digit acc (c # cs) =
     (let n = (of_char c :: nat) in
      if 48 \<le> n \<and> n \<le> 57 then py_digits True (acc * 10 + (n - 48)) cs
      else if c = CHR ''_'' \<and> digit then py_digits False acc cs
      else None)"

text \<open>\<^verbatim>\<open>int(raw)\<close> of a stripped string.\<close>

definition py_int :: "string \<Rightarrow> int option" where
  "py_int raw =
     (case raw of
        [] \<Rightarrow> None
      | c # cs \<Rightarrow>
          if c = CHR ''-'' then map_option (\<lambda>n. - int n) (py_digits False 0 cs)
          else if c = CHR ''+'' then map_option int (py_digits False 0 cs)
          else map_option int (py_digits False 0 raw))"

definition truthy_str :: "string option \<Rightarrow> bool" where
  "truthy_str v \<longleftrightarrow> v \<noteq> None \<and> v \<noteq> Some []"

declare py_digit_def [py_defs] ascii_lower_def [py_defs] py_space_def [py_defs] py_split_ws_def [py_defs] py_strip_def [py_defs]
  py_rstrip_def [py_defs] py_startswith_def [py_defs] py_endswith_def [py_defs]
  py_after_last_def [py_defs] truthy_str_def [py_defs]

lemma py_startswith_iff: "py_startswith s p \<longleftrightarrow> (\<exists>r. s = p @ r)"
  unfolding py_startswith_def by (metis append_eq_conv_conj append_take_drop_id)

lemma py_startswith_append [simp]: "py_startswith (p @ r) p"
  by (simp add: py_startswith_def)

lemma py_startswith_refl [simp]: "py_startswith s s"
  by (simp add: py_startswith_def)

lemma py_startswith_trans:
  "py_startswith s p \<Longrightarrow> py_startswith p q \<Longrightarrow> py_startswith s q"
  by (auto simp: py_startswith_iff)

lemma py_rstrip_not_last: "py_rstrip c s = [] \<or> last (py_rstrip c s) \<noteq> c"
proof (cases "dropWhile (\<lambda>x. x = c) (rev s)")
  case (Cons x xs)
  then have "x \<noteq> c" by (metis (mono_tags, lifting) dropWhile_eq_Cons_conv)
  with Cons show ?thesis by (simp add: py_rstrip_def)
qed (simp add: py_rstrip_def)

lemma py_rstrip_id: "s = [] \<or> last s \<noteq> c \<Longrightarrow> py_rstrip c s = s"
  by (cases s rule: rev_cases) (auto simp: py_rstrip_def)

lemma py_rstrip_idem [simp]: "py_rstrip c (py_rstrip c s) = py_rstrip c s"
  by (rule py_rstrip_id) (rule py_rstrip_not_last)

section \<open>shlex.split\<close>

text \<open>
  The tokenizer of \<open>shlex.split(s)\<close>: POSIX mode, split on whitespace only, no comment
  characters. \<open>None\<close> is the \<open>ValueError\<close> of an unclosed quotation or a trailing
  backslash. The state is the character class being read, the characters of the token so far
  (reversed) and whether a quotation occurred in it.
\<close>

datatype shlex_state =
    Blank
  | Word
  | Quoted char
  | Escaped shlex_state

definition shlex_space :: "char \<Rightarrow> bool" where
  "shlex_space c \<longleftrightarrow> (let n = (of_char c :: nat) in n = 32 \<or> n = 9 \<or> n = 13 \<or> n = 10)"

abbreviation (input) sq :: char where "sq \<equiv> CHR 0x27"
abbreviation (input) dq :: char where "dq \<equiv> CHR 0x22"
abbreviation (input) bsl :: char where "bsl \<equiv> CHR 0x5C"

fun shlex_go :: "shlex_state \<Rightarrow> string \<Rightarrow> bool \<Rightarrow> string \<Rightarrow> string list option" where
  "shlex_go Blank tok quoted [] = Some []"
| "shlex_go Word tok quoted [] = Some (if tok \<noteq> [] \<or> quoted then [rev tok] else [])"
| "shlex_go (Quoted q) tok quoted [] = None"
| "shlex_go (Escaped st) tok quoted [] = None"
| "shlex_go Blank tok quoted (c # cs) =
     (if shlex_space c then shlex_go Blank [] False cs
      else if c = bsl then shlex_go (Escaped Word) [] False cs
      else if c = sq \<or> c = dq then shlex_go (Quoted c) [] False cs
      else shlex_go Word [c] False cs)"
| "shlex_go Word tok quoted (c # cs) =
     (if shlex_space c then
        (if tok \<noteq> [] \<or> quoted then map_option (\<lambda>ts. rev tok # ts) (shlex_go Blank [] False cs)
         else shlex_go Blank [] False cs)
      else if c = sq \<or> c = dq then shlex_go (Quoted c) tok quoted cs
      else if c = bsl then shlex_go (Escaped Word) tok quoted cs
      else shlex_go Word (c # tok) quoted cs)"
| "shlex_go (Quoted q) tok quoted (c # cs) =
     (if c = q then shlex_go Word tok True cs
      else if c = bsl \<and> q = dq then shlex_go (Escaped (Quoted q)) tok True cs
      else shlex_go (Quoted q) (c # tok) True cs)"
| "shlex_go (Escaped st) tok quoted (c # cs) =
     (case st of
        Quoted q \<Rightarrow>
          (if c \<noteq> bsl \<and> c \<noteq> q then shlex_go st (c # bsl # tok) quoted cs
           else shlex_go st (c # tok) quoted cs)
      | _ \<Rightarrow> shlex_go st (c # tok) quoted cs)"

definition shlex_split :: "string \<Rightarrow> string list option" where
  "shlex_split s = shlex_go Blank [] False s"

section \<open>JSON documents\<close>

text \<open>
  A parsed JSON value; an object is a dictionary in insertion order. A number with a fraction
  carries its textual form: the code only passes it on.
\<close>

datatype json =
    JNull
  | JBool bool
  | JInt int
  | JFloat string
  | JStr string
  | JList "json list"
  | JObj "(string \<times> json) list"

text \<open>The float literals of JSON with value zero, which are false in Python.\<close>

definition float_zero :: "string \<Rightarrow> bool" where
  "float_zero s \<longleftrightarrow> (\<forall>c\<in>set (takeWhile (\<lambda>c. c \<noteq> CHR ''e'' \<and> c \<noteq> CHR ''E'') s).
      c = CHR ''0'' \<or> c = CHR ''.'' \<or> c = CHR ''-'')"

fun truthy :: "json \<Rightarrow> bool" where
  "truthy JNull = False"
| "truthy (JBool b) = b"
| "truthy (JInt n) = (n \<noteq> 0)"
| "truthy (JFloat s) = (\<not> float_zero s)"
| "truthy (JStr s) = (s \<noteq> [])"
| "truthy (JList xs) = (xs \<noteq> [])"
| "truthy (JObj kvs) = (kvs \<noteq> [])"

definition is_obj :: "json \<Rightarrow> bool" where
  "is_obj v \<longleftrightarrow> (case v of JObj _ \<Rightarrow> True | _ \<Rightarrow> False)"

text \<open>\<open>d.get(k)\<close> on a value known to be a dictionary; \<open>None\<close> is JSON null.\<close>

definition jget :: "json \<Rightarrow> string \<Rightarrow> json" where
  "jget v k = (case v of JObj kvs \<Rightarrow> (case map_of kvs k of Some x \<Rightarrow> x | None \<Rightarrow> JNull) | _ \<Rightarrow> JNull)"

definition por :: "json \<Rightarrow> json \<Rightarrow> json" where
  "por a b = (if truthy a then a else b)"

definition jopt :: "string option \<Rightarrow> json" where
  "jopt v = (case v of None \<Rightarrow> JNull | Some s \<Rightarrow> JStr s)"

declare is_obj_def [py_defs] jget_def [py_defs] por_def [py_defs] jopt_def [py_defs]
  float_zero_def [py_defs]

lemma truthy_jopt [simp]: "truthy (jopt v) = truthy_str v"
  by (auto simp: jopt_def truthy_str_def split: option.splits)

lemma jopt_inject [simp]: "jopt a = jopt b \<longleftrightarrow> a = b"
  by (auto simp: jopt_def split: option.splits)

end
