(* ===== verification/Policy_Rules.thy ===== *)
theory Policy_Rules
  imports Py_Text
begin

text \<open>
  The rule store of the policy module: the rule records of \<^verbatim>\<open>app/modules/policy/models.py\<close>, the
  statements and methods of \<^verbatim>\<open>PolicyRepository\<close> on the table \<^verbatim>\<open>policy_rules\<close>
  (\<^verbatim>\<open>app/modules/policy/repo.py\<close>).

  The table is the list of its rows in insertion order. A statement is one atomic step; a method
  that sends several is their composition, and \<open>create_step\<close> interleaves the statements of
  concurrent callers. The library calls \<^verbatim>\<open>json.dumps\<close>, \<^verbatim>\<open>json.loads\<close> and
  \<^verbatim>\<open>datetime.isoformat\<close> are the parameters \<open>dumps\<close>, \<open>loads\<close> and
  \<open>isof\<close>.
\<close>

section \<open>Vocabulary\<close>

datatype decision = ALLOW | DENY | REQUIRE_HUMAN

definition effect_allow :: string where "effect_allow = ''allow''"
definition effect_deny :: string where "effect_deny = ''deny''"
definition effect_require_approval :: string where "effect_require_approval = ''require_approval''"

definition pattern_glob :: string where "pattern_glob = ''glob''"
definition pattern_regex :: string where "pattern_regex = ''regex''"

definition model_selection_types :: "string list" where
  "model_selection_types = [''model'', ''provider'']"

definition tool_action_types :: "string list" where
  "tool_action_types = [''tool_action'', ''file_path'', ''command'']"

section \<open>Records\<close>

text \<open>
  The fields a caller of \<^verbatim>\<open>create_rule\<close> supplies. The type parameter is the type of
  \<open>value_list\<close>: a JSON value in memory, JSON text in the table.
\<close>

record 'v rule_body =
  rb_rule_key :: string
  rb_name :: string
  rb_enabled :: bool
  rb_tenant_id :: "int option"
  rb_project_path :: "string option"
  rb_machine_id :: "string option"
  rb_user_id :: "int option"
  rb_team_id :: "string option"
  rb_policy_type :: string
  rb_pattern_type :: string
  rb_pattern :: "string option"
  rb_value_list :: 'v
  rb_tool_name :: "string option"
  rb_action :: "string option"
  rb_effect :: string
  rb_priority :: int
  rb_is_default :: bool
  rb_approval_ttl_seconds :: "int option"
  rb_created_by :: "int option"
  rb_description :: "string option"

record rule_row = "string option rule_body" +
  row_id :: int
  row_version :: int
  row_is_current :: bool
  row_created_at :: instant
  row_superseded_at :: "instant option"

record policy_rule = "json rule_body" +
  pr_id :: "int option"
  pr_version :: int
  pr_is_current :: bool
  pr_created_at :: "string option"
  pr_superseded_at :: "string option"

definition or_str :: "string \<Rightarrow> string \<Rightarrow> string" where
  "or_str s d = (if s = [] then d else s)"

definition or_int :: "int \<Rightarrow> int \<Rightarrow> int" where
  "or_int n d = (if n = 0 then d else n)"

definition parse_json :: "(string \<Rightarrow> json option) \<Rightarrow> string option \<Rightarrow> json" where
  "parse_json loads v =
     (case v of None \<Rightarrow> JNull
      | Some s \<Rightarrow> if s = [] then JNull else (case loads s of None \<Rightarrow> JNull | Some j \<Rightarrow> j))"

definition dump_json :: "(json \<Rightarrow> string) \<Rightarrow> json \<Rightarrow> string option" where
  "dump_json dumps v =
     (if v = JNull \<or> v = JList [] \<or> v = JObj [] then None else Some (dumps v))"

definition policy_rule_from_row ::
    "(string \<Rightarrow> json option) \<Rightarrow> (instant \<Rightarrow> string) \<Rightarrow> rule_row \<Rightarrow> policy_rule" where
  "policy_rule_from_row loads isof r =
     \<lparr>rb_rule_key = rb_rule_key r, rb_name = rb_name r, rb_enabled = rb_enabled r,
      rb_tenant_id = rb_tenant_id r, rb_project_path = rb_project_path r,
      rb_machine_id = rb_machine_id r, rb_user_id = rb_user_id r, rb_team_id = rb_team_id r,
      rb_policy_type = or_str (rb_policy_type r) ''tool_action'',
      rb_pattern_type = or_str (rb_pattern_type r) pattern_glob,
      rb_pattern = rb_pattern r,
      rb_value_list = por (parse_json loads (rb_value_list r)) (JList []),
      rb_tool_name = rb_tool_name r, rb_action = rb_action r,
      rb_effect = or_str (rb_effect r) effect_require_approval,
      rb_priority = or_int (rb_priority r) 100, rb_is_default = rb_is_default r,
      rb_approval_ttl_seconds = rb_approval_ttl_seconds r, rb_created_by = rb_created_by r,
      rb_description = rb_description r,
      pr_id = Some (row_id r), pr_version = or_int (row_version r) 1,
      pr_is_current = row_is_current r, pr_created_at = Some (isof (row_created_at r)),
      pr_superseded_at = map_option isof (row_superseded_at r)\<rparr>"

section \<open>The table and its statements\<close>

record rule_table =
  rt_rows :: "rule_row list"
  rt_next_id :: int

text \<open>
  The columns of the table, as the migration creates it, and its unique index on
  \<open>(rule_key, version)\<close>.
\<close>

definition policy_rules_columns :: "string list" where
  "policy_rules_columns =
     [''id'', ''rule_key'', ''name'', ''version'', ''is_current'', ''enabled'', ''tenant_id'',
      ''project_path'', ''machine_id'', ''user_id'', ''team_id'', ''policy_type'',
      ''pattern_type'', ''pattern'', ''value_list'', ''tool_name'', ''action'', ''effect'',
      ''priority'', ''is_default'', ''approval_ttl_seconds'', ''created_by'', ''created_at'',
      ''superseded_at'', ''description'']"

definition supersede_row :: "string \<Rightarrow> instant \<Rightarrow> rule_row \<Rightarrow> rule_row" where
  "supersede_row key now r =
     (if rb_rule_key r = key \<and> row_is_current r
      then r\<lparr>row_is_current := False, row_superseded_at := Some now\<rparr> else r)"

definition sql_supersede :: "string \<Rightarrow> instant \<Rightarrow> rule_table \<Rightarrow> rule_table" where
  "sql_supersede key now t = t\<lparr>rt_rows := map (supersede_row key now) (rt_rows t)\<rparr>"

definition next_version :: "string \<Rightarrow> rule_table \<Rightarrow> int" where
  "next_version key t =
     (let vs = map row_version (filter (\<lambda>r. rb_rule_key r = key) (rt_rows t))
      in (if vs = [] then 0 else Max (set vs)) + 1)"

definition new_row ::
    "(json \<Rightarrow> string) \<Rightarrow> json rule_body \<Rightarrow> int \<Rightarrow> int \<Rightarrow> instant \<Rightarrow> rule_row" where
  "new_row dumps b ident ver now =
     \<lparr>rb_rule_key = rb_rule_key b, rb_name = rb_name b, rb_enabled = rb_enabled b,
      rb_tenant_id = rb_tenant_id b, rb_project_path = rb_project_path b,
      rb_machine_id = rb_machine_id b, rb_user_id = rb_user_id b, rb_team_id = rb_team_id b,
      rb_policy_type = rb_policy_type b, rb_pattern_type = rb_pattern_type b,
      rb_pattern = rb_pattern b, rb_value_list = dump_json dumps (rb_value_list b),
      rb_tool_name = rb_tool_name b, rb_action = rb_action b, rb_effect = rb_effect b,
      rb_priority = rb_priority b, rb_is_default = rb_is_default b,
      rb_approval_ttl_seconds = rb_approval_ttl_seconds b, rb_created_by = rb_created_by b,
      rb_description = rb_description b,
      row_id = ident, row_version = ver, row_is_current = True, row_created_at = now,
      row_superseded_at = None\<rparr>"

definition sql_insert :: "(int \<Rightarrow> rule_row) \<Rightarrow> rule_table \<Rightarrow> (rule_row \<times> rule_table) result" where
  "sql_insert mk t =
     (let r = mk (rt_next_id t) in
      if \<exists>q\<in>set (rt_rows t). rb_rule_key q = rb_rule_key r \<and> row_version q = row_version r
      then Inl DBError
      else Inr (r, t\<lparr>rt_rows := rt_rows t @ [r], rt_next_id := rt_next_id t + 1\<rparr>))"

text \<open>
  \<^verbatim>\<open>create_rule\<close>: the superseding update is committed on its own, then the version is
  read and the new row inserted. A statement that the database refuses raises after the earlier
  ones have taken effect; \<open>ok\<close> says which statements the database executes. On SQLite the inserted row is
  read back by a statement of its own; PostgreSQL returns it from the insertion, so that \<open>ReadBack\<close> is
  never refused there.
\<close>

datatype rule_stmt = Supersede | ReadVersion | InsertRow | ReadBack

definition create_rule ::
    "(json \<Rightarrow> string) \<Rightarrow> (string \<Rightarrow> json option) \<Rightarrow> (instant \<Rightarrow> string) \<Rightarrow> (rule_stmt \<Rightarrow> bool) \<Rightarrow>
     json rule_body \<Rightarrow> instant \<Rightarrow> rule_table \<Rightarrow> policy_rule result \<times> rule_table" where
  "create_rule dumps loads isof ok b now t =
     (if \<not> ok Supersede then (Inl DBError, t)
      else
        let t1 = sql_supersede (rb_rule_key b) now t in
        if \<not> ok ReadVersion then (Inl DBError, t1)
        else
          let ver = next_version (rb_rule_key b) t1 in
          if \<not> ok InsertRow then (Inl DBError, t1)
          else
            (case sql_insert (\<lambda>i. new_row dumps b i ver now) t1 of
               Inl e \<Rightarrow> (Inl e, t1)
             | Inr (r, t2) \<Rightarrow> (if ok ReadBack then Inr (policy_rule_from_row loads isof r) else Inl DBError, t2)))"

definition list_current_rules ::
    "(string \<Rightarrow> json option) \<Rightarrow> (instant \<Rightarrow> string) \<Rightarrow> bool \<Rightarrow> rule_table \<Rightarrow> policy_rule list" where
  "list_current_rules loads isof include_disabled t =
     map (policy_rule_from_row loads isof)
       (sort_key (\<lambda>r. (rb_priority r, row_created_at r))
          (filter (\<lambda>r. row_is_current r \<and> (include_disabled \<or> rb_enabled r)) (rt_rows t)))"

definition get_rules_for_evaluation ::
    "(string \<Rightarrow> json option) \<Rightarrow> (instant \<Rightarrow> string) \<Rightarrow> rule_table \<Rightarrow> policy_rule list" where
  "get_rules_for_evaluation loads isof t = list_current_rules loads isof False t"

definition get_rule ::
    "(string \<Rightarrow> json option) \<Rightarrow> (instant \<Rightarrow> string) \<Rightarrow> int \<Rightarrow> rule_table \<Rightarrow> policy_rule option" where
  "get_rule loads isof ident t =
     map_option (policy_rule_from_row loads isof) (List.find (\<lambda>r. row_id r = ident) (rt_rows t))"

definition get_current_rule_by_key ::
    "(string \<Rightarrow> json option) \<Rightarrow> (instant \<Rightarrow> string) \<Rightarrow> string \<Rightarrow> rule_table \<Rightarrow> policy_rule option" where
  "get_current_rule_by_key loads isof key t =
     map_option (policy_rule_from_row loads isof)
       (List.find (\<lambda>r. rb_rule_key r = key \<and> row_is_current r) (rt_rows t))"

text \<open>
  An update that names a column the table does not have is refused by the database before it
  changes a row.
\<close>

definition sql_update ::
    "string list \<Rightarrow> (rule_row \<Rightarrow> bool) \<Rightarrow> (rule_row \<Rightarrow> rule_row) \<Rightarrow> rule_table \<Rightarrow> (nat \<times> rule_table) result" where
  "sql_update cols cond f t =
     (if set cols \<subseteq> set policy_rules_columns
      then Inr (length (filter cond (rt_rows t)),
                t\<lparr>rt_rows := map (\<lambda>r. if cond r then f r else r) (rt_rows t)\<rparr>)
      else Inl DBError)"

definition set_rule_enabled :: "int \<Rightarrow> bool \<Rightarrow> rule_table \<Rightarrow> (nat \<times> rule_table) result" where
  "set_rule_enabled ident en t =
     sql_update [''enabled'', ''updated_at'', ''id'', ''is_current'']
       (\<lambda>r. row_id r = ident \<and> row_is_current r) (\<lambda>r. r\<lparr>rb_enabled := en\<rparr>) t"

section \<open>Concurrent callers\<close>

text \<open>
  Where a concurrent caller of \<^verbatim>\<open>create_rule\<close> stands between its statements.
\<close>

datatype create_pc = PStart | PSuperseded | PVersion int | PDone | PFailed

record create_sys =
  cs_table :: rule_table
  cs_pc :: "nat \<Rightarrow> create_pc"

inductive create_step ::
    "(json \<Rightarrow> string) \<Rightarrow> (nat \<Rightarrow> json rule_body) \<Rightarrow> (nat \<Rightarrow> instant) \<Rightarrow> create_sys \<Rightarrow> create_sys \<Rightarrow> bool"
  for dumps reqs clock where
  supersede: "cs_pc s i = PStart \<Longrightarrow>
     create_step dumps reqs clock s
       (s\<lparr>cs_table := sql_supersede (rb_rule_key (reqs i)) (clock i) (cs_table s),
          cs_pc := (cs_pc s)(i := PSuperseded)\<rparr>)"
| read_version: "cs_pc s i = PSuperseded \<Longrightarrow>
     create_step dumps reqs clock s
       (s\<lparr>cs_pc := (cs_pc s)(i := PVersion (next_version (rb_rule_key (reqs i)) (cs_table s)))\<rparr>)"
| insert: "cs_pc s i = PVersion v \<Longrightarrow>
     sql_insert (\<lambda>k. new_row dumps (reqs i) k v (clock i)) (cs_table s) = Inr (r, t) \<Longrightarrow>
     create_step dumps reqs clock s (s\<lparr>cs_table := t, cs_pc := (cs_pc s)(i := PDone)\<rparr>)"
| insert_refused: "cs_pc s i = PVersion v \<Longrightarrow>
     sql_insert (\<lambda>k. new_row dumps (reqs i) k v (clock i)) (cs_table s) = Inl e \<Longrightarrow>
     create_step dumps reqs clock s (s\<lparr>cs_pc := (cs_pc s)(i := PFailed)\<rparr>)"

inductive create_reach ::
    "(json \<Rightarrow> string) \<Rightarrow> (nat \<Rightarrow> json rule_body) \<Rightarrow> (nat \<Rightarrow> instant) \<Rightarrow> rule_table \<Rightarrow> create_sys \<Rightarrow> bool"
  for dumps reqs clock t where
  start: "create_reach dumps reqs clock t \<lparr>cs_table = t, cs_pc = (\<lambda>_. PStart)\<rparr>"
| step: "create_reach dumps reqs clock t s \<Longrightarrow> create_step dumps reqs clock s s' \<Longrightarrow>
     create_reach dumps reqs clock t s'"

section \<open>Well-formed tables\<close>

definition row_key :: "rule_row \<Rightarrow> string \<times> int" where
  "row_key r = (rb_rule_key r, row_version r)"

definition rules_wf :: "rule_table \<Rightarrow> bool" where
  "rules_wf t \<longleftrightarrow> distinct (map row_key (rt_rows t)) \<and> distinct (map row_id (rt_rows t)) \<and>
     (\<forall>r\<in>set (rt_rows t). row_id r < rt_next_id t \<and> 1 \<le> row_version r)"

definition current_rows :: "string \<Rightarrow> rule_table \<Rightarrow> rule_row list" where
  "current_rows k t = filter (\<lambda>r. rb_rule_key r = k \<and> row_is_current r) (rt_rows t)"

definition one_current :: "rule_table \<Rightarrow> bool" where
  "one_current t \<longleftrightarrow> (\<forall>k. length (current_rows k t) \<le> 1)"

text \<open>What no later edit may change of a version, whoever holds its identifier.\<close>

definition snapshot :: "rule_row \<Rightarrow> string option rule_body \<times> int \<times> int \<times> instant" where
  "snapshot r = (rule_body.truncate r, row_id r, row_version r, row_created_at r)"

definition history :: "rule_table \<Rightarrow> (string option rule_body \<times> int \<times> int \<times> instant) list" where
  "history t = map snapshot (rt_rows t)"

lemma supersede_row_simps [simp]:
  "rb_rule_key (supersede_row k now r) = rb_rule_key r"
  "row_version (supersede_row k now r) = row_version r"
  "row_id (supersede_row k now r) = row_id r"
  "row_key (supersede_row k now r) = row_key r"
  "snapshot (supersede_row k now r) = snapshot r"
  "row_is_current (supersede_row k now r) \<longleftrightarrow> row_is_current r \<and> rb_rule_key r \<noteq> k"
  by (auto simp: supersede_row_def row_key_def snapshot_def rule_body.truncate_def)

lemma supersede_row_other: "rb_rule_key r \<noteq> k \<Longrightarrow> supersede_row k now r = r"
  by (simp add: supersede_row_def)

lemma sql_supersede_simps [simp]:
  "rt_rows (sql_supersede k now t) = map (supersede_row k now) (rt_rows t)"
  "rt_next_id (sql_supersede k now t) = rt_next_id t"
  by (simp_all add: sql_supersede_def)

lemma history_supersede [simp]: "history (sql_supersede k now t) = history t"
  by (simp add: history_def)

lemma rules_wf_supersede [inv_intros]: "rules_wf t \<Longrightarrow> rules_wf (sql_supersede k now t)"
  by (simp add: rules_wf_def comp_def)

lemma current_rows_supersede:
  "current_rows k' (sql_supersede k now t) = (if k' = k then [] else current_rows k' t)"
proof -
  have "filter (\<lambda>r. rb_rule_key r = k' \<and> row_is_current r) (map (supersede_row k now) rs) =
      (if k' = k then [] else filter (\<lambda>r. rb_rule_key r = k' \<and> row_is_current r) rs)" for rs
    by (induction rs) (auto simp: supersede_row_other)
  then show ?thesis by (simp add: current_rows_def)
qed

lemma one_current_supersede [inv_intros]: "one_current t \<Longrightarrow> one_current (sql_supersede k now t)"
  by (simp add: one_current_def current_rows_supersede)

lemma next_version_bound:
  "r \<in> set (rt_rows t) \<Longrightarrow> rb_rule_key r = k \<Longrightarrow> row_version r < next_version k t"
  by (force simp: next_version_def Let_def filter_empty_conv intro!: zle_add1_eq_le [THEN iffD2] Max_ge)

lemma next_version_pos: "rules_wf t \<Longrightarrow> 1 \<le> next_version k t"
proof (cases "filter (\<lambda>r. rb_rule_key r = k) (rt_rows t)")
  case (Cons r rs)
  assume "rules_wf t"
  from Cons have r: "r \<in> set (rt_rows t)" "rb_rule_key r = k"
    by (auto simp: filter_eq_Cons_iff)
  with next_version_bound [OF r] \<open>rules_wf t\<close> show ?thesis by (auto simp: rules_wf_def)
qed (simp add: next_version_def)

lemma new_row_simps [simp]:
  "rb_rule_key (new_row dumps b i v now) = rb_rule_key b"
  "row_version (new_row dumps b i v now) = v"
  "row_id (new_row dumps b i v now) = i"
  "row_is_current (new_row dumps b i v now)"
  "rb_enabled (new_row dumps b i v now) = rb_enabled b"
  by (simp_all add: new_row_def)

lemma sql_insert_fresh:
  assumes "\<forall>q\<in>set (rt_rows t). \<not> (rb_rule_key q = rb_rule_key b \<and> row_version q = v)"
  shows "sql_insert (\<lambda>i. new_row dumps b i v now) t =
     Inr (new_row dumps b (rt_next_id t) v now,
          t\<lparr>rt_rows := rt_rows t @ [new_row dumps b (rt_next_id t) v now],
            rt_next_id := rt_next_id t + 1\<rparr>)"
  using assms by (auto simp: sql_insert_def Let_def)

lemma sql_insert_Inr:
  assumes "sql_insert (\<lambda>i. new_row dumps b i v now) t = Inr (r, t')"
  shows "r = new_row dumps b (rt_next_id t) v now"
    and "t' = t\<lparr>rt_rows := rt_rows t @ [r], rt_next_id := rt_next_id t + 1\<rparr>"
    and "\<forall>q\<in>set (rt_rows t). row_key q \<noteq> row_key r"
  using assms by (auto simp: sql_insert_def Let_def row_key_def split: if_splits)

lemma rules_wf_insert:
  assumes "rules_wf t" and "1 \<le> v" and "sql_insert (\<lambda>i. new_row dumps b i v now) t = Inr (r, t')"
  shows "rules_wf t'"
  using assms(1,2) sql_insert_Inr [OF assms(3)]
  by (auto simp: rules_wf_def image_iff; metis less_irrefl)

lemma history_insert:
  assumes "sql_insert (\<lambda>i. new_row dumps b i v now) t = Inr (r, t')"
  shows "history t' = history t @ [snapshot r]"
  using sql_insert_Inr [OF assms] by (simp add: history_def)

lemma current_rows_insert:
  assumes "sql_insert (\<lambda>i. new_row dumps b i v now) t = Inr (r, t')"
  shows "current_rows k t' = current_rows k t @ (if k = rb_rule_key b then [r] else [])"
  using sql_insert_Inr [OF assms] by (auto simp: current_rows_def)

text \<open>Under the index on the table the version read after superseding is always free.\<close>

lemma insert_next_version:
  "sql_insert (\<lambda>i. new_row dumps b i (next_version (rb_rule_key b) t) now) t =
     Inr (new_row dumps b (rt_next_id t) (next_version (rb_rule_key b) t) now,
          t\<lparr>rt_rows := rt_rows t @ [new_row dumps b (rt_next_id t) (next_version (rb_rule_key b) t) now],
            rt_next_id := rt_next_id t + 1\<rparr>)"
  by (rule sql_insert_fresh) (auto dest: next_version_bound)

definition created_row :: "(json \<Rightarrow> string) \<Rightarrow> json rule_body \<Rightarrow> instant \<Rightarrow> rule_table \<Rightarrow> rule_row" where
  "created_row dumps b now t =
     new_row dumps b (rt_next_id t)
       (next_version (rb_rule_key b) (sql_supersede (rb_rule_key b) now t)) now"

definition created_table :: "(json \<Rightarrow> string) \<Rightarrow> json rule_body \<Rightarrow> instant \<Rightarrow> rule_table \<Rightarrow> rule_table" where
  "created_table dumps b now t =
     (sql_supersede (rb_rule_key b) now t)
       \<lparr>rt_rows := rt_rows (sql_supersede (rb_rule_key b) now t) @ [created_row dumps b now t],
        rt_next_id := rt_next_id t + 1\<rparr>"

lemma next_version_supersede [simp]: "next_version k' (sql_supersede k now t) = next_version k' t"
proof -
  have "map row_version (filter (\<lambda>r. rb_rule_key r = k') (map (supersede_row k now) rs)) =
      map row_version (filter (\<lambda>r. rb_rule_key r = k') rs)" for rs
    by (induction rs) auto
  then show ?thesis by (simp add: next_version_def)
qed

lemma create_rule_cases:
  "create_rule dumps loads isof ok b now t =
     (if \<not> ok Supersede then (Inl DBError, t)
      else if \<not> ok ReadVersion \<or> \<not> ok InsertRow
      then (Inl DBError, sql_supersede (rb_rule_key b) now t)
      else (if ok ReadBack then Inr (policy_rule_from_row loads isof (created_row dumps b now t)) else Inl DBError,
            created_table dumps b now t))"
  using insert_next_version [of dumps b "sql_supersede (rb_rule_key b) now t" now]
  by (simp add: create_rule_def Let_def created_row_def created_table_def)

lemma created_insert:
  "sql_insert (\<lambda>i. new_row dumps b i (next_version (rb_rule_key b) t) now)
       (sql_supersede (rb_rule_key b) now t) =
     Inr (created_row dumps b now t, created_table dumps b now t)"
  using insert_next_version [of dumps b "sql_supersede (rb_rule_key b) now t" now]
  by (simp add: created_row_def created_table_def)

lemma created_table_wf:
  assumes "rules_wf t"
  shows "rules_wf (created_table dumps b now t)"
proof -
  have v: "1 \<le> next_version (rb_rule_key b) t" using assms by (rule next_version_pos)
  show ?thesis
    by (rule rules_wf_insert [OF rules_wf_supersede [OF assms] v created_insert])
qed

lemma current_rows_created:
  "current_rows k (created_table dumps b now t) =
     (if k = rb_rule_key b then [created_row dumps b now t] else current_rows k t)"
  using current_rows_insert [OF created_insert, of k] by (simp add: current_rows_supersede)

lemma history_created:
  "history (created_table dumps b now t) = history t @ [snapshot (created_row dumps b now t)]"
  using history_insert [OF created_insert [of dumps b t now]] by simp

lemma find_current: "List.find (\<lambda>r. rb_rule_key r = k \<and> row_is_current r) (rt_rows t) =
    (case current_rows k t of [] \<Rightarrow> None | r # _ \<Rightarrow> Some r)"
proof -
  have "List.find P xs = (case filter P xs of [] \<Rightarrow> None | x # _ \<Rightarrow> Some x)" for P and xs :: "'a list"
    by (induction xs) auto
  then show ?thesis by (simp add: current_rows_def)
qed

section \<open>Properties of the rule store\<close>

text \<open>C35: Whatever statement of \<^verbatim>\<open>create_rule\<close> the database refuses, the table stays
  well-formed (unique versions of a key, fresh identifiers), keeps at most one current version of
  every key, and the snapshots of the earlier versions stay as they were, in place.\<close>

theorem create_rule_invariant:
  assumes "rules_wf t" and "one_current t"
    and "create_rule dumps loads isof ok b now t = (res, t')"
  shows "rules_wf t' \<and> one_current t' \<and> (\<exists>new. history t' = history t @ new)"
proof -
  let ?sup = "sql_supersede (rb_rule_key b) now t" and ?new = "created_table dumps b now t"
  have "rules_wf ?sup" "one_current ?sup" using assms by (auto intro: inv_intros)
  moreover have "one_current ?new"
    using assms(2) by (simp add: one_current_def current_rows_created)
  ultimately show ?thesis
    using assms created_table_wf by (auto simp: create_rule_cases history_created split: if_splits)
qed

text \<open>When the database executes all its statements, \<^verbatim>\<open>create_rule\<close> returns the new
  version, one above every earlier version of the key; it is then the only current version of its
  key and the one a lookup by key finds, and the current versions of other keys are untouched.\<close>

theorem create_rule_current:
  assumes "rules_wf t" and "\<forall>st. ok st"
    and "create_rule dumps loads isof ok b now t = (res, t')"
  shows "\<exists>rule. res = Inr rule \<and> pr_version rule = next_version (rb_rule_key b) t \<and>
      get_current_rule_by_key loads isof (rb_rule_key b) t' = Some rule \<and>
      length (current_rows (rb_rule_key b) t') = 1 \<and>
      (\<forall>k. k \<noteq> rb_rule_key b \<longrightarrow> current_rows k t' = current_rows k t)"
proof -
  have t': "t' = created_table dumps b now t"
    and res: "res = Inr (policy_rule_from_row loads isof (created_row dumps b now t))"
    using assms(2,3) by (auto simp: create_rule_cases)
  have "1 \<le> next_version (rb_rule_key b) t" using assms(1) by (rule next_version_pos)
  then have "pr_version (policy_rule_from_row loads isof (created_row dumps b now t))
      = next_version (rb_rule_key b) t"
    by (simp add: policy_rule_from_row_def created_row_def or_int_def)
  with t' res show ?thesis
    by (simp add: get_current_rule_by_key_def find_current current_rows_created)
qed

text \<open>If the database refuses the insertion (or the read before it), the update that
  superseded the old version stays committed: the key has no current version left, so its rule,
  a denying one included, is no longer part of any evaluation.\<close>

theorem create_rule_refused_drops_key:
  assumes "ok Supersede" and "\<not> ok InsertRow"
    and "create_rule dumps loads isof ok b now t = (res, t')"
  shows "res = Inl DBError \<and> get_current_rule_by_key loads isof (rb_rule_key b) t' = None \<and>
     (\<forall>r\<in>set (get_rules_for_evaluation loads isof t'). rb_rule_key r \<noteq> rb_rule_key b)"
proof -
  have eqs: "res = Inl DBError" "t' = sql_supersede (rb_rule_key b) now t"
    using assms by (auto simp: create_rule_cases split: if_splits)
  have "rb_rule_key r \<noteq> rb_rule_key b"
    if "r \<in> set (get_rules_for_evaluation loads isof t')" for r
    using that eqs(2)
    by (auto simp: get_rules_for_evaluation_def list_current_rules_def policy_rule_from_row_def)
  with eqs show ?thesis
    by (simp add: get_current_rule_by_key_def find_current current_rows_supersede
        del: sql_supersede_simps)
qed

text \<open>The rule \<^verbatim>\<open>create_rule\<close> returns carries the fields it was given, for a caller whose
  strings are not empty and when \<^verbatim>\<open>json.loads\<close> reads back what \<^verbatim>\<open>json.dumps\<close> wrote,
  except for the priority: a priority of 0 comes back as 100.\<close>

theorem create_rule_roundtrip:
  assumes "\<forall>st. ok st" and "create_rule dumps loads isof ok b now t = (Inr rule, t')"
    and "rb_policy_type b \<noteq> []" and "rb_pattern_type b \<noteq> []" and "rb_effect b \<noteq> []"
    and "rb_value_list b = JList vs"
    and "vs \<noteq> [] \<longrightarrow> dumps (JList vs) \<noteq> [] \<and> loads (dumps (JList vs)) = Some (JList vs)"
  shows "rule_body.truncate rule = b\<lparr>rb_priority := (if rb_priority b = 0 then 100 else rb_priority b)\<rparr>"
proof -
  have rule: "rule = policy_rule_from_row loads isof (created_row dumps b now t)"
    using assms(1,2) by (auto simp: create_rule_cases)
  have v: "por (parse_json loads (dump_json dumps (rb_value_list b))) (JList []) = rb_value_list b"
    using assms(6,7) by (auto simp: dump_json_def parse_json_def por_def)
  show ?thesis
    using assms(3-5)
    by (simp add: rule policy_rule_from_row_def created_row_def new_row_def rule_body.truncate_def
        or_str_def or_int_def v)
qed

text \<open>Toggling a rule always fails and changes nothing: the update names a column
  \<^verbatim>\<open>updated_at\<close> that the table \<^verbatim>\<open>policy_rules\<close> does not have.\<close>

theorem set_rule_enabled_always_fails: "set_rule_enabled ident en t = Inl DBError"
  by (simp add: set_rule_enabled_def sql_update_def policy_rules_columns_def)

section \<open>Interleavings\<close>

definition create_inv :: "rule_table \<Rightarrow> create_sys \<Rightarrow> bool" where
  "create_inv t s \<longleftrightarrow> rules_wf (cs_table s) \<and> (\<forall>i v. cs_pc s i = PVersion v \<longrightarrow> 1 \<le> v) \<and>
     (\<exists>new. history (cs_table s) = history t @ new)"

lemma create_step_inv:
  assumes "create_step dumps reqs clock s s'" and "create_inv t s"
  shows "create_inv t s'"
  using assms
proof (cases rule: create_step.cases)
  case (insert i v r tab)
  with assms(2) have "1 \<le> v" and "rules_wf (cs_table s)" by (auto simp: create_inv_def)
  from rules_wf_insert [OF this(2,1) insert(3)] history_insert [OF insert(3)] insert(1) assms(2)
  show ?thesis by (auto simp: create_inv_def)
next
  case (read_version i)
  with assms(2) next_version_pos [of "cs_table s"] show ?thesis by (auto simp: create_inv_def)
next
  case (supersede i)
  with assms(2) show ?thesis
    by (auto simp: create_inv_def intro: inv_intros simp del: sql_supersede_simps)
qed (auto simp: create_inv_def)

lemma create_reach_inv:
  assumes "create_reach dumps reqs clock t s" and "rules_wf t"
  shows "create_inv t s"
  using assms
proof (induction rule: create_reach.induct)
  case start
  then show ?case by (simp add: create_inv_def)
qed (blast intro: create_step_inv)

text \<open>However the statements of concurrent callers of \<^verbatim>\<open>create_rule\<close> interleave, no two
  rows of a key share a version and no snapshot of an earlier version is changed or lost.\<close>

theorem concurrent_create_keeps_history:
  assumes "rules_wf t" and "create_reach dumps reqs clock t s"
  shows "distinct (map row_key (rt_rows (cs_table s))) \<and> (\<exists>new. history (cs_table s) = history t @ new)"
  using create_reach_inv [OF assms(2,1)] by (simp add: create_inv_def rules_wf_def)

text \<open>Two concurrent edits of one key, both superseding before either inserts, leave the key
  with two current versions: the promise that at most one row per key is current holds for
  sequential callers only.\<close>

theorem concurrent_create_two_current:
  assumes "rb_rule_key (reqs 0) = k" and "rb_rule_key (reqs 1) = k"
  shows "\<exists>s. create_reach dumps reqs clock t s \<and> cs_pc s 0 = PDone \<and> cs_pc s 1 = PDone \<and>
    length (current_rows k (cs_table s)) = 2"
proof -
  let ?R = "create_reach dumps reqs clock t"
  define t1 where "t1 = sql_supersede k (clock 1) (sql_supersede k (clock 0) t)"
  obtain r2 t2 where i2: "sql_insert (\<lambda>j. new_row dumps (reqs 0) j (next_version k t1) (clock 0)) t1
      = Inr (r2, t2)"
    using insert_next_version [of dumps "reqs 0" t1] assms by auto
  obtain r3 t3 where i3: "sql_insert (\<lambda>j. new_row dumps (reqs 1) j (next_version k t2) (clock 1)) t2
      = Inr (r3, t3)"
    using insert_next_version [of dumps "reqs 1" t2] assms by auto
  define two where "two a b = (\<lambda>i::nat. if i = 0 then a else if i = 1 then b else PStart)" for a b
  have [simp]: "(two a b)(0 := c) = two c b" "(two a b)(Suc 0 := c) = two a c"
    "two a b 0 = a" "two a b (Suc 0) = b" for a b c
    by (auto simp: two_def)
  have start: "(\<lambda>_. PStart) = two PStart PStart" by (auto simp: two_def)
  let ?s = "\<lambda>tab a b. \<lparr>cs_table = tab, cs_pc = two a b\<rparr>"
  have "?R (?s t PStart PStart)" using create_reach.start [of dumps reqs clock t] by (simp add: start)
  then have "?R (?s (sql_supersede k (clock 0) t) PSuperseded PStart)"
    using create_step.supersede [of "?s t PStart PStart" 0 dumps reqs clock] assms
    by (auto elim!: create_reach.step)
  then have "?R (?s t1 PSuperseded PSuperseded)"
    using create_step.supersede [of "?s (sql_supersede k (clock 0) t) PSuperseded PStart" 1 dumps reqs clock] assms
    by (auto elim!: create_reach.step simp: t1_def)
  then have "?R (?s t1 (PVersion (next_version k t1)) PSuperseded)"
    using create_step.read_version [of "?s t1 PSuperseded PSuperseded" 0 dumps reqs clock] assms
    by (auto elim!: create_reach.step)
  then have "?R (?s t2 PDone PSuperseded)"
    using create_step.insert [of "?s t1 (PVersion (next_version k t1)) PSuperseded" 0 _ dumps reqs clock] i2 assms
    by (auto elim!: create_reach.step)
  then have "?R (?s t2 PDone (PVersion (next_version k t2)))"
    using create_step.read_version [of "?s t2 PDone PSuperseded" 1 dumps reqs clock] assms
    by (auto elim!: create_reach.step)
  then have "?R (?s t3 PDone PDone)"
    using create_step.insert [of "?s t2 PDone (PVersion (next_version k t2))" 1 _ dumps reqs clock] i3 assms
    by (auto elim!: create_reach.step)
  moreover have "length (current_rows k t3) = 2"
    using current_rows_insert [OF i2] current_rows_insert [OF i3] assms
    by (simp add: t1_def current_rows_supersede del: sql_supersede_simps)
  ultimately show ?thesis by (intro exI [of _ "?s t3 PDone PDone"]) simp
qed

section \<open>Concrete instances\<close>

definition sample_body :: "json rule_body" where
  "sample_body =
     \<lparr>rb_rule_key = ''no-rm'', rb_name = ''No rm'', rb_enabled = True, rb_tenant_id = None,
      rb_project_path = None, rb_machine_id = Some ''m1'', rb_user_id = None, rb_team_id = None,
      rb_policy_type = ''command'', rb_pattern_type = pattern_glob, rb_pattern = Some ''rm *'',
      rb_value_list = JList [], rb_tool_name = Some ''Bash'', rb_action = None,
      rb_effect = effect_deny, rb_priority = 0, rb_is_default = False,
      rb_approval_ttl_seconds = None, rb_created_by = None, rb_description = None\<rparr>"

definition sample_table :: rule_table where
  "sample_table = \<lparr>rt_rows = [new_row (\<lambda>_. ''[]'') sample_body 1 1 0], rt_next_id = 2\<rparr>"

abbreviation sample_create :: "(rule_stmt \<Rightarrow> bool) \<Rightarrow> policy_rule result \<times> rule_table" where
  "sample_create ok \<equiv> create_rule (\<lambda>_. ''[]'') (\<lambda>_. None) (\<lambda>_. ''t'') ok sample_body 7 sample_table"

lemma sample_table_ok: "rules_wf sample_table" "one_current sample_table"
  by (simp_all add: rules_wf_def one_current_def current_rows_def sample_table_def new_row_def)

lemma create_rule_invariant_witness:
  "rules_wf (snd (sample_create (\<lambda>_. True))) \<and> one_current (snd (sample_create (\<lambda>st. st \<noteq> InsertRow)))"
  using create_rule_invariant [OF sample_table_ok prod.collapse [symmetric]] by blast

lemma create_rule_current_witness:
  "\<exists>rule. fst (sample_create (\<lambda>_. True)) = Inr rule \<and> pr_version rule = 2"
proof -
  have "next_version (rb_rule_key sample_body) sample_table = 2" by code_simp
  with create_rule_current [where ok = "\<lambda>_. True" and dumps = "\<lambda>_. ''[]''" and loads = "\<lambda>_. None"
      and isof = "\<lambda>_. ''t''" and now = 7, OF sample_table_ok(1) _ prod.collapse [symmetric], of sample_body]
  show ?thesis by auto
qed

lemma create_rule_refused_drops_key_witness:
  "get_current_rule_by_key (\<lambda>_. None) (\<lambda>_. ''t'') ''no-rm'' (snd (sample_create (\<lambda>st. st \<noteq> InsertRow))) = None \<and>
   length (current_rows ''no-rm'' sample_table) = 1"
proof -
  have "rb_rule_key sample_body = ''no-rm''" by code_simp
  moreover have "length (current_rows ''no-rm'' sample_table) = 1" by code_simp
  ultimately show ?thesis
    using create_rule_refused_drops_key [where ok = "\<lambda>st. st \<noteq> InsertRow" and dumps = "\<lambda>_. ''[]''"
        and loads = "\<lambda>_. None" and isof = "\<lambda>_. ''t''" and now = 7,
        OF _ _ prod.collapse [symmetric], of sample_body sample_table]
    by auto
qed

lemma create_rule_roundtrip_witness:
  "rule_body.truncate (projr (fst (sample_create (\<lambda>_. True)))) = sample_body\<lparr>rb_priority := 100\<rparr>"
proof -
  have c: "sample_create (\<lambda>_. True) =
      (Inr (projr (fst (sample_create (\<lambda>_. True)))), snd (sample_create (\<lambda>_. True)))"
    by (simp add: create_rule_cases)
  have "rb_policy_type sample_body \<noteq> []" "rb_pattern_type sample_body \<noteq> []"
    "rb_effect sample_body \<noteq> []" "rb_value_list sample_body = JList []" "rb_priority sample_body = 0"
    by code_simp+
  then show ?thesis using create_rule_roundtrip [OF _ c, where vs = "[]"] by simp
qed

lemma sample_create_reach:
  "create_reach (\<lambda>_. ''[]'') (\<lambda>_. sample_body) (\<lambda>_. 7) sample_table
     \<lparr>cs_table = sql_supersede ''no-rm'' 7 sample_table, cs_pc = (\<lambda>_. PStart)(0 := PSuperseded)\<rparr>"
proof -
  have "rb_rule_key sample_body = ''no-rm''" by code_simp
  then show ?thesis
    by (intro create_reach.step [OF create_reach.start])
      (use create_step.supersede [of "\<lparr>cs_table = sample_table, cs_pc = \<lambda>_. PStart\<rparr>" 0
          "\<lambda>_. ''[]''" "\<lambda>_. sample_body" "\<lambda>_. 7"] in simp)
qed

lemma concurrent_create_keeps_history_witness:
  "distinct (map row_key (rt_rows (sql_supersede ''no-rm'' 7 sample_table)))"
  using concurrent_create_keeps_history [OF sample_table_ok(1) sample_create_reach] by simp

lemma concurrent_create_two_current_witness:
  "\<exists>s. cs_pc s 1 = PDone \<and> length (current_rows ''no-rm'' (cs_table s)) = 2 \<and>
     create_reach (\<lambda>_. ''[]'') (\<lambda>_. sample_body) (\<lambda>_. 7) sample_table s"
  using concurrent_create_two_current [of "\<lambda>_. sample_body" "''no-rm''" "\<lambda>_. ''[]''" "\<lambda>_. 7" sample_table]
  by (auto simp: sample_body_def)

end
