(* ===== verification/Refresh_Cache.thy ===== *)
theory Refresh_Cache
  imports Prelude
begin

text \<open>
  The contract of a time-bounded read-through cache whose owner reads its source outside the
  lock, with the interleavings of its readers, and what a client may rely on under all of them.
\<close>

section \<open>Readers, writers and the clock\<close>

text \<open>
  \<open>fs_flight i\<close> is the refresh that reader \<open>i\<close> has under way: the instant it read the clock at,
  and what it has fetched, once it has. The source is a function of time.
\<close>

record ('c, 'v) fill_state =
  fs_now :: instant
  fs_cache :: 'c
  fs_flight :: "nat \<Rightarrow> (instant \<times> 'v option) option"

inductive fill_step ::
    "(instant \<Rightarrow> 'c \<Rightarrow> 'v option) \<Rightarrow> (instant \<Rightarrow> 'v \<Rightarrow> 'c \<Rightarrow> 'c) \<Rightarrow> ('c \<Rightarrow> 'c) \<Rightarrow> (instant \<Rightarrow> 'v) \<Rightarrow>
     ('c, 'v) fill_state \<Rightarrow> ('c, 'v) fill_state \<Rightarrow> bool"
  for lookup store inval source where
  tick: "fs_now s \<le> now' \<Longrightarrow> fill_step lookup store inval source s (s\<lparr>fs_now := now'\<rparr>)"
| miss: "lookup (fs_now s) (fs_cache s) = None \<Longrightarrow> fs_flight s i = None \<Longrightarrow>
     fill_step lookup store inval source s
       (s\<lparr>fs_flight := (fs_flight s)(i \<mapsto> (fs_now s, None))\<rparr>)"
| fetch: "fs_flight s i = Some (t, None) \<Longrightarrow>
     fill_step lookup store inval source s
       (s\<lparr>fs_flight := (fs_flight s)(i \<mapsto> (t, Some (source (fs_now s))))\<rparr>)"
| finish: "fs_flight s i = Some (t, Some v) \<Longrightarrow>
     fill_step lookup store inval source s
       (s\<lparr>fs_cache := store t v (fs_cache s), fs_flight := (fs_flight s)(i := None)\<rparr>)"
| invalidate: "fill_step lookup store inval source s (s\<lparr>fs_cache := inval (fs_cache s)\<rparr>)"

inductive fill_reach ::
    "(instant \<Rightarrow> 'c \<Rightarrow> 'v option) \<Rightarrow> (instant \<Rightarrow> 'v \<Rightarrow> 'c \<Rightarrow> 'c) \<Rightarrow> ('c \<Rightarrow> 'c) \<Rightarrow> (instant \<Rightarrow> 'v) \<Rightarrow>
     'c \<Rightarrow> ('c, 'v) fill_state \<Rightarrow> bool"
  for lookup store inval source c0 where
  start: "fill_reach lookup store inval source c0 \<lparr>fs_now = t, fs_cache = c0, fs_flight = (\<lambda>_. None)\<rparr>"
| step: "fill_reach lookup store inval source c0 s \<Longrightarrow> fill_step lookup store inval source s s' \<Longrightarrow>
     fill_reach lookup store inval source c0 s'"

section \<open>The contract\<close>

locale refresh_cache =
  fixes lookup :: "instant \<Rightarrow> 'c \<Rightarrow> 'v option"
    and store :: "instant \<Rightarrow> 'v \<Rightarrow> 'c \<Rightarrow> 'c"
    and inval :: "'c \<Rightarrow> 'c"
    and c0 :: 'c
    and ttl :: int
  assumes lookup_store: "lookup now (store t v c) = (if now - t < ttl then Some v else None)"
    and lookup_inval: "lookup now (inval c) = None"
    and lookup_init: "lookup now c0 = None"
begin

text \<open>A value that is served was in the source at an instant less than \<open>ttl\<close> ago.\<close>

lemma flight_fresh:
  assumes "fill_reach lookup store inval source c0 s" and "fs_flight s i = Some (t, v)"
  shows "t \<le> fs_now s \<and> (\<forall>w. v = Some w \<longrightarrow> (\<exists>t0. t \<le> t0 \<and> t0 \<le> fs_now s \<and> w = source t0))"
  using assms
proof (induction arbitrary: i t v rule: fill_reach.induct)
  case (step s s')
  from step.hyps(2) show ?case
  proof (cases rule: fill_step.cases)
    case (tick now')
    with step.IH step.prems show ?thesis by (fastforce intro: order_trans)
  next
    case (fetch j t')
    with step.IH [of j t' None] step.IH step.prems show ?thesis by (auto split: if_splits)
  qed (use step.IH step.prems in \<open>auto split: if_splits\<close>)
qed simp

lemma served_fresh:
  assumes "fill_reach lookup store inval source c0 s"
    and "fs_now s \<le> now" and "lookup now (fs_cache s) = Some v"
  shows "\<exists>t0. now - ttl < t0 \<and> t0 \<le> fs_now s \<and> v = source t0"
  using assms
proof (induction arbitrary: v rule: fill_reach.induct)
  case (start t)
  then show ?case by (simp add: lookup_init)
next
  case (step s s')
  from step.hyps(2) show ?case
  proof (cases rule: fill_step.cases)
    case (tick now')
    with step.IH step.prems show ?thesis by (fastforce intro: order_trans)
  next
    case (finish i t w)
    with step.prems have "v = w" and "now - t < ttl" by (auto simp: lookup_store split: if_splits)
    moreover obtain t0 where "t \<le> t0" "t0 \<le> fs_now s" "w = source t0"
      using flight_fresh [OF step.hyps(1) finish(2)] by blast
    ultimately show ?thesis using finish(1) by (intro exI [of _ t0]) auto
  next
    case invalidate
    with step.prems show ?thesis by (simp add: lookup_inval)
  qed (use step.IH step.prems in auto)
qed

text \<open>
  A refresh that fetched before a change of the source and finishes after the invalidation puts
  the old value back.
\<close>

lemma stale_after_invalidate:
  assumes "t1 < t2" and "t2 - t1 < ttl"
  shows "\<exists>s s'. fill_reach lookup store inval source c0 s \<and> fs_now s = t2 \<and>
      fs_cache s = inval c0 \<and> fill_step lookup store inval source s s' \<and> fs_now s' = t2 \<and>
      lookup t2 (fs_cache s') = Some (source t1)"
proof -
  let ?R = "fill_reach lookup store inval source c0" and ?S = "fill_step lookup store inval source"
  let ?st = "\<lambda>t c f. \<lparr>fs_now = t, fs_cache = c, fs_flight = f\<rparr>"
  let ?old = "[0 \<mapsto> (t1, Some (source t1))]"
  have "?R (?st t1 c0 (\<lambda>_. None))" by (rule fill_reach.start)
  then have "?R (?st t1 c0 [0 \<mapsto> (t1, None)])"
    by (rule fill_reach.step)
      (use fill_step.miss [of lookup "?st t1 c0 (\<lambda>_. None)" 0 store inval source] lookup_init in simp)
  then have "?R (?st t1 c0 ?old)"
    by (rule fill_reach.step)
      (use fill_step.fetch [of "?st t1 c0 [0 \<mapsto> (t1, None)]" 0 t1 lookup store inval source] in simp)
  then have "?R (?st t2 c0 ?old)"
    by (rule fill_reach.step)
      (use assms(1) fill_step.tick [of "?st t1 c0 ?old" t2 lookup store inval source] in simp)
  then have r: "?R (?st t2 (inval c0) ?old)"
    by (rule fill_reach.step)
      (use fill_step.invalidate [of lookup store inval source "?st t2 c0 ?old"] in simp)
  have "?S (?st t2 (inval c0) ?old) (?st t2 (store t1 (source t1) (inval c0)) (\<lambda>_. None))"
    using fill_step.finish [of "?st t2 (inval c0) ?old" 0 t1 "source t1" lookup store inval source]
    by (simp add: fun_upd_idem)
  with r assms(2) show ?thesis
    by (intro exI [of _ "?st t2 (inval c0) ?old"]
        exI [of _ "?st t2 (store t1 (source t1) (inval c0)) (\<lambda>_. None)"])
      (simp add: lookup_store)
qed

end

end
