(* ===== verification/Policy_Cache.thy ===== *)
theory Policy_Cache
  imports Policy_Rules Refresh_Cache
begin

text \<open>
  The rule cache of \<^verbatim>\<open>app/modules/policy/cache.py\<close>: the module's \<^verbatim>\<open>_entry\<close> as a record,
  \<^verbatim>\<open>get_cached_rules\<close> as its two critical sections and their composition, and the
  invalidation. It provides the contract \<open>refresh_cache\<close>.
\<close>

section \<open>The rule cache\<close>

record rule_cache =
  ce_ts :: instant
  ce_rules :: "policy_rule list option"

definition cache_ttl :: int where
  "cache_ttl = seconds 60"

definition empty_cache :: rule_cache where
  "empty_cache = \<lparr>ce_ts = 0, ce_rules = None\<rparr>"

text \<open>
  The two critical sections of \<^verbatim>\<open>get_cached_rules\<close>; the table is read between them, outside
  the lock.
\<close>

definition cache_lookup :: "instant \<Rightarrow> rule_cache \<Rightarrow> policy_rule list option" where
  "cache_lookup now c =
     (case ce_rules c of
        Some rules \<Rightarrow> if now - ce_ts c < cache_ttl then Some rules else None
      | None \<Rightarrow> None)"

definition cache_store :: "instant \<Rightarrow> policy_rule list \<Rightarrow> rule_cache \<Rightarrow> rule_cache" where
  "cache_store now fresh c = c\<lparr>ce_ts := now, ce_rules := Some fresh\<rparr>"

definition invalidate_policy_rule_cache :: "rule_cache \<Rightarrow> rule_cache" where
  "invalidate_policy_rule_cache c = c\<lparr>ce_rules := None, ce_ts := 0\<rparr>"

definition get_cached_rules ::
    "policy_rule list result \<Rightarrow> instant \<Rightarrow> rule_cache \<Rightarrow> policy_rule list result \<times> rule_cache" where
  "get_cached_rules fetch now c =
     (case cache_lookup now c of
        Some rules \<Rightarrow> (Inr rules, c)
      | None \<Rightarrow> (case fetch of
            Inl e \<Rightarrow> (Inl e, c)
          | Inr fresh \<Rightarrow> (Inr fresh, cache_store now fresh c)))"


lemma cache_lookup_store [simp]:
  "cache_lookup now (cache_store t rs c) = (if now - t < cache_ttl then Some rs else None)"
  by (simp add: cache_lookup_def cache_store_def)

interpretation rule_cache: refresh_cache cache_lookup cache_store invalidate_policy_rule_cache
    empty_cache cache_ttl
  by unfold_locales
    (simp_all add: cache_lookup_def cache_store_def invalidate_policy_rule_cache_def empty_cache_def)

text \<open>Whatever refreshes and invalidations interleave, the rules a lookup serves at an
  instant are those the table held less than 60 seconds before.\<close>

theorem cached_rules_bounded_staleness:
  assumes "fill_reach cache_lookup cache_store invalidate_policy_rule_cache table empty_cache s"
    and "cache_lookup (fs_now s) (fs_cache s) = Some rs"
  shows "\<exists>t0. fs_now s - seconds 60 < t0 \<and> t0 \<le> fs_now s \<and> rs = table t0"
  using rule_cache.served_fresh [OF assms(1) order_refl assms(2)] by (simp add: cache_ttl_def)

text \<open>An invalidation does not always take effect at once: a refresh that read the table
  before the edit and stores after the invalidation serves the old rules again.\<close>

theorem cached_rules_stale_after_invalidation:
  assumes "t1 < t2" and "t2 - t1 < seconds 60"
  shows "\<exists>s s'. fill_reach cache_lookup cache_store invalidate_policy_rule_cache table empty_cache s \<and>
      fs_now s = t2 \<and> fs_cache s = invalidate_policy_rule_cache empty_cache \<and>
      fill_step cache_lookup cache_store invalidate_policy_rule_cache table s s' \<and>
      cache_lookup (fs_now s') (fs_cache s') = Some (table t1)"
  using rule_cache.stale_after_invalidate [of t1 t2 table] assms by (fastforce simp: cache_ttl_def)

section \<open>Concrete instances\<close>

lemma cached_rules_bounded_staleness_witness:
  "\<exists>s t0. fill_reach cache_lookup cache_store invalidate_policy_rule_cache (\<lambda>_. []) empty_cache s \<and>
     fs_now s = 2 \<and> 2 - seconds 60 < t0 \<and> t0 \<le> 2"
proof -
  let ?R = "fill_reach cache_lookup cache_store invalidate_policy_rule_cache (\<lambda>_. [] :: policy_rule list) empty_cache"
  have "(1::int) < 2" and "(2::int) - 1 < cache_ttl" by (simp_all add: cache_ttl_def)
  from rule_cache.stale_after_invalidate [OF this, of "\<lambda>_. []"] obtain s s' where
    "?R s" "fill_step cache_lookup cache_store invalidate_policy_rule_cache (\<lambda>_. []) s s'"
    "fs_now s' = 2" "cache_lookup 2 (fs_cache s') = Some []" by blast
  moreover from this have r: "?R s'" by (blast intro: fill_reach.step)
  ultimately show ?thesis using cached_rules_bounded_staleness [OF r] by force
qed

lemma cached_rules_stale_after_invalidation_witness:
  "\<exists>s. fill_reach cache_lookup cache_store invalidate_policy_rule_cache (\<lambda>_. []) empty_cache s \<and> fs_now s = 2"
  using cached_rules_stale_after_invalidation [of 1 2 "\<lambda>_. []"] by auto

end
