(* ===== verification/Policy_Identity.thy ===== *)
theory Policy_Identity
  imports Py_Text "HOL-Library.Multiset"
begin

text \<open>
  Request identity, \<^verbatim>\<open>app/modules/policy/fingerprint.py\<close> and the class
  \<^verbatim>\<open>RequestFingerprint\<close> of \<^verbatim>\<open>models.py\<close>: the normalization profiles, the digest of the
  arguments, the extraction of the identity fields from a control request of any JSON shape, and
  the fingerprint a decision binds to.

  The two digests \<^verbatim>\<open>sha256(json.dumps(...))\<close> are parameters: functions from the JSON value
  that is serialised to the hexadecimal string.
\<close>

section \<open>Normalization profiles\<close>

definition profile_generic :: string where "profile_generic = ''generic''"
definition profile_bash_command :: string where "profile_bash_command = ''bash-command''"
definition profile_file_path :: string where "profile_file_path = ''file-path''"
definition profile_version :: int where "profile_version = 1"

fun canonical_mapping :: "json \<Rightarrow> json" where
  "canonical_mapping (JObj kvs) = JObj (sort_key fst (map (\<lambda>(k, v). (k, canonical_mapping v)) kvs))"
| "canonical_mapping (JList vs) = JList (map canonical_mapping vs)"
| "canonical_mapping v = v"

definition normalize_generic :: "json \<Rightarrow> json" where
  "normalize_generic args = (if is_obj args then canonical_mapping args else args)"

definition is_flag :: "string \<Rightarrow> bool" where
  "is_flag t \<longleftrightarrow> py_startswith t ''-'' \<and> t \<noteq> ''-''"

definition command_tokens :: "string \<Rightarrow> string list" where
  "command_tokens command =
     (case shlex_split command of Some ts \<Rightarrow> ts | None \<Rightarrow> py_split_ws command)"

definition normalize_tokens :: "string list \<Rightarrow> string list" where
  "normalize_tokens tokens =
     (let flags = sort (filter is_flag tokens);
          non_flags = filter (\<lambda>t. \<not> is_flag t) tokens
      in case non_flags of [] \<Rightarrow> flags | p # ps \<Rightarrow> p # flags @ ps)"

definition normalize_command :: "string \<Rightarrow> string" where
  "normalize_command command =
     (if py_strip command = [] then command
      else py_join '' '' (normalize_tokens (command_tokens command)))"

fun collapse_slashes :: "string \<Rightarrow> string" where
  "collapse_slashes (a # b # s) =
     (if a = CHR ''/'' \<and> b = CHR ''/'' then collapse_slashes (b # s) else a # collapse_slashes (b # s))"
| "collapse_slashes s = s"

definition fold_home :: "string option \<Rightarrow> string \<Rightarrow> string" where
  "fold_home home path =
     (case home of
        Some h \<Rightarrow>
          (if h = [] then path
           else if path = h then ''~''
           else if py_startswith path (py_rstrip CHR ''/'' h @ ''/'')
           then ''~'' @ drop (length (py_rstrip CHR ''/'' h)) path
           else path)
      | None \<Rightarrow> path)"

definition home_token :: "string \<Rightarrow> string" where
  "home_token p = (if py_startswith p ''~'' then ''<HOME>'' @ drop 1 p else p)"

definition normalize_path :: "string option \<Rightarrow> string \<Rightarrow> string" where
  "normalize_path home path =
     (if path = [] then path
      else
        let p = collapse_slashes (home_token (fold_home home path))
        in if length p > 1 \<and> py_endswith p ''/'' then py_rstrip CHR ''/'' p else p)"

text \<open>\<open>if key in out and isinstance(out[key], str): out[key] = f(out[key])\<close>\<close>

definition map_str_field :: "(string \<Rightarrow> string) \<Rightarrow> string \<Rightarrow> json \<Rightarrow> json" where
  "map_str_field f key v =
     (case v of
        JObj kvs \<Rightarrow> JObj (map (\<lambda>(k, x). (k, if k = key then (case x of JStr s \<Rightarrow> JStr (f s) | _ \<Rightarrow> x) else x)) kvs)
      | _ \<Rightarrow> v)"

definition command_keys :: "string list" where
  "command_keys = [''command'', ''cmd'']"

definition path_keys :: "string list" where
  "path_keys = [''file_path'', ''path'', ''filename'', ''file'', ''notebook_path'']"

definition normalize_bash_command :: "json \<Rightarrow> json" where
  "normalize_bash_command args =
     fold (map_str_field normalize_command) command_keys (normalize_generic args)"

definition normalize_file_path :: "string option \<Rightarrow> json \<Rightarrow> json" where
  "normalize_file_path home args =
     fold (map_str_field (normalize_path home)) path_keys (normalize_generic args)"

definition profiles_registry ::
    "string \<times> int \<Rightarrow> (json \<Rightarrow> string option \<Rightarrow> json) option" where
  "profiles_registry p =
     (if p = (profile_generic, profile_version) then Some (\<lambda>args home. normalize_generic args)
      else if p = (profile_bash_command, profile_version) then Some (\<lambda>args home. normalize_bash_command args)
      else if p = (profile_file_path, profile_version) then Some (\<lambda>args home. normalize_file_path home args)
      else None)"

definition get_profile :: "string option \<Rightarrow> int option \<Rightarrow> string \<times> int" where
  "get_profile profile_id version =
     (let pid = (if truthy_str profile_id then the profile_id else profile_generic);
          ver = (case version of None \<Rightarrow> profile_version | Some n \<Rightarrow> if n = 0 then profile_version else n)
      in if profiles_registry (pid, ver) = None then (profile_generic, profile_version) else (pid, ver))"

definition compute_args_digest ::
    "(json \<Rightarrow> string) \<Rightarrow> string \<Rightarrow> int \<Rightarrow> json \<Rightarrow> string option \<Rightarrow> string" where
  "compute_args_digest sha pid pver args home =
     (let normalizer = (case profiles_registry (pid, pver) of Some f \<Rightarrow> f | None \<Rightarrow> (\<lambda>a h. normalize_generic a))
      in sha (normalizer (if is_obj args then args else JObj [(''value'', args)]) home))"

section \<open>Fingerprints\<close>

record fingerprint =
  fp_tool :: json
  fp_action :: json
  fp_args_digest :: string
  fp_profile_id :: string
  fp_profile_version :: int
  fp_machine_id :: "string option"
  fp_workspace_scope :: "string option"
  fp_resource_target :: json
  fp_policy_rule_id :: "int option"
  fp_policy_rule_version :: "int option"
  fp_request_id :: json
  fp_issued_ts :: "string option"

definition opt_int :: "int option \<Rightarrow> json" where
  "opt_int v = JInt (case v of None \<Rightarrow> 0 | Some n \<Rightarrow> n)"

definition canonical_payload :: "fingerprint \<Rightarrow> json" where
  "canonical_payload f =
     JObj [(''tool'', por (fp_tool f) (JStr [])),
           (''action'', por (fp_action f) (JStr [])),
           (''args_digest'', JStr (fp_args_digest f)),
           (''normalization_profile_id'', JStr (fp_profile_id f)),
           (''normalization_profile_version'', JInt (fp_profile_version f)),
           (''machine_id'', por (jopt (fp_machine_id f)) (JStr [])),
           (''workspace_scope'', por (jopt (fp_workspace_scope f)) (JStr [])),
           (''resource_target'', por (fp_resource_target f) (JStr [])),
           (''policy_rule_id'', opt_int (fp_policy_rule_id f)),
           (''policy_rule_version'', opt_int (fp_policy_rule_version f))]"

definition compute_fingerprint_hash :: "(json \<Rightarrow> string) \<Rightarrow> fingerprint \<Rightarrow> string" where
  "compute_fingerprint_hash sha f = sha (canonical_payload f)"

record request_fields =
  rf_request_id :: json
  rf_action :: json
  rf_tool :: json
  rf_args :: json
  rf_command :: json
  rf_file_path :: json
  rf_resource_target :: json

text \<open>\<open>next((args.get(k) for k in keys if args.get(k)), None)\<close>\<close>

fun first_truthy :: "json \<Rightarrow> string list \<Rightarrow> json" where
  "first_truthy args [] = JNull"
| "first_truthy args (k # ks) = (if truthy (jget args k) then jget args k else first_truthy args ks)"

definition request_object :: "json \<Rightarrow> json" where
  "request_object control_request =
     (let request = jget control_request ''request'' in if is_obj request then request else JObj [])"

definition request_args :: "json \<Rightarrow> json" where
  "request_args request =
     (if is_obj (jget request ''input'') then jget request ''input''
      else if is_obj (jget request ''args'') then jget request ''args''
      else (case request of
              JObj kvs \<Rightarrow> JObj (filter (\<lambda>(k, v). k \<notin> {''subtype'', ''tool_name'', ''request_id''}) kvs)
            | _ \<Rightarrow> JObj []))"

definition extract_request_fields :: "json \<Rightarrow> request_fields" where
  "extract_request_fields control_request =
     (if \<not> is_obj control_request
      then \<lparr>rf_request_id = JNull, rf_action = JNull, rf_tool = JNull, rf_args = JNull,
            rf_command = JNull, rf_file_path = JNull, rf_resource_target = JNull\<rparr>
      else
        let request = request_object control_request;
            request_id = por (por (jget control_request ''request_id'') (jget request ''request_id''))
                             (jget control_request ''id'');
            action = por (por (jget request ''subtype'') (jget request ''action''))
                         (jget control_request ''subtype'');
            tool = por (jget request ''tool_name'') (jget control_request ''tool_name'');
            args = request_args request;
            command = first_truthy args command_keys;
            file_path = first_truthy args path_keys
        in \<lparr>rf_request_id = request_id, rf_action = action, rf_tool = tool, rf_args = args,
            rf_command = command, rf_file_path = file_path,
            rf_resource_target = por command file_path\<rparr>)"

definition select_profile :: "json \<Rightarrow> json \<Rightarrow> string \<times> int" where
  "select_profile command file_path =
     (if truthy command then (profile_bash_command, profile_version)
      else if truthy file_path then (profile_file_path, profile_version)
      else (profile_generic, profile_version))"

definition build_fingerprint ::
    "(json \<Rightarrow> string) \<Rightarrow> json \<Rightarrow> string option \<Rightarrow> string option \<Rightarrow> string option \<Rightarrow> int option \<Rightarrow>
     int option \<Rightarrow> string option \<Rightarrow> (string \<times> int) option \<Rightarrow> fingerprint \<times> string \<times> json" where
  "build_fingerprint sha control_request machine_id workspace_scope home rule_id rule_version
     issued_ts profile_override =
     (let fields = extract_request_fields control_request;
          args = por (rf_args fields) (JObj []);
          (pid, pver) = (case profile_override of
              Some p \<Rightarrow> p
            | None \<Rightarrow> select_profile (rf_command fields) (rf_file_path fields));
          digest = compute_args_digest sha pid pver args home
      in (\<lparr>fp_tool = rf_tool fields, fp_action = rf_action fields, fp_args_digest = digest,
           fp_profile_id = pid, fp_profile_version = pver, fp_machine_id = machine_id,
           fp_workspace_scope = workspace_scope, fp_resource_target = rf_resource_target fields,
           fp_policy_rule_id = rule_id, fp_policy_rule_version = rule_version,
           fp_request_id = rf_request_id fields, fp_issued_ts = issued_ts\<rparr>,
          digest, rf_resource_target fields))"

section \<open>Facts about the normalizers\<close>

lemma normalize_tokens_operands [simp]:
  "filter (\<lambda>t. \<not> is_flag t) (normalize_tokens ts) = filter (\<lambda>t. \<not> is_flag t) ts"
proof -
  have "filter (\<lambda>t. \<not> is_flag t) (sort (filter is_flag ts)) = []"
    by (simp add: filter_empty_conv)
  then show ?thesis
    by (auto simp: normalize_tokens_def Let_def filter_eq_Cons_iff split: list.splits)
qed

lemma mset_filter_split:
  "mset (filter P ts) + mset (filter (\<lambda>t. \<not> P t) ts) = mset ts"
  by (induction ts) auto

lemma mset_normalize_tokens [simp]: "mset (normalize_tokens ts) = mset ts"
proof -
  have "mset (normalize_tokens ts) = mset (filter is_flag ts) + mset (filter (\<lambda>t. \<not> is_flag t) ts)"
    by (cases "filter (\<lambda>t. \<not> is_flag t) ts")
      (simp_all add: normalize_tokens_def Let_def del: mset_filter)
  then show ?thesis by (simp only: mset_filter_split)
qed

lemma sort_mset_cong: "mset xs = mset ys \<Longrightarrow> sort xs = sort ys"
  by (metis mset_sort properties_for_sort sorted_sort)

lemma normalize_tokens_cong:
  assumes "filter (\<lambda>t. \<not> is_flag t) ts = filter (\<lambda>t. \<not> is_flag t) us"
    and "mset (filter is_flag ts) = mset (filter is_flag us)"
  shows "normalize_tokens ts = normalize_tokens us"
  using assms(1) sort_mset_cong [OF assms(2)] by (simp add: normalize_tokens_def)

lemma normalize_tokens_idem [simp]: "normalize_tokens (normalize_tokens ts) = normalize_tokens ts"
  by (rule normalize_tokens_cong) simp_all

fun no_double_slash :: "string \<Rightarrow> bool" where
  "no_double_slash (a # b # s) \<longleftrightarrow> \<not> (a = CHR ''/'' \<and> b = CHR ''/'') \<and> no_double_slash (b # s)"
| "no_double_slash s \<longleftrightarrow> True"

lemma collapse_hd [simp]: "collapse_slashes (a # s) \<noteq> [] \<and> hd (collapse_slashes (a # s)) = a"
  by (induction "a # s" arbitrary: a s rule: collapse_slashes.induct) auto

lemma collapse_no_double: "no_double_slash (collapse_slashes s)"
proof (induction s rule: collapse_slashes.induct)
  case (1 a b s)
  then show ?case
    by (cases "collapse_slashes (b # s)") (use collapse_hd [of b s] in auto)
qed auto

lemma collapse_id: "no_double_slash s \<Longrightarrow> collapse_slashes s = s"
  by (induction s rule: no_double_slash.induct) auto

lemma no_double_append:
  "no_double_slash (s @ t) \<longleftrightarrow> no_double_slash s \<and> no_double_slash t \<and>
     \<not> (s \<noteq> [] \<and> t \<noteq> [] \<and> last s = CHR ''/'' \<and> hd t = CHR ''/'')"
  by (induction s rule: no_double_slash.induct) (cases t; auto)+

lemma rstrip_no_double:
  assumes "no_double_slash s" and "py_endswith s ''/''"
  shows "py_rstrip CHR ''/'' s = butlast s \<and> s = butlast s @ ''/'' \<and>
    (butlast s = [] \<or> last (butlast s) \<noteq> CHR ''/'')"
proof -
  from assms obtain u where u: "s = u @ ''/''"
    by (cases s rule: rev_cases) (auto simp: py_endswith_def py_startswith_def)
  with assms(1) have "u = [] \<or> last u \<noteq> CHR ''/''" by (auto simp: no_double_append)
  with py_rstrip_id [OF this] u show ?thesis by (simp add: py_rstrip_def)
qed

text \<open>The normal form of a path: no doubled slash, no trailing one, no leading tilde.\<close>

definition path_normal :: "string \<Rightarrow> bool" where
  "path_normal p \<longleftrightarrow> no_double_slash p \<and> \<not> (length p > 1 \<and> py_endswith p ''/'') \<and>
     \<not> py_startswith p ''~''"

lemma py_endswith_char: "py_endswith s [c] \<longleftrightarrow> s \<noteq> [] \<and> last s = c"
  by (cases s rule: rev_cases) (auto simp: py_endswith_def py_startswith_def)

lemma py_startswith_char: "py_startswith s [c] \<longleftrightarrow> s \<noteq> [] \<and> hd s = c"
  by (cases s) (auto simp: py_startswith_def)

lemma home_token_ok: "p \<noteq> [] \<Longrightarrow> home_token p \<noteq> [] \<and> hd (home_token p) \<noteq> CHR ''~''"
  by (cases p) (auto simp: home_token_def py_startswith_char)

lemma collapse_start: "s \<noteq> [] \<Longrightarrow> collapse_slashes s \<noteq> [] \<and> hd (collapse_slashes s) = hd s"
  by (cases s) (auto simp del: collapse_slashes.simps)

lemma fold_home_nonempty [simp]: "path \<noteq> [] \<Longrightarrow> fold_home home path \<noteq> []"
  by (auto simp: fold_home_def split: option.splits)

lemma path_normal_id: "path_normal p \<Longrightarrow> normalize_path None p = p"
  by (auto simp: path_normal_def normalize_path_def fold_home_def home_token_def collapse_id Let_def)

lemma path_normal_normalize: "path_normal (normalize_path home path)"
proof (cases "path = []")
  case True
  then show ?thesis by (simp add: normalize_path_def path_normal_def py_startswith_char)
next
  case False
  define p where "p = collapse_slashes (home_token (fold_home home path))"
  have nd: "no_double_slash p" by (simp add: p_def collapse_no_double)
  have st: "p \<noteq> []" "hd p \<noteq> CHR ''~''"
    using collapse_start home_token_ok [of "fold_home home path"] False by (auto simp: p_def)
  show ?thesis
  proof (cases "length p > 1 \<and> py_endswith p ''/''")
    case True
    with rstrip_no_double [OF nd] obtain q where q: "py_rstrip CHR ''/'' p = q" "p = q @ ''/''"
      and "q = [] \<or> last q \<noteq> CHR ''/''" by blast
    with True st nd have "path_normal q"
      by (auto simp: path_normal_def no_double_append py_endswith_char py_startswith_char hd_append)
    with q True False show ?thesis by (simp add: normalize_path_def flip: p_def)
  next
    case False
    with st nd have "path_normal p" by (auto simp: path_normal_def py_startswith_char)
    with False \<open>path \<noteq> []\<close> show ?thesis by (auto simp: normalize_path_def simp flip: p_def)
  qed
qed

text \<open>The file-path profile brings every path into the normal form (no doubled slash, no
  trailing slash but for the root, no unresolved tilde), whatever the home directory, and leaves
  a path in that form alone.\<close>

theorem normalize_path_normal_form:
  "path_normal (normalize_path home path) \<and>
   normalize_path None (normalize_path home path) = normalize_path home path"
  using path_normal_normalize path_normal_id by blast

text \<open>A path under the home directory and the same path written with a tilde are given the
  same normal form.\<close>

theorem home_path_folds:
  assumes "h \<noteq> []" and "last h \<noteq> CHR ''/''"
  shows "normalize_path (Some h) (h @ ''/'' @ rest) = normalize_path None (''~/'' @ rest)"
proof -
  from assms have "py_rstrip CHR ''/'' h = h" by (simp add: py_rstrip_id)
  moreover have "py_startswith (h @ ''/'' @ rest) (h @ ''/'')"
    using py_startswith_append [of "h @ ''/''" rest] by simp
  ultimately have "fold_home (Some h) (h @ ''/'' @ rest) = ''~/'' @ rest"
    using assms(1) by (simp add: fold_home_def)
  then show ?thesis by (simp add: normalize_path_def) (simp add: fold_home_def)
qed

lemma home_path_folds_witness:
  "normalize_path (Some ''/root'') ''/root/a//b/'' = normalize_path None ''~/a//b/'' \<and>
   normalize_path None ''~/a//b/'' = ''<HOME>/a/b''"
  using home_path_folds [of "''/root''" "''a//b/''"] by simp code_simp

text \<open>Two token lists of a command are given one normal form exactly when they have the same
  operands in the same order and the same flags with the same multiplicities.\<close>

theorem normalize_tokens_iff:
  "normalize_tokens ts = normalize_tokens us \<longleftrightarrow>
     filter (\<lambda>t. \<not> is_flag t) ts = filter (\<lambda>t. \<not> is_flag t) us \<and>
     mset (filter is_flag ts) = mset (filter is_flag us)"
proof
  assume eq: "normalize_tokens ts = normalize_tokens us"
  have "mset (filter is_flag ts) = mset (filter is_flag us)"
    using arg_cong [OF eq, of mset] by simp
  moreover have "filter (\<lambda>t. \<not> is_flag t) ts = filter (\<lambda>t. \<not> is_flag t) us"
    using arg_cong [OF eq, of "filter (\<lambda>t. \<not> is_flag t)"] by simp
  ultimately show "filter (\<lambda>t. \<not> is_flag t) ts = filter (\<lambda>t. \<not> is_flag t) us \<and>
      mset (filter is_flag ts) = mset (filter is_flag us)" by blast
qed (blast intro: normalize_tokens_cong)

lemma canonical_mapping_perm:
  assumes "mset kvs = mset kvs'" and "distinct (map fst kvs)"
  shows "canonical_mapping (JObj kvs) = canonical_mapping (JObj kvs')"
proof -
  let ?f = "\<lambda>(k, v). (k, canonical_mapping v)"
  have "mset (map ?f kvs) = mset (map ?f kvs')" using assms(1) by simp
  moreover have "inj_on fst (set (map ?f kvs))"
    using assms(2) by (auto simp: inj_on_def dest: eq_key_imp_eq_value)
  ultimately have "sort_key fst (map ?f kvs) = sort_key fst (map ?f kvs')"
    by (intro sort_key_inj_key_eq) auto
  then show ?thesis by simp
qed

text \<open>The digest of the arguments does not depend on the order their keys arrive in, under any
  profile.\<close>

theorem args_digest_order_insensitive:
  assumes "mset kvs = mset kvs'" and "distinct (map fst kvs)"
  shows "compute_args_digest sha pid pver (JObj kvs) home = compute_args_digest sha pid pver (JObj kvs') home"
proof -
  have "normalize_generic (JObj kvs) = normalize_generic (JObj kvs')"
    using canonical_mapping_perm [OF assms] by (simp add: normalize_generic_def is_obj_def)
  then show ?thesis
    by (simp add: compute_args_digest_def profiles_registry_def normalize_bash_command_def
        normalize_file_path_def is_obj_def)
qed

lemma args_digest_order_insensitive_witness:
  "compute_args_digest (\<lambda>_. []) profile_file_path 1 (JObj [(''path'', JStr ''/a//b''), (''mode'', JInt 3)]) None =
   compute_args_digest (\<lambda>_. []) profile_file_path 1 (JObj [(''mode'', JInt 3), (''path'', JStr ''/a//b'')]) None"
  by (rule args_digest_order_insensitive) simp_all

text \<open>The bash profile gives some pairs of different commands one digest: flags move away from
  the values they take, and quoting is lost when the tokens are joined. A decision bound to one of
  them is bound to the other, whatever the hash function.\<close>

definition command_request :: "string \<Rightarrow> json" where
  "command_request c = JObj [(''command'', JStr c)]"

theorem bash_profile_collapses:
  "compute_args_digest sha profile_bash_command 1 (command_request ''tar -c a -f b'') home =
     compute_args_digest sha profile_bash_command 1 (command_request ''tar -f a -c b'') home \<and>
   compute_args_digest sha profile_bash_command 1 (command_request (''rm '' @ [dq] @ ''a b'' @ [dq])) home =
     compute_args_digest sha profile_bash_command 1 (command_request ''rm a b'') home"
proof -
  have "normalize_command ''tar -c a -f b'' = normalize_command ''tar -f a -c b''"
    and "normalize_command (''rm '' @ [dq] @ ''a b'' @ [dq]) = normalize_command ''rm a b''"
    by code_simp+
  then show ?thesis
    by (simp add: compute_args_digest_def profiles_registry_def profile_generic_def
        profile_bash_command_def profile_version_def command_request_def normalize_bash_command_def
        normalize_generic_def is_obj_def command_keys_def map_str_field_def)
qed

text \<open>Two fingerprints hash alike under every hash function exactly when they agree on the tool,
  the action, the arguments, the profile, the machine, the workspace, the target and the rule
  version (falsy values standing for each other); the request id and the instant of issue never
  matter.\<close>

theorem fingerprint_hash_binds:
  "(\<forall>sha. compute_fingerprint_hash sha f = compute_fingerprint_hash sha g) \<longleftrightarrow>
     por (fp_tool f) (JStr []) = por (fp_tool g) (JStr []) \<and>
     por (fp_action f) (JStr []) = por (fp_action g) (JStr []) \<and>
     fp_args_digest f = fp_args_digest g \<and> fp_profile_id f = fp_profile_id g \<and>
     fp_profile_version f = fp_profile_version g \<and>
     por (jopt (fp_machine_id f)) (JStr []) = por (jopt (fp_machine_id g)) (JStr []) \<and>
     por (jopt (fp_workspace_scope f)) (JStr []) = por (jopt (fp_workspace_scope g)) (JStr []) \<and>
     por (fp_resource_target f) (JStr []) = por (fp_resource_target g) (JStr []) \<and>
     opt_int (fp_policy_rule_id f) = opt_int (fp_policy_rule_id g) \<and>
     opt_int (fp_policy_rule_version f) = opt_int (fp_policy_rule_version g)"
proof -
  have "(\<forall>sha. sha a = (sha b :: string)) \<longleftrightarrow> a = b" for a b :: json
  proof
    assume "\<forall>sha. sha a = (sha b :: string)"
    from this [rule_format, of "\<lambda>x. if x = a then [] else ''x''"] show "a = b"
      by (simp split: if_splits)
  qed simp
  then show ?thesis
    by (simp add: compute_fingerprint_hash_def canonical_payload_def)
qed

end
