(* ===== verification/Policy_Engine.thy ===== *)
theory Policy_Engine
  imports Policy_Rules Policy_Identity
begin

text \<open>
  The evaluator of \<^verbatim>\<open>app/modules/policy/evaluator.py\<close>: the context, scope and target matching
  with the cache of compiled patterns, the ranking of the rules and the fail-closed entry point.

  \<^verbatim>\<open>fnmatch\<close> patterns are modelled; the regular-expression engine is the parameter
  \<open>rx\<close>: the predicate \<^verbatim>\<open>re.compile(p).search(v) is not None\<close>, or \<open>None\<close> when
  \<^verbatim>\<open>re.compile\<close> refuses the pattern.
\<close>

section \<open>fnmatch patterns\<close>

datatype glob_item = GStar | GAny | GLit char | GClass bool "(char \<times> char) list"

text \<open>The members of a bracket expression: ranges, a single character being a range of one.\<close>

fun class_ranges :: "string \<Rightarrow> (char \<times> char) list" where
  "class_ranges (c # d # e # s) =
     (if d = CHR ''-'' then (c, e) # class_ranges s else (c, c) # class_ranges (d # e # s))"
| "class_ranges [c, d] = [(c, c), (d, d)]"
| "class_ranges [c] = [(c, c)]"
| "class_ranges [] = []"

text \<open>
  What follows an opening bracket: whether the class is negated, its members, and the rest of the
  pattern; \<open>None\<close> when no bracket closes it. A closing bracket in first position is a member.
\<close>

definition class_split :: "string \<Rightarrow> (bool \<times> string \<times> string) option" where
  "class_split s =
     (let neg = py_startswith s ''!'';
          s1 = (if neg then drop 1 s else s);
          lead = (if py_startswith s1 '']'' then '']'' else []);
          s2 = drop (length lead) s1
      in case dropWhile (\<lambda>c. c \<noteq> CHR '']'') s2 of
           [] \<Rightarrow> None
         | _ # rest \<Rightarrow> Some (neg, lead @ takeWhile (\<lambda>c. c \<noteq> CHR '']'') s2, rest))"

lemma class_split_shorter: "class_split s = Some (neg, body, rest) \<Longrightarrow> length rest < length s"
proof -
  assume a: "class_split s = Some (neg, body, rest)"
  define s2 where "s2 = drop (length (if py_startswith (if py_startswith s ''!'' then drop 1 s else s) '']'' then '']'' else []))
      (if py_startswith s ''!'' then drop 1 s else s)"
  from a obtain c where "dropWhile (\<lambda>c. c \<noteq> CHR '']'') s2 = c # rest"
    by (auto simp: class_split_def Let_def s2_def split: list.splits if_splits)
  then have "length (c # rest) \<le> length s2" by (metis length_dropWhile_le)
  moreover have "length s2 \<le> length s" by (simp add: s2_def)
  ultimately show ?thesis by simp
qed

function glob_parse :: "string \<Rightarrow> glob_item list" where
  "glob_parse [] = []"
| "glob_parse (c # s) =
     (if c = CHR ''*'' then GStar # glob_parse s
      else if c = CHR ''?'' then GAny # glob_parse s
      else if c = CHR ''['' then
        (case class_split s of
           None \<Rightarrow> GLit c # glob_parse s
         | Some (neg, body, rest) \<Rightarrow> GClass neg (class_ranges body) # glob_parse rest)
      else GLit c # glob_parse s)"
  by pat_completeness auto
termination
  by (relation "measure length") (auto dest: class_split_shorter)

fun item_ok :: "glob_item \<Rightarrow> char \<Rightarrow> bool" where
  "item_ok GStar c = True"
| "item_ok GAny c = True"
| "item_ok (GLit d) c = (c = d)"
| "item_ok (GClass neg rs) c = ((\<exists>(lo, hi)\<in>set rs. lo \<le> c \<and> c \<le> hi) \<noteq> neg)"

fun glob_match :: "glob_item list \<Rightarrow> string \<Rightarrow> bool" where
  "glob_match [] s = (s = [])"
| "glob_match (GStar # gs) [] = glob_match gs []"
| "glob_match (GStar # gs) (c # s) = (glob_match gs (c # s) \<or> glob_match (GStar # gs) s)"
| "glob_match (g # gs) [] = False"
| "glob_match (g # gs) (c # s) = (item_ok g c \<and> glob_match gs s)"

section \<open>Contexts and results\<close>

definition target_model_selection :: string where "target_model_selection = ''model_selection''"
definition target_tool_action :: string where "target_tool_action = ''tool_action''"

record policy_context =
  cx_target_kind :: string
  cx_tenant_id :: "int option"
  cx_project_path :: "string option"
  cx_machine_id :: "string option"
  cx_user_id :: "int option"
  cx_team_id :: "string option"
  cx_model :: "string option"
  cx_provider :: "string option"
  cx_tool :: json
  cx_action :: json
  cx_resource_target :: json
  cx_control_request :: json
  cx_home_dir :: "string option"
  cx_request_id :: json
  cx_issued_ts :: "string option"

record evaluation_result =
  er_decision :: decision
  er_matched_rule :: "policy_rule option"
  er_reason :: string
  er_fingerprint :: "fingerprint option"
  er_fingerprint_hash :: "string option"
  er_args_digest :: "string option"
  er_resource_target :: json
  er_fell_back :: bool

definition effect_to_decision :: "string \<Rightarrow> decision" where
  "effect_to_decision effect =
     (if effect = effect_allow then ALLOW else if effect = effect_deny then DENY else REQUIRE_HUMAN)"

section \<open>Scope and specificity\<close>

definition scope_weight_machine :: int where "scope_weight_machine = 100"
definition scope_weight_project :: int where "scope_weight_project = 50"
definition scope_weight_user :: int where "scope_weight_user = 20"
definition scope_weight_team :: int where "scope_weight_team = 10"
definition scope_weight_tenant :: int where "scope_weight_tenant = 5"

definition dim_match :: "'a option \<Rightarrow> 'a option \<Rightarrow> bool" where
  "dim_match rv cv \<longleftrightarrow> rv = None \<or> rv = cv"

definition scope_match :: "policy_rule \<Rightarrow> policy_context \<Rightarrow> bool" where
  "scope_match r ctx \<longleftrightarrow>
     dim_match (rb_tenant_id r) (cx_tenant_id ctx) \<and> dim_match (rb_project_path r) (cx_project_path ctx) \<and>
     dim_match (rb_machine_id r) (cx_machine_id ctx) \<and> dim_match (rb_user_id r) (cx_user_id ctx) \<and>
     dim_match (rb_team_id r) (cx_team_id ctx)"

definition specificity :: "policy_rule \<Rightarrow> int" where
  "specificity r =
     (if rb_tenant_id r \<noteq> None then scope_weight_tenant else 0) +
     (if rb_project_path r \<noteq> None then scope_weight_project else 0) +
     (if rb_machine_id r \<noteq> None then scope_weight_machine else 0) +
     (if rb_user_id r \<noteq> None then scope_weight_user else 0) +
     (if rb_team_id r \<noteq> None then scope_weight_team else 0)"

definition rank :: "policy_rule \<Rightarrow> int \<times> int \<times> string" where
  "rank r = (- specificity r, rb_priority r, case pr_created_at r of None \<Rightarrow> [] | Some s \<Rightarrow> s)"

section \<open>Target matching\<close>

type_synonym matcher = "string \<Rightarrow> bool"
type_synonym matcher_cache = "(string \<times> string, matcher option) dict"

definition compile_pattern :: "(string \<Rightarrow> matcher option) \<Rightarrow> string \<Rightarrow> string \<Rightarrow> matcher option" where
  "compile_pattern rx pattern_type pattern =
     (if pattern_type = pattern_regex then rx pattern else Some (glob_match (glob_parse pattern)))"

definition compile ::
    "(string \<Rightarrow> matcher option) \<Rightarrow> string \<Rightarrow> string \<Rightarrow> matcher_cache \<Rightarrow> matcher option \<times> matcher_cache" where
  "compile rx pattern_type pattern c =
     (case map_of c (pattern_type, pattern) of
        Some m \<Rightarrow> (m, c)
      | None \<Rightarrow> let m = compile_pattern rx pattern_type pattern
                in (m, AList.update (pattern_type, pattern) m c))"

definition pattern_match ::
    "(string \<Rightarrow> matcher option) \<Rightarrow> policy_rule \<Rightarrow> json \<Rightarrow> matcher_cache \<Rightarrow> bool result \<times> matcher_cache" where
  "pattern_match rx r value c =
     (if \<not> truthy value \<or> \<not> truthy_str (rb_pattern r) then (Inr False, c)
      else
        let (m, c') = compile rx (rb_pattern_type r) (the (rb_pattern r)) c in
        (case m of
           None \<Rightarrow> (Inr False, c')
         | Some f \<Rightarrow> (case value of JStr s \<Rightarrow> (Inr (f s), c') | _ \<Rightarrow> (Inl TypeError, c'))))"

text \<open>Python's \<open>value in value_list\<close> for a string and a JSON value.\<close>

definition value_in :: "string \<Rightarrow> json \<Rightarrow> bool result" where
  "value_in v vl =
     (case vl of
        JList xs \<Rightarrow> Inr (JStr v \<in> set xs)
      | JObj kvs \<Rightarrow> Inr (v \<in> fst ` set kvs)
      | JStr s \<Rightarrow> Inr (py_contains v s)
      | _ \<Rightarrow> Inl TypeError)"

definition value_match ::
    "(string \<Rightarrow> matcher option) \<Rightarrow> policy_rule \<Rightarrow> string option \<Rightarrow> matcher_cache \<Rightarrow>
     bool result \<times> matcher_cache" where
  "value_match rx r value c =
     (if truthy (rb_value_list r) then
        (if truthy_str value then value_in (the value) (rb_value_list r) else Inr False, c)
      else if truthy_str (rb_pattern r) then pattern_match rx r (jopt value) c
      else (Inr True, c))"

definition target_match ::
    "(string \<Rightarrow> matcher option) \<Rightarrow> policy_context \<Rightarrow> json \<Rightarrow> policy_rule \<Rightarrow> matcher_cache \<Rightarrow>
     bool result \<times> matcher_cache" where
  "target_match rx ctx resource_target r c =
     (if rb_policy_type r \<in> set model_selection_types then
        value_match rx r (if rb_policy_type r = ''model'' then cx_model ctx else cx_provider ctx) c
      else if truthy_str (rb_tool_name r) \<and> jopt (rb_tool_name r) \<noteq> cx_tool ctx then (Inr False, c)
      else if truthy_str (rb_action r) \<and> jopt (rb_action r) \<noteq> cx_action ctx then (Inr False, c)
      else if rb_policy_type r = ''tool_action'' then
        (if truthy_str (rb_pattern r) then pattern_match rx r resource_target c else (Inr True, c))
      else if \<not> truthy_str (rb_pattern r) then (Inr False, c)
      else pattern_match rx r resource_target c)"

fun first_match ::
    "(policy_rule \<Rightarrow> matcher_cache \<Rightarrow> bool result \<times> matcher_cache) \<Rightarrow> policy_rule list \<Rightarrow> matcher_cache \<Rightarrow>
     policy_rule option result \<times> matcher_cache" where
  "first_match tm [] c = (Inr None, c)"
| "first_match tm (r # rs) c =
     (case tm r c of
        (Inl e, c') \<Rightarrow> (Inl e, c')
      | (Inr True, c') \<Rightarrow> (Inr (Some r), c')
      | (Inr False, c') \<Rightarrow> first_match tm rs c')"

section \<open>Evaluation\<close>

definition normalize_ctx :: "policy_context \<Rightarrow> policy_context" where
  "normalize_ctx ctx =
     (if cx_target_kind ctx \<noteq> target_tool_action \<or> \<not> truthy (cx_control_request ctx) then ctx
      else
        let fields = extract_request_fields (cx_control_request ctx);
            fill = (\<lambda>old new. if old = JNull then new else old)
        in ctx\<lparr>cx_tool := fill (cx_tool ctx) (rf_tool fields),
               cx_action := fill (cx_action ctx) (rf_action fields),
               cx_resource_target := fill (cx_resource_target ctx) (rf_resource_target fields),
               cx_request_id := fill (cx_request_id ctx) (rf_request_id fields)\<rparr>)"

definition generic_fingerprint ::
    "(json \<Rightarrow> string) \<Rightarrow> policy_context \<Rightarrow> json \<Rightarrow> json \<Rightarrow> json \<Rightarrow> json \<Rightarrow> fingerprint" where
  "generic_fingerprint sha ctx tool action args resource_target =
     \<lparr>fp_tool = tool, fp_action = action,
      fp_args_digest = compute_args_digest sha profile_generic profile_version args None,
      fp_profile_id = profile_generic, fp_profile_version = profile_version,
      fp_machine_id = cx_machine_id ctx, fp_workspace_scope = cx_project_path ctx,
      fp_resource_target = resource_target, fp_policy_rule_id = None,
      fp_policy_rule_version = None, fp_request_id = cx_request_id ctx,
      fp_issued_ts = cx_issued_ts ctx\<rparr>"

definition build_identity :: "(json \<Rightarrow> string) \<Rightarrow> policy_context \<Rightarrow> fingerprint" where
  "build_identity sha ctx =
     (if cx_target_kind ctx = target_model_selection then
        generic_fingerprint sha ctx JNull (JStr target_model_selection)
          (JObj [(''model'', jopt (cx_model ctx)), (''provider'', jopt (cx_provider ctx))])
          (jopt (cx_model ctx))
      else if truthy (cx_control_request ctx) then
        fst (build_fingerprint sha (cx_control_request ctx) (cx_machine_id ctx)
               (cx_project_path ctx) (cx_home_dir ctx) None None (cx_issued_ts ctx) None)
      else
        generic_fingerprint sha ctx (cx_tool ctx) (cx_action ctx)
          (JObj [(''tool'', cx_tool ctx), (''action'', cx_action ctx), (''target'', cx_resource_target ctx)])
          (cx_resource_target ctx))"

definition bind_rule :: "policy_rule option \<Rightarrow> fingerprint \<Rightarrow> fingerprint" where
  "bind_rule rule f =
     f\<lparr>fp_policy_rule_id := (case rule of None \<Rightarrow> None | Some r \<Rightarrow> pr_id r),
       fp_policy_rule_version := map_option pr_version rule\<rparr>"

definition rule_reason :: "policy_rule \<Rightarrow> string" where
  "rule_reason r =
     (if truthy_str (rb_description r) then the (rb_description r)
      else if rb_name r \<noteq> [] then rb_name r else ''rule '' @ rb_rule_key r)"

definition candidate_types :: "policy_context \<Rightarrow> string list" where
  "candidate_types ctx =
     (if cx_target_kind ctx = target_model_selection then model_selection_types else tool_action_types)"

definition fallback :: "policy_context \<Rightarrow> decision" where
  "fallback ctx = (if cx_target_kind ctx = target_model_selection then ALLOW else REQUIRE_HUMAN)"

definition ranked_rules :: "policy_context \<Rightarrow> policy_rule list \<Rightarrow> policy_rule list" where
  "ranked_rules ctx rules =
     sort_key rank (filter (\<lambda>r. scope_match r ctx)
       (filter (\<lambda>r. rb_policy_type r \<in> set (candidate_types ctx)) rules))"

definition outcome ::
    "(json \<Rightarrow> string) \<Rightarrow> policy_context \<Rightarrow> fingerprint \<Rightarrow> policy_rule option \<Rightarrow> evaluation_result" where
  "outcome sha ctx f rule =
     (let g = bind_rule rule f in
      \<lparr>er_decision = (case rule of Some r \<Rightarrow> effect_to_decision (rb_effect r) | None \<Rightarrow> fallback ctx),
       er_matched_rule = rule,
       er_reason = (case rule of Some r \<Rightarrow> rule_reason r
                    | None \<Rightarrow> ''no matching policy rule (fallback default)''),
       er_fingerprint = Some g, er_fingerprint_hash = Some (compute_fingerprint_hash sha g),
       er_args_digest = Some (fp_args_digest g), er_resource_target = fp_resource_target f,
       er_fell_back = (rule = None)\<rparr>)"

definition evaluate_unsafe ::
    "(string \<Rightarrow> matcher option) \<Rightarrow> (json \<Rightarrow> string) \<Rightarrow> policy_rule list result \<Rightarrow> policy_context \<Rightarrow>
     matcher_cache \<Rightarrow> evaluation_result result \<times> matcher_cache" where
  "evaluate_unsafe rx sha rules ctx c =
     (case rules of
        Inl e \<Rightarrow> (Inl e, c)
      | Inr rs \<Rightarrow>
          let f = build_identity sha ctx in
          (case first_match (target_match rx ctx (fp_resource_target f)) (ranked_rules ctx rs) c of
             (Inl e, c') \<Rightarrow> (Inl e, c')
           | (Inr rule, c') \<Rightarrow> (Inr (outcome sha ctx f rule), c')))"

definition failed_closed :: "(pyexn \<Rightarrow> string) \<Rightarrow> policy_context \<Rightarrow> pyexn \<Rightarrow> evaluation_result" where
  "failed_closed exn_text ctx e =
     \<lparr>er_decision = (if cx_target_kind ctx = target_model_selection then DENY else REQUIRE_HUMAN),
      er_matched_rule = None, er_reason = ''policy evaluation error: '' @ exn_text e,
      er_fingerprint = None, er_fingerprint_hash = None, er_args_digest = None,
      er_resource_target = JNull, er_fell_back = True\<rparr>"

definition evaluate ::
    "(string \<Rightarrow> matcher option) \<Rightarrow> (json \<Rightarrow> string) \<Rightarrow> (pyexn \<Rightarrow> string) \<Rightarrow> policy_rule list result \<Rightarrow>
     policy_context \<Rightarrow> matcher_cache \<Rightarrow> evaluation_result \<times> policy_context \<times> matcher_cache" where
  "evaluate rx sha exn_text rules ctx0 c =
     (let ctx = normalize_ctx ctx0 in
      case evaluate_unsafe rx sha rules ctx c of
        (Inr res, c') \<Rightarrow> (res, ctx, c')
      | (Inl e, c') \<Rightarrow> (failed_closed exn_text ctx e, ctx, c'))"

definition null_evaluate :: "policy_context \<Rightarrow> evaluation_result" where
  "null_evaluate ctx =
     \<lparr>er_decision = fallback ctx, er_matched_rule = None, er_reason = ''policy disabled'',
      er_fingerprint = None, er_fingerprint_hash = None, er_args_digest = None,
      er_resource_target = JNull, er_fell_back = False\<rparr>"

section \<open>The matcher cache\<close>

text \<open>Every entry is what compiling its key gives.\<close>

definition cache_ok :: "(string \<Rightarrow> matcher option) \<Rightarrow> matcher_cache \<Rightarrow> bool" where
  "cache_ok rx c \<longleftrightarrow> (\<forall>t p m. map_of c (t, p) = Some m \<longrightarrow> m = compile_pattern rx t p)"

lemma cache_ok_Nil [simp]: "cache_ok rx []"
  by (simp add: cache_ok_def)

lemma compile_spec:
  "cache_ok rx c \<Longrightarrow> fst (compile rx t p c) = compile_pattern rx t p \<and> cache_ok rx (snd (compile rx t p c))"
  by (auto simp: compile_def cache_ok_def Let_def update_conv' split: option.splits)

text \<open>What a target match answers whatever the cache holds.\<close>

definition pattern_answer :: "(string \<Rightarrow> matcher option) \<Rightarrow> policy_rule \<Rightarrow> json \<Rightarrow> bool result" where
  "pattern_answer rx r value = fst (pattern_match rx r value [])"

definition target_answer ::
    "(string \<Rightarrow> matcher option) \<Rightarrow> policy_context \<Rightarrow> json \<Rightarrow> policy_rule \<Rightarrow> bool result" where
  "target_answer rx ctx resource_target r = fst (target_match rx ctx resource_target r [])"

lemma pattern_match_spec:
  assumes "cache_ok rx c"
  shows "fst (pattern_match rx r v c) = pattern_answer rx r v \<and> cache_ok rx (snd (pattern_match rx r v c))"
proof -
  let ?t = "rb_pattern_type r" and ?p = "the (rb_pattern r)"
  obtain c1 c2 where "compile rx ?t ?p c = (compile_pattern rx ?t ?p, c1)" and "cache_ok rx c1"
    and "compile rx ?t ?p [] = (compile_pattern rx ?t ?p, c2)"
    using compile_spec [OF assms, of ?t ?p] compile_spec [OF cache_ok_Nil, of rx ?t ?p]
    by (metis prod.collapse)
  then show ?thesis
    using assms by (auto simp: pattern_answer_def pattern_match_def split: option.splits json.splits)
qed

lemma target_match_spec:
  assumes "cache_ok rx c"
  shows "fst (target_match rx ctx rt r c) = target_answer rx ctx rt r \<and>
    cache_ok rx (snd (target_match rx ctx rt r c))"
  using pattern_match_spec [OF assms] assms
  by (simp add: target_answer_def target_match_def value_match_def flip: pattern_answer_def)

text \<open>The first rule of a ranked list that matches, with the answers of the rules before it.\<close>

fun first_answer :: "(policy_rule \<Rightarrow> bool result) \<Rightarrow> policy_rule list \<Rightarrow> policy_rule option result" where
  "first_answer tm [] = Inr None"
| "first_answer tm (r # rs) =
     rbind (tm r) (\<lambda>b. if b then Inr (Some r) else first_answer tm rs)"

lemma first_match_spec:
  assumes "cache_ok rx c"
  shows "fst (first_match (target_match rx ctx rt) rs c) = first_answer (target_answer rx ctx rt) rs \<and>
    cache_ok rx (snd (first_match (target_match rx ctx rt) rs c))"
  using assms
proof (induction rs arbitrary: c)
  case (Cons r rs)
  obtain a c' where tm: "target_match rx ctx rt r c = (a, c')" by fastforce
  with target_match_spec [OF Cons.prems, of ctx rt r]
  have a: "target_answer rx ctx rt r = a" and "cache_ok rx c'" by auto
  from Cons.IH [OF this(2)] \<open>cache_ok rx c'\<close> show ?case
    by (cases a) (auto simp: tm a split: bool.splits)
qed simp

lemma first_answer_SomeD:
  "first_answer tm rs = Inr (Some r) \<Longrightarrow> r \<in> set rs \<and> tm r = Inr True"
  by (induction rs) (auto split: if_splits)

lemma first_answer_least:
  assumes "first_answer tm rs = Inr (Some r)" and "sorted (map f rs)"
    and "q \<in> set rs" and "tm q = Inr True"
  shows "f r \<le> f q"
  using assms
proof (induction rs)
  case (Cons u rs)
  then show ?case by (cases "tm u") (auto dest: first_answer_SomeD split: if_splits)
qed simp

lemma first_answer_None: "first_answer tm rs = Inr None \<longleftrightarrow> (\<forall>r\<in>set rs. tm r = Inr False)"
proof (induction rs)
  case (Cons q rs)
  then show ?case by (cases "tm q") auto
qed simp

section \<open>The result of an evaluation\<close>

definition evaluate_answer ::
    "(string \<Rightarrow> matcher option) \<Rightarrow> (json \<Rightarrow> string) \<Rightarrow> (pyexn \<Rightarrow> string) \<Rightarrow> policy_rule list result \<Rightarrow>
     policy_context \<Rightarrow> evaluation_result" where
  "evaluate_answer rx sha exn_text rules ctx0 = fst (evaluate rx sha exn_text rules ctx0 [])"

definition ctx_target :: "(json \<Rightarrow> string) \<Rightarrow> policy_context \<Rightarrow> json" where
  "ctx_target sha ctx = fp_resource_target (build_identity sha ctx)"

lemma evaluate_spec:
  assumes "cache_ok rx c"
  shows "fst (evaluate rx sha exn_text rules ctx0 c) =
      (case rbind rules (\<lambda>rs. first_answer (target_answer rx (normalize_ctx ctx0)
               (ctx_target sha (normalize_ctx ctx0))) (ranked_rules (normalize_ctx ctx0) rs)) of
         Inl e \<Rightarrow> failed_closed exn_text (normalize_ctx ctx0) e
       | Inr rule \<Rightarrow> outcome sha (normalize_ctx ctx0) (build_identity sha (normalize_ctx ctx0)) rule) \<and>
    cache_ok rx (snd (snd (evaluate rx sha exn_text rules ctx0 c)))"
proof (cases rules)
  case (Inr rs)
  let ?ctx = "normalize_ctx ctx0"
  show ?thesis
    using first_match_spec [OF assms, of ?ctx "ctx_target sha ?ctx" "ranked_rules ?ctx rs"] Inr
    by (cases "first_match (target_match rx ?ctx (ctx_target sha ?ctx)) (ranked_rules ?ctx rs) c")
      (auto simp: evaluate_def evaluate_unsafe_def Let_def ctx_target_def split: sum.splits)
qed (use assms in \<open>simp add: evaluate_def evaluate_unsafe_def Let_def\<close>)

lemmas evaluate_answer_spec = evaluate_spec [OF cache_ok_Nil, THEN conjunct1, folded evaluate_answer_def]

lemma set_ranked_rules [simp]:
  "r \<in> set (ranked_rules ctx rs) \<longleftrightarrow>
     r \<in> set rs \<and> rb_policy_type r \<in> set (candidate_types ctx) \<and> scope_match r ctx"
  by (auto simp: ranked_rules_def)

lemma sorted_ranked_rules: "sorted (map rank (ranked_rules ctx rs))"
  by (simp add: ranked_rules_def)

lemma normalize_ctx_target_kind [simp]: "cx_target_kind (normalize_ctx ctx) = cx_target_kind ctx"
  by (simp add: normalize_ctx_def Let_def)

lemma evaluate_allow_justified':
  assumes "er_decision (evaluate_answer rx sha exn_text rules ctx0) = ALLOW"
  defines "ctx \<equiv> normalize_ctx ctx0"
  shows "\<exists>rs. rules = Inr rs \<and>
    ((\<exists>r\<in>set rs. er_matched_rule (evaluate_answer rx sha exn_text rules ctx0) = Some r \<and>
        rb_effect r = effect_allow \<and> scope_match r ctx \<and>
        target_answer rx ctx (ctx_target sha ctx) r = Inr True) \<or>
     cx_target_kind ctx0 = target_model_selection \<and>
     (\<forall>r\<in>set rs. rb_policy_type r \<in> set model_selection_types \<and> scope_match r ctx \<longrightarrow>
        target_answer rx ctx (ctx_target sha ctx) r = Inr False))"
proof -
  let ?fa = "\<lambda>rs. first_answer (target_answer rx ctx (ctx_target sha ctx)) (ranked_rules ctx rs)"
  from assms obtain rs rule where r: "rules = Inr rs" "?fa rs = Inr rule"
    by (cases rules; cases "?fa (projr rules)")
      (auto simp: evaluate_answer_spec failed_closed_def split: if_splits)
  with assms have out: "evaluate_answer rx sha exn_text rules ctx0 = outcome sha ctx (build_identity sha ctx) rule"
    by (simp add: evaluate_answer_spec)
  show ?thesis
  proof (cases rule)
    case None
    with out assms have "cx_target_kind ctx = target_model_selection"
      by (auto simp: outcome_def Let_def fallback_def split: if_splits)
    with r None show ?thesis by (auto simp: first_answer_None candidate_types_def ctx_def)
  next
    case (Some q)
    with first_answer_SomeD r(2)
    have "q \<in> set (ranked_rules ctx rs)" "target_answer rx ctx (ctx_target sha ctx) q = Inr True"
      by blast+
    moreover have "rb_effect q = effect_allow"
      using out assms Some
      by (auto simp: outcome_def Let_def effect_to_decision_def split: if_splits)
    ultimately show ?thesis using r(1) out Some by (auto simp: outcome_def Let_def)
  qed
qed

text \<open>A cache of compiled patterns that earlier evaluations filled never changes an evaluation,
  and evaluating keeps it in that state.\<close>

theorem matcher_cache_transparent:
  assumes "cache_ok rx c"
  shows "fst (evaluate rx sha exn_text rules ctx c) = fst (evaluate rx sha exn_text rules ctx []) \<and>
    cache_ok rx (snd (snd (evaluate rx sha exn_text rules ctx c)))"
  using evaluate_spec [OF assms] evaluate_spec [OF cache_ok_Nil] by simp

text \<open>C26: The evaluator is fail-closed: it answers ALLOW only when the rules were read and either a
  matching rule in scope says so, or the request selects a model and no rule in scope matches it.\<close>

theorem evaluate_allow_justified:
  assumes "er_decision (evaluate_answer rx sha exn_text rules ctx0) = ALLOW"
  defines "ctx \<equiv> normalize_ctx ctx0"
  shows "\<exists>rs. rules = Inr rs \<and>
    ((\<exists>r\<in>set rs. er_matched_rule (evaluate_answer rx sha exn_text rules ctx0) = Some r \<and>
        rb_effect r = effect_allow \<and> scope_match r ctx \<and>
        target_answer rx ctx (ctx_target sha ctx) r = Inr True) \<or>
     cx_target_kind ctx0 = target_model_selection \<and>
     (\<forall>r\<in>set rs. rb_policy_type r \<in> set model_selection_types \<and> scope_match r ctx \<longrightarrow>
        target_answer rx ctx (ctx_target sha ctx) r = Inr False))"
  using evaluate_allow_justified' [OF assms(1)] by (simp add: ctx_def)

text \<open>When the rules cannot be read or a rule that is consulted raises, the answer is DENY for a
  model selection and REQUIRE_HUMAN for anything else, whatever the other rules say.\<close>

theorem evaluate_error_fails_closed:
  assumes "rbind rules (\<lambda>rs. first_answer (target_answer rx (normalize_ctx ctx)
      (ctx_target sha (normalize_ctx ctx))) (ranked_rules (normalize_ctx ctx) rs)) = Inl e"
  shows "er_decision (evaluate_answer rx sha exn_text rules ctx) =
      (if cx_target_kind ctx = target_model_selection then DENY else REQUIRE_HUMAN) \<and>
    er_matched_rule (evaluate_answer rx sha exn_text rules ctx) = None \<and>
    er_fell_back (evaluate_answer rx sha exn_text rules ctx)"
  using assms by (simp add: evaluate_answer_spec failed_closed_def)

text \<open>C10: The rule that decides is the best-ranked one of those that are in scope and match the
  target: most specific first, then the lowest priority number, then the oldest.\<close>

theorem evaluate_picks_best:
  assumes "er_matched_rule (evaluate_answer rx sha exn_text (Inr rs) ctx0) = Some r"
  defines "ctx \<equiv> normalize_ctx ctx0"
  shows "r \<in> set rs \<and> scope_match r ctx \<and> target_answer rx ctx (ctx_target sha ctx) r = Inr True \<and>
    er_decision (evaluate_answer rx sha exn_text (Inr rs) ctx0) = effect_to_decision (rb_effect r) \<and>
    (\<forall>q\<in>set rs. rb_policy_type q \<in> set (candidate_types ctx) \<and> scope_match q ctx \<and>
       target_answer rx ctx (ctx_target sha ctx) q = Inr True \<longrightarrow> rank r \<le> rank q)"
proof -
  let ?tm = "target_answer rx ctx (ctx_target sha ctx)" and ?l = "ranked_rules ctx rs"
  from assms have fa: "first_answer ?tm ?l = Inr (Some r)"
    by (auto simp: evaluate_answer_spec failed_closed_def outcome_def Let_def split: sum.splits)
  from first_answer_SomeD [OF fa] have "r \<in> set ?l" "?tm r = Inr True" by auto
  moreover have "rank r \<le> rank q" if "q \<in> set ?l" "?tm q = Inr True" for q
    using first_answer_least [OF fa sorted_ranked_rules that] .
  ultimately show ?thesis
    using fa by (simp add: evaluate_answer_spec outcome_def Let_def flip: ctx_def)
qed

text \<open>C37: Tenants do not see each other's rules: an evaluation is the one over the rules that carry
  no tenant or the tenant of the request.\<close>

theorem tenant_isolation:
  "evaluate rx sha exn_text (Inr rs) ctx c =
   evaluate rx sha exn_text
     (Inr (filter (\<lambda>r. rb_tenant_id r = None \<or> rb_tenant_id r = cx_tenant_id ctx) rs)) ctx c"
proof -
  have "cx_tenant_id (normalize_ctx ctx) = cx_tenant_id ctx" by (simp add: normalize_ctx_def Let_def)
  then have "ranked_rules (normalize_ctx ctx) rs = ranked_rules (normalize_ctx ctx)
      (filter (\<lambda>r. rb_tenant_id r = None \<or> rb_tenant_id r = cx_tenant_id ctx) rs)"
    by (auto simp: ranked_rules_def scope_match_def dim_match_def conj_ac
        intro!: arg_cong [where f = "sort_key rank"] filter_cong)
  then show ?thesis by (simp add: evaluate_def evaluate_unsafe_def)
qed

text \<open>The evaluation does not depend on the order the rules are read in, when no two of them
  have the same specificity, priority and creation time.\<close>

theorem evaluation_order_independent:
  assumes "mset rs = mset rs'" and "inj_on rank (set rs)"
  shows "evaluate rx sha exn_text (Inr rs) ctx c = evaluate rx sha exn_text (Inr rs') ctx c"
proof -
  have "ranked_rules k rs = ranked_rules k rs'" for k
    unfolding ranked_rules_def using assms
    by (intro sort_key_inj_key_eq) (auto simp: mset_filter intro: inj_on_subset)
  then show ?thesis by (simp add: evaluate_def evaluate_unsafe_def)
qed

text \<open>The scope weights order rules lexicographically: a machine outweighs every combination of
  the other dimensions, then come the project, the user, the team and the tenant.\<close>

definition scope_bits :: "policy_rule \<Rightarrow> bool \<times> bool \<times> bool \<times> bool \<times> bool" where
  "scope_bits r = (rb_machine_id r \<noteq> None, rb_project_path r \<noteq> None, rb_user_id r \<noteq> None,
     rb_team_id r \<noteq> None, rb_tenant_id r \<noteq> None)"

theorem specificity_lexicographic: "specificity r < specificity q \<longleftrightarrow> scope_bits r < scope_bits q"
  unfolding specificity_def scope_bits_def scope_weight_machine_def scope_weight_project_def
    scope_weight_user_def scope_weight_team_def scope_weight_tenant_def
  by (simp only: less_prod_simp split: if_splits) auto

section \<open>Concrete instances\<close>

definition sample_rule :: policy_rule where
  "sample_rule = policy_rule_from_row (\<lambda>_. None) (\<lambda>_. ''t'')
     ((new_row (\<lambda>_. ''[]'') sample_body 1 1 0)\<lparr>rb_effect := effect_allow, rb_pattern := Some ''git *''\<rparr>)"

definition sample_context :: policy_context where
  "sample_context =
     \<lparr>cx_target_kind = target_tool_action, cx_tenant_id = Some 3, cx_project_path = None,
      cx_machine_id = Some ''m1'', cx_user_id = None, cx_team_id = None, cx_model = None,
      cx_provider = None, cx_tool = JNull, cx_action = JNull, cx_resource_target = JNull,
      cx_control_request = JObj [(''request_id'', JStr ''r1''),
        (''request'', JObj [(''tool_name'', JStr ''Bash''),
           (''input'', JObj [(''command'', JStr ''git status'')])])],
      cx_home_dir = None, cx_request_id = JNull, cx_issued_ts = None\<rparr>"

abbreviation sample_eval :: "policy_rule list result \<Rightarrow> policy_context \<Rightarrow> evaluation_result" where
  "sample_eval \<equiv> evaluate_answer (\<lambda>_. None) (\<lambda>_. ''h'') (\<lambda>_. ''error'')"

lemma sample_allowed:
  "er_decision (sample_eval (Inr [sample_rule]) sample_context) = ALLOW"
  "er_matched_rule (sample_eval (Inr [sample_rule]) sample_context) = Some sample_rule"
  by code_simp+

lemma matcher_cache_transparent_witness:
  "fst (evaluate (\<lambda>_. None) (\<lambda>_. ''h'') (\<lambda>_. ''error'') (Inr [sample_rule]) sample_context
     [((pattern_regex, ''(''), None)]) =
   fst (evaluate (\<lambda>_. None) (\<lambda>_. ''h'') (\<lambda>_. ''error'') (Inr [sample_rule]) sample_context [])"
  by (rule matcher_cache_transparent [THEN conjunct1]) (simp add: cache_ok_def compile_pattern_def)

lemma evaluate_allow_justified_witness:
  "\<exists>rs. (Inr [sample_rule] :: policy_rule list result) = Inr rs \<and> (\<exists>r. r \<in> set rs \<and> rb_effect r = effect_allow)"
  using evaluate_allow_justified [OF sample_allowed(1)]
  by (auto simp: sample_context_def target_tool_action_def target_model_selection_def)

lemma evaluate_error_fails_closed_witness:
  "er_decision (sample_eval (Inl DBError) sample_context) = REQUIRE_HUMAN"
  using evaluate_error_fails_closed [of "Inl DBError" "\<lambda>_. None" sample_context "\<lambda>_. ''h''" DBError]
  by (simp add: sample_context_def target_tool_action_def target_model_selection_def)

lemma evaluate_picks_best_witness:
  "scope_match sample_rule (normalize_ctx sample_context) \<and>
   er_decision (sample_eval (Inr [sample_rule]) sample_context) = effect_to_decision (rb_effect sample_rule)"
  using evaluate_picks_best [OF sample_allowed(2)] by blast

lemma evaluation_order_independent_witness:
  "sample_eval (Inr [sample_rule, sample_rule\<lparr>rb_priority := 5\<rparr>]) sample_context =
   sample_eval (Inr [sample_rule\<lparr>rb_priority := 5\<rparr>, sample_rule]) sample_context"
proof -
  have "rank sample_rule \<noteq> rank (sample_rule\<lparr>rb_priority := 5\<rparr>)" by code_simp
  then show ?thesis unfolding evaluate_answer_def
    by (intro arg_cong [where f = fst] evaluation_order_independent) auto
qed

end
