(* ===== verification/Policy_Gate.thy ===== *)
theory Policy_Gate
  imports Policy_Engine
begin

text \<open>
  Decisions and where they are enforced: the table \<^verbatim>\<open>policy_decisions\<close> with the statements of
  \<^verbatim>\<open>PolicyRepository\<close>, and the permission path of
  \<^verbatim>\<open>app/modules/workspace/remote_session_manager.py\<close>, from the request of a CLI agent to the
  command that answers it.

  The rows of the table are listed in the order of their \<open>id\<close>; each statement is atomic. The
  identifier of a new decision (a UUID) and the clock are arguments. The visibility events of the
  run timeline, which never raise and are read by nothing here, are left out.
\<close>

section \<open>The table of decisions\<close>

text \<open>The type parameter is the type of an instant: a timestamp in the table, its ISO text in memory.\<close>

record 't decision_body =
  pd_decision_id :: string
  pd_request_id :: json
  pd_run_id :: "string option"
  pd_session_id :: "string option"
  pd_tenant_id :: "int option"
  pd_workspace_scope :: "string option"
  pd_machine_id :: "string option"
  pd_model :: "string option"
  pd_provider :: "string option"
  pd_tool_name :: json
  pd_action :: json
  pd_resource_target :: json
  pd_args_digest :: "string option"
  pd_profile_id :: "string option"
  pd_profile_version :: "int option"
  pd_fingerprint_hash :: "string option"
  pd_policy_rule_id :: "int option"
  pd_policy_rule_version :: "int option"
  pd_decision :: string
  pd_reason :: "string option"
  pd_reviewer_identity :: "string option"
  pd_issued_at :: "'t option"
  pd_expires_at :: "'t option"
  pd_consumed_at :: "'t option"
  pd_remote_response_id :: "string option"
  pd_created_at :: "'t option"
  pd_updated_at :: "'t option"

type_synonym decision_row = "instant decision_body"
type_synonym policy_decision = "string decision_body"

definition decision_text :: "decision \<Rightarrow> string" where
  "decision_text d = (case d of ALLOW \<Rightarrow> ''allow'' | DENY \<Rightarrow> ''deny'' | REQUIRE_HUMAN \<Rightarrow> ''require_human'')"

definition decision_from_row :: "(instant \<Rightarrow> string) \<Rightarrow> decision_row \<Rightarrow> policy_decision" where
  "decision_from_row isof r =
     \<lparr>pd_decision_id = pd_decision_id r, pd_request_id = pd_request_id r, pd_run_id = pd_run_id r,
      pd_session_id = pd_session_id r, pd_tenant_id = pd_tenant_id r,
      pd_workspace_scope = pd_workspace_scope r, pd_machine_id = pd_machine_id r,
      pd_model = pd_model r, pd_provider = pd_provider r, pd_tool_name = pd_tool_name r,
      pd_action = pd_action r, pd_resource_target = pd_resource_target r,
      pd_args_digest = pd_args_digest r, pd_profile_id = pd_profile_id r,
      pd_profile_version = pd_profile_version r, pd_fingerprint_hash = pd_fingerprint_hash r,
      pd_policy_rule_id = pd_policy_rule_id r, pd_policy_rule_version = pd_policy_rule_version r,
      pd_decision = or_str (pd_decision r) (decision_text REQUIRE_HUMAN), pd_reason = pd_reason r,
      pd_reviewer_identity = pd_reviewer_identity r,
      pd_issued_at = map_option isof (pd_issued_at r), pd_expires_at = map_option isof (pd_expires_at r),
      pd_consumed_at = map_option isof (pd_consumed_at r),
      pd_remote_response_id = pd_remote_response_id r,
      pd_created_at = map_option isof (pd_created_at r), pd_updated_at = map_option isof (pd_updated_at r)\<rparr>"

text \<open>
  \<^verbatim>\<open>insert_decision\<close>: the caller's fields with the identifier and the instants filled in; the
  unique index on \<open>decision_id\<close> refuses a duplicate.
\<close>

definition insert_decision ::
    "string \<Rightarrow> decision_row \<Rightarrow> instant \<Rightarrow> decision_row list \<Rightarrow> string result \<times> decision_row list" where
  "insert_decision did d now t =
     (let r = d\<lparr>pd_decision_id := did,
                pd_issued_at := (case pd_issued_at d of None \<Rightarrow> Some now | Some i \<Rightarrow> Some i),
                pd_remote_response_id := None, pd_created_at := Some now, pd_updated_at := Some now\<rparr>
      in if did \<in> pd_decision_id ` set t then (Inl DBError, t) else (Inr did, t @ [r]))"

definition get_decision :: "string \<Rightarrow> decision_row list \<Rightarrow> decision_row option" where
  "get_decision did t = List.find (\<lambda>r. pd_decision_id r = did) t"

text \<open>The text of a value for a comparison with a column of text: SQLite converts numbers, and a float has the
  digits of its literal here. PostgreSQL refuses to compare text with a number, which is a refused
  statement.\<close>

definition column_text :: "json \<Rightarrow> json" where
  "column_text v = (case v of JInt n \<Rightarrow> JStr (str_of_int n) | JBool b \<Rightarrow> JStr (if b then ''1'' else ''0'') | JFloat s \<Rightarrow> JStr s | _ \<Rightarrow> v)"

lemma column_text_null [simp]: "column_text v = JNull \<longleftrightarrow> v = JNull" "column_text JNull = column_text v \<longleftrightarrow> v = JNull"
  by (auto simp: column_text_def split: json.splits)

definition get_decision_by_request :: "json \<Rightarrow> decision_row list \<Rightarrow> decision_row option" where
  "get_decision_by_request request_id t =
     List.find (\<lambda>r. request_id \<noteq> JNull \<and> column_text (pd_request_id r) = column_text request_id) (rev t)"

definition consumable :: "string \<Rightarrow> string option \<Rightarrow> instant \<Rightarrow> decision_row \<Rightarrow> bool" where
  "consumable did fhash now r \<longleftrightarrow>
     pd_decision_id r = did \<and> pd_consumed_at r = None \<and>
     (case pd_expires_at r of None \<Rightarrow> True | Some e \<Rightarrow> e > now) \<and>
     (fhash = None \<or> pd_fingerprint_hash r = fhash)"

definition spend_row ::
    "string \<Rightarrow> string option \<Rightarrow> string option \<Rightarrow> instant \<Rightarrow> decision_row \<Rightarrow> decision_row" where
  "spend_row resolved reviewer response_id now r =
     r\<lparr>pd_decision := resolved, pd_reviewer_identity := reviewer, pd_consumed_at := Some now,
       pd_remote_response_id := response_id, pd_updated_at := Some now\<rparr>"

definition consume_decision ::
    "string \<Rightarrow> string \<Rightarrow> string option \<Rightarrow> string option \<Rightarrow> string option \<Rightarrow> instant \<Rightarrow>
     decision_row list \<Rightarrow> nat \<times> decision_row list" where
  "consume_decision did resolved reviewer response_id fhash now t =
     (length (filter (consumable did fhash now) t),
      map (\<lambda>r. if consumable did fhash now r then spend_row resolved reviewer response_id now r else r) t)"

definition list_decisions ::
    "(instant \<Rightarrow> string) \<Rightarrow> string \<Rightarrow> nat \<Rightarrow> decision_row list \<Rightarrow> policy_decision list" where
  "list_decisions isof session_id limit t =
     map (decision_from_row isof)
       (take limit (filter (\<lambda>r. pd_session_id r = Some session_id) (rev t)))"

section \<open>The permission path\<close>

record policy_scope =
  sc_tenant_id :: "int option"
  sc_project_path :: "string option"
  sc_machine_id :: "string option"
  sc_user_id :: "int option"

text \<open>
  The scope of a session: the machine it is bound to, its owner and project, and the tenant of
  the machine. \<open>session\<close> and \<open>machine_tenant\<close> are what the session and agent managers
  return.
\<close>

definition session_policy_scope ::
    "string option \<Rightarrow> (int option \<times> string option) option \<Rightarrow> (string \<Rightarrow> int option option) \<Rightarrow> policy_scope" where
  "session_policy_scope machine_id session machine_tenant =
     \<lparr>sc_tenant_id = (if truthy_str machine_id then
                        (case machine_tenant (the machine_id) of Some t \<Rightarrow> t | None \<Rightarrow> None) else None),
      sc_project_path = (case session of Some (u, p) \<Rightarrow> p | None \<Rightarrow> None),
      sc_machine_id = machine_id,
      sc_user_id = (case session of Some (u, p) \<Rightarrow> u | None \<Rightarrow> None)\<rparr>"

record permission_command =
  pc_session_id :: string
  pc_machine_id :: string
  pc_behavior :: string
  pc_tool_name :: json
  pc_request_id :: "json option"
  pc_message :: "string option"

record gate =
  g_decisions :: "decision_row list"
  g_buffered :: "(string \<times> json) list"
  g_sent :: "permission_command list"

text \<open>The statements of the path that the database may refuse.\<close>

datatype gate_stmt = ReadDecision | ConsumeDecision | InsertDecision

definition reviewer_name :: "int option \<Rightarrow> string option \<Rightarrow> string" where
  "reviewer_name decided_by decided_by_name =
     (if truthy_str decided_by_name then the decided_by_name
      else case decided_by of
        None \<Rightarrow> ''human''
      | Some u \<Rightarrow> if u = 0 then ''human'' else ''user:'' @ str_of_int u)"

definition enforce_policy_consume ::
    "(gate_stmt \<Rightarrow> bool) \<Rightarrow> bool \<Rightarrow> instant \<Rightarrow> json \<Rightarrow> string \<Rightarrow> int option \<Rightarrow> string option \<Rightarrow>
     decision_row list \<Rightarrow> string \<times> decision_row list" where
  "enforce_policy_consume ok enabled now request_id behavior decided_by decided_by_name t =
     (if \<not> enabled \<or> \<not> truthy request_id then (behavior, t)
      else if \<not> ok ReadDecision then (''deny'', t)
      else case get_decision_by_request request_id t of
        None \<Rightarrow> (behavior, t)
      | Some d \<Rightarrow>
          if \<not> ok ConsumeDecision then (''deny'', t)
          else
            let (n, t') = consume_decision (pd_decision_id d) behavior
                  (Some (reviewer_name decided_by decided_by_name)) None None now t
            in if n = 0 then (''deny'', t') else (behavior, t'))"

definition respond_to_permission ::
    "(gate_stmt \<Rightarrow> bool) \<Rightarrow> bool \<Rightarrow> instant \<Rightarrow> string option \<Rightarrow> string \<Rightarrow> json \<Rightarrow> string \<Rightarrow> json \<Rightarrow>
     string option \<Rightarrow> int option \<Rightarrow> string option \<Rightarrow> gate \<Rightarrow> bool \<times> gate" where
  "respond_to_permission ok enabled now machine_id session_id request_id behavior tool_name
       message decided_by decided_by_name g =
     (let (behavior', t') = enforce_policy_consume ok enabled now request_id behavior
            decided_by decided_by_name (g_decisions g);
          g' = g\<lparr>g_decisions := t'\<rparr>
      in if \<not> truthy_str machine_id then (False, g')
         else (True, g'\<lparr>g_sent := g_sent g' @
                [\<lparr>pc_session_id = session_id, pc_machine_id = the machine_id,
                  pc_behavior = behavior', pc_tool_name = tool_name,
                  pc_request_id = (if truthy request_id then Some request_id else None),
                  pc_message = (if truthy_str message then message else None)\<rparr>]\<rparr>))"

definition approval_ttl :: "int \<Rightarrow> policy_rule option \<Rightarrow> int" where
  "approval_ttl default_ttl rule =
     (case rule of
        None \<Rightarrow> default_ttl
      | Some r \<Rightarrow> (case rb_approval_ttl_seconds r of
            None \<Rightarrow> default_ttl | Some n \<Rightarrow> if n = 0 then default_ttl else n))"

definition tool_decision ::
    "int \<Rightarrow> string \<Rightarrow> policy_scope \<Rightarrow> evaluation_result \<Rightarrow> instant \<Rightarrow> decision_row" where
  "tool_decision default_ttl session_id scope res now =
     (let fp = er_fingerprint res; rule = er_matched_rule res;
          of_fp = (\<lambda>f. case fp of Some x \<Rightarrow> f x | None \<Rightarrow> JNull)
      in \<lparr>pd_decision_id = [], pd_request_id = of_fp fp_request_id, pd_run_id = Some session_id,
          pd_session_id = Some session_id, pd_tenant_id = sc_tenant_id scope,
          pd_workspace_scope = sc_project_path scope, pd_machine_id = sc_machine_id scope,
          pd_model = None, pd_provider = None, pd_tool_name = of_fp fp_tool,
          pd_action = of_fp fp_action, pd_resource_target = er_resource_target res,
          pd_args_digest = er_args_digest res, pd_profile_id = map_option fp_profile_id fp,
          pd_profile_version = map_option fp_profile_version fp,
          pd_fingerprint_hash = er_fingerprint_hash res,
          pd_policy_rule_id = (case rule of None \<Rightarrow> None | Some r \<Rightarrow> pr_id r),
          pd_policy_rule_version = map_option pr_version rule,
          pd_decision = decision_text (er_decision res), pd_reason = Some (er_reason res),
          pd_reviewer_identity = None, pd_issued_at = None,
          pd_expires_at = Some (now + seconds (approval_ttl default_ttl rule)),
          pd_consumed_at = None, pd_remote_response_id = None, pd_created_at = None,
          pd_updated_at = None\<rparr>)"

definition persist_tool_decision ::
    "(gate_stmt \<Rightarrow> bool) \<Rightarrow> int \<Rightarrow> string \<Rightarrow> instant \<Rightarrow> string \<Rightarrow> evaluation_result \<Rightarrow> policy_scope \<Rightarrow>
     gate \<Rightarrow> string result \<times> gate" where
  "persist_tool_decision ok default_ttl did now session_id res scope g =
     (if \<not> ok InsertDecision then (Inl DBError, g)
      else let (r, t') = insert_decision did (tool_decision default_ttl session_id scope res now) now (g_decisions g)
           in (r, g\<lparr>g_decisions := t'\<rparr>))"

definition policy_system_actor :: string where
  "policy_system_actor = ''policy''"

definition request_context :: "policy_scope \<Rightarrow> json \<Rightarrow> policy_context" where
  "request_context scope control_request =
     \<lparr>cx_target_kind = target_tool_action, cx_tenant_id = sc_tenant_id scope,
      cx_project_path = sc_project_path scope, cx_machine_id = sc_machine_id scope,
      cx_user_id = sc_user_id scope, cx_team_id = None, cx_model = None, cx_provider = None,
      cx_tool = JNull, cx_action = JNull, cx_resource_target = JNull,
      cx_control_request = control_request, cx_home_dir = None, cx_request_id = JNull,
      cx_issued_ts = None\<rparr>"

text \<open>
  \<^verbatim>\<open>process_permission_request\<close>. \<open>eval\<close> is the evaluator of the session; an exception of
  the insertion reaches the caller, after which nothing is sent or buffered.
\<close>

definition process_permission_request ::
    "(gate_stmt \<Rightarrow> bool) \<Rightarrow> bool \<Rightarrow> int \<Rightarrow> string \<Rightarrow> instant \<Rightarrow> string \<Rightarrow> policy_scope \<Rightarrow>
     (policy_context \<Rightarrow> evaluation_result) \<Rightarrow> json \<Rightarrow> gate \<Rightarrow> unit result \<times> gate" where
  "process_permission_request ok enabled default_ttl did now session_id scope eval control_request g =
     (if \<not> enabled then (Inr (), g\<lparr>g_buffered := g_buffered g @ [(session_id, control_request)]\<rparr>)
      else
        let res = eval (request_context scope control_request) in
        case persist_tool_decision ok default_ttl did now session_id res scope g of
          (Inl e, g1) \<Rightarrow> (Inl e, g1)
        | (Inr d, g1) \<Rightarrow>
            if er_decision res = REQUIRE_HUMAN
            then (Inr (), g1\<lparr>g_buffered := g_buffered g1 @ [(session_id, control_request)]\<rparr>)
            else
              let fields = extract_request_fields control_request;
                  behavior = (if er_decision res = ALLOW then ''allow'' else ''deny'')
              in (Inr (), snd (respond_to_permission ok enabled now (sc_machine_id scope) session_id
                    (rf_request_id fields) behavior (por (rf_tool fields) (JStr []))
                    (Some (er_reason res)) None (Some policy_system_actor) g1)))"

section \<open>Facts about the table\<close>

abbreviation decision_ids :: "decision_row list \<Rightarrow> string list" where
  "decision_ids t \<equiv> map pd_decision_id t"

definition decisions_wf :: "decision_row list \<Rightarrow> bool" where
  "decisions_wf t \<longleftrightarrow> distinct (decision_ids t)"

lemma spend_row_simps [simp]:
  "pd_decision_id (spend_row b rv rid now r) = pd_decision_id r"
  "pd_request_id (spend_row b rv rid now r) = pd_request_id r"
  "pd_consumed_at (spend_row b rv rid now r) = Some now"
  "pd_decision (spend_row b rv rid now r) = b"
  by (simp_all add: spend_row_def)

lemma decision_ids_consume [simp]:
  "decision_ids (snd (consume_decision did b rv rid fh now t)) = decision_ids t"
  by (simp add: consume_decision_def)

lemma decisions_wf_consume [simp, inv_intros]:
  "decisions_wf t \<Longrightarrow> decisions_wf (snd (consume_decision did b rv rid fh now t))"
  unfolding decisions_wf_def by (simp only: decision_ids_consume)

lemma decisions_wf_insert [simp, inv_intros]:
  "decisions_wf t \<Longrightarrow> decisions_wf (snd (insert_decision did d now t))"
  by (auto simp: decisions_wf_def insert_decision_def Let_def)

lemma consumable_id: "consumable did fh now r \<Longrightarrow> pd_decision_id r = did"
  by (simp add: consumable_def)

lemma consumable_unique:
  "decisions_wf t \<Longrightarrow> r \<in> set t \<Longrightarrow> q \<in> set t \<Longrightarrow> pd_decision_id r = pd_decision_id q \<Longrightarrow> r = q"
  by (auto simp: decisions_wf_def distinct_map inj_on_def)

lemma count_consumable:
  assumes "decisions_wf t"
  shows "length (filter (consumable did fh now) t) = (if \<exists>r\<in>set t. consumable did fh now r then 1 else 0)"
proof (cases "filter (consumable did fh now) t")
  case Nil
  then show ?thesis by (simp add: filter_empty_conv)
next
  case (Cons r rs)
  have d: "distinct (map pd_decision_id (filter (consumable did fh now) t))"
    using assms by (simp add: decisions_wf_def distinct_map_filter)
  have ids: "set (map pd_decision_id (filter (consumable did fh now) t)) \<subseteq> {did}"
    by (auto dest: consumable_id)
  from d ids have "length (filter (consumable did fh now) t) \<le> 1"
    using card_mono [OF _ ids] distinct_card [OF d] by simp
  moreover have "\<exists>r\<in>set t. consumable did fh now r"
    using Cons by (metis filter_empty_conv list.distinct(1))
  ultimately show ?thesis using Cons by simp
qed

text \<open>A row that carries a time of consumption is spent for good.\<close>

definition spent_row :: "string \<Rightarrow> decision_row \<Rightarrow> bool" where
  "spent_row did r \<longleftrightarrow> pd_decision_id r = did \<and> pd_consumed_at r \<noteq> None"

definition spent :: "string \<Rightarrow> decision_row list \<Rightarrow> bool" where
  "spent did t \<longleftrightarrow> list_ex (spent_row did) t"

lemma spent_row_spend: "spent_row did r \<Longrightarrow> spent_row did (spend_row b rv rid now r)"
  by (simp add: spent_row_def)

lemma spent_consume: "spent did t \<Longrightarrow> spent did (snd (consume_decision did' b rv rid fh now t))"
  unfolding spent_def consume_decision_def by (induction t) (auto intro: spent_row_spend)

lemma spent_insert: "spent did t \<Longrightarrow> spent did (snd (insert_decision did' d now t))"
  by (simp add: spent_def insert_decision_def Let_def)

lemma consume_spends:
  "fst (consume_decision did b rv rid fh now t) \<noteq> 0 \<Longrightarrow>
   spent did (snd (consume_decision did b rv rid fh now t))"
  unfolding spent_def consume_decision_def
  by (induction t) (auto simp: spent_row_def dest: consumable_id)

lemma spent_not_consumable:
  assumes "decisions_wf t" and "spent did t" and "r \<in> set t"
  shows "\<not> consumable did fh now r"
proof
  assume c: "consumable did fh now r"
  from assms(2) obtain q where q: "q \<in> set t" "spent_row did q" by (auto simp: spent_def list_ex_iff)
  with c consumable_unique [OF assms(1) q(1) assms(3)] show False
    by (simp add: consumable_def spent_row_def)
qed

lemma spent_count: "decisions_wf t \<Longrightarrow> spent did t \<Longrightarrow> fst (consume_decision did b rv rid fh now t) = 0"
  using spent_not_consumable by (simp add: consume_decision_def filter_empty_conv)

lemma find_rev_snoc: "List.find P (rev (t @ [r])) = (if P r then Some r else List.find P (rev t))"
  by simp

section \<open>Properties of decisions\<close>

text \<open>Consuming a decision changes at most the one row it names, and succeeds exactly when that
  row is unconsumed, not yet expired and, when a fingerprint is given, carries it.\<close>

theorem consume_decision_exact:
  assumes "decisions_wf t" and "consume_decision did b rv rid fh now t = (n, t')"
  shows "n = (if \<exists>r\<in>set t. consumable did fh now r then 1 else 0) \<and> decisions_wf t' \<and>
    filter (\<lambda>r. pd_decision_id r \<noteq> did) t' = filter (\<lambda>r. pd_decision_id r \<noteq> did) t \<and>
    (n = 1 \<longrightarrow> spent did t') \<and> (n = 0 \<longrightarrow> t' = t)"
proof -
  let ?c = "consume_decision did b rv rid fh now t"
  have n: "n = fst ?c" and t': "t' = snd ?c" using assms(2) by simp_all
  have "filter (\<lambda>r. pd_decision_id r \<noteq> did) (snd ?c) = filter (\<lambda>r. pd_decision_id r \<noteq> did) t"
    unfolding consume_decision_def snd_conv by (induction t) (simp_all add: consumable_id)
  moreover have "fst ?c = 0 \<Longrightarrow> snd ?c = t"
    by (simp add: consume_decision_def filter_empty_conv map_idI)
  moreover have "fst ?c = (if \<exists>r\<in>set t. consumable did fh now r then 1 else 0)"
    using count_consumable [OF assms(1)] by (simp add: consume_decision_def)
  ultimately show ?thesis
    using consume_spends [of did b rv rid fh now t] decisions_wf_consume [OF assms(1)] n t' by simp
qed

text \<open>The statements of concurrent callers, in the order the database executes them.\<close>

datatype decision_op =
    OpInsert string decision_row instant
  | OpConsume string string "string option" "string option" "string option" instant

fun decision_exec :: "decision_op \<Rightarrow> decision_row list \<times> string list \<Rightarrow> decision_row list \<times> string list" where
  "decision_exec (OpInsert did d now) (t, done_ids) = (snd (insert_decision did d now t), done_ids)"
| "decision_exec (OpConsume did b rv rid fh now) (t, done_ids) =
     (let (n, t') = consume_decision did b rv rid fh now t
      in (t', if n = 0 then done_ids else done_ids @ [did]))"

definition exec_inv :: "decision_row list \<times> string list \<Rightarrow> bool" where
  "exec_inv s \<longleftrightarrow> decisions_wf (fst s) \<and> distinct (snd s) \<and> (\<forall>did\<in>set (snd s). spent did (fst s))"

lemma exec_inv_step: "exec_inv s \<Longrightarrow> exec_inv (decision_exec op s)"
proof (cases op)
  case (OpInsert did d now)
  assume "exec_inv s"
  with OpInsert show ?thesis
    by (cases s) (auto simp: exec_inv_def intro: spent_insert)
next
  case (OpConsume did b rv rid fh now)
  assume inv: "exec_inv s"
  obtain t ids where s: "s = (t, ids)" by fastforce
  obtain n t' where c: "consume_decision did b rv rid fh now t = (n, t')" by fastforce
  have "did \<notin> set ids" if "n \<noteq> 0"
    using inv that spent_count [of t did b rv rid fh now] c by (auto simp: s exec_inv_def)
  moreover have "spent did t'" if "n \<noteq> 0"
    using that consume_spends [of did b rv rid fh now t] c by simp
  moreover have "decisions_wf t'" and "spent d t'" if "spent d t" for d
    using inv that decisions_wf_consume [of t did b rv rid fh now]
      spent_consume [of d t did b rv rid fh now] c by (simp_all add: s exec_inv_def)
  moreover have "decisions_wf t'"
    using inv decisions_wf_consume [of t did b rv rid fh now] c by (simp add: s exec_inv_def)
  ultimately show ?thesis
    using inv by (simp add: s OpConsume c exec_inv_def)
qed

text \<open>C2: However the insertions and consumptions of all callers interleave, no decision is
  consumed twice.\<close>

theorem decisions_single_use: "distinct (snd (fold decision_exec ops ([], [])))"
proof -
  have "exec_inv s \<Longrightarrow> exec_inv (fold decision_exec ops s)" for s
    by (induction ops arbitrary: s) (simp_all add: exec_inv_step)
  then have "exec_inv (fold decision_exec ops ([], []))"
    by (simp add: exec_inv_def decisions_wf_def)
  then show ?thesis by (simp add: exec_inv_def)
qed

section \<open>Properties of the permission path\<close>

lemma enforce_spec:
  assumes "decisions_wf t" and "truthy rid" and "get_decision_by_request rid t = Some d"
  shows "fst (enforce_policy_consume ok True now rid b by name t) =
    (if ok ReadDecision \<and> ok ConsumeDecision \<and> consumable (pd_decision_id d) None now d
     then b else ''deny'')"
proof -
  from assms(3) have d: "d \<in> set t" by (auto simp: get_decision_by_request_def dest: find_SomeD)
  have "(\<exists>r\<in>set t. consumable (pd_decision_id d) None now r) \<longleftrightarrow> consumable (pd_decision_id d) None now d"
    using consumable_unique [OF assms(1) _ d] consumable_id d by metis
  then show ?thesis
    using assms count_consumable [OF assms(1), of "pd_decision_id d" None now]
    by (simp add: enforce_policy_consume_def consume_decision_def)
qed

lemma respond_spec:
  "g_buffered (snd (respond_to_permission ok en now m sid rid b tool msg by name g)) = g_buffered g \<and>
   g_decisions (snd (respond_to_permission ok en now m sid rid b tool msg by name g)) =
     snd (enforce_policy_consume ok en now rid b by name (g_decisions g)) \<and>
   map pc_behavior (g_sent (snd (respond_to_permission ok en now m sid rid b tool msg by name g))) =
     map pc_behavior (g_sent g) @
     (if truthy_str m then [fst (enforce_policy_consume ok en now rid b by name (g_decisions g))] else [])"
  by (cases "enforce_policy_consume ok en now rid b by name (g_decisions g)")
    (simp add: respond_to_permission_def Let_def)

text \<open>C3: When a decision is on record for the request, the behaviour a reviewer asks for reaches
  the agent only if that decision is unconsumed and unexpired at that instant and the database
  executes both statements; in every other case the agent is told to deny.\<close>

theorem response_needs_live_decision:
  assumes "decisions_wf (g_decisions g)" and "truthy rid"
    and "get_decision_by_request rid (g_decisions g) = Some d"
  shows "map pc_behavior (g_sent (snd (respond_to_permission ok True now m sid rid b tool msg by name g))) =
    map pc_behavior (g_sent g) @
      (if truthy_str m
       then [if ok ReadDecision \<and> ok ConsumeDecision \<and> consumable (pd_decision_id d) None now d
             then b else ''deny'']
       else [])"
  using respond_spec [of ok True now m sid rid b tool msg "by" name g] enforce_spec [OF assms]
  by simp

lemma enforce_deny: "fst (enforce_policy_consume ok en now rid ''deny'' by name t) = ''deny''"
  by (auto simp: enforce_policy_consume_def Let_def split: option.splits prod.splits)

lemma persist_spec:
  "g_buffered (snd (persist_tool_decision ok ttl did now sid res scope g)) = g_buffered g \<and>
   g_sent (snd (persist_tool_decision ok ttl did now sid res scope g)) = g_sent g"
  by (simp add: persist_tool_decision_def split: prod.splits)

text \<open>What a permission request adds to the commands sent, as their behaviours.\<close>

definition new_behaviors :: "gate \<Rightarrow> gate \<Rightarrow> string list" where
  "new_behaviors g g' = drop (length (g_sent g)) (map pc_behavior (g_sent g'))"

lemma new_behaviors_append: "map pc_behavior (g_sent g') = map pc_behavior (g_sent g) @ bs \<Longrightarrow>
    new_behaviors g g' = bs"
  by (simp add: new_behaviors_def)

lemma permission_cases:
  assumes "process_permission_request ok True ttl did now sid scope eval cr g = (r, g')"
  shows "(case er_decision (eval (request_context scope cr)) of
      REQUIRE_HUMAN \<Rightarrow> new_behaviors g g' = [] \<and>
        (r = Inr () \<longrightarrow> g_buffered g' = g_buffered g @ [(sid, cr)])
    | DENY \<Rightarrow> set (new_behaviors g g') \<subseteq> {''deny''} \<and> g_buffered g' = g_buffered g
    | ALLOW \<Rightarrow> length (new_behaviors g g') \<le> 1 \<and> g_buffered g' = g_buffered g)"
proof -
  let ?res = "eval (request_context scope cr)"
  obtain r1 g1 where p: "persist_tool_decision ok ttl did now sid ?res scope g = (r1, g1)" by fastforce
  then have g1: "g_buffered g1 = g_buffered g" "g_sent g1 = g_sent g"
    using persist_spec [of ok ttl did now sid ?res scope g] by simp_all
  show ?thesis
  proof (cases r1)
    case (Inl e)
    with assms p g1 show ?thesis
      by (auto simp: process_permission_request_def Let_def new_behaviors_def split: decision.splits)
  next
    case (Inr d)
    let ?resp = "\<lambda>b. snd (respond_to_permission ok True now (sc_machine_id scope) sid
      (rf_request_id (extract_request_fields cr)) b (por (rf_tool (extract_request_fields cr)) (JStr []))
      (Some (er_reason ?res)) None (Some policy_system_actor) g1)"
    have nb: "new_behaviors g (?resp b) = (if truthy_str (sc_machine_id scope)
        then [fst (enforce_policy_consume ok True now (rf_request_id (extract_request_fields cr)) b
                None (Some policy_system_actor) (g_decisions g1))] else [])"
      and bf: "g_buffered (?resp b) = g_buffered g" for b
      using respond_spec [of ok True now "sc_machine_id scope" sid
          "rf_request_id (extract_request_fields cr)" b "por (rf_tool (extract_request_fields cr)) (JStr [])"
          "Some (er_reason ?res)" None "Some policy_system_actor" g1] g1
      by (auto intro: new_behaviors_append)
    show ?thesis
    proof (cases "er_decision ?res")
      case ALLOW
      with assms p Inr have "g' = ?resp ''allow''" by (auto simp: process_permission_request_def Let_def)
      with ALLOW nb bf show ?thesis by simp
    next
      case DENY
      with assms p Inr have "g' = ?resp ''deny''" by (auto simp: process_permission_request_def Let_def)
      with DENY nb bf show ?thesis by (auto simp: enforce_deny)
    next
      case REQUIRE_HUMAN
      with assms p Inr g1 show ?thesis
        by (auto simp: process_permission_request_def Let_def new_behaviors_def)
    qed
  qed
qed

text \<open>A permission request is answered without a human only as the evaluator decided: when it
  requires a human, nothing is sent and the request is buffered; when it denies, every command
  that is sent denies and nothing is buffered; when it allows, at most one command is sent.\<close>

theorem permission_request_dispatch:
  assumes "process_permission_request ok True ttl did now sid scope eval cr g = (Inr (), g')"
  shows "(case er_decision (eval (request_context scope cr)) of
      REQUIRE_HUMAN \<Rightarrow> new_behaviors g g' = [] \<and> g_buffered g' = g_buffered g @ [(sid, cr)]
    | DENY \<Rightarrow> set (new_behaviors g g') \<subseteq> {''deny''} \<and> g_buffered g' = g_buffered g
    | ALLOW \<Rightarrow> length (new_behaviors g g') \<le> 1 \<and> g_buffered g' = g_buffered g)"
  using permission_cases [OF assms] by (simp split: decision.splits)

text \<open>A tool call is allowed without a human only if one of the rules that were read, in scope and
  matching the request, has the effect allow.\<close>

theorem auto_allow_has_rule:
  assumes "process_permission_request ok True ttl did now sid scope
      (evaluate_answer rx sha exn_text rules) cr g = (r, g')"
    and "''allow'' \<in> set (new_behaviors g g')"
  defines "ctx \<equiv> normalize_ctx (request_context scope cr)"
  shows "\<exists>rs q. rules = Inr rs \<and> q \<in> set rs \<and> rb_effect q = effect_allow \<and> scope_match q ctx \<and>
    target_answer rx ctx (ctx_target sha ctx) q = Inr True"
proof -
  have "er_decision (evaluate_answer rx sha exn_text rules (request_context scope cr)) = ALLOW"
    using permission_cases [OF assms(1)] assms(2) by (auto split: decision.splits)
  from evaluate_allow_justified' [OF this] show ?thesis
    by (auto simp: ctx_def request_context_def target_tool_action_def target_model_selection_def)
qed

text \<open>The fingerprint of an evaluated permission request carries its request id.\<close>

lemma evaluated_fingerprint:
  assumes "er_decision (evaluate_answer rx sha exn_text rules (request_context scope cr)) = ALLOW"
    and "truthy (rf_request_id (extract_request_fields cr))"
  shows "\<exists>fp. er_fingerprint (evaluate_answer rx sha exn_text rules (request_context scope cr)) = Some fp \<and>
    fp_request_id fp = rf_request_id (extract_request_fields cr)"
proof -
  let ?ctx = "normalize_ctx (request_context scope cr)"
  have "truthy cr"
    using assms(2) by (cases cr) (auto simp: extract_request_fields_def is_obj_def request_object_def
        jget_def por_def Let_def split: if_splits)
  then have "fp_request_id (build_identity sha ?ctx) = rf_request_id (extract_request_fields cr)"
    by (simp add: build_identity_def normalize_ctx_def Let_def request_context_def
        target_tool_action_def target_model_selection_def build_fingerprint_def split: prod.splits)
  then show ?thesis
    using assms(1)
    by (auto simp: evaluate_answer_spec outcome_def Let_def bind_rule_def failed_closed_def
        split: sum.splits if_splits)
qed

text \<open>A decision that allows on its own is spent by the answer to its own request: with the
  statements executed, a fresh decision identifier, a request id and a lifetime above zero, the
  command sent allows and the decision cannot be consumed again.\<close>

theorem auto_allow_is_spent:
  fixes rx sha exn_text rules
  defines "eval \<equiv> evaluate_answer rx sha exn_text rules"
  assumes "process_permission_request ok True ttl did now sid scope eval cr g = (Inr (), g')"
    and "er_decision (eval (request_context scope cr)) = ALLOW"
    and "\<forall>st. ok st" and "decisions_wf (g_decisions g)" and "truthy_str (sc_machine_id scope)"
    and "truthy (rf_request_id (extract_request_fields cr))"
    and "0 < approval_ttl ttl (er_matched_rule (eval (request_context scope cr)))"
  shows "new_behaviors g g' = [''allow''] \<and> spent did (g_decisions g')"
proof -
  let ?res = "eval (request_context scope cr)" and ?rid = "rf_request_id (extract_request_fields cr)"
  obtain fp where fp: "er_fingerprint ?res = Some fp" "fp_request_id fp = ?rid"
    using evaluated_fingerprint [OF assms(3,7) [unfolded eval_def]] unfolding eval_def by blast
  define row where "row = (tool_decision ttl sid scope ?res now)\<lparr>pd_decision_id := did,
    pd_issued_at := Some now, pd_remote_response_id := None, pd_created_at := Some now, pd_updated_at := Some now\<rparr>"
  define g1 where "g1 = g\<lparr>g_decisions := g_decisions g @ [row]\<rparr>"
  have row: "pd_decision_id row = did" "pd_request_id row = ?rid" "consumable did None now row"
    using assms(8) fp by (simp_all add: row_def tool_decision_def Let_def consumable_def)
  have fresh: "did \<notin> set (decision_ids (g_decisions g))"
    and p: "persist_tool_decision ok ttl did now sid ?res scope g = (Inr did, g1)"
    using assms(2,4)
    by (auto simp: process_permission_request_def persist_tool_decision_def insert_decision_def Let_def
        g1_def row_def tool_decision_def split: if_splits)
  have wf: "decisions_wf (g_decisions g1)"
    using assms(5) fresh row(1) by (simp add: decisions_wf_def g1_def)
  have get: "get_decision_by_request ?rid (g_decisions g1) = Some row"
    using row(2) assms(7) by (auto simp: get_decision_by_request_def g1_def)
  let ?e = "enforce_policy_consume ok True now ?rid ''allow'' None (Some policy_system_actor) (g_decisions g1)"
  have "fst ?e = ''allow''"
    using enforce_spec [OF wf assms(7) get, of ok now "''allow''"] assms(4) row by simp
  moreover have "spent did (snd ?e)"
    using row(1,3) assms(4,7) get
    by (auto simp: enforce_policy_consume_def g1_def consume_decision_def spent_def spent_row_def
        filter_empty_conv list_ex_iff)
  moreover have "g' = snd (respond_to_permission ok True now (sc_machine_id scope) sid ?rid ''allow''
      (por (rf_tool (extract_request_fields cr)) (JStr [])) (Some (er_reason ?res)) None
      (Some policy_system_actor) g1)"
    using assms(2,3) p by (auto simp: process_permission_request_def Let_def)
  ultimately show ?thesis
    using respond_spec [of ok True now "sc_machine_id scope" sid ?rid "''allow''"
        "por (rf_tool (extract_request_fields cr)) (JStr [])" "Some (er_reason ?res)" None
        "Some policy_system_actor" g1] assms(6)
    by (auto simp: g1_def intro: new_behaviors_append)
qed

text \<open>A request whose evaluation failed has no single-use protection: its decision is stored
  without the request id, so any number of answers to it, at any later instant, go through as the
  reviewer asked, and the decision is never consumed.\<close>

theorem failed_evaluation_unprotected:
  assumes "process_permission_request ok True ttl did now sid scope eval cr g = (Inr (), g1)"
    and "er_fingerprint (eval (request_context scope cr)) = None"
    and "er_decision (eval (request_context scope cr)) = REQUIRE_HUMAN"
    and "get_decision_by_request rid (g_decisions g) = None" and "ok' ReadDecision"
  shows "enforce_policy_consume ok' True later rid ''allow'' by name (g_decisions g1) = (''allow'', g_decisions g1)"
proof -
  let ?res = "eval (request_context scope cr)"
  obtain row where t: "g_decisions g1 = g_decisions g @ [row]" and "pd_request_id row = JNull"
    using assms(1-3)
    by (auto simp: process_permission_request_def persist_tool_decision_def insert_decision_def Let_def
        tool_decision_def split: if_splits)
  then have "get_decision_by_request rid (g_decisions g1) = None"
    using assms(4) by (auto simp: get_decision_by_request_def)
  with assms(5) show ?thesis by (simp add: enforce_policy_consume_def)
qed

text \<open>Rules scoped to a team never take part in the evaluation of a permission request: the
  session manager passes no team, so such a rule is out of scope, whatever its effect.\<close>

theorem team_rules_ignored:
  "evaluate rx sha exn_text (Inr rs) (request_context scope cr) c =
   evaluate rx sha exn_text (Inr (filter (\<lambda>r. rb_team_id r = None) rs)) (request_context scope cr) c"
proof -
  have "cx_team_id (normalize_ctx (request_context scope cr)) = None"
    by (simp add: normalize_ctx_def Let_def request_context_def)
  then have "ranked_rules (normalize_ctx (request_context scope cr)) rs =
      ranked_rules (normalize_ctx (request_context scope cr)) (filter (\<lambda>r. rb_team_id r = None) rs)"
    by (auto simp: ranked_rules_def scope_match_def dim_match_def conj_ac
        intro!: arg_cong [where f = "sort_key rank"] filter_cong)
  then show ?thesis by (simp add: evaluate_def evaluate_unsafe_def)
qed

section \<open>Concrete instances\<close>

definition sample_scope :: policy_scope where
  "sample_scope = \<lparr>sc_tenant_id = Some 3, sc_project_path = None, sc_machine_id = Some ''m1'', sc_user_id = None\<rparr>"

definition sample_request :: json where
  "sample_request = cx_control_request sample_context"

abbreviation empty_gate :: gate where
  "empty_gate \<equiv> \<lparr>g_decisions = [], g_buffered = [], g_sent = []\<rparr>"

abbreviation sample_process ::
    "(policy_context \<Rightarrow> evaluation_result) \<Rightarrow> unit result \<times> gate" where
  "sample_process eval \<equiv>
     process_permission_request (\<lambda>_. True) True 3600 ''d1'' 0 ''s1'' sample_scope eval sample_request empty_gate"

definition sample_gate :: gate where
  "sample_gate = snd (sample_process (sample_eval (Inr [])))"

lemma sample_gate_facts:
  "decisions_wf (g_decisions sample_gate)"
  "get_decision_by_request (JStr ''r1'') (g_decisions sample_gate) = Some (hd (g_decisions sample_gate))"
  "consumable (pd_decision_id (hd (g_decisions sample_gate))) None 5 (hd (g_decisions sample_gate))"
  "map pc_behavior (g_sent sample_gate) = []"
  by code_simp+

lemma consume_decision_exact_witness:
  "fst (consume_decision ''d1'' ''allow'' None None None 5 (g_decisions sample_gate)) = 1"
proof -
  have "\<exists>r\<in>set (g_decisions sample_gate). consumable ''d1'' None 5 r" by code_simp
  then show ?thesis
    using consume_decision_exact [OF sample_gate_facts(1) prod.collapse [symmetric],
        of "''d1''" "''allow''" None None None 5] by simp
qed

lemma response_needs_live_decision_witness:
  "map pc_behavior (g_sent (snd (respond_to_permission (\<lambda>_. True) True 5 (Some ''m1'') ''s1''
     (JStr ''r1'') ''allow'' (JStr ''Bash'') None (Some 1) None sample_gate))) = [''allow'']"
  using response_needs_live_decision [OF sample_gate_facts(1) _ sample_gate_facts(2)]
    sample_gate_facts(3,4) by (simp add: truthy_str_def)

lemma permission_request_dispatch_witness:
  "new_behaviors empty_gate sample_gate = [] \<and> length (g_buffered sample_gate) = 1"
proof -
  have "er_decision (sample_eval (Inr []) (request_context sample_scope sample_request)) = REQUIRE_HUMAN"
    and "fst (sample_process (sample_eval (Inr []))) = Inr ()" by code_simp+
  then show ?thesis
    using permission_request_dispatch [of "\<lambda>_. True" 3600 "''d1''" 0 "''s1''" sample_scope
        "sample_eval (Inr [])" sample_request empty_gate sample_gate]
    by (simp add: sample_gate_def prod_eq_iff)
qed

lemma sample_allowed_request:
  "er_decision (sample_eval (Inr [sample_rule]) (request_context sample_scope sample_request)) = ALLOW"
  "fst (sample_process (sample_eval (Inr [sample_rule]))) = Inr ()"
  "new_behaviors empty_gate (snd (sample_process (sample_eval (Inr [sample_rule])))) = [''allow'']"
  by code_simp+

lemma auto_allow_is_spent_witness:
  "spent ''d1'' (g_decisions (snd (sample_process (sample_eval (Inr [sample_rule])))))"
proof -
  have p: "sample_process (sample_eval (Inr [sample_rule])) =
      (Inr (), snd (sample_process (sample_eval (Inr [sample_rule]))))"
    using sample_allowed_request(2) by (simp add: prod_eq_iff)
  have "truthy_str (sc_machine_id sample_scope)"
    and "truthy (rf_request_id (extract_request_fields sample_request))"
    and "0 < approval_ttl 3600 (er_matched_rule (sample_eval (Inr [sample_rule])
           (request_context sample_scope sample_request)))"
    by code_simp+
  then show ?thesis
    using auto_allow_is_spent [OF p sample_allowed_request(1)] by (simp add: decisions_wf_def)
qed

lemma failed_evaluation_unprotected_witness:
  "enforce_policy_consume (\<lambda>_. True) True (seconds 999999) (JStr ''r1'') ''allow'' (Some 1) None
     (g_decisions (snd (sample_process (sample_eval (Inl DBError))))) =
   (''allow'', g_decisions (snd (sample_process (sample_eval (Inl DBError)))))"
proof -
  have "er_fingerprint (sample_eval (Inl DBError) (request_context sample_scope sample_request)) = None"
    and "er_decision (sample_eval (Inl DBError) (request_context sample_scope sample_request)) = REQUIRE_HUMAN"
    and "fst (sample_process (sample_eval (Inl DBError))) = Inr ()"
    by code_simp+
  then show ?thesis
    by (intro failed_evaluation_unprotected [of "\<lambda>_. True" 3600 "''d1''" 0 "''s1''" sample_scope
          "sample_eval (Inl DBError)" sample_request empty_gate])
      (simp_all add: prod_eq_iff get_decision_by_request_def)
qed

end
