(* ===== verification/Lease.thy ===== *)
theory Lease
  imports Prelude
begin

text \<open>
  The contract of a lease: who holds it and until when, and how the statements a client sends
  change that. What a holder may rely on under every interleaving of the statements of all
  clients is proved from the contract. Two kinds of leases extend the common part: leases whose
  end is fixed when they are taken and leases that their holder extends.
\<close>

section \<open>Statements of the clients\<close>

text \<open>The parameter \<open>x\<close> is what a request carries besides its sender and its instant.\<close>

datatype ('i, 'x) lease_op =
    Acquire 'i 'x instant
  | Touch 'i instant
  | Release 'i

fun lease_exec ::
    "('i \<Rightarrow> 'x \<Rightarrow> instant \<Rightarrow> 't \<Rightarrow> 't) \<Rightarrow> ('i \<Rightarrow> instant \<Rightarrow> 't \<Rightarrow> 't) \<Rightarrow> ('i \<Rightarrow> 't \<Rightarrow> 't) \<Rightarrow>
     ('i, 'x) lease_op \<Rightarrow> 't \<Rightarrow> 't" where
  "lease_exec acquire touch release (Acquire i x now) t = acquire i x now t"
| "lease_exec acquire touch release (Touch i now) t = touch i now t"
| "lease_exec acquire touch release (Release i) t = release i t"

text \<open>An operation that cannot take the lease of \<open>i\<close> away before \<open>e\<close>.\<close>

fun harmless :: "'i \<Rightarrow> instant \<Rightarrow> ('i, 'x) lease_op \<Rightarrow> bool" where
  "harmless i e (Acquire j x now) \<longleftrightarrow> now \<le> e"
| "harmless i e (Touch j now) \<longleftrightarrow> True"
| "harmless i e (Release j) \<longleftrightarrow> j \<noteq> i"

text \<open>Operations among which those of \<open>i\<close> renew its lease before it ends.\<close>

fun renewed_in_time :: "int \<Rightarrow> 'i \<Rightarrow> instant \<Rightarrow> ('i, 'x) lease_op list \<Rightarrow> bool" where
  "renewed_in_time ttl i e [] \<longleftrightarrow> True"
| "renewed_in_time ttl i e (Acquire j x now # ops) \<longleftrightarrow> now \<le> e \<and> renewed_in_time ttl i e ops"
| "renewed_in_time ttl i e (Touch j now # ops) \<longleftrightarrow>
     renewed_in_time ttl i (if j = i then now + ttl else e) ops"
| "renewed_in_time ttl i e (Release j # ops) \<longleftrightarrow> j \<noteq> i \<and> renewed_in_time ttl i e ops"

section \<open>The contract\<close>

text \<open>What every lease has: it is taken when there is none or it has expired, and released by its
  holder only.\<close>

locale lease_core =
  fixes invar :: "'t \<Rightarrow> bool"
    and holder :: "'t \<Rightarrow> ('i \<times> instant) option"
    and expiry :: "'x \<Rightarrow> instant \<Rightarrow> instant"
    and acquire :: "'i \<Rightarrow> 'x \<Rightarrow> instant \<Rightarrow> 't \<Rightarrow> 't"
    and release :: "'i \<Rightarrow> 't \<Rightarrow> 't"
  assumes holder_acquire: "invar t \<Longrightarrow> holder (acquire i x now t) =
      (case holder t of
         None \<Rightarrow> Some (i, expiry x now)
       | Some (j, e) \<Rightarrow> if e < now then Some (i, expiry x now) else Some (j, e))"
    and holder_release: "invar t \<Longrightarrow> holder (release i t) =
      (case holder t of None \<Rightarrow> None | Some (j, e) \<Rightarrow> if j = i then None else Some (j, e))"
    and invar_acquire: "invar t \<Longrightarrow> invar (acquire i x now t)"
    and invar_release: "invar t \<Longrightarrow> invar (release i t)"
begin

lemma refused:
  assumes "invar t" and "holder t = Some (i, e)" and "now \<le> e"
  shows "holder (acquire j x now t) = Some (i, e)"
  using assms by (simp add: holder_acquire)

lemma granted:
  assumes "invar t" and "holder t = None \<or> (\<exists>i e. holder t = Some (i, e) \<and> e < now)"
  shows "holder (acquire j x now t) = Some (j, expiry x now)"
  using assms by (auto simp: holder_acquire)

end

text \<open>A lease whose end is fixed when it is taken: touching it records a sign of life only.\<close>

locale fixed_lease = lease_core invar holder expiry acquire release
  for invar :: "'t \<Rightarrow> bool"
    and holder :: "'t \<Rightarrow> ('i \<times> instant) option"
    and expiry :: "'x \<Rightarrow> instant \<Rightarrow> instant"
    and acquire :: "'i \<Rightarrow> 'x \<Rightarrow> instant \<Rightarrow> 't \<Rightarrow> 't"
    and release :: "'i \<Rightarrow> 't \<Rightarrow> 't" +
  fixes touch :: "'i \<Rightarrow> instant \<Rightarrow> 't \<Rightarrow> 't"
  assumes holder_touch: "invar t \<Longrightarrow> holder (touch i now t) = holder t"
    and invar_touch: "invar t \<Longrightarrow> invar (touch i now t)"
begin

lemma harmless_step:
  "invar t \<Longrightarrow> holder t = Some (i, e) \<Longrightarrow> harmless i e op \<Longrightarrow>
   invar (lease_exec acquire touch release op t) \<and>
   holder (lease_exec acquire touch release op t) = Some (i, e)"
  by (cases op)
    (auto simp: holder_acquire holder_touch holder_release invar_acquire invar_touch invar_release)

text \<open>Until it expires, a lease stays with its holder whatever the other clients send.\<close>

lemma exclusive:
  assumes "invar t" and "holder t = Some (i, e)" and "\<And>op. op \<in> set ops \<Longrightarrow> harmless i e op"
  shows "invar (fold (lease_exec acquire touch release) ops t) \<and>
    holder (fold (lease_exec acquire touch release) ops t) = Some (i, e)"
  using assms by (induction ops arbitrary: t) (simp_all add: harmless_step)

end

text \<open>A lease that its holder extends: touching moves its end.\<close>

locale renewable_lease = lease_core invar holder expiry acquire release
  for invar :: "'t \<Rightarrow> bool"
    and holder :: "'t \<Rightarrow> ('i \<times> instant) option"
    and expiry :: "'x \<Rightarrow> instant \<Rightarrow> instant"
    and acquire :: "'i \<Rightarrow> 'x \<Rightarrow> instant \<Rightarrow> 't \<Rightarrow> 't"
    and release :: "'i \<Rightarrow> 't \<Rightarrow> 't" +
  fixes renew :: "'i \<Rightarrow> instant \<Rightarrow> 't \<Rightarrow> 't"
    and ttl :: int
  assumes holder_renew: "invar t \<Longrightarrow> holder (renew i now t) =
      (case holder t of None \<Rightarrow> None
       | Some (j, e) \<Rightarrow> if j = i then Some (i, now + ttl) else Some (j, e))"
    and invar_renew: "invar t \<Longrightarrow> invar (renew i now t)"
begin

text \<open>While the holder renews before each end, every other request comes too early.\<close>

lemma kept:
  "invar t \<Longrightarrow> holder t = Some (i, e) \<Longrightarrow> renewed_in_time ttl i e ops \<Longrightarrow>
   \<exists>e'. holder (fold (lease_exec acquire renew release) ops t) = Some (i, e')"
proof (induction ops arbitrary: t e)
  case (Cons op ops)
  show ?case
  proof (cases op)
    case (Acquire j x now)
    with Cons.prems refused have "holder (acquire j x now t) = Some (i, e)" by simp
    with Acquire Cons show ?thesis by (simp add: invar_acquire)
  next
    case (Touch j now)
    with Cons.prems have "holder (renew j now t) = Some (i, if j = i then now + ttl else e)"
      by (auto simp: holder_renew)
    with Touch Cons show ?thesis by (simp add: invar_renew)
  next
    case (Release j)
    with Cons.prems have "holder (release j t) = Some (i, e)" by (auto simp: holder_release)
    with Release Cons show ?thesis by (simp add: invar_release)
  qed
qed simp

end

end
