(* ===== verification/Leader_Election.thy ===== *)
theory Leader_Election
  imports Lease
begin

text \<open>
  Leader election, \<^verbatim>\<open>app/services/leader_election.py\<close>, and its users in
  \<^verbatim>\<open>app/services/distributed_scheduler.py\<close>: the table \<^verbatim>\<open>scheduler_leaders\<close> keyed by the
  job, the client with its flag and counters, and the job runners.

  Every statement is atomic; \<open>ok\<close> says which of them the database executes, the others raise.
  The two consecutive readings of the clock in the acquisition are one instant. The heartbeat
  thread is its iterations, \<open>heartbeat_tick\<close>, interleaved by the caller.
\<close>

section \<open>The table of leaders\<close>

record leader_row =
  lr_leader_id :: string
  lr_owner_info :: "string option"
  lr_acquired_at :: instant
  lr_expires_at :: instant
  lr_heartbeat_at :: instant
  lr_last_run_at :: "instant option"
  lr_run_count :: int
  lr_skip_count :: int
  lr_fail_count :: int
  lr_fencing_token :: "int option"

type_synonym leader_table = "(string, leader_row) dict"

text \<open>
  \<^verbatim>\<open>INSERT ... ON CONFLICT (job_name) DO UPDATE ... WHERE expires_at < now\<close>. The statement of
  the election client leaves the fencing token alone (\<open>token = None\<close>), the one of the execution
  guard writes it.
\<close>

definition claim_row ::
    "string \<Rightarrow> string option \<Rightarrow> int option \<Rightarrow> instant \<Rightarrow> instant \<Rightarrow> leader_row \<Rightarrow> leader_row" where
  "claim_row leader owner token now expires r =
     r\<lparr>lr_leader_id := leader, lr_owner_info := owner, lr_acquired_at := now,
       lr_expires_at := expires, lr_heartbeat_at := now,
       lr_fencing_token := (if token = None then lr_fencing_token r else token)\<rparr>"

definition fresh_row :: "string \<Rightarrow> string option \<Rightarrow> int option \<Rightarrow> instant \<Rightarrow> instant \<Rightarrow> leader_row" where
  "fresh_row leader owner token now expires =
     \<lparr>lr_leader_id = leader, lr_owner_info = owner, lr_acquired_at = now, lr_expires_at = expires,
      lr_heartbeat_at = now, lr_last_run_at = None, lr_run_count = 0, lr_skip_count = 0,
      lr_fail_count = 0, lr_fencing_token = token\<rparr>"

definition sql_claim ::
    "string \<Rightarrow> string \<Rightarrow> string option \<times> int option \<Rightarrow> instant \<Rightarrow> instant \<Rightarrow> leader_table \<Rightarrow> leader_table" where
  "sql_claim job leader x now expires t =
     (case map_of t job of
        None \<Rightarrow> AList.update job (fresh_row leader (fst x) (snd x) now expires) t
      | Some r \<Rightarrow>
          if lr_expires_at r < now
          then AList.update job (claim_row leader (fst x) (snd x) now expires r) t
          else t)"

text \<open>\<^verbatim>\<open>UPDATE ... WHERE job_name = ? AND leader_id = ?\<close>\<close>

definition sql_update_own ::
    "string \<Rightarrow> string \<Rightarrow> (leader_row \<Rightarrow> leader_row) \<Rightarrow> leader_table \<Rightarrow> leader_table" where
  "sql_update_own job leader f t =
     (case map_of t job of
        Some r \<Rightarrow> if lr_leader_id r = leader then AList.update job (f r) t else t
      | None \<Rightarrow> t)"

definition sql_touch :: "string \<Rightarrow> string \<Rightarrow> instant \<Rightarrow> leader_table \<Rightarrow> leader_table" where
  "sql_touch job leader now = sql_update_own job leader (\<lambda>r. r\<lparr>lr_heartbeat_at := now\<rparr>)"

definition sql_delete_own :: "string \<Rightarrow> string \<Rightarrow> leader_table \<Rightarrow> leader_table" where
  "sql_delete_own job leader t =
     (case map_of t job of
        Some r \<Rightarrow> if lr_leader_id r = leader then AList.delete job t else t
      | None \<Rightarrow> t)"

definition select_leader :: "string \<Rightarrow> leader_table \<Rightarrow> string option" where
  "select_leader job t = map_option lr_leader_id (map_of t job)"

definition lease_expiry :: "instant \<Rightarrow> int \<Rightarrow> instant" where
  "lease_expiry now timeout = floor_minute now + seconds timeout"

record run_record =
  ru_job_name :: string
  ru_leader_id :: string
  ru_started_at :: instant
  ru_ended_at :: instant
  ru_status :: string
  ru_duration_ms :: "int option"
  ru_error_message :: "string option"

record sched_db =
  sd_leaders :: leader_table
  sd_runs :: "run_record list"
  sd_token_seq :: int

section \<open>The election client\<close>

record election_client =
  lc_job_name :: string
  lc_leader_id :: string
  lc_owner_info :: string
  lc_strategy :: string
  lc_lock_timeout :: int
  lc_is_leader :: bool
  lc_heartbeat :: bool
  lc_run_count :: int
  lc_skip_count :: int
  lc_fail_count :: int

definition new_client :: "string \<Rightarrow> string \<Rightarrow> string \<Rightarrow> string \<Rightarrow> int \<Rightarrow> election_client" where
  "new_client job leader owner strategy lock_timeout =
     \<lparr>lc_job_name = job, lc_leader_id = leader, lc_owner_info = owner,
      lc_strategy = (if strategy = ''auto'' then ''heartbeat'' else strategy),
      lc_lock_timeout = lock_timeout, lc_is_leader = False, lc_heartbeat = False,
      lc_run_count = 0, lc_skip_count = 0, lc_fail_count = 0\<rparr>"

datatype lease_stmt = Claim | SelectLeader | TouchRow | DeleteRow | Counters | InsertRun | NextToken

definition try_acquire_heartbeat_lock ::
    "(lease_stmt \<Rightarrow> bool) \<Rightarrow> int \<Rightarrow> instant \<Rightarrow> election_client \<Rightarrow> sched_db \<Rightarrow>
     bool \<times> election_client \<times> sched_db" where
  "try_acquire_heartbeat_lock ok timeout now c d =
     (if \<not> ok Claim then (False, c\<lparr>lc_fail_count := lc_fail_count c + 1\<rparr>, d)
      else
        let d1 = d\<lparr>sd_leaders := sql_claim (lc_job_name c) (lc_leader_id c)
                     (Some (lc_owner_info c), None) now (lease_expiry now timeout) (sd_leaders d)\<rparr>
        in if \<not> ok SelectLeader then (False, c\<lparr>lc_fail_count := lc_fail_count c + 1\<rparr>, d1)
           else if select_leader (lc_job_name c) (sd_leaders d1) = Some (lc_leader_id c)
           then (True, c\<lparr>lc_is_leader := True, lc_heartbeat := True\<rparr>, d1)
           else (False, c\<lparr>lc_skip_count := lc_skip_count c + 1\<rparr>, d1))"

definition try_acquire_advisory_lock ::
    "(lease_stmt \<Rightarrow> bool) \<Rightarrow> int \<Rightarrow> instant \<Rightarrow> election_client \<Rightarrow> sched_db \<Rightarrow>
     bool \<times> election_client \<times> sched_db" where
  "try_acquire_advisory_lock ok timeout now c d =
     try_acquire_heartbeat_lock ok timeout now (c\<lparr>lc_strategy := ''heartbeat''\<rparr>) d"

definition try_acquire_leadership ::
    "(lease_stmt \<Rightarrow> bool) \<Rightarrow> int option \<Rightarrow> instant \<Rightarrow> election_client \<Rightarrow> sched_db \<Rightarrow>
     bool \<times> election_client \<times> sched_db" where
  "try_acquire_leadership ok timeout now c d =
     (let tmo = (case timeout of None \<Rightarrow> lc_lock_timeout c
                 | Some n \<Rightarrow> if n = 0 then lc_lock_timeout c else n)
      in if lc_strategy c = ''advisory'' then try_acquire_advisory_lock ok tmo now c d
         else try_acquire_heartbeat_lock ok tmo now c d)"

definition renew_heartbeat ::
    "(lease_stmt \<Rightarrow> bool) \<Rightarrow> instant \<Rightarrow> election_client \<Rightarrow> sched_db \<Rightarrow> bool \<times> election_client \<times> sched_db" where
  "renew_heartbeat ok now c d =
     (if lc_strategy c \<noteq> ''heartbeat'' \<or> \<not> lc_is_leader c then (False, c, d)
      else if \<not> ok TouchRow then (False, c\<lparr>lc_is_leader := False\<rparr>, d)
      else
        let d1 = d\<lparr>sd_leaders := sql_touch (lc_job_name c) (lc_leader_id c) now (sd_leaders d)\<rparr>
        in if ok SelectLeader \<and> select_leader (lc_job_name c) (sd_leaders d1) = Some (lc_leader_id c)
           then (True, c, d1)
           else (False, c\<lparr>lc_is_leader := False\<rparr>, d1))"

text \<open>One iteration of the heartbeat thread: it ends when the renewal fails.\<close>

definition heartbeat_tick ::
    "(lease_stmt \<Rightarrow> bool) \<Rightarrow> instant \<Rightarrow> election_client \<Rightarrow> sched_db \<Rightarrow> election_client \<times> sched_db" where
  "heartbeat_tick ok now c d =
     (if \<not> lc_heartbeat c then (c, d)
      else
        let (still, c1, d1) = renew_heartbeat ok now c d
        in (if still then c1 else c1\<lparr>lc_heartbeat := False\<rparr>, d1))"

definition release_leadership ::
    "(lease_stmt \<Rightarrow> bool) \<Rightarrow> election_client \<Rightarrow> sched_db \<Rightarrow> election_client \<times> sched_db" where
  "release_leadership ok c d =
     (if \<not> lc_is_leader c then (c, d)
      else (c\<lparr>lc_heartbeat := False, lc_is_leader := False\<rparr>,
            if ok DeleteRow
            then d\<lparr>sd_leaders := sql_delete_own (lc_job_name c) (lc_leader_id c) (sd_leaders d)\<rparr>
            else d))"

definition get_leader_info :: "(lease_stmt \<Rightarrow> bool) \<Rightarrow> election_client \<Rightarrow> sched_db \<Rightarrow> leader_row option" where
  "get_leader_info ok c d = (if ok SelectLeader then map_of (sd_leaders d) (lc_job_name c) else None)"

definition count_row :: "string \<Rightarrow> instant \<Rightarrow> leader_row \<Rightarrow> leader_row" where
  "count_row status now r =
     (if status = ''completed'' \<or> status = ''partial''
      then r\<lparr>lr_run_count := lr_run_count r + 1, lr_last_run_at := Some now\<rparr>
      else if status = ''skipped'' then r\<lparr>lr_skip_count := lr_skip_count r + 1\<rparr>
      else if status = ''failed'' then r\<lparr>lr_fail_count := lr_fail_count r + 1\<rparr>
      else r)"

definition count_client :: "string \<Rightarrow> election_client \<Rightarrow> election_client" where
  "count_client status c =
     (if status = ''completed'' \<or> status = ''partial'' then c\<lparr>lc_run_count := lc_run_count c + 1\<rparr>
      else if status = ''skipped'' then c\<lparr>lc_skip_count := lc_skip_count c + 1\<rparr>
      else if status = ''failed'' then c\<lparr>lc_fail_count := lc_fail_count c + 1\<rparr>
      else c)"

definition record_run ::
    "(lease_stmt \<Rightarrow> bool) \<Rightarrow> string \<Rightarrow> int option \<Rightarrow> string option \<Rightarrow> instant \<Rightarrow> election_client \<Rightarrow>
     sched_db \<Rightarrow> election_client \<times> sched_db" where
  "record_run ok status duration_ms err now c d =
     (if status \<in> {''completed'', ''skipped'', ''failed'', ''partial''} \<and> \<not> ok Counters then (c, d)
      else
        let d1 = d\<lparr>sd_leaders := sql_update_own (lc_job_name c) (lc_leader_id c) (count_row status now)
                     (sd_leaders d)\<rparr>;
            c1 = count_client status c
        in if \<not> ok InsertRun then (c1, d1)
           else (c1, d1\<lparr>sd_runs := sd_runs d1 @
                  [\<lparr>ru_job_name = lc_job_name c, ru_leader_id = lc_leader_id c, ru_started_at = now,
                    ru_ended_at = now, ru_status = status, ru_duration_ms = duration_ms,
                    ru_error_message = err\<rparr>]\<rparr>))"

section \<open>Job runners\<close>

record dist_scheduler =
  ds_client :: election_client
  ds_run_count :: int
  ds_skip_count :: int
  ds_fail_count :: int

text \<open>
  \<open>job\<close> is the job with everything that happens while it runs, heartbeats and other instances
  included: it maps the client and the database to themselves afterwards and to the text of the
  exception that ended it, if one did.
\<close>

type_synonym job_run = "election_client \<times> sched_db \<Rightarrow> string option \<times> election_client \<times> sched_db"

definition run_with_lock ::
    "(lease_stmt \<Rightarrow> bool) \<Rightarrow> job_run \<Rightarrow> instant \<Rightarrow> instant \<Rightarrow> dist_scheduler \<Rightarrow> sched_db \<Rightarrow>
     bool \<times> dist_scheduler \<times> sched_db" where
  "run_with_lock ok job now end_time s d =
     (let (got, c1, d1) = try_acquire_leadership ok (Some (lc_lock_timeout (ds_client s))) now (ds_client s) d
      in if \<not> got then
           (let (c2, d2) = record_run ok ''skipped'' None None now c1 d1
            in (False, s\<lparr>ds_client := c2, ds_skip_count := ds_skip_count s + 1\<rparr>, d2))
         else
           (let (err, c2, d2) = job (c1, d1);
                status = (if err = None then ''completed'' else ''failed'');
                (c3, d3) = record_run ok status (Some ((end_time - now) div 1000)) err end_time c2 d2;
                (c4, d4) = release_leadership ok c3 d3
            in (True, s\<lparr>ds_client := c4,
                  ds_run_count := ds_run_count s + (if err = None then 1 else 0),
                  ds_fail_count := ds_fail_count s + (if err = None then 0 else 1)\<rparr>, d4)))"

definition lock_timeout_seconds :: int where
  "lock_timeout_seconds = 1800"

definition run_job_with_metrics ::
    "(lease_stmt \<Rightarrow> bool) \<Rightarrow> string \<Rightarrow> string \<Rightarrow> string \<Rightarrow> job_run \<Rightarrow> instant \<Rightarrow> instant \<Rightarrow> sched_db \<Rightarrow>
     bool \<times> sched_db" where
  "run_job_with_metrics ok job_name leader owner job now end_time d =
     (let (got, c1, d1) = try_acquire_leadership ok None now
            (new_client job_name leader owner ''auto'' lock_timeout_seconds) d
      in if \<not> got then (False, snd (record_run ok ''skipped'' None None now c1 d1))
         else
           (let (err, c2, d2) = job (c1, d1)
            in (True, snd (record_run ok (if err = None then ''completed'' else ''failed'')
                  (Some ((end_time - now) div 1000)) err end_time c2 d2))))"

section \<open>The lease contract\<close>

definition lease_holder :: "string \<Rightarrow> leader_table \<Rightarrow> (string \<times> instant) option" where
  "lease_holder job t = map_option (\<lambda>r. (lr_leader_id r, lr_expires_at r)) (map_of t job)"

lemma claim_row_simps [simp]:
  "lr_leader_id (claim_row l ow tok now e r) = l" "lr_expires_at (claim_row l ow tok now e r) = e"
  by (simp_all add: claim_row_def)

lemma fresh_row_simps [simp]:
  "lr_leader_id (fresh_row l ow tok now e) = l" "lr_expires_at (fresh_row l ow tok now e) = e"
  by (simp_all add: fresh_row_def)

lemma map_of_sql_claim:
  "map_of (sql_claim job l x now e t) job = Some
     (case map_of t job of None \<Rightarrow> fresh_row l (fst x) (snd x) now e
      | Some r \<Rightarrow> if lr_expires_at r < now then claim_row l (fst x) (snd x) now e r else r)"
  by (auto simp: sql_claim_def update_conv' split: option.splits)

lemma map_of_sql_update_own:
  "map_of (sql_update_own job l f t) job =
     (case map_of t job of None \<Rightarrow> None | Some r \<Rightarrow> Some (if lr_leader_id r = l then f r else r))"
  by (auto simp: sql_update_own_def update_conv' split: option.splits)

lemma map_of_sql_delete_own:
  "map_of (sql_delete_own job l t) job =
     (case map_of t job of None \<Rightarrow> None | Some r \<Rightarrow> if lr_leader_id r = l then None else Some r)"
  by (auto simp: sql_delete_own_def delete_conv' split: option.splits)

text \<open>A request carries the owner text, the token and the timeout.\<close>

definition claim_lease ::
    "string \<Rightarrow> string \<Rightarrow> (string option \<times> int option) \<times> int \<Rightarrow> instant \<Rightarrow> leader_table \<Rightarrow> leader_table" where
  "claim_lease job leader x now t = sql_claim job leader (fst x) now (lease_expiry now (snd x)) t"

interpretation job_lease: fixed_lease "\<lambda>_. True" "lease_holder job" "\<lambda>x now. lease_expiry now (snd x)"
    "claim_lease job" "sql_delete_own job" "sql_touch job"
  for job
  by unfold_locales
    (auto simp: lease_holder_def claim_lease_def map_of_sql_claim sql_touch_def map_of_sql_update_own
      map_of_sql_delete_own split: option.splits)

text \<open>The statements of all clients of a job, election clients and guards alike.\<close>

type_synonym leader_op = "(string, (string option \<times> int option) \<times> int) lease_op"

definition exec_leader_op :: "string \<Rightarrow> leader_op \<Rightarrow> leader_table \<Rightarrow> leader_table" where
  "exec_leader_op job = lease_exec (claim_lease job) (sql_touch job) (sql_delete_own job)"

lemma claim_refused:
  assumes "lease_holder job t = Some (i, e)" and "now \<le> e"
  shows "lease_holder job (sql_claim job j x now (lease_expiry now timeout) t) = Some (i, e)"
  using job_lease.refused [OF TrueI assms, of j "(x, timeout)"] by (simp add: claim_lease_def)

lemma claim_granted:
  assumes "lease_holder job t = None \<or> (\<exists>i e. lease_holder job t = Some (i, e) \<and> e < now)"
  shows "lease_holder job (sql_claim job j x now (lease_expiry now timeout) t) = Some (j, lease_expiry now timeout)"
  using job_lease.granted [OF TrueI assms, of j "(x, timeout)"] by (simp add: claim_lease_def)

lemma select_leader_holder: "select_leader job t = map_option fst (lease_holder job t)"
  by (simp add: select_leader_def lease_holder_def option.map_comp comp_def)

lemma acquire_answer:
  assumes "try_acquire_heartbeat_lock ok timeout now c d = (got, c', d')"
  shows "(got \<longrightarrow> select_leader (lc_job_name c) (sd_leaders d') = Some (lc_leader_id c) \<and> lc_is_leader c') \<and>
    sd_leaders d' = (if ok Claim then sql_claim (lc_job_name c) (lc_leader_id c)
       (Some (lc_owner_info c), None) now (lease_expiry now timeout) (sd_leaders d) else sd_leaders d)"
  using assms by (auto simp: try_acquire_heartbeat_lock_def Let_def split: if_splits)

lemma lease_expiry_bounds:
  "lease_expiry now timeout \<le> now + seconds timeout" "now + seconds timeout - seconds 60 < lease_expiry now timeout"
  using floor_minute_le [of now] floor_minute_gt [of now] by (simp_all add: lease_expiry_def)

section \<open>Properties of leader election\<close>

text \<open>C7: While a lease has not expired and its holder has not released it, it stays with the
  holder whatever statements the other clients send, and every attempt of another client to
  become leader is answered with False.\<close>

theorem lease_excludes_others:
  assumes "lease_holder (lc_job_name c) (sd_leaders d) = Some (owner, e)"
    and "\<forall>op\<in>set ops. harmless owner e op"
    and "lc_leader_id c \<noteq> owner" and "now \<le> e"
    and "try_acquire_heartbeat_lock ok timeout now c
      (d\<lparr>sd_leaders := fold (exec_leader_op (lc_job_name c)) ops (sd_leaders d)\<rparr>) = (got, c', d')"
  shows "\<not> got \<and> lease_holder (lc_job_name c) (sd_leaders d') = Some (owner, e)"
proof -
  let ?t = "fold (exec_leader_op (lc_job_name c)) ops (sd_leaders d)"
  have t: "lease_holder (lc_job_name c) ?t = Some (owner, e)"
    unfolding exec_leader_op_def using assms(1,2) job_lease.exclusive [OF TrueI assms(1), of ops] by blast
  have "lease_holder (lc_job_name c) (sd_leaders d') = Some (owner, e)"
    using acquire_answer [OF assms(5)] t claim_refused [OF t assms(4)] by simp
  moreover from this acquire_answer [OF assms(5)] assms(3) have "\<not> got"
    by (auto simp: select_leader_holder)
  ultimately show ?thesis by simp
qed

text \<open>Heartbeats do not keep a lease alive: once the time fixed at its acquisition has passed,
  another client becomes leader, however many times and however recently the first has renewed,
  and the first keeps its leader flag.\<close>

theorem heartbeats_do_not_extend:
  assumes "lease_holder job (sd_leaders d) = Some (lc_leader_id c1, e)" and "e < now"
    and "lc_job_name c1 = job" and "lc_job_name c2 = job"
    and "lc_strategy c1 = ''heartbeat''" and "lc_is_leader c1" and "\<forall>st. ok st"
    and "fold (\<lambda>t (c, d). heartbeat_tick ok t c d) beats (c1, d) = (c1', d1)"
    and "try_acquire_heartbeat_lock ok timeout now c2 d1 = (got, c2', d2)"
  shows "c1' = c1 \<and> lc_is_leader c1' \<and> got \<and> lc_is_leader c2' \<and>
    lease_holder job (sd_leaders d2) = Some (lc_leader_id c2, lease_expiry now timeout)"
proof -
  have tick: "fold (\<lambda>t (c, d). heartbeat_tick ok t c d) beats (c1, d0) = (c1', d1) \<Longrightarrow>
      lease_holder job (sd_leaders d0) = Some (lc_leader_id c1, e) \<Longrightarrow>
      c1' = c1 \<and> lease_holder job (sd_leaders d1) = Some (lc_leader_id c1, e)" for d0
  proof (induction beats arbitrary: d0)
    case (Cons t beats)
    let ?d = "d0\<lparr>sd_leaders := sql_touch job (lc_leader_id c1) t (sd_leaders d0)\<rparr>"
    have "heartbeat_tick ok t c1 d0 = (c1, if lc_heartbeat c1 then ?d else d0)"
      using Cons.prems(2) assms(3,5-7)
      by (simp add: heartbeat_tick_def renew_heartbeat_def select_leader_holder job_lease.holder_touch)
    with Cons show ?case by (simp add: job_lease.holder_touch split: if_splits)
  qed simp
  have c1: "c1' = c1" and h: "lease_holder job (sd_leaders d1) = Some (lc_leader_id c1, e)"
    using tick [OF assms(8,1)] by simp_all
  have "lease_holder job (sql_claim job (lc_leader_id c2) x now (lease_expiry now tmo) (sd_leaders d1)) =
      Some (lc_leader_id c2, lease_expiry now tmo)" for x tmo
    using h assms(2) by (intro claim_granted) simp
  with assms(4,6,7,9) c1 show ?thesis
    by (auto simp: try_acquire_heartbeat_lock_def Let_def select_leader_holder)
qed

text \<open>A job run through \<^verbatim>\<open>run_job_with_metrics\<close> is never released: for the rest of its
  lease every other instance skips the job, although it finished.\<close>

theorem run_job_with_metrics_blocks:
  assumes "run_job_with_metrics ok job l1 ow1 (\<lambda>(c, d). (None, c, d)) now end1 d = (True, d1)"
    and "map_of (sd_leaders d) job = None" and "\<forall>st. ok st" and "l2 \<noteq> l1"
    and "later \<le> lease_expiry now lock_timeout_seconds"
  shows "fst (run_job_with_metrics ok job l2 ow2 body later end2 d1) = False"
proof -
  define c1 where "c1 = new_client job l1 ow1 ''auto'' lock_timeout_seconds"
  have "lease_holder job (sd_leaders d) = None" using assms(2) by (simp add: lease_holder_def)
  then have claim: "lease_holder job (sql_claim job l1 x now (lease_expiry now tmo) (sd_leaders d)) =
      Some (l1, lease_expiry now tmo)" for x tmo
    by (intro claim_granted) simp
  have count: "lease_holder job (sql_update_own job l (count_row st now') t) = lease_holder job t" for l st now' t
    by (auto simp: lease_holder_def map_of_sql_update_own count_row_def split: option.splits)
  have h: "lease_holder job (sd_leaders d1) = Some (l1, lease_expiry now lock_timeout_seconds)"
    using assms(1,3) claim
    by (auto simp: run_job_with_metrics_def try_acquire_leadership_def new_client_def
        try_acquire_heartbeat_lock_def Let_def select_leader_holder record_run_def count)
  show ?thesis
    using h assms(3-5) claim_refused [OF h assms(5)]
    by (simp add: run_job_with_metrics_def try_acquire_leadership_def new_client_def
        try_acquire_heartbeat_lock_def Let_def select_leader_holder)
qed

text \<open>A run of the distributed scheduler that acquires the lease ends with the lease released,
  unless another client took it over meanwhile, and with the flag and the heartbeat off.\<close>

theorem run_with_lock_releases:
  assumes "run_with_lock ok job now end_time s d = (True, s', d')" and "\<forall>st. ok st"
    and "\<And>c d. lc_leader_id (fst (snd (job (c, d)))) = lc_leader_id c \<and>
      lc_job_name (fst (snd (job (c, d)))) = lc_job_name c \<and> lc_is_leader (fst (snd (job (c, d)))) = lc_is_leader c"
  shows "select_leader (lc_job_name (ds_client s)) (sd_leaders d') \<noteq> Some (lc_leader_id (ds_client s)) \<and>
    \<not> lc_is_leader (ds_client s') \<and> \<not> lc_heartbeat (ds_client s')"
proof -
  obtain got c1 d1 where a: "try_acquire_leadership ok (Some (lc_lock_timeout (ds_client s))) now (ds_client s) d
      = (got, c1, d1)" by (metis prod_cases3)
  obtain err c2 d2 where j: "job (c1, d1) = (err, c2, d2)" by (metis prod_cases3)
  have same: "lc_leader_id c1 = lc_leader_id (ds_client s)" "lc_job_name c1 = lc_job_name (ds_client s)"
    and flag: "got \<Longrightarrow> lc_is_leader c1"
    using a assms(2) by (auto simp: try_acquire_leadership_def try_acquire_advisory_lock_def
        try_acquire_heartbeat_lock_def Let_def split: if_splits)
  have got: "got" using assms(1) a by (auto simp: run_with_lock_def split: prod.splits if_splits)
  have c2: "lc_leader_id c2 = lc_leader_id (ds_client s)" "lc_job_name c2 = lc_job_name (ds_client s)"
    "lc_is_leader c2"
    using assms(3) [of c1 d1] j same flag [OF got] by simp_all
  have del: "select_leader jn (sql_delete_own jn l t) \<noteq> Some l" for jn l t
    by (auto simp: select_leader_def map_of_sql_delete_own split: option.splits)
  have cc: "lc_leader_id (count_client st c2) = lc_leader_id c2" "lc_job_name (count_client st c2) = lc_job_name c2"
    "lc_is_leader (count_client st c2) = lc_is_leader c2" for st
    by (simp_all add: count_client_def)
  show ?thesis
    using assms(1,2) a j got c2 del cc
    by (auto simp: run_with_lock_def record_run_def release_leadership_def Let_def)
qed

text \<open>A run that is skipped because another client leads is counted twice in the metrics of
  the client, once in the attempt and once in the record of the run, and in no row of the table.\<close>

theorem skipped_run_counted_twice:
  assumes "lease_holder (lc_job_name (ds_client s)) (sd_leaders d) = Some (owner, e)"
    and "owner \<noteq> lc_leader_id (ds_client s)" and "now \<le> e" and "\<forall>st. ok st"
    and "run_with_lock ok job now end_time s d = (got, s', d')"
  shows "\<not> got \<and> lc_skip_count (ds_client s') = lc_skip_count (ds_client s) + 2 \<and>
    ds_skip_count s' = ds_skip_count s + 1 \<and> sd_leaders d' = sd_leaders d"
proof -
  let ?c = "ds_client s" and ?t = "sd_leaders d"
  from assms(1) obtain r where r: "map_of ?t (lc_job_name ?c) = Some r" "lr_leader_id r = owner" "lr_expires_at r = e"
    by (auto simp: lease_holder_def)
  then have "sql_claim (lc_job_name ?c) l x now e' ?t = ?t" for l x e'
    using assms(3) by (simp add: sql_claim_def)
  moreover have "sql_update_own (lc_job_name ?c) (lc_leader_id ?c) f ?t = ?t" for f
    using r assms(2) by (simp add: sql_update_own_def)
  moreover have "select_leader (lc_job_name ?c) ?t = Some owner" using r by (simp add: select_leader_def)
  ultimately show ?thesis
    using assms(2,4,5)
    by (auto simp: run_with_lock_def try_acquire_leadership_def try_acquire_advisory_lock_def
        try_acquire_heartbeat_lock_def record_run_def count_client_def Let_def split: if_splits)
qed

section \<open>Concrete instances\<close>

definition sample_client :: "string \<Rightarrow> election_client" where
  "sample_client l = (new_client ''job'' l ''host'' ''auto'' 1800)\<lparr>lc_is_leader := True, lc_heartbeat := True\<rparr>"

definition sample_led :: sched_db where
  "sample_led = \<lparr>sd_leaders = [(''job'', fresh_row ''a'' (Some ''host'') None 0 (seconds 1800))],
     sd_runs = [], sd_token_seq = 1\<rparr>"

lemma sample_led_holder: "lease_holder ''job'' (sd_leaders sample_led) = Some (''a'', seconds 1800)"
  by code_simp

lemma sample_client_fields [simp]:
  "lc_job_name (sample_client l) = ''job''" "lc_leader_id (sample_client l) = l"
  "lc_strategy (sample_client l) = ''heartbeat''" "lc_is_leader (sample_client l)"
  by (simp_all add: sample_client_def new_client_def)

lemma lease_excludes_others_witness:
  "\<not> fst (try_acquire_heartbeat_lock (\<lambda>_. True) 1800 (seconds 900) (sample_client ''b'')
     (sample_led\<lparr>sd_leaders := fold (exec_leader_op ''job'') [Release ''b'', Touch ''a'' 5] (sd_leaders sample_led)\<rparr>))"
proof -
  let ?c = "sample_client ''b''"
  obtain got c' d' where a: "try_acquire_heartbeat_lock (\<lambda>_. True) 1800 (seconds 900) ?c
      (sample_led\<lparr>sd_leaders := fold (exec_leader_op (lc_job_name ?c)) [Release ''b'', Touch ''a'' 5]
        (sd_leaders sample_led)\<rparr>) = (got, c', d')" by (metis prod_cases3)
  have "\<not> got"
    using lease_excludes_others [OF _ _ _ _ a, of "''a''" "seconds 1800"] sample_led_holder by simp
  with a show ?thesis by simp
qed

lemma heartbeats_do_not_extend_witness:
  "\<exists>d1. fst (try_acquire_heartbeat_lock (\<lambda>_. True) 1800 (seconds 1801) (sample_client ''b'') d1)"
proof -
  obtain c1' d1 where f: "fold (\<lambda>t (c, d). heartbeat_tick (\<lambda>_. True) t c d) [seconds 1800]
      (sample_client ''a'', sample_led) = (c1', d1)" by fastforce
  obtain got c2' d2 where a: "try_acquire_heartbeat_lock (\<lambda>_. True) 1800 (seconds 1801) (sample_client ''b'') d1
      = (got, c2', d2)" by (metis prod_cases3)
  have "got"
    using heartbeats_do_not_extend [OF _ _ _ _ _ _ _ f a, of "''job''" "seconds 1800"] sample_led_holder
    by simp
  with a show ?thesis by (metis fst_conv)
qed

lemma run_job_with_metrics_blocks_witness:
  "\<exists>d1. fst (run_job_with_metrics (\<lambda>_. True) ''job'' ''b'' ''host'' (\<lambda>(c, d). (None, c, d)) (seconds 900) (seconds 901) d1) = False"
proof -
  let ?d = "sample_led\<lparr>sd_leaders := []\<rparr>"
  let ?r = "run_job_with_metrics (\<lambda>_. True) ''job'' ''a'' ''host'' (\<lambda>(c, d). (None, c, d)) 0 5 ?d"
  have "fst ?r = True" by code_simp
  then have "?r = (True, snd ?r)" by (simp add: prod_eq_iff)
  moreover have "seconds 900 \<le> lease_expiry 0 lock_timeout_seconds" by code_simp
  ultimately have "fst (run_job_with_metrics (\<lambda>_. True) ''job'' ''b'' ''host'' (\<lambda>(c, d). (None, c, d)) (seconds 900) (seconds 901) (snd ?r)) = False"
    by (intro run_job_with_metrics_blocks [of "\<lambda>_. True" "''job''" "''a''" "''host''" 0 5 ?d]) simp_all
  then show ?thesis by blast
qed

lemma run_with_lock_releases_witness:
  "\<not> lc_is_leader (ds_client (fst (snd (run_with_lock (\<lambda>_. True) (\<lambda>(c, d). (Some ''boom'', c, d)) 0 5
     \<lparr>ds_client = sample_client ''a'', ds_run_count = 0, ds_skip_count = 0, ds_fail_count = 0\<rparr> sample_led))))"
proof -
  let ?s = "\<lparr>ds_client = sample_client ''a'', ds_run_count = 0, ds_skip_count = 0, ds_fail_count = 0\<rparr>"
  let ?r = "run_with_lock (\<lambda>_. True) (\<lambda>(c, d). (Some ''boom'', c, d)) 0 5 ?s sample_led"
  have "fst ?r = True" by code_simp
  then have "?r = (True, fst (snd ?r), snd (snd ?r))" by (simp add: prod_eq_iff)
  from run_with_lock_releases [OF this] show ?thesis by simp
qed

lemma skipped_run_counted_twice_witness:
  "\<exists>s :: dist_scheduler. lc_skip_count (ds_client s) = 2 \<and> ds_skip_count s = 1"
proof -
  let ?s = "\<lparr>ds_client = sample_client ''b'', ds_run_count = 0, ds_skip_count = 0, ds_fail_count = 0\<rparr>"
  obtain got s' d' where r: "run_with_lock (\<lambda>_. True) (\<lambda>(c, d). (None, c, d)) 5 6 ?s sample_led = (got, s', d')"
    by (metis prod_cases3)
  have "lc_skip_count (sample_client ''b'') = 0" by code_simp
  then have "lc_skip_count (ds_client s') = 2 \<and> ds_skip_count s' = 1"
    using skipped_run_counted_twice [OF _ _ _ _ r, of "''a''" "seconds 1800"] sample_led_holder by simp
  then show ?thesis by blast
qed

end
