(* ===== verification/Exec_Guard.thy ===== *)
theory Exec_Guard
  imports Leader_Election
begin

text \<open>
  The execution guard of the scheduler jobs, \<^verbatim>\<open>app/services/scheduler_guard.py\<close>: acquisition
  of a session lock or of a lease with a fencing token, the heartbeat, the validity checks a job
  makes before it commits, and the release with the record of the run.

  \<open>postgres\<close> is \<^verbatim>\<open>is_postgresql()\<close>. The polling of the session lock is given by the
  answers \<^verbatim>\<open>pg_try_advisory_lock\<close> gives within the acquisition timeout.
\<close>

section \<open>The guard\<close>

record guard =
  gd_job_name :: string
  gd_strategy :: string
  gd_leader_id :: string
  gd_leader_host :: string
  gd_lock_timeout :: int
  gd_fencing_token :: "int option"
  gd_lease_lost :: bool
  gd_heartbeat :: bool
  gd_connection :: bool
  gd_acquired :: bool
  gd_acquired_at :: "instant option"
  gd_released_at :: "instant option"

definition heartbeat_timeout_seconds :: int where
  "heartbeat_timeout_seconds = 60"

text \<open>The constructor: \<open>None\<close> is the \<open>ValueError\<close> of an unknown strategy.\<close>

definition new_guard :: "string \<Rightarrow> string \<Rightarrow> int option \<Rightarrow> string \<Rightarrow> string \<Rightarrow> guard result" where
  "new_guard job strategy lock_timeout leader host =
     (if strategy \<noteq> ''session_lock'' \<and> strategy \<noteq> ''heartbeat'' then Inl ValueError
      else Inr \<lparr>gd_job_name = job, gd_strategy = strategy, gd_leader_id = leader, gd_leader_host = host,
        gd_lock_timeout = (case lock_timeout of None \<Rightarrow> heartbeat_timeout_seconds
          | Some n \<Rightarrow> if n = 0 then heartbeat_timeout_seconds else n),
        gd_fencing_token = None, gd_lease_lost = False, gd_heartbeat = False, gd_connection = False,
        gd_acquired = False, gd_acquired_at = None, gd_released_at = None\<rparr>)"

section \<open>Acquisition\<close>

text \<open>The first component says whether the lock was acquired; otherwise the operation raises
  \<^verbatim>\<open>LockAcquisitionError\<close>.\<close>

definition acquire_session_lock :: "bool \<Rightarrow> bool list \<Rightarrow> guard \<Rightarrow> bool \<times> guard" where
  "acquire_session_lock postgres polls g =
     (if \<not> postgres then (True, g)
      else if True \<in> set polls then (True, g\<lparr>gd_connection := True\<rparr>)
      else (False, g\<lparr>gd_connection := False\<rparr>))"

definition acquire_heartbeat_lock ::
    "(lease_stmt \<Rightarrow> bool) \<Rightarrow> bool \<Rightarrow> instant \<Rightarrow> guard \<Rightarrow> sched_db \<Rightarrow> bool \<times> guard \<times> sched_db" where
  "acquire_heartbeat_lock ok postgres now g d =
     (if \<not> postgres then (True, g\<lparr>gd_fencing_token := Some ((now div 1000) mod 2 ^ 63)\<rparr>, d)
      else if \<not> ok NextToken then (False, g\<lparr>gd_fencing_token := None\<rparr>, d)
      else
        let token = sd_token_seq d;
            d1 = d\<lparr>sd_token_seq := token + 1\<rparr>
        in if \<not> ok Claim then (False, g\<lparr>gd_fencing_token := None\<rparr>, d1)
           else
             let d2 = d1\<lparr>sd_leaders := sql_claim (gd_job_name g) (gd_leader_id g)
                   (Some (gd_leader_host g), Some token) now (lease_expiry now (gd_lock_timeout g)) (sd_leaders d1)\<rparr>
             in if \<not> ok SelectLeader then (False, g\<lparr>gd_fencing_token := None\<rparr>, d2)
                else (case map_of (sd_leaders d2) (gd_job_name g) of
                    None \<Rightarrow> (False, g\<lparr>gd_fencing_token := None\<rparr>, d2)
                  | Some r \<Rightarrow>
                      if lr_leader_id r \<noteq> gd_leader_id g then (False, g\<lparr>gd_fencing_token := None\<rparr>, d2)
                      else (True, g\<lparr>gd_fencing_token := lr_fencing_token r, gd_lease_lost := False,
                                    gd_heartbeat := True\<rparr>, d2)))"

definition guard_enter ::
    "(lease_stmt \<Rightarrow> bool) \<Rightarrow> bool \<Rightarrow> bool list \<Rightarrow> instant \<Rightarrow> guard \<Rightarrow> sched_db \<Rightarrow> bool \<times> guard \<times> sched_db" where
  "guard_enter ok postgres polls now g d =
     (let (got, g1, d1) =
            (if gd_strategy g = ''session_lock''
             then (let (b, g1) = acquire_session_lock postgres polls g in (b, g1, d))
             else acquire_heartbeat_lock ok postgres now g d)
      in if got then (True, g1\<lparr>gd_acquired_at := Some now, gd_acquired := True\<rparr>, d1)
         else (False, g1, d1))"

section \<open>While the job runs\<close>

text \<open>\<^verbatim>\<open>_renew_heartbeat\<close> catches its own exceptions, so it always answers.\<close>

definition guard_renew_heartbeat ::
    "(lease_stmt \<Rightarrow> bool) \<Rightarrow> bool \<Rightarrow> instant \<Rightarrow> guard \<Rightarrow> sched_db \<Rightarrow> bool result \<times> sched_db" where
  "guard_renew_heartbeat ok postgres now g d =
     (if \<not> postgres then (Inr True, d)
      else if \<not> ok TouchRow then (Inr False, d)
      else
        let d1 = d\<lparr>sd_leaders := sql_touch (gd_job_name g) (gd_leader_id g) now (sd_leaders d)\<rparr>
        in (Inr (ok SelectLeader \<and>
                 select_leader (gd_job_name g) (sd_leaders d1) = Some (gd_leader_id g)), d1))"

definition guard_heartbeat_tick ::
    "(lease_stmt \<Rightarrow> bool) \<Rightarrow> bool \<Rightarrow> instant \<Rightarrow> guard \<Rightarrow> sched_db \<Rightarrow> guard \<times> sched_db" where
  "guard_heartbeat_tick ok postgres now g d =
     (if \<not> gd_heartbeat g then (g, d)
      else (case guard_renew_heartbeat ok postgres now g d of
          (Inl e, d1) \<Rightarrow> (g\<lparr>gd_lease_lost := True\<rparr>, d1)
        | (Inr still, d1) \<Rightarrow> (g, d1)))"

definition check_lease_valid :: "guard \<Rightarrow> bool" where
  "check_lease_valid g \<longleftrightarrow> gd_strategy g \<noteq> ''heartbeat'' \<or> \<not> gd_lease_lost g"

definition validate_fencing_token :: "(lease_stmt \<Rightarrow> bool) \<Rightarrow> guard \<Rightarrow> int \<Rightarrow> sched_db \<Rightarrow> bool" where
  "validate_fencing_token ok g token d \<longleftrightarrow>
     gd_strategy g \<noteq> ''heartbeat'' \<or>
     ok SelectLeader \<and>
     (case map_of (sd_leaders d) (gd_job_name g) of
        None \<Rightarrow> False | Some r \<Rightarrow> lr_fencing_token r = Some token)"

section \<open>Release\<close>

definition release_heartbeat_lock ::
    "(lease_stmt \<Rightarrow> bool) \<Rightarrow> bool \<Rightarrow> guard \<Rightarrow> sched_db \<Rightarrow> guard \<times> sched_db" where
  "release_heartbeat_lock ok postgres g d =
     (g\<lparr>gd_heartbeat := False\<rparr>,
      if postgres \<and> ok DeleteRow
      then d\<lparr>sd_leaders := sql_delete_own (gd_job_name g) (gd_leader_id g) (sd_leaders d)\<rparr> else d)"

definition release_lock ::
    "(lease_stmt \<Rightarrow> bool) \<Rightarrow> bool \<Rightarrow> guard \<Rightarrow> sched_db \<Rightarrow> guard \<times> sched_db" where
  "release_lock ok postgres g d =
     (if gd_strategy g = ''session_lock'' then (g\<lparr>gd_connection := False\<rparr>, d)
      else release_heartbeat_lock ok postgres g d)"

definition guard_count :: "string \<Rightarrow> instant \<Rightarrow> guard \<Rightarrow> leader_table \<Rightarrow> leader_table" where
  "guard_count status now g t =
     (if status = ''completed'' then
        sql_update_own (gd_job_name g) (gd_leader_id g)
          (\<lambda>r. r\<lparr>lr_run_count := lr_run_count r + 1, lr_last_run_at := Some now\<rparr>) t
      else if status = ''skipped'' then
        (case map_of t (gd_job_name g) of
           Some r \<Rightarrow> AList.update (gd_job_name g) (r\<lparr>lr_skip_count := lr_skip_count r + 1\<rparr>) t
         | None \<Rightarrow> t)
      else if status = ''failed'' \<or> status = ''lost_leadership'' then
        sql_update_own (gd_job_name g) (gd_leader_id g) (\<lambda>r. r\<lparr>lr_fail_count := lr_fail_count r + 1\<rparr>) t
      else t)"

definition or_now :: "instant option \<Rightarrow> instant \<Rightarrow> instant" where
  "or_now v now = (case v of None \<Rightarrow> now | Some t \<Rightarrow> t)"

definition guard_record_run ::
    "(lease_stmt \<Rightarrow> bool) \<Rightarrow> string \<Rightarrow> string option \<Rightarrow> instant \<Rightarrow> guard \<Rightarrow> sched_db \<Rightarrow> sched_db" where
  "guard_record_run ok status err now g d =
     (if \<not> ok InsertRun then d
      else
        let d1 = d\<lparr>sd_runs := sd_runs d @
              [\<lparr>ru_job_name = gd_job_name g, ru_leader_id = gd_leader_id g,
                ru_started_at = or_now (gd_acquired_at g) now, ru_ended_at = or_now (gd_released_at g) now,
                ru_status = status,
                ru_duration_ms = (case (gd_acquired_at g, gd_released_at g) of
                    (Some a, Some b) \<Rightarrow> Some ((b - a) div 1000) | _ \<Rightarrow> None),
                ru_error_message = err\<rparr>]\<rparr>
        in if ok Counters then d1\<lparr>sd_leaders := guard_count status now g (sd_leaders d1)\<rparr> else d1)"

datatype exit_cause = NoException | LockAcquisitionError | OtherException

definition exit_status :: "exit_cause \<Rightarrow> string" where
  "exit_status cause =
     (case cause of NoException \<Rightarrow> ''completed'' | LockAcquisitionError \<Rightarrow> ''skipped''
      | OtherException \<Rightarrow> ''failed'')"

definition guard_exit ::
    "(lease_stmt \<Rightarrow> bool) \<Rightarrow> bool \<Rightarrow> exit_cause \<Rightarrow> instant \<Rightarrow> guard \<Rightarrow> sched_db \<Rightarrow> guard \<times> sched_db" where
  "guard_exit ok postgres cause now g d =
     (let (g1, d1) = release_lock ok postgres g d;
          g2 = g1\<lparr>gd_released_at := Some now\<rparr>;
          d2 = (if gd_acquired g2 then guard_record_run ok (exit_status cause) None now g2 d1 else d1)
      in (g2\<lparr>gd_acquired := False\<rparr>, d2))"

text \<open>\<^verbatim>\<open>check_scheduler_process_guard\<close>, with the environment variable as its argument.\<close>

definition check_scheduler_process_guard :: "string option \<Rightarrow> bool" where
  "check_scheduler_process_guard scheduler_mode \<longleftrightarrow>
     (case scheduler_mode of None \<Rightarrow> ''web'' | Some m \<Rightarrow> m) = ''scheduler''"

section \<open>Properties of the guard\<close>

text \<open>Tokens in the table come from the sequence.\<close>

definition tokens_issued :: "sched_db \<Rightarrow> bool" where
  "tokens_issued d \<longleftrightarrow> list_all (\<lambda>(job, r). case lr_fencing_token r of None \<Rightarrow> True | Some k \<Rightarrow> k < sd_token_seq d)
     (sd_leaders d)"

lemma tokens_issuedD: "tokens_issued d \<Longrightarrow> map_of (sd_leaders d) job = Some r \<Longrightarrow>
    lr_fencing_token r = Some k \<Longrightarrow> k < sd_token_seq d"
  by (auto simp: tokens_issued_def list_all_iff dest!: map_of_SomeD)

lemma acquire_heartbeat_got:
  assumes "acquire_heartbeat_lock ok True now g d = (True, g', d')"
  shows "\<exists>r. map_of (sd_leaders d') (gd_job_name g) = Some r \<and> lr_leader_id r = gd_leader_id g \<and>
    gd_fencing_token g' = lr_fencing_token r \<and> ok Claim \<and>
    sd_leaders d' = sql_claim (gd_job_name g) (gd_leader_id g) (Some (gd_leader_host g), Some (sd_token_seq d))
      now (lease_expiry now (gd_lock_timeout g)) (sd_leaders d)"
  using assms by (auto simp: acquire_heartbeat_lock_def Let_def split: if_splits option.splits)

text \<open>The iterations of the heartbeat thread, each on the database as it then is.\<close>

fun guard_beats :: "((lease_stmt \<Rightarrow> bool) \<times> instant \<times> sched_db) list \<Rightarrow> guard \<Rightarrow> guard" where
  "guard_beats [] g = g"
| "guard_beats ((ok, now, d) # beats) g = guard_beats beats (fst (guard_heartbeat_tick ok True now g d))"

lemma guard_heartbeat_tick_keeps: "fst (guard_heartbeat_tick ok True now g d) = g"
  by (simp add: guard_heartbeat_tick_def guard_renew_heartbeat_def Let_def)

lemma guard_beats_keep: "guard_beats beats g = g"
  by (induction beats g rule: guard_beats.induct) (simp_all add: guard_heartbeat_tick_keeps)

text \<open>The guard never notices that it lost its lease: whatever its heartbeats find, also when
  another instance holds the lease or the database fails, \<^verbatim>\<open>check_lease_valid\<close> goes on
  answering True after an acquisition.\<close>

theorem guard_lease_loss_unnoticed:
  assumes "acquire_heartbeat_lock ok True now g d = (True, g0, d0)"
  shows "check_lease_valid (guard_beats beats g0)"
  using assms by (auto simp: guard_beats_keep check_lease_valid_def acquire_heartbeat_lock_def Let_def
      split: if_splits option.splits)

text \<open>The fencing token does show the loss: once another instance has acquired the lease, the
  token of the earlier holder is no longer valid.\<close>

theorem fencing_token_detects_loss:
  assumes "tokens_issued d" and "map_of (sd_leaders d) job = Some r" and "lr_fencing_token r = Some old"
    and "gd_job_name g = job" and "gd_strategy g = ''heartbeat''" and "gd_leader_id g \<noteq> lr_leader_id r"
    and "acquire_heartbeat_lock ok True now g d = (True, g', d')"
  shows "gd_fencing_token g' = Some (sd_token_seq d) \<and> \<not> validate_fencing_token ok' g old d' \<and>
    (ok' SelectLeader \<longrightarrow> validate_fencing_token ok' g' (sd_token_seq d) d')"
proof -
  obtain q where q: "map_of (sd_leaders d') job = Some q" "lr_leader_id q = gd_leader_id g"
      "gd_fencing_token g' = lr_fencing_token q"
    and l: "sd_leaders d' = sql_claim job (gd_leader_id g) (Some (gd_leader_host g), Some (sd_token_seq d))
      now (lease_expiry now (gd_lock_timeout g)) (sd_leaders d)"
    using acquire_heartbeat_got [OF assms(7)] assms(4) by auto
  have "lr_fencing_token q = Some (sd_token_seq d)"
    using q(1,2) assms(2,6) unfolding l map_of_sql_claim
    by (auto simp: claim_row_def split: if_splits)
  moreover have "gd_job_name g' = job" "gd_strategy g' = ''heartbeat''"
    using assms(4,5,7) by (auto simp: acquire_heartbeat_lock_def Let_def split: if_splits option.splits)
  moreover have "old < sd_token_seq d" using tokens_issuedD [OF assms(1-3)] .
  ultimately show ?thesis using q assms(4,5) by (simp add: validate_fencing_token_def)
qed

text \<open>The lease of a guard with the default timeout ends within the minute it was acquired in,
  so at any such end two guards of a job enter two microseconds apart and both believe to hold the
  lock.\<close>

theorem guards_overlap_at_minute_end:
  assumes "now mod seconds 60 = seconds 60 - 1" and "sd_leaders d = []" and "\<forall>st. ok st"
    and "new_guard job ''heartbeat'' None l1 h1 = Inr g1" and "new_guard job ''heartbeat'' None l2 h2 = Inr g2"
    and "guard_enter ok True [] now g1 d = (got1, g1', d1)"
    and "guard_enter ok True [] (now + 2) g2 d1 = (got2, g2', d2)"
  shows "got1 \<and> got2 \<and> check_lease_valid g1' \<and> check_lease_valid g2'"
proof -
  have e: "lease_expiry now 60 = now + 1"
    using assms(1) by (simp add: lease_expiry_def floor_minute_def)
  have g: "gd_job_name g1 = job" "gd_leader_id g1 = l1" "gd_lock_timeout g1 = 60" "gd_strategy g1 = ''heartbeat''"
    "gd_job_name g2 = job" "gd_leader_id g2 = l2" "gd_lock_timeout g2 = 60" "gd_strategy g2 = ''heartbeat''"
    using assms(4,5) by (auto simp: new_guard_def heartbeat_timeout_seconds_def)
  have 1: "got1" "check_lease_valid g1'"
    and d1: "sd_leaders d1 = sql_claim job l1 (Some (gd_leader_host g1), Some (sd_token_seq d)) now (now + 1) []"
    using assms(2,3,6) g e
    by (auto simp: guard_enter_def acquire_heartbeat_lock_def Let_def map_of_sql_claim check_lease_valid_def)
  show ?thesis
    using 1 assms(3,7) g
    by (auto simp: guard_enter_def acquire_heartbeat_lock_def Let_def map_of_sql_claim check_lease_valid_def d1)
qed

text \<open>The run counters of a guarded job are never increased: leaving the guard deletes the row
  of the job before the counters of that row are updated.\<close>

theorem guard_exit_counts_nothing:
  assumes "gd_strategy g = ''heartbeat''" and "map_of (sd_leaders d) (gd_job_name g) = Some r"
    and "lr_leader_id r = gd_leader_id g" and "ok DeleteRow"
    and "guard_exit ok True cause now g d = (g', d')"
  shows "sd_leaders d' = AList.delete (gd_job_name g) (sd_leaders d)"
proof -
  let ?t = "AList.delete (gd_job_name g) (sd_leaders d)"
  have del: "sql_delete_own (gd_job_name g) (gd_leader_id g) (sd_leaders d) = ?t"
    using assms(2,3) by (simp add: sql_delete_own_def)
  have none: "map_of ?t (gd_job_name g) = None" by (simp add: delete_conv')
  then have "guard_count st now' h ?t = ?t" if "gd_job_name h = gd_job_name g" for st now' h
    using that by (simp add: guard_count_def sql_update_own_def)
  with assms(1,4,5) none del show ?thesis
    by (auto simp: guard_exit_def release_lock_def release_heartbeat_lock_def guard_record_run_def Let_def
        split: if_splits)
qed

section \<open>Concrete instances\<close>

definition sample_guard :: "string \<Rightarrow> guard" where
  "sample_guard l = projr (new_guard ''job'' ''heartbeat'' None l ''host'')"

definition sample_sched :: sched_db where
  "sample_sched = \<lparr>sd_leaders = [], sd_runs = [], sd_token_seq = 7\<rparr>"

definition sample_held :: sched_db where
  "sample_held = \<lparr>sd_leaders = [(''job'', fresh_row ''a'' (Some ''host'') (Some 7) 0 (seconds 60))],
     sd_runs = [], sd_token_seq = 8\<rparr>"

lemma guard_lease_loss_unnoticed_witness:
  "check_lease_valid (guard_beats [(\<lambda>_. False, 5, sample_sched)]
     (fst (snd (acquire_heartbeat_lock (\<lambda>_. True) True 0 (sample_guard ''a'') sample_sched))))"
proof -
  have "fst (acquire_heartbeat_lock (\<lambda>_. True) True 0 (sample_guard ''a'') sample_sched) = True" by code_simp
  then show ?thesis
    using guard_lease_loss_unnoticed [of "\<lambda>_. True" 0 "sample_guard ''a''" sample_sched]
    by (metis prod.collapse)
qed

lemma fencing_token_detects_loss_witness:
  "\<not> validate_fencing_token (\<lambda>_. True) (sample_guard ''b'') 7
     (snd (snd (acquire_heartbeat_lock (\<lambda>_. True) True (seconds 100) (sample_guard ''b'') sample_held)))"
proof -
  let ?a = "acquire_heartbeat_lock (\<lambda>_. True) True (seconds 100) (sample_guard ''b'') sample_held"
  have a: "?a = (True, fst (snd ?a), snd (snd ?a))"
  proof -
    have "fst ?a = True" by code_simp
    then show ?thesis by (metis prod.collapse)
  qed
  have "tokens_issued sample_held" "gd_job_name (sample_guard ''b'') = ''job''"
    "gd_strategy (sample_guard ''b'') = ''heartbeat''" "gd_leader_id (sample_guard ''b'') = ''b''"
    by code_simp+
  then show ?thesis
    using fencing_token_detects_loss [OF _ _ _ _ _ _ a, of "''job''" "fresh_row ''a'' (Some ''host'') (Some 7) 0 (seconds 60)" 7]
    by (simp add: sample_held_def fresh_row_def)
qed

lemma guards_overlap_at_minute_end_witness:
  "\<exists>d1. fst (guard_enter (\<lambda>_. True) True [] (seconds 60 - 1) (sample_guard ''a'') sample_sched) \<and>
     fst (guard_enter (\<lambda>_. True) True [] (seconds 60 + 1) (sample_guard ''b'') d1)"
proof -
  obtain got1 g1 d1 where e1: "guard_enter (\<lambda>_. True) True [] (seconds 60 - 1) (sample_guard ''a'') sample_sched
      = (got1, g1, d1)" by (metis prod_cases3)
  obtain got2 g2 d2 where e2: "guard_enter (\<lambda>_. True) True [] (seconds 60 - 1 + 2) (sample_guard ''b'') d1
      = (got2, g2, d2)" by (metis prod_cases3)
  have n: "new_guard ''job'' ''heartbeat'' None ''a'' ''host'' = Inr (sample_guard ''a'')"
    "new_guard ''job'' ''heartbeat'' None ''b'' ''host'' = Inr (sample_guard ''b'')"
    by (simp_all add: sample_guard_def new_guard_def)
  have "sd_leaders sample_sched = []" by code_simp
  then have "got1 \<and> got2"
    using guards_overlap_at_minute_end [OF _ _ _ n e1 e2] by simp
  with e1 e2 show ?thesis by (intro exI [of _ d1]) simp
qed

lemma guard_exit_counts_nothing_witness:
  "sd_leaders (snd (guard_exit (\<lambda>_. True) True NoException 5 (sample_guard ''a'') sample_held)) = []"
proof -
  have "gd_job_name (sample_guard ''a'') = ''job''" "gd_strategy (sample_guard ''a'') = ''heartbeat''"
    "gd_leader_id (sample_guard ''a'') = ''a''" by code_simp+
  then show ?thesis
    using guard_exit_counts_nothing [of "sample_guard ''a''" sample_held _ "\<lambda>_. True", OF _ _ _ _ prod.collapse [symmetric]]
    by (simp add: sample_held_def)
qed

end
