(* ===== verification/Ws_Frame.thy ===== *)
theory Ws_Frame
  imports Py_Text "HOL-Library.Word"
begin

unbundle bit_operations_syntax

text \<open>
  The server side of the WebSocket protocol, \<^verbatim>\<open>app/ws_frame.py\<close>: reading from a socket that
  delivers its bytes in arbitrary pieces, the frame header, the reassembly of a message from its
  fragments with the control frames between them, and the frames the server sends.

  A socket is the list of pieces the network has still to deliver, the bytes sent so far, and
  whether sending raises. Decoding and encoding of UTF-8 are parameters.
\<close>

type_synonym byte = "8 word"

section \<open>Sockets\<close>

record sock =
  sk_in :: "byte list list"
  sk_out :: "byte list"
  sk_broken :: bool

fun sock_recv :: "nat \<Rightarrow> byte list list \<Rightarrow> byte list \<times> byte list list" where
  "sock_recv n [] = ([], [])"
| "sock_recv n (c # cs) = (take n c, if length c \<le> n then cs else drop n c # cs)"

function recv_loop :: "nat \<Rightarrow> byte list \<Rightarrow> byte list list \<Rightarrow> byte list \<times> byte list list" where
  "recv_loop n buf cs =
     (if length buf < n then
        (case sock_recv (n - length buf) cs of
           ([], cs') \<Rightarrow> (buf, cs')
         | (b # bs, cs') \<Rightarrow> recv_loop n (buf @ b # bs) cs')
      else (buf, cs))"
  by pat_completeness auto
termination
  by (relation "measure (\<lambda>(n, buf, cs). n - length buf)") auto

declare recv_loop.simps [simp del]

definition recv_exactly :: "nat \<Rightarrow> sock \<Rightarrow> byte list \<times> sock" where
  "recv_exactly n s =
     (if n = 0 then ([], s)
      else let (b, cs) = recv_loop n [] (sk_in s) in (b, s\<lparr>sk_in := cs\<rparr>))"

section \<open>Frames\<close>

definition OP_CONT :: byte where "OP_CONT = 0x0"
definition OP_TEXT :: byte where "OP_TEXT = 0x1"
definition OP_BINARY :: byte where "OP_BINARY = 0x2"
definition OP_CLOSE :: byte where "OP_CLOSE = 0x8"
definition OP_PING :: byte where "OP_PING = 0x9"
definition OP_PONG :: byte where "OP_PONG = 0xA"

lemmas opcode_defs = OP_CONT_def OP_TEXT_def OP_BINARY_def OP_CLOSE_def OP_PING_def OP_PONG_def

definition max_control_frame_payload :: nat where "max_control_frame_payload = 125"
definition min_close_payload_size :: nat where "min_close_payload_size = 2"
definition default_max_message_size :: nat where "default_max_message_size = 8 * 1024 * 1024"

text \<open>Big-endian integers, \<^verbatim>\<open>struct.pack\<close> and \<^verbatim>\<open>struct.unpack\<close> with \<^verbatim>\<open>!H\<close> and \<^verbatim>\<open>!Q\<close>.\<close>

definition be_value :: "byte list \<Rightarrow> nat" where
  "be_value bs = foldl (\<lambda>n b. n * 256 + unat b) 0 bs"

fun be_bytes :: "nat \<Rightarrow> nat \<Rightarrow> byte list" where
  "be_bytes 0 n = []"
| "be_bytes (Suc k) n = be_bytes k (n div 256) @ [word_of_nat (n mod 256)]"

definition frame_header :: "byte \<Rightarrow> nat \<Rightarrow> byte list" where
  "frame_header first len =
     (if len < 126 then [first, word_of_nat len]
      else if len < 65536 then [first, 126] @ be_bytes 2 len
      else [first, 127] @ be_bytes 8 len)"

definition server_frame :: "byte list \<Rightarrow> byte \<Rightarrow> bool \<Rightarrow> byte list" where
  "server_frame payload opcode fin =
     frame_header ((if fin then 0x80 else 0) OR opcode) (length payload) @ payload"

text \<open>\<^verbatim>\<open>sock.sendall\<close>: the new socket, or the exception of a socket that is gone.\<close>

definition sock_sendall :: "byte list \<Rightarrow> sock \<Rightarrow> sock result" where
  "sock_sendall bs s = (if sk_broken s then Inl OSError else Inr (s\<lparr>sk_out := sk_out s @ bs\<rparr>))"

definition send_frame :: "byte list \<Rightarrow> byte \<Rightarrow> sock \<Rightarrow> sock result" where
  "send_frame payload opcode s = sock_sendall (server_frame payload opcode True) s"

definition send_pong :: "byte list \<Rightarrow> sock \<Rightarrow> sock result" where
  "send_pong payload s = send_frame payload OP_PONG s"

definition send_ping :: "byte list \<Rightarrow> sock \<Rightarrow> sock result" where
  "send_ping payload s = send_frame payload OP_PING s"

text \<open>The reasons of a close frame are ASCII, where UTF-8 is the character code.\<close>

definition ascii_bytes :: "string \<Rightarrow> byte list" where
  "ascii_bytes s = map of_char s"

definition send_close :: "nat \<Rightarrow> string \<Rightarrow> sock \<Rightarrow> sock result" where
  "send_close code reason s = send_frame (be_bytes 2 code @ ascii_bytes reason) OP_CLOSE s"

definition safe_send_close :: "nat \<Rightarrow> string \<Rightarrow> sock \<Rightarrow> sock" where
  "safe_send_close code reason s = (case send_close code reason s of Inl e \<Rightarrow> s | Inr s' \<Rightarrow> s')"

datatype ws_message = WsBytes "byte list" | WsText string

definition send_message :: "(string \<Rightarrow> byte list) \<Rightarrow> ws_message \<Rightarrow> sock \<Rightarrow> sock result" where
  "send_message encode m s =
     (case m of
        WsText t \<Rightarrow> send_frame (encode t) OP_TEXT s
      | WsBytes b \<Rightarrow> send_frame b OP_BINARY s)"

section \<open>Reading one frame\<close>

definition unmask :: "byte list \<Rightarrow> byte list \<Rightarrow> byte list" where
  "unmask key payload = map (\<lambda>i. payload ! i XOR key ! (i mod 4)) [0..<length payload]"

datatype frame_read =
    FrameEof
  | FrameTooLarge
  | FrameProtocolError
  | Frame bool byte "byte list"

text \<open>The two bytes every frame starts with, and the length fields.\<close>

definition hdr_fin :: "byte \<Rightarrow> bool" where "hdr_fin b \<longleftrightarrow> b AND 0x80 \<noteq> 0"
definition hdr_opcode :: "byte \<Rightarrow> byte" where "hdr_opcode b = b AND 0x0F"
definition hdr_masked :: "byte \<Rightarrow> bool" where "hdr_masked b \<longleftrightarrow> b AND 0x80 \<noteq> 0"
definition hdr_length :: "byte \<Rightarrow> nat" where "hdr_length b = unat (b AND 0x7F)"

definition read_be :: "nat \<Rightarrow> sock \<Rightarrow> nat option \<times> sock" where
  "read_be k s =
     (let (ext, s1) = recv_exactly k s in (if length ext < k then None else Some (be_value ext), s1))"

definition read_length :: "nat \<Rightarrow> sock \<Rightarrow> nat option \<times> sock" where
  "read_length len7 s =
     (if len7 = 126 then read_be 2 s else if len7 = 127 then read_be 8 s else (Some len7, s))"

definition read_payload :: "bool \<Rightarrow> byte \<Rightarrow> nat \<Rightarrow> sock \<Rightarrow> frame_read \<times> sock" where
  "read_payload fin opcode len s =
     (let (mask_key, s1) = recv_exactly 4 s
      in if length mask_key < 4 then (FrameEof, s1)
         else let (payload, s2) = recv_exactly len s1
              in if length payload < len then (FrameEof, s2)
                 else (Frame fin opcode (unmask mask_key payload), s2))"

definition read_frame :: "nat \<Rightarrow> sock \<Rightarrow> frame_read \<times> sock" where
  "read_frame max_size s =
     (let (header, s1) = recv_exactly 2 s
      in if length header < 2 then (FrameEof, s1)
         else
           let opcode = hdr_opcode (header ! 0)
           in (case read_length (hdr_length (header ! 1)) s1 of
                 (None, s2) \<Rightarrow> (FrameEof, s2)
               | (Some len, s2) \<Rightarrow>
                   if opcode \<in> {OP_CLOSE, OP_PING, OP_PONG} \<and> len > max_control_frame_payload
                   then (FrameProtocolError, safe_send_close 1002 ''Control frame payload exceeds 125 bytes'' s2)
                   else if len > max_size
                   then (FrameTooLarge, safe_send_close 1009 ''Message too large'' s2)
                   else if \<not> hdr_masked (header ! 1)
                   then (FrameProtocolError, safe_send_close 1002 ''Client frame must be masked'' s2)
                   else read_payload (hdr_fin (header ! 0)) opcode len s2))"

text \<open>Reading consumes bytes and never puts one back.\<close>

abbreviation pending :: "sock \<Rightarrow> nat" where
  "pending s \<equiv> length (concat (sk_in s))"

lemma sock_recv_split: "sock_recv n cs = (b, cs') \<Longrightarrow> b @ concat cs' = concat cs"
  by (cases cs) auto

lemma recv_loop_split: "recv_loop n buf cs = (b, cs') \<Longrightarrow> b @ concat cs' = buf @ concat cs"
proof (induction n buf cs rule: recv_loop.induct)
  case (1 n buf cs)
  show ?case
  proof (cases "length buf < n")
    case True
    obtain c cs1 where r: "sock_recv (n - length buf) cs = (c, cs1)" by fastforce
    note split = sock_recv_split [OF r]
    show ?thesis
    proof (cases c)
      case Nil
      with 1 True r split show ?thesis by (simp add: recv_loop.simps)
    next
      case (Cons x xs)
      with 1 True r split show ?thesis by (force simp: recv_loop.simps [of n buf])
    qed
  next
    case False
    with 1 show ?thesis by (simp add: recv_loop.simps)
  qed
qed

lemma recv_exactly_split:
  "recv_exactly n s = (b, s') \<Longrightarrow> b @ concat (sk_in s') = concat (sk_in s)"
  using recv_loop_split [of n "[]" "sk_in s"]
  by (auto simp: recv_exactly_def split: if_splits prod.splits)

lemma recv_exactly_pending: "recv_exactly n s = (b, s') \<Longrightarrow> length b + pending s' = pending s"
  using recv_exactly_split [of n s b s'] by (metis length_append)

lemma sendall_in: "sock_sendall bs s = Inr s' \<Longrightarrow> sk_in s' = sk_in s"
  by (auto simp: sock_sendall_def split: if_splits)

lemma safe_send_close_in [simp]: "sk_in (safe_send_close code reason s) = sk_in s"
  by (auto simp: safe_send_close_def send_close_def send_frame_def dest: sendall_in split: sum.splits)

lemma read_be_pending: "read_be k s = (r, s') \<Longrightarrow> pending s' \<le> pending s"
  using recv_exactly_pending [of k s] by (cases "recv_exactly k s") (auto simp: read_be_def)

lemma read_length_pending: "read_length len7 s = (r, s') \<Longrightarrow> pending s' \<le> pending s"
  by (auto simp: read_length_def dest: read_be_pending split: if_splits)

lemma read_payload_pending: "read_payload fin op len s = (r, s') \<Longrightarrow> pending s' \<le> pending s"
  by (auto simp: read_payload_def Let_def dest!: recv_exactly_pending split: prod.splits if_splits)

lemma read_frame_pending: "read_frame m s = (Frame fin opcode payload, s') \<Longrightarrow> pending s' < pending s"
proof -
  assume a: "read_frame m s = (Frame fin opcode payload, s')"
  obtain h s1 where h: "recv_exactly 2 s = (h, s1)" by fastforce
  obtain r s2 where l: "read_length (hdr_length (h ! 1)) s1 = (r, s2)" by fastforce
  from a h l have "2 \<le> length h" and "\<exists>len. read_payload (hdr_fin (h ! 0)) (hdr_opcode (h ! 0)) len s2
      = (Frame fin opcode payload, s')"
    by (auto simp: read_frame_def Let_def split: if_splits option.splits)
  with read_payload_pending read_length_pending [OF l] recv_exactly_pending [OF h]
  show ?thesis by fastforce
qed

section \<open>Reading one message\<close>

datatype recv_outcome =
    Message ws_message
  | NoMessage
  | MessageTooLarge
  | ProtocolError
  | SendFailed

record reassembly =
  ra_fragments :: "byte list list"
  ra_opcode :: "byte option"
  ra_total :: nat

definition finished :: "(byte list \<Rightarrow> string) \<Rightarrow> reassembly \<Rightarrow> recv_outcome" where
  "finished decode st =
     (let combined = concat (ra_fragments st)
      in Message (if ra_opcode st = Some OP_TEXT then WsText (decode combined) else WsBytes combined))"

text \<open>
  What one frame does: the call returns or raises (\<open>Inl\<close>), or the loop goes on with a new state
  of the reassembly.
\<close>

type_synonym frame_effect = "(recv_outcome + reassembly) \<times> sock"

definition refuse :: "string \<Rightarrow> sock \<Rightarrow> frame_effect" where
  "refuse reason s = (Inl ProtocolError, safe_send_close 1002 reason s)"

definition handle_close :: "bool \<Rightarrow> byte list \<Rightarrow> sock \<Rightarrow> frame_effect" where
  "handle_close fin payload s =
     (if 0 < length payload \<and> length payload < min_close_payload_size
      then refuse ''Close frame payload must be empty or at least 2 bytes'' s
      else if \<not> fin then refuse ''Control frame must not be fragmented'' s
      else (Inl NoMessage, s))"

definition handle_ping :: "bool \<Rightarrow> byte list \<Rightarrow> reassembly \<Rightarrow> sock \<Rightarrow> frame_effect" where
  "handle_ping fin payload st s =
     (if \<not> fin then refuse ''Control frame must not be fragmented'' s
      else (case send_pong payload s of Inl e \<Rightarrow> (Inl SendFailed, s) | Inr s' \<Rightarrow> (Inr st, s')))"

definition handle_pong :: "bool \<Rightarrow> reassembly \<Rightarrow> sock \<Rightarrow> frame_effect" where
  "handle_pong fin st s =
     (if \<not> fin then refuse ''Control frame must not be fragmented'' s else (Inr st, s))"

definition proceed :: "(byte list \<Rightarrow> string) \<Rightarrow> bool \<Rightarrow> reassembly \<Rightarrow> sock \<Rightarrow> frame_effect" where
  "proceed decode fin st s = (if fin then Inl (finished decode st) else Inr st, s)"

definition handle_data ::
    "(byte list \<Rightarrow> string) \<Rightarrow> bool \<Rightarrow> byte \<Rightarrow> byte list \<Rightarrow> reassembly \<Rightarrow> sock \<Rightarrow> frame_effect" where
  "handle_data decode fin opcode payload st s =
     (if ra_opcode st \<noteq> None then refuse ''Message interrupted by new data frame'' s
      else proceed decode fin
        \<lparr>ra_fragments = [payload], ra_opcode = Some opcode, ra_total = length payload\<rparr> s)"

definition handle_cont ::
    "(byte list \<Rightarrow> string) \<Rightarrow> nat \<Rightarrow> bool \<Rightarrow> byte list \<Rightarrow> reassembly \<Rightarrow> sock \<Rightarrow> frame_effect" where
  "handle_cont decode max_size fin payload st s =
     (if ra_opcode st = None then (Inl NoMessage, s)
      else if ra_total st + length payload > max_size
      then (Inl MessageTooLarge, safe_send_close 1009 ''Message too large'' s)
      else proceed decode fin
        (st\<lparr>ra_fragments := ra_fragments st @ [payload], ra_total := ra_total st + length payload\<rparr>) s)"

definition handle_frame ::
    "(byte list \<Rightarrow> string) \<Rightarrow> nat \<Rightarrow> bool \<Rightarrow> byte \<Rightarrow> byte list \<Rightarrow> reassembly \<Rightarrow> sock \<Rightarrow> frame_effect" where
  "handle_frame decode max_size fin opcode payload st s =
     (if opcode = OP_CLOSE then handle_close fin payload s
      else if opcode = OP_PING then handle_ping fin payload st s
      else if opcode = OP_PONG then handle_pong fin st s
      else if opcode = OP_TEXT \<or> opcode = OP_BINARY then handle_data decode fin opcode payload st s
      else if opcode = OP_CONT then handle_cont decode max_size fin payload st s
      else refuse ''Reserved opcode not allowed'' s)"

lemma opcode_distinct [simp]:
  "OP_PING \<noteq> OP_CLOSE" "OP_PONG \<noteq> OP_CLOSE" "OP_TEXT \<noteq> OP_CLOSE" "OP_BINARY \<noteq> OP_CLOSE" "OP_CONT \<noteq> OP_CLOSE"
  "OP_PONG \<noteq> OP_PING" "OP_TEXT \<noteq> OP_PING" "OP_BINARY \<noteq> OP_PING" "OP_CONT \<noteq> OP_PING"
  "OP_TEXT \<noteq> OP_PONG" "OP_BINARY \<noteq> OP_PONG" "OP_CONT \<noteq> OP_PONG"
  "OP_CONT \<noteq> OP_TEXT" "OP_CONT \<noteq> OP_BINARY" "OP_BINARY \<noteq> OP_TEXT"
  by (simp_all add: opcode_defs)

lemma handle_frame_in: "sk_in (snd (handle_frame decode m fin op p st s)) = sk_in s"
proof -
  have "sk_in (snd (refuse r s)) = sk_in s" for r by (simp add: refuse_def)
  moreover have "sk_in (snd (handle_ping fin p st s)) = sk_in s"
    by (auto simp: handle_ping_def refuse_def send_pong_def send_frame_def dest: sendall_in split: sum.splits)
  ultimately show ?thesis
    by (simp add: handle_frame_def handle_close_def handle_pong_def handle_data_def handle_cont_def proceed_def)
qed

function recv_frames ::
    "(byte list \<Rightarrow> string) \<Rightarrow> nat \<Rightarrow> reassembly \<Rightarrow> sock \<Rightarrow> recv_outcome \<times> sock" where
  "recv_frames decode max_size st s =
     (case read_frame max_size s of
        (FrameEof, s1) \<Rightarrow> (NoMessage, s1)
      | (FrameTooLarge, s1) \<Rightarrow> (MessageTooLarge, s1)
      | (FrameProtocolError, s1) \<Rightarrow> (ProtocolError, s1)
      | (Frame fin opcode payload, s1) \<Rightarrow>
          (case handle_frame decode max_size fin opcode payload st s1 of
             (Inl r, s2) \<Rightarrow> (r, s2)
           | (Inr st', s2) \<Rightarrow> recv_frames decode max_size st' s2))"
  by pat_completeness auto
termination
proof (relation "measure (\<lambda>(decode, m, st, s). pending s)", goal_cases)
  case (2 decode m st s x s1 fin opcode payload y s2 st')
  then have "read_frame m s = (Frame fin opcode payload, s1)" by simp
  moreover have "sk_in s2 = sk_in s1"
    using handle_frame_in [of decode m fin opcode payload st s1] 2 by (metis snd_conv)
  ultimately show ?case using read_frame_pending [of m s fin opcode payload s1] by simp
qed simp

declare recv_frames.simps [simp del]

definition start_state :: reassembly where
  "start_state = \<lparr>ra_fragments = [], ra_opcode = None, ra_total = 0\<rparr>"

definition recv_message :: "(byte list \<Rightarrow> string) \<Rightarrow> nat \<Rightarrow> sock \<Rightarrow> recv_outcome \<times> sock" where
  "recv_message decode max_size s = recv_frames decode max_size start_state s"

section \<open>The size limit\<close>

definition parse_max_message_size :: "string \<Rightarrow> nat" where
  "parse_max_message_size raw =
     (case py_int raw of
        None \<Rightarrow> default_max_message_size
      | Some v \<Rightarrow> if v > 0 then nat v else default_max_message_size)"

definition get_max_message_size ::
    "string option \<Rightarrow> (string \<times> nat) option \<Rightarrow> nat \<times> (string \<times> nat) option" where
  "get_max_message_size env cache =
     (let raw = py_strip (case env of None \<Rightarrow> [] | Some v \<Rightarrow> v)
      in case cache of
           Some (key, value) \<Rightarrow>
             if key = raw then (value, cache)
             else (parse_max_message_size raw, Some (raw, parse_max_message_size raw))
         | None \<Rightarrow> (parse_max_message_size raw, Some (raw, parse_max_message_size raw)))"

section \<open>Pieces do not matter\<close>

abbreviation flat :: "sock \<Rightarrow> byte list" where
  "flat s \<equiv> concat (sk_in s)"

text \<open>The network delivers no empty piece before the end of the stream.\<close>

definition pieces_ok :: "sock \<Rightarrow> bool" where
  "pieces_ok s \<longleftrightarrow> [] \<notin> set (sk_in s)"

definition same_stream :: "sock \<Rightarrow> sock \<Rightarrow> bool" where
  "same_stream s t \<longleftrightarrow> pieces_ok s \<and> pieces_ok t \<and> flat s = flat t \<and> sk_out s = sk_out t \<and> sk_broken s = sk_broken t"

lemma recv_loop_ok:
  "recv_loop n buf cs = (b, cs') \<Longrightarrow> [] \<notin> set cs \<Longrightarrow> length buf \<le> n \<Longrightarrow>
   b = buf @ take (n - length buf) (concat cs) \<and> [] \<notin> set cs'"
proof (induction n buf cs rule: recv_loop.induct)
  case (1 n buf cs)
  show ?case
  proof (cases "length buf < n")
    case False
    with 1 show ?thesis by (simp add: recv_loop.simps)
  next
    case True
    show ?thesis
    proof (cases cs)
      case Nil
      with 1 True show ?thesis by (simp add: recv_loop.simps)
    next
      case (Cons c cs1)
      with 1(3) obtain x xs where c: "c = x # xs" by (cases c) auto
      let ?k = "n - length buf"
      let ?cs2 = "if length c \<le> ?k then cs1 else drop ?k c # cs1"
      from True obtain y ys where y: "take ?k c = y # ys" by (cases ?k) (auto simp: c)
      have r: "sock_recv ?k cs = (y # ys, ?cs2)" using Cons y by simp
      have ok: "[] \<notin> set ?cs2" using 1(3) Cons by auto
      have len: "length (buf @ y # ys) \<le> n" using y True by (metis le_add_diff_inverse2 length_append
          length_take min.cobounded2 nat_add_left_cancel_le add.commute less_imp_le)
      have "b = (buf @ y # ys) @ take (n - length (buf @ y # ys)) (concat ?cs2) \<and> [] \<notin> set cs'"
        using 1(1) [OF True r [symmetric] refl _ ok len] 1(2) True r by (simp add: recv_loop.simps [of n buf])
      moreover have "(buf @ y # ys) @ take (n - length (buf @ y # ys)) (concat ?cs2) = buf @ take ?k (concat cs)"
      proof (cases "length c \<le> ?k")
        case True
        then have "y # ys = c" using y by simp
        with True Cons show ?thesis by simp
      next
        case False
        then have "length (y # ys) = ?k" using y by (metis length_take min_def nat_le_linear)
        with False Cons y show ?thesis by simp
      qed
      ultimately show ?thesis by simp
    qed
  qed
qed

lemma recv_exactly_ok:
  assumes "recv_exactly n s = (b, s')" and "pieces_ok s"
  shows "b = take n (flat s) \<and> flat s' = drop n (flat s) \<and> pieces_ok s' \<and> sk_out s' = sk_out s \<and>
    sk_broken s' = sk_broken s"
proof -
  have b: "b = take n (flat s) \<and> pieces_ok s' \<and> sk_out s' = sk_out s \<and> sk_broken s' = sk_broken s"
    using assms recv_loop_ok [of n "[]" "sk_in s"]
    by (auto simp: recv_exactly_def pieces_ok_def split: if_splits prod.splits)
  moreover have "flat s' = drop n (flat s)"
    using recv_exactly_split [OF assms(1)] b by (metis append_eq_conv_conj append_take_drop_id)
  ultimately show ?thesis by blast
qed

lemma recv_exactly_same:
  assumes "same_stream s t" and "recv_exactly n s = (b, s')" and "recv_exactly n t = (b', t')"
  shows "b' = b \<and> same_stream s' t'"
  using assms recv_exactly_ok [OF assms(2)] recv_exactly_ok [OF assms(3)] by (simp add: same_stream_def)

lemma sendall_same:
  "same_stream s t \<Longrightarrow> (case sock_sendall bs s of
      Inl e \<Rightarrow> sock_sendall bs t = Inl e
    | Inr s' \<Rightarrow> (\<exists>t'. sock_sendall bs t = Inr t' \<and> same_stream s' t'))"
  by (simp add: sock_sendall_def same_stream_def pieces_ok_def)

lemma safe_send_close_same:
  "same_stream s t \<Longrightarrow> same_stream (safe_send_close c r s) (safe_send_close c r t)"
  using sendall_same [of s t] by (force simp: safe_send_close_def send_close_def send_frame_def split: sum.splits)

lemma read_be_same:
  assumes "same_stream s t" and "read_be k s = (r, s')" and "read_be k t = (r', t')"
  shows "r' = r \<and> same_stream s' t'"
proof -
  obtain b s1 where s1: "recv_exactly k s = (b, s1)" by fastforce
  obtain b' t1 where t1: "recv_exactly k t = (b', t1)" by fastforce
  from recv_exactly_same [OF assms(1) s1 t1] assms(2,3) s1 t1 show ?thesis by (auto simp: read_be_def)
qed

lemma read_length_same:
  assumes "same_stream s t" and "read_length n s = (r, s')" and "read_length n t = (r', t')"
  shows "r' = r \<and> same_stream s' t'"
proof (cases "n = 126 \<or> n = 127")
  case True
  with assms read_be_same [OF assms(1), of 2 r s' r' t'] read_be_same [OF assms(1), of 8 r s' r' t']
  show ?thesis by (auto simp: read_length_def)
next
  case False
  with assms show ?thesis by (simp add: read_length_def)
qed

lemma read_payload_same:
  assumes "same_stream s t" and "read_payload fin op len s = (r, s')" and "read_payload fin op len t = (r', t')"
  shows "r' = r \<and> same_stream s' t'"
proof -
  obtain k s1 where s1: "recv_exactly 4 s = (k, s1)" by fastforce
  obtain k' t1 where t1: "recv_exactly 4 t = (k', t1)" by fastforce
  from recv_exactly_same [OF assms(1) s1 t1] have "k' = k" and st: "same_stream s1 t1" by auto
  obtain p s2 where s2: "recv_exactly len s1 = (p, s2)" by fastforce
  obtain p' t2 where t2: "recv_exactly len t1 = (p', t2)" by fastforce
  from recv_exactly_same [OF st s2 t2] \<open>k' = k\<close> st assms(2,3) s1 t1 s2 t2 show ?thesis
    by (auto simp: read_payload_def split: if_splits)
qed

lemma read_frame_same:
  assumes "same_stream s t" and "read_frame m s = (r, s')" and "read_frame m t = (r', t')"
  shows "r' = r \<and> same_stream s' t'"
proof -
  obtain h s1 where s1: "recv_exactly 2 s = (h, s1)" by fastforce
  obtain h' t1 where t1: "recv_exactly 2 t = (h', t1)" by fastforce
  from recv_exactly_same [OF assms(1) s1 t1] have h: "h' = h" and st: "same_stream s1 t1" by auto
  obtain l s2 where s2: "read_length (hdr_length (h ! 1)) s1 = (l, s2)" by fastforce
  obtain l' t2 where t2: "read_length (hdr_length (h ! 1)) t1 = (l', t2)" by fastforce
  from read_length_same [OF st s2 t2] have l: "l' = l" and st2: "same_stream s2 t2" by auto
  show ?thesis
    using assms(2,3) s1 t1 s2 t2 h l st st2 safe_send_close_same [OF st2]
      read_payload_same [OF st2, of "hdr_fin (h ! 0)" "hdr_opcode (h ! 0)"]
    by (auto simp: read_frame_def Let_def split: if_splits option.splits)
qed

definition effect_same :: "frame_effect \<Rightarrow> frame_effect \<Rightarrow> bool" where
  "effect_same e e' \<longleftrightarrow> fst e' = fst e \<and> same_stream (snd e) (snd e')"

lemma refuse_same: "same_stream s t \<Longrightarrow> effect_same (refuse r s) (refuse r t)"
  by (simp add: effect_same_def refuse_def safe_send_close_same)

lemma proceed_same: "same_stream s t \<Longrightarrow> effect_same (proceed decode fin st s) (proceed decode fin st t)"
  by (simp add: effect_same_def proceed_def)

lemma handle_ping_same: "same_stream s t \<Longrightarrow> effect_same (handle_ping fin p st s) (handle_ping fin p st t)"
  using sendall_same [of s t "server_frame p OP_PONG True"] refuse_same [of s t]
  by (cases "sock_sendall (server_frame p OP_PONG True) s")
    (auto simp: handle_ping_def send_pong_def send_frame_def effect_same_def)

lemma handle_frame_effect_same:
  "same_stream s t \<Longrightarrow> effect_same (handle_frame decode m fin op p st s) (handle_frame decode m fin op p st t)"
  unfolding handle_frame_def handle_close_def handle_pong_def handle_data_def handle_cont_def
  by (auto simp: handle_ping_same refuse_same proceed_same)
    (simp_all add: effect_same_def safe_send_close_same)

lemma handle_frame_same:
  assumes "same_stream s t" and "handle_frame decode m fin op p st s = (r, s')"
    and "handle_frame decode m fin op p st t = (r', t')"
  shows "r' = r \<and> same_stream s' t'"
  using handle_frame_effect_same [OF assms(1), of decode m fin op p st] assms(2,3)
  by (simp add: effect_same_def)

lemma recv_frames_same:
  "same_stream s t \<Longrightarrow> fst (recv_frames decode m st t) = fst (recv_frames decode m st s) \<and>
     same_stream (snd (recv_frames decode m st s)) (snd (recv_frames decode m st t))"
proof (induction decode m st s arbitrary: t rule: recv_frames.induct)
  case (1 decode m st s)
  obtain r s1 where s1: "read_frame m s = (r, s1)" by fastforce
  obtain r' t1 where t1: "read_frame m t = (r', t1)" by fastforce
  from read_frame_same [OF 1(2) s1 t1] have r: "r' = r" and st1: "same_stream s1 t1" by auto
  show ?case
  proof (cases r)
    case (Frame fin op p)
    obtain e s2 where s2: "handle_frame decode m fin op p st s1 = (e, s2)" by fastforce
    obtain e' t2 where t2: "handle_frame decode m fin op p st t1 = (e', t2)" by fastforce
    from handle_frame_same [OF st1 s2 t2] have e: "e' = e" and st2: "same_stream s2 t2" by auto
    show ?thesis
    proof (cases e)
      case (Inl out)
      with s1 t1 r Frame s2 t2 e st2 show ?thesis by (simp add: recv_frames.simps [of _ _ st])
    next
      case (Inr st')
      have "fst (recv_frames decode m st' t2) = fst (recv_frames decode m st' s2) \<and>
          same_stream (snd (recv_frames decode m st' s2)) (snd (recv_frames decode m st' t2))"
        using 1(1) [OF s1 [symmetric] _ s2 [symmetric] Inr] Frame st2 by blast
      with s1 t1 r Frame s2 t2 e Inr show ?thesis by (simp add: recv_frames.simps [of _ _ st])
    qed
  qed (use s1 t1 r st1 in \<open>simp_all add: recv_frames.simps [of _ _ st]\<close>)
qed

text \<open>However the network cuts the stream into pieces, the call returns or raises the same,
  sends the same bytes and leaves the same bytes unread.\<close>

theorem pieces_do_not_matter:
  assumes "pieces_ok s" and "pieces_ok t" and "flat s = flat t" and "sk_out s = sk_out t"
    and "sk_broken s = sk_broken t"
  shows "fst (recv_message decode m s) = fst (recv_message decode m t) \<and>
    sk_out (snd (recv_message decode m s)) = sk_out (snd (recv_message decode m t)) \<and>
    flat (snd (recv_message decode m s)) = flat (snd (recv_message decode m t))"
  using recv_frames_same [of s t decode m start_state] assms by (simp add: recv_message_def same_stream_def)

section \<open>The size limit holds\<close>

definition state_ok :: "nat \<Rightarrow> reassembly \<Rightarrow> bool" where
  "state_ok m st \<longleftrightarrow> ra_total st = length (concat (ra_fragments st)) \<and> ra_total st \<le> m"

lemma length_unmask [simp]: "length (unmask k p) = length p"
  by (simp add: unmask_def)

lemma recv_loop_length: "recv_loop n buf cs = (b, cs') \<Longrightarrow> length buf \<le> n \<Longrightarrow> length b \<le> n"
proof (induction n buf cs rule: recv_loop.induct)
  case (1 n buf cs)
  show ?case
  proof (cases "length buf < n")
    case True
    obtain c cs1 where r: "sock_recv (n - length buf) cs = (c, cs1)" by fastforce
    then have "length c \<le> n - length buf" by (cases cs) auto
    with 1 True r show ?thesis by (cases c) (auto simp: recv_loop.simps [of n buf])
  qed (use 1 in \<open>simp add: recv_loop.simps\<close>)
qed

lemma recv_exactly_length: "recv_exactly n s = (b, s') \<Longrightarrow> length b \<le> n"
  using recv_loop_length [of n "[]" "sk_in s"] by (auto simp: recv_exactly_def split: if_splits prod.splits)

lemma read_payload_length: "read_payload fin op len s = (Frame fin' op' p, s') \<Longrightarrow> length p \<le> len"
  by (auto simp: read_payload_def dest: recv_exactly_length split: if_splits prod.splits)

lemma read_frame_bound: "read_frame m s = (Frame fin op p, s') \<Longrightarrow> length p \<le> m"
  by (auto simp: read_frame_def Let_def dest!: read_payload_length split: if_splits prod.splits option.splits)

definition effect_ok :: "(byte list \<Rightarrow> string) \<Rightarrow> nat \<Rightarrow> frame_effect \<Rightarrow> bool" where
  "effect_ok decode m e \<longleftrightarrow>
     (case fst e of
        Inr st \<Rightarrow> state_ok m st
      | Inl r \<Rightarrow> (\<forall>msg. r = Message msg \<longrightarrow> (\<exists>b. length b \<le> m \<and> (msg = WsBytes b \<or> msg = WsText (decode b)))))"

lemma effect_ok_proceed: "state_ok m st \<Longrightarrow> effect_ok decode m (proceed decode fin st s)"
  by (auto simp: effect_ok_def proceed_def finished_def state_ok_def Let_def
      intro: exI [of _ "concat (ra_fragments st)"])

lemma effect_ok_refuse: "effect_ok decode m (refuse r s)"
  by (simp add: effect_ok_def refuse_def)

lemma effect_ok_ping: "state_ok m st \<Longrightarrow> effect_ok decode m (handle_ping fin p st s)"
  by (auto simp: handle_ping_def effect_ok_def refuse_def split: sum.splits)

lemma handle_frame_ok:
  "state_ok m st \<Longrightarrow> length p \<le> m \<Longrightarrow> effect_ok decode m (handle_frame decode m fin op p st s)"
  unfolding handle_frame_def handle_close_def handle_pong_def handle_data_def handle_cont_def
  by (auto simp: effect_ok_refuse effect_ok_ping intro!: effect_ok_proceed)
    (simp_all add: effect_ok_def state_ok_def)

lemma handle_frame_state:
  assumes "handle_frame decode m fin op p st s = (Inr st', s')" and "state_ok m st" and "length p \<le> m"
  shows "state_ok m st'"
  using handle_frame_ok [OF assms(2,3), of decode fin op s] assms(1) by (simp add: effect_ok_def)

lemma handle_frame_message:
  assumes "handle_frame decode m fin op p st s = (Inl (Message msg), s')" and "state_ok m st" and "length p \<le> m"
  shows "\<exists>b. length b \<le> m \<and> (msg = WsBytes b \<or> msg = WsText (decode b))"
  using handle_frame_ok [OF assms(2,3), of decode fin op s] assms(1) by (simp add: effect_ok_def)

lemma recv_frames_bound:
  "fst (recv_frames decode m st s) = Message msg \<Longrightarrow> state_ok m st \<Longrightarrow>
   \<exists>b. length b \<le> m \<and> (msg = WsBytes b \<or> msg = WsText (decode b))"
proof (induction decode m st s rule: recv_frames.induct)
  case (1 decode m st s)
  obtain r s1 where s1: "read_frame m s = (r, s1)" by fastforce
  show ?case
  proof (cases r)
    case (Frame fin op p)
    have len: "length p \<le> m" using read_frame_bound s1 Frame by blast
    obtain e s2 where s2: "handle_frame decode m fin op p st s1 = (e, s2)" by fastforce
    show ?thesis
    proof (cases e)
      case (Inl out)
      with 1 s1 Frame s2 have "out = Message msg" by (simp add: recv_frames.simps [of _ _ st])
      with handle_frame_message [of decode m fin op p st s1] s2 Inl 1(3) len show ?thesis by blast
    next
      case (Inr st')
      with 1 s1 Frame s2 have "fst (recv_frames decode m st' s2) = Message msg"
        by (simp add: recv_frames.simps [of _ _ st])
      moreover have "state_ok m st'" using handle_frame_state s2 Inr 1(3) len by blast
      ultimately show ?thesis using 1(1) [OF s1 [symmetric] _ s2 [symmetric] Inr] Frame by blast
    qed
  qed (use 1 s1 in \<open>simp_all add: recv_frames.simps [of _ _ st]\<close>)
qed

text \<open>A message that is delivered, fragmented or not, carries at most as many bytes as the
  limit.\<close>

theorem message_within_limit:
  assumes "fst (recv_message decode m s) = Message msg"
  shows "\<exists>b. length b \<le> m \<and> (msg = WsBytes b \<or> msg = WsText (decode b))"
  using recv_frames_bound [of decode m start_state s msg] assms
  by (simp add: recv_message_def state_ok_def start_state_def)

section \<open>Well-formed clients\<close>

text \<open>The masked frames of a client that follows the protocol.\<close>

definition client_frame :: "bool \<Rightarrow> byte \<Rightarrow> byte list \<Rightarrow> byte list \<Rightarrow> byte list" where
  "client_frame fin op key payload =
     [(if fin then 0x80 else 0) OR op] @
     (let n = length payload in
        if n < 126 then [0x80 OR word_of_nat n]
        else if n < 65536 then [0xFE] @ be_bytes 2 n else [0xFF] @ be_bytes 8 n) @
     key @ unmask key payload"

lemma be_value_snoc [simp]: "be_value (bs @ [b]) = be_value bs * 256 + unat b"
  by (simp add: be_value_def)

lemma be_value_be_bytes: "n < 256 ^ k \<Longrightarrow> be_value (be_bytes k n) = n"
proof (induction k arbitrary: n)
  case (Suc k)
  have "unat (word_of_nat (n mod 256) :: byte) = n mod 256"
    by (simp add: unat_of_nat take_bit_eq_mod)
  moreover have "n div 256 < 256 ^ k" using Suc.prems by (simp add: div_less_iff_less_mult mult.commute)
  ultimately show ?case using Suc.IH by simp
qed (simp add: be_value_def)

lemma length_be_bytes [simp]: "length (be_bytes k n) = k"
  by (induction k arbitrary: n) simp_all

lemma unmask_unmask: "unmask key (unmask key p) = p"
  by (rule nth_equalityI) (simp_all add: unmask_def xor.assoc)

definition valid_opcodes :: "byte list" where
  "valid_opcodes = [OP_CONT, OP_TEXT, OP_BINARY, OP_CLOSE, OP_PING, OP_PONG]"

lemma header_byte:
  "op \<in> set valid_opcodes \<Longrightarrow>
   hdr_fin ((if fin then 0x80 else 0) OR op) = fin \<and> hdr_opcode ((if fin then 0x80 else 0) OR op) = op"
  by (auto simp: valid_opcodes_def opcode_defs hdr_fin_def hdr_opcode_def)

lemma length_byte:
  "n < 126 \<Longrightarrow> hdr_masked (0x80 OR word_of_nat n) \<and> hdr_length (0x80 OR word_of_nat n) = n"
proof -
  have "list_all (\<lambda>n. hdr_masked (0x80 OR word_of_nat n) \<and> hdr_length (0x80 OR word_of_nat n) = n) [0..<126]"
    by code_simp
  then show "n < 126 \<Longrightarrow> ?thesis" by (simp add: list_all_iff)
qed

text \<open>What remains of the stream after some bytes are consumed.\<close>

definition advanced :: "sock \<Rightarrow> byte list \<Rightarrow> sock \<Rightarrow> bool" where
  "advanced s rest s' \<longleftrightarrow> pieces_ok s' \<and> flat s' = rest \<and> sk_out s' = sk_out s \<and> sk_broken s' = sk_broken s"

lemma recv_prefix:
  assumes "pieces_ok s" and "flat s = bs @ rest"
  shows "\<exists>s'. recv_exactly (length bs) s = (bs, s') \<and> advanced s rest s'"
proof -
  obtain b s' where r: "recv_exactly (length bs) s = (b, s')" by fastforce
  with recv_exactly_ok [OF r assms(1)] assms(2) show ?thesis by (simp add: advanced_def)
qed

lemma read_be_prefix:
  assumes "pieces_ok s" and "flat s = be_bytes k n @ rest" and "n < 256 ^ k"
  shows "\<exists>s'. read_be k s = (Some n, s') \<and> advanced s rest s'"
proof -
  obtain s' where "recv_exactly k s = (be_bytes k n, s')" "advanced s rest s'"
    using recv_prefix [OF assms(1,2)] by auto
  then show ?thesis using be_value_be_bytes [OF assms(3)] by (simp add: read_be_def)
qed

lemma advanced_trans: "advanced s r1 s1 \<Longrightarrow> advanced s1 r2 s2 \<Longrightarrow> advanced s r2 s2"
  by (simp add: advanced_def)

lemma advancedD: "advanced s rest s' \<Longrightarrow> pieces_ok s' \<and> flat s' = rest"
  by (simp add: advanced_def)

lemma read_payload_client:
  assumes "pieces_ok s" and "flat s = key @ unmask key p @ rest" and "length key = 4"
  shows "\<exists>s'. read_payload fin op (length p) s = (Frame fin op p, s') \<and> advanced s rest s'"
proof -
  obtain s1 where s1: "recv_exactly 4 s = (key, s1)" "advanced s (unmask key p @ rest) s1"
    using recv_prefix [OF assms(1,2)] assms(3) by auto
  obtain s2 where "recv_exactly (length p) s1 = (unmask key p, s2)" "advanced s1 rest s2"
    using recv_prefix [of s1 "unmask key p" rest] advancedD [OF s1(2)] by auto
  with s1 assms(3) show ?thesis
    by (auto simp: read_payload_def unmask_unmask intro: advanced_trans)
qed

definition client_payload_ok :: "nat \<Rightarrow> byte \<Rightarrow> byte list \<Rightarrow> bool" where
  "client_payload_ok m op p \<longleftrightarrow> length p \<le> m \<and> length p < 2 ^ 64 \<and>
     (op \<in> {OP_CLOSE, OP_PING, OP_PONG} \<longrightarrow> length p \<le> max_control_frame_payload)"

lemma read_frame_client:
  assumes "pieces_ok s" and "flat s = client_frame fin op key p @ rest" and "length key = 4"
    and "op \<in> set valid_opcodes" and "client_payload_ok m op p"
  shows "\<exists>s'. read_frame m s = (Frame fin op p, s') \<and> advanced s rest s'"
proof -
  define first where "first = (if fin then 0x80 else 0) OR op"
  have first: "hdr_fin first = fin" "hdr_opcode first = op"
    using header_byte [OF assms(4)] by (simp_all add: first_def)
  define second :: byte where "second = (if length p < 126 then 0x80 OR word_of_nat (length p)
      else if length p < 65536 then 0xFE else 0xFF)"
  define ext where "ext = (if length p < 126 then [] else if length p < 65536 then be_bytes 2 (length p)
      else be_bytes 8 (length p))"
  have flat: "flat s = [first, second] @ ext @ key @ unmask key p @ rest"
    using assms(2) by (simp add: client_frame_def first_def second_def ext_def Let_def)
  have masked: "hdr_masked second"
    using length_byte [of "length p"] by (auto simp: second_def) (simp_all add: hdr_masked_def)
  obtain s1 where s1: "recv_exactly 2 s = ([first, second], s1)" "advanced s (ext @ key @ unmask key p @ rest) s1"
    using recv_prefix [OF assms(1) flat] by (auto simp: numeral_2_eq_2)
  have "\<exists>s2. read_length (hdr_length second) s1 = (Some (length p), s2) \<and> advanced s1 (key @ unmask key p @ rest) s2"
  proof (cases "length p < 126")
    case True
    then have "hdr_length second = length p" "ext = []" using length_byte by (simp_all add: second_def ext_def)
    with True s1(2) show ?thesis by (simp add: read_length_def advanced_def)
  next
    case False
    have p1: "pieces_ok s1" "flat s1 = ext @ key @ unmask key p @ rest" using advancedD [OF s1(2)] by simp_all
    show ?thesis
    proof (cases "length p < 65536")
      case True
      with False have "hdr_length second = 126" "ext = be_bytes 2 (length p)"
        by (simp_all add: second_def ext_def hdr_length_def)
      with p1 True read_be_prefix [of s1 2 "length p"] show ?thesis by (simp add: read_length_def)
    next
      case big: False
      with False have "hdr_length second = 127" "ext = be_bytes 8 (length p)"
        by (simp_all add: second_def ext_def hdr_length_def)
      moreover have "length p < 256 ^ 8" using assms(5) by (simp add: client_payload_ok_def)
      ultimately show ?thesis using p1 read_be_prefix [of s1 8 "length p"] by (simp add: read_length_def)
    qed
  qed
  then obtain s2 where s2: "read_length (hdr_length second) s1 = (Some (length p), s2)"
      "advanced s1 (key @ unmask key p @ rest) s2" by blast
  obtain s3 where s3: "read_payload fin op (length p) s2 = (Frame fin op p, s3)" "advanced s2 rest s3"
    using read_payload_client [of s2] advancedD [OF s2(2)] assms(3) by blast
  have "read_frame m s = (Frame fin op p, s3)"
    using s1(1) s2(1) s3(1) first masked assms(5)
    by (auto simp: read_frame_def Let_def client_payload_ok_def)
  with advanced_trans [OF advanced_trans [OF s1(2) s2(2)] s3(2)] show ?thesis by blast
qed

lemma recv_frames_client:
  assumes "pieces_ok s" and "flat s = client_frame fin op key p @ rest" and "length key = 4"
    and "op \<in> set valid_opcodes" and "client_payload_ok m op p"
  shows "\<exists>s1. advanced s rest s1 \<and>
    recv_frames decode m st s = (case handle_frame decode m fin op p st s1 of
       (Inl r, s2) \<Rightarrow> (r, s2) | (Inr st', s2) \<Rightarrow> recv_frames decode m st' s2)"
proof -
  obtain s1 where "read_frame m s = (Frame fin op p, s1)" "advanced s rest s1"
    using read_frame_client [OF assms] by blast
  then show ?thesis by (intro exI [of _ s1]) (simp add: recv_frames.simps [of _ _ st s])
qed

section \<open>Reassembly\<close>

text \<open>What a client may send between the first and the last frame of a message.\<close>

datatype piece = Fragment "byte list" | PongFrame "byte list"

fun piece_frame :: "byte list \<Rightarrow> piece \<Rightarrow> byte list" where
  "piece_frame key (Fragment b) = client_frame False OP_CONT key b"
| "piece_frame key (PongFrame b) = client_frame True OP_PONG key b"

fun piece_data :: "piece \<Rightarrow> byte list" where
  "piece_data (Fragment b) = b"
| "piece_data (PongFrame b) = []"

fun piece_ok :: "nat \<Rightarrow> piece \<Rightarrow> bool" where
  "piece_ok m (Fragment b) \<longleftrightarrow> client_payload_ok m OP_CONT b"
| "piece_ok m (PongFrame b) \<longleftrightarrow> client_payload_ok m OP_PONG b"

fun add_piece :: "piece \<Rightarrow> reassembly \<Rightarrow> reassembly" where
  "add_piece (Fragment b) st = st\<lparr>ra_fragments := ra_fragments st @ [b], ra_total := ra_total st + length b\<rparr>"
| "add_piece (PongFrame b) st = st"

lemma fold_add_piece:
  "ra_total (fold add_piece ps st) = ra_total st + length (concat (map piece_data ps)) \<and>
   ra_opcode (fold add_piece ps st) = ra_opcode st \<and>
   concat (ra_fragments (fold add_piece ps st)) = concat (ra_fragments st) @ concat (map piece_data ps)"
proof (induction ps arbitrary: st)
  case (Cons p ps)
  then show ?case by (cases p) simp_all
qed simp

lemma valid_opcodes_mem [simp]:
  "OP_CONT \<in> set valid_opcodes" "OP_PONG \<in> set valid_opcodes" "OP_TEXT \<in> set valid_opcodes"
  "OP_BINARY \<in> set valid_opcodes"
  by (simp_all add: valid_opcodes_def)

lemma recv_piece:
  assumes "pieces_ok s" and "flat s = piece_frame key p @ rest" and "length key = 4" and "piece_ok m p"
    and "ra_opcode st \<noteq> None" and "ra_total st + length (piece_data p) \<le> m"
  shows "\<exists>s1. advanced s rest s1 \<and> recv_frames decode m st s = recv_frames decode m (add_piece p st) s1"
proof (cases p)
  case (Fragment b)
  with assms(2,4) have "flat s = client_frame False OP_CONT key b @ rest" "client_payload_ok m OP_CONT b"
    by simp_all
  from recv_frames_client [OF assms(1) this(1) assms(3) _ this(2)] obtain s1 where "advanced s rest s1"
    "recv_frames decode m st s = (case handle_frame decode m False OP_CONT b st s1 of
       (Inl r, s2) \<Rightarrow> (r, s2) | (Inr st', s2) \<Rightarrow> recv_frames decode m st' s2)" by fastforce
  moreover obtain y where "ra_opcode st = Some y" using assms(5) by blast
  ultimately show ?thesis using Fragment assms(6)
    by (intro exI [of _ s1]) (simp add: handle_frame_def handle_cont_def proceed_def)
next
  case (PongFrame b)
  with assms(2,4) have "flat s = client_frame True OP_PONG key b @ rest" "client_payload_ok m OP_PONG b"
    by simp_all
  from recv_frames_client [OF assms(1) this(1) assms(3) _ this(2)] obtain s1 where "advanced s rest s1"
    "recv_frames decode m st s = (case handle_frame decode m True OP_PONG b st s1 of
       (Inl r, s2) \<Rightarrow> (r, s2) | (Inr st', s2) \<Rightarrow> recv_frames decode m st' s2)" by fastforce
  with PongFrame show ?thesis
    by (intro exI [of _ s1]) (simp add: handle_frame_def handle_pong_def)
qed

lemma recv_pieces:
  assumes "pieces_ok s" and "flat s = concat (map (piece_frame key) ps) @ rest" and "length key = 4"
    and "list_all (piece_ok m) ps" and "ra_opcode st \<noteq> None"
    and "ra_total st + length (concat (map piece_data ps)) \<le> m"
  shows "\<exists>s1. advanced s rest s1 \<and> recv_frames decode m st s = recv_frames decode m (fold add_piece ps st) s1"
  using assms
proof (induction ps arbitrary: s st)
  case Nil
  then show ?case by (intro exI [of _ s]) (simp add: advanced_def)
next
  case (Cons p ps)
  obtain s1 where s1: "advanced s (concat (map (piece_frame key) ps) @ rest) s1"
    "recv_frames decode m st s = recv_frames decode m (add_piece p st) s1"
    using recv_piece [of s key p "concat (map (piece_frame key) ps) @ rest" m st decode] Cons.prems by auto
  have "ra_opcode (add_piece p st) \<noteq> None"
    "ra_total (add_piece p st) + length (concat (map piece_data ps)) \<le> m"
    using Cons.prems by (cases p; simp)+
  then obtain s2 where "advanced s1 rest s2"
    "recv_frames decode m (add_piece p st) s1 = recv_frames decode m (fold add_piece ps (add_piece p st)) s2"
    using Cons.IH [of s1 "add_piece p st"] Cons.prems advancedD [OF s1(1)] by auto
  with s1 show ?case by (auto intro: advanced_trans)
qed

lemma recv_first:
  assumes "pieces_ok s" and "flat s = client_frame False op key b @ rest" and "length key = 4"
    and "op \<in> {OP_TEXT, OP_BINARY}" and "client_payload_ok m op b"
  shows "\<exists>s1. advanced s rest s1 \<and> recv_message decode m s =
    recv_frames decode m \<lparr>ra_fragments = [b], ra_opcode = Some op, ra_total = length b\<rparr> s1"
proof -
  have "op \<in> set valid_opcodes" using assms(4) by auto
  from recv_frames_client [OF assms(1-3) this assms(5)] obtain s1 where "advanced s rest s1"
    "recv_frames decode m start_state s = (case handle_frame decode m False op b start_state s1 of
       (Inl r, s2) \<Rightarrow> (r, s2) | (Inr st', s2) \<Rightarrow> recv_frames decode m st' s2)" by blast
  with assms(4) show ?thesis
    by (intro exI [of _ s1])
      (auto simp: handle_frame_def handle_data_def proceed_def start_state_def recv_message_def)
qed

text \<open>C21: Reading undoes what a client that follows the protocol sends: a message cut into any
  number of masked fragments within the limit, with pong frames between them and the bytes cut
  into any pieces by the network, is delivered whole, and exactly its bytes are consumed.\<close>

theorem fragments_reassembled:
  assumes "pieces_ok s" and "length key = 4" and "op \<in> {OP_TEXT, OP_BINARY}"
    and "flat s = client_frame False op key b @ concat (map (piece_frame key) ps) @
           client_frame True OP_CONT key c @ rest"
    and "client_payload_ok m op b" and "list_all (piece_ok m) ps" and "client_payload_ok m OP_CONT c"
    and "length (b @ concat (map piece_data ps) @ c) \<le> m"
  shows "\<exists>s'. recv_message decode m s =
      (Message (if op = OP_TEXT then WsText (decode (b @ concat (map piece_data ps) @ c))
                else WsBytes (b @ concat (map piece_data ps) @ c)), s') \<and>
    flat s' = rest \<and> sk_out s' = sk_out s"
proof -
  let ?st = "\<lparr>ra_fragments = [b], ra_opcode = Some op, ra_total = length b\<rparr>"
  let ?st2 = "fold add_piece ps ?st"
  obtain s1 where s1: "advanced s (concat (map (piece_frame key) ps) @ client_frame True OP_CONT key c @ rest) s1"
      "recv_message decode m s = recv_frames decode m ?st s1"
    using recv_first [OF assms(1,4,2,3,5)] by blast
  obtain s2 where s2: "advanced s1 (client_frame True OP_CONT key c @ rest) s2"
      "recv_frames decode m ?st s1 = recv_frames decode m ?st2 s2"
    using recv_pieces [of s1 key ps _ m ?st decode] advancedD [OF s1(1)] assms(2,6,8) by fastforce
  obtain s3 where s3: "advanced s2 rest s3"
      "recv_frames decode m ?st2 s2 = (case handle_frame decode m True OP_CONT c ?st2 s3 of
         (Inl r, s4) \<Rightarrow> (r, s4) | (Inr st', s4) \<Rightarrow> recv_frames decode m st' s4)"
    using recv_frames_client [of s2 True OP_CONT key c rest m decode ?st2] advancedD [OF s2(1)] assms(2,7) by auto
  have "handle_frame decode m True OP_CONT c ?st2 s3 =
      (Inl (Message (if op = OP_TEXT then WsText (decode (b @ concat (map piece_data ps) @ c))
                else WsBytes (b @ concat (map piece_data ps) @ c))), s3)"
    using assms(8) fold_add_piece [of ps ?st]
    by (simp add: handle_frame_def handle_cont_def proceed_def finished_def Let_def)
  with s1 s2 s3 show ?thesis
    by (intro exI [of _ s3]) (simp add: advanced_def)
qed

text \<open>The limit bounds the bytes of a message but not the memory its reading takes: for every
  \<open>n\<close> there are streams on which the call holds more than \<open>n\<close> fragments, all empty, and waits
  for the next frame.\<close>

theorem empty_fragments_unbounded:
  assumes "pieces_ok s" and "length key = 4"
    and "flat s = client_frame False OP_BINARY key [] @ concat (replicate n (client_frame False OP_CONT key [])) @ rest"
  shows "\<exists>st s'. recv_message decode m s = recv_frames decode m st s' \<and>
    length (ra_fragments st) = n + 1 \<and> ra_total st = 0 \<and> flat s' = rest"
proof -
  let ?st = "\<lparr>ra_fragments = [[]], ra_opcode = Some OP_BINARY, ra_total = 0\<rparr>" and ?ps = "replicate n (Fragment [])"
  have ok: "client_payload_ok m op []" for op by (simp add: client_payload_ok_def)
  have "client_payload_ok m OP_BINARY []" by (rule ok)
  then obtain s1 where s1: "advanced s (concat (map (piece_frame key) ?ps) @ rest) s1"
      "recv_message decode m s = recv_frames decode m ?st s1"
    using recv_first [OF assms(1,3,2)] by force
  have "concat (map piece_data ?ps) = []" by simp
  then obtain s2 where s2: "advanced s1 rest s2" "recv_frames decode m ?st s1 = recv_frames decode m (fold add_piece ?ps ?st) s2"
    using recv_pieces [of s1 key ?ps rest m ?st decode] advancedD [OF s1(1)] assms(2) ok
    by (auto simp: list_all_iff)
  have "length (ra_fragments (fold add_piece ?ps st)) = length (ra_fragments st) + n" for st
    by (induction n arbitrary: st) simp_all
  with s1 s2 fold_add_piece [of ?ps ?st] show ?thesis
    by (intro exI [of _ "fold add_piece ?ps ?st"] exI [of _ s2]) (auto simp: advanced_def)
qed

text \<open>A continuation frame that continues nothing is not reported as a violation: the call
  returns as if the client had closed, sends no close frame and raises nothing.\<close>

theorem stray_continuation_silent:
  assumes "pieces_ok s" and "length key = 4" and "flat s = client_frame fin OP_CONT key p @ rest"
    and "client_payload_ok m OP_CONT p"
  shows "fst (recv_message decode m s) = NoMessage \<and> sk_out (snd (recv_message decode m s)) = sk_out s"
proof -
  obtain s1 where "advanced s rest s1"
    "recv_frames decode m start_state s = (case handle_frame decode m fin OP_CONT p start_state s1 of
       (Inl r, s2) \<Rightarrow> (r, s2) | (Inr st', s2) \<Rightarrow> recv_frames decode m st' s2)"
    using recv_frames_client [OF assms(1,3,2) _ assms(4)] by force
  then show ?thesis
    by (simp add: recv_message_def handle_frame_def handle_cont_def start_state_def advanced_def)
qed

section \<open>Concrete instances\<close>

definition sample_key :: "byte list" where
  "sample_key = [1, 2, 3, 4]"

definition sample_sock :: "byte list \<Rightarrow> sock" where
  "sample_sock bs = \<lparr>sk_in = map (\<lambda>b. [b]) bs, sk_out = [], sk_broken = False\<rparr>"

lemma sample_sock_simps [simp]:
  "pieces_ok (sample_sock bs)" "flat (sample_sock bs) = bs" "sk_out (sample_sock bs) = []"
  "sk_broken (sample_sock bs) = False"
  by (auto simp: sample_sock_def pieces_ok_def concat_map_singleton)

lemma pieces_do_not_matter_witness:
  "fst (recv_message (\<lambda>_. []) 10 (sample_sock [0x82, 0x80, 1])) =
   fst (recv_message (\<lambda>_. []) 10 \<lparr>sk_in = [[0x82, 0x80, 1]], sk_out = [], sk_broken = False\<rparr>)"
proof -
  have "pieces_ok \<lparr>sk_in = [[0x82, 0x80, 1]], sk_out = [], sk_broken = False\<rparr>" by (simp add: pieces_ok_def)
  then show ?thesis
    using pieces_do_not_matter [of "sample_sock [0x82, 0x80, 1]"
      "\<lparr>sk_in = [[0x82, 0x80, 1]], sk_out = [], sk_broken = False\<rparr>"] by simp
qed

definition sample_stream :: "byte list" where
  "sample_stream = client_frame False OP_BINARY sample_key [7, 8] @
     concat (map (piece_frame sample_key) [PongFrame [5], Fragment [9]]) @
     client_frame True OP_CONT sample_key [10] @ [11]"

lemma fragments_reassembled_witness:
  "\<exists>s'. recv_message (\<lambda>_. []) 100 (sample_sock sample_stream) = (Message (WsBytes [7, 8, 9, 10]), s') \<and> flat s' = [11]"
  using fragments_reassembled [of "sample_sock sample_stream" sample_key OP_BINARY "[7, 8]"
      "[PongFrame [5], Fragment [9]]" "[10]" "[11]" 100 "\<lambda>_. []"]
  by (auto simp: sample_stream_def sample_key_def client_payload_ok_def max_control_frame_payload_def)

lemma message_within_limit_witness:
  "\<exists>b msg. length b \<le> 100 \<and> fst (recv_message (\<lambda>_. []) 100 (sample_sock sample_stream)) = Message msg \<and>
     (msg = WsBytes b \<or> msg = WsText [])"
proof -
  have "fst (recv_message (\<lambda>_. []) 100 (sample_sock sample_stream)) = Message (WsBytes [7, 8, 9, 10])"
    by code_simp
  from message_within_limit [OF this] this show ?thesis by auto
qed

lemma empty_fragments_unbounded_witness:
  "\<exists>st s'. recv_message (\<lambda>_. []) 100 (sample_sock (client_frame False OP_BINARY sample_key [] @
       concat (replicate 5 (client_frame False OP_CONT sample_key [])))) = recv_frames (\<lambda>_. []) 100 st s' \<and>
     length (ra_fragments st) = 6"
proof -
  have "length sample_key = 4" by (simp add: sample_key_def)
  from empty_fragments_unbounded [OF sample_sock_simps(1) this, where n = 5 and rest = "[]" and m = 100
      and decode = "\<lambda>_. []"] show ?thesis by fastforce
qed

lemma stray_continuation_silent_witness:
  "fst (recv_message (\<lambda>_. []) 100 (sample_sock (client_frame True OP_CONT sample_key [3]))) = NoMessage"
  using stray_continuation_silent [of "sample_sock (client_frame True OP_CONT sample_key [3])" sample_key True "[3]" "[]" 100]
  by (simp add: sample_key_def client_payload_ok_def max_control_frame_payload_def)

end
