(* ===== verification/Workflow_Lock.thy ===== *)
theory Workflow_Lock
  imports Lease Py_Text
begin

text \<open>
  The row of an autonomous workflow and the lock on it, from
  \<^verbatim>\<open>app/repositories/autonomous_repo.py\<close>: acquiring, refreshing and releasing the processing
  lock, the stricter lock for cleanup, and the update of the row that can be fenced by the lock.

  Every statement is atomic. The two lock columns are fields of their own, in seconds, the
  resolution the code writes them with; the other columns map their name to a JSON value.
\<close>

section \<open>The row\<close>

record wf_row =
  wr_cols :: "string \<Rightarrow> json"
  wr_locked_at :: "int option"
  wr_locked_by :: "string option"

type_synonym patch = "(string, json) dict"

definition lock_timeout :: int where
  "lock_timeout = 1800"

definition allowed_workflow_fields :: "string list" where
  "allowed_workflow_fields =
     [''title'', ''status'', ''requirements_text'', ''requirements_issue_url'', ''project_path'',
      ''project_repo_url'', ''is_new_project'', ''is_private'', ''cli_tool'', ''model'',
      ''permission_mode'', ''branch_name'', ''branch_strategy'', ''workspace_type'',
      ''remote_machine_id'', ''worktree_path'', ''preferred_worktree_path'',
      ''github_issue_number'', ''github_pr_number'', ''github_pr_url'', ''batch_id'',
      ''batch_order'', ''batch_total'', ''base_commit_sha'', ''expected_head_sha'', ''auto_merge'',
      ''definition_snapshot'', ''current_phase'', ''current_round'', ''dev_round'',
      ''max_plan_rounds'', ''max_pr_review_rounds'', ''require_full_review_rounds'',
      ''max_changed_files_override'', ''total_tokens'', ''total_input_tokens'',
      ''total_output_tokens'', ''total_requests'', ''error_message'', ''retry_count'',
      ''task_timeout'', ''planning_timeout_extension'', ''parent_workflow_id'',
      ''fork_milestone_id'', ''user_feedback'', ''original_branch_name'', ''updated_at'',
      ''completed_at'', ''paused_at'', ''agent_pid'', ''agent_session_id'', ''main_session_id'',
      ''review_session_id'', ''test_session_id'', ''transient_retry_count'', ''content_language'',
      ''test_retries'', ''skip_retries'', ''dev_retries_on_test_fail'', ''system_account'',
      ''ci_repair_context'', ''ci_repair_attempts'', ''ci_diagnostics_attempts'',
      ''ci_repair_transient_retries'', ''ci_repair_no_change_retries'',
      ''last_ci_failure_signature'', ''last_ci_failure_head_sha'', ''merge_fail_dev_rounds'',
      ''merge_policy_settle_retries'', ''worktree_transition_state'',
      ''transition_original_path'', ''transition_temp_path'', ''transition_error'',
      ''transition_started_at'', ''transition_updated_at'', ''cleanup_status'',
      ''cleanup_attempts'', ''cleanup_error'', ''cleanup_updated_at'', ''cleanup_next_retry_at'',
      ''sandbox_provider'', ''sandbox_id'', ''sandbox_generation'', ''sandbox_state'',
      ''sandbox_policy_digest'', ''sandbox_last_error'', ''sandbox_remote_session_id'',
      ''sandbox_effective_policy'', ''verification_status'', ''verification_merge_sha'',
      ''verification_started_at'', ''verification_completed_at'', ''verification_attempt'',
      ''verification_report'', ''issue_acceptance_snapshot'', ''issue_acceptance_hash'', ''verified_by'',
      ''verification_session_id'', ''issue_closed_by_workflow_at'']"

definition bool_cols :: "string list" where
  "bool_cols = [''is_new_project'', ''is_private'', ''auto_merge'', ''require_full_review_rounds'']"

definition lower_char :: "char \<Rightarrow> char" where
  "lower_char c = (let n = (of_char c :: nat) in if 65 \<le> n \<and> n \<le> 90 then char_of (n + 32) else c)"

definition py_lower :: "string \<Rightarrow> string" where
  "py_lower s = map lower_char s"

definition coerce_bool :: "json \<Rightarrow> json" where
  "coerce_bool v =
     (case v of
        JBool b \<Rightarrow> JBool b
      | JInt n \<Rightarrow> JBool (n \<noteq> 0)
      | JStr s \<Rightarrow> JBool (py_lower s \<in> {''1'', ''true'', ''yes''})
      | _ \<Rightarrow> JBool False)"

section \<open>The lock\<close>

definition acquire_lock :: "string \<Rightarrow> int \<Rightarrow> wf_row \<Rightarrow> bool \<times> wf_row" where
  "acquire_lock owner now r =
     (let cutoff = now - lock_timeout
      in if (case wr_locked_at r of None \<Rightarrow> True | Some t \<Rightarrow> t < cutoff)
         then (True, r\<lparr>wr_locked_at := Some now, wr_locked_by := Some owner\<rparr>)
         else (False, r))"

definition refresh_lock :: "string \<Rightarrow> int \<Rightarrow> wf_row \<Rightarrow> bool \<times> wf_row" where
  "refresh_lock owner now r =
     (if wr_locked_by r = Some owner then (True, r\<lparr>wr_locked_at := Some now\<rparr>) else (False, r))"

definition release_wf_lock :: "string \<Rightarrow> wf_row \<Rightarrow> wf_row" where
  "release_wf_lock owner r =
     (if wr_locked_by r = Some owner then r\<lparr>wr_locked_at := None, wr_locked_by := None\<rparr> else r)"

text \<open>\<^verbatim>\<open>agent_pid IS NULL OR agent_pid <= 0\<close>\<close>

definition no_agent :: "wf_row \<Rightarrow> bool" where
  "no_agent r \<longleftrightarrow> (case wr_cols r ''agent_pid'' of JNull \<Rightarrow> True | JInt n \<Rightarrow> n \<le> 0 | _ \<Rightarrow> False)"

definition acquire_cleanup_lock :: "string \<Rightarrow> int \<Rightarrow> wf_row \<Rightarrow> bool \<times> wf_row" where
  "acquire_cleanup_lock owner now r =
     (let cutoff = now - lock_timeout
      in if (case wr_locked_at r of
               None \<Rightarrow> True
             | Some t \<Rightarrow> t < cutoff \<and> wr_cols r ''status'' = JStr ''completed'' \<and> no_agent r)
         then (True, r\<lparr>wr_locked_at := Some now, wr_locked_by := Some owner\<rparr>)
         else (False, r))"

definition clear_agent_pid_if_lock_owner :: "string \<Rightarrow> string \<Rightarrow> wf_row \<Rightarrow> bool \<times> wf_row" where
  "clear_agent_pid_if_lock_owner owner stamp r =
     (if wr_locked_by r = Some owner \<and> wr_cols r ''agent_pid'' \<noteq> JNull
      then (True, r\<lparr>wr_cols := (wr_cols r)(''agent_pid'' := JNull, ''agent_session_id'' := JStr [],
                                        ''updated_at'' := JStr stamp)\<rparr>)
      else (False, r))"

section \<open>The fenced update\<close>

text \<open>
  \<^verbatim>\<open>update_workflow\<close>: \<open>None\<close> when a required lock owner does not hold the lock or a
  retry counter has not the expected value (an SQL comparison, so never with \<open>NULL\<close>). Unknown
  fields are dropped; \<open>stamp\<close> is the text of the present instant.
\<close>

definition apply_field :: "string \<times> json \<Rightarrow> (string \<Rightarrow> json) \<Rightarrow> string \<Rightarrow> json" where
  "apply_field kv cols = cols(fst kv := (if fst kv \<in> set bool_cols then coerce_bool (snd kv) else snd kv))"

definition safe_updates :: "string \<Rightarrow> patch \<Rightarrow> patch" where
  "safe_updates stamp updates =
     filter (\<lambda>kv. fst kv \<in> set allowed_workflow_fields) (AList.update ''updated_at'' (JStr stamp) updates)"

definition retry_fields :: "string list" where
  "retry_fields = [''test_retries'', ''skip_retries'', ''dev_retries_on_test_fail'']"

definition update_condition :: "string option \<Rightarrow> patch \<Rightarrow> wf_row \<Rightarrow> bool" where
  "update_condition required_lock_owner expected r \<longleftrightarrow>
     (\<not> truthy_str required_lock_owner \<or> wr_locked_by r = required_lock_owner) \<and>
     list_all (\<lambda>kv. fst kv \<in> set retry_fields \<longrightarrow> snd kv \<noteq> JNull \<and> wr_cols r (fst kv) = snd kv) expected"

definition update_workflow ::
    "string \<Rightarrow> string option \<Rightarrow> patch \<Rightarrow> patch \<Rightarrow> wf_row \<Rightarrow> (string \<Rightarrow> json) option \<times> wf_row" where
  "update_workflow stamp required_lock_owner expected updates r =
     (if updates = [] then (Some (wr_cols r), r)
      else if \<not> update_condition required_lock_owner expected r then (None, r)
      else
        let r' = r\<lparr>wr_cols := fold apply_field (safe_updates stamp updates) (wr_cols r)\<rparr>
        in (Some (wr_cols r'), r'))"

section \<open>The lease contract\<close>

text \<open>A row is well-formed when the two lock columns are set together.\<close>

definition wf_lease :: "wf_row \<Rightarrow> (string \<times> instant) option" where
  "wf_lease r =
     (case (wr_locked_at r, wr_locked_by r) of
        (Some t, Some o') \<Rightarrow> Some (o', t + lock_timeout)
      | _ \<Rightarrow> None)"

definition lock_columns_ok :: "wf_row \<Rightarrow> bool" where
  "lock_columns_ok r \<longleftrightarrow> (wr_locked_at r = None) = (wr_locked_by r = None)"

interpretation workflow_lock: renewable_lease lock_columns_ok wf_lease "\<lambda>_ now. now + lock_timeout"
    "\<lambda>owner (_::unit) now r. snd (acquire_lock owner now r)" release_wf_lock
    "\<lambda>owner now r. snd (refresh_lock owner now r)" lock_timeout
  by unfold_locales
    (auto simp: wf_lease_def lock_columns_ok_def acquire_lock_def release_wf_lock_def refresh_lock_def Let_def
      split: option.splits)

type_synonym lock_op = "(string, unit) lease_op"

definition exec_lock_op :: "lock_op \<Rightarrow> wf_row \<Rightarrow> wf_row" where
  "exec_lock_op = lease_exec (\<lambda>owner (_::unit) now r. snd (acquire_lock owner now r))
     (\<lambda>owner now r. snd (refresh_lock owner now r)) release_wf_lock"

section \<open>Properties of the lock\<close>

text \<open>C25: A worker that refreshes its lock within the timeout keeps it, whatever the other
  instances send, and its fenced updates are applied.\<close>

theorem refreshed_lock_kept:
  assumes "lock_columns_ok r" and "wf_lease r = Some (owner, e)" and "renewed_in_time lock_timeout owner e ops"
    and "owner \<noteq> []" and "updates \<noteq> []"
  shows "wr_locked_by (fold exec_lock_op ops r) = Some owner \<and>
    fst (update_workflow stamp (Some owner) [] updates (fold exec_lock_op ops r)) \<noteq> None"
proof -
  obtain e' where "wf_lease (fold exec_lock_op ops r) = Some (owner, e')"
    using workflow_lock.kept [OF assms(1-3)] by (auto simp: exec_lock_op_def)
  then have "wr_locked_by (fold exec_lock_op ops r) = Some owner"
    by (auto simp: wf_lease_def split: option.splits)
  with assms(4,5) show ?thesis by (simp add: update_workflow_def update_condition_def Let_def)
qed

text \<open>Once another instance has taken the lock over, a superseded worker can change nothing: its
  fenced updates are refused and leave the row as it is, its refresh fails, and its release does
  not release the lock of the new owner.\<close>

theorem superseded_worker_fenced:
  assumes "acquire_lock new now r = (True, r')" and "old \<noteq> new" and "old \<noteq> []" and "updates \<noteq> []"
  shows "update_workflow stamp (Some old) expected updates r' = (None, r') \<and> refresh_lock old later r' = (False, r') \<and>
    release_wf_lock old r' = r'"
  using assms
  by (auto simp: acquire_lock_def update_workflow_def update_condition_def refresh_lock_def release_wf_lock_def truthy_str_def Let_def
      split: if_splits)

text \<open>The lock for cleanup is never taken from a worker of a workflow that is not completed or
  still has an agent, however stale its lock is.\<close>

theorem cleanup_lock_respects_agents:
  assumes "wr_locked_at r = Some t" and "acquire_cleanup_lock owner now r = (True, r')"
  shows "t < now - lock_timeout \<and> wr_cols r ''status'' = JStr ''completed'' \<and> no_agent r"
  using assms by (auto simp: acquire_cleanup_lock_def Let_def split: if_splits)

section \<open>Concrete instances\<close>

definition sample_wf_row :: wf_row where
  "sample_wf_row = \<lparr>wr_cols = (\<lambda>_. JNull)(''status'' := JStr ''completed''), wr_locked_at = Some 100,
     wr_locked_by = Some ''w1''\<rparr>"

lemma refreshed_lock_kept_witness:
  "wr_locked_by (fold exec_lock_op [Acquire ''w2'' () 1000, Touch ''w1'' 1500, Acquire ''w2'' () 3000] sample_wf_row) = Some ''w1''"
  by (rule refreshed_lock_kept [of sample_wf_row "''w1''" 1900 _ "[(''status'', JNull)]", THEN conjunct1])
    (simp_all add: sample_wf_row_def lock_columns_ok_def wf_lease_def lock_timeout_def)

lemma superseded_worker_fenced_witness:
  "fst (update_workflow ''t'' (Some ''w1'') [] [(''status'', JStr ''failed'')] (snd (acquire_lock ''w2'' 5000 sample_wf_row))) = None"
proof -
  have "acquire_lock ''w2'' 5000 sample_wf_row = (True, snd (acquire_lock ''w2'' 5000 sample_wf_row))"
    by (simp add: acquire_lock_def sample_wf_row_def lock_timeout_def)
  from superseded_worker_fenced [OF this, of "''w1''" "[(''status'', JStr ''failed'')]" "''t''" "[]"] show ?thesis by simp
qed

lemma cleanup_lock_respects_agents_witness:
  "100 < (5000::int) - lock_timeout \<and> no_agent sample_wf_row"
proof -
  have "acquire_cleanup_lock ''c'' 5000 sample_wf_row = (True, snd (acquire_cleanup_lock ''c'' 5000 sample_wf_row))"
    by (simp add: acquire_cleanup_lock_def sample_wf_row_def lock_timeout_def no_agent_def)
  from cleanup_lock_respects_agents [OF _ this, of 100] show ?thesis by (simp add: sample_wf_row_def)
qed

end
