(* ===== verification/Workflow_Phase.thy ===== *)
theory Workflow_Phase
  imports Workflow_Lock
begin

text \<open>
  The scheduler step of an autonomous workflow: the results a phase handler returns
  (\<^verbatim>\<open>phase_contract.py\<close>), their commit, the milestones, the transient retries and
  \<^verbatim>\<open>advance\<close> (\<^verbatim>\<open>orchestrator.py\<close>, both under
  \<^verbatim>\<open>app/modules/workspace/autonomous/\<close>).

  The phase handlers, the reconciliation and repair of the worktree and its cleanup are
  parameters: functions on the state of the worker that may raise. Emitting an event and purging
  transcripts are recorded; the database executes the statements it is sent.
\<close>

section \<open>Phase results\<close>

datatype phase_outcome = Completed | Wait | Retry | Pause | Failed

record phase_result =
  res_outcome :: phase_outcome
  res_next_phase :: "string option"
  res_next_status :: "string option"
  res_patch :: patch
  res_milestones :: "patch list"
  res_usage :: bool
  res_error :: json

definition result_completed ::
    "string option \<Rightarrow> string option \<Rightarrow> patch \<Rightarrow> patch list \<Rightarrow> bool \<Rightarrow> phase_result" where
  "result_completed next_phase next_status patch milestones usage =
     \<lparr>res_outcome = Completed, res_next_phase = next_phase, res_next_status = next_status,
      res_patch = patch, res_milestones = milestones, res_usage = usage, res_error = JNull\<rparr>"

definition result_wait :: "patch \<Rightarrow> patch list \<Rightarrow> phase_result" where
  "result_wait patch milestones =
     \<lparr>res_outcome = Wait, res_next_phase = None, res_next_status = Some ''waiting'',
      res_patch = patch, res_milestones = milestones, res_usage = False, res_error = JNull\<rparr>"

definition result_retry :: "patch \<Rightarrow> phase_result" where
  "result_retry patch =
     \<lparr>res_outcome = Retry, res_next_phase = None, res_next_status = None,
      res_patch = patch, res_milestones = [], res_usage = False, res_error = JNull\<rparr>"

definition result_pause :: "patch \<Rightarrow> patch list \<Rightarrow> json \<Rightarrow> bool \<Rightarrow> phase_result" where
  "result_pause patch milestones err usage =
     \<lparr>res_outcome = Pause, res_next_phase = None, res_next_status = Some ''paused'',
      res_patch = patch, res_milestones = milestones, res_usage = usage, res_error = err\<rparr>"

definition result_failed :: "json \<Rightarrow> patch \<Rightarrow> phase_result" where
  "result_failed err patch =
     \<lparr>res_outcome = Failed, res_next_phase = None, res_next_status = Some ''failed'',
      res_patch = patch, res_milestones = [], res_usage = False, res_error = err\<rparr>"

definition phase_order :: "string list" where
  "phase_order = [''preparation'', ''planning'', ''development'', ''pr_review'', ''report'', ''merge'',
     ''acceptance_verification'']"

definition completed_terminal_phases :: "string list" where
  "completed_terminal_phases = [''acceptance_verification'', ''merge'', ''completed'']"

definition phase_status_map :: "(string, string) dict" where
  "phase_status_map =
     [(''preparation'', ''preparing''), (''planning'', ''planning''), (''development'', ''developing''),
      (''pr_review'', ''pr_review''), (''report'', ''reporting''), (''merge'', ''merging''),
      (''acceptance_verification'', ''verification_pending'')]"

definition active_statuses :: "string list" where
  "active_statuses = [''pending'', ''preparing'', ''planning'', ''developing'', ''pr_review'', ''reporting'',
     ''waiting'', ''merging'', ''verification_pending'', ''queued'']"

definition is_active :: "string \<Rightarrow> bool" where
  "is_active status \<longleftrightarrow> status \<in> set active_statuses"

section \<open>The worker\<close>

record wf_host =
  wh_row :: wf_row
  wh_owner :: "string option"
  wh_lock_lost :: bool
  wh_shutdown :: bool
  wh_cancel :: bool
  wh_milestones :: "patch list"
  wh_events :: "(string \<times> patch) list"
  wh_refreshed :: nat
  wh_purged :: bool

datatype wf_error = WorkflowPaused | ResultError string | GitHubOpsError string | OtherError string

fun error_text :: "wf_error \<Rightarrow> string" where
  "error_text WorkflowPaused = ''Distributed workflow lock was lost''"
| "error_text (ResultError s) = s"
| "error_text (GitHubOpsError s) = s"
| "error_text (OtherError s) = s"

definition mark_scheduler_lock_lost :: "wf_host \<Rightarrow> wf_host" where
  "mark_scheduler_lock_lost h = h\<lparr>wh_lock_lost := True, wh_shutdown := True, wh_cancel := True\<rparr>"

text \<open>\<open>now\<close> is the present second; \<open>stamp\<close> its text.\<close>

definition ensure_scheduler_lock :: "int \<Rightarrow> wf_host \<Rightarrow> bool \<times> wf_host" where
  "ensure_scheduler_lock now h =
     (if \<not> truthy_str (wh_owner h) then (\<not> (wh_lock_lost h \<or> wh_shutdown h), h)
      else if wh_lock_lost h then (False, h)
      else
        let (held, row) = refresh_lock (the (wh_owner h)) now (wh_row h)
        in if held then (True, h\<lparr>wh_row := row\<rparr>) else (False, mark_scheduler_lock_lost h))"

definition persist_workflow_update :: "string \<Rightarrow> patch \<Rightarrow> wf_host \<Rightarrow> (wf_error + unit) \<times> wf_host" where
  "persist_workflow_update stamp updates h =
     (let (res, row) = update_workflow stamp (if truthy_str (wh_owner h) then wh_owner h else None) []
            updates (wh_row h)
      in if res = None then (Inl WorkflowPaused, mark_scheduler_lock_lost h)
         else (Inr (), h\<lparr>wh_row := row\<rparr>))"

definition terminal_workflow_statuses :: "string list" where
  "terminal_workflow_statuses = [''completed'', ''cancelled'']"

definition purge_agent_state_if_terminal :: "patch \<Rightarrow> wf_host \<Rightarrow> wf_host" where
  "purge_agent_state_if_terminal updates h =
     (case map_of updates ''status'' of
        Some (JStr s) \<Rightarrow> if s \<in> set terminal_workflow_statuses then h\<lparr>wh_purged := True\<rparr> else h
      | _ \<Rightarrow> h)"

definition emit :: "string \<Rightarrow> patch \<Rightarrow> wf_host \<Rightarrow> wf_host" where
  "emit event_type data h = h\<lparr>wh_events := wh_events h @ [(event_type, data)]\<rparr>"

text \<open>The repository writes the time of the update into the dictionary of its caller.\<close>

definition mark_updated :: "string \<Rightarrow> patch \<Rightarrow> patch" where
  "mark_updated stamp updates = (if updates = [] then [] else AList.update ''updated_at'' (JStr stamp) updates)"

definition host_update_workflow :: "string \<Rightarrow> patch \<Rightarrow> wf_host \<Rightarrow> (wf_error + unit) \<times> wf_host" where
  "host_update_workflow stamp updates h =
     (case persist_workflow_update stamp updates h of
        (Inl e, h1) \<Rightarrow> (Inl e, h1)
      | (Inr _, h1) \<Rightarrow> (Inr (), emit ''workflow_updated'' (mark_updated stamp updates) (purge_agent_state_if_terminal updates h1)))"

section \<open>Milestones\<close>

definition field :: "patch \<Rightarrow> string \<Rightarrow> json \<Rightarrow> json" where
  "field d k dflt = (case map_of d k of None \<Rightarrow> dflt | Some v \<Rightarrow> v)"

text \<open>The row that is stored: the caller's fields with the defaults of the columns.\<close>

definition stored_milestone :: "patch \<Rightarrow> patch" where
  "stored_milestone kw =
     AList.update ''phase'' (field kw ''phase'' (JStr []))
       (AList.update ''milestone_type'' (field kw ''milestone_type'' (JStr []))
         (AList.update ''status'' (field kw ''status'' (JStr ''pending''))
           (AList.update ''dev_round'' (field kw ''dev_round'' (JInt 1))
             (AList.update ''round_number'' (field kw ''round_number'' (JInt 0)) kw))))"

definition milestone_matches :: "json \<Rightarrow> json \<Rightarrow> json \<Rightarrow> json \<Rightarrow> bool \<Rightarrow> patch \<Rightarrow> bool" where
  "milestone_matches phase mtype dev_round round_number completed ms \<longleftrightarrow>
     (phase = JNull \<or> field ms ''phase'' JNull = phase) \<and>
     (field ms ''status'' JNull = JStr ''in_progress'' \<or>
      completed \<and> field ms ''status'' JNull = JStr ''completed'') \<and>
     field ms ''milestone_type'' JNull = mtype \<and>
     (dev_round = JNull \<or> field ms ''dev_round'' JNull = dev_round) \<and>
     (round_number = JNull \<or> field ms ''round_number'' JNull = round_number)"

definition is_ci_repair :: "json \<Rightarrow> bool" where
  "is_ci_repair mtype \<longleftrightarrow> (case mtype of JStr s \<Rightarrow> py_startswith s ''ci_repair_'' | _ \<Rightarrow> False)"

definition has_milestone :: "patch \<Rightarrow> patch list \<Rightarrow> bool" where
  "has_milestone kw mss \<longleftrightarrow>
     list_ex (milestone_matches (field kw ''phase'' (JStr [])) (field kw ''milestone_type'' (JStr []))
       (field kw ''dev_round'' JNull) (field kw ''round_number'' JNull)
       (\<not> is_ci_repair (field kw ''milestone_type'' (JStr [])))) mss"

definition create_milestone :: "patch \<Rightarrow> wf_host \<Rightarrow> wf_host" where
  "create_milestone kw h =
     (if has_milestone kw (wh_milestones h) then h
      else emit ''milestone_created'' [(''milestone_type'', field kw ''milestone_type'' (JStr []))]
             (h\<lparr>wh_milestones := wh_milestones h @ [stored_milestone kw]\<rparr>))"

section \<open>Committing a result\<close>

definition or_text :: "string option \<Rightarrow> string \<Rightarrow> string" where
  "or_text v d = (if truthy_str v then the v else d)"

definition completed_patch :: "string \<Rightarrow> phase_result \<Rightarrow> patch result" where
  "completed_patch stamp res =
     (case res_next_phase res of
        None \<Rightarrow> Inl ValueError
      | Some np \<Rightarrow>
          if np \<notin> set phase_order \<and> np \<notin> {''completed'', ''wait''} then Inl ValueError
          else if np = ''completed'' then
            (case map_of (res_patch res) ''current_phase'' of
               Some p \<Rightarrow>
                 if p \<notin> JStr ` set completed_terminal_phases then Inl ValueError
                 else Inr (AList.update ''completed_at'' (JStr stamp)
                        (if map_of (res_patch res) ''status'' = None
                         then AList.update ''status'' (JStr ''completed'') (res_patch res)
                         else res_patch res))
             | None \<Rightarrow>
                 Inr (AList.update ''completed_at'' (JStr stamp)
                   (AList.update ''status'' (JStr ''completed'')
                     (AList.update ''current_phase'' (JStr (last phase_order)) (res_patch res)))))
          else if np = ''wait'' then
            Inr (AList.update ''status'' (JStr (or_text (res_next_status res) ''waiting''))
              (AList.update ''current_phase'' (JStr ''wait'') (res_patch res)))
          else
            Inr (AList.update ''status''
                   (JStr (or_text (res_next_status res)
                     (case map_of phase_status_map np of Some s \<Rightarrow> s | None \<Rightarrow> ''planning'')))
              (AList.update ''current_phase'' (JStr np) (res_patch res))))"

definition commit_patch :: "(json \<Rightarrow> string) \<Rightarrow> string \<Rightarrow> phase_result \<Rightarrow> patch result" where
  "commit_patch py_str stamp res =
     (case res_outcome res of
        Completed \<Rightarrow> completed_patch stamp res
      | Wait \<Rightarrow> Inr (AList.update ''status'' (JStr (or_text (res_next_status res) ''waiting'')) (res_patch res))
      | Retry \<Rightarrow> Inr (res_patch res)
      | Pause \<Rightarrow> Inr (AList.update ''paused_at'' (JStr stamp)
                   (AList.update ''status'' (JStr ''paused'') (res_patch res)))
      | Failed \<Rightarrow>
          Inr (if is_obj (res_error res) \<and> truthy (jget (res_error res) ''message'')
               then AList.update ''error_message'' (JStr (py_str (jget (res_error res) ''message'')))
                      (AList.update ''status'' (JStr ''failed'') (res_patch res))
               else AList.update ''status'' (JStr ''failed'') (res_patch res)))"

definition accumulate_tokens :: "int \<Rightarrow> wf_host \<Rightarrow> (wf_error + unit) \<times> wf_host" where
  "accumulate_tokens now h =
     (let (held, h1) = ensure_scheduler_lock now h
      in if held then (Inr (), h1\<lparr>wh_refreshed := wh_refreshed h1 + 1\<rparr>) else (Inl WorkflowPaused, h1))"

definition commit_phase_result ::
    "(json \<Rightarrow> string) \<Rightarrow> int \<Rightarrow> string \<Rightarrow> phase_result \<Rightarrow> wf_host \<Rightarrow> (wf_error + unit) \<times> wf_host" where
  "commit_phase_result py_str now stamp res h =
     (let (held, h0) = ensure_scheduler_lock now h in
      if \<not> held then (Inl WorkflowPaused, h0)
      else case commit_patch py_str stamp res of
        Inl e \<Rightarrow> (Inl (ResultError ''invalid phase result''), h0)
      | Inr patch \<Rightarrow>
          (case (if patch = [] then (Inr (), h0) else host_update_workflow stamp patch h0) of
             (Inl e, h1) \<Rightarrow> (Inl e, h1)
           | (Inr _, h1) \<Rightarrow>
               let h2 = fold create_milestone (res_milestones res) h1
               in if res_usage res then accumulate_tokens now h2 else (Inr (), h2)))"

section \<open>Advancing\<close>

definition transient_retry_max :: int where
  "transient_retry_max = 6"

definition transient_keywords :: "string list" where
  "transient_keywords =
     [''libressl'', ''openssl'', ''ssl'', ''tls'', ''connection reset'', ''connection refused'',
      ''connection timed out'', ''timed out'', ''could not resolve host'', ''network is unreachable'',
      ''unable to access'', ''rpc failed'', ''early eof'', ''empty reply'', ''empty response'',
      ''stale info'', ''fetch first'', ''non-fast-forward'', ''[rejected]'', ''zero check-runs'']"

definition is_transient :: "wf_error \<Rightarrow> bool" where
  "is_transient e \<longleftrightarrow>
     (case e of
        GitHubOpsError s \<Rightarrow> list_ex (\<lambda>kw. py_contains kw (py_lower s)) transient_keywords
      | _ \<Rightarrow> False)"

definition retry_count_of :: "json \<Rightarrow> int" where
  "retry_count_of v = (case v of JInt n \<Rightarrow> n | _ \<Rightarrow> 0)"

definition mark_failed :: "string \<Rightarrow> string \<Rightarrow> json \<Rightarrow> wf_host \<Rightarrow> (wf_error + unit) \<times> wf_host" where
  "mark_failed stamp err phase h =
     (case host_update_workflow stamp
             [(''status'', JStr ''failed''), (''error_message'', JStr err), (''transient_retry_count'', JInt 0)] h of
        (Inl e, h1) \<Rightarrow> (Inl e, h1)
      | (Inr _, h1) \<Rightarrow> (Inr (), emit ''error'' [(''phase'', por phase (JStr ''unknown'')), (''error'', JStr err)] h1))"

type_synonym handler = "(string \<Rightarrow> json) \<Rightarrow> wf_host \<Rightarrow> (wf_error + phase_result option) \<times> wf_host"

text \<open>
  The phase handlers, and what \<^verbatim>\<open>advance\<close> calls besides them: the reconciliation of an
  interrupted worktree transition, the repair of the worktree, and its cleanup after a failure. Their
  bodies are not modelled, and nothing is assumed of them where a lemma does not say so.
\<close>

record advance_env =
  ae_handlers :: "string \<Rightarrow> handler option"
  ae_reconcile :: "wf_host \<Rightarrow> (wf_error + unit) \<times> wf_host"
  ae_ensure_worktree :: "wf_host \<Rightarrow> (wf_error + unit) \<times> wf_host"
  ae_cleanup :: "wf_host \<Rightarrow> wf_host"

text \<open>
  The body of the \<^verbatim>\<open>try\<close>: an error ends it; otherwise the answer says whether \<^verbatim>\<open>advance\<close>
  returns at once (\<open>True\<close>) or reaches its convergence point. \<open>cols\<close> are the columns of the workflow as it was
  last read, which the error handling uses.
\<close>

datatype step_end = Raised wf_error | Returned | Fell_through

definition dispatch_phase ::
    "advance_env \<Rightarrow> json \<Rightarrow> (string \<Rightarrow> json) \<Rightarrow> wf_host \<Rightarrow> (wf_error + phase_result option) \<times> wf_host" where
  "dispatch_phase env phase cols h =
     (case phase of
        JStr p \<Rightarrow> (case ae_handlers env p of Some f \<Rightarrow> f cols h | None \<Rightarrow> (Inr None, h))
      | _ \<Rightarrow> (Inr None, h))"

definition reset_retries :: "string \<Rightarrow> phase_result option \<Rightarrow> (string \<Rightarrow> json) \<Rightarrow> wf_host \<Rightarrow> step_end \<times> wf_host" where
  "reset_retries stamp res cols h =
     (if (case res of None \<Rightarrow> True | Some r \<Rightarrow> res_outcome r \<noteq> Failed) \<and> truthy (cols ''transient_retry_count'')
      then (case host_update_workflow stamp
                   [(''transient_retry_count'', JInt 0), (''error_message'', JStr [])] h of
              (Inl e, h1) \<Rightarrow> (Raised e, h1)
            | (Inr _, h1) \<Rightarrow> (Fell_through, h1))
      else (Fell_through, h))"

definition run_phase ::
    "advance_env \<Rightarrow> (json \<Rightarrow> string) \<Rightarrow> int \<Rightarrow> string \<Rightarrow> json \<Rightarrow> (string \<Rightarrow> json) \<Rightarrow> wf_host \<Rightarrow>
     step_end \<times> wf_host" where
  "run_phase env py_str now stamp phase cols h =
     (case dispatch_phase env phase cols h of
        (Inl e, h1) \<Rightarrow> (Raised e, h1)
      | (Inr None, h1) \<Rightarrow> reset_retries stamp None cols h1
      | (Inr (Some res), h1) \<Rightarrow>
          (case commit_phase_result py_str now stamp res h1 of
             (Inl e, h2) \<Rightarrow> (Raised e, h2)
           | (Inr _, h2) \<Rightarrow>
               if res_outcome res = Pause then (Returned, h2) else reset_retries stamp (Some res) cols h2))"

definition try_body ::
    "advance_env \<Rightarrow> (json \<Rightarrow> string) \<Rightarrow> int \<Rightarrow> string \<Rightarrow> json \<Rightarrow> wf_host \<Rightarrow>
     step_end \<times> (string \<Rightarrow> json) \<times> wf_host" where
  "try_body env py_str now stamp phase h =
     (let cols = wr_cols (wh_row h);
          (r1, h1) = (if truthy (cols ''worktree_transition_state'') then ae_reconcile env h else (Inr (), h))
      in case r1 of
           Inl e \<Rightarrow> (Raised e, cols, h1)
         | Inr _ \<Rightarrow>
             let wf1 = wr_cols (wh_row h1)
             in if truthy (cols ''worktree_transition_state'') \<and> wf1 ''status'' = JStr ''failed''
                then (Returned, wf1, h1)
                else
                  let (r2, h2) = (if phase \<noteq> JStr ''preparation'' then ae_ensure_worktree env h1 else (Inr (), h1))
                  in case r2 of
                       Inl e \<Rightarrow> (Raised e, wf1, h2)
                     | Inr _ \<Rightarrow>
                         let wf2 = wr_cols (wh_row h2);
                             (res, h3) = run_phase env py_str now stamp phase wf2 h2
                         in (res, wf2, h3))"

definition handle_error ::
    "string \<Rightarrow> json \<Rightarrow> wf_error \<Rightarrow> (string \<Rightarrow> json) \<Rightarrow> wf_host \<Rightarrow> (wf_error + bool) \<times> wf_host" where
  "handle_error stamp phase e cols h =
     (let count = retry_count_of (cols ''transient_retry_count'') + 1
      in if is_transient e \<and> count \<le> transient_retry_max then
           (case host_update_workflow stamp
              [(''transient_retry_count'', JInt count),
               (''error_message'', JStr (''Transient network error (retry '' @ str_of_int count @ ''/'' @
                   str_of_int transient_retry_max @ ''): '' @ error_text e))] h of
              (Inl e', h1) \<Rightarrow> (Inl e', h1)
            | (Inr _, h1) \<Rightarrow> (Inr True, h1))
         else
           (case mark_failed stamp (error_text e) phase h of
              (Inl e', h1) \<Rightarrow> (Inl e', h1)
            | (Inr _, h1) \<Rightarrow> (Inr False, h1)))"

definition converge :: "advance_env \<Rightarrow> wf_host \<Rightarrow> wf_host" where
  "converge env h =
     (if wr_cols (wh_row h) ''status'' = JStr ''failed'' \<and> truthy (wr_cols (wh_row h) ''worktree_path'')
      then ae_cleanup env h else h)"

definition advance ::
    "advance_env \<Rightarrow> (json \<Rightarrow> string) \<Rightarrow> int \<Rightarrow> string \<Rightarrow> wf_host \<Rightarrow> (wf_error + unit) \<times> wf_host" where
  "advance env py_str now stamp h =
     (if wr_cols (wh_row h) ''status'' \<in> {JStr ''paused'', JStr ''failed'', JStr ''cancelled''} then (Inr (), h)
      else
        let phase = wr_cols (wh_row h) ''current_phase''
        in case try_body env py_str now stamp phase h of
             (Returned, cols, h1) \<Rightarrow> (Inr (), h1)
           | (Fell_through, cols, h1) \<Rightarrow> (Inr (), converge env h1)
           | (Raised WorkflowPaused, cols, h1) \<Rightarrow> (Inr (), h1)
           | (Raised e, cols, h1) \<Rightarrow>
               (case handle_error stamp phase e cols h1 of
                  (Inl e', h2) \<Rightarrow> (Inl e', h2)
                | (Inr True, h2) \<Rightarrow> (Inr (), h2)
                | (Inr False, h2) \<Rightarrow> (Inr (), converge env h2)))"

section \<open>Columns after an update\<close>

lemma fold_apply_field:
  "distinct (map fst ups) \<Longrightarrow> fold apply_field ups cols k =
     (case map_of ups k of None \<Rightarrow> cols k | Some v \<Rightarrow> if k \<in> set bool_cols then coerce_bool v else v)"
proof (induction ups arbitrary: cols)
  case (Cons u ups)
  show ?case
  proof (cases "fst u = k")
    case True
    with Cons.prems have "map_of ups k = None" by (auto simp: map_of_eq_None_iff)
    with True Cons show ?thesis by (cases u) (simp add: apply_field_def)
  next
    case False
    with Cons show ?thesis by (cases u) (simp add: apply_field_def)
  qed
qed simp

lemma map_of_filter_key: "map_of (filter (\<lambda>kv. P (fst kv)) d) k = (if P k then map_of d k else None)"
  by (induction d) auto

lemma map_of_safe_updates:
  "map_of (safe_updates stamp d) k =
     (if k \<in> set allowed_workflow_fields then if k = ''updated_at'' then Some (JStr stamp) else map_of d k else None)"
  by (simp add: safe_updates_def map_of_filter_key [of "\<lambda>x. x \<in> set allowed_workflow_fields"] update_conv')

lemma distinct_safe_updates: "distinct (map fst d) \<Longrightarrow> distinct (map fst (safe_updates stamp d))"
  unfolding safe_updates_def by (intro distinct_map_filter distinct_update)

text \<open>The columns the phase machine reads are allowed and stored as they are.\<close>

definition phase_cols :: "string list" where
  "phase_cols = [''current_phase'', ''status'', ''error_message'', ''transient_retry_count'',
     ''worktree_transition_state'']"

lemma update_phase_col:
  assumes "update_workflow stamp own ex d r = (Some c, r')" and "distinct (map fst d)" and "k \<in> set phase_cols"
  shows "wr_cols r' k = (case map_of d k of None \<Rightarrow> wr_cols r k | Some v \<Rightarrow> v)"
proof -
  have "k \<in> set allowed_workflow_fields" "k \<noteq> ''updated_at''" "k \<notin> set bool_cols"
    using assms(3) by (auto simp: phase_cols_def allowed_workflow_fields_def bool_cols_def)
  then show ?thesis using assms(1,2)
    by (auto simp: update_workflow_def update_condition_def Let_def fold_apply_field [OF distinct_safe_updates] map_of_safe_updates
        split: if_splits option.splits)
qed

lemma emit_row [simp]: "wh_row (emit t d h) = wh_row h"
  by (simp add: emit_def)

lemma purge_row [simp]: "wh_row (purge_agent_state_if_terminal d h) = wh_row h"
  by (simp add: purge_agent_state_if_terminal_def split: option.split json.split)

lemma host_update_phase_col:
  assumes "host_update_workflow stamp d h = (Inr u, h')" and "distinct (map fst d)" and "k \<in> set phase_cols"
  shows "wr_cols (wh_row h') k = (case map_of d k of None \<Rightarrow> wr_cols (wh_row h) k | Some v \<Rightarrow> v)"
proof -
  have "\<exists>c. update_workflow stamp (if truthy_str (wh_owner h) then wh_owner h else None) [] d (wh_row h) = (Some c, wh_row h')"
    using assms(1)
    by (auto simp: host_update_workflow_def persist_workflow_update_def Let_def split: prod.splits if_splits sum.splits)
  with update_phase_col [OF _ assms(2,3)] show ?thesis by metis
qed

lemma refresh_lock_cols: "refresh_lock owner now r = (b, r') \<Longrightarrow> wr_cols r' = wr_cols r"
  by (auto simp: refresh_lock_def split: if_splits)

lemma ensure_scheduler_lock_cols: "ensure_scheduler_lock now h = (held, h') \<Longrightarrow> wr_cols (wh_row h') = wr_cols (wh_row h)"
  by (auto simp: ensure_scheduler_lock_def mark_scheduler_lock_lost_def Let_def dest: refresh_lock_cols
      split: prod.splits if_splits)

lemma accumulate_tokens_cols: "accumulate_tokens now h = (r, h') \<Longrightarrow> wr_cols (wh_row h') = wr_cols (wh_row h)"
  by (auto simp: accumulate_tokens_def dest: ensure_scheduler_lock_cols split: prod.splits if_splits)

lemma create_milestone_row [simp]: "wh_row (create_milestone kw h) = wh_row h"
  by (simp add: create_milestone_def emit_def)

lemma create_milestones_row [simp]: "wh_row (fold create_milestone kws h) = wh_row h"
  by (induction kws arbitrary: h) simp_all

section \<open>Properties of the commit\<close>

definition plain_patch :: "patch \<Rightarrow> bool" where
  "plain_patch d \<longleftrightarrow> distinct (map fst d) \<and> map_of d ''current_phase'' = None \<and> map_of d ''status'' = None"

definition phase_after :: "phase_result \<Rightarrow> json \<Rightarrow> json" where
  "phase_after res phase =
     (if res_outcome res = Completed
      then JStr (if res_next_phase res = Some ''completed'' then ''acceptance_verification''
                 else the (res_next_phase res))
      else phase)"

definition status_after :: "phase_result \<Rightarrow> json \<Rightarrow> json" where
  "status_after res status =
     (case res_outcome res of
        Completed \<Rightarrow>
          (if res_next_phase res = Some ''completed'' then JStr ''completed''
           else if res_next_phase res = Some ''wait'' then JStr (or_text (res_next_status res) ''waiting'')
           else JStr (or_text (res_next_status res) (the (map_of phase_status_map (the (res_next_phase res))))))
      | Wait \<Rightarrow> JStr (or_text (res_next_status res) ''waiting'')
      | Retry \<Rightarrow> status
      | Pause \<Rightarrow> JStr ''paused''
      | Failed \<Rightarrow> JStr ''failed'')"

lemma map_of_update: "map_of (AList.update k v d) = (map_of d)(k \<mapsto> v)"
  by (rule update_conv')

lemma phase_status_map_total: "p \<in> set phase_order \<Longrightarrow> map_of phase_status_map p \<noteq> None"
  by (auto simp: phase_order_def phase_status_map_def)

lemma commit_patch_distinct:
  "commit_patch py_str stamp res = Inr d \<Longrightarrow> distinct (map fst (res_patch res)) \<Longrightarrow> distinct (map fst d)"
  by (auto simp: commit_patch_def completed_patch_def intro!: distinct_update
      split: phase_outcome.splits option.splits if_splits)

lemma last_phase_order: "last phase_order = ''acceptance_verification''"
  by (simp add: phase_order_def)

lemma commit_patch_phase:
  assumes "commit_patch py_str stamp res = Inr d" and "plain_patch (res_patch res)"
  shows "(case map_of d ''current_phase'' of None \<Rightarrow> phase | Some v \<Rightarrow> v) = phase_after res phase"
  using assms
  by (auto simp: commit_patch_def completed_patch_def plain_patch_def map_of_update phase_after_def last_phase_order
      split: phase_outcome.splits option.splits if_splits)

lemma commit_patch_status:
  assumes "commit_patch py_str stamp res = Inr d" and "plain_patch (res_patch res)"
  shows "(case map_of d ''status'' of None \<Rightarrow> status | Some v \<Rightarrow> v) = status_after res status"
proof (cases "res_outcome res = Completed")
  case True
  with assms(1) obtain np where np: "res_next_phase res = Some np"
      "np \<in> set phase_order \<or> np = ''completed'' \<or> np = ''wait''"
    by (auto simp: commit_patch_def completed_patch_def split: option.splits if_splits)
  have no: "map_of (res_patch res) ''current_phase'' = None" using assms(2) by (simp add: plain_patch_def)
  show ?thesis
  proof (cases "np = ''completed'' \<or> np = ''wait''")
    case True
    with assms(1) np no \<open>res_outcome res = Completed\<close> show ?thesis
      by (elim disjE) (auto simp: commit_patch_def completed_patch_def map_of_update status_after_def)
  next
    case False
    with np obtain st where "map_of phase_status_map np = Some st" "np \<in> set phase_order"
      using phase_status_map_total by blast
    with assms(1) np no False \<open>res_outcome res = Completed\<close> show ?thesis
      by (auto simp: commit_patch_def completed_patch_def map_of_update status_after_def)
  qed
next
  case False
  with assms show ?thesis
    by (cases "res_outcome res")
      (auto simp: commit_patch_def plain_patch_def map_of_update status_after_def split: if_splits)
qed

lemma commit_patch_next:
  "commit_patch py_str stamp res = Inr d \<Longrightarrow> res_outcome res = Completed \<Longrightarrow>
   \<exists>np. res_next_phase res = Some np \<and> (np \<in> set phase_order \<or> np = ''completed'' \<or> np = ''wait'')"
  by (auto simp: commit_patch_def completed_patch_def split: option.splits if_splits)

lemma last_phase_canonical: "''acceptance_verification'' \<in> set phase_order"
  by (simp add: phase_order_def)

lemma commit_phase_col:
  assumes "commit_phase_result py_str now stamp res h = (Inr u, h')" and "distinct (map fst (res_patch res))"
    and "k \<in> set phase_cols"
  obtains d where "commit_patch py_str stamp res = Inr d"
    and "wr_cols (wh_row h') k = (case map_of d k of None \<Rightarrow> wr_cols (wh_row h) k | Some v \<Rightarrow> v)"
proof -
  obtain h0 where h0: "ensure_scheduler_lock now h = (True, h0)"
    using assms(1) by (auto simp: commit_phase_result_def Let_def split: prod.splits if_splits)
  then obtain d where d: "commit_patch py_str stamp res = Inr d"
    using assms(1) by (auto simp: commit_phase_result_def Let_def split: sum.splits)
  obtain h1 where h1: "(if d = [] then (Inr (), h0) else host_update_workflow stamp d h0) = (Inr (), h1)"
    using assms(1) h0 d by (auto simp: commit_phase_result_def Let_def split: prod.splits sum.splits)
  have "wr_cols (wh_row h') = wr_cols (wh_row h1)"
    using assms(1) h0 d h1
    by (auto simp: commit_phase_result_def Let_def dest: accumulate_tokens_cols split: if_splits prod.splits)
  moreover have "wr_cols (wh_row h1) k = (case map_of d k of None \<Rightarrow> wr_cols (wh_row h0) k | Some v \<Rightarrow> v)"
    using h1 host_update_phase_col [OF _ commit_patch_distinct [OF d assms(2)] assms(3)]
    by (auto split: if_splits)
  ultimately show thesis by (intro that [OF d]) (simp only: ensure_scheduler_lock_cols [OF h0])
qed

text \<open>C32: A committed result whose patch keeps to the contract (no phase, no status) moves the workflow
  exactly as its outcome says: only a completed phase changes the phase, always to one of the
  canonical phases or the parking phase, and the status is the one of the outcome. A patch that does
  set them is applied as it is: see \<open>unfinished_patch_moves_phase\<close>.\<close>

theorem commit_moves_as_outcome:
  assumes "commit_phase_result py_str now stamp res h = (Inr u, h')" and "plain_patch (res_patch res)"
  shows "wr_cols (wh_row h') ''current_phase'' = phase_after res (wr_cols (wh_row h) ''current_phase'') \<and>
    wr_cols (wh_row h') ''status'' = status_after res (wr_cols (wh_row h) ''status'') \<and>
    (res_outcome res \<noteq> Completed \<or>
     wr_cols (wh_row h') ''current_phase'' \<in> JStr ` (set phase_order \<union> {''wait''}))"
proof (intro conjI)
  have dist: "distinct (map fst (res_patch res))" using assms(2) by (simp add: plain_patch_def)
  obtain d where d: "commit_patch py_str stamp res = Inr d"
    and p: "wr_cols (wh_row h') ''current_phase'' =
      (case map_of d ''current_phase'' of None \<Rightarrow> wr_cols (wh_row h) ''current_phase'' | Some v \<Rightarrow> v)"
    by (rule commit_phase_col [OF assms(1) dist, of "''current_phase''"]) (auto simp: phase_cols_def)
  then show p': "wr_cols (wh_row h') ''current_phase'' = phase_after res (wr_cols (wh_row h) ''current_phase'')"
    using commit_patch_phase [OF d assms(2)] by simp
  show "wr_cols (wh_row h') ''status'' = status_after res (wr_cols (wh_row h) ''status'')"
    by (rule commit_phase_col [OF assms(1) dist, of "''status''"])
      (auto simp: phase_cols_def commit_patch_status [OF _ assms(2)])
  show "res_outcome res \<noteq> Completed \<or>
     wr_cols (wh_row h') ''current_phase'' \<in> JStr ` (set phase_order \<union> {''wait''})"
    unfolding p' using commit_patch_next [OF d] by (auto simp: phase_after_def last_phase_canonical)
qed

text \<open>A patch that carries a phase moves the workflow there on every outcome but a completed one:
  a failed, waiting, paused or retrying result is not kept from writing another phase's state.\<close>

theorem unfinished_patch_moves_phase:
  assumes "commit_phase_result py_str now stamp res h = (Inr u, h')" and "distinct (map fst (res_patch res))"
    and "res_outcome res \<noteq> Completed" and "map_of (res_patch res) ''current_phase'' = Some p"
  shows "wr_cols (wh_row h') ''current_phase'' = p"
proof (rule commit_phase_col [OF assms(1,2), of "''current_phase''"])
  fix d assume "commit_patch py_str stamp res = Inr d"
    and "wr_cols (wh_row h') ''current_phase'' =
      (case map_of d ''current_phase'' of None \<Rightarrow> wr_cols (wh_row h) ''current_phase'' | Some v \<Rightarrow> v)"
  with assms(3,4) show ?thesis
    by (auto simp: commit_patch_def map_of_update split: phase_outcome.splits if_splits)
qed (simp add: phase_cols_def)

section \<open>Properties of the milestones\<close>

lemma field_update: "field (AList.update k v d) k' dflt = (if k' = k then v else field d k' dflt)"
  by (simp add: field_def map_of_update)

lemma has_milestone_mono: "has_milestone kw mss \<Longrightarrow> has_milestone kw (mss @ ext)"
  by (simp add: has_milestone_def)

lemma create_milestone_extends: "\<exists>ext. wh_milestones (create_milestone kw h) = wh_milestones h @ ext"
  by (simp add: create_milestone_def emit_def)

lemma create_milestones_extend: "\<exists>ext. wh_milestones (fold create_milestone kws h) = wh_milestones h @ ext"
proof (induction kws arbitrary: h)
  case (Cons kw kws)
  obtain a where "wh_milestones (create_milestone kw h) = wh_milestones h @ a" using create_milestone_extends by blast
  with Cons [of "create_milestone kw h"] show ?case by auto
qed simp

text \<open>A milestone that a replay finds: in progress, or completed and not a repair attempt.\<close>

definition settled_milestone :: "patch \<Rightarrow> bool" where
  "settled_milestone kw \<longleftrightarrow>
     field kw ''status'' (JStr ''pending'') = JStr ''in_progress'' \<or>
     field kw ''status'' (JStr ''pending'') = JStr ''completed'' \<and> \<not> is_ci_repair (field kw ''milestone_type'' (JStr []))"

lemma stored_milestone_matches:
  "settled_milestone kw \<Longrightarrow>
   milestone_matches (field kw ''phase'' (JStr [])) (field kw ''milestone_type'' (JStr []))
     (field kw ''dev_round'' JNull) (field kw ''round_number'' JNull)
     (\<not> is_ci_repair (field kw ''milestone_type'' (JStr []))) (stored_milestone kw)"
  by (auto simp: settled_milestone_def milestone_matches_def stored_milestone_def field_update)
    (auto simp: field_def split: option.splits)

lemma has_milestone_created: "settled_milestone kw \<Longrightarrow> has_milestone kw (wh_milestones (create_milestone kw h))"
  by (auto simp: create_milestone_def emit_def has_milestone_def intro: stored_milestone_matches)

lemma has_milestones_created:
  "list_all settled_milestone kws \<Longrightarrow>
   list_all (\<lambda>kw. has_milestone kw (wh_milestones (fold create_milestone kws h))) kws"
proof (induction kws arbitrary: h)
  case (Cons kw kws)
  obtain ext where "wh_milestones (fold create_milestone kws (create_milestone kw h)) =
      wh_milestones (create_milestone kw h) @ ext"
    using create_milestones_extend by blast
  with Cons.prems have "has_milestone kw (wh_milestones (fold create_milestone kws (create_milestone kw h)))"
    by (simp add: has_milestone_mono has_milestone_created)
  with Cons show ?case by simp
qed simp

lemma create_milestones_idle:
  "list_all (\<lambda>kw. has_milestone kw (wh_milestones h)) kws \<Longrightarrow> fold create_milestone kws h = h"
  by (induction kws) (simp_all add: create_milestone_def)

text \<open>Replaying the milestones of a result that was already applied changes nothing, when each is in
  progress or completed and no completed one is a repair attempt.\<close>

theorem milestone_replay_idempotent:
  assumes "list_all settled_milestone kws"
  shows "fold create_milestone kws (fold create_milestone kws h) = fold create_milestone kws h"
  by (rule create_milestones_idle [OF has_milestones_created [OF assms]])

lemma unsettled_create:
  assumes "field kw ''status'' (JStr ''pending'') \<notin> {JStr ''in_progress'', JStr ''completed''}"
    and "\<not> has_milestone kw (wh_milestones h)"
  shows "wh_milestones (create_milestone kw h) = wh_milestones h @ [stored_milestone kw] \<and>
    \<not> has_milestone kw (wh_milestones (create_milestone kw h))"
  using assms
  by (auto simp: create_milestone_def emit_def has_milestone_def milestone_matches_def stored_milestone_def field_update)

text \<open>A milestone of any other status (a failed one, or a pending one) is stored again by every replay,
  as many times as it is replayed.\<close>

theorem unsettled_milestone_duplicated:
  assumes "field kw ''status'' (JStr ''pending'') \<notin> {JStr ''in_progress'', JStr ''completed''}"
    and "\<not> has_milestone kw (wh_milestones h)"
  shows "wh_milestones ((create_milestone kw ^^ n) h) = wh_milestones h @ replicate n (stored_milestone kw)"
proof -
  have nh: "\<not> has_milestone kw (wh_milestones ((create_milestone kw ^^ m) h))" for m
    by (induction m) (simp_all only: funpow.simps id_apply comp_apply assms(2) unsettled_create [OF assms(1), THEN conjunct2] simp_thms)
  show ?thesis
    by (induction n)
      (simp_all add: unsettled_create [OF assms(1) nh, THEN conjunct1] replicate_append_same)
qed

section \<open>A superseded worker\<close>

definition superseded :: "wf_host \<Rightarrow> bool" where
  "superseded h \<longleftrightarrow> truthy_str (wh_owner h) \<and> wr_locked_by (wh_row h) \<noteq> wh_owner h"

text \<open>What is stored, and the identity of the worker.\<close>

definition stored :: "wf_host \<Rightarrow> wf_row \<times> patch list \<times> string option" where
  "stored h = (wh_row h, wh_milestones h, wh_owner h)"

definition respects_lock :: "(wf_host \<Rightarrow> 'a \<times> wf_host) \<Rightarrow> bool" where
  "respects_lock f \<longleftrightarrow> (\<forall>h. superseded h \<longrightarrow> stored (snd (f h)) = stored h)"

lemma respects_lockI: "(\<And>h r h'. superseded h \<Longrightarrow> f h = (r, h') \<Longrightarrow> stored h' = stored h) \<Longrightarrow> respects_lock f"
  by (metis prod.collapse respects_lock_def)

lemma respects_lockD: "respects_lock f \<Longrightarrow> superseded h \<Longrightarrow> f h = (r, h') \<Longrightarrow> stored h' = stored h \<and> superseded h'"
  by (force simp: respects_lock_def superseded_def stored_def)

lemma superseded_ensure:
  "superseded h \<Longrightarrow> ensure_scheduler_lock now h = (b, h') \<Longrightarrow> \<not> b \<and> stored h' = stored h"
  by (auto simp: superseded_def stored_def ensure_scheduler_lock_def refresh_lock_def mark_scheduler_lock_lost_def
      truthy_str_def Let_def split: if_splits option.splits)

lemma stored_emit [simp]: "stored (emit t d h) = stored h"
  by (simp add: stored_def emit_def)

lemma stored_purge [simp]: "stored (purge_agent_state_if_terminal d h) = stored h"
  by (simp add: stored_def purge_agent_state_if_terminal_def split: option.split json.split)

lemma respects_host_update: "respects_lock (host_update_workflow stamp d)"
  by (rule respects_lockI)
    (auto simp: host_update_workflow_def persist_workflow_update_def update_workflow_def update_condition_def superseded_def stored_def
      mark_scheduler_lock_lost_def emit_def purge_agent_state_if_terminal_def Let_def
      split: if_splits option.splits json.splits)

lemma respects_commit: "respects_lock (commit_phase_result py_str now stamp res)"
  by (rule respects_lockI) (auto simp: commit_phase_result_def Let_def dest: superseded_ensure split: prod.splits if_splits)

lemma respects_mark_failed: "respects_lock (mark_failed stamp err phase)"
  by (rule respects_lockI)
    (auto simp: mark_failed_def dest: respects_lockD [OF respects_host_update] split: prod.splits sum.splits)

lemma respects_handle_error: "respects_lock (handle_error stamp phase e cols)"
  by (rule respects_lockI)
    (auto simp: handle_error_def Let_def
      dest: respects_lockD [OF respects_host_update] respects_lockD [OF respects_mark_failed]
      split: prod.splits sum.splits if_splits)

lemma respects_reset: "respects_lock (reset_retries stamp res cols)"
  by (rule respects_lockI)
    (auto simp: reset_retries_def dest: respects_lockD [OF respects_host_update] split: prod.splits sum.splits if_splits)

lemma respects_accumulate: "respects_lock (accumulate_tokens now)"
  by (rule respects_lockI) (auto simp: accumulate_tokens_def Let_def dest: superseded_ensure split: prod.splits if_splits)

lemma respects_ensure: "respects_lock (ensure_scheduler_lock now)"
  by (rule respects_lockI) (auto dest: superseded_ensure)

lemma respects_release: "respects_lock (\<lambda>h. ((), h\<lparr>wh_row := release_wf_lock (the (wh_owner h)) (wh_row h)\<rparr>))"
  by (rule respects_lockI) (auto simp: release_wf_lock_def superseded_def stored_def truthy_str_def split: option.splits)

text \<open>What a worker does to its workflow outside the bodies of the phase handlers: committing a result,
  writing a patch, failing the workflow, handling an error, resetting the retries, refreshing its lock,
  counting tokens and releasing the lock.\<close>

datatype worker_act = Commit_Result phase_result | Write_Patch patch | Fail_With string json
  | Handle_Error json wf_error "string \<Rightarrow> json" | Reset_Retries "phase_result option" "string \<Rightarrow> json"
  | Check_Lock | Count_Tokens | Release_Lock

fun worker_op :: "(json \<Rightarrow> string) \<Rightarrow> int \<Rightarrow> string \<Rightarrow> worker_act \<Rightarrow> wf_host \<Rightarrow> wf_host" where
  "worker_op py_str now stamp (Commit_Result res) h = snd (commit_phase_result py_str now stamp res h)"
| "worker_op py_str now stamp (Write_Patch d) h = snd (host_update_workflow stamp d h)"
| "worker_op py_str now stamp (Fail_With err phase) h = snd (mark_failed stamp err phase h)"
| "worker_op py_str now stamp (Handle_Error phase e cols) h = snd (handle_error stamp phase e cols h)"
| "worker_op py_str now stamp (Reset_Retries res cols) h = snd (reset_retries stamp res cols h)"
| "worker_op py_str now stamp Check_Lock h = snd (ensure_scheduler_lock now h)"
| "worker_op py_str now stamp Count_Tokens h = snd (accumulate_tokens now h)"
| "worker_op py_str now stamp Release_Lock h = h\<lparr>wh_row := release_wf_lock (the (wh_owner h)) (wh_row h)\<rparr>"

definition run_worker :: "(json \<Rightarrow> string) \<Rightarrow> (int \<times> string \<times> worker_act) list \<Rightarrow> wf_host \<Rightarrow> wf_host" where
  "run_worker py_str = fold (\<lambda>(now, stamp, x). worker_op py_str now stamp x)"

lemma respects_lock_run: "respects_lock f \<Longrightarrow> superseded h \<Longrightarrow> stored (snd (f h)) = stored h \<and> superseded (snd (f h))"
  using respects_lockD [of f h "fst (f h)" "snd (f h)"] by simp

lemma respects_worker_op:
  assumes "superseded h"
  shows "stored (worker_op py_str now stamp x h) = stored h \<and> superseded (worker_op py_str now stamp x h)"
proof (cases x)
  case Release_Lock
  then show ?thesis using respects_lock_run [OF respects_release assms] by simp
qed (simp_all add: respects_lock_run [OF _ assms] respects_commit respects_host_update respects_mark_failed respects_handle_error
    respects_reset respects_ensure respects_accumulate)

lemma respects_run_worker: "superseded h \<Longrightarrow> stored (run_worker py_str ops h) = stored h"
  unfolding run_worker_def by (induction ops arbitrary: h) (auto simp: respects_worker_op)

text \<open>What a handler stores as a milestone is not fenced: a superseded worker adds it all the same.\<close>

theorem superseded_milestone_stored:
  assumes "superseded h" and "\<not> has_milestone kw (wh_milestones h)"
  shows "wh_milestones (create_milestone kw h) = wh_milestones h @ [stored_milestone kw] \<and> superseded (create_milestone kw h)"
  using assms by (simp add: create_milestone_def emit_def superseded_def)

section \<open>Transient errors\<close>

text \<open>A phase whose handler only raises \<open>e\<close>, in a worktree that needs no repair.\<close>

definition failing_phase :: "advance_env \<Rightarrow> string \<Rightarrow> wf_error \<Rightarrow> bool" where
  "failing_phase env p e \<longleftrightarrow>
     (\<exists>f. ae_handlers env p = Some f \<and> (\<forall>cols h. f cols h = (Inl e, h))) \<and>
     (\<forall>h. ae_ensure_worktree env h = (Inr (), h)) \<and>
     (\<forall>h. wr_cols (wh_row (ae_cleanup env h)) ''status'' = wr_cols (wh_row h) ''status'')"

definition retrying :: "string \<Rightarrow> int \<Rightarrow> json \<Rightarrow> wf_host \<Rightarrow> bool" where
  "retrying p count status h \<longleftrightarrow>
     \<not> superseded h \<and> \<not> truthy (wr_cols (wh_row h) ''worktree_transition_state'') \<and>
     wr_cols (wh_row h) ''current_phase'' = JStr p \<and> wr_cols (wh_row h) ''status'' = status \<and>
     wr_cols (wh_row h) ''transient_retry_count'' = JInt count"

lemma host_update_granted:
  assumes "\<not> superseded h"
  obtains h' where "host_update_workflow stamp d h = (Inr (), h')" and "\<not> superseded h'"
proof -
  have "\<exists>h'. host_update_workflow stamp d h = (Inr (), h') \<and> \<not> superseded h'"
    using assms
    by (auto simp: host_update_workflow_def persist_workflow_update_def update_workflow_def update_condition_def superseded_def emit_def
        purge_agent_state_if_terminal_def truthy_str_def Let_def split: option.splits json.splits)
  then show thesis using that by blast
qed

lemma failing_body:
  assumes "failing_phase env p e" and "retrying p count status h"
  shows "try_body env py_str now stamp (JStr p) h = (Raised e, wr_cols (wh_row h), h)"
  using assms
  by (auto simp: failing_phase_def retrying_def try_body_def run_phase_def dispatch_phase_def Let_def)

lemma retrying_step:
  assumes fp: "failing_phase env p e" and e: "is_transient e" and r: "retrying p count status h"
    and run: "status \<notin> {JStr ''paused'', JStr ''failed'', JStr ''cancelled''}"
  shows "count < transient_retry_max \<Longrightarrow> retrying p (count + 1) status (snd (advance env py_str now stamp h))"
    and "transient_retry_max \<le> count \<Longrightarrow>
      wr_cols (wh_row (snd (advance env py_str now stamp h))) ''status'' = JStr ''failed''"
proof -
  have cols: "wr_cols (wh_row h) ''transient_retry_count'' = JInt count" and st: "wr_cols (wh_row h) ''status'' = status"
    and ph: "wr_cols (wh_row h) ''current_phase'' = JStr p" and ns: "\<not> superseded h"
    using r by (simp_all add: retrying_def)
  have adv: "advance env py_str now stamp h =
      (case handle_error stamp (JStr p) e (wr_cols (wh_row h)) h of
         (Inl e', h2) \<Rightarrow> (Inl e', h2)
       | (Inr True, h2) \<Rightarrow> (Inr (), h2)
       | (Inr False, h2) \<Rightarrow> (Inr (), converge env h2))"
    using failing_body [OF fp r] run st ph e
    by (cases e) (simp_all add: advance_def is_transient_def Let_def)
  show "retrying p (count + 1) status (snd (advance env py_str now stamp h))" if lt: "count < transient_retry_max"
  proof -
    define d where "d = [(''transient_retry_count'', JInt (count + 1)),
               (''error_message'', JStr (''Transient network error (retry '' @ str_of_int (count + 1) @ ''/'' @
                   str_of_int transient_retry_max @ ''): '' @ error_text e))]"
    obtain h' where h': "host_update_workflow stamp d h = (Inr (), h')" "\<not> superseded h'"
      using host_update_granted [OF ns] by blast
    have "advance env py_str now stamp h = (Inr (), h')"
      using adv e lt h'(1) by (simp add: handle_error_def cols retry_count_of_def d_def Let_def)
    moreover have "retrying p (count + 1) status h'"
      using r h'(2) host_update_phase_col [OF h'(1)] by (simp add: retrying_def d_def phase_cols_def)
    ultimately show ?thesis by simp
  qed
  show "wr_cols (wh_row (snd (advance env py_str now stamp h))) ''status'' = JStr ''failed''"
    if ge: "transient_retry_max \<le> count"
  proof -
    define d where "d = [(''status'', JStr ''failed''), (''error_message'', JStr (error_text e)),
      (''transient_retry_count'', JInt 0)]"
    obtain h' where h': "host_update_workflow stamp d h = (Inr (), h')" "\<not> superseded h'"
      using host_update_granted [OF ns] by blast
    have "wh_row (snd (advance env py_str now stamp h)) =
        wh_row (converge env (emit ''error'' [(''phase'', por (JStr p) (JStr ''unknown'')), (''error'', JStr (error_text e))] h'))"
      using adv ge h'(1) by (simp add: handle_error_def mark_failed_def cols retry_count_of_def d_def Let_def)
    moreover have "wr_cols (wh_row h') ''status'' = JStr ''failed''"
      using host_update_phase_col [OF h'(1)] by (simp add: d_def phase_cols_def)
    ultimately show ?thesis using fp by (simp add: converge_def failing_phase_def)
  qed
qed

definition advance_steps ::
    "advance_env \<Rightarrow> (json \<Rightarrow> string) \<Rightarrow> (int \<times> string) list \<Rightarrow> wf_host \<Rightarrow> wf_host" where
  "advance_steps env py_str steps h = fold (\<lambda>(now, stamp) h. snd (advance env py_str now stamp h)) steps h"

lemma advance_failed_idle:
  "wr_cols (wh_row h) ''status'' = JStr ''failed'' \<Longrightarrow> advance_steps env py_str steps h = h"
  by (induction steps) (auto simp: advance_steps_def advance_def)

lemma retrying_steps:
  assumes "failing_phase env p e" and "is_transient e" and "status \<notin> {JStr ''paused'', JStr ''failed'', JStr ''cancelled''}"
  shows "retrying p count status h \<Longrightarrow> count \<le> transient_retry_max \<Longrightarrow>
    wr_cols (wh_row (advance_steps env py_str steps h)) ''status'' =
      (if int (length steps) \<le> transient_retry_max - count then status else JStr ''failed'')"
proof (induction steps arbitrary: h count)
  case Nil
  then show ?case by (simp add: advance_steps_def retrying_def)
next
  case (Cons s steps)
  obtain now stamp where s: "s = (now, stamp)" by fastforce
  let ?h = "snd (advance env py_str now stamp h)"
  have step: "advance_steps env py_str (s # steps) h = advance_steps env py_str steps ?h"
    by (simp add: s advance_steps_def)
  show ?case
  proof (cases "count < transient_retry_max")
    case True
    have "retrying p (count + 1) status ?h"
      by (rule retrying_step(1) [OF assms(1,2) Cons.prems(1) assms(3) True])
    then show ?thesis using Cons.IH [of "count + 1" ?h] True by (simp add: step)
  next
    case False
    then have "wr_cols (wh_row ?h) ''status'' = JStr ''failed''"
      using retrying_step(2) [OF assms(1,2) Cons.prems(1) assms(3)] by simp
    then show ?thesis using False Cons.prems(2) by (simp add: step advance_failed_idle)
  qed
qed

text \<open>A phase that keeps raising a transient error is tried again without changing the status for
  exactly \<^verbatim>\<open>TRANSIENT_RETRY_MAX\<close> steps; the next step fails the workflow, and it stays failed.\<close>

theorem transient_error_retried_then_failed:
  assumes "failing_phase env p e" and "is_transient e" and "retrying p 0 status h"
    and "status \<notin> {JStr ''paused'', JStr ''failed'', JStr ''cancelled''}"
  shows "wr_cols (wh_row (advance_steps env py_str steps h)) ''status'' =
    (if length steps \<le> 6 then status else JStr ''failed'')"
  using retrying_steps [OF assms(1,2,4,3)] by (simp add: transient_retry_max_def)

text \<open>A retry (or any result but a pause or a failure) that sets the counter of transient retries in its
  patch loses it when the counter was not zero before the phase: the step ends with the counter 0.\<close>

theorem retry_count_of_patch_discarded:
  assumes "ae_handlers env p = Some f" and "f cols h = (Inr (Some res), h1)"
    and "res_outcome res \<notin> {Pause, Failed}" and "truthy (cols ''transient_retry_count'')"
    and "run_phase env py_str now stamp (JStr p) cols h = (Fell_through, h')"
  shows "wr_cols (wh_row h') ''transient_retry_count'' = JInt 0"
proof -
  obtain h2 where "host_update_workflow stamp [(''transient_retry_count'', JInt 0), (''error_message'', JStr [])] h2 = (Inr (), h')"
    using assms by (auto simp: run_phase_def dispatch_phase_def reset_retries_def split: prod.splits sum.splits if_splits)
  from host_update_phase_col [OF this, of "''transient_retry_count''"] show ?thesis by (simp add: phase_cols_def)
qed

section \<open>Concrete instances\<close>

definition sample_host :: "string option \<Rightarrow> (string \<times> json) list \<Rightarrow> wf_host" where
  "sample_host locked_by cs =
     \<lparr>wh_row = \<lparr>wr_cols = fold (\<lambda>kv f. f(fst kv := snd kv)) cs (\<lambda>_. JNull), wr_locked_at = Some 100,
        wr_locked_by = locked_by\<rparr>,
      wh_owner = Some ''w1'', wh_lock_lost = False, wh_shutdown = False, wh_cancel = False, wh_milestones = [],
      wh_events = [], wh_refreshed = 0, wh_purged = False\<rparr>"

definition planning_host :: wf_host where
  "planning_host = sample_host (Some ''w1'')
     [(''current_phase'', JStr ''planning''), (''status'', JStr ''planning''), (''transient_retry_count'', JInt 0)]"

definition sample_env :: "handler \<Rightarrow> advance_env" where
  "sample_env f = \<lparr>ae_handlers = (\<lambda>p. if p = ''planning'' then Some f else None), ae_reconcile = (\<lambda>h. (Inr (), h)),
     ae_ensure_worktree = (\<lambda>h. (Inr (), h)), ae_cleanup = (\<lambda>h. h)\<rparr>"

definition plan_done :: phase_result where
  "plan_done = result_completed (Some ''development'') None [(''dev_round'', JInt 1)]
     [[(''phase'', JStr ''planning''), (''milestone_type'', JStr ''plan_final''), (''status'', JStr ''completed'')]] True"

definition plan_failed :: phase_result where
  "plan_failed = result_failed JNull [(''current_phase'', JStr ''merge'')]"

lemma commit_moves_as_outcome_witness:
  "wr_cols (wh_row (snd (commit_phase_result (\<lambda>_. []) 200 ''t'' plan_done planning_host))) ''current_phase'' =
     JStr ''development''"
proof -
  have "fst (commit_phase_result (\<lambda>_. []) 200 ''t'' plan_done planning_host) = Inr ()" by code_simp
  then have "commit_phase_result (\<lambda>_. []) 200 ''t'' plan_done planning_host =
      (Inr (), snd (commit_phase_result (\<lambda>_. []) 200 ''t'' plan_done planning_host))"
    by (simp add: prod_eq_iff)
  from commit_moves_as_outcome [OF this, THEN conjunct1]
  show ?thesis by (simp add: plain_patch_def plan_done_def result_completed_def phase_after_def)
qed

lemma superseded_milestone_stored_witness:
  "length (wh_milestones (create_milestone [(''milestone_type'', JStr ''plan'')]
     (planning_host\<lparr>wh_row := snd (acquire_lock ''w2'' 5000 (wh_row planning_host))\<rparr>))) = 1"
proof -
  let ?h = "planning_host\<lparr>wh_row := snd (acquire_lock ''w2'' 5000 (wh_row planning_host))\<rparr>"
  have "superseded ?h"
    by (simp add: superseded_def acquire_lock_def planning_host_def sample_host_def lock_timeout_def truthy_str_def)
  moreover have "wh_milestones ?h = []" by (simp add: planning_host_def sample_host_def)
  ultimately show ?thesis using superseded_milestone_stored [of ?h "[(''milestone_type'', JStr ''plan'')]"]
    by (simp add: has_milestone_def)
qed

lemma unfinished_patch_moves_phase_witness:
  "wr_cols (wh_row (snd (commit_phase_result (\<lambda>_. []) 200 ''t'' plan_failed planning_host))) ''current_phase'' =
     JStr ''merge''"
proof -
  have "fst (commit_phase_result (\<lambda>_. []) 200 ''t'' plan_failed planning_host) = Inr ()" by code_simp
  then have "commit_phase_result (\<lambda>_. []) 200 ''t'' plan_failed planning_host =
      (Inr (), snd (commit_phase_result (\<lambda>_. []) 200 ''t'' plan_failed planning_host))"
    by (simp add: prod_eq_iff)
  from unfinished_patch_moves_phase [OF this, of "JStr ''merge''"]
  show ?thesis by (simp add: plan_failed_def result_failed_def)
qed

lemma milestone_replay_idempotent_witness:
  "fold create_milestone (res_milestones plan_done) (fold create_milestone (res_milestones plan_done) planning_host) =
   fold create_milestone (res_milestones plan_done) planning_host"
  by (rule milestone_replay_idempotent)
    (simp add: plan_done_def result_completed_def settled_milestone_def field_def is_ci_repair_def py_startswith_def)

lemma unsettled_milestone_duplicated_witness:
  "length (wh_milestones ((create_milestone [(''milestone_type'', JStr ''repo''), (''status'', JStr ''failed'')] ^^ 3)
     planning_host)) = 3"
  by (subst unsettled_milestone_duplicated)
    (simp_all add: field_def has_milestone_def planning_host_def sample_host_def)

lemma transient_error_retried_then_failed_witness:
  "wr_cols (wh_row (advance_steps (sample_env (\<lambda>_ h. (Inl (GitHubOpsError ''SSL error''), h))) (\<lambda>_. [])
     (replicate 6 (200, ''t'')) planning_host)) ''status'' = JStr ''planning'' \<and>
   wr_cols (wh_row (advance_steps (sample_env (\<lambda>_ h. (Inl (GitHubOpsError ''SSL error''), h))) (\<lambda>_. [])
     (replicate 9 (200, ''t'')) planning_host)) ''status'' = JStr ''failed''"
proof -
  have fp: "failing_phase (sample_env (\<lambda>_ h. (Inl (GitHubOpsError ''SSL error''), h))) ''planning''
      (GitHubOpsError ''SSL error'')"
    by (simp add: failing_phase_def sample_env_def)
  have tr: "is_transient (GitHubOpsError ''SSL error'')" by code_simp
  have rt: "retrying ''planning'' 0 (JStr ''planning'') planning_host"
    by (simp add: retrying_def planning_host_def sample_host_def superseded_def)
  show ?thesis
    using transient_error_retried_then_failed [OF fp tr rt] by simp
qed

lemma retry_count_of_patch_discarded_witness:
  "wr_cols (wh_row (snd (run_phase (sample_env (\<lambda>_ h. (Inr (Some (result_retry [(''transient_retry_count'', JInt 4)])), h)))
     (\<lambda>_. []) 200 ''t'' (JStr ''planning'') (\<lambda>_. JInt 3) planning_host))) ''transient_retry_count'' = JInt 0"
proof -
  let ?f = "\<lambda>(_::string \<Rightarrow> json) h. (Inr (Some (result_retry [(''transient_retry_count'', JInt 4)])) :: wf_error + phase_result option, h::wf_host)"
  have "fst (run_phase (sample_env ?f) (\<lambda>_. []) 200 ''t'' (JStr ''planning'') (\<lambda>_. JInt 3) planning_host) = Fell_through" by code_simp
  then have run: "run_phase (sample_env ?f) (\<lambda>_. []) 200 ''t'' (JStr ''planning'') (\<lambda>_. JInt 3) planning_host =
    (Fell_through, snd (run_phase (sample_env ?f) (\<lambda>_. []) 200 ''t'' (JStr ''planning'') (\<lambda>_. JInt 3) planning_host))"
    by (simp add: prod_eq_iff)
  have f1: "ae_handlers (sample_env ?f) ''planning'' = Some ?f" by (simp add: sample_env_def)
  have f2: "?f (\<lambda>_. JInt 3) planning_host =
      (Inr (Some (result_retry [(''transient_retry_count'', JInt 4)])), planning_host)" by simp
  show ?thesis
    by (rule retry_count_of_patch_discarded [OF f1 f2 _ _ run]) (simp_all add: result_retry_def)
qed

end
