(* ===== verification/Tenant_Cache.thy ===== *)
theory Tenant_Cache
  imports Refresh_Cache Py_Text
begin

text \<open>
  The cache of the sensitive-keyword settings of the tenants,
  \<^verbatim>\<open>app/modules/workspace/tenant_config_cache.py\<close>: one dictionary for all tenants, whose
  entries carry their expiry. It provides the contract \<open>refresh_cache\<close> for every tenant.
\<close>

section \<open>The cache\<close>

record tenant_config =
  tc_block_sensitive_keyword :: bool
  tc_match_mode :: string

definition default_tenant_config :: tenant_config where
  "default_tenant_config = \<lparr>tc_block_sensitive_keyword = False, tc_match_mode = ''word_boundary''\<rparr>"

definition tenant_ttl :: int where
  "tenant_ttl = seconds 300"

type_synonym tenant_cache = "(int, tenant_config \<times> instant) dict"

text \<open>
  The two critical sections; the tenant is read between them, outside the lock. The answer of the
  database is an exception, or the settings of the tenant if it exists and has any.
\<close>

definition tenant_lookup :: "int \<Rightarrow> instant \<Rightarrow> tenant_cache \<Rightarrow> tenant_config option" where
  "tenant_lookup tid now c =
     (case map_of c tid of
        Some (config, expiry) \<Rightarrow> if expiry > now then Some config else None
      | None \<Rightarrow> None)"

definition tenant_store :: "int \<Rightarrow> instant \<Rightarrow> tenant_config \<Rightarrow> tenant_cache \<Rightarrow> tenant_cache" where
  "tenant_store tid now config c = AList.update tid (config, now + tenant_ttl) c"

definition fetched_config :: "tenant_config option result \<Rightarrow> tenant_config" where
  "fetched_config answer =
     (case answer of
        Inl e \<Rightarrow> default_tenant_config
      | Inr None \<Rightarrow> default_tenant_config
      | Inr (Some settings) \<Rightarrow> settings)"

definition get_tenant_sensitive_keyword_config ::
    "tenant_config option result \<Rightarrow> int \<Rightarrow> instant \<Rightarrow> tenant_cache \<Rightarrow> tenant_config \<times> tenant_cache" where
  "get_tenant_sensitive_keyword_config answer tid now c =
     (case tenant_lookup tid now c of
        Some config \<Rightarrow> (config, c)
      | None \<Rightarrow> (fetched_config answer, tenant_store tid now (fetched_config answer) c))"

definition invalidate_tenant_config_cache :: "int option \<Rightarrow> tenant_cache \<Rightarrow> tenant_cache" where
  "invalidate_tenant_config_cache tenant_id c =
     (case tenant_id of Some tid \<Rightarrow> AList.delete tid c | None \<Rightarrow> [])"

lemma tenant_lookup_store [simp]:
  "tenant_lookup tid now (tenant_store tid' t config c) =
     (if tid = tid' then (if now - t < tenant_ttl then Some config else None) else tenant_lookup tid now c)"
  by (auto simp: tenant_lookup_def tenant_store_def update_conv')

lemma tenant_lookup_invalidate [simp]:
  "tenant_lookup tid now (invalidate_tenant_config_cache who c) =
     (if who = None \<or> who = Some tid then None else tenant_lookup tid now c)"
  by (auto simp: tenant_lookup_def invalidate_tenant_config_cache_def delete_conv' split: option.split)

lemma tenant_lookup_Nil [simp]: "tenant_lookup tid now [] = None"
  by (simp add: tenant_lookup_def)

interpretation tenant_cache: refresh_cache "tenant_lookup tid" "tenant_store tid"
    "invalidate_tenant_config_cache (Some tid)" "[]" tenant_ttl for tid
  by unfold_locales simp_all

section \<open>Properties\<close>

text \<open>The settings served for a tenant are those the database answered with less than five minutes
  before, however the readers and the invalidations of the tenant interleave.\<close>

theorem tenant_config_bounded_staleness:
  assumes "fill_reach (tenant_lookup tid) (tenant_store tid) (invalidate_tenant_config_cache (Some tid))
      (\<lambda>t. fetched_config (answer t)) [] s"
    and "tenant_lookup tid (fs_now s) (fs_cache s) = Some config"
  shows "\<exists>t0. fs_now s - seconds 300 < t0 \<and> t0 \<le> fs_now s \<and> config = fetched_config (answer t0)"
  using tenant_cache.served_fresh [OF assms(1) order_refl assms(2)] by (simp add: tenant_ttl_def)

text \<open>The critical sections of all tenants.\<close>

datatype tenant_op = Store int instant tenant_config | Invalidate "int option"

fun exec_tenant_op :: "tenant_op \<Rightarrow> tenant_cache \<Rightarrow> tenant_cache" where
  "exec_tenant_op (Store tid now config) c = tenant_store tid now config c"
| "exec_tenant_op (Invalidate who) c = invalidate_tenant_config_cache who c"

fun concerns :: "int \<Rightarrow> tenant_op \<Rightarrow> bool" where
  "concerns tid (Store tid' now config) \<longleftrightarrow> tid' = tid"
| "concerns tid (Invalidate who) \<longleftrightarrow> who = None \<or> who = Some tid"

lemma lookup_exec_cong:
  "(\<And>now. tenant_lookup tid now c = tenant_lookup tid now d) \<Longrightarrow>
   tenant_lookup tid now (exec_tenant_op op c) = tenant_lookup tid now (exec_tenant_op op d)"
  by (cases op) simp_all

lemma lookup_exec_other: "\<not> concerns tid op \<Longrightarrow> tenant_lookup tid now (exec_tenant_op op c) = tenant_lookup tid now c"
  by (cases op) auto

lemma lookup_fold_cong:
  "(\<And>now. tenant_lookup tid now c = tenant_lookup tid now d) \<Longrightarrow>
   tenant_lookup tid now (fold exec_tenant_op ops c) = tenant_lookup tid now (fold exec_tenant_op (filter (concerns tid) ops) d)"
proof (induction ops arbitrary: c d)
  case (Cons op ops)
  show ?case
  proof (cases "concerns tid op")
    case True
    then show ?thesis using Cons.IH [OF lookup_exec_cong [OF Cons.prems]] by simp
  next
    case False
    then show ?thesis using Cons.IH [of "exec_tenant_op op c" d] Cons.prems lookup_exec_other by simp
  qed
qed simp

text \<open>What is served for a tenant does not depend on what happens to the other tenants: every
  interleaving of their reads and invalidations leaves its entry alone.\<close>

theorem tenant_cache_isolated:
  "tenant_lookup tid now (fold exec_tenant_op ops c) =
   tenant_lookup tid now (fold exec_tenant_op (filter (concerns tid) ops) c)"
  by (rule lookup_fold_cong) simp

text \<open>A failed read of the database switches the filter of sensitive keywords off: for the five minutes
  after it every request of the tenant gets the default, whatever its settings say by then.\<close>

theorem failed_read_disables_filter:
  assumes "tenant_lookup tid t c = None" and "t \<le> now" and "now < t + seconds 300"
    and "get_tenant_sensitive_keyword_config (Inl e) tid t c = (config, c')"
  shows "get_tenant_sensitive_keyword_config answer tid now c' = (default_tenant_config, c') \<and>
    config = default_tenant_config \<and> \<not> tc_block_sensitive_keyword default_tenant_config"
  using assms
  by (auto simp: get_tenant_sensitive_keyword_config_def fetched_config_def tenant_ttl_def default_tenant_config_def)

section \<open>Concrete instances\<close>

lemma tenant_config_bounded_staleness_witness:
  "\<exists>s t0. fill_reach (tenant_lookup 1) (tenant_store 1) (invalidate_tenant_config_cache (Some 1))
      (\<lambda>_. default_tenant_config) [] s \<and> fs_now s - seconds 300 < t0 \<and> t0 \<le> fs_now s"
proof -
  have src: "(\<lambda>t. fetched_config (Inr None)) = (\<lambda>_::instant. default_tenant_config)" by (simp add: fetched_config_def)
  have "(0::int) < 1" "1 - (0::int) < tenant_ttl" by (simp_all add: tenant_ttl_def)
  from tenant_cache.stale_after_invalidate [OF this, of 1 "\<lambda>_. default_tenant_config"]
  obtain s where s: "fill_reach (tenant_lookup 1) (tenant_store 1) (invalidate_tenant_config_cache (Some 1))
      (\<lambda>_. default_tenant_config) [] s" "fs_now s = 1"
      "tenant_lookup 1 1 (fs_cache s) = Some default_tenant_config"
    by (blast intro: fill_reach.step)
  then have "\<exists>t0. fs_now s - seconds 300 < t0 \<and> t0 \<le> fs_now s"
    using tenant_config_bounded_staleness [of 1 "\<lambda>_. Inr None" s default_tenant_config] unfolding src by auto
  with s(1) show ?thesis by blast
qed

lemma failed_read_disables_filter_witness:
  "fst (get_tenant_sensitive_keyword_config (Inr (Some \<lparr>tc_block_sensitive_keyword = True, tc_match_mode = []\<rparr>)) 1
     (seconds 299) (snd (get_tenant_sensitive_keyword_config (Inl DBError) 1 0 []))) = default_tenant_config"
  using failed_read_disables_filter [of 1 0 "[]" "seconds 299" DBError, OF _ _ _ prod.collapse [symmetric]]
  by (simp add: tenant_lookup_def)

end
