(* ===== verification/Relay_Store.thy ===== *)
theory Relay_Store
  imports Py_Text "HOL-Library.Countable"
begin

text \<open>
  The registration of relay connections in Redis,
  \<^verbatim>\<open>app/modules/workspace/relay_distributed_store.py\<close>, and the redirection that reads it
  (\<^verbatim>\<open>app/remote_ws_handler.py\<close>): the circuit breaker, the records and the five operations
  of a Pod. Redis is a parameter: the commands \<open>SET\<close>, \<open>GET\<close> and \<open>DEL\<close> on a state of its own,
  each of which may fail. An operation reads the clock once.
\<close>

section \<open>The circuit breaker\<close>

datatype breaker_state = Closed | Open | HalfOpen

record breaker =
  cb_failure_threshold :: int
  cb_recovery_timeout :: int
  cb_failure_count :: int
  cb_last_failure_time :: "instant option"
  cb_state :: breaker_state

definition new_breaker :: "int \<Rightarrow> int \<Rightarrow> breaker" where
  "new_breaker threshold timeout =
     \<lparr>cb_failure_threshold = threshold, cb_recovery_timeout = timeout, cb_failure_count = 0,
      cb_last_failure_time = None, cb_state = Closed\<rparr>"

definition record_success :: "breaker \<Rightarrow> breaker" where
  "record_success b = b\<lparr>cb_failure_count := 0, cb_state := Closed, cb_last_failure_time := None\<rparr>"

definition record_failure :: "instant \<Rightarrow> breaker \<Rightarrow> breaker" where
  "record_failure now b =
     (let n = cb_failure_count b + 1;
          b' = b\<lparr>cb_failure_count := n, cb_last_failure_time := Some now\<rparr>
      in if n \<ge> cb_failure_threshold b then b'\<lparr>cb_state := Open\<rparr> else b')"

definition is_open :: "instant \<Rightarrow> breaker \<Rightarrow> bool \<times> breaker" where
  "is_open now b =
     (if cb_state b = Open then
        (case cb_last_failure_time b of
           Some t \<Rightarrow>
             if t \<noteq> 0 \<and> now - t \<ge> cb_recovery_timeout b then (False, b\<lparr>cb_state := HalfOpen\<rparr>) else (True, b)
         | None \<Rightarrow> (True, b))
      else (False, b))"

definition is_available :: "instant \<Rightarrow> breaker \<Rightarrow> bool \<times> breaker" where
  "is_available now b = (let (opened, b') = is_open now b in (\<not> opened, b'))"

section \<open>Redis\<close>

text \<open>\<open>rd_set nx key value ex now\<close> is \<^verbatim>\<open>SET key value [NX] EX ex\<close>; its answer is whether it wrote.\<close>

record 's redis =
  rd_set :: "bool \<Rightarrow> string \<Rightarrow> string \<Rightarrow> int \<Rightarrow> instant \<Rightarrow> 's \<Rightarrow> bool result \<times> 's"
  rd_get :: "string \<Rightarrow> instant \<Rightarrow> 's \<Rightarrow> string option result \<times> 's"
  rd_delete :: "string \<Rightarrow> instant \<Rightarrow> 's \<Rightarrow> unit result \<times> 's"

text \<open>
  What Redis documents of these commands, in terms of the value that is visible at an instant: a
  command that fails changes nothing, \<open>SET\<close> writes unless \<open>NX\<close> finds a value, a written value is
  visible until it expires.
\<close>

definition redis_ok :: "'s redis \<Rightarrow> ('s \<Rightarrow> string \<Rightarrow> instant \<Rightarrow> string option) \<Rightarrow> bool" where
  "redis_ok R view \<longleftrightarrow>
     (\<forall>k now s r s'. rd_get R k now s = (r, s') \<longrightarrow> view s' = view s \<and> (\<forall>v. r = Inr v \<longrightarrow> v = view s k now)) \<and>
     (\<forall>nx k v ex now s r s'. rd_set R nx k v ex now s = (r, s') \<longrightarrow>
        (if r = Inr True then (nx \<longrightarrow> view s k now = None) \<and>
           (\<forall>k' t. now \<le> t \<longrightarrow> view s' k' t =
              (if k' = k then if t < now + seconds ex then Some v else None else view s k' t))
         else view s' = view s \<and> (r = Inr False \<longrightarrow> nx \<and> view s k now \<noteq> None))) \<and>
     (\<forall>k now s r s'. rd_delete R k now s = (r, s') \<longrightarrow>
        (if r = Inr () then \<forall>k' t. now \<le> t \<longrightarrow> view s' k' t = (if k' = k then None else view s k' t)
         else view s' = view s))"

section \<open>Records\<close>

datatype relay_status = Active | Pending | Disconnected
datatype relay_type = Terminal | Vscode

fun status_value :: "relay_status \<Rightarrow> string" where
  "status_value Active = ''active''"
| "status_value Pending = ''pending''"
| "status_value Disconnected = ''disconnected''"

definition status_of :: "json \<Rightarrow> relay_status result" where
  "status_of v =
     (if v = JStr ''active'' then Inr Active
      else if v = JStr ''pending'' then Inr Pending
      else if v = JStr ''disconnected'' then Inr Disconnected
      else Inl ValueError)"

fun type_value :: "relay_type \<Rightarrow> string" where
  "type_value Terminal = ''terminal''"
| "type_value Vscode = ''vscode''"

record relay_state =
  rs_owner_pod :: json
  rs_owner_namespace :: json
  rs_status :: relay_status
  rs_registered_at :: json
  rs_last_heartbeat :: json

definition to_dict :: "relay_state \<Rightarrow> json" where
  "to_dict st =
     JObj [(''owner_pod'', rs_owner_pod st), (''owner_namespace'', rs_owner_namespace st),
       (''status'', JStr (status_value (rs_status st))), (''registered_at'', rs_registered_at st),
       (''last_heartbeat'', rs_last_heartbeat st)]"

definition required :: "json \<Rightarrow> string \<Rightarrow> json result" where
  "required v k =
     (case v of
        JObj kvs \<Rightarrow> (case map_of kvs k of Some x \<Rightarrow> Inr x | None \<Rightarrow> Inl KeyError)
      | _ \<Rightarrow> Inl TypeError)"

definition from_dict :: "json \<Rightarrow> relay_state result" where
  "from_dict data =
     rbind (required data ''owner_pod'') (\<lambda>pod.
     rbind (required data ''owner_namespace'') (\<lambda>ns.
     rbind (required data ''status'') (\<lambda>sv.
     rbind (status_of sv) (\<lambda>status.
     rbind (required data ''registered_at'') (\<lambda>reg.
       Inr \<lparr>rs_owner_pod = pod, rs_owner_namespace = ns, rs_status = status, rs_registered_at = reg,
            rs_last_heartbeat = jget data ''last_heartbeat''\<rparr>)))))"

definition key_ttl :: int where
  "key_ttl = 300"

definition make_key :: "relay_type \<Rightarrow> string \<Rightarrow> string" where
  "make_key relay_type relay_id = ''relay:'' @ type_value relay_type @ '':'' @ relay_id"

lemma to_dict_roundtrip [simp]: "from_dict (to_dict st) = Inr st"
  by (cases "rs_status st") (simp_all add: from_dict_def to_dict_def required_def status_of_def jget_def)

section \<open>A Pod\<close>

record 's relay_env =
  re_redis :: "'s redis"
  re_dumps :: "json \<Rightarrow> string"
  re_loads :: "string \<Rightarrow> json option"
  re_stamp :: "instant \<Rightarrow> string"

text \<open>\<open>rp_client\<close>: a Redis client has been created.\<close>

record relay_pod =
  rp_pod_name :: string
  rp_namespace :: string
  rp_client :: bool
  rp_breaker :: breaker

definition new_pod :: "string option \<Rightarrow> string option \<Rightarrow> string option \<Rightarrow> bool \<Rightarrow> relay_pod" where
  "new_pod pod_name env_name env_namespace client =
     \<lparr>rp_pod_name = (if truthy_str pod_name then the pod_name
                     else if truthy_str env_name then the env_name else ''unknown''),
      rp_namespace = (if truthy_str env_namespace then the env_namespace else ''open-ace''),
      rp_client = client, rp_breaker = new_breaker 5 (seconds 60)\<rparr>"

definition pod_success :: "relay_pod \<Rightarrow> relay_pod" where
  "pod_success p = p\<lparr>rp_breaker := record_success (rp_breaker p)\<rparr>"

definition pod_failure :: "instant \<Rightarrow> relay_pod \<Rightarrow> relay_pod" where
  "pod_failure now p = p\<lparr>rp_breaker := record_failure now (rp_breaker p)\<rparr>"

definition pod_available :: "instant \<Rightarrow> relay_pod \<Rightarrow> bool \<times> relay_pod" where
  "pod_available now p = (let (ok, b) = is_available now (rp_breaker p) in (ok, p\<lparr>rp_breaker := b\<rparr>))"

text \<open>
  How the lazy creation of the client goes: the package is missing, the settings are refused, the
  client is created but does not answer a ping, or it answers. The client is kept before it is
  pinged.
\<close>

datatype connection = NoPackage | SetupFailed | PingFailed | Connected

definition get_redis :: "connection \<Rightarrow> instant \<Rightarrow> relay_pod \<Rightarrow> bool \<times> relay_pod" where
  "get_redis conn now p =
     (if rp_client p then (True, p)
      else case conn of
        NoPackage \<Rightarrow> (False, p)
      | SetupFailed \<Rightarrow> (False, pod_failure now p)
      | PingFailed \<Rightarrow> (False, pod_failure now (p\<lparr>rp_client := True\<rparr>))
      | Connected \<Rightarrow> (True, p\<lparr>rp_client := True\<rparr>))"

definition pod_ready :: "connection \<Rightarrow> instant \<Rightarrow> relay_pod \<Rightarrow> bool \<times> relay_pod" where
  "pod_ready conn now p =
     (let (ok, p1) = pod_available now p in if ok then get_redis conn now p1 else (False, p1))"

section \<open>The operations\<close>

definition own_state :: "'s relay_env \<Rightarrow> relay_status \<Rightarrow> bool \<Rightarrow> instant \<Rightarrow> relay_pod \<Rightarrow> relay_state" where
  "own_state E status heartbeat now p =
     \<lparr>rs_owner_pod = JStr (rp_pod_name p), rs_owner_namespace = JStr (rp_namespace p), rs_status = status,
      rs_registered_at = JStr (re_stamp E now),
      rs_last_heartbeat = (if heartbeat then JStr (re_stamp E now) else JNull)\<rparr>"

text \<open>\<^verbatim>\<open>SET NX EX\<close> of a new record, the body that \<^verbatim>\<open>register_relay\<close> and \<^verbatim>\<open>set_pending\<close> share.\<close>

definition set_new ::
    "'s relay_env \<Rightarrow> relay_status \<Rightarrow> bool \<Rightarrow> connection \<Rightarrow> string \<Rightarrow> instant \<Rightarrow> relay_pod \<Rightarrow> 's \<Rightarrow>
     bool \<times> relay_pod \<times> 's" where
  "set_new E status heartbeat conn key now p s =
     (let (ready, p1) = pod_ready conn now p in
      if \<not> ready then (False, p1, s)
      else case rd_set (re_redis E) True key (re_dumps E (to_dict (own_state E status heartbeat now p1))) key_ttl now s of
        (Inl e, s') \<Rightarrow> (False, pod_failure now p1, s')
      | (Inr done, s') \<Rightarrow> (done, pod_success p1, s'))"

definition register_relay ::
    "'s relay_env \<Rightarrow> connection \<Rightarrow> string \<Rightarrow> instant \<Rightarrow> relay_pod \<Rightarrow> 's \<Rightarrow> bool \<times> relay_pod \<times> 's" where
  "register_relay E = set_new E Active True"

definition set_pending ::
    "'s relay_env \<Rightarrow> connection \<Rightarrow> string \<Rightarrow> instant \<Rightarrow> relay_pod \<Rightarrow> 's \<Rightarrow> bool \<times> relay_pod \<times> 's" where
  "set_pending E = set_new E Pending False"

definition get_relay_owner ::
    "'s relay_env \<Rightarrow> connection \<Rightarrow> string \<Rightarrow> instant \<Rightarrow> relay_pod \<Rightarrow> 's \<Rightarrow>
     relay_state option \<times> relay_pod \<times> 's" where
  "get_relay_owner E conn key now p s =
     (let (ready, p1) = pod_ready conn now p in
      if \<not> ready then (None, p1, s)
      else case rd_get (re_redis E) key now s of
        (Inl e, s') \<Rightarrow> (None, pod_failure now p1, s')
      | (Inr None, s') \<Rightarrow> (None, p1, s')
      | (Inr (Some data), s') \<Rightarrow>
          (case re_loads E data of
             None \<Rightarrow> (None, pod_failure now p1, s')
           | Some d \<Rightarrow>
               (case from_dict d of
                  Inl e \<Rightarrow> (None, pod_failure now (pod_success p1), s')
                | Inr st \<Rightarrow> (Some st, pod_success p1, s'))))"

text \<open>What follows the check of the owner; other Pods may act in between.\<close>

definition unregister_delete ::
    "'s relay_env \<Rightarrow> string \<Rightarrow> instant \<Rightarrow> relay_pod \<Rightarrow> 's \<Rightarrow> bool \<times> relay_pod \<times> 's" where
  "unregister_delete E key now p s =
     (case rd_delete (re_redis E) key now s of
        (Inl e, s') \<Rightarrow> (False, pod_failure now p, s')
      | (Inr _, s') \<Rightarrow> (True, pod_success p, s'))"

definition heartbeat_write ::
    "'s relay_env \<Rightarrow> string \<Rightarrow> relay_state \<Rightarrow> instant \<Rightarrow> relay_pod \<Rightarrow> 's \<Rightarrow> bool \<times> relay_pod \<times> 's" where
  "heartbeat_write E key st now p s =
     (case rd_set (re_redis E) False key
             (re_dumps E (to_dict (st\<lparr>rs_last_heartbeat := JStr (re_stamp E now)\<rparr>))) key_ttl now s of
        (Inl e, s') \<Rightarrow> (False, pod_failure now p, s')
      | (Inr _, s') \<Rightarrow> (True, pod_success p, s'))"

definition unregister_relay ::
    "'s relay_env \<Rightarrow> connection \<Rightarrow> string \<Rightarrow> instant \<Rightarrow> relay_pod \<Rightarrow> 's \<Rightarrow> bool \<times> relay_pod \<times> 's" where
  "unregister_relay E conn key now p s =
     (let (ready, p1) = pod_ready conn now p in
      if \<not> ready then (False, p1, s)
      else
        let (owner, p2, s2) = get_relay_owner E conn key now p1 s
        in case owner of
             None \<Rightarrow> (True, p2, s2)
           | Some st \<Rightarrow>
               if rs_owner_pod st \<noteq> JStr (rp_pod_name p2) then (False, p2, s2)
               else unregister_delete E key now p2 s2)"

definition heartbeat ::
    "'s relay_env \<Rightarrow> connection \<Rightarrow> string \<Rightarrow> instant \<Rightarrow> relay_pod \<Rightarrow> 's \<Rightarrow> bool \<times> relay_pod \<times> 's" where
  "heartbeat E conn key now p s =
     (let (ready, p1) = pod_ready conn now p in
      if \<not> ready then (False, p1, s)
      else
        let (owner, p2, s2) = get_relay_owner E conn key now p1 s
        in case owner of
             None \<Rightarrow> (False, p2, s2)
           | Some st \<Rightarrow>
               if rs_owner_pod st \<noteq> JStr (rp_pod_name p2) then (False, p2, s2)
               else heartbeat_write E key st now p2 s2)"

section \<open>Redirection\<close>

text \<open>\<open>path\<close> and \<open>query\<close> are those of the request, \<open>namespace\<close> the environment's.\<close>

definition build_redirect_url :: "string option \<Rightarrow> string \<Rightarrow> string \<Rightarrow> string \<Rightarrow> string \<Rightarrow> string" where
  "build_redirect_url namespace path query owner_pod token =
     (let base = ''ws://'' @ owner_pod @ ''.open-ace-headless.'' @
            (case namespace of Some n \<Rightarrow> n | None \<Rightarrow> ''open-ace'') @ ''.svc.cluster.local:19888'' @ path;
          url = (if query = [] then base else base @ ''?'' @ query)
      in if \<not> py_contains ''token='' url \<and> token \<noteq> []
         then url @ (if py_contains ''?'' url then ''&'' else ''?'') @ ''token='' @ token
         else url)"

definition check_relay_redirect ::
    "'s relay_env \<Rightarrow> (json \<Rightarrow> string) \<Rightarrow> string option \<Rightarrow> (string \<Rightarrow> string) \<Rightarrow> connection \<Rightarrow> string \<Rightarrow>
     instant \<Rightarrow> relay_pod \<Rightarrow> 's \<Rightarrow> string option \<times> relay_pod \<times> 's" where
  "check_relay_redirect E py_str env_name build_url conn key now p s =
     (let (ok, p1) = pod_available now p in
      if \<not> ok then (None, p1, s)
      else
        let (owner, p2, s2) = get_relay_owner E conn key now p1 s
        in case owner of
             None \<Rightarrow> (None, p2, s2)
           | Some st \<Rightarrow>
               if rs_owner_pod st = JStr (case env_name of Some n \<Rightarrow> n | None \<Rightarrow> ''unknown'') then (None, p2, s2)
               else (Some (build_url (py_str (rs_owner_pod st))), p2, s2))"

section \<open>The breaker over its history\<close>

datatype breaker_event = Succeeded | FailedAt instant | PolledAt instant

fun breaker_step :: "breaker_event \<Rightarrow> breaker \<Rightarrow> breaker" where
  "breaker_step Succeeded b = record_success b"
| "breaker_step (FailedAt now) b = record_failure now b"
| "breaker_step (PolledAt now) b = snd (is_open now b)"

text \<open>The failures since the last success, and the last of them.\<close>

fun failures :: "breaker_event list \<Rightarrow> instant list" where
  "failures [] = []"
| "failures (e # es) =
     (case e of Succeeded \<Rightarrow> failures es
      | FailedAt t \<Rightarrow> if Succeeded \<in> set es then failures es else t # failures es
      | PolledAt t \<Rightarrow> failures es)"

lemma failures_snoc:
  "failures (es @ [e]) = (case e of Succeeded \<Rightarrow> [] | FailedAt t \<Rightarrow> failures es @ [t] | PolledAt t \<Rightarrow> failures es)"
  by (induction es) (auto split: breaker_event.splits)

definition breaker_run :: "int \<Rightarrow> int \<Rightarrow> breaker_event list \<Rightarrow> breaker" where
  "breaker_run threshold timeout es = fold breaker_step es (new_breaker threshold timeout)"

lemma breaker_run_snoc: "breaker_run n d (es @ [e]) = breaker_step e (breaker_run n d es)"
  by (simp add: breaker_run_def)

lemma breaker_inv:
  assumes "0 < n"
  shows "cb_failure_threshold (breaker_run n d es) = n \<and> cb_recovery_timeout (breaker_run n d es) = d \<and>
    cb_failure_count (breaker_run n d es) = int (length (failures es)) \<and>
    cb_last_failure_time (breaker_run n d es) = (if failures es = [] then None else Some (last (failures es))) \<and>
    (cb_state (breaker_run n d es) = Closed \<longleftrightarrow> int (length (failures es)) < n)"
proof (induction es rule: rev_induct)
  case Nil
  show ?case using assms by (simp add: breaker_run_def new_breaker_def)
next
  case (snoc e es)
  then show ?case
    using assms
    by (cases e)
      (auto simp: breaker_run_snoc failures_snoc record_success_def record_failure_def is_open_def Let_def
        split: option.splits if_splits)
qed

text \<open>The breaker is closed exactly while fewer than the threshold of failures have been recorded since
  the last recorded success; it refuses a request exactly when it is open and the last failure is
  younger than the recovery time.\<close>

theorem breaker_refuses_iff:
  assumes "0 < n" and "0 \<notin> set (failures es)"
  shows "(cb_state (breaker_run n d es) = Closed \<longleftrightarrow> int (length (failures es)) < n) \<and>
    (fst (is_open now (breaker_run n d es)) \<longleftrightarrow>
       cb_state (breaker_run n d es) = Open \<and> now - last (failures es) < d)"
proof -
  note inv = breaker_inv [OF assms(1), of d es]
  have "cb_state (breaker_run n d es) = Open \<Longrightarrow> failures es \<noteq> []"
    using inv assms(1) by (metis breaker_state.distinct(1) list.size(3) of_nat_0)
  moreover from this have "cb_state (breaker_run n d es) = Open \<Longrightarrow> last (failures es) \<noteq> 0"
    using assms(2) last_in_set by metis
  ultimately show ?thesis using inv by (auto simp: is_open_def split: if_splits)
qed

text \<open>Once the recovery time has passed, the breaker lets every request through, not one as a probe, until
  the result of one of them is recorded; one failure then closes it to requests again.\<close>

theorem half_open_admits_all:
  assumes "0 < n" and "cb_state (breaker_run n d es) = HalfOpen" and "set polls \<subseteq> range PolledAt"
  shows "\<not> fst (is_open now (breaker_run n d (es @ polls))) \<and>
    cb_state (breaker_run n d (es @ polls)) = HalfOpen \<and>
    cb_state (breaker_run n d (es @ polls @ [FailedAt t])) = Open"
proof -
  have st: "cb_state (breaker_run n d (es @ polls)) = HalfOpen"
    using assms(3)
  proof (induction polls rule: rev_induct)
    case (snoc x xs)
    then show ?case by (auto simp: breaker_run_snoc simp flip: append_assoc) (auto simp: is_open_def)
  qed (simp add: assms(2))
  moreover have "int (length (failures (es @ polls))) \<ge> n"
    using breaker_inv [OF assms(1), of d "es @ polls"] st by auto
  then have "cb_state (breaker_run n d ((es @ polls) @ [FailedAt t])) = Open"
    using breaker_inv [OF assms(1), of d "es @ polls"]
    by (simp add: breaker_run_snoc record_failure_def Let_def del: append_assoc)
  ultimately show ?thesis by (simp add: is_open_def)
qed

section \<open>Facts about the operations\<close>

lemma pod_name_simps [simp]:
  "rp_pod_name (pod_success p) = rp_pod_name p"
  "rp_pod_name (pod_failure now p) = rp_pod_name p"
  "rp_pod_name (p\<lparr>rp_breaker := b\<rparr>) = rp_pod_name p"
  by (simp_all add: pod_success_def pod_failure_def)

lemma pod_ready_name: "pod_ready conn now p = (r, p') \<Longrightarrow> rp_pod_name p' = rp_pod_name p"
  by (auto simp: pod_ready_def pod_available_def get_redis_def Let_def split: prod.splits if_splits connection.splits)

lemma get_relay_owner_name: "get_relay_owner E conn key now p s = (r, p', s') \<Longrightarrow> rp_pod_name p' = rp_pod_name p"
  by (auto simp: get_relay_owner_def Let_def dest!: pod_ready_name split: prod.splits if_splits sum.splits option.splits)

text \<open>A breaker that refuses keeps every operation from sending a command.\<close>

definition refuses :: "instant \<Rightarrow> relay_pod \<Rightarrow> bool" where
  "refuses now p \<longleftrightarrow> fst (is_open now (rp_breaker p))"

lemma refuses_ready: "refuses now p \<Longrightarrow> \<exists>p'. pod_ready conn now p = (False, p')"
  by (auto simp: refuses_def pod_ready_def pod_available_def is_available_def Let_def split: prod.splits)

text \<open>While the breaker refuses, no operation sends a command: every one answers as if there were no
  Redis, and what is stored is unchanged.\<close>

theorem refusing_breaker_sends_nothing:
  assumes "refuses now p"
  shows "(\<exists>p'. register_relay E conn key now p s = (False, p', s)) \<and>
    (\<exists>p'. set_pending E conn key now p s = (False, p', s)) \<and>
    (\<exists>p'. get_relay_owner E conn key now p s = (None, p', s)) \<and>
    (\<exists>p'. unregister_relay E conn key now p s = (False, p', s)) \<and>
    (\<exists>p'. heartbeat E conn key now p s = (False, p', s)) \<and>
    (\<exists>p'. check_relay_redirect E py_str env_name build_url conn key now p s = (None, p', s))"
proof -
  obtain p' where r: "pod_ready conn now p = (False, p')" using refuses_ready [OF assms] by blast
  then have "\<exists>p'. check_relay_redirect E py_str env_name build_url conn key now p s = (None, p', s)"
    using assms
    by (auto simp: check_relay_redirect_def refuses_def pod_available_def is_available_def Let_def split: prod.splits)
  with r show ?thesis
    by (simp add: register_relay_def set_pending_def set_new_def get_relay_owner_def unregister_relay_def heartbeat_def)
qed

section \<open>Registrations of several Pods\<close>

text \<open>The value under the key belongs to the Pod \<open>owner\<close> and stays visible from \<open>now\<close> until \<open>e\<close>.\<close>

definition registered ::
    "'s relay_env \<Rightarrow> ('s \<Rightarrow> string \<Rightarrow> instant \<Rightarrow> string option) \<Rightarrow> string \<Rightarrow> string \<Rightarrow> instant \<Rightarrow> instant \<Rightarrow>
     's \<Rightarrow> bool" where
  "registered E view key owner now e s \<longleftrightarrow>
     (\<exists>v d st. (\<forall>t. now \<le> t \<and> t < e \<longrightarrow> view s key t = Some v) \<and> re_loads E v = Some d \<and>
        from_dict d = Inr st \<and> rs_owner_pod st = JStr owner)"

datatype relay_request = Register | Await | Unregister | Beat | LookUp

fun relay_exec ::
    "'s relay_env \<Rightarrow> string \<Rightarrow> relay_request \<times> connection \<times> instant \<times> relay_pod \<Rightarrow> 's \<Rightarrow> 's" where
  "relay_exec E key (Register, conn, now, p) s = snd (snd (register_relay E conn key now p s))"
| "relay_exec E key (Await, conn, now, p) s = snd (snd (set_pending E conn key now p s))"
| "relay_exec E key (Unregister, conn, now, p) s = snd (snd (unregister_relay E conn key now p s))"
| "relay_exec E key (Beat, conn, now, p) s = snd (snd (heartbeat E conn key now p s))"
| "relay_exec E key (LookUp, conn, now, p) s = snd (snd (get_relay_owner E conn key now p s))"

definition request_time :: "relay_request \<times> connection \<times> instant \<times> relay_pod \<Rightarrow> instant" where
  "request_time x = fst (snd (snd x))"

definition request_pod :: "relay_request \<times> connection \<times> instant \<times> relay_pod \<Rightarrow> string" where
  "request_pod x = rp_pod_name (snd (snd (snd x)))"

lemma registered_later: "registered E view key owner n e s \<Longrightarrow> n \<le> now \<Longrightarrow> registered E view key owner now e s"
  unfolding registered_def by (meson order_trans)

lemma registered_view: "view s' = view s \<Longrightarrow> registered E view key owner now e s' = registered E view key owner now e s"
  by (simp add: registered_def)

lemma redis_setD:
  assumes "redis_ok R view" and "rd_set R nx k v ex now s = (r, s')"
  shows "if r = Inr True then (nx \<longrightarrow> view s k now = None) \<and>
          (\<forall>k' t. now \<le> t \<longrightarrow> view s' k' t = (if k' = k then if t < now + seconds ex then Some v else None else view s k' t))
        else view s' = view s \<and> (r = Inr False \<longrightarrow> nx \<and> view s k now \<noteq> None)"
  using assms unfolding redis_ok_def by blast

lemma redis_set_nx_refused:
  assumes "redis_ok R view" and "rd_set R True k v ex now s = (r, s')" and "view s k now \<noteq> None"
  shows "r \<noteq> Inr True \<and> view s' = view s"
  using redis_setD [OF assms(1,2)] assms(3) by (auto split: if_splits)

lemma redis_set_written:
  assumes "redis_ok R view" and "rd_set R nx k v ex now s = (Inr True, s')" and "now \<le> t" and "t < now + seconds ex"
  shows "view s' k t = Some v"
  using redis_setD [OF assms(1,2)] assms(3,4) by simp

lemma redis_set_writes:
  assumes "redis_ok R view" and "rd_set R False k v ex now s = (Inr b, s')"
  shows "b"
  using redis_setD [OF assms] by (auto split: if_splits)

lemma redis_deleted:
  assumes "redis_ok R view" and "rd_delete R k now s = (Inr (), s')"
  shows "view s' k now = None"
proof -
  have "if Inr () = (Inr () :: unit result) then \<forall>k' t. now \<le> t \<longrightarrow> view s' k' t = (if k' = k then None else view s k' t)
      else view s' = view s"
    using assms unfolding redis_ok_def by blast
  then show ?thesis by simp
qed

lemma set_new_refused:
  assumes "redis_ok (re_redis E) view" and "registered E view key owner now e s" and "now < e"
    and "set_new E status hb conn key now p s = (r, p', s')"
  shows "\<not> r \<and> view s' = view s"
proof -
  have "view s key now \<noteq> None" using assms(2,3) by (auto simp: registered_def)
  then have rd: "rd_set (re_redis E) True key v key_ttl now s = (x, s2) \<Longrightarrow> x \<noteq> Inr True \<and> view s2 = view s" for v x s2
    using redis_set_nx_refused [OF assms(1)] by blast
  from assms(4) show ?thesis
    by (auto simp: set_new_def Let_def dest: rd split: prod.splits if_splits sum.splits)
qed

lemma owner_read:
  assumes "redis_ok (re_redis E) view" and "registered E view key owner now e s" and "now < e"
    and "get_relay_owner E conn key now p s = (r, p', s')"
  shows "view s' = view s \<and> (\<forall>st. r = Some st \<longrightarrow> rs_owner_pod st = JStr owner)"
proof -
  obtain v d st where v: "view s key now = Some v" "re_loads E v = Some d" "from_dict d = Inr st" "rs_owner_pod st = JStr owner"
    using assms(2,3) by (auto simp: registered_def)
  have rd: "rd_get (re_redis E) key now s = (x, s2) \<Longrightarrow> view s2 = view s \<and> (\<forall>w. x = Inr w \<longrightarrow> w = Some v)" for x s2
    using assms(1) v(1) unfolding redis_ok_def by metis
  show ?thesis
    using assms(4) v(2-4)
    by (auto simp: get_relay_owner_def Let_def dest!: rd split: prod.splits if_splits sum.splits option.splits)
qed

lemma foreign_request:
  assumes ok: "redis_ok (re_redis E) view" and reg: "registered E view key owner n e s"
    and t: "n \<le> request_time x" "request_time x < e" and foreign: "request_pod x \<noteq> owner"
  shows "view (relay_exec E key x s) = view s"
proof -
  obtain q conn now p where x: "x = (q, conn, now, p)" by (cases x) auto
  have reg': "registered E view key owner now e s" and lt: "now < e" and name: "rp_pod_name p \<noteq> owner"
    using registered_later [OF reg] t foreign by (simp_all add: x request_time_def request_pod_def)
  have rd: "view s' = view s \<and> rp_pod_name p' = rp_pod_name p1 \<and> (\<forall>st. r = Some st \<longrightarrow> rs_owner_pod st = JStr owner)"
    if "get_relay_owner E conn key now p1 s = (r, p', s')" for p1 r p' s'
    using owner_read [OF ok reg' lt that] get_relay_owner_name [OF that] by simp
  show ?thesis
  proof (cases q)
    case Register
    obtain r p' s' where "set_new E Active True conn key now p s = (r, p', s')" by (metis prod_cases3)
    with set_new_refused [OF ok reg' lt this] Register x show ?thesis by (simp add: register_relay_def)
  next
    case Await
    obtain r p' s' where "set_new E Pending False conn key now p s = (r, p', s')" by (metis prod_cases3)
    with set_new_refused [OF ok reg' lt this] Await x show ?thesis by (simp add: set_pending_def)
  next
    case LookUp
    then show ?thesis using x rd [of p] by (cases "get_relay_owner E conn key now p s") simp
  next
    case Unregister
    have "view s' = view s" if "unregister_relay E conn key now p s = (r, p', s')" for r p' s'
      using that name
      by (auto simp: unregister_relay_def Let_def dest!: pod_ready_name rd split: prod.splits if_splits option.splits)
    then show ?thesis using Unregister x by (cases "unregister_relay E conn key now p s") simp
  next
    case Beat
    have "view s' = view s" if "heartbeat E conn key now p s = (r, p', s')" for r p' s'
      using that name
      by (auto simp: heartbeat_def Let_def dest!: pod_ready_name rd split: prod.splits if_splits option.splits)
    then show ?thesis using Beat x by (cases "heartbeat E conn key now p s") simp
  qed
qed

text \<open>A registration that is visible stays with its Pod until it expires, whatever the other Pods
  request meanwhile and whichever of their commands fail: each of their registrations is refused.\<close>

theorem registration_excludes_other_pods:
  assumes "redis_ok (re_redis E) view" and "registered E view key owner now e s"
    and "\<And>x. x \<in> set requests \<Longrightarrow> request_pod x \<noteq> owner \<and> now \<le> request_time x \<and> request_time x < e"
    and "now \<le> t" and "t < e"
  shows "registered E view key owner now e (fold (relay_exec E key) requests s) \<and>
    \<not> fst (register_relay E conn key t p (fold (relay_exec E key) requests s))"
proof -
  have v: "view (fold (relay_exec E key) requests s) = view s"
    using assms(2,3)
  proof (induction requests arbitrary: s)
    case (Cons x xs)
    have x: "request_pod x \<noteq> owner" "now \<le> request_time x" "request_time x < e" using Cons.prems(2) [of x] by auto
    have v: "view (relay_exec E key x s) = view s" by (rule foreign_request [OF assms(1) Cons.prems(1) x(2,3,1)])
    have "view (fold (relay_exec E key) xs (relay_exec E key x s)) = view (relay_exec E key x s)"
    proof (rule Cons.IH)
      show "registered E view key owner now e (relay_exec E key x s)"
        using Cons.prems(1) registered_view [OF v] by blast
    qed (use Cons.prems(2) in auto)
    with v show ?case by simp
  qed simp
  then have reg: "registered E view key owner now e (fold (relay_exec E key) requests s)"
    using assms(2) registered_view [OF v] by blast
  obtain r p' s' where n: "set_new E Active True conn key t p (fold (relay_exec E key) requests s) = (r, p', s')"
    by (metis prod_cases3)
  have "\<not> r" using set_new_refused [OF assms(1) registered_later [OF reg assms(4)] assms(5) n] by simp
  with reg n show ?thesis by (simp add: register_relay_def)
qed

section \<open>Checks that are not atomic\<close>

text \<open>The check of the owner and the command after it are not one step: a Pod whose registration
  expires in between deletes, or overwrites with its own, the registration another Pod has made
  since, although that Pod was told that it succeeded and its record has not expired.\<close>

theorem stale_owner_clobbers:
  assumes ok: "redis_ok (re_redis E) view" and dumps: "\<And>j. re_loads E (re_dumps E j) = Some j"
    and own: "get_relay_owner E conn key t0 p s = (Some st, p', s')" "rs_owner_pod st = JStr (rp_pod_name p)"
    and reg: "register_relay E conn' key t1 q s' = (True, q', s1)"
    and late: "t1 \<le> t2" "t2 < t1 + seconds key_ttl"
  shows "registered E view key (rp_pod_name q) t1 (t1 + seconds key_ttl) s1 \<and>
    (unregister_delete E key t2 p' s1 = (True, p2, s2) \<longrightarrow> view s2 key t2 = None) \<and>
    (heartbeat_write E key st t2 p' s1 = (True, p2, s2) \<longrightarrow>
       registered E view key (rp_pod_name p) t2 (t2 + seconds key_ttl) s2)"
proof (intro conjI impI)
  have stored: "registered E view key (rp_pod_name r) t (t + seconds key_ttl) s'"
    if "rd_set (re_redis E) nx key (re_dumps E (to_dict x)) key_ttl t s = (Inr True, s')" and "rs_owner_pod x = JStr (rp_pod_name r)"
    for nx x t s s' r
  proof -
    have "\<forall>u. t \<le> u \<and> u < t + seconds key_ttl \<longrightarrow> view s' key u = Some (re_dumps E (to_dict x))"
      using redis_set_written [OF ok that(1)] by blast
    then show ?thesis using dumps that(2) unfolding registered_def by auto
  qed
  show "registered E view key (rp_pod_name q) t1 (t1 + seconds key_ttl) s1"
    using reg
    by (auto simp: register_relay_def set_new_def own_state_def Let_def dest!: pod_ready_name
        split: prod.splits if_splits sum.splits intro!: stored)
  show "view s2 key t2 = None" if "unregister_delete E key t2 p' s1 = (True, p2, s2)"
  proof -
    have "rd_delete (re_redis E) key t2 s1 = (Inr (), s2)"
      using that by (auto simp: unregister_delete_def split: prod.splits sum.splits)
    then show ?thesis by (rule redis_deleted [OF ok])
  qed
  show "registered E view key (rp_pod_name p) t2 (t2 + seconds key_ttl) s2"
    if hb: "heartbeat_write E key st t2 p' s1 = (True, p2, s2)"
  proof -
    obtain b where set: "rd_set (re_redis E) False key
        (re_dumps E (to_dict (st\<lparr>rs_last_heartbeat := JStr (re_stamp E t2)\<rparr>))) key_ttl t2 s1 = (Inr b, s2)"
      using hb by (auto simp: heartbeat_write_def split: prod.splits sum.splits)
    then have "b" by (rule redis_set_writes [OF ok])
    with set stored [of False "st\<lparr>rs_last_heartbeat := JStr (re_stamp E t2)\<rparr>" t2 s1 s2 p] own(2) show ?thesis by simp
  qed
qed

text \<open>An unregistration whose read of the owner fails answers that it succeeded and sends no deletion:
  the record stays, and other Pods keep redirecting to this one until it expires.\<close>

theorem failed_read_reports_unregistered:
  assumes "pod_ready conn now p = (True, p1)" and "pod_ready conn now p1 = (True, p2)"
    and "rd_get (re_redis E) key now s = (Inl err, s')"
  shows "unregister_relay E conn key now p s = (True, pod_failure now p2, s')"
  using assms by (simp add: unregister_relay_def get_relay_owner_def)

section \<open>Concrete instances\<close>

text \<open>A Redis that never fails, and a printer of JSON values that can be read back.\<close>

type_synonym memory = "(string, string \<times> instant) dict"

definition memory_view :: "memory \<Rightarrow> string \<Rightarrow> instant \<Rightarrow> string option" where
  "memory_view s k t = (case map_of s k of Some (v, e) \<Rightarrow> if t < e then Some v else None | None \<Rightarrow> None)"

definition memory_redis :: "memory redis" where
  "memory_redis =
     \<lparr>rd_set = (\<lambda>nx k v ex now s. if nx \<and> memory_view s k now \<noteq> None then (Inr False, s)
        else (Inr True, AList.update k (v, now + seconds ex) s)),
      rd_get = (\<lambda>k now s. (Inr (memory_view s k now), s)),
      rd_delete = (\<lambda>k now s. (Inr (), AList.delete k s))\<rparr>"

lemma memory_redis_ok: "redis_ok memory_redis memory_view"
  by (auto simp: redis_ok_def memory_redis_def memory_view_def update_conv' delete_conv' split: if_splits)

instance json :: countable
  by countable_datatype

definition sample_relay_env :: "memory relay_env" where
  "sample_relay_env =
     \<lparr>re_redis = memory_redis, re_dumps = (\<lambda>j. replicate (to_nat j) CHR ''1''),
      re_loads = (\<lambda>s. Some (from_nat (length s))), re_stamp = (\<lambda>_. ''t'')\<rparr>"

abbreviation sample_pod :: "string \<Rightarrow> relay_pod" where
  "sample_pod name \<equiv> new_pod (Some name) None None True"

lemma sample_pod_ready: "pod_ready conn now (sample_pod name) = (True, sample_pod name)"
  by (simp add: pod_ready_def pod_available_def is_available_def is_open_def get_redis_def new_pod_def new_breaker_def)

lemma sample_register:
  assumes "memory_view s key now = None"
  shows "register_relay sample_relay_env conn key now (sample_pod name) s =
    (True, pod_success (sample_pod name), AList.update key
       (re_dumps sample_relay_env (to_dict (own_state sample_relay_env Active True now (sample_pod name))), now + seconds 300) s)"
  using assms
  by (simp add: register_relay_def set_new_def sample_pod_ready sample_relay_env_def memory_redis_def key_ttl_def)

definition sample_memory :: memory where
  "sample_memory = snd (snd (register_relay sample_relay_env Connected ''k'' 0 (sample_pod ''a'') []))"

lemma sample_memory_eq:
  "sample_memory = [(''k'', re_dumps sample_relay_env (to_dict (own_state sample_relay_env Active True 0 (sample_pod ''a''))),
     seconds 300)]"
proof -
  have "memory_view [] ''k'' 0 = None" by (simp add: memory_view_def)
  from sample_register [OF this] show ?thesis by (simp add: sample_memory_def)
qed

lemma sample_registered: "registered sample_relay_env memory_view ''k'' ''a'' 0 (seconds 300) sample_memory"
proof -
  let ?st = "own_state sample_relay_env Active True 0 (sample_pod ''a'')"
  have "\<forall>t. 0 \<le> t \<and> t < seconds 300 \<longrightarrow> memory_view sample_memory ''k'' t = Some (re_dumps sample_relay_env (to_dict ?st))"
    unfolding sample_memory_eq by (simp add: memory_view_def)
  moreover have "re_loads sample_relay_env (re_dumps sample_relay_env (to_dict ?st)) = Some (to_dict ?st)"
    by (simp add: sample_relay_env_def)
  moreover have "rs_owner_pod ?st = JStr ''a''" by (simp add: own_state_def new_pod_def truthy_str_def)
  ultimately show ?thesis unfolding registered_def by (blast intro: to_dict_roundtrip)
qed

lemma breaker_refuses_iff_witness:
  "fst (is_open 30 (breaker_run 2 60 [FailedAt 10, FailedAt 20]))"
  using breaker_refuses_iff [of 2 "[FailedAt 10, FailedAt 20]" 60 30]
  by (simp add: breaker_run_def new_breaker_def record_failure_def)

lemma half_open_admits_all_witness:
  "\<not> fst (is_open 90 (breaker_run 1 60 ([FailedAt 10, PolledAt 80] @ [PolledAt 81, PolledAt 82])))"
proof -
  have "cb_state (breaker_run 1 60 [FailedAt 10, PolledAt 80]) = HalfOpen"
    by (simp add: breaker_run_def new_breaker_def record_failure_def is_open_def)
  from half_open_admits_all [OF _ this, of "[PolledAt 81, PolledAt 82]" 90] show ?thesis by simp
qed

lemma refusing_breaker_sends_nothing_witness:
  "\<exists>p'. unregister_relay sample_relay_env Connected ''k'' 30
     ((sample_pod ''a'')\<lparr>rp_breaker := breaker_run 1 60 [FailedAt 10]\<rparr>) sample_memory = (False, p', sample_memory)"
proof -
  have "refuses 30 ((sample_pod ''a'')\<lparr>rp_breaker := breaker_run 1 60 [FailedAt 10]\<rparr>)"
    by (simp add: refuses_def breaker_run_def new_breaker_def record_failure_def is_open_def)
  note n = refusing_breaker_sends_nothing [OF this, of sample_relay_env Connected "''k''" sample_memory]
  show ?thesis using n [of "\<lambda>_. []" None "\<lambda>_. []"] by (elim conjE)
qed

lemma registration_excludes_other_pods_witness:
  "\<not> fst (register_relay sample_relay_env Connected ''k'' 20 (sample_pod ''c'')
     (fold (relay_exec sample_relay_env ''k'')
        [(Unregister, Connected, 5, sample_pod ''b''), (Beat, Connected, 6, sample_pod ''b'')] sample_memory))"
  by (rule registration_excludes_other_pods [OF _ sample_registered, THEN conjunct2])
    (auto simp: sample_relay_env_def memory_redis_ok request_pod_def request_time_def new_pod_def truthy_str_def)

lemma failed_read_reports_unregistered_witness:
  "fst (unregister_relay (sample_relay_env\<lparr>re_redis := memory_redis\<lparr>rd_get := (\<lambda>k now s. (Inl OSError, s))\<rparr>\<rparr>) Connected ''k'' 5
     (sample_pod ''a'') sample_memory)"
  by (subst failed_read_reports_unregistered [OF sample_pod_ready sample_pod_ready]) simp_all

lemma stale_owner_clobbers_witness:
  "\<exists>s. registered sample_relay_env memory_view ''k'' ''b'' (seconds 300) (seconds 600) s \<and>
     memory_view (snd (snd (unregister_delete sample_relay_env ''k'' (seconds 301) (pod_success (sample_pod ''a'')) s)))
       ''k'' (seconds 301) = None"
proof -
  let ?E = sample_relay_env and ?a = "sample_pod ''a''" and ?b = "sample_pod ''b''"
  let ?st = "own_state ?E Active True 0 ?a"
  note mem = sample_memory_eq
  have own: "get_relay_owner ?E Connected ''k'' 5 ?a sample_memory = (Some ?st, pod_success ?a, sample_memory)"
    by (simp add: get_relay_owner_def sample_pod_ready mem sample_relay_env_def memory_redis_def memory_view_def)
  have "memory_view sample_memory ''k'' (seconds 300) = None" by (simp add: mem memory_view_def)
  from sample_register [OF this] obtain q' s1 where
    reg: "register_relay ?E Connected ''k'' (seconds 300) ?b sample_memory = (True, q', s1)" by blast
  have ok: "redis_ok (re_redis ?E) memory_view" by (simp add: sample_relay_env_def memory_redis_ok)
  have dumps: "re_loads ?E (re_dumps ?E j) = Some j" for j by (simp add: sample_relay_env_def)
  obtain p2 s2 where del: "unregister_delete ?E ''k'' (seconds 301) (pod_success ?a) s1 = (True, p2, s2)"
    by (simp add: unregister_delete_def sample_relay_env_def memory_redis_def)
  have "rs_owner_pod ?st = JStr (rp_pod_name ?a)" by (simp add: own_state_def)
  from stale_owner_clobbers [OF ok dumps own this reg, of "seconds 301" p2 s2] del
  show ?thesis by (intro exI [of _ s1]) (simp add: key_ttl_def new_pod_def truthy_str_def)
qed

end
