(* ===== verification/Relay_Terminal.thy ===== *)
theory Relay_Terminal
  imports Relay_Store
begin

text \<open>
  The pairing of browsers and agent relays of a process,
  \<^verbatim>\<open>app/modules/workspace/terminal_relay_store.py\<close>. Sockets and the events a browser waits for are
  numbers. A bridge is spawned inside the lock and starts later, in its own greenlet, with the
  relay it was spawned for; its start and its end are steps of their own.
\<close>

section \<open>The store\<close>

record bridge =
  br_terminal :: string
  br_browser :: nat
  br_done_event :: "nat option"
  br_relay :: "nat option"

record relay_table =
  rt_relay_websockets :: "(string, nat) dict"
  rt_pending_browsers :: "(string, nat \<times> nat option) dict"
  rt_active_bridges :: "(string, nat) dict"
  rt_relay_tokens :: "(string, string) dict"
  rt_spawned :: "bridge list"
  rt_running :: "bridge list"
  rt_closed :: "nat list"
  rt_notified :: "nat list"
  rt_done :: "nat list"

definition empty_relay_table :: relay_table where
  "empty_relay_table =
     \<lparr>rt_relay_websockets = [], rt_pending_browsers = [], rt_active_bridges = [], rt_relay_tokens = [],
      rt_spawned = [], rt_running = [], rt_closed = [], rt_notified = [], rt_done = []\<rparr>"

definition spawn_bridge :: "string \<Rightarrow> nat \<Rightarrow> nat option \<Rightarrow> relay_table \<Rightarrow> relay_table" where
  "spawn_bridge tid browser ev t =
     t\<lparr>rt_spawned := rt_spawned t @
         [\<lparr>br_terminal = tid, br_browser = browser, br_done_event = ev,
           br_relay = map_of (rt_relay_websockets t) tid\<rparr>]\<rparr>"

definition table_register :: "string \<Rightarrow> nat \<Rightarrow> string \<Rightarrow> relay_table \<Rightarrow> relay_table" where
  "table_register tid ws token t =
     (let t1 = (case map_of (rt_relay_websockets t) tid of
                  Some old \<Rightarrow> t\<lparr>rt_closed := rt_closed t @ [old]\<rparr> | None \<Rightarrow> t);
          t2 = t1\<lparr>rt_relay_websockets := AList.update tid ws (rt_relay_websockets t1),
                  rt_relay_tokens := AList.update tid token (rt_relay_tokens t1)\<rparr>;
          pending = map_of (rt_pending_browsers t2) tid;
          t3 = t2\<lparr>rt_pending_browsers := AList.delete tid (rt_pending_browsers t2)\<rparr>
      in case pending of
           Some (browser, ev) \<Rightarrow>
             if map_of (rt_active_bridges t3) tid = None then spawn_bridge tid browser ev t3 else t3
         | None \<Rightarrow> t3)"

definition table_unregister :: "string \<Rightarrow> relay_table \<Rightarrow> relay_table" where
  "table_unregister tid t =
     (let t1 = (case map_of (rt_active_bridges t) tid of
                  Some browser \<Rightarrow> t\<lparr>rt_notified := rt_notified t @ [browser]\<rparr> | None \<Rightarrow> t)
      in t1\<lparr>rt_relay_websockets := AList.delete tid (rt_relay_websockets t1),
            rt_relay_tokens := AList.delete tid (rt_relay_tokens t1),
            rt_active_bridges := AList.delete tid (rt_active_bridges t1)\<rparr>)"

definition add_pending_browser :: "string \<Rightarrow> nat \<Rightarrow> nat option \<Rightarrow> relay_table \<Rightarrow> bool \<times> relay_table" where
  "add_pending_browser tid browser ev t =
     (if map_of (rt_active_bridges t) tid \<noteq> None then (False, t)
      else if map_of (rt_relay_websockets t) tid \<noteq> None then (False, spawn_bridge tid browser ev t)
      else if map_of (rt_pending_browsers t) tid \<noteq> None then (False, t)
      else (True, t\<lparr>rt_pending_browsers := AList.update tid (browser, ev) (rt_pending_browsers t)\<rparr>))"

definition remove_pending_browser :: "string \<Rightarrow> nat \<Rightarrow> relay_table \<Rightarrow> relay_table" where
  "remove_pending_browser tid browser t =
     (case map_of (rt_pending_browsers t) tid of
        Some (b, ev) \<Rightarrow>
          if b = browser then t\<lparr>rt_pending_browsers := AList.delete tid (rt_pending_browsers t)\<rparr> else t
      | None \<Rightarrow> t)"

definition get_relay :: "string \<Rightarrow> relay_table \<Rightarrow> nat option" where
  "get_relay tid t = map_of (rt_relay_websockets t) tid"

definition has_relay :: "string \<Rightarrow> relay_table \<Rightarrow> bool" where
  "has_relay tid t \<longleftrightarrow> map_of (rt_relay_websockets t) tid \<noteq> None"

definition is_active_bridge :: "string \<Rightarrow> relay_table \<Rightarrow> bool" where
  "is_active_bridge tid t \<longleftrightarrow> map_of (rt_active_bridges t) tid \<noteq> None"

section \<open>The greenlet of a bridge\<close>

definition finish_bridge :: "bridge \<Rightarrow> relay_table \<Rightarrow> relay_table" where
  "finish_bridge b t =
     t\<lparr>rt_active_bridges := AList.delete (br_terminal b) (rt_active_bridges t),
       rt_done := (case br_done_event b of Some ev \<Rightarrow> rt_done t @ [ev] | None \<Rightarrow> rt_done t)\<rparr>"

definition start_bridge :: "bridge \<Rightarrow> relay_table \<Rightarrow> relay_table" where
  "start_bridge b t =
     (let t1 = t\<lparr>rt_spawned := remove1 b (rt_spawned t)\<rparr>
      in case br_relay b of
           None \<Rightarrow> finish_bridge b t1
         | Some ws \<Rightarrow> t1\<lparr>rt_active_bridges := AList.update (br_terminal b) (br_browser b) (rt_active_bridges t1),
                           rt_running := rt_running t1 @ [b]\<rparr>)"

definition end_bridge :: "bridge \<Rightarrow> relay_table \<Rightarrow> relay_table" where
  "end_bridge b t = finish_bridge b (t\<lparr>rt_running := remove1 b (rt_running t)\<rparr>)"

inductive table_step :: "relay_table \<Rightarrow> relay_table \<Rightarrow> bool" where
  relay_up: "table_step t (table_register tid ws token t)"
| relay_down: "table_step t (table_unregister tid t)"
| browser_up: "add_pending_browser tid browser ev t = (r, t') \<Longrightarrow> table_step t t'"
| browser_gone: "table_step t (remove_pending_browser tid browser t)"
| bridge_starts: "b \<in> set (rt_spawned t) \<Longrightarrow> table_step t (start_bridge b t)"
| bridge_ends: "b \<in> set (rt_running t) \<Longrightarrow> table_step t (end_bridge b t)"

inductive table_reach :: "relay_table \<Rightarrow> bool" where
  start: "table_reach empty_relay_table"
| step: "table_reach t \<Longrightarrow> table_step t t' \<Longrightarrow> table_reach t'"

section \<open>With the registration in Redis\<close>

definition register_terminal_relay ::
    "'s relay_env \<Rightarrow> connection \<Rightarrow> instant \<Rightarrow> string \<Rightarrow> nat \<Rightarrow> string \<Rightarrow> relay_table \<times> relay_pod \<times> 's \<Rightarrow>
     relay_table \<times> relay_pod \<times> 's" where
  "register_terminal_relay E conn now tid ws token = (\<lambda>(t, p, s).
     let (ok, p1) = pod_available now p;
         (p2, s2) = (if ok then snd (register_relay E conn (make_key Terminal tid) now p1 s) else (p1, s))
     in (table_register tid ws token t, p2, s2))"

definition unregister_terminal_relay ::
    "'s relay_env \<Rightarrow> connection \<Rightarrow> instant \<Rightarrow> string \<Rightarrow> relay_table \<times> relay_pod \<times> 's \<Rightarrow>
     relay_table \<times> relay_pod \<times> 's" where
  "unregister_terminal_relay E conn now tid = (\<lambda>(t, p, s).
     let (ok, p1) = pod_available now p;
         (p2, s2) = (if ok then snd (unregister_relay E conn (make_key Terminal tid) now p1 s) else (p1, s))
     in (table_unregister tid t, p2, s2))"

section \<open>Properties\<close>

definition table_ok :: "relay_table \<Rightarrow> bool" where
  "table_ok t \<longleftrightarrow>
     (\<forall>tid. map_of (rt_relay_tokens t) tid = None \<longleftrightarrow> map_of (rt_relay_websockets t) tid = None) \<and>
     (\<forall>tid. map_of (rt_pending_browsers t) tid = None \<or> map_of (rt_relay_websockets t) tid = None) \<and>
     (\<forall>b\<in>set (rt_spawned t) \<union> set (rt_running t). br_relay b \<noteq> None)"

lemma table_ok_step: "table_step t t' \<Longrightarrow> table_ok t \<Longrightarrow> table_ok t'"
proof (induction rule: table_step.induct)
  case (relay_up t tid ws token)
  then show ?case
    by (auto simp: table_ok_def table_register_def spawn_bridge_def Let_def update_conv' delete_conv' split: option.splits)
next
  case (relay_down t tid)
  then show ?case
    by (auto simp: table_ok_def table_unregister_def Let_def delete_conv' split: option.splits)
next
  case (browser_up tid browser ev t r t')
  then show ?case
    by (auto simp: table_ok_def add_pending_browser_def spawn_bridge_def update_conv' split: if_splits)
      (metis option.distinct(1))
next
  case (browser_gone t tid browser)
  then show ?case
    by (auto simp: table_ok_def remove_pending_browser_def delete_conv' split: option.splits if_splits)
next
  case (bridge_starts b t)
  then show ?case
    by (auto simp: table_ok_def start_bridge_def finish_bridge_def Let_def dest: notin_set_remove1 set_mp [OF set_remove1_subset]
        split: option.splits)
next
  case (bridge_ends b t)
  then show ?case
    by (auto simp: table_ok_def end_bridge_def finish_bridge_def dest: set_mp [OF set_remove1_subset])
qed

text \<open>However connections, disconnections and bridges interleave, every relay has its token and no token
  is left without its relay, no browser waits for a terminal whose relay is there, and every bridge
  has a relay to connect to.\<close>

theorem relay_table_invariant: "table_reach t \<Longrightarrow> table_ok t"
proof (induction rule: table_reach.induct)
  case start
  show ?case by (simp add: table_ok_def empty_relay_table_def)
next
  case (step t t')
  then show ?case by (blast intro: table_ok_step)
qed

text \<open>Successful steps of a run, for concrete schedules.\<close>

lemma reach_browser: "table_reach t \<Longrightarrow> table_reach (snd (add_pending_browser tid browser ev t))"
  by (rule table_reach.step [OF _ browser_up [OF prod.collapse [symmetric]]])

lemma reach_bridge: "table_reach t \<Longrightarrow> b \<in> set (rt_spawned t) \<Longrightarrow> table_reach (start_bridge b t)"
  by (rule table_reach.step [OF _ bridge_starts])

lemmas table_defs = table_register_def table_unregister_def add_pending_browser_def spawn_bridge_def start_bridge_def
  empty_relay_table_def

text \<open>The claim that a relay serves one browser at a time does not hold: a bridge counts as active only
  once its greenlet has started, so a browser that connects before that gets a second bridge to the
  same relay, and both run.\<close>

theorem two_bridges_one_relay:
  assumes "b1 \<noteq> b2"
  shows "\<exists>t. table_reach t \<and> map br_browser (rt_running t) = [b1, b2] \<and> map br_relay (rt_running t) = [Some ws, Some ws]"
proof -
  let ?b = "\<lambda>b. \<lparr>br_terminal = tid, br_browser = b, br_done_event = None, br_relay = Some ws\<rparr>"
  let ?t1 = "table_register tid ws tok empty_relay_table"
  let ?t3 = "snd (add_pending_browser tid b2 None (snd (add_pending_browser tid b1 None ?t1)))"
  have r3: "table_reach ?t3"
    by (intro reach_browser table_reach.step [OF table_reach.start relay_up])
  have "table_reach (start_bridge (?b b1) ?t3)"
    by (rule reach_bridge [OF r3]) (simp add: table_defs)
  then have "table_reach (start_bridge (?b b2) (start_bridge (?b b1) ?t3))"
    by (rule reach_bridge) (use assms in \<open>simp add: table_defs\<close>)
  then show ?thesis
    using assms by (intro exI [of _ "start_bridge (?b b2) (start_bridge (?b b1) ?t3)"]) (simp add: table_defs)
qed

text \<open>Where a browser with its event can be: waiting, about to be bridged, or bridged.\<close>

definition attended :: "string \<Rightarrow> nat \<Rightarrow> relay_table \<Rightarrow> bool" where
  "attended tid browser t \<longleftrightarrow>
     (\<exists>ev. map_of (rt_pending_browsers t) tid = Some (browser, ev)) \<or>
     browser \<in> br_browser ` (set (rt_spawned t) \<union> set (rt_running t))"

text \<open>A waiting browser can be dropped: when the bridge of a relay that has gone starts late, the next
  relay takes the browser that waits off the table without bridging it, and never signals its event.\<close>

theorem waiting_browser_dropped:
  assumes "b1 \<noteq> b2"
  shows "\<exists>t. table_reach t \<and> map_of (rt_pending_browsers t) tid = Some (b2, Some ev) \<and>
    \<not> attended tid b2 (table_register tid ws2 tok t) \<and> ev \<notin> set (rt_done (table_register tid ws2 tok t))"
proof -
  let ?br = "\<lparr>br_terminal = tid, br_browser = b1, br_done_event = None, br_relay = Some ws1\<rparr>"
  let ?t1 = "snd (add_pending_browser tid b1 None (table_register tid ws1 tok empty_relay_table))"
  let ?t2 = "snd (add_pending_browser tid b2 (Some ev) (table_unregister tid ?t1))"
  have "table_reach ?t1"
    by (intro reach_browser table_reach.step [OF table_reach.start relay_up])
  then have "table_reach ?t2"
    by (intro reach_browser) (rule table_reach.step [OF _ relay_down])
  then have "table_reach (start_bridge ?br ?t2)"
    by (rule reach_bridge) (simp add: table_defs)
  then show ?thesis
    using assms by (intro exI [of _ "start_bridge ?br ?t2"]) (simp add: table_defs attended_def)
qed

text \<open>A relay is registered locally whatever Redis answers: while another Pod holds the registration of
  the terminal, the process still gets the relay, and Redis keeps naming the other Pod.\<close>

theorem local_relay_despite_registration:
  assumes "redis_ok (re_redis E) view" and "registered E view (make_key Terminal tid) owner now e s" and "now < e"
    and "register_terminal_relay E conn now tid ws token (t, p, s) = (t', p', s')"
  shows "get_relay tid t' = Some ws \<and> registered E view (make_key Terminal tid) owner now e s'"
proof -
  have "get_relay tid (table_register tid ws token t) = Some ws"
    by (auto simp: get_relay_def table_register_def spawn_bridge_def Let_def update_conv' split: option.split)
  moreover obtain ok p1 where p1: "pod_available now p = (ok, p1)" by fastforce
  obtain r p2 s2 where s2: "register_relay E conn (make_key Terminal tid) now p1 s = (r, p2, s2)" by (metis prod_cases3)
  have "view s2 = view s" using set_new_refused [OF assms(1-3)] s2 by (simp add: register_relay_def)
  then have "view s' = view s" and "t' = table_register tid ws token t"
    using assms(4) p1 s2 by (auto simp: register_terminal_relay_def split: if_splits)
  ultimately show ?thesis using assms(2) registered_view [of view s' s] by blast
qed

section \<open>Concrete instances\<close>

lemma relay_table_invariant_witness:
  "table_ok (table_register ''t1'' 7 ''tok'' empty_relay_table)"
  by (rule relay_table_invariant [OF table_reach.step [OF table_reach.start relay_up]])

lemma two_bridges_one_relay_witness:
  "\<exists>t. table_reach t \<and> map br_browser (rt_running t) = [1, 2] \<and> map br_relay (rt_running t) = [Some 7, Some 7]"
  by (rule two_bridges_one_relay) simp

lemma waiting_browser_dropped_witness:
  "\<exists>t. table_reach t \<and> \<not> attended ''t1'' 2 (table_register ''t1'' 8 ''tok'' t)"
  using waiting_browser_dropped [of 1 2 "''t1''" 9 8 "''tok''"] by auto

lemma local_relay_despite_registration_witness:
  "get_relay ''x'' (fst (register_terminal_relay sample_relay_env Connected 5 ''x'' 7 ''tok''
     (empty_relay_table, sample_pod ''b'',
      [(make_key Terminal ''x'', re_dumps sample_relay_env
          (to_dict (own_state sample_relay_env Active True 0 (sample_pod ''a''))), seconds 300)]))) = Some 7"
proof -
  let ?st = "own_state sample_relay_env Active True 0 (sample_pod ''a'')"
  let ?s = "[(make_key Terminal ''x'', re_dumps sample_relay_env (to_dict ?st), seconds 300)]"
  have "\<forall>t. 5 \<le> t \<and> t < seconds 300 \<longrightarrow>
      memory_view ?s (make_key Terminal ''x'') t = Some (re_dumps sample_relay_env (to_dict ?st))"
    by (simp add: memory_view_def)
  moreover have "re_loads sample_relay_env (re_dumps sample_relay_env (to_dict ?st)) = Some (to_dict ?st)"
    by (simp add: sample_relay_env_def)
  moreover have "rs_owner_pod ?st = JStr ''a''" by (simp add: own_state_def new_pod_def truthy_str_def)
  ultimately have "registered sample_relay_env memory_view (make_key Terminal ''x'') ''a'' 5 (seconds 300) ?s"
    unfolding registered_def by (blast intro: to_dict_roundtrip)
  moreover have "redis_ok (re_redis sample_relay_env) memory_view" by (simp add: sample_relay_env_def memory_redis_ok)
  moreover obtain t' p' s' where "register_terminal_relay sample_relay_env Connected 5 ''x'' 7 ''tok''
      (empty_relay_table, sample_pod ''b'', ?s) = (t', p', s')" by (metis prod_cases3)
  ultimately show ?thesis using local_relay_despite_registration by fastforce
qed

end
