(* ===== verification/Test_Scope.thy ===== *)
theory Test_Scope
  imports Py_Text "HOL-Library.While_Combinator" "HOL-Library.Sublist"
begin

text \<open>
  The identity and the scope of a test command
  (\<open>app/modules/workspace/autonomous/command_evidence/scope.py\<close>): output filters are stripped
  from a command so that its reruns share an identity, a pytest command is reduced to its
  execution context and its selectors, and a passing scope covers an earlier one when it is a
  superset. The loop that strips filters is the combinator \<open>while_option\<close>, so that its
  termination is a theorem. The last section gives selectors a meaning, the files and tests they
  select, against which covering is proved sound.
\<close>

section \<open>Words of a command\<close>

lemma py_split_ws_acc_append_space:
  "py_space c \<Longrightarrow> py_split_ws_acc acc (xs @ c # ys) = py_split_ws_acc acc xs @ py_split_ws ys"
  by (induction xs arbitrary: acc) (auto simp: py_split_ws_def)

lemma py_split_ws_append_space:
  "py_space c \<Longrightarrow> py_split_ws (xs @ c # ys) = py_split_ws xs @ py_split_ws ys"
  using py_split_ws_acc_append_space by (simp add: py_split_ws_def)

lemma py_split_ws_acc_word:
  "\<forall>x\<in>set w. \<not> py_space x \<Longrightarrow> py_split_ws_acc acc w = (if acc = [] \<and> w = [] then [] else [rev acc @ w])"
  by (induction w arbitrary: acc) auto

lemma py_split_ws_word: "\<forall>x\<in>set w. \<not> py_space x \<Longrightarrow> w \<noteq> [] \<Longrightarrow> py_split_ws w = [w]"
  by (simp add: py_split_ws_def py_split_ws_acc_word)

lemma py_split_ws_Nil [simp]: "py_split_ws [] = []"
  by (simp add: py_split_ws_def)

lemma py_split_ws_acc_words:
  "list_all (\<lambda>x. \<not> py_space x) acc \<Longrightarrow>
   list_all (\<lambda>w. w \<noteq> [] \<and> list_all (\<lambda>x. \<not> py_space x) w) (py_split_ws_acc acc s)"
proof (induction s arbitrary: acc)
  case Nil
  have "list_all (\<lambda>x. \<not> py_space x) (rev acc)" using Nil by (simp add: list_all_rev)
  then show ?case by simp
next
  case (Cons c s)
  have r: "list_all (\<lambda>x. \<not> py_space x) (rev acc)" using Cons.prems by (simp add: list_all_rev)
  show ?case
  proof (cases "py_space c")
    case True
    then show ?thesis using Cons.IH [of "[]"] r by simp
  next
    case False
    then show ?thesis using Cons.IH [of "c # acc"] Cons.prems by simp
  qed
qed

lemma py_split_ws_words: "w \<in> set (py_split_ws s) \<Longrightarrow> w \<noteq> [] \<and> (\<forall>x\<in>set w. \<not> py_space x)"
  using py_split_ws_acc_words [of "[]" s] by (simp add: py_split_ws_def list_all_iff)

lemma space_32 [simp]: "py_space CHR '' ''"
  by (simp add: py_space_def)

definition collapse :: "string \<Rightarrow> string" where
  "collapse s = py_join '' '' (py_split_ws s)"

text \<open>A string with neither leading nor trailing white space.\<close>

definition trimmed :: "string \<Rightarrow> bool" where
  "trimmed s \<longleftrightarrow> (s = [] \<or> \<not> py_space (hd s) \<and> \<not> py_space (last s))"

lemma dropWhile_hd: "xs = [] \<or> \<not> P (hd xs) \<Longrightarrow> dropWhile P xs = xs"
  by (cases xs) auto

lemma py_strip_trimmed: "trimmed s \<Longrightarrow> py_strip s = s"
  by (auto simp: trimmed_def py_strip_def dropWhile_hd hd_rev)

lemma trimmed_py_strip: "trimmed (py_strip s)"
proof -
  let ?u = "dropWhile py_space s"
  let ?v = "dropWhile py_space (rev ?u)"
  have "?v = [] \<or> \<not> py_space (hd ?v)" using hd_dropWhile by blast
  moreover have "\<not> py_space (last ?v)" if "?v \<noteq> []"
  proof -
    have "last ?v = last (rev ?u)" using that by (metis last_appendR takeWhile_dropWhile_id)
    moreover have ne: "?u \<noteq> []" using that by fastforce
    ultimately show ?thesis using hd_dropWhile [of py_space s] by (simp add: last_rev)
  qed
  ultimately show ?thesis unfolding trimmed_def py_strip_def by (metis hd_rev last_rev rev_is_Nil_conv)
qed

lemma py_strip_idem [simp]: "py_strip (py_strip s) = py_strip s"
  by (simp add: py_strip_trimmed trimmed_py_strip)

lemma py_strip_le: "length (py_strip s) \<le> length s"
  unfolding py_strip_def by (metis length_dropWhile_le length_rev order_trans)

lemma py_join_append:
  "xs \<noteq> [] \<Longrightarrow> ys \<noteq> [] \<Longrightarrow> py_join sep (xs @ ys) = py_join sep xs @ sep @ py_join sep ys"
proof (induction sep xs rule: py_join.induct)
  case (2 sep x)
  then show ?case by (cases ys) auto
qed auto

lemma py_join_words:
  "\<forall>w\<in>set ws. w \<noteq> [] \<and> (\<forall>x\<in>set w. \<not> py_space x) \<Longrightarrow> ws \<noteq> [] \<Longrightarrow>
   py_join '' '' ws \<noteq> [] \<and> \<not> py_space (hd (py_join '' '' ws)) \<and> \<not> py_space (last (py_join '' '' ws))"
  by (induction "'' ''" ws rule: py_join.induct) auto

lemma trimmed_collapse: "trimmed (collapse s)"
proof (cases "py_split_ws s = []")
  case False
  then show ?thesis
    using py_join_words [of "py_split_ws s"] py_split_ws_words by (auto simp: trimmed_def collapse_def)
qed (simp add: trimmed_def collapse_def)

lemma collapse_append:
  assumes "py_split_ws s \<noteq> []" and "py_split_ws t \<noteq> []"
  shows "collapse (s @ CHR '' '' # t) = collapse s @ CHR '' '' # collapse t"
  using assms by (simp add: collapse_def py_split_ws_append_space py_join_append)

section \<open>Output filters\<close>

text \<open>
  The regular expression of an output filter at the end of a command, read off the end:
  an optional \<open>2>&1\<close>, a pipe, \<open>head\<close> or \<open>tail\<close> in any case and its arguments, each an option
  or a number. \<open>strip_filter\<close> removes the leftmost match, which is the only one.
\<close>

definition filter_arg :: "string \<Rightarrow> bool" where
  "filter_arg w \<longleftrightarrow> py_startswith w ''-'' \<and> 1 < length w \<or> w \<noteq> [] \<and> (\<forall>c\<in>set w. py_digit c)"

definition filter_args :: "string \<Rightarrow> bool" where
  "filter_args r \<longleftrightarrow> (r = [] \<or> py_space (hd r)) \<and> (\<forall>w\<in>set (py_split_ws r). filter_arg w)"

definition filter_pipe :: "string \<Rightarrow> bool" where
  "filter_pipe t = (case dropWhile py_space t of
      [] \<Rightarrow> False
    | c # u \<Rightarrow> c = CHR ''|'' \<and>
       (let v = dropWhile py_space u
        in (map ascii_lower (take 4 v) = ''head'' \<or> map ascii_lower (take 4 v) = ''tail'') \<and>
           filter_args (drop 4 v)))"

definition filter_suffix :: "string \<Rightarrow> bool" where
  "filter_suffix t \<longleftrightarrow> filter_pipe t \<or>
     t \<noteq> [] \<and> py_space (hd t) \<and> py_startswith (dropWhile py_space t) ''2>&1'' \<and>
     filter_pipe (drop 4 (dropWhile py_space t))"

fun strip_filter :: "string \<Rightarrow> string" where
  "strip_filter [] = []"
| "strip_filter (c # cs) = (if filter_suffix (c # cs) then [] else c # strip_filter cs)"

definition filter_step :: "string \<Rightarrow> string" where
  "filter_step s = py_strip (strip_filter s)"

definition filter_loop :: "string \<Rightarrow> string option" where
  "filter_loop s = while_option (\<lambda>n. filter_step n \<noteq> n) filter_step s"

definition merge_suffix :: "string \<Rightarrow> bool" where
  "merge_suffix t \<longleftrightarrow> t \<noteq> [] \<and> py_space (hd t) \<and> py_startswith (dropWhile py_space t) ''2>&1'' \<and>
     (\<forall>c\<in>set (drop 4 (dropWhile py_space t)). py_space c)"

fun strip_merge :: "string \<Rightarrow> string" where
  "strip_merge [] = []"
| "strip_merge (c # cs) = (if merge_suffix (c # cs) then [] else c # strip_merge cs)"

definition normalize_test_command :: "string \<Rightarrow> string" where
  "normalize_test_command command =
     (case filter_loop (collapse command) of
        Some normalized \<Rightarrow> py_strip (strip_merge normalized)
      | None \<Rightarrow> [])"

declare filter_arg_def [py_defs] filter_args_def [py_defs]
  filter_pipe_def [py_defs] filter_suffix_def [py_defs]
  merge_suffix_def [py_defs] collapse_def [py_defs]

lemma strip_filter_le: "length (strip_filter s) \<le> length s"
  by (induction s) auto

lemma filter_step_le: "length (filter_step s) \<le> length s"
  unfolding filter_step_def using py_strip_le strip_filter_le order_trans by blast

lemma strip_filter_prefix: "prefix (strip_filter s) s"
  by (induction s) auto

lemma filter_step_less:
  assumes "trimmed s" and "filter_step s \<noteq> s"
  shows "length (filter_step s) < length s"
proof -
  have "strip_filter s \<noteq> s" using assms by (auto simp: filter_step_def py_strip_trimmed)
  then have "length (strip_filter s) < length s"
    using strip_filter_prefix [of s] by (metis prefix_length_less prefix_order.le_imp_less_or_eq strict_prefix_def)
  then show ?thesis unfolding filter_step_def using py_strip_le le_less_trans by blast
qed

lemma filter_loop_unfold:
  "filter_loop s = (if filter_step s = s then Some s else filter_loop (filter_step s))"
  by (simp add: filter_loop_def while_option_unfold [of _ _ s])

lemma filter_loop_fixpoint: "filter_step s = s \<Longrightarrow> filter_loop s = Some s"
  by (simp add: filter_loop_unfold)

lemma filter_loop_returns:
  assumes "trimmed s"
  obtains t where "filter_loop s = Some t" and "filter_step t = t" and "prefix t s" and "trimmed t"
  using assms
proof (induction "length s" arbitrary: s thesis rule: less_induct)
  case less
  show ?case
  proof (cases "filter_step s = s")
    case True
    then show ?thesis using less.prems filter_loop_fixpoint by blast
  next
    case False
    have tr: "trimmed (filter_step s)" by (simp add: filter_step_def trimmed_py_strip)
    obtain t where t: "filter_loop (filter_step s) = Some t" "filter_step t = t"
      "prefix t (filter_step s)" "trimmed t"
      using less.hyps [OF filter_step_less [OF less.prems(2) False]] tr by blast
    have "dropWhile py_space (strip_filter s) = strip_filter s"
    proof (cases "strip_filter s")
      case (Cons c cs)
      then have "hd s = c" using strip_filter_prefix [of s] by (cases s) auto
      moreover have "s \<noteq> []" using Cons by auto
      ultimately show ?thesis using less.prems(2) Cons by (auto simp: trimmed_def)
    qed simp
    then have "prefix (filter_step s) (strip_filter s)"
      unfolding filter_step_def py_strip_def
      by (metis rev_rev_ident suffix_dropWhile suffix_to_prefix)
    then have "prefix t s" using t(3) strip_filter_prefix prefix_order.order_trans by blast
    moreover have "filter_loop s = Some t" using t(1) False by (subst filter_loop_unfold) simp
    ultimately show ?thesis using less.prems(1) t by blast
  qed
qed

section \<open>The scope of a pytest command\<close>

text \<open>The execution context and the selectors; no selector stands for the whole suite.\<close>

type_synonym pytest_scope = "string \<times> string set"

definition basename :: "string \<Rightarrow> string" where
  "basename p = py_after_last CHR ''/'' p"

definition python_name :: "string \<Rightarrow> bool" where
  "python_name n \<longleftrightarrow> py_startswith n ''python'' \<and>
     (let v = drop 6 n in v = [] \<or> (\<forall>w\<in>set (split_char CHR ''.'' v). w \<noteq> [] \<and> (\<forall>c\<in>set w. py_digit c)))"

definition scope_narrowing_options :: "string list" where
  "scope_narrowing_options = [''-k'', ''-m'', ''--ignore'', ''--ignore-glob'', ''--deselect'', ''--lf'',
     ''--last-failed'', ''--ff'', ''--failed-first'', ''--nf'', ''--new-first'', ''--sw'',
     ''--stepwise'', ''--stepwise-skip'']"

definition safe_flags :: "string list" where
  "safe_flags = [''-q'', ''--quiet'', ''-v'', ''-vv'', ''--verbose'', ''-s'', ''-x'', ''--exitfirst'',
     ''--disable-warnings'', ''--strict-config'', ''--strict-markers'',
     ''--continue-on-collection-errors'', ''--full-trace'', ''--showlocals'', ''-l'', ''--no-header'',
     ''--no-summary'']"

definition safe_value_options :: "string list" where
  "safe_value_options = [''--tb'', ''--color'', ''--capture'', ''--durations'', ''--durations-min'',
     ''--junitxml'', ''--junit-prefix'', ''--basetemp'', ''--verbosity'', ''--maxfail'']"

text \<open>The selector a positional argument adds.\<close>

definition selector_of :: "string \<Rightarrow> string" where
  "selector_of t = (let u = py_rstrip CHR ''/'' t in if u = [] then ''.'' else u)"

fun scan_args :: "bool \<Rightarrow> string list \<Rightarrow> string set \<Rightarrow> string set option" where
  "scan_args selectors_only [] selectors = Some selectors"
| "scan_args selectors_only (token # args) selectors =
     (if token = ''--'' then scan_args True args selectors
      else if \<not> selectors_only \<and> py_startswith token ''-'' then
        (let option_name = py_before ''='' token
         in if option_name \<in> set scope_narrowing_options then None
            else if token \<in> set safe_flags then scan_args selectors_only args selectors
            else if option_name \<in> set safe_value_options then
              (if CHR ''='' \<notin> set token then
                 (case args of [] \<Rightarrow> None | _ # rest \<Rightarrow> scan_args selectors_only rest selectors)
               else scan_args selectors_only args selectors)
            else None)
      else scan_args selectors_only args (insert (selector_of token) selectors))"

definition is_pytest :: "string \<Rightarrow> bool" where
  "is_pytest token \<longleftrightarrow> basename token \<in> {''pytest'', ''py.test''}"

definition execution_context :: "string list \<Rightarrow> string \<Rightarrow> string option" where
  "execution_context prefix_tokens pytest =
     (case prefix_tokens of
        [] \<Rightarrow> Some pytest
      | [python, m] \<Rightarrow>
          (if m \<noteq> ''-m'' \<or> \<not> python_name (basename python) then None
           else Some (python @ '' -m '' @ pytest))
      | _ \<Rightarrow> None)"

definition scope_operators :: "string list" where
  "scope_operators = [''&&'', ''||'', '';'', ''|'']"

definition pytest_test_scope :: "string \<Rightarrow> pytest_scope option" where
  "pytest_test_scope command =
     (let normalized = normalize_test_command command
      in if \<exists>operator\<in>set scope_operators. py_contains operator normalized then None
         else
           (case shlex_split normalized of
              None \<Rightarrow> None
            | Some tokens \<Rightarrow>
                (case dropWhile (\<lambda>t. \<not> is_pytest t) tokens of
                   [] \<Rightarrow> None
                 | pytest # args \<Rightarrow>
                     (case execution_context (takeWhile (\<lambda>t. \<not> is_pytest t) tokens) pytest of
                        None \<Rightarrow> None
                      | Some context \<Rightarrow> map_option (Pair context) (scan_args False args {})))))"

definition selector_covers :: "string \<Rightarrow> string \<Rightarrow> bool" where
  "selector_covers passing earlier =
     (if passing = earlier then True
      else if passing \<in> {''.'', ''./''} then True
      else
        (let passing_path = py_rstrip CHR ''/'' (py_before ''::'' passing);
             earlier_path = py_rstrip CHR ''/'' (py_before ''::'' earlier)
         in if \<not> py_contains ''::'' passing \<and> passing_path = earlier_path then True
            else \<not> py_contains ''::'' passing \<and> py_startswith earlier_path (passing_path @ ''/'')))"

definition pytest_scope_covers :: "pytest_scope option \<Rightarrow> pytest_scope option \<Rightarrow> bool" where
  "pytest_scope_covers passing_scope earlier_scope =
     (case (passing_scope, earlier_scope) of
        (Some (passing_context, passing_selectors), Some (earlier_context, earlier_selectors)) \<Rightarrow>
          if passing_context \<noteq> earlier_context then False
          else if passing_selectors = {} then True
          else if earlier_selectors = {} then False
          else \<forall>earlier\<in>earlier_selectors. \<exists>passing\<in>passing_selectors. selector_covers passing earlier
      | _ \<Rightarrow> False)"

declare basename_def [py_defs] python_name_def [py_defs] scope_narrowing_options_def [py_defs]
  safe_flags_def [py_defs] safe_value_options_def [py_defs] selector_of_def [py_defs]
  is_pytest_def [py_defs] execution_context_def [py_defs] scope_operators_def [py_defs]
  selector_covers_def [py_defs]

section \<open>What selectors select\<close>

text \<open>
  A test is a file, as the components of its absolute path, and a name inside it. A selector
  selects a test when its path, resolved against the working directory, is a prefix of the file
  and what follows \<open>::\<close>, if anything, names the test or a class around it. A command without
  selectors runs the tests below the working directory.
\<close>

type_synonym test_id = "string list \<times> string"

definition path_step :: "string list \<Rightarrow> string \<Rightarrow> string list" where
  "path_step st c = (if c = [] \<or> c = ''.'' then st else if c = ''..'' then butlast st else st @ [c])"

definition resolve :: "string list \<Rightarrow> string \<Rightarrow> string list" where
  "resolve cwd p = foldl path_step (if py_startswith p ''/'' then [] else cwd) (split_char CHR ''/'' p)"

definition selects :: "string list \<Rightarrow> string \<Rightarrow> test_id \<Rightarrow> bool" where
  "selects cwd sel test \<longleftrightarrow>
     prefix (resolve cwd (py_before ''::'' sel)) (fst test) \<and>
     (py_contains ''::'' sel \<longrightarrow> py_startswith (snd test) (drop (length (py_before ''::'' sel) + 2) sel))"

definition scope_selects :: "string list \<Rightarrow> pytest_scope \<Rightarrow> test_id \<Rightarrow> bool" where
  "scope_selects cwd scope test \<longleftrightarrow>
     (if snd scope = {} then prefix cwd (fst test) else \<exists>sel\<in>snd scope. selects cwd sel test)"

text \<open>A selector that stays below the working directory: relative and without \<open>..\<close>.\<close>

definition stays_below :: "string \<Rightarrow> bool" where
  "stays_below sel \<longleftrightarrow>
     (let p = py_before ''::'' sel in \<not> py_startswith p ''/'' \<and> ''..'' \<notin> set (split_char CHR ''/'' p))"

lemma split_char_nonempty [simp]: "split_char d s \<noteq> []"
  by (induction s) (auto split: list.splits)

lemma split_char_append: "split_char d (xs @ d # ys) = split_char d xs @ split_char d ys"
  by (induction xs) (auto split: list.splits)

lemma split_char_snoc: "split_char d (xs @ [d]) = split_char d xs @ [[]]"
  using split_char_append [of d xs "[]"] by simp

lemma foldl_path_step_below:
  "''..'' \<notin> set cs \<Longrightarrow> prefix st (foldl path_step st cs)"
proof (induction cs arbitrary: st)
  case (Cons c cs)
  then have "prefix (path_step st c) (foldl path_step st (c # cs))" by simp
  moreover have "prefix st (path_step st c)" using Cons.prems by (auto simp: path_step_def)
  ultimately show ?case using prefix_order.order_trans by blast
qed simp

lemma resolve_below: "stays_below sel \<Longrightarrow> prefix cwd (resolve cwd (py_before ''::'' sel))"
  by (auto simp: stays_below_def resolve_def Let_def intro: foldl_path_step_below)

lemma py_rstrip_append_slashes:
  obtains n where "p = py_rstrip c p @ replicate n c"
proof
  let ?n = "length (takeWhile (\<lambda>x. x = c) (rev p))"
  have "rev p = takeWhile (\<lambda>x. x = c) (rev p) @ dropWhile (\<lambda>x. x = c) (rev p)" by simp
  then have "p = rev (dropWhile (\<lambda>x. x = c) (rev p)) @ rev (takeWhile (\<lambda>x. x = c) (rev p))"
    by (metis rev_append rev_rev_ident)
  moreover have "takeWhile (\<lambda>x. x = c) (rev p) = replicate ?n c"
    by (metis (mono_tags, lifting) replicate_length_same set_takeWhileD)
  ultimately show "p = py_rstrip c p @ replicate ?n c"
    by (metis py_rstrip_def rev_replicate)
qed

lemma foldl_path_step_slashes:
  "foldl path_step st (split_char CHR ''/'' (p @ replicate n CHR ''/'')) = foldl path_step st (split_char CHR ''/'' p)"
proof (induction n)
  case (Suc n)
  have "p @ replicate (Suc n) CHR ''/'' = (p @ replicate n CHR ''/'') @ [CHR ''/'']"
    by (simp add: replicate_append_same)
  then show ?case using Suc by (simp only: split_char_snoc) (simp add: path_step_def)
qed simp

lemma resolve_rstrip:
  assumes "py_rstrip CHR ''/'' p \<noteq> []"
  shows "resolve cwd (py_rstrip CHR ''/'' p) = resolve cwd p"
proof -
  obtain n where n: "p = py_rstrip CHR ''/'' p @ replicate n CHR ''/''" by (rule py_rstrip_append_slashes)
  have "py_startswith p ''/'' = py_startswith (py_rstrip CHR ''/'' p) ''/''"
    using assms by (subst n) (cases "py_rstrip CHR ''/'' p"; simp add: py_startswith_def)
  then show ?thesis
    unfolding resolve_def using foldl_path_step_slashes [of _ "py_rstrip CHR ''/'' p" n] n by simp
qed

section \<open>Soundness of covering\<close>

lemma py_before_no_sep: "\<not> py_contains sep s \<Longrightarrow> py_before sep s = s"
  by (induction s) auto

lemma no_slash_start: "py_rstrip CHR ''/'' p = [] \<Longrightarrow> \<not> py_startswith p ''/'' \<Longrightarrow> p = []"
  by (rule py_rstrip_append_slashes [of p "CHR ''/''"])
    (metis append_Nil append_Cons py_startswith_append replicate_Suc replicate_empty nat.exhaust append.simps(2))

lemma resolve_slashes:
  assumes "py_rstrip CHR ''/'' p = []"
  shows "resolve cwd p = [] \<or> p = []"
proof -
  obtain n where "p = py_rstrip CHR ''/'' p @ replicate n CHR ''/''" by (rule py_rstrip_append_slashes)
  then have p: "p = replicate n CHR ''/''" using assms by simp
  have "foldl path_step [] (split_char CHR ''/'' p) = []"
    using foldl_path_step_slashes [of "[]" "[]" n] p by (simp add: path_step_def)
  moreover have "p \<noteq> [] \<Longrightarrow> py_startswith p ''/''" using p by (cases n) (simp_all add: py_startswith_def)
  ultimately show ?thesis by (auto simp: resolve_def)
qed

lemma resolve_extend:
  assumes "a \<noteq> []" and "''..'' \<notin> set (split_char CHR ''/'' r)"
  shows "prefix (resolve cwd a) (resolve cwd (a @ CHR ''/'' # r))"
proof -
  have "py_startswith (a @ CHR ''/'' # r) ''/'' = py_startswith a ''/''"
    using assms(1) by (cases a) (simp_all add: py_startswith_def)
  then show ?thesis
    using foldl_path_step_below [OF assms(2)] by (simp add: resolve_def split_char_append)
qed

lemma parents_rstrip:
  assumes "''..'' \<notin> set (split_char CHR ''/'' p)"
  shows "''..'' \<notin> set (split_char CHR ''/'' (py_rstrip CHR ''/'' p))"
proof -
  obtain n where n: "p = py_rstrip CHR ''/'' p @ replicate n CHR ''/''" by (rule py_rstrip_append_slashes)
  show ?thesis
  proof (cases n)
    case (Suc k)
    then show ?thesis
      using assms arg_cong [OF n, of "split_char CHR ''/''"] by (simp add: split_char_append)
  qed (use n assms in simp)
qed

lemma resolve_covers:
  assumes cov: "selector_covers p e" and ne: "p \<noteq> e" and nd: "p \<notin> {''.'', ''./''}"
    and below: "stays_below e"
  shows "prefix (resolve cwd p) (resolve cwd (py_before ''::'' e)) \<and> \<not> py_contains ''::'' p"
proof -
  let ?e = "py_before ''::'' e"
  have nc: "\<not> py_contains ''::'' p"
    using cov ne nd by (auto simp: selector_covers_def Let_def split: if_splits)
  have pp: "py_before ''::'' p = p" using nc by (rule py_before_no_sep)
  consider (eq) "py_rstrip CHR ''/'' p = py_rstrip CHR ''/'' ?e"
    | (below) r where "py_rstrip CHR ''/'' ?e = py_rstrip CHR ''/'' p @ CHR ''/'' # r"
    using cov ne nd nc pp by (auto simp: selector_covers_def Let_def py_startswith_iff split: if_splits)
  then have "prefix (resolve cwd p) (resolve cwd ?e)"
  proof cases
    case eq
    show ?thesis
    proof (cases "py_rstrip CHR ''/'' p = []")
      case True
      then have e: "?e = []" using eq below no_slash_start by (auto simp: stays_below_def Let_def)
      have "resolve cwd p = [] \<or> p = []"
        using resolve_slashes [OF True] .
      then show ?thesis using e by auto
    next
      case False
      then show ?thesis using eq resolve_rstrip by (metis prefix_order.refl)
    qed
  next
    case (below r)
    let ?p = "py_rstrip CHR ''/'' p"
    have ns: "\<not> py_startswith ?e ''/''" and nu: "''..'' \<notin> set (split_char CHR ''/'' ?e)"
      using assms(4) by (auto simp: stays_below_def Let_def)
    obtain n where n: "?e = py_rstrip CHR ''/'' ?e @ replicate n CHR ''/''" by (rule py_rstrip_append_slashes)
    have pne: "?p \<noteq> []"
    proof
      assume "?p = []"
      then have "py_startswith ?e ''/''" using below n by (simp add: py_startswith_def)
      then show False using ns by simp
    qed
    have "''..'' \<notin> set (split_char CHR ''/'' r)"
      using parents_rstrip [OF nu] below by (simp add: split_char_append)
    then have "prefix (resolve cwd ?p) (resolve cwd (py_rstrip CHR ''/'' ?e))"
      using resolve_extend [OF pne] below by simp
    then show ?thesis using resolve_rstrip pne below by (metis Nil_is_append_conv)
  qed
  then show ?thesis using nc by simp
qed

lemma selector_covers_selects:
  assumes "selector_covers p e" and "stays_below e" and "selects cwd e test"
  shows "selects cwd p test"
proof -
  consider "p = e" | "p \<noteq> e" "p \<in> {''.'', ''./''}" | "p \<noteq> e" "p \<notin> {''.'', ''./''}" by blast
  then show ?thesis
  proof cases
    case 2
    have "resolve cwd (py_before ''::'' p) = cwd" and "\<not> py_contains ''::'' p"
      using 2 by (auto simp: resolve_def path_step_def py_startswith_def)
    then show ?thesis
      using resolve_below [OF assms(2), of cwd] assms(3) prefix_order.order_trans
      by (auto simp: selects_def)
  next
    case 3
    then show ?thesis
      using resolve_covers [OF assms(1) 3 assms(2), of cwd] assms(3) prefix_order.order_trans
      by (auto simp: selects_def py_before_no_sep)
  qed (use assms in simp)
qed

text \<open>Selectors as the parser produces them: not empty, without a trailing slash.\<close>

definition parsed_selector :: "string \<Rightarrow> bool" where
  "parsed_selector sel \<longleftrightarrow> sel \<noteq> [] \<and> last sel \<noteq> CHR ''/''"

lemma parsed_selector_of: "parsed_selector (selector_of t)"
  using py_rstrip_not_last [of "CHR ''/''" t] by (auto simp: parsed_selector_def selector_of_def Let_def)

lemma scan_args_parsed:
  "scan_args so args acc = Some sels \<Longrightarrow> \<forall>s\<in>acc. parsed_selector s \<Longrightarrow> \<forall>s\<in>sels. parsed_selector s"
proof (induction args arbitrary: so acc rule: length_induct)
  case (1 args)
  show ?case
  proof (cases args)
    case Nil
    then show ?thesis using "1.prems" by simp
  next
    case (Cons token rest)
    have ih: "scan_args so' args' acc' = Some sels \<Longrightarrow> \<forall>s\<in>acc'. parsed_selector s \<Longrightarrow>
        length args' < length args \<Longrightarrow> ?thesis" for so' args' acc'
      using "1.IH" by blast
    have ins: "\<forall>s\<in>insert (selector_of token) acc. parsed_selector s"
      using "1.prems"(2) parsed_selector_of by simp
    show ?thesis
      using "1.prems"(1) Cons ih [OF _ "1.prems"(2)] ih [OF _ ins]
      by (simp add: Let_def split: if_splits list.splits)
  qed
qed

lemma pytest_test_scope_parsed:
  "pytest_test_scope c = Some sc \<Longrightarrow> \<forall>s\<in>snd sc. parsed_selector s"
  by (auto simp: pytest_test_scope_def Let_def split: if_splits option.splits list.splits
      dest: scan_args_parsed)

lemma selector_covers_cases:
  assumes "parsed_selector p" and "selector_covers p e"
  obtains (same) "p = e" | (all) "p = ''.''"
    | (path) "\<not> py_contains ''::'' p" "p = py_rstrip CHR ''/'' (py_before ''::'' e)"
    | (below) "\<not> py_contains ''::'' p" "py_startswith (py_rstrip CHR ''/'' (py_before ''::'' e)) (p @ ''/'')"
proof -
  have r: "py_rstrip CHR ''/'' p = p" using assms(1) by (auto simp: parsed_selector_def intro: py_rstrip_id)
  have "p \<noteq> ''./''" using assms(1) by (auto simp: parsed_selector_def)
  then show thesis
    using assms(2) that r
    by (auto simp: selector_covers_def Let_def py_before_no_sep split: if_splits)
qed

lemma selector_covers_intro:
  assumes "parsed_selector p" and "\<not> py_contains ''::'' p"
    and "p = py_rstrip CHR ''/'' (py_before ''::'' e) \<or>
         py_startswith (py_rstrip CHR ''/'' (py_before ''::'' e)) (p @ ''/'')"
  shows "selector_covers p e"
proof -
  have r: "py_rstrip CHR ''/'' p = p" using assms(1) by (auto simp: parsed_selector_def intro: py_rstrip_id)
  show ?thesis using assms(2,3) r by (auto simp: selector_covers_def Let_def py_before_no_sep)
qed

lemma selector_covers_trans:
  assumes p: "parsed_selector p" and q: "parsed_selector q"
    and pq: "selector_covers p q" and qr: "selector_covers q r"
  shows "selector_covers p r"
proof -
  have rq: "\<not> py_contains ''::'' q \<Longrightarrow> py_rstrip CHR ''/'' (py_before ''::'' q) = q"
    using q by (auto simp: parsed_selector_def py_before_no_sep intro: py_rstrip_id)
  show ?thesis
    using q qr
  proof (cases rule: selector_covers_cases)
    case same
    then show ?thesis using pq by simp
  next
    case all
    from p pq have "p = ''.''" using all
      by (cases rule: selector_covers_cases) (auto simp: py_startswith_iff Cons_eq_append_conv parsed_selector_def py_rstrip_def py_startswith_def)
    then show ?thesis by (simp add: selector_covers_def)
  next
    case path
    from p pq show ?thesis
    proof (cases rule: selector_covers_cases)
      case (below)
      then show ?thesis using selector_covers_intro [OF p] rq path by metis
    qed (use p qr rq path selector_covers_intro in \<open>auto simp: selector_covers_def\<close>)
  next
    case below
    have t: "py_startswith q (p @ ''/'') \<Longrightarrow> py_startswith (py_rstrip CHR ''/'' (py_before ''::'' r)) (p @ ''/'')"
      using below(2) by (auto simp: py_startswith_iff)
    from p pq show ?thesis
    proof (cases rule: selector_covers_cases)
      case b2: below
      then show ?thesis using selector_covers_intro [OF p] rq below t by metis
    qed (use p qr rq below selector_covers_intro in \<open>auto simp: selector_covers_def\<close>)
  qed
qed

section \<open>Stripping a filter\<close>

lemma py_split_join_words:
  "\<forall>w\<in>set ws. w \<noteq> [] \<and> (\<forall>x\<in>set w. \<not> py_space x) \<Longrightarrow> py_split_ws (py_join '' '' ws) = ws"
proof (induction "'' ''" ws rule: py_join.induct)
  case (3 x y ws)
  then show ?case by (simp add: py_split_ws_append_space py_split_ws_word)
qed (auto simp: py_split_ws_word)

lemma trimmed_words: "\<forall>w\<in>set ws. w \<noteq> [] \<and> (\<forall>x\<in>set w. \<not> py_space x) \<Longrightarrow> trimmed (py_join '' '' ws)"
  using py_join_words [of ws] by (cases ws) (auto simp: trimmed_def)

lemma dropWhile_last:
  assumes "u \<noteq> []" and "\<not> P (last u)"
  shows "dropWhile P (u @ v) = dropWhile P u @ v \<and> dropWhile P u \<noteq> [] \<and> last (dropWhile P u) = last u"
  using assms by (induction u) auto

text \<open>What follows a filter pipe: a word list that starts with neither filter nor white space.\<close>

definition pipe_words :: "string \<Rightarrow> bool" where
  "pipe_words t \<longleftrightarrow> t \<noteq> [] \<and> (hd t = CHR ''|'' \<or> hd t = CHR ''2'') \<and> ''|'' \<in> set (py_split_ws t)"

lemma space_in_cut: "length w < 4 \<Longrightarrow> CHR '' '' \<in> set (take 4 (w @ CHR '' '' # t))"
  by (simp add: take_Cons')

lemma filter_word_cut:
  assumes "length w < 4" and "map ascii_lower (take 4 (w @ CHR '' '' # t)) = x"
    and "x = ''head'' \<or> x = ''tail''"
  shows False
proof -
  have "ascii_lower CHR '' '' \<in> set x"
    using space_in_cut [OF assms(1)] assms(2) by (metis image_eqI list.set_map)
  then show False using assms(3) by (auto simp: ascii_lower_def)
qed

lemma no_pipe_before_pipe:
  assumes "u \<noteq> []" and "\<not> py_space (last u)" and t: "pipe_words t"
  shows "\<not> filter_pipe (u @ CHR '' '' # t)"
proof
  assume fp: "filter_pipe (u @ CHR '' '' # t)"
  let ?s = "CHR '' '' # t"
  obtain c w where cw: "dropWhile py_space u = c # w"
    using dropWhile_last [of u py_space] assms(1,2) by (cases "dropWhile py_space u") auto
  have d: "dropWhile py_space (u @ ?s) = c # (w @ ?s)" and l: "w \<noteq> [] \<longrightarrow> last w = last u"
    using dropWhile_last [of u py_space ?s] assms(1,2) cw by auto
  let ?v = "dropWhile py_space (w @ ?s)"
  have v: "map ascii_lower (take 4 ?v) = ''head'' \<or> map ascii_lower (take 4 ?v) = ''tail''"
    and a: "filter_args (drop 4 ?v)"
    using fp d by (auto simp: filter_pipe_def Let_def)
  show False
  proof (cases w)
    case Nil
    have "?v = t" using Nil t by (cases t) (auto simp: pipe_words_def py_space_def)
    then show False using v t by (cases t) (auto simp: pipe_words_def ascii_lower_def)
  next
    case (Cons)
    then have "\<not> py_space (last w)" using l assms(2) by simp
    then obtain w' where w': "?v = w' @ ?s" "w' \<noteq> []"
      using dropWhile_last [of w py_space ?s] Cons by blast
    have len: "\<not> length w' < 4" using filter_word_cut [of w' t] v w' by auto
    then have "drop 4 ?v = drop 4 w' @ ?s" using w' by simp
    then have "''|'' \<in> set (py_split_ws (drop 4 ?v))" using t by (simp add: py_split_ws_append_space pipe_words_def)
    then have "filter_arg ''|''" using a by (auto simp: filter_args_def)
    then show False by (simp add: filter_arg_def py_startswith_def py_digit_def)
  qed
qed

lemma no_filter_before_pipe:
  assumes u: "u \<noteq> []" "\<not> py_space (last u)" and t: "pipe_words t"
    and merge: "\<nexists>x c. u = x @ c # ''2>&1'' \<and> py_space c"
  shows "\<not> filter_suffix (u @ CHR '' '' # t)"
proof
  let ?s = "CHR '' '' # t"
  assume "filter_suffix (u @ ?s)"
  then have hd: "py_space (hd u)" and m: "py_startswith (dropWhile py_space (u @ ?s)) ''2>&1''"
    and f: "filter_pipe (drop 4 (dropWhile py_space (u @ ?s)))"
    using no_pipe_before_pipe [OF u t] u(1) by (auto simp: filter_suffix_def)
  obtain w where w: "w = dropWhile py_space u" "w \<noteq> []" "last w = last u"
    and d: "dropWhile py_space (u @ ?s) = w @ ?s"
    using dropWhile_last [of u py_space ?s] u by blast
  have cut: "take 4 (w @ ?s) = ''2>&1''"
    using m unfolding d py_startswith_def by (simp add: numeral_eq_Suc)
  have len: "\<not> length w < 4"
  proof
    assume l: "length w < 4"
    have "take 4 (w @ ?s) = ''2>&1''" using cut .
    then show False using space_in_cut [OF l, of t] by auto
  qed
  then have w4: "take 4 w = ''2>&1''" using cut by simp
  show False
  proof (cases "drop 4 w = []")
    case True
    then have "w = ''2>&1''" using w4 by (metis append_Nil2 append_take_drop_id)
    moreover obtain x where x: "u = x @ w" "x \<noteq> []" "\<forall>c\<in>set x. py_space c"
      using w hd u(1) hd_dropWhile [of py_space u]
      by (metis append_Nil set_takeWhileD takeWhile_dropWhile_id)
    moreover have "u = butlast x @ last x # w \<and> py_space (last x)" using x by simp
    ultimately show False using merge by blast
  next
    case False
    have "last (drop 4 w) = last u" using False w by (simp add: last_drop)
    then have "\<not> filter_pipe (drop 4 w @ ?s)" using no_pipe_before_pipe [OF False _ t] u(2) by simp
    then show False using f d len by simp
  qed
qed

lemma strip_filter_append:
  assumes "filter_suffix t" and "t \<noteq> []"
    and "\<And>u v. x = v @ u \<Longrightarrow> u \<noteq> [] \<Longrightarrow> \<not> filter_suffix (u @ t)"
  shows "strip_filter (x @ t) = x"
  using assms(3)
proof (induction x)
  case Nil
  then show ?case using assms(1,2) by (cases t) auto
next
  case (Cons c x)
  have "\<not> filter_suffix (c # x @ t)" using Cons.prems [of "[]" "c # x"] by simp
  moreover have "strip_filter (x @ t) = x"
    by (rule Cons.IH) (use Cons.prems in \<open>metis append_Cons\<close>)
  ultimately show ?case by simp
qed

text \<open>The words of an output filter after a command.\<close>

definition filter_words :: "bool \<Rightarrow> string \<Rightarrow> string list \<Rightarrow> string list" where
  "filter_words merge tool args = (if merge then [''2>&1''] else []) @ [''|'', tool] @ args"

definition filter_word_list :: "bool \<Rightarrow> string \<Rightarrow> string list \<Rightarrow> bool" where
  "filter_word_list merge tool args \<longleftrightarrow> tool \<in> {''head'', ''tail''} \<and>
     (\<forall>w\<in>set args. filter_arg w \<and> (\<forall>x\<in>set w. \<not> py_space x))"

lemma filter_words_ok:
  "filter_word_list merge tool args \<Longrightarrow>
   \<forall>w\<in>set (filter_words merge tool args). w \<noteq> [] \<and> (\<forall>x\<in>set w. \<not> py_space x)"
  by (auto simp: filter_word_list_def filter_words_def filter_arg_def py_startswith_def py_space_def)

lemma filter_pipe_words:
  assumes "filter_word_list merge tool args"
  shows "filter_pipe (CHR '' '' # py_join '' '' (''|'' # tool # args))"
proof -
  let ?r = "if args = [] then [] else CHR '' '' # py_join '' '' args"
  have j: "py_join '' '' (''|'' # tool # args) = CHR ''|'' # CHR '' '' # tool @ ?r"
    by (cases args) auto
  have ok: "\<forall>w\<in>set args. w \<noteq> [] \<and> (\<forall>x\<in>set w. \<not> py_space x)"
    using filter_words_ok [OF assms] by (auto simp: filter_words_def)
  have "py_split_ws ?r = args"
    using py_split_join_words [OF ok] py_split_ws_append_space [of "CHR '' ''" "[]"] by auto
  then have "filter_args ?r" using assms by (auto simp: filter_args_def filter_word_list_def)
  then show ?thesis
    using assms unfolding j
    by (auto simp: filter_pipe_def filter_word_list_def py_space_def ascii_lower_def)
qed

lemma filter_suffix_words:
  assumes "filter_word_list merge tool args"
  shows "filter_suffix (CHR '' '' # py_join '' '' (filter_words merge tool args))"
proof (cases merge)
  case True
  have "py_join '' '' (filter_words merge tool args) = ''2>&1'' @ CHR '' '' # py_join '' '' (''|'' # tool # args)"
    using True by (simp add: filter_words_def)
  then show ?thesis
    using filter_pipe_words [OF assms] by (simp add: filter_suffix_def py_space_def py_startswith_def)
next
  case False
  then show ?thesis using filter_pipe_words [OF assms] by (simp add: filter_suffix_def filter_words_def)
qed

lemma pipe_words_filter:
  assumes "filter_word_list merge tool args"
  shows "pipe_words (py_join '' '' (filter_words merge tool args))"
proof -
  have "py_split_ws (py_join '' '' (filter_words merge tool args)) = filter_words merge tool args"
    by (rule py_split_join_words) (rule filter_words_ok [OF assms])
  moreover have "''|'' \<in> set (filter_words merge tool args)" by (simp add: filter_words_def)
  ultimately show ?thesis by (cases merge) (auto simp: pipe_words_def filter_words_def)
qed

lemma collapse_words:
  "\<forall>w\<in>set ws. w \<noteq> [] \<and> (\<forall>x\<in>set w. \<not> py_space x) \<Longrightarrow> collapse (py_join '' '' ws) = py_join '' '' ws"
  by (simp add: collapse_def py_split_join_words)

lemma filter_step_filtered:
  assumes ne: "py_split_ws c \<noteq> []" and last: "last (py_split_ws c) \<noteq> ''2>&1''"
    and f: "filter_word_list merge tool args"
  shows "filter_step (collapse c @ CHR '' '' # py_join '' '' (filter_words merge tool args)) = collapse c"
proof -
  let ?t = "py_join '' '' (filter_words merge tool args)"
  have "\<not> filter_suffix (u @ CHR '' '' # ?t)" if u: "collapse c = v @ u" "u \<noteq> []" for u v
  proof (rule no_filter_before_pipe [OF u(2) _ pipe_words_filter [OF f]])
    show "\<not> py_space (last u)" using trimmed_collapse [of c] u by (auto simp: trimmed_def)
    have split: "py_split_ws (collapse c) = py_split_ws c"
      unfolding collapse_def using py_split_join_words py_split_ws_words by blast
    show "\<nexists>x d. u = x @ d # ''2>&1'' \<and> py_space d"
    proof clarify
      fix x d
      assume "u = x @ d # ''2>&1''" and d: "py_space d"
      then have "collapse c = (v @ x) @ d # ''2>&1''" using u by simp
      then have "py_split_ws c = py_split_ws (v @ x) @ [''2>&1'']"
        using py_split_ws_append_space [OF d, of "v @ x" "''2>&1''"] split
        by (simp add: py_split_ws_word py_space_def)
      then show False using last by simp
    qed
  qed
  then have "strip_filter (collapse c @ CHR '' '' # ?t) = collapse c"
    using strip_filter_append [OF filter_suffix_words [OF f]] by blast
  then show ?thesis by (simp add: filter_step_def py_strip_trimmed trimmed_collapse)
qed

lemma pytest_scope_narrow: "pytest_test_scope ''pytest tests/a.py'' = Some (''pytest'', {''tests/a.py''})"
  by code_simp

section \<open>Properties\<close>

text \<open>the loop of \<open>_normalize_test_command\<close> that strips trailing output filters ends on every
  command. What it leaves is a prefix of the command, with neither leading nor trailing white
  space, and there is no filter left to strip.\<close>
theorem filter_loop_terminates:
  "\<exists>n. filter_loop (collapse command) = Some n \<and> prefix n (collapse command) \<and> trimmed n \<and>
       filter_step n = n"
  by (rule filter_loop_returns [OF trimmed_collapse [of command]]) blast

text \<open>running the same test command through \<open>head\<close> or \<open>tail\<close>, with any options and with or
  without merging stderr, does not change its identity: the command and the command followed by
  the filter are normalized to the same string (for a command that does not itself end in
  \<open>2>&1\<close>).\<close>
theorem output_filters_do_not_matter:
  assumes "py_split_ws c \<noteq> []" and "last (py_split_ws c) \<noteq> ''2>&1''"
    and "filter_word_list merge tool args"
  shows "normalize_test_command (c @ CHR '' '' # py_join '' '' (filter_words merge tool args)) =
         normalize_test_command c"
proof -
  let ?f = "py_join '' '' (filter_words merge tool args)"
  have ok: "\<forall>w\<in>set (filter_words merge tool args). w \<noteq> [] \<and> (\<forall>x\<in>set w. \<not> py_space x)"
    using filter_words_ok assms(3) .
  have "py_split_ws ?f \<noteq> []" using py_split_join_words [OF ok] by (simp add: filter_words_def)
  then have col: "collapse (c @ CHR '' '' # ?f) = collapse c @ CHR '' '' # ?f"
    using collapse_append [OF assms(1)] collapse_words [OF ok] by simp
  have "filter_loop (collapse c @ CHR '' '' # ?f) = filter_loop (collapse c)"
    using filter_step_filtered [OF assms] by (subst filter_loop_unfold) simp
  then show ?thesis by (simp add: normalize_test_command_def col)
qed

theorem output_filters_do_not_matter_witness:
  "normalize_test_command (''pytest tests'' @ CHR '' '' # py_join '' '' (filter_words True ''head'' [''-100''])) =
   normalize_test_command ''pytest tests''"
  by (rule output_filters_do_not_matter) code_simp+

text \<open>a stderr merge that follows the filter defeats the normalization: \<open>| head 2>&1\<close> loses its
  merge but keeps its pipe, because the merge is removed after the loop is done. Normalizing is
  therefore not idempotent, and the command has no comparable scope.\<close>
theorem merge_after_filter_keeps_pipe:
  "normalize_test_command ''pytest tests | head 2>&1'' = ''pytest tests | head'' \<and>
   normalize_test_command ''pytest tests | head'' = ''pytest tests'' \<and>
   pytest_test_scope ''pytest tests | head 2>&1'' = None"
  by (intro conjI; code_simp)

text \<open>C19: covering is sound for selectors that are relative and do not leave the working directory: when the
  scope of a passing pytest command covers the scope of an earlier one with only such selectors, every test
  the earlier command selects is selected by the passing one, whatever the working directory. For
  selectors with \<open>..\<close> it is not: see \<open>parent_directory_covered\<close>.\<close>
theorem covering_is_sound:
  assumes cov: "pytest_scope_covers (Some passing) (Some earlier)"
    and below: "\<forall>sel\<in>snd earlier. stays_below sel"
    and sel: "scope_selects cwd earlier test"
  shows "scope_selects cwd passing test"
proof (cases "snd passing = {}")
  case True
  then show ?thesis
    using sel below resolve_below prefix_order.order_trans
    by (fastforce simp: scope_selects_def selects_def split: if_splits)
next
  case False
  then have ne: "snd earlier \<noteq> {}"
    and c: "\<forall>e\<in>snd earlier. \<exists>p\<in>snd passing. selector_covers p e"
    using cov by (auto simp: pytest_scope_covers_def split: prod.splits if_splits)
  obtain e where e: "e \<in> snd earlier" "selects cwd e test" using sel ne by (auto simp: scope_selects_def)
  then obtain p where "p \<in> snd passing" "selector_covers p e" using c by blast
  moreover have "selects cwd p test" using selector_covers_selects calculation(2) below e by blast
  ultimately show ?thesis using False by (auto simp: scope_selects_def)
qed

theorem covering_is_sound_witness:
  "scope_selects [''repo''] (''pytest'', {''tests''}) ([''repo'', ''tests'', ''a.py''], ''test_x'')"
  by (rule covering_is_sound [of _ "(''pytest'', {''tests/a.py::test_x''})"]) code_simp+

text \<open>a selector that leaves the working directory is taken for covered: the passing scope
  \<open>.\<close> covers an earlier failure of \<open>../shared\<close>, and the passing scope \<open>tests\<close> covers
  \<open>tests/../other\<close>, although it selects none of the tests of either.\<close>
theorem parent_directory_covered:
  "pytest_scope_covers (pytest_test_scope ''pytest .'') (pytest_test_scope ''pytest ../shared'') \<and>
   scope_selects [''repo'', ''app''] (''pytest'', {''../shared''}) ([''repo'', ''shared'', ''a.py''], ''t'') \<and>
   \<not> scope_selects [''repo'', ''app''] (''pytest'', {''.''}) ([''repo'', ''shared'', ''a.py''], ''t'') \<and>
   pytest_scope_covers (pytest_test_scope ''pytest tests'') (pytest_test_scope ''pytest tests/../other'')"
  by (intro conjI; code_simp)

text \<open>covering composes: what covers a scope that covers a third covers the third, for the
  scopes of pytest commands.\<close>
theorem covering_is_transitive:
  assumes "pytest_test_scope a = Some sa" and "pytest_test_scope b = Some sb"
    and ab: "pytest_scope_covers (Some sa) (Some sb)" and bc: "pytest_scope_covers (Some sb) sc"
  shows "pytest_scope_covers (Some sa) sc"
proof (cases sc)
  case None
  then show ?thesis using bc by (simp add: pytest_scope_covers_def)
next
  case (Some scope)
  obtain ctx S T U where S: "sa = (ctx, S)" "sb = (ctx, T)" "scope = (ctx, U)"
    using ab bc Some by (cases sa; cases sb; cases scope) (auto simp: pytest_scope_covers_def split: if_splits)
  have "\<forall>s\<in>S. parsed_selector s" and "\<forall>s\<in>T. parsed_selector s"
    using pytest_test_scope_parsed assms(1,2) S by fastforce+
  then show ?thesis
    using ab bc Some S selector_covers_trans
    by (simp add: pytest_scope_covers_def split: if_splits) (meson empty_iff equals0I)
qed

theorem covering_is_transitive_witness:
  "pytest_scope_covers (Some (''pytest'', {''tests''})) (Some (''pytest'', {''tests/unit/a.py''}))"
  by (rule covering_is_transitive [of "''pytest tests''" _ "''pytest tests/unit''" "(''pytest'', {''tests/unit''})"])
    code_simp+

text \<open>a targeted pass never clears a failed run of the whole suite, and no pass clears a failure
  in a different execution context.\<close>
theorem targeted_pass_never_covers:
  "(pytest_scope_covers passing (Some (context, {})) \<longleftrightarrow> passing = Some (context, {})) \<and>
   (pytest_scope_covers (Some (c1, S)) (Some (c2, T)) \<longrightarrow> c1 = c2)"
  by (auto simp: pytest_scope_covers_def split: option.splits if_splits)

theorem targeted_pass_never_covers_witness:
  "\<not> pytest_scope_covers (pytest_test_scope ''pytest tests/a.py'') (Some (''pytest'', {})) \<and>
   \<not> pytest_scope_covers (Some (''pytest'', {''a''})) (Some (''python -m pytest'', {''a''}))"
  using targeted_pass_never_covers [of "pytest_test_scope ''pytest tests/a.py''" "''pytest''"
      "''pytest''" "{''a''}" "''python -m pytest''" "{''a''}"]
  by (simp add: pytest_scope_narrow)

end
