(* ===== verification/Command_Evidence.thy ===== *)
theory Command_Evidence
  imports Py_Text
begin

text \<open>
  The facts about command executions
  (\<open>app/modules/workspace/autonomous/command_evidence/types.py\<close>, \<open>recorder.py\<close> and
  \<open>app/repositories/command_evidence_repo.py\<close>): why a command stopped, the verdict on one
  command, the bounded excerpt of its output, the recorder that turns the events of an agent
  session into rows, and the upsert of a row by session and command. The table is the list of its
  rows in id order; writes reach it in the order in which the recorder submits them. The digest
  of an output and Python's \<open>str\<close> of an argument that is not a string are parameters.
\<close>

section \<open>Terminal reasons and verdicts\<close>

datatype terminal_reason = COMPLETED | TIMEOUT | SIGNAL | CANCELLED | CRASH | MISSING_RESULT

fun reason_value :: "terminal_reason \<Rightarrow> string" where
  "reason_value COMPLETED = ''completed''"
| "reason_value TIMEOUT = ''timeout''"
| "reason_value SIGNAL = ''signal''"
| "reason_value CANCELLED = ''cancelled''"
| "reason_value CRASH = ''crash''"
| "reason_value MISSING_RESULT = ''missing_result''"

datatype execution_verdict = PASSED | FAILED | NOT_RUN | INCONCLUSIVE

fun verdict_value :: "execution_verdict \<Rightarrow> string" where
  "verdict_value PASSED = ''passed''"
| "verdict_value FAILED = ''failed''"
| "verdict_value NOT_RUN = ''not_run''"
| "verdict_value INCONCLUSIVE = ''inconclusive''"

lemma verdict_value_inj [simp]: "verdict_value a = verdict_value b \<longleftrightarrow> a = b"
  by (cases a; cases b) auto

definition derive_terminal_reason :: "int option \<Rightarrow> int option \<Rightarrow> bool \<Rightarrow> bool \<Rightarrow> bool \<Rightarrow> terminal_reason" where
  "derive_terminal_reason exit_code signal timed_out cancelled has_result =
     (if cancelled then CANCELLED
      else if timed_out then TIMEOUT
      else if signal \<noteq> None \<and> signal \<noteq> Some 0 then SIGNAL
      else if \<not> has_result then MISSING_RESULT
      else if exit_code = None then CRASH
      else COMPLETED)"

definition derive_execution_verdict :: "int option \<Rightarrow> string \<Rightarrow> execution_verdict" where
  "derive_execution_verdict exit_code reason =
     (if reason = reason_value COMPLETED then
        (if exit_code = Some 0 then PASSED else if exit_code = None then INCONCLUSIVE else FAILED)
      else if reason = reason_value MISSING_RESULT then NOT_RUN
      else FAILED)"

section \<open>Output excerpts\<close>

definition output_excerpt_max :: nat where "output_excerpt_max = 4096"

definition excerpt_half :: nat where "excerpt_half = output_excerpt_max div 2"

definition truncation_mark :: string where
  "truncation_mark = [CHR 0x0A] @ ''...[truncated]...'' @ [CHR 0x0A]"

definition bound_excerpt :: "string option \<Rightarrow> string" where
  "bound_excerpt text =
     (case text of
        None \<Rightarrow> []
      | Some t \<Rightarrow>
          if length t \<le> output_excerpt_max then t
          else take excerpt_half t @ truncation_mark @ drop (length t - excerpt_half) t)"

section \<open>Quoting\<close>

text \<open>\<open>shlex.quote\<close> and \<open>shlex.join\<close>: a word of safe ASCII characters stays as it is, any other is put
  between single quotes, with each single quote inside it between double quotes.\<close>

definition shlex_safe :: "char \<Rightarrow> bool" where
  "shlex_safe c \<longleftrightarrow> (let n = (of_char c :: nat) in
     48 \<le> n \<and> n \<le> 57 \<or> 65 \<le> n \<and> n \<le> 90 \<or> n = 95 \<or> 97 \<le> n \<and> n \<le> 122) \<or>
     c \<in> set ''@%+=:,./-''"

fun quote_single :: "string \<Rightarrow> string" where
  "quote_single [] = []"
| "quote_single (c # cs) = (if c = sq then [sq, dq, sq, dq, sq] else [c]) @ quote_single cs"

definition shlex_quote :: "string \<Rightarrow> string" where
  "shlex_quote s =
     (if s = [] then [sq, sq] else if \<forall>c\<in>set s. shlex_safe c then s else sq # quote_single s @ [sq])"

definition shlex_join :: "string list \<Rightarrow> string" where
  "shlex_join ws = py_join '' '' (map shlex_quote ws)"

section \<open>Rows\<close>

record command_evidence =
  ce_id :: "nat option"
  ce_command_id :: string
  ce_workflow_id :: string
  ce_session_id :: string
  ce_milestone_id :: string
  ce_sandbox_id :: "string option"
  ce_sandbox_generation :: "int option"
  ce_tool_name :: string
  ce_argv :: "string list option"
  ce_shell_command :: "string option"
  ce_started_at :: "instant option"
  ce_completed_at :: "instant option"
  ce_exit_code :: "int option"
  ce_signal :: "int option"
  ce_timed_out :: bool
  ce_cancelled :: bool
  ce_terminal_reason :: string
  ce_stdout_digest :: "string option"
  ce_output_excerpt :: string
  ce_tenant_id :: int

definition blank_evidence :: "string \<Rightarrow> string \<Rightarrow> command_evidence" where
  "blank_evidence command_id session_id =
     \<lparr>ce_id = None, ce_command_id = command_id, ce_workflow_id = [], ce_session_id = session_id,
      ce_milestone_id = [], ce_sandbox_id = None, ce_sandbox_generation = None, ce_tool_name = [],
      ce_argv = None, ce_shell_command = None, ce_started_at = None, ce_completed_at = None,
      ce_exit_code = None, ce_signal = None, ce_timed_out = False, ce_cancelled = False,
      ce_terminal_reason = [], ce_stdout_digest = None, ce_output_excerpt = [], ce_tenant_id = 1\<rparr>"

type_synonym evidence_table = "command_evidence list"

definition row_of :: "string \<Rightarrow> string \<Rightarrow> command_evidence \<Rightarrow> bool" where
  "row_of session_id command_id r \<longleftrightarrow> ce_session_id r = session_id \<and> ce_command_id r = command_id"

definition fetch_by_session_command :: "evidence_table \<Rightarrow> string \<Rightarrow> string \<Rightarrow> command_evidence option" where
  "fetch_by_session_command t session_id command_id =
     (if session_id = [] \<or> command_id = [] then None else find (row_of session_id command_id) t)"

text \<open>The columns the UPDATE writes; the identity and attribution columns are not among them.\<close>

definition update_row :: "command_evidence \<Rightarrow> command_evidence \<Rightarrow> command_evidence" where
  "update_row e r =
     r\<lparr>ce_exit_code := ce_exit_code e, ce_signal := ce_signal e, ce_timed_out := ce_timed_out e,
       ce_cancelled := ce_cancelled e, ce_terminal_reason := ce_terminal_reason e,
       ce_completed_at := ce_completed_at e, ce_stdout_digest := ce_stdout_digest e,
       ce_output_excerpt := ce_output_excerpt e\<rparr>"

text \<open>The row the INSERT stores: an empty argument list is stored as NULL, ids count up.\<close>

definition insert_row :: "evidence_table \<Rightarrow> command_evidence \<Rightarrow> command_evidence" where
  "insert_row t e =
     e\<lparr>ce_id := Some (Suc (length t)),
       ce_argv := (if ce_argv e = Some [] then None else ce_argv e)\<rparr>"

definition upsert :: "evidence_table \<Rightarrow> command_evidence \<Rightarrow> evidence_table result" where
  "upsert t e =
     (case fetch_by_session_command t (ce_session_id e) (ce_command_id e) of
        None \<Rightarrow>
          if find (row_of (ce_session_id e) (ce_command_id e)) t \<noteq> None then Inl DBError
          else Inr (t @ [insert_row t e])
      | Some _ \<Rightarrow>
          Inr (map (\<lambda>r. if row_of (ce_session_id e) (ce_command_id e) r then update_row e r else r) t))"

definition query_by_session :: "evidence_table \<Rightarrow> string \<Rightarrow> command_evidence list" where
  "query_by_session t session_id = filter (\<lambda>r. ce_session_id r = session_id) t"

definition query_by_milestone :: "evidence_table \<Rightarrow> string \<Rightarrow> string \<Rightarrow> command_evidence list" where
  "query_by_milestone t workflow_id milestone_id =
     filter (\<lambda>r. ce_workflow_id r = workflow_id \<and> ce_milestone_id r = milestone_id) t"

section \<open>The recorder\<close>

text \<open>An event of the session log. A field the event lacks has the value its reader substitutes; an
  entry of the log that is not a dictionary is \<open>None\<close>.\<close>

record agent_event =
  ev_type :: string
  ev_tool_use_id :: string
  ev_id :: string
  ev_tool_name :: string
  ev_tool_input :: json
  ev_exit_code :: "int option"
  ev_is_error :: bool
  ev_text :: "string option"

text \<open>What the recorder attributes every row of a call to, and the clock: \<open>ec_clock ctx n\<close> is the reading for
  the row of the n-th call or result.\<close>

record emit_context =
  ec_session :: string
  ec_workflow :: string
  ec_milestone :: string
  ec_sandbox_id :: "string option"
  ec_sandbox_generation :: "int option"
  ec_clock :: "nat \<Rightarrow> instant"

definition event_command_id :: "agent_event \<Rightarrow> string" where
  "event_command_id ev = (if ev_tool_use_id ev \<noteq> [] then ev_tool_use_id ev else ev_id ev)"

definition event_argv :: "(json \<Rightarrow> string) \<Rightarrow> json \<Rightarrow> string list option" where
  "event_argv str tool_input =
     (case por (jget tool_input ''argv'') (jget tool_input ''args'') of
        JList parts \<Rightarrow> Some (map (\<lambda>p. case p of JStr s \<Rightarrow> s | _ \<Rightarrow> str p) parts)
      | JStr s \<Rightarrow> if py_strip s \<noteq> [] then Some [s] else None
      | _ \<Rightarrow> None)"

definition event_shell_command :: "(json \<Rightarrow> string) \<Rightarrow> json \<Rightarrow> string option" where
  "event_shell_command str tool_input =
     (let shell = por (jget tool_input ''command'') (jget tool_input ''cmd'')
      in case shell of
           JStr (c # cs) \<Rightarrow> Some (c # cs)
         | _ \<Rightarrow>
           (case event_argv str tool_input of
              Some (w # ws) \<Rightarrow> Some (shlex_join (w # ws))
            | _ \<Rightarrow> (case shell of JStr s \<Rightarrow> Some s | _ \<Rightarrow> None)))"

definition tool_use_row :: "(json \<Rightarrow> string) \<Rightarrow> emit_context \<Rightarrow> instant \<Rightarrow> agent_event \<Rightarrow> command_evidence" where
  "tool_use_row str ctx now ev =
     (let tool_input = (if is_obj (ev_tool_input ev) then ev_tool_input ev else JObj [])
      in (blank_evidence (event_command_id ev) (ec_session ctx))
           \<lparr>ce_workflow_id := ec_workflow ctx, ce_milestone_id := ec_milestone ctx,
            ce_sandbox_id := ec_sandbox_id ctx, ce_sandbox_generation := ec_sandbox_generation ctx,
            ce_tool_name := ev_tool_name ev, ce_shell_command := event_shell_command str tool_input,
            ce_argv := event_argv str tool_input, ce_started_at := Some now\<rparr>)"

definition output_digest :: "(string \<Rightarrow> string) \<Rightarrow> string \<Rightarrow> string option" where
  "output_digest sha256 excerpt = (if excerpt = [] then None else Some (sha256 excerpt))"

definition result_exit_code :: "agent_event \<Rightarrow> int" where
  "result_exit_code ev =
     (case ev_exit_code ev of Some n \<Rightarrow> n | None \<Rightarrow> if ev_is_error ev then 1 else 0)"

definition tool_result_row :: "(string \<Rightarrow> string) \<Rightarrow> emit_context \<Rightarrow> instant \<Rightarrow> agent_event \<Rightarrow> command_evidence" where
  "tool_result_row sha256 ctx now ev =
     (let exit_code = Some (result_exit_code ev);
          excerpt = bound_excerpt (ev_text ev)
      in (blank_evidence (event_command_id ev) (ec_session ctx))
           \<lparr>ce_sandbox_id := ec_sandbox_id ctx, ce_sandbox_generation := ec_sandbox_generation ctx,
            ce_exit_code := exit_code, ce_signal := None, ce_timed_out := False, ce_cancelled := False,
            ce_terminal_reason := reason_value (derive_terminal_reason exit_code None False False True),
            ce_completed_at := Some now, ce_output_excerpt := excerpt,
            ce_stdout_digest := output_digest sha256 excerpt\<rparr>)"

definition missing_result_row :: "emit_context \<Rightarrow> string \<Rightarrow> command_evidence" where
  "missing_result_row ctx command_id =
     (blank_evidence command_id (ec_session ctx))\<lparr>ce_terminal_reason := reason_value MISSING_RESULT\<rparr>"

text \<open>The state of the pass over the log: the ids of the calls and of the results seen, the ids in
  the order of their first appearance, and the rows submitted so far.\<close>

record emit_state =
  es_pending :: "string list"
  es_results :: "string list"
  es_order :: "string list"
  es_writes :: "command_evidence list"

definition note_id :: "string \<Rightarrow> string list \<Rightarrow> string list" where
  "note_id k ks = (if k \<in> set ks then ks else ks @ [k])"

definition emit_event ::
  "(string \<Rightarrow> string) \<Rightarrow> (json \<Rightarrow> string) \<Rightarrow> emit_context \<Rightarrow> emit_state \<Rightarrow> agent_event option \<Rightarrow> emit_state" where
  "emit_event sha256 str ctx st entry =
     (case entry of
        None \<Rightarrow> st
      | Some ev \<Rightarrow>
          (let command_id = event_command_id ev; now = ec_clock ctx (length (es_writes st))
           in if command_id = [] then st
              else if ev_type ev = ''tool_use'' then
                st\<lparr>es_pending := note_id command_id (es_pending st),
                   es_order := note_id command_id (es_order st),
                   es_writes := es_writes st @ [tool_use_row str ctx now ev]\<rparr>
              else if ev_type ev = ''tool_result'' then
                st\<lparr>es_results := note_id command_id (es_results st),
                   es_order := note_id command_id (es_order st),
                   es_writes := es_writes st @ [tool_result_row sha256 ctx now ev]\<rparr>
              else st))"

definition emit_writes ::
  "(string \<Rightarrow> string) \<Rightarrow> (json \<Rightarrow> string) \<Rightarrow> emit_context \<Rightarrow> agent_event option list \<Rightarrow> command_evidence list" where
  "emit_writes sha256 str ctx event_log =
     (let st = foldl (emit_event sha256 str ctx)
                 \<lparr>es_pending = [], es_results = [], es_order = [], es_writes = []\<rparr> event_log
      in es_writes st @
         map (missing_result_row ctx)
           (filter (\<lambda>k. k \<in> set (es_pending st) \<and> k \<notin> set (es_results st)) (es_order st)))"

text \<open>The writer: a write that raises leaves the table as it was.\<close>

definition run_write :: "evidence_table \<Rightarrow> command_evidence \<Rightarrow> evidence_table" where
  "run_write t e = (case upsert t e of Inl _ \<Rightarrow> t | Inr t' \<Rightarrow> t')"

definition emit_from_event_log ::
  "(string \<Rightarrow> string) \<Rightarrow> (json \<Rightarrow> string) \<Rightarrow> bool \<Rightarrow> emit_context \<Rightarrow> agent_event option list \<Rightarrow>
   evidence_table \<Rightarrow> evidence_table" where
  "emit_from_event_log sha256 str is_noop ctx event_log t =
     (if is_noop \<or> ec_session ctx = [] \<or> event_log = [] then t
      else foldl run_write t (emit_writes sha256 str ctx event_log))"

text \<open>\<open>compare_verdicts\<close>: the structured verdict, whether it diverges from the heuristic one, and the
  verdicts of the commands.\<close>

definition row_verdict :: "command_evidence \<Rightarrow> execution_verdict" where
  "row_verdict r =
     derive_execution_verdict (ce_exit_code r)
       (if ce_terminal_reason r = [] then ''missing_result'' else ce_terminal_reason r)"

definition compare_verdicts :: "bool \<Rightarrow> command_evidence list \<Rightarrow> string \<times> bool \<times> execution_verdict list" where
  "compare_verdicts heuristic_passed evidence_rows =
     (if evidence_rows = [] then (''not_run'', heuristic_passed, [])
      else
        (let verdicts = map row_verdict evidence_rows;
             structured_passed = list_all (\<lambda>v. v = PASSED) verdicts
         in (if structured_passed then ''passed'' else ''failed'', structured_passed \<noteq> heuristic_passed, verdicts)))"

declare derive_terminal_reason_def [py_defs] derive_execution_verdict_def [py_defs]
  event_command_id_def [py_defs] result_exit_code_def [py_defs] row_of_def [db_defs]
  fetch_by_session_command_def [db_defs] upsert_def [db_defs] update_row_def [db_defs]
  insert_row_def [db_defs]

section \<open>Quoted words are read back\<close>

lemma shlex_go_quoted: "shlex_go (Quoted sq) tok True (quote_single s @ sq # r) = shlex_go Word (rev s @ tok) True r"
  by (induction s arbitrary: tok) (auto simp: shlex_space_def)

lemma shlex_safe_plain: "shlex_safe c \<Longrightarrow> \<not> shlex_space c \<and> c \<noteq> sq \<and> c \<noteq> dq \<and> c \<noteq> bsl"
  by (auto simp: shlex_safe_def shlex_space_def Let_def)

lemma shlex_go_safe:
  "\<forall>c\<in>set s. shlex_safe c \<Longrightarrow> shlex_go Word tok q (s @ r) = shlex_go Word (rev s @ tok) q r"
  by (induction s arbitrary: tok) (auto dest: shlex_safe_plain)

lemma shlex_go_quote:
  "shlex_go Blank [] False (shlex_quote s @ r) = shlex_go Word (rev s) (\<not> (s \<noteq> [] \<and> (\<forall>c\<in>set s. shlex_safe c))) r"
proof (cases "s \<noteq> [] \<and> (\<forall>c\<in>set s. shlex_safe c)")
  case True
  then obtain c cs where s: "s = c # cs" by (cases s) auto
  then show ?thesis
    using True shlex_go_safe [of cs "[c]" False r] shlex_safe_plain [of c] by (auto simp: shlex_quote_def)
next
  case False
  have "shlex_go Blank [] False (sq # quote_single s @ sq # r) = shlex_go Word (rev s) True r"
    by (cases s) (auto simp: shlex_space_def shlex_go_quoted)
  then show ?thesis using False by (auto simp: shlex_quote_def)
qed

lemma shlex_go_word_end:
  "shlex_go Word (rev s) (\<not> (s \<noteq> [] \<and> P)) (CHR '' '' # r) = map_option ((#) s) (shlex_go Blank [] False r)"
  by (simp add: shlex_space_def)

lemma shlex_split_join: "shlex_split (shlex_join ws) = Some ws"
  unfolding shlex_split_def shlex_join_def
proof (induction ws rule: induct_list012)
  case (2 w)
  then show ?case using shlex_go_quote [of w "[]"] by auto
next
  case (3 w v ws)
  then show ?case
    using shlex_go_quote [of w "CHR '' '' # py_join '' '' (map shlex_quote (v # ws))"]
    shlex_go_word_end [of w "\<forall>c\<in>set w. shlex_safe c" "py_join '' '' (map shlex_quote (v # ws))"]
    by simp
qed simp

section \<open>Writes to the table\<close>

definition row_at :: "evidence_table \<Rightarrow> string \<Rightarrow> string \<Rightarrow> command_evidence option" where
  "row_at t session_id command_id = find (row_of session_id command_id) t"

definition keyed :: "command_evidence \<Rightarrow> bool" where
  "keyed e \<longleftrightarrow> ce_session_id e \<noteq> [] \<and> ce_command_id e \<noteq> []"

lemma update_row_key [simp]:
  "row_of s k (update_row e r) = row_of s k r" "keyed (update_row e r) = keyed r"
  by (simp_all add: row_of_def update_row_def keyed_def)

lemma insert_row_key [simp]: "row_of s k (insert_row t e) = row_of s k e"
  by (simp add: row_of_def insert_row_def)

lemma update_row_again [simp]:
  "update_row e (update_row e' r) = update_row e r" "update_row e (insert_row t e) = insert_row t e"
  by (simp_all add: update_row_def insert_row_def)

lemma find_map_key:
  "(\<And>r. P (f r) = P r) \<Longrightarrow> find P (map f t) = map_option f (find P t)"
  by (induction t) auto

lemma find_append: "find P (xs @ ys) = (case find P xs of None \<Rightarrow> find P ys | Some x \<Rightarrow> Some x)"
  by (induction xs) auto

lemma run_write_keyed:
  assumes "keyed e"
  shows "run_write t e =
    (if row_at t (ce_session_id e) (ce_command_id e) = None then t @ [insert_row t e]
     else map (\<lambda>r. if row_of (ce_session_id e) (ce_command_id e) r then update_row e r else r) t)"
  using assms
  by (simp add: run_write_def upsert_def fetch_by_session_command_def row_at_def keyed_def
      split: option.splits)

definition same_key :: "command_evidence \<Rightarrow> command_evidence \<Rightarrow> bool" where
  "same_key r e \<longleftrightarrow> row_of (ce_session_id e) (ce_command_id e) r"

lemma same_key_row_of: "row_of s k e \<Longrightarrow> same_key r e = row_of s k r"
  by (auto simp: same_key_def row_of_def)

lemma row_at_run_write:
  assumes "keyed e"
  shows "row_at (run_write t e) s k =
    (if row_of s k e then
       Some (case row_at t s k of None \<Rightarrow> insert_row t e | Some r \<Rightarrow> update_row e r)
     else row_at t s k)"
proof (cases "row_of s k e")
  case True
  then have k: "ce_session_id e = s" "ce_command_id e = k" by (auto simp: row_of_def)
  let ?f = "\<lambda>r. if row_of s k r then update_row e r else r"
  have "find (row_of s k) (map ?f t) = map_option ?f (find (row_of s k) t)"
    by (rule find_map_key) simp
  moreover have "find (row_of s k) t = Some r \<Longrightarrow> row_of s k r" for r by (auto simp: find_Some_iff)
  ultimately show ?thesis
    using True k by (cases "find (row_of s k) t")
      (auto simp: run_write_keyed [OF assms] row_at_def find_append)
next
  case False
  let ?f = "\<lambda>r. if row_of (ce_session_id e) (ce_command_id e) r then update_row e r else r"
  have "find (row_of s k) (map ?f t) = map_option ?f (find (row_of s k) t)"
    by (rule find_map_key) simp
  moreover have "row_of s k r \<Longrightarrow> ?f r = r" for r using False by (auto simp: row_of_def)
  moreover have "find (row_of s k) t = Some r \<Longrightarrow> row_of s k r" for r by (auto simp: find_Some_iff)
  ultimately have "find (row_of s k) (map ?f t) = find (row_of s k) t"
    by (cases "find (row_of s k) t") auto
  then show ?thesis
    using False by (auto simp: run_write_keyed [OF assms] row_at_def find_append split: option.splits)
qed

lemma insert_row_split:
  "insert_row t e = update_row e ((insert_row [] e)\<lparr>ce_id := Some (Suc (length t))\<rparr>)"
  by (simp add: insert_row_def update_row_def)

text \<open>What a batch of writes leaves of a row: its identity from the first write or the old row, its
  terminal columns from the last write.\<close>

lemma row_at_writes:
  assumes "\<forall>e\<in>set ws. keyed e" and "filter (row_of s k) ws \<noteq> []"
  shows "\<exists>r n. row_at (foldl run_write t ws) s k = Some (update_row (last (filter (row_of s k) ws)) r) \<and>
     r = (case row_at t s k of Some r0 \<Rightarrow> r0
          | None \<Rightarrow> (insert_row [] (hd (filter (row_of s k) ws)))\<lparr>ce_id := n\<rparr>)"
  using assms
proof (induction ws rule: rev_induct)
  case (snoc e ws)
  have ke: "keyed e" using snoc.prems(1) by simp
  show ?case
  proof (cases "filter (row_of s k) ws = []")
    case True
    then have e: "row_of s k e" using snoc.prems(2) by (auto split: if_splits)
    have "row_at (foldl run_write t ws) s k = row_at t s k"
      using True snoc.prems(1)
    proof (induction ws arbitrary: t)
      case (Cons a ws)
      then show ?case by (simp add: row_at_run_write split: if_splits)
    qed simp
    then have w: "row_at (foldl run_write t (ws @ [e])) s k =
        Some (case row_at t s k of None \<Rightarrow> insert_row (foldl run_write t ws) e | Some r \<Rightarrow> update_row e r)"
      using e by (simp add: row_at_run_write [OF ke])
    have f: "filter (row_of s k) (ws @ [e]) = [e]" using True e by simp
    show ?thesis
    proof (cases "row_at t s k")
      case None
      show ?thesis
        unfolding w f using None insert_row_split [of "foldl run_write t ws" e] by auto
    next
      case (Some r)
      then show ?thesis unfolding w f by auto
    qed
  next
    case False
    then obtain r n where r: "row_at (foldl run_write t ws) s k = Some (update_row (last (filter (row_of s k) ws)) r)"
      "r = (case row_at t s k of Some r0 \<Rightarrow> r0 | None \<Rightarrow> (insert_row [] (hd (filter (row_of s k) ws)))\<lparr>ce_id := n\<rparr>)"
      using snoc.IH snoc.prems(1) by auto
    have hd: "hd (filter (row_of s k) (ws @ [e])) = hd (filter (row_of s k) ws)" using False by (simp add: hd_append)
    have "row_at (foldl run_write t (ws @ [e])) s k = Some (update_row (last (filter (row_of s k) (ws @ [e]))) r)"
      using r(1) False by (simp add: row_at_run_write [OF ke])
    then show ?thesis using r(2) unfolding hd by blast
  qed
qed simp

text \<open>A second pass of the same writes changes nothing.\<close>

definition settled :: "command_evidence list \<Rightarrow> command_evidence \<Rightarrow> bool" where
  "settled ws r \<longleftrightarrow> (filter (same_key r) ws \<noteq> [] \<longrightarrow> update_row (last (filter (same_key r) ws)) r = r)"

lemma same_key_update [simp]:
  "same_key (update_row e r) = same_key r" "same_key (insert_row t e) = same_key e"
  by (simp_all add: same_key_def fun_eq_iff)

lemma same_key_refl [simp]: "same_key e e"
  by (simp add: same_key_def row_of_def)


lemma run_write_settled:
  assumes "keyed e" and "r \<in> set (run_write t e)"
  shows "same_key r e \<and> update_row e r = r \<or> \<not> same_key r e \<and> r \<in> set t"
proof -
  have "row_of (ce_session_id e) (ce_command_id e) e" by (simp add: row_of_def)
  moreover have "row_at t (ce_session_id e) (ce_command_id e) = None \<Longrightarrow> r \<in> set t \<Longrightarrow> \<not> same_key r e"
    by (auto simp: row_at_def find_None_iff same_key_def)
  ultimately show ?thesis
    using assms by (auto simp: run_write_keyed same_key_def split: if_splits)
qed

lemma foldl_writes_settled:
  "\<forall>e\<in>set ws. keyed e \<Longrightarrow> r \<in> set (foldl run_write t ws) \<Longrightarrow> settled ws r"
proof (induction ws rule: rev_induct)
  case (snoc e ws)
  then show ?case using run_write_settled [of e r "foldl run_write t ws"] by (auto simp: settled_def)
qed (simp add: settled_def)

lemma row_at_mono:
  "keyed e \<Longrightarrow> row_at t s k \<noteq> None \<Longrightarrow> row_at (run_write t e) s k \<noteq> None"
  by (simp add: row_at_run_write)

lemma foldl_writes_present:
  "\<forall>e\<in>set ws. keyed e \<Longrightarrow> e \<in> set ws \<Longrightarrow> row_at (foldl run_write t ws) (ce_session_id e) (ce_command_id e) \<noteq> None"
proof (induction ws rule: rev_induct)
  case (snoc a ws)
  then show ?case by (auto simp: row_at_run_write row_of_def)
qed simp

lemma foldl_writes_again:
  assumes "\<forall>e\<in>set ws. keyed e \<and> row_at t (ce_session_id e) (ce_command_id e) \<noteq> None"
  shows "foldl run_write t ws =
    map (\<lambda>r. if filter (same_key r) ws = [] then r else update_row (last (filter (same_key r) ws)) r) t"
  using assms
proof (induction ws rule: rev_induct)
  case (snoc e ws)
  let ?t = "foldl run_write t ws"
  have k: "keyed e" using snoc.prems by simp
  have "row_at (foldl run_write t vs) (ce_session_id e) (ce_command_id e) \<noteq> None"
    if "\<forall>a\<in>set vs. keyed a" for vs
    using that snoc.prems by (induction vs rule: rev_induct) (auto simp: row_at_run_write)
  then have "row_at ?t (ce_session_id e) (ce_command_id e) \<noteq> None" using snoc.prems by auto
  then have "run_write ?t e = map (\<lambda>r. if same_key r e then update_row e r else r) ?t"
    by (simp add: run_write_keyed [OF k] same_key_def)
  then show ?case using snoc by (auto simp: o_def)
qed simp

lemma foldl_writes_idem:
  assumes "\<forall>e\<in>set ws. keyed e"
  shows "foldl run_write (foldl run_write t ws) ws = foldl run_write t ws"
proof -
  have "foldl run_write (foldl run_write t ws) ws =
      map (\<lambda>r. if filter (same_key r) ws = [] then r else update_row (last (filter (same_key r) ws)) r)
        (foldl run_write t ws)"
    by (rule foldl_writes_again) (use assms foldl_writes_present in blast)
  also have "\<dots> = map (\<lambda>r. r) (foldl run_write t ws)"
    by (rule map_cong) (use foldl_writes_settled [OF assms] in \<open>auto simp: settled_def\<close>)
  finally show ?thesis by simp
qed

section \<open>What the recorder writes\<close>

text \<open>The entries of a log that the recorder writes for: calls and results with an id.\<close>

definition recorded :: "agent_event \<Rightarrow> bool" where
  "recorded ev \<longleftrightarrow> event_command_id ev \<noteq> [] \<and> (ev_type ev = ''tool_use'' \<or> ev_type ev = ''tool_result'')"

definition recorded_events :: "agent_event option list \<Rightarrow> agent_event list" where
  "recorded_events event_log = filter recorded (concat (map (\<lambda>x. case x of Some ev \<Rightarrow> [ev] | None \<Rightarrow> []) event_log))"

definition is_result :: "agent_event \<Rightarrow> bool" where
  "is_result ev \<longleftrightarrow> ev_type ev = ''tool_result''"

definition event_ids :: "(agent_event \<Rightarrow> bool) \<Rightarrow> agent_event option list \<Rightarrow> string set" where
  "event_ids P event_log = event_command_id ` {ev \<in> set (recorded_events event_log). P ev}"

lemma recorded_events_append: "recorded_events (l @ m) = recorded_events l @ recorded_events m"
  by (simp add: recorded_events_def)

lemma event_ids_append: "event_ids P (l @ m) = event_ids P l \<union> event_ids P m"
  by (auto simp: event_ids_def recorded_events_append)

definition event_row :: "(string \<Rightarrow> string) \<Rightarrow> (json \<Rightarrow> string) \<Rightarrow> emit_context \<Rightarrow> instant \<Rightarrow> agent_event \<Rightarrow> command_evidence" where
  "event_row sha256 str ctx now ev = (if is_result ev then tool_result_row sha256 ctx now ev else tool_use_row str ctx now ev)"

definition timed_rows :: "(string \<Rightarrow> string) \<Rightarrow> (json \<Rightarrow> string) \<Rightarrow> emit_context \<Rightarrow> nat \<Rightarrow> agent_event list \<Rightarrow> command_evidence list" where
  "timed_rows sha256 str ctx n evs = map (\<lambda>(i, ev). event_row sha256 str ctx (ec_clock ctx i) ev) (enumerate n evs)"

lemma timed_rows_append: "timed_rows sha256 str ctx n (xs @ ys) = timed_rows sha256 str ctx n xs @ timed_rows sha256 str ctx (n + length xs) ys"
  by (simp add: timed_rows_def enumerate_append_eq)

lemma timed_rows_length [simp]: "length (timed_rows sha256 str ctx n evs) = length evs"
  by (simp add: timed_rows_def)

lemma emit_event_states:
  fixes st :: emit_state and sha256 :: "string \<Rightarrow> string" and str :: "json \<Rightarrow> string" and ctx :: emit_context
  defines "st' l \<equiv> foldl (emit_event sha256 str ctx) st l"
  shows "es_writes (st' l) = es_writes st @ timed_rows sha256 str ctx (length (es_writes st)) (recorded_events l) \<and>
    set (es_pending (st' l)) = set (es_pending st) \<union> event_ids (\<lambda>ev. \<not> is_result ev) l \<and>
    set (es_results (st' l)) = set (es_results st) \<union> event_ids is_result l \<and>
    set (es_order (st' l)) = set (es_order st) \<union> event_ids (\<lambda>_. True) l"
  unfolding st'_def
proof (induction l rule: rev_induct)
  case (snoc x l)
  have set_note: "set (note_id k ks) = insert k (set ks)" for k ks by (auto simp: note_id_def)
  let ?s = "foldl (emit_event sha256 str ctx) st l"
  have step: "es_writes (emit_event sha256 str ctx ?s x) = es_writes ?s @ timed_rows sha256 str ctx (length (es_writes ?s)) (recorded_events [x]) \<and>
    set (es_pending (emit_event sha256 str ctx ?s x)) = set (es_pending ?s) \<union> event_ids (\<lambda>ev. \<not> is_result ev) [x] \<and>
    set (es_results (emit_event sha256 str ctx ?s x)) = set (es_results ?s) \<union> event_ids is_result [x] \<and>
    set (es_order (emit_event sha256 str ctx ?s x)) = set (es_order ?s) \<union> event_ids (\<lambda>_. True) [x]"
  proof (cases x)
    case (Some ev)
    consider "\<not> recorded ev" | "recorded ev" "is_result ev" | "recorded ev" "\<not> is_result ev" by blast
    then show ?thesis
      by cases (use Some in \<open>auto simp: emit_event_def recorded_events_def recorded_def is_result_def Let_def
        event_row_def timed_rows_def set_note event_ids_def\<close>)
  qed (simp add: emit_event_def recorded_events_def event_ids_def timed_rows_def)
  have "length (es_writes ?s) = length (es_writes st) + length (recorded_events l)" using snoc by simp
  then show ?case
    using snoc step unfolding foldl_append foldl.simps recorded_events_append event_ids_append timed_rows_append
    by (simp only: Un_assoc append_assoc)
qed (simp add: recorded_events_def event_ids_def timed_rows_def)

definition events_of :: "string \<Rightarrow> agent_event option list \<Rightarrow> agent_event list" where
  "events_of k event_log = filter (\<lambda>ev. event_command_id ev = k) (recorded_events event_log)"

lemma event_row_key:
  "ce_session_id (event_row sha256 str ctx now ev) = ec_session ctx"
  "ce_command_id (event_row sha256 str ctx now ev) = event_command_id ev"
  by (simp_all add: event_row_def tool_use_row_def tool_result_row_def blank_evidence_def Let_def)

lemma missing_row_key:
  "ce_session_id (missing_result_row ctx k) = ec_session ctx" "ce_command_id (missing_result_row ctx k) = k"
  by (simp_all add: missing_result_row_def blank_evidence_def)

lemma recorded_events_id: "ev \<in> set (recorded_events l) \<Longrightarrow> event_command_id ev \<noteq> []"
  by (simp add: recorded_events_def recorded_def)

lemma in_set_enumerateD: "(i, x) \<in> set (enumerate n xs) \<Longrightarrow> x \<in> set xs"
  by (auto simp: in_set_enumerate_eq)

lemma filter_enumerate: "map snd (filter (\<lambda>(i, x). P x) (enumerate n xs)) = filter P xs"
  by (induction xs arbitrary: n) auto

lemma emit_writes_keyed:
  assumes "ec_session ctx \<noteq> []"
  shows "\<forall>e\<in>set (emit_writes sha256 str ctx l). keyed e"
proof
  fix e
  assume "e \<in> set (emit_writes sha256 str ctx l)"
  then show "keyed e"
    using assms recorded_events_id [of _ l]
      emit_event_states [of sha256 str ctx "\<lparr>es_pending = [], es_results = [], es_order = [], es_writes = []\<rparr>" l]
    by (auto simp: emit_writes_def Let_def keyed_def timed_rows_def event_row_key missing_row_key event_ids_def dest!: in_set_enumerateD)
qed

lemma filter_map_const:
  "\<forall>x\<in>set xs. P (f x) \<longrightarrow> f x = c \<Longrightarrow> set (filter P (map f xs)) \<subseteq> {c}"
  by auto

lemma last_of_const: "set xs \<subseteq> {c} \<Longrightarrow> xs \<noteq> [] \<Longrightarrow> last xs = c"
  using last_in_set by blast

text \<open>The writes for one id: one per event, then a mark when no result came.\<close>

lemma emit_writes_of_id:
  fixes l :: "agent_event option list" and sha256 :: "string \<Rightarrow> string" and str :: "json \<Rightarrow> string"
    and ctx :: emit_context and k :: string
  defines "evs \<equiv> events_of k l" and "P \<equiv> row_of (ec_session ctx) k"
  assumes "evs \<noteq> []"
  shows "filter P (emit_writes sha256 str ctx l) \<noteq> []"
    and "\<exists>now. hd (filter P (emit_writes sha256 str ctx l)) = event_row sha256 str ctx now (hd evs)"
    and "\<exists>now. last (filter P (emit_writes sha256 str ctx l)) =
      (if \<exists>ev\<in>set evs. is_result ev then event_row sha256 str ctx now (last evs) else missing_result_row ctx k)"
proof -
  define st where "st = foldl (emit_event sha256 str ctx)
      \<lparr>es_pending = [], es_results = [], es_order = [], es_writes = []\<rparr> l"
  define M where "M = filter P (map (missing_result_row ctx)
      (filter (\<lambda>k. k \<in> set (es_pending st) \<and> k \<notin> set (es_results st)) (es_order st)))"
  define en where "en = filter (\<lambda>(i, ev). event_command_id ev = k) (enumerate 0 (recorded_events l))"
  let ?row = "\<lambda>(i, ev). event_row sha256 str ctx (ec_clock ctx i) ev"
  have en: "map snd en = evs" unfolding en_def evs_def events_of_def by (rule filter_enumerate)
  have some: "en \<noteq> []" using en assms(3) by auto
  have ends: "snd (hd en) = hd evs" "snd (last en) = last evs" using some by (simp_all add: en [symmetric] hd_map last_map)
  have w: "es_writes st = map ?row (enumerate 0 (recorded_events l))"
    and pend: "set (es_pending st) = event_ids (\<lambda>ev. \<not> is_result ev) l"
    and res: "set (es_results st) = event_ids is_result l"
    and ord: "set (es_order st) = event_ids (\<lambda>_. True) l"
    using emit_event_states [of sha256 str ctx "\<lparr>es_pending = [], es_results = [], es_order = [], es_writes = []\<rparr>" l]
    by (simp_all add: st_def timed_rows_def)
  have "filter P (map ?row xs) = map ?row (filter (\<lambda>(i, ev). event_command_id ev = k) xs)" for xs
    by (induction xs) (auto simp: P_def row_of_def event_row_key)
  then have F: "filter P (emit_writes sha256 str ctx l) = map ?row en @ M"
    by (simp add: emit_writes_def Let_def w M_def en_def st_def [symmetric])
  show "filter P (emit_writes sha256 str ctx l) \<noteq> []" using some by (simp add: F)
  show "\<exists>now. hd (filter P (emit_writes sha256 str ctx l)) = event_row sha256 str ctx now (hd evs)"
    using some ends(1) by (auto simp: F hd_append hd_map split: prod.splits intro: exI [of _ "ec_clock ctx (fst (hd en))"])
  have sub: "set M \<subseteq> {missing_result_row ctx k}"
    unfolding M_def by (rule filter_map_const) (auto simp: P_def row_of_def missing_row_key)
  have ne: "M \<noteq> [] \<longleftrightarrow> k \<in> set (es_order st) \<and> k \<in> set (es_pending st) \<and> k \<notin> set (es_results st)"
    by (auto simp: M_def P_def row_of_def missing_row_key filter_empty_conv)
  obtain ev where ev: "ev \<in> set evs" using assms(3) by (cases evs) auto
  have "M = [] \<longleftrightarrow> (\<exists>ev\<in>set evs. is_result ev)"
  proof
    assume "M = []"
    then show "\<exists>ev\<in>set evs. is_result ev"
      using ne ev unfolding pend res ord by (force simp: evs_def events_of_def event_ids_def)
  next
    assume "\<exists>ev\<in>set evs. is_result ev"
    then have "k \<in> set (es_results st)" unfolding res by (auto simp: evs_def events_of_def event_ids_def)
    then show "M = []" using ne by blast
  qed
  moreover have "last (map ?row en) = event_row sha256 str ctx (ec_clock ctx (fst (last en))) (last evs)"
    using some ends(2) by (simp add: last_map case_prod_beta)
  ultimately show "\<exists>now. last (filter P (emit_writes sha256 str ctx l)) =
      (if \<exists>ev\<in>set evs. is_result ev then event_row sha256 str ctx now (last evs) else missing_result_row ctx k)"
    using last_of_const [OF sub] by (cases "M = []") (auto simp: F)
qed

lemma update_row_terminal:
  "ce_terminal_reason (update_row e r) = ce_terminal_reason e"
  "ce_exit_code (update_row e r) = ce_exit_code e"
  "ce_output_excerpt (update_row e r) = ce_output_excerpt e"
  "ce_workflow_id (update_row e r) = ce_workflow_id r"
  "ce_shell_command (update_row e r) = ce_shell_command r"
  "ce_tool_name (update_row e r) = ce_tool_name r"
  by (simp_all add: update_row_def)

lemma event_row_terminal:
  "ce_terminal_reason (event_row sha256 str ctx now ev) = (if is_result ev then ''completed'' else [])"
  "ce_exit_code (event_row sha256 str ctx now ev) = (if is_result ev then Some (result_exit_code ev) else None)"
  by (simp_all add: event_row_def tool_use_row_def tool_result_row_def blank_evidence_def Let_def
      derive_terminal_reason_def)

lemma missing_row_terminal:
  "ce_terminal_reason (missing_result_row ctx k) = ''missing_result''"
  "ce_exit_code (missing_result_row ctx k) = None"
  by (simp_all add: missing_result_row_def blank_evidence_def)

lemma emitted_row:
  assumes "ec_session ctx \<noteq> []" and "event_log \<noteq> []" and "events_of k event_log \<noteq> []"
  obtains r now first where "row_at (emit_from_event_log sha256 str False ctx event_log t) (ec_session ctx) k =
      Some (update_row (if \<exists>ev\<in>set (events_of k event_log). is_result ev
        then event_row sha256 str ctx now (last (events_of k event_log)) else missing_result_row ctx k) r)"
    and "row_at t (ec_session ctx) k = None \<Longrightarrow>
      ce_workflow_id r = ce_workflow_id (event_row sha256 str ctx first (hd (events_of k event_log))) \<and>
      ce_shell_command r = ce_shell_command (event_row sha256 str ctx first (hd (events_of k event_log)))"
proof -
  let ?ws = "emit_writes sha256 str ctx event_log"
  let ?P = "row_of (ec_session ctx) k"
  obtain r n where r: "row_at (foldl run_write t ?ws) (ec_session ctx) k = Some (update_row (last (filter ?P ?ws)) r)"
    "r = (case row_at t (ec_session ctx) k of Some r0 \<Rightarrow> r0
          | None \<Rightarrow> (insert_row [] (hd (filter ?P ?ws)))\<lparr>ce_id := n\<rparr>)"
    using row_at_writes [OF emit_writes_keyed [OF assms(1)] emit_writes_of_id(1) [OF assms(3)]] by blast
  have e: "emit_from_event_log sha256 str False ctx event_log t = foldl run_write t ?ws"
    using assms(1,2) by (simp add: emit_from_event_log_def)
  obtain now where now: "last (filter ?P ?ws) = (if \<exists>ev\<in>set (events_of k event_log). is_result ev
      then event_row sha256 str ctx now (last (events_of k event_log)) else missing_result_row ctx k)"
    using emit_writes_of_id(3) [OF assms(3)] by blast
  obtain first where first: "hd (filter ?P ?ws) = event_row sha256 str ctx first (hd (events_of k event_log))"
    using emit_writes_of_id(2) [OF assms(3)] by blast
  show thesis
    by (rule that [of now r first]) (use r now first in \<open>simp_all add: e insert_row_def\<close>)
qed

lemma row_verdict_passed: "row_verdict r = PASSED \<longleftrightarrow> ce_terminal_reason r = ''completed'' \<and> ce_exit_code r = Some 0"
  by (simp add: row_verdict_def derive_execution_verdict_def)

section \<open>Properties\<close>

text \<open>the row the recorder leaves for a command is decided by the last event of the log about it:
  a result makes it \<open>completed\<close> with the exit code of the event, or the one derived from
  \<open>is_error\<close>; a call without any result makes it \<open>missing_result\<close>; and a call event that
  follows the result leaves it with neither reason nor exit code. No other terminal reason is
  ever recorded: a command that timed out, was cancelled or was killed is \<open>completed\<close>.\<close>
theorem emitted_terminal_state:
  assumes "ec_session ctx \<noteq> []" and "event_log \<noteq> []" and "events_of k event_log = evs" and "evs \<noteq> []"
  shows "\<exists>r. row_at (emit_from_event_log sha256 str False ctx event_log t) (ec_session ctx) k = Some r \<and>
    (ce_terminal_reason r, ce_exit_code r) =
      (if is_result (last evs) then (''completed'', Some (result_exit_code (last evs)))
       else if \<exists>ev\<in>set evs. is_result ev then ([], None) else (''missing_result'', None))"
proof -
  obtain r now where "row_at (emit_from_event_log sha256 str False ctx event_log t) (ec_session ctx) k =
      Some (update_row (if \<exists>ev\<in>set evs. is_result ev then event_row sha256 str ctx now (last evs)
        else missing_result_row ctx k) r)"
    using emitted_row [OF assms(1,2), of k sha256 str t] assms(3,4) by metis
  then show ?thesis
    using assms(4) last_in_set [of evs]
    by (auto simp: update_row_terminal event_row_terminal missing_row_terminal)
qed

definition sample_call :: agent_event where
  "sample_call = \<lparr>ev_type = ''tool_use'', ev_tool_use_id = ''c1'', ev_id = [], ev_tool_name = ''bash'',
     ev_tool_input = JObj [(''command'', JStr ''pytest'')], ev_exit_code = None, ev_is_error = False, ev_text = None\<rparr>"

definition sample_result :: agent_event where
  "sample_result = sample_call\<lparr>ev_type := ''tool_result'', ev_exit_code := Some 1, ev_text := Some ''1 failed''\<rparr>"

definition sample_context :: emit_context where
  "sample_context = \<lparr>ec_session = ''s1'', ec_workflow = ''w1'', ec_milestone = ''m1'', ec_sandbox_id = None,
     ec_sandbox_generation = None, ec_clock = int\<rparr>"

lemma sample_events:
  "events_of ''c1'' [Some sample_call, Some sample_result] = [sample_call, sample_result]"
  "events_of ''c1'' [Some sample_result, Some sample_call] = [sample_result, sample_call]"
  "is_result sample_result" "\<not> is_result sample_call" "result_exit_code sample_result = 1"
  "ec_session sample_context = ''s1''" "ec_workflow sample_context = ''w1''"
  by (simp_all add: events_of_def recorded_events_def recorded_def event_command_id_def is_result_def
      sample_call_def sample_result_def sample_context_def result_exit_code_def)

theorem emitted_terminal_state_witness:
  "\<exists>r. row_at (emit_from_event_log id (\<lambda>_. []) False sample_context [Some sample_call, Some sample_result] []) ''s1'' ''c1'' = Some r \<and>
     (ce_terminal_reason r, ce_exit_code r) = (''completed'', Some 1)"
  using emitted_terminal_state [of sample_context "[Some sample_call, Some sample_result]" "''c1''"
      "[sample_call, sample_result]" id "\<lambda>_. []" "[]"]
  by (simp add: sample_events)

text \<open>when the result of a command reaches the log before its call, the row is inserted without
  the workflow and without the command, and nothing adds them later: the test gate, which looks at
  the command of a row, does not see that the test ran.\<close>
theorem result_first_unattributed:
  assumes "ec_session ctx \<noteq> []" and "event_log \<noteq> []" and "events_of k event_log \<noteq> []"
    and "is_result (hd (events_of k event_log))" and "row_at t (ec_session ctx) k = None"
  shows "\<exists>r. row_at (emit_from_event_log sha256 str False ctx event_log t) (ec_session ctx) k = Some r \<and>
    ce_workflow_id r = [] \<and> ce_shell_command r = None"
proof -
  have "ce_workflow_id (event_row sha256 str ctx now ev) = [] \<and> ce_shell_command (event_row sha256 str ctx now ev) = None"
    if "is_result ev" for now ev
    using that by (simp add: event_row_def tool_result_row_def blank_evidence_def Let_def)
  then show ?thesis
    using emitted_row [OF assms(1-3), of sha256 str t] assms(4,5)
    by (metis update_row_terminal(4,5))
qed

theorem result_first_unattributed_witness:
  "\<exists>r. row_at (emit_from_event_log id (\<lambda>_. []) False sample_context [Some sample_result, Some sample_call] []) ''s1'' ''c1'' = Some r \<and>
     ce_workflow_id r = [] \<and> ce_shell_command r = None"
  using result_first_unattributed [of sample_context "[Some sample_result, Some sample_call]" "''c1''" "[]" id "\<lambda>_. []"]
  by (simp add: sample_events row_at_def)

definition timeless :: "command_evidence \<Rightarrow> command_evidence" where
  "timeless r = r\<lparr>ce_started_at := None, ce_completed_at := None\<rparr>"

lemma timeless_event_row: "timeless (event_row sha256 str (ctx\<lparr>ec_clock := clock\<rparr>) now ev) = timeless (event_row sha256 str ctx now' ev)"
  by (simp add: timeless_def event_row_def tool_use_row_def tool_result_row_def Let_def)

lemma timeless_writes:
  "map timeless (emit_writes sha256 str (ctx\<lparr>ec_clock := clock\<rparr>) l) = map timeless (emit_writes sha256 str ctx l)"
proof -
  let ?c = "ctx\<lparr>ec_clock := clock\<rparr>"
  let ?blank = "\<lparr>es_pending = [], es_results = [], es_order = [], es_writes = []\<rparr>"
  have step: "(es_pending (emit_event sha256 str ?c st x), es_results (emit_event sha256 str ?c st x), es_order (emit_event sha256 str ?c st x)) =
      (es_pending (emit_event sha256 str ctx st' x), es_results (emit_event sha256 str ctx st' x), es_order (emit_event sha256 str ctx st' x))"
    if "(es_pending st, es_results st, es_order st) = (es_pending st', es_results st', es_order st')" for st st' x
    using that by (simp add: emit_event_def Let_def split: option.split)
  have ids: "(es_pending (foldl (emit_event sha256 str ?c) ?blank l), es_results (foldl (emit_event sha256 str ?c) ?blank l),
        es_order (foldl (emit_event sha256 str ?c) ?blank l)) =
      (es_pending (foldl (emit_event sha256 str ctx) ?blank l), es_results (foldl (emit_event sha256 str ctx) ?blank l),
        es_order (foldl (emit_event sha256 str ctx) ?blank l))"
    by (induction l rule: rev_induct) (simp_all only: foldl_Nil foldl_Cons foldl_append step)
  have "map timeless (timed_rows sha256 str ?c n evs) = map timeless (timed_rows sha256 str ctx n evs)" for n evs
    by (induction evs arbitrary: n) (simp_all add: timed_rows_def timeless_event_row)
  moreover have "map timeless (map (missing_result_row ?c) ks) = map timeless (map (missing_result_row ctx) ks)" for ks
    by (simp add: missing_result_row_def)
  moreover have "es_writes (foldl (emit_event sha256 str c) ?blank l) = timed_rows sha256 str c 0 (recorded_events l)" for c
    using emit_event_states [of sha256 str c ?blank l] by simp
  ultimately show ?thesis using ids by (simp add: emit_writes_def Let_def del: map_map)
qed

lemma filter_timeless:
  assumes "map timeless ws' = map timeless ws"
  shows "map timeless (filter (same_key r) ws') = map timeless (filter (same_key r) ws)"
proof -
  have "same_key r e = same_key r (timeless e)" for e by (simp add: same_key_def row_of_def timeless_def fun_eq_iff)
  then have "map timeless (filter (same_key r) xs) = filter (same_key r) (map timeless xs)" for xs
    by (simp add: filter_map o_def)
  then show ?thesis by (simp only: assms)
qed

lemma update_timeless:
  "timeless e' = timeless e \<Longrightarrow> update_row e r = r \<Longrightarrow> update_row e' r = r\<lparr>ce_completed_at := ce_completed_at e'\<rparr>"
  by (cases e, cases e', cases r) (simp add: timeless_def update_row_def)

text \<open>C33: Recording the same log again, with other readings of the clock, changes nothing but the completion
  times: every other column of every row is as after the first time, whatever the log and the table, and
  rows of other sessions and of commands the log does not mention keep their completion times too.\<close>
theorem emit_idempotent:
  fixes sha256 :: "string \<Rightarrow> string" and str :: "json \<Rightarrow> string" and noop :: bool and event_log :: "agent_event option list"
    and ctx :: emit_context and clock :: "nat \<Rightarrow> instant" and t :: evidence_table
  defines "once \<equiv> emit_from_event_log sha256 str noop ctx event_log t"
  shows "\<exists>at. emit_from_event_log sha256 str noop (ctx\<lparr>ec_clock := clock\<rparr>) event_log once = map (\<lambda>r. r\<lparr>ce_completed_at := at r\<rparr>) once \<and>
    (\<forall>r. ce_session_id r = ec_session ctx \<and> events_of (ce_command_id r) event_log \<noteq> [] \<or> at r = ce_completed_at r)"
proof (cases "noop \<or> ec_session ctx = [] \<or> event_log = []")
  case True
  then show ?thesis unfolding once_def by (intro exI [of _ ce_completed_at]) (simp add: emit_from_event_log_def map_idI)
next
  case False
  let ?c = "ctx\<lparr>ec_clock := clock\<rparr>"
  let ?ws = "emit_writes sha256 str ctx event_log" and ?ws' = "emit_writes sha256 str ?c event_log"
  let ?at = "\<lambda>r. if filter (same_key r) ?ws' = [] then ce_completed_at r else ce_completed_at (last (filter (same_key r) ?ws'))"
  have keyed: "\<forall>e\<in>set ?ws. keyed e" "\<forall>e\<in>set ?ws'. keyed e" using False emit_writes_keyed [of ctx] emit_writes_keyed [of ?c] by simp_all
  have once: "once = foldl run_write t ?ws" using False by (simp add: once_def emit_from_event_log_def)
  have same: "map timeless ?ws' = map timeless ?ws" by (rule timeless_writes)
  have present: "row_at once (ce_session_id e) (ce_command_id e) \<noteq> None" if "e \<in> set ?ws'" for e
  proof -
    have "timeless e \<in> set (map timeless ?ws)" using that unfolding same [symmetric] by simp
    then obtain d where "d \<in> set ?ws" "timeless d = timeless e" by auto
    moreover have "ce_session_id d = ce_session_id (timeless d)" "ce_command_id d = ce_command_id (timeless d)" for d by (simp_all add: timeless_def)
    ultimately show ?thesis using foldl_writes_present [OF keyed(1), of d t] unfolding once by metis
  qed
  have "emit_from_event_log sha256 str noop ?c event_log once = foldl run_write once ?ws'" using False by (simp add: emit_from_event_log_def)
  also have "\<dots> = map (\<lambda>r. if filter (same_key r) ?ws' = [] then r else update_row (last (filter (same_key r) ?ws')) r) once"
    by (rule foldl_writes_again) (use keyed(2) present in blast)
  also have "\<dots> = map (\<lambda>r. r\<lparr>ce_completed_at := ?at r\<rparr>) once"
  proof (rule map_cong [OF refl])
    fix r assume r: "r \<in> set once"
    show "(if filter (same_key r) ?ws' = [] then r else update_row (last (filter (same_key r) ?ws')) r) = r\<lparr>ce_completed_at := ?at r\<rparr>"
    proof (cases "filter (same_key r) ?ws' = []")
      case ne: False
      have eq: "map timeless (filter (same_key r) ?ws') = map timeless (filter (same_key r) ?ws)" by (rule filter_timeless [OF same])
      then have ne': "filter (same_key r) ?ws \<noteq> []" using ne by (metis list.map_disc_iff)
      then have "update_row (last (filter (same_key r) ?ws)) r = r"
        using foldl_writes_settled [OF keyed(1) r [unfolded once]] by (simp add: settled_def)
      moreover have "timeless (last (filter (same_key r) ?ws')) = timeless (last (filter (same_key r) ?ws))"
        using arg_cong [OF eq, of last] ne ne' by (simp add: last_map)
      ultimately have "update_row (last (filter (same_key r) ?ws')) r = r\<lparr>ce_completed_at := ce_completed_at (last (filter (same_key r) ?ws'))\<rparr>"
        by (intro update_timeless)
      then show ?thesis by (simp only: ne if_False)
    qed simp
  qed
  finally have "emit_from_event_log sha256 str noop ?c event_log once = map (\<lambda>r. r\<lparr>ce_completed_at := ?at r\<rparr>) once" .
  moreover have "filter (same_key r) ?ws' = []" if "\<not> (ce_session_id r = ec_session ctx \<and> events_of (ce_command_id r) event_log \<noteq> [])" for r
  proof -
    have "ce_session_id e = ec_session ctx \<and> events_of (ce_command_id e) event_log \<noteq> []" if "e \<in> set ?ws'" for e
      using that emit_event_states [of sha256 str ?c "\<lparr>es_pending = [], es_results = [], es_order = [], es_writes = []\<rparr>" event_log]
      by (auto simp: emit_writes_def Let_def timed_rows_def event_row_key missing_row_key event_ids_def events_of_def filter_empty_conv
          dest!: in_set_enumerateD)
    then show ?thesis using that by (auto simp: filter_empty_conv same_key_def row_of_def fun_eq_iff)
  qed
  ultimately show ?thesis by (intro exI [of _ ?at]) auto
qed

text \<open>a command synthesized from an argument list is tokenized back into that list.\<close>
theorem argv_command_roundtrip:
  "event_argv str tool_input = Some argv \<Longrightarrow> argv \<noteq> [] \<Longrightarrow>
   \<not> truthy (por (jget tool_input ''command'') (jget tool_input ''cmd'')) \<Longrightarrow>
   (\<exists>c. event_shell_command str tool_input = Some c \<and> shlex_split c = Some argv)"
  by (cases argv)
    (auto simp: event_shell_command_def Let_def shlex_split_join split: json.splits list.splits)

theorem argv_command_roundtrip_witness:
  "\<exists>c. event_shell_command (\<lambda>_. []) (JObj [(''args'', JList [JStr ''pytest'', JStr ''a b''])]) = Some c \<and>
       shlex_split c = Some [''pytest'', ''a b'']"
  by (rule argv_command_roundtrip) (simp_all add: event_argv_def por_def jget_def)

text \<open>a command is judged passed exactly when it completed with exit code 0; a command whose
  result never came is judged not run, not failed as the documentation of
  \<open>derive_execution_verdict\<close> has it.\<close>
theorem command_verdict_exact:
  "(derive_execution_verdict exit_code reason = PASSED \<longleftrightarrow> reason = ''completed'' \<and> exit_code = Some 0) \<and>
   derive_execution_verdict exit_code (reason_value MISSING_RESULT) = NOT_RUN \<and>
   (derive_execution_verdict exit_code reason = FAILED \<longleftrightarrow>
      (reason = ''completed'' \<and> exit_code \<notin> {None, Some 0}) \<or> reason \<notin> {''completed'', ''missing_result''})"
  by (auto simp: derive_execution_verdict_def)

text \<open>the shadow comparison reports a structured pass exactly when there is evidence and every
  command of it completed with exit code 0, and a heuristic pass without such evidence always
  diverges.\<close>
theorem shadow_pass_needs_evidence:
  "(fst (compare_verdicts h rows) = ''passed'' \<longleftrightarrow>
      rows \<noteq> [] \<and> (\<forall>r\<in>set rows. ce_terminal_reason r = ''completed'' \<and> ce_exit_code r = Some 0)) \<and>
   (fst (snd (compare_verdicts True rows)) \<longleftrightarrow> fst (compare_verdicts True rows) \<noteq> ''passed'')"
  by (simp add: compare_verdicts_def Let_def list_all_iff row_verdict_passed)

text \<open>an excerpt keeps a text of at most 4096 characters; a longer one is cut to its first and
  last 2048 around a mark, which makes it longer than the bound the name promises: cutting it
  again cuts it once more.\<close>
theorem excerpt_length:
  "length (bound_excerpt (Some t)) = (if length t \<le> 4096 then length t else 4115) \<and>
   (length t \<le> 4096 \<longrightarrow> bound_excerpt (Some t) = t) \<and>
   (4096 < length t \<longrightarrow> take 2048 (bound_excerpt (Some t)) = take 2048 t \<and>
      drop (4115 - 2048) (bound_excerpt (Some t)) = drop (length t - 2048) t)"
  by (simp add: bound_excerpt_def output_excerpt_max_def excerpt_half_def truncation_mark_def)

theorem excerpt_length_witness:
  "length (bound_excerpt (Some (replicate 5000 CHR ''a''))) = 4115 \<and>
   take 2048 (bound_excerpt (Some (replicate 5000 CHR ''a''))) = replicate 2048 CHR ''a''"
  using excerpt_length [of "replicate 5000 CHR ''a''"] by simp

end
