(* ===== verification/Py_Regex.thy ===== *)
theory Py_Regex
  imports Py_Text
begin

text \<open>
  The part of Python's \<open>re\<close> the modelled code uses, as a backtracking matcher: the successes of a
  pattern at a position are listed in the order in which \<open>re\<close> tries them, and the first one is
  the match. There is one capturing group. \<open>rx_finditer\<close> gives the text of that group for each
  match of \<open>re.finditer\<close>, left to right without overlap, and \<open>rx_search\<close> the one of \<open>re.search\<close>.
  The patterns in use never match the empty string. Text is Latin-1, as everywhere in the
  development: a pattern made of other letters has no match and is left out where it occurs.
\<close>

datatype rx =
    Eps
  | Sat "char \<Rightarrow> bool"
  | Cat rx rx
  | Alt rx rx
  | Star rx
  | Lazy rx
  | Grp rx
  | WordB
  | Bol
  | Eol
  | End
  | NotAfter string
  | Bos
  | Eos
  | Ahead rx

text \<open>\<open>Bol\<close> and \<open>Eol\<close> are \<open>^\<close> and \<open>$\<close> under \<open>MULTILINE\<close>, \<open>End\<close> is \<open>$\<close> without; \<open>NotAfter w\<close> is \<open>(?<!w)\<close> under \<open>IGNORECASE\<close>, with \<open>w\<close> in lower case;
  \<open>Bos\<close> is \<open>^\<close> without \<open>MULTILINE\<close>, \<open>Eos\<close> is \<open>\Z\<close> and \<open>Ahead r\<close> is \<open>(?=r)\<close>.\<close>

text \<open>The text before the position (reversed), the text after it and the group.\<close>

type_synonym mstate = "string \<times> string \<times> string option"

definition word_char :: "char \<Rightarrow> bool" where
  "word_char c \<longleftrightarrow> (let n = (of_char c :: nat) in
     48 \<le> n \<and> n \<le> 57 \<or> 65 \<le> n \<and> n \<le> 90 \<or> n = 95 \<or> 97 \<le> n \<and> n \<le> 122 \<or> n \<in> {170, 178, 179, 181, 185, 186} \<or>
     188 \<le> n \<and> n \<le> 190 \<or> 192 \<le> n \<and> n \<noteq> 215 \<and> n \<noteq> 247)"

definition word_at :: "string \<Rightarrow> bool" where
  "word_at s \<longleftrightarrow> (case s of [] \<Rightarrow> False | c # _ \<Rightarrow> word_char c)"

definition newline_at :: "string \<Rightarrow> bool" where
  "newline_at s \<longleftrightarrow> (case s of [] \<Rightarrow> True | c # _ \<Rightarrow> c = CHR 0x0A)"

fun rx_iter :: "bool \<Rightarrow> (mstate \<Rightarrow> mstate list) \<Rightarrow> nat \<Rightarrow> mstate \<Rightarrow> mstate list" where
  "rx_iter greedy f 0 st = [st]"
| "rx_iter greedy f (Suc n) st =
     (let again = concat (map (rx_iter greedy f n)
                    (filter (\<lambda>st'. length (fst (snd st')) < length (fst (snd st))) (f st)))
      in if greedy then again @ [st] else st # again)"

primrec rx_match :: "rx \<Rightarrow> mstate \<Rightarrow> mstate list" where
  "rx_match Eps st = [st]"
| "rx_match (Sat p) st = (case fst (snd st) of [] \<Rightarrow> []
     | c # cs \<Rightarrow> if p c then [(c # fst st, cs, snd (snd st))] else [])"
| "rx_match (Cat r q) st = concat (map (rx_match q) (rx_match r st))"
| "rx_match (Alt r q) st = rx_match r st @ rx_match q st"
| "rx_match (Star r) st = rx_iter True (rx_match r) (length (fst (snd st))) st"
| "rx_match (Lazy r) st = rx_iter False (rx_match r) (length (fst (snd st))) st"
| "rx_match (Grp r) st = map (\<lambda>st'. (fst st', fst (snd st'),
      Some (take (length (fst (snd st)) - length (fst (snd st'))) (fst (snd st))))) (rx_match r st)"
| "rx_match WordB st = (if word_at (fst st) \<noteq> word_at (fst (snd st)) then [st] else [])"
| "rx_match Bol st = (if newline_at (fst st) then [st] else [])"
| "rx_match Eol st = (if newline_at (fst (snd st)) then [st] else [])"
| "rx_match End st = (if fst (snd st) = [] \<or> fst (snd st) = [CHR 0x0A] then [st] else [])"
| "rx_match (NotAfter w) st = (if map ascii_lower (take (length w) (fst st)) = rev w then [] else [st])"
| "rx_match Bos st = (if fst st = [] then [st] else [])"
| "rx_match Eos st = (if fst (snd st) = [] then [st] else [])"
| "rx_match (Ahead r) st = (if rx_match r st = [] then [] else [st])"

text \<open>Pattern pieces: \<open>\<^verbatim>\<open>\s \S \d . [\s\S]\<close>\<close>, repetition and literals.\<close>

abbreviation rx_space :: rx where "rx_space \<equiv> Sat py_space"
abbreviation rx_nonspace :: rx where "rx_nonspace \<equiv> Sat (\<lambda>c. \<not> py_space c)"
abbreviation rx_dot :: rx where "rx_dot \<equiv> Sat (\<lambda>c. c \<noteq> CHR 0x0A)"
abbreviation rx_any :: rx where "rx_any \<equiv> Sat (\<lambda>_. True)"
abbreviation rx_plus :: "rx \<Rightarrow> rx" where "rx_plus r \<equiv> Cat r (Star r)"
abbreviation rx_opt :: "rx \<Rightarrow> rx" where "rx_opt r \<equiv> Alt r Eps"
abbreviation rx_spaces :: rx where "rx_spaces \<equiv> rx_plus rx_space"
abbreviation rx_number :: rx where "rx_number \<equiv> Grp (rx_plus (Sat py_digit))"

fun rx_cats :: "rx list \<Rightarrow> rx" where
  "rx_cats [] = Eps"
| "rx_cats [r] = r"
| "rx_cats (r # rs) = Cat r (rx_cats rs)"

definition rx_lit :: "string \<Rightarrow> rx" where
  "rx_lit s = rx_cats (map (\<lambda>c. Sat (\<lambda>d. d = c)) s)"

fun rx_alts :: "rx list \<Rightarrow> rx" where
  "rx_alts [] = Sat (\<lambda>_. False)"
| "rx_alts [r] = r"
| "rx_alts (r # rs) = Alt r (rx_alts rs)"

text \<open>\<open>r{0,n}?\<close>\<close>

primrec rx_upto :: "nat \<Rightarrow> rx \<Rightarrow> rx" where
  "rx_upto 0 r = Eps"
| "rx_upto (Suc n) r = Alt Eps (Cat r (rx_upto n r))"

text \<open>A literal under \<open>IGNORECASE\<close>, written in lower case.\<close>

definition rx_ilit :: "string \<Rightarrow> rx" where
  "rx_ilit s = rx_cats (map (\<lambda>c. Sat (\<lambda>d. ascii_lower d = c)) s)"

function rx_finditer :: "rx \<Rightarrow> string \<Rightarrow> string \<Rightarrow> string option list" where
  "rx_finditer r pre s =
     (case rx_match r (pre, s, None) of
        [] \<Rightarrow> (case s of [] \<Rightarrow> [] | c # cs \<Rightarrow> rx_finditer r (c # pre) cs)
      | st # _ \<Rightarrow>
          snd (snd st) #
          (if length (fst (snd st)) < length s then rx_finditer r (fst st) (fst (snd st))
           else (case s of [] \<Rightarrow> [] | c # cs \<Rightarrow> rx_finditer r (c # pre) cs)))"
  by pat_completeness auto
termination by (relation "measure (\<lambda>(r, pre, s). length s)") auto

declare rx_finditer.simps [simp del]

text \<open>The matches with the texts that begin at the start and at the end of each.\<close>

function rx_spans :: "rx \<Rightarrow> string \<Rightarrow> string \<Rightarrow> (string option \<times> string \<times> string) list" where
  "rx_spans r pre s =
     (case rx_match r (pre, s, None) of
        [] \<Rightarrow> (case s of [] \<Rightarrow> [] | c # cs \<Rightarrow> rx_spans r (c # pre) cs)
      | st # _ \<Rightarrow>
          (snd (snd st), s, fst (snd st)) #
          (if length (fst (snd st)) < length s then rx_spans r (fst st) (fst (snd st))
           else (case s of [] \<Rightarrow> [] | c # cs \<Rightarrow> rx_spans r (c # pre) cs)))"
  by pat_completeness auto
termination by (relation "measure (\<lambda>(r, pre, s). length s)") auto

declare rx_spans.simps [simp del]

definition rx_groups :: "rx \<Rightarrow> string \<Rightarrow> string list" where
  "rx_groups r s = concat (map (\<lambda>g. case g of Some t \<Rightarrow> [t] | None \<Rightarrow> []) (rx_finditer r [] s))"

text \<open>\<open>re.search(...)\<close>: the group of the first match, if there is one.\<close>

definition rx_search :: "rx \<Rightarrow> string \<Rightarrow> string option option" where
  "rx_search r s = (case rx_finditer r [] s of [] \<Rightarrow> None | g # _ \<Rightarrow> Some g)"

definition rx_found :: "rx \<Rightarrow> string \<Rightarrow> bool" where
  "rx_found r s \<longleftrightarrow> rx_search r s \<noteq> None"

text \<open>\<open>int(group)\<close> on a run of digits; Python refuses more than 4300 of them.\<close>

definition int_of_digits :: "string \<Rightarrow> int option" where
  "int_of_digits s =
     (if s = [] \<or> 4300 < length s \<or> \<not> list_all py_digit s then None
      else Some (foldl (\<lambda>n c. n * 10 + (of_char c - 48)) 0 s))"

text \<open>\<open>re.match(...)\<close>: a match that starts at the beginning of the text.\<close>

definition rx_match_start :: "rx \<Rightarrow> string \<Rightarrow> bool" where
  "rx_match_start r s \<longleftrightarrow> rx_match r ([], s, None) \<noteq> []"

definition rx_match_group :: "rx \<Rightarrow> string \<Rightarrow> string option option" where
  "rx_match_group r s = (case rx_match r ([], s, None) of [] \<Rightarrow> None | st # _ \<Rightarrow> Some (snd (snd st)))"

lemma rx_iter_consumes:
  assumes "\<And>st st'. st' \<in> set (f st) \<Longrightarrow>
      \<exists>w. fst (snd st) = w @ fst (snd st') \<and> fst st' = rev w @ fst st"
    and "st' \<in> set (rx_iter greedy f n st)"
  shows "\<exists>w. fst (snd st) = w @ fst (snd st') \<and> fst st' = rev w @ fst st"
  using assms(2)
proof (induction n arbitrary: st)
  case (Suc n)
  then consider "st' = st" | st1 where "st1 \<in> set (f st)" "st' \<in> set (rx_iter greedy f n st1)"
    by (auto simp: Let_def split: if_splits)
  then show ?case
  proof cases
    case 2
    obtain v w where "fst (snd st) = v @ fst (snd st1)" "fst st1 = rev v @ fst st"
      "fst (snd st1) = w @ fst (snd st')" "fst st' = rev w @ fst st1"
      using assms(1) [OF 2(1)] Suc.IH [OF 2(2)] by blast
    then have "fst (snd st) = (v @ w) @ fst (snd st') \<and> fst st' = rev (v @ w) @ fst st" by simp
    then show ?thesis by blast
  qed simp
qed simp

text \<open>A match consumes a prefix of the text and remembers it.\<close>

lemma rx_match_consumes:
  "st' \<in> set (rx_match r st) \<Longrightarrow> \<exists>w. fst (snd st) = w @ fst (snd st') \<and> fst st' = rev w @ fst st"
proof (induction r arbitrary: st st')
  case (Cat r q)
  then obtain st1 where "st1 \<in> set (rx_match r st)" "st' \<in> set (rx_match q st1)" by auto
  then obtain v w where "fst (snd st) = v @ fst (snd st1)" "fst st1 = rev v @ fst st"
    "fst (snd st1) = w @ fst (snd st')" "fst st' = rev w @ fst st1"
    using Cat.IH by blast
  then have "fst (snd st) = (v @ w) @ fst (snd st') \<and> fst st' = rev (v @ w) @ fst st" by simp
  then show ?case by blast
next
  case (Star r)
  show ?case
    by (rule rx_iter_consumes [of "rx_match r" st' True "length (fst (snd st))" st])
      (use Star in \<open>auto\<close>)
next
  case (Lazy r)
  show ?case
    by (rule rx_iter_consumes [of "rx_match r" st' False "length (fst (snd st))" st])
      (use Lazy in \<open>auto\<close>)
next
  case (Grp r)
  then obtain st1 where "st1 \<in> set (rx_match r st)" "fst st' = fst st1" "fst (snd st') = fst (snd st1)"
    by auto
  then show ?case using Grp.IH by metis
qed (auto split: list.splits if_splits)

end
