(* ===== verification/Test_Evidence.thy ===== *)
theory Test_Evidence
  imports Test_Scope Py_Regex Command_Evidence
begin

text \<open>
  The evidence about test runs
  (\<open>app/modules/workspace/autonomous/command_evidence/test_evidence.py\<close>): the counts a framework
  prints are read out of the excerpt of a command's output with the code's regular expressions,
  one parser per framework turns counts and exit code into a verdict and a confidence, and the
  framework is resolved from the text of the command. The expressions for Chinese, Japanese and
  Korean reports have no match in Latin-1 text and are left out. A persisted scope is the pair of
  the value under \<open>context\<close> and the list under \<open>selectors\<close>, whose elements are strings.
\<close>

section \<open>Confidence, parse results and evidence\<close>

datatype parser_confidence = HIGH | MEDIUM | LOW

fun confidence_value :: "parser_confidence \<Rightarrow> string" where
  "confidence_value HIGH = ''high''"
| "confidence_value MEDIUM = ''medium''"
| "confidence_value LOW = ''low''"

lemma confidence_value_inj [simp]: "confidence_value a = confidence_value b \<longleftrightarrow> a = b"
  by (cases a; cases b) auto

type_synonym scope_dict = "json \<times> string list"

record parsed_test =
  pt_framework :: string
  pt_collected :: "int option"
  pt_passed :: "int option"
  pt_failed :: "int option"
  pt_skipped :: "int option"
  pt_errors :: "int option"
  pt_selectors :: "string list"
  pt_coverage_scope :: "scope_dict option"
  pt_parser :: string
  pt_confidence :: string
  pt_verdict :: string

record test_evidence =
  te_command_id :: string
  te_command_execution_id :: "nat option"
  te_framework :: string
  te_collected :: "int option"
  te_passed :: "int option"
  te_failed :: "int option"
  te_skipped :: "int option"
  te_errors :: "int option"
  te_selectors :: "string list"
  te_coverage_scope :: "scope_dict option"
  te_parser :: string
  te_parser_confidence :: string
  te_verdict :: string
  te_session_id :: string
  te_workflow_id :: string
  te_milestone_id :: string
  te_tenant_id :: int

section \<open>Counts\<close>

definition passed_patterns :: "rx list" where
  "passed_patterns =
     [rx_cats [WordB, rx_number, rx_spaces, rx_ilit ''passed'', WordB],
      rx_cats [rx_ilit ''test result:'', Star rx_space, rx_ilit ''ok.'', Star rx_space, rx_number, rx_spaces, rx_ilit ''passed'']]"

definition failed_patterns :: "rx list" where
  "failed_patterns =
     [rx_cats [WordB, rx_number, rx_spaces, rx_ilit ''failed'', WordB],
      rx_cats [rx_ilit ''test result:'', Star rx_space, rx_ilit ''failed.'', Star rx_space, rx_number, rx_spaces, rx_ilit ''failed'']]"

definition skipped_patterns :: "rx list" where
  "skipped_patterns = [rx_cats [WordB, rx_number, rx_spaces, rx_ilit ''skipped'', WordB]]"

definition errors_patterns :: "rx list" where
  "errors_patterns =
     [rx_cats [WordB, rx_number, rx_spaces, rx_ilit ''error'', rx_opt (rx_ilit ''s''), WordB],
      rx_cats [rx_ilit ''error'', rx_opt (rx_ilit ''s''), rx_plus (Sat (\<lambda>c. c = CHR '':'' \<or> py_space c)), rx_number]]"

definition footer_line :: rx where
  "footer_line = rx_cats [Bol, Star rx_space, rx_plus (rx_lit ''=''), Star rx_space,
     Grp (Cat rx_dot (Lazy rx_dot)), Star rx_space, rx_plus (rx_lit ''=''), Star rx_space, Eol]"

definition footer_in_sec :: rx where
  "footer_in_sec = rx_cats [WordB, rx_lit ''in'', rx_spaces, rx_plus (Sat (\<lambda>c. py_digit c \<or> c = CHR ''.'')), rx_lit ''s'', WordB]"

definition count_target :: "string \<Rightarrow> string" where
  "count_target excerpt =
     (let footers = filter (rx_found footer_in_sec) (rx_groups footer_line excerpt)
      in if footers \<noteq> [] then py_join [CHR 0x0A] footers else excerpt)"

text \<open>The largest number any of the patterns captures.\<close>

definition counts_found :: "string \<Rightarrow> rx list \<Rightarrow> int list" where
  "counts_found excerpt patterns =
     List.map_filter int_of_digits (concat (map (\<lambda>p. rx_groups p excerpt) patterns))"

definition extract_count :: "string \<Rightarrow> rx list \<Rightarrow> int option" where
  "extract_count excerpt patterns =
     foldl (\<lambda>best v. case best of None \<Rightarrow> Some v | Some b \<Rightarrow> if v > b then Some v else best) None
       (counts_found excerpt patterns)"

definition count0 :: "int option \<Rightarrow> int" where
  "count0 n = (case n of Some v \<Rightarrow> v | None \<Rightarrow> 0)"

definition verdict_from_counts :: "int option \<Rightarrow> int option \<Rightarrow> int option \<Rightarrow> execution_verdict" where
  "verdict_from_counts passed failed errors =
     (if count0 failed > 0 \<or> count0 errors > 0 then FAILED
      else if count0 passed > 0 then PASSED
      else INCONCLUSIVE)"

text \<open>The arms shared by every parser that finds no summary.\<close>

definition verdict_from_exit :: "int \<Rightarrow> execution_verdict" where
  "verdict_from_exit exit_code = (if exit_code = 0 then PASSED else FAILED)"

section \<open>Persisted scopes\<close>

definition scope_to_dict :: "pytest_scope option \<Rightarrow> scope_dict option" where
  "scope_to_dict scope =
     (case scope of None \<Rightarrow> None
      | Some (context, selectors) \<Rightarrow> Some (JStr context, sorted_list_of_set selectors))"

definition scope_from_dict :: "scope_dict option \<Rightarrow> pytest_scope option" where
  "scope_from_dict data =
     (case data of
        Some (JStr context, selectors) \<Rightarrow> Some (context, set selectors)
      | _ \<Rightarrow> None)"

section \<open>Parsers\<close>

definition parse_result ::
  "string \<Rightarrow> string \<Rightarrow> int option \<Rightarrow> int option \<Rightarrow> execution_verdict \<times> parser_confidence \<Rightarrow> parsed_test" where
  "parse_result framework parser passed failed v =
     \<lparr>pt_framework = framework, pt_collected = None, pt_passed = passed, pt_failed = failed,
      pt_skipped = None, pt_errors = None, pt_selectors = [], pt_coverage_scope = None,
      pt_parser = parser, pt_confidence = confidence_value (snd v), pt_verdict = verdict_value (fst v)\<rparr>"

definition unittest_ok :: rx where
  "unittest_ok = rx_cats [WordB, rx_lit ''Ran'', rx_spaces, rx_number, rx_spaces, rx_lit ''test'',
     rx_opt (rx_lit ''s''), WordB, Lazy rx_any, Bol, rx_lit ''OK'', Star rx_space, Eol]"

definition unittest_passed :: "string \<Rightarrow> int option \<Rightarrow> int option \<Rightarrow> int option" where
  "unittest_passed excerpt passed failed =
     (case rx_search unittest_ok excerpt of
        Some (Some g) \<Rightarrow> if passed = None \<and> failed = None then int_of_digits g else passed
      | _ \<Rightarrow> passed)"

definition parse_pytest :: "string \<Rightarrow> int option \<Rightarrow> string \<Rightarrow> parsed_test" where
  "parse_pytest excerpt exit_code command_text =
     (let target = count_target excerpt;
          failed = extract_count target failed_patterns;
          skipped = extract_count target skipped_patterns;
          errors = extract_count target errors_patterns;
          passed = unittest_passed excerpt (extract_count target passed_patterns) failed;
          scope = (if command_text \<noteq> [] then pytest_test_scope command_text else None);
          selectors = (case scope of Some (_, s) \<Rightarrow> sorted_list_of_set s | None \<Rightarrow> []);
          v = (if passed \<noteq> None \<or> failed \<noteq> None \<or> errors \<noteq> None
               then (verdict_from_counts passed failed errors, HIGH)
               else (case exit_code of
                       Some n \<Rightarrow> (verdict_from_exit n, MEDIUM)
                     | None \<Rightarrow> (INCONCLUSIVE, LOW)))
      in (parse_result ''python'' ''pytest'' passed failed v)
           \<lparr>pt_skipped := skipped, pt_errors := errors, pt_selectors := selectors,
            pt_coverage_scope := scope_to_dict scope\<rparr>)"

definition jest_patterns :: "string \<Rightarrow> rx list" where
  "jest_patterns word =
     [rx_cats [rx_ilit ''tests:'', Star rx_space, rx_number, rx_spaces, rx_ilit word],
      rx_cats [NotAfter ''files'', rx_spaces, rx_ilit ''tests'', rx_spaces, rx_number, rx_spaces, rx_ilit word],
      rx_cats [rx_number, rx_spaces, rx_ilit ''test'', rx_opt (rx_ilit ''s''), rx_spaces, rx_ilit word]]"

definition parse_jest :: "string \<Rightarrow> int option \<Rightarrow> parsed_test" where
  "parse_jest excerpt exit_code =
     (let passed = extract_count excerpt (jest_patterns ''passed'');
          failed = extract_count excerpt (jest_patterns ''failed'');
          v = (if passed \<noteq> None \<or> failed \<noteq> None then
                 (let verdict = verdict_from_counts passed failed None
                  in (if exit_code \<noteq> None \<and> exit_code \<noteq> Some 0 \<and> verdict = PASSED then FAILED else verdict, HIGH))
               else (case exit_code of
                       Some n \<Rightarrow> (verdict_from_exit n, MEDIUM)
                     | None \<Rightarrow> (INCONCLUSIVE, LOW)))
      in parse_result ''javascript'' ''jest'' passed failed v)"

definition go_ok :: rx where
  "go_ok = rx_cats [Bol, rx_lit ''ok'', rx_spaces, rx_plus rx_nonspace, rx_spaces,
     rx_plus (Sat (\<lambda>c. py_digit c \<or> c = CHR ''.'')), rx_lit ''s'']"

definition go_fail :: rx where
  "go_fail = rx_cats [Bol, rx_lit ''FAIL'', rx_spaces, rx_plus rx_nonspace]"

definition parse_go :: "string \<Rightarrow> int option \<Rightarrow> parsed_test" where
  "parse_go excerpt exit_code =
     parse_result ''go'' ''go_test'' None None
       (if rx_found go_fail excerpt then (FAILED, HIGH)
        else if rx_found go_ok excerpt then (PASSED, HIGH)
        else (case exit_code of
                Some n \<Rightarrow> (verdict_from_exit n, MEDIUM)
              | None \<Rightarrow> (INCONCLUSIVE, LOW)))"

definition cargo_passed_pattern :: rx where
  "cargo_passed_pattern = rx_cats [rx_ilit ''test result:'', Star rx_space, rx_ilit ''ok.'', Star rx_space, rx_number,
     rx_spaces, rx_ilit ''passed'']"

definition cargo_failed_pattern :: rx where
  "cargo_failed_pattern = rx_cats [rx_number, rx_spaces, rx_ilit ''failed'']"

definition parse_cargo :: "string \<Rightarrow> int option \<Rightarrow> parsed_test" where
  "parse_cargo excerpt exit_code =
     (let passed = extract_count excerpt [cargo_passed_pattern];
          failed = extract_count excerpt [cargo_failed_pattern];
          lower = map ascii_lower excerpt;
          saw_summary = py_contains ''test result:'' lower;
          v = (if saw_summary \<and> (passed \<noteq> None \<or> failed \<noteq> None)
               then (verdict_from_counts passed failed None, HIGH)
               else if py_contains ''test result: ok'' lower then (PASSED, HIGH)
               else (case exit_code of
                       Some n \<Rightarrow> (verdict_from_exit n, MEDIUM)
                     | None \<Rightarrow> (INCONCLUSIVE, LOW)))
      in parse_result ''rust'' ''cargo'' passed failed v)"

definition parse_generic :: "string \<Rightarrow> int option \<Rightarrow> parsed_test" where
  "parse_generic excerpt exit_code =
     parse_result ''generic'' ''generic'' None None
       (case exit_code of
          None \<Rightarrow> (INCONCLUSIVE, LOW)
        | Some n \<Rightarrow>
            if n = 0 then (if py_strip excerpt \<noteq> [] then (PASSED, MEDIUM) else (INCONCLUSIVE, LOW))
            else (FAILED, MEDIUM))"

section \<open>Dispatch\<close>

definition npm_test :: rx where
  "npm_test = rx_cats [WordB, Alt (rx_lit ''npm'') (Alt (rx_lit ''yarn'') (rx_lit ''pnpm'')), rx_spaces,
     rx_opt (Cat (rx_lit ''run'') rx_spaces), rx_lit ''test'']"

definition resolve_framework :: "string \<Rightarrow> string \<Rightarrow> string" where
  "resolve_framework shell_command hint =
     (let command_text = map ascii_lower shell_command;
          tokens = py_split_ws command_text;
          head = (case tokens of t # _ \<Rightarrow> t | [] \<Rightarrow> [])
      in if \<exists>signal\<in>set [''pytest'', ''py.test'', ''unittest'']. py_contains signal command_text then ''python''
         else if \<exists>signal\<in>set [''jest'', ''vitest'', ''npm test'', ''yarn test'']. py_contains signal command_text then ''javascript''
         else if head = ''go'' then ''go''
         else if head = ''cargo'' then ''rust''
         else if rx_found npm_test command_text then ''javascript''
         else if hint \<noteq> [] then hint else ''generic'')"

definition parse_framework :: "string \<Rightarrow> string \<Rightarrow> int option \<Rightarrow> string \<Rightarrow> parsed_test" where
  "parse_framework framework excerpt exit_code command_text =
     (if framework = ''python'' then parse_pytest excerpt exit_code command_text
      else if framework = ''javascript'' then parse_jest excerpt exit_code
      else if framework = ''go'' then parse_go excerpt exit_code
      else if framework = ''rust'' then parse_cargo excerpt exit_code
      else parse_generic excerpt exit_code)"

definition shell_text :: "command_evidence \<Rightarrow> string" where
  "shell_text ce = (case ce_shell_command ce of Some c \<Rightarrow> c | None \<Rightarrow> [])"

definition parse_test_evidence :: "command_evidence \<Rightarrow> string \<Rightarrow> test_evidence" where
  "parse_test_evidence ce framework_hint =
     (let parsed = parse_framework (resolve_framework (shell_text ce) framework_hint)
                     (ce_output_excerpt ce) (ce_exit_code ce) (shell_text ce)
      in \<lparr>te_command_id = ce_command_id ce, te_command_execution_id = ce_id ce,
          te_framework = pt_framework parsed, te_collected = pt_collected parsed,
          te_passed = pt_passed parsed, te_failed = pt_failed parsed, te_skipped = pt_skipped parsed,
          te_errors = pt_errors parsed, te_selectors = pt_selectors parsed,
          te_coverage_scope = pt_coverage_scope parsed, te_parser = pt_parser parsed,
          te_parser_confidence = pt_confidence parsed, te_verdict = pt_verdict parsed,
          te_session_id = ce_session_id ce, te_workflow_id = ce_workflow_id ce,
          te_milestone_id = ce_milestone_id ce, te_tenant_id = ce_tenant_id ce\<rparr>)"

section \<open>Lemmas\<close>

lemma fold_max:
  "foldl (\<lambda>best v. case best of None \<Rightarrow> Some v | Some b \<Rightarrow> if v > b then Some v else best) (Some b) vs =
   Some (Max (insert (b :: int) (set vs)))"
proof (induction vs arbitrary: b)
  case (Cons v vs)
  have "Max (insert b (insert v (set vs))) = Max (insert (max b v) (set vs))"
    by (cases "set vs = {}") (auto simp: max.assoc)
  then show ?case using Cons.IH [of v] Cons.IH [of b] by (auto simp: max_def)
qed simp

lemma scan_args_finite: "scan_args so args acc = Some sels \<Longrightarrow> finite acc \<Longrightarrow> finite sels"
proof (induction args arbitrary: so acc rule: length_induct)
  case (1 args)
  show ?case
  proof (cases args)
    case (Cons token rest)
    have ih: "scan_args so' args' acc' = Some sels \<Longrightarrow> finite acc' \<Longrightarrow> length args' < length args \<Longrightarrow> ?thesis"
      for so' args' acc'
      using "1.IH" by blast
    show ?thesis
      using "1.prems"(1) Cons ih [OF _ "1.prems"(2)] ih [of _ _ "insert (selector_of token) acc"] "1.prems"(2)
      by (simp add: Let_def split: if_splits list.splits)
  qed (use "1.prems" in simp)
qed

lemma pytest_test_scope_finite: "pytest_test_scope c = Some sc \<Longrightarrow> finite (snd sc)"
  by (auto simp: pytest_test_scope_def Let_def split: if_splits option.splits list.splits
      dest: scan_args_finite)

lemma scope_roundtrip: "(\<And>sc. scope = Some sc \<Longrightarrow> finite (snd sc)) \<Longrightarrow> scope_from_dict (scope_to_dict scope) = scope"
  by (auto simp: scope_to_dict_def scope_from_dict_def split: option.splits)

lemma verdict_exit_cases: "verdict_from_exit n = PASSED \<longleftrightarrow> n = 0" "verdict_from_exit n \<noteq> INCONCLUSIVE"
  "verdict_from_exit n \<noteq> NOT_RUN"
  by (auto simp: verdict_from_exit_def)

lemma verdict_counts_cases:
  "verdict_from_counts p f e = PASSED \<longleftrightarrow> count0 f \<le> 0 \<and> count0 e \<le> 0 \<and> count0 p > 0"
  "verdict_from_counts p f e \<noteq> NOT_RUN"
  by (auto simp: verdict_from_counts_def)

lemma count0_simps [simp]: "count0 None = 0" "count0 (Some n) = n"
  by (simp_all add: count0_def)

lemma parse_result_fields [simp]:
  "pt_verdict (parse_result fw ps p f v) = verdict_value (fst v)"
  "pt_confidence (parse_result fw ps p f v) = confidence_value (snd v)"
  "pt_failed (parse_result fw ps p f v) = f" "pt_passed (parse_result fw ps p f v) = p"
  "pt_errors (parse_result fw ps p f v) = None" "pt_coverage_scope (parse_result fw ps p f v) = None"
  by (simp_all add: parse_result_def)

lemma parse_pytest_scope:
  "pt_coverage_scope (parse_pytest excerpt exit_code c) = scope_to_dict (if c \<noteq> [] then pytest_test_scope c else None)"
  by (simp add: parse_pytest_def Let_def)

text \<open>Sample outputs, read once.\<close>

lemma go_low: "pt_confidence (parse_framework ''go'' ''no summary'' None ''go test'') = ''low''"
  by code_simp

lemma four_passed:
  "pt_verdict (parse_framework ''python'' ''4 passed'' None ''pytest'') = ''passed''"
  by code_simp

lemma three_passed_counts:
  "count_target ''3 passed'' = ''3 passed''" "extract_count ''3 passed'' passed_patterns = Some 3"
  "extract_count ''3 passed'' failed_patterns = None" "extract_count ''3 passed'' errors_patterns = None"
  "unittest_passed ''3 passed'' (Some 3) None = Some 3"
  by code_simp+

lemma three_passed:
  "pt_verdict (parse_framework (resolve_framework ''pytest'' hint) ''3 passed'' e c) = ''passed''"
  "pt_confidence (parse_framework (resolve_framework ''pytest'' hint) ''3 passed'' e c) = ''high''"
proof -
  have r: "resolve_framework ''pytest'' hint = ''python''"
    by (simp add: resolve_framework_def ascii_lower_def Let_def py_startswith_def)
  show "pt_verdict (parse_framework (resolve_framework ''pytest'' hint) ''3 passed'' e c) = ''passed''"
    and "pt_confidence (parse_framework (resolve_framework ''pytest'' hint) ''3 passed'' e c) = ''high''"
    unfolding r by (simp_all add: parse_framework_def parse_pytest_def Let_def three_passed_counts verdict_from_counts_def)
qed

lemma passing_summary_counts:
  "count_target ''24 passed'' = ''24 passed''" "extract_count ''24 passed'' passed_patterns = Some 24"
  "extract_count ''24 passed'' failed_patterns = None" "extract_count ''24 passed'' errors_patterns = None"
  "unittest_passed ''24 passed'' (Some 24) None = Some 24"
  "extract_count ''test result: ok. 2 passed; 0 failed'' [cargo_passed_pattern] = Some 2"
  "extract_count ''test result: ok. 2 passed; 0 failed'' [cargo_failed_pattern] = Some 0"
  "py_contains ''test result:'' (map ascii_lower ''test result: ok. 2 passed; 0 failed'')"
  "rx_found go_ok ''ok  pkg 0.1s''" "\<not> rx_found go_fail ''ok  pkg 0.1s''"
  by code_simp+

lemma passing_summaries:
  "pt_verdict (parse_pytest ''24 passed'' e []) = ''passed''"
  "pt_verdict (parse_cargo ''test result: ok. 2 passed; 0 failed'' e) = ''passed''"
  "pt_verdict (parse_go ''ok  pkg 0.1s'' e) = ''passed''"
  by (simp_all only: parse_pytest_def parse_cargo_def parse_go_def Let_def passing_summary_counts verdict_from_counts_def)
    simp_all

lemma verdict_value_passed: "verdict_value v = ''passed'' \<longleftrightarrow> v = PASSED"
  by (cases v) auto

lemma jest_nonzero: "n \<noteq> 0 \<Longrightarrow> pt_verdict (parse_jest excerpt (Some n)) \<noteq> ''passed''"
  by (simp add: parse_jest_def Let_def verdict_value_passed verdict_from_exit_def)

lemma empty_summary_counts:
  "extract_count ''test result: ok. 0 passed; 0 failed'' [cargo_passed_pattern] = Some 0"
  "extract_count ''test result: ok. 0 passed; 0 failed'' [cargo_failed_pattern] = Some 0"
  "py_contains ''test result:'' (map ascii_lower ''test result: ok. 0 passed; 0 failed'') = True"
  by code_simp+

lemma empty_cargo_run:
  "pt_verdict (parse_cargo ''test result: ok. 0 passed; 0 failed'' e) = ''inconclusive''"
  "pt_confidence (parse_cargo ''test result: ok. 0 passed; 0 failed'' e) = ''high''"
  by (simp_all only: parse_cargo_def Let_def empty_summary_counts verdict_from_counts_def) simp_all

text \<open>The pairs of verdict and confidence the parsers give.\<close>

definition decided :: "int option \<Rightarrow> execution_verdict \<times> parser_confidence \<Rightarrow> bool" where
  "decided exit_code v \<longleftrightarrow> fst v \<noteq> NOT_RUN \<and> (snd v = MEDIUM \<longrightarrow> fst v \<noteq> INCONCLUSIVE) \<and>
     (snd v = LOW \<longrightarrow> fst v = INCONCLUSIVE \<and> (exit_code = None \<or> exit_code = Some 0))"

lemma decided_exit:
  "decided exit_code (case exit_code of Some n \<Rightarrow> (verdict_from_exit n, MEDIUM) | None \<Rightarrow> (INCONCLUSIVE, LOW))"
  "x \<noteq> NOT_RUN \<Longrightarrow> decided exit_code (x, HIGH)"
  by (auto simp: decided_def verdict_from_exit_def split: option.splits)

lemma parse_framework_decided:
  obtains v where "pt_verdict (parse_framework framework excerpt exit_code command_text) = verdict_value (fst v)"
    and "pt_confidence (parse_framework framework excerpt exit_code command_text) = confidence_value (snd v)"
    and "decided exit_code v"
proof -
  let ?D = "\<lambda>p. \<exists>v. pt_verdict p = verdict_value (fst v) \<and> pt_confidence p = confidence_value (snd v) \<and> decided exit_code v"
  have R: "decided exit_code v \<Longrightarrow> ?D (parse_result fw ps p f v)" for fw ps p f v by auto
  have "?D (parse_pytest excerpt exit_code command_text)"
    unfolding parse_pytest_def Let_def
    by (auto intro!: exI decided_exit simp: verdict_counts_cases)
  moreover have "?D (parse_jest excerpt exit_code)"
    unfolding parse_jest_def Let_def by (rule R) (auto intro!: decided_exit simp: verdict_counts_cases)
  moreover have "?D (parse_go excerpt exit_code)"
    unfolding parse_go_def by (rule R) (auto intro!: decided_exit)
  moreover have "?D (parse_cargo excerpt exit_code)"
    unfolding parse_cargo_def Let_def by (rule R) (auto intro!: decided_exit simp: verdict_counts_cases)
  moreover have "?D (parse_generic excerpt exit_code)"
    unfolding parse_generic_def by (rule R) (auto simp: decided_def split: option.splits)
  ultimately have "?D (parse_framework framework excerpt exit_code command_text)"
    by (simp add: parse_framework_def)
  then show thesis using that by blast
qed

section \<open>Properties\<close>

text \<open>the count a parser reports is the largest number its patterns capture, and there is none
  exactly when they capture nothing.\<close>
theorem extract_count_is_max:
  "extract_count excerpt patterns =
     (if counts_found excerpt patterns = [] then None else Some (Max (set (counts_found excerpt patterns))))"
  by (cases "counts_found excerpt patterns") (simp_all add: extract_count_def fold_max)

text \<open>C38: whatever the excerpt, the exit code and the framework, a parser gives one of three verdicts;
  at medium confidence the verdict is decided, and at low confidence it is inconclusive.\<close>
theorem parser_verdicts:
  "let p = parse_framework framework excerpt exit_code command_text in
    pt_verdict p \<in> {''passed'', ''failed'', ''inconclusive''} \<and>
    (pt_confidence p = ''medium'' \<longrightarrow> pt_verdict p \<in> {''passed'', ''failed''}) \<and>
    (pt_confidence p = ''low'' \<longrightarrow> pt_verdict p = ''inconclusive'' \<and> (exit_code = None \<or> exit_code = Some 0)) \<and>
    pt_confidence p \<in> {''high'', ''medium'', ''low''}"
proof -
  let ?p = "parse_framework framework excerpt exit_code command_text"
  obtain v where "pt_verdict ?p = verdict_value (fst v)" "pt_confidence ?p = confidence_value (snd v)"
    "decided exit_code v"
    by (rule parse_framework_decided)
  then show ?thesis by (cases "fst v"; cases "snd v") (auto simp: decided_def Let_def)
qed

theorem parser_verdicts_witness:
  "pt_verdict (parse_framework ''go'' ''no summary'' None ''go test'') = ''inconclusive''"
  using parser_verdicts [of "''go''" "''no summary''" None "''go test''"]
  by (simp add: go_low Let_def)

text \<open>for every framework but Rust, a passed verdict means that the parser read no failure and no
  error, and that it read a passed count, a Go package line or exit code 0.\<close>
theorem passed_verdict_justified:
  assumes "pt_verdict (parse_framework framework excerpt exit_code command_text) = ''passed''"
    and "framework \<noteq> ''rust''"
  shows "count0 (pt_failed (parse_framework framework excerpt exit_code command_text)) \<le> 0 \<and>
    count0 (pt_errors (parse_framework framework excerpt exit_code command_text)) \<le> 0 \<and>
    (count0 (pt_passed (parse_framework framework excerpt exit_code command_text)) > 0 \<or>
     exit_code = Some 0 \<or> framework = ''go'' \<and> rx_found go_ok excerpt)"
proof -
  consider "framework = ''python''" | "framework = ''javascript''" | "framework = ''go''"
    | "framework \<notin> {''python'', ''javascript'', ''go'', ''rust''}" using assms(2) by blast
  then show ?thesis
    using assms
    by cases (auto simp: parse_framework_def parse_pytest_def parse_jest_def parse_go_def parse_generic_def
        Let_def verdict_value_passed verdict_exit_cases verdict_counts_cases split: option.splits if_splits)
qed

theorem passed_verdict_justified_witness:
  "count0 (pt_failed (parse_framework ''python'' ''4 passed'' None ''pytest'')) \<le> 0 \<and>
   count0 (pt_passed (parse_framework ''python'' ''4 passed'' None ''pytest'')) > 0"
  using passed_verdict_justified [of "''python''" "''4 passed''" None "''pytest''"]
  by (simp add: four_passed)

text \<open>the scope stored with pytest evidence reads back as the scope of the command.\<close>
theorem stored_scope_roundtrip:
  "scope_from_dict (pt_coverage_scope (parse_pytest excerpt exit_code c)) =
     (if c \<noteq> [] then pytest_test_scope c else None)"
  unfolding parse_pytest_scope by (rule scope_roundtrip) (auto intro: pytest_test_scope_finite split: if_splits)

text \<open>why a command stopped plays no part in its test verdict: a pytest run that was killed by a
  deadline, cancelled or crashed after it printed \<open>3 passed\<close> is judged passed with high
  confidence.\<close>
theorem timed_out_run_passes:
  "parse_test_evidence (ce\<lparr>ce_terminal_reason := reason, ce_timed_out := timed_out, ce_cancelled := cancelled,
     ce_signal := signal\<rparr>) hint = parse_test_evidence ce hint \<and>
   te_verdict (parse_test_evidence ((blank_evidence ''c'' ''s'')\<lparr>ce_shell_command := Some ''pytest'',
     ce_terminal_reason := ''timeout'', ce_timed_out := True, ce_output_excerpt := ''3 passed''\<rparr>) hint) = ''passed'' \<and>
   te_parser_confidence (parse_test_evidence ((blank_evidence ''c'' ''s'')\<lparr>ce_shell_command := Some ''pytest'',
     ce_terminal_reason := ''timeout'', ce_timed_out := True, ce_output_excerpt := ''3 passed''\<rparr>) hint) = ''high''"
  by (simp add: parse_test_evidence_def shell_text_def blank_evidence_def Let_def three_passed)

text \<open>a non-zero exit code overrules a passing summary for Jest, as the comment in its parser asks,
  and for Jest only: pytest, Cargo and Go evidence with the same exit code is judged passed.\<close>
theorem exit_code_overrules_jest_only:
  "exit_code \<noteq> 0 \<Longrightarrow>
   pt_verdict (parse_jest excerpt (Some exit_code)) \<noteq> ''passed'' \<and>
   pt_verdict (parse_pytest ''24 passed'' (Some exit_code) []) = ''passed'' \<and>
   pt_verdict (parse_cargo ''test result: ok. 2 passed; 0 failed'' (Some exit_code)) = ''passed'' \<and>
   pt_verdict (parse_go ''ok  pkg 0.1s'' (Some exit_code)) = ''passed''"
  by (simp add: jest_nonzero passing_summaries)

theorem exit_code_overrules_jest_only_witness:
  "pt_verdict (parse_jest ''Tests: 24 passed'' (Some 1)) \<noteq> ''passed''"
  using exit_code_overrules_jest_only [of 1 "''Tests: 24 passed''"] by simp

text \<open>a run of no tests is inconclusive with high confidence: a parser that reads the counts
  zero gives neither verdict, as Cargo's for \<open>ok. 0 passed; 0 failed\<close>, whatever the exit
  code.\<close>
theorem empty_run_inconclusive:
  "pt_verdict (parse_cargo ''test result: ok. 0 passed; 0 failed'' exit_code) = ''inconclusive'' \<and>
   pt_confidence (parse_cargo ''test result: ok. 0 passed; 0 failed'' exit_code) = ''high''"
  by (simp add: empty_cargo_run)

end
