(* ===== verification/Test_Verdict.thy ===== *)
theory Test_Verdict
  imports Test_Evidence
begin

text \<open>
  The verdict on a test run
  (\<open>app/modules/workspace/autonomous/command_evidence/test_verdict.py\<close>): the evidence of the
  commands of a run, in the order of their execution, is reduced to the latest of each command,
  each failure is looked up among the later passes, and the run is passed, failed, not run or
  inconclusive. The dictionary of the latest states is an association list in insertion order.
  The first lemmas give the loops a declarative meaning, by position in the run.
\<close>

datatype command_key = Pytest_Key string "string set" | Cmd_Key string

definition command_key_of :: "test_evidence \<Rightarrow> command_key" where
  "command_key_of e =
     (case (te_framework e = ''python'', te_coverage_scope e) of
        (True, Some (JStr context, selectors)) \<Rightarrow> Pytest_Key context (set selectors)
      | _ \<Rightarrow> Cmd_Key (te_command_id e))"

text \<open>The verdict, the scope, the order and the evidence of the latest invocation.\<close>

type_synonym latest = "string \<times> pytest_scope option \<times> nat \<times> test_evidence"

definition evidence_scope :: "test_evidence \<Rightarrow> pytest_scope option" where
  "evidence_scope e = (if te_framework e = ''python'' then scope_from_dict (te_coverage_scope e) else None)"

definition latest_step :: "(command_key \<times> latest) list \<Rightarrow> nat \<times> test_evidence \<Rightarrow> (command_key \<times> latest) list" where
  "latest_step d x =
     (let (order, evidence) = x; key = command_key_of evidence
      in if (case map_of d key of None \<Rightarrow> True | Some (_, _, previous, _) \<Rightarrow> order > previous)
         then AList.update key (te_verdict evidence, evidence_scope evidence, order, evidence) d
         else d)"

definition latest_state :: "(nat \<times> test_evidence) list \<Rightarrow> (command_key \<times> latest) list" where
  "latest_state authoritative = foldl latest_step [] authoritative"

definition has_test_semantics :: "test_evidence \<Rightarrow> bool" where
  "has_test_semantics e \<longleftrightarrow>
     te_coverage_scope e \<noteq> None \<or> te_collected e \<noteq> None \<or> te_passed e \<noteq> None \<or> te_failed e \<noteq> None \<or>
     te_skipped e \<noteq> None \<or> te_errors e \<noteq> None \<or> te_selectors e \<noteq> []"

datatype failure_class = No_Failure | Unresolved | Uncertain

text \<open>The inner loop over the passing commands: whether the failure is covered, and whether a later
  pass leaves it undecidable.\<close>

fun scan_passing ::
  "pytest_scope option \<Rightarrow> nat \<Rightarrow> test_evidence \<Rightarrow> bool \<Rightarrow>
   (pytest_scope option \<times> nat \<times> test_evidence) list \<Rightarrow> bool \<times> bool" where
  "scan_passing failed_scope order failed_evidence undecidable [] = (False, undecidable)"
| "scan_passing failed_scope order failed_evidence undecidable ((passing_scope, passing_order, passing_evidence) # ps) =
     (if passing_order \<le> order then scan_passing failed_scope order failed_evidence undecidable ps
      else if pytest_scope_covers passing_scope failed_scope then (True, undecidable)
      else if passing_scope = None \<or> failed_scope = None then
        (if has_test_semantics failed_evidence \<and> \<not> has_test_semantics passing_evidence
         then scan_passing failed_scope order failed_evidence undecidable ps
         else scan_passing failed_scope order failed_evidence True ps)
      else scan_passing failed_scope order failed_evidence undecidable ps)"

fun classify_loop ::
  "(pytest_scope option \<times> nat \<times> test_evidence) list \<Rightarrow> failure_class \<Rightarrow> latest list \<Rightarrow> failure_class" where
  "classify_loop passing res [] = res"
| "classify_loop passing res ((verdict, failed_scope, order, failed_evidence) # ls) =
     (if verdict = ''passed'' then classify_loop passing res ls
      else
        (let (covered, undecidable) = scan_passing failed_scope order failed_evidence False passing
         in if covered then classify_loop passing res ls
            else if \<not> undecidable then Unresolved
            else classify_loop passing Uncertain ls))"

definition classify_failures :: "(nat \<times> test_evidence) list \<Rightarrow> failure_class" where
  "classify_failures authoritative =
     (let latest = map snd (latest_state authoritative);
          passing = map snd (filter (\<lambda>l. fst l = ''passed'') latest)
      in classify_loop passing No_Failure latest)"

definition authoritative_confidence :: "string list" where
  "authoritative_confidence = [''high'', ''medium'']"

definition authoritative :: "test_evidence \<Rightarrow> bool" where
  "authoritative e \<longleftrightarrow> te_parser_confidence e \<in> set authoritative_confidence"

definition authoritative_evidences :: "test_evidence list \<Rightarrow> (nat \<times> test_evidence) list" where
  "authoritative_evidences test_evidences = filter (\<lambda>x. authoritative (snd x)) (enumerate 0 test_evidences)"

definition compute_run_verdict :: "test_evidence list \<Rightarrow> execution_verdict" where
  "compute_run_verdict test_evidences =
     (if test_evidences = [] then NOT_RUN
      else
        (let has_low = (\<exists>e\<in>set test_evidences. te_parser_confidence e = ''low'');
             auth = authoritative_evidences test_evidences
         in if auth = [] then INCONCLUSIVE
            else
              (case classify_failures auth of
                 Unresolved \<Rightarrow> FAILED
               | Uncertain \<Rightarrow> INCONCLUSIVE
               | No_Failure \<Rightarrow> if has_low then INCONCLUSIVE else PASSED)))"

section \<open>The latest invocation of each command\<close>

lemma latest_step_keys:
  "distinct (map fst d) \<Longrightarrow> distinct (map fst (latest_step d x))"
  by (auto simp: latest_step_def Let_def distinct_update split: prod.splits)

lemma latest_state_distinct: "distinct (map fst (latest_state xs))"
  unfolding latest_state_def
  by (induction xs rule: rev_induct) (simp_all add: latest_step_keys)

definition latest_entry :: "nat \<times> test_evidence \<Rightarrow> latest" where
  "latest_entry x = (te_verdict (snd x), evidence_scope (snd x), fst x, snd x)"

lemma last_filter_in: "filter P xs \<noteq> [] \<Longrightarrow> last (filter P xs) \<in> set xs"
  using last_in_set [of "filter P xs"] by auto

lemma latest_state_lookup:
  assumes "sorted_wrt (<) (map fst xs)"
  shows "map_of (latest_state xs) k =
    (let ys = filter (\<lambda>x. command_key_of (snd x) = k) xs
     in if ys = [] then None else Some (latest_entry (last ys)))"
  using assms
proof (induction xs arbitrary: k rule: rev_induct)
  case Nil
  then show ?case by (simp add: latest_state_def)
next
  case (snoc x xs)
  let ?f = "\<lambda>k. filter (\<lambda>x. command_key_of (snd x) = k) xs"
  have s: "sorted_wrt (<) (map fst xs)" and lt: "\<forall>y\<in>set xs. fst y < fst x"
    using snoc.prems by (auto simp: sorted_wrt_append)
  have ih: "map_of (latest_state xs) k = (if ?f k = [] then None else Some (latest_entry (last (?f k))))" for k
    using snoc.IH [OF s] by (simp add: Let_def)
  have up: "latest_state (xs @ [x]) = AList.update (command_key_of (snd x)) (latest_entry x) (latest_state xs)"
  proof -
    have "fst (last (?f (command_key_of (snd x)))) < fst x" if "?f (command_key_of (snd x)) \<noteq> []"
      using that last_filter_in lt by blast
    then show ?thesis
      using ih [of "command_key_of (snd x)"]
      by (cases x) (auto simp: latest_state_def latest_step_def Let_def latest_entry_def)
  qed
  show ?case
    unfolding up update_conv' Let_def filter_append by (simp add: ih)
qed

text \<open>A position of the run holds the latest invocation of its command.\<close>

definition is_latest :: "test_evidence list \<Rightarrow> nat \<Rightarrow> bool" where
  "is_latest es i \<longleftrightarrow> i < length es \<and> authoritative (es ! i) \<and>
     (\<forall>j. i < j \<and> j < length es \<and> authoritative (es ! j) \<longrightarrow> command_key_of (es ! j) \<noteq> command_key_of (es ! i))"

lemma enumerate_sorted: "sorted_wrt (<) (map fst (filter P (enumerate n es)))"
proof (induction es arbitrary: n)
  case (Cons e es)
  have "\<forall>x\<in>set (enumerate (Suc n) es). n < fst x" by (auto simp: in_set_enumerate_eq)
  then show ?case using Cons by auto
qed simp

lemma last_sorted_max:
  assumes "sorted_wrt (<) (map fst ys)" and "y \<in> set ys" and "\<forall>z\<in>set ys. fst z \<le> fst (y :: nat \<times> 'a)"
  shows "last ys = y"
  using assms
proof (induction ys rule: rev_induct)
  case (snoc x xs)
  then show ?case by (force simp: sorted_wrt_append)
qed simp

lemma latest_values:
  "l \<in> snd ` set (latest_state (authoritative_evidences es)) \<longleftrightarrow>
   (\<exists>i. is_latest es i \<and> l = (te_verdict (es ! i), evidence_scope (es ! i), i, es ! i))"
proof -
  let ?xs = "authoritative_evidences es"
  let ?f = "\<lambda>k. filter (\<lambda>x. command_key_of (snd x) = k) ?xs"
  have s: "sorted_wrt (<) (map fst ?xs)" unfolding authoritative_evidences_def by (rule enumerate_sorted)
  have mem: "(i, e) \<in> set ?xs \<longleftrightarrow> i < length es \<and> e = es ! i \<and> authoritative e" for i e
    by (auto simp: authoritative_evidences_def in_set_enumerate_eq)
  have sf: "sorted_wrt (<) (map fst (?f k))" for k
    unfolding authoritative_evidences_def filter_filter by (rule enumerate_sorted)
  have "l \<in> snd ` set (latest_state ?xs) \<longleftrightarrow> (\<exists>k. map_of (latest_state ?xs) k = Some l)"
    using latest_state_distinct [of ?xs] by (force simp: map_of_eq_Some_iff)
  also have "\<dots> \<longleftrightarrow> (\<exists>k. ?f k \<noteq> [] \<and> l = latest_entry (last (?f k)))"
    using latest_state_lookup [OF s] by (auto simp: Let_def)
  also have "\<dots> \<longleftrightarrow> (\<exists>i. is_latest es i \<and> l = latest_entry (i, es ! i))"
  proof
    assume "\<exists>k. ?f k \<noteq> [] \<and> l = latest_entry (last (?f k))"
    then obtain k where k: "?f k \<noteq> []" "l = latest_entry (last (?f k))" by blast
    obtain i e where ie: "last (?f k) = (i, e)" by fastforce
    then have in_f: "(i, e) \<in> set (?f k)" using k(1) last_in_set by metis
    then have i: "i < length es" "e = es ! i" "authoritative e" "command_key_of e = k" using mem by auto
    have "fst x \<le> i" if "x \<in> set (?f k)" for x
    proof -
      obtain us where us: "?f k = us @ [(i, e)]" using k(1) ie append_butlast_last_id by metis
      show ?thesis using sf [of k] that unfolding us by (auto simp: sorted_wrt_append)
    qed
    then have "is_latest es i"
      using i mem by (force simp: is_latest_def)
    then show "\<exists>i. is_latest es i \<and> l = latest_entry (i, es ! i)" using k(2) ie i(2) by auto
  next
    assume "\<exists>i. is_latest es i \<and> l = latest_entry (i, es ! i)"
    then obtain i where i: "is_latest es i" "l = latest_entry (i, es ! i)" by blast
    let ?k = "command_key_of (es ! i)"
    have in_f: "(i, es ! i) \<in> set (?f ?k)" using i(1) mem by (auto simp: is_latest_def)
    have "fst x \<le> i" if "x \<in> set (?f ?k)" for x
    proof -
      obtain j e where x: "x = (j, e)" by fastforce
      have "(j, e) \<in> set ?xs" "command_key_of e = ?k" using that x by auto
      then have "j < length es" "authoritative (es ! j)" "command_key_of (es ! j) = ?k" using mem by auto
      then show ?thesis using i(1) x by (auto simp: is_latest_def not_less [symmetric])
    qed
    then have "last (?f ?k) = (i, es ! i)" using last_sorted_max [OF sf in_f] by auto
    then show "\<exists>k. ?f k \<noteq> [] \<and> l = latest_entry (last (?f k))" using i(2) in_f by (metis empty_iff empty_set)
  qed
  finally show ?thesis by (simp add: latest_entry_def)
qed

section \<open>Classification\<close>

lemma scan_passing_covered:
  "fst (scan_passing fs ord e u ps) \<longleftrightarrow>
   (\<exists>p\<in>set ps. ord < fst (snd p) \<and> pytest_scope_covers (fst p) fs)"
  by (induction fs ord e u ps rule: scan_passing.induct) (auto simp: not_less)

lemma scan_passing_undecidable:
  "\<not> fst (scan_passing fs ord e u ps) \<Longrightarrow>
   snd (scan_passing fs ord e u ps) \<longleftrightarrow>
     u \<or> (\<exists>p\<in>set ps. ord < fst (snd p) \<and> (fst p = None \<or> fs = None) \<and>
            (has_test_semantics e \<longrightarrow> has_test_semantics (snd (snd p))))"
  by (induction fs ord e u ps rule: scan_passing.induct) (auto simp: not_less split: if_splits)

definition entry_unresolved :: "(pytest_scope option \<times> nat \<times> test_evidence) list \<Rightarrow> latest \<Rightarrow> bool" where
  "entry_unresolved ps l \<longleftrightarrow> fst l \<noteq> ''passed'' \<and>
     scan_passing (fst (snd l)) (fst (snd (snd l))) (snd (snd (snd l))) False ps = (False, False)"

definition entry_covered :: "(pytest_scope option \<times> nat \<times> test_evidence) list \<Rightarrow> latest \<Rightarrow> bool" where
  "entry_covered ps l \<longleftrightarrow> fst l = ''passed'' \<or>
     fst (scan_passing (fst (snd l)) (fst (snd (snd l))) (snd (snd (snd l))) False ps)"

lemma classify_loop_cases:
  "r \<noteq> Unresolved \<Longrightarrow> classify_loop ps r ls = Unresolved \<longleftrightarrow> (\<exists>l\<in>set ls. entry_unresolved ps l)"
  "r \<noteq> Unresolved \<Longrightarrow>
   classify_loop ps r ls = No_Failure \<longleftrightarrow> r = No_Failure \<and> (\<forall>l\<in>set ls. entry_covered ps l)"
proof (induction ps r ls rule: classify_loop.induct)
  case (2 ps r verdict fs ord e ls)
  obtain c u where cu: "scan_passing fs ord e False ps = (c, u)" by fastforce
  {
    case 1
    then show ?case
      using 2 cu by (cases c; cases u) (auto simp: entry_unresolved_def)
  next
    case 2
    then show ?case
      using "2.IH" cu by (cases c; cases u) (auto simp: entry_covered_def)
  }
qed simp_all

text \<open>The meaning of the classification, by position in the run.\<close>

definition passed_at :: "test_evidence list \<Rightarrow> nat \<Rightarrow> bool" where
  "passed_at es i \<longleftrightarrow> is_latest es i \<and> te_verdict (es ! i) = ''passed''"

definition failed_at :: "test_evidence list \<Rightarrow> nat \<Rightarrow> bool" where
  "failed_at es i \<longleftrightarrow> is_latest es i \<and> te_verdict (es ! i) \<noteq> ''passed''"

definition covered_at :: "test_evidence list \<Rightarrow> nat \<Rightarrow> bool" where
  "covered_at es i \<longleftrightarrow>
     (\<exists>j>i. passed_at es j \<and> pytest_scope_covers (evidence_scope (es ! j)) (evidence_scope (es ! i)))"

definition undecidable_at :: "test_evidence list \<Rightarrow> nat \<Rightarrow> bool" where
  "undecidable_at es i \<longleftrightarrow>
     (\<exists>j>i. passed_at es j \<and> (evidence_scope (es ! j) = None \<or> evidence_scope (es ! i) = None) \<and>
        (has_test_semantics (es ! i) \<longrightarrow> has_test_semantics (es ! j)))"

lemma latest_list_mem:
  "l \<in> set (map snd (latest_state (authoritative_evidences es))) \<longleftrightarrow>
   (\<exists>i. is_latest es i \<and> l = (te_verdict (es ! i), evidence_scope (es ! i), i, es ! i))"
  using latest_values by simp

lemma passing_list_mem:
  "p \<in> set (map snd (filter (\<lambda>l. fst l = ''passed'') (map snd (latest_state (authoritative_evidences es))))) \<longleftrightarrow>
   (\<exists>i. passed_at es i \<and> p = (evidence_scope (es ! i), i, es ! i))"
proof -
  have eq: "p \<in> set (map snd (filter (\<lambda>l. fst l = ''passed'') ls)) \<longleftrightarrow> (\<exists>l. l \<in> set ls \<and> fst l = ''passed'' \<and> p = snd l)"
    for ls :: "latest list"
    by (force simp: image_iff)
  show ?thesis unfolding eq passed_at_def latest_list_mem by auto
qed

lemma classify_failures_cases:
  "classify_failures (authoritative_evidences es) = Unresolved \<longleftrightarrow>
     (\<exists>i. failed_at es i \<and> \<not> covered_at es i \<and> \<not> undecidable_at es i)"
  "classify_failures (authoritative_evidences es) = No_Failure \<longleftrightarrow>
     (\<forall>i. failed_at es i \<longrightarrow> covered_at es i)"
proof -
  let ?ls = "map snd (latest_state (authoritative_evidences es))"
  let ?ps = "map snd (filter (\<lambda>l. fst l = ''passed'') ?ls)"
  let ?l = "\<lambda>i. (te_verdict (es ! i), evidence_scope (es ! i), i, es ! i)"
  let ?scan = "\<lambda>i. scan_passing (evidence_scope (es ! i)) i (es ! i) False ?ps"
  have mem: "(\<exists>p\<in>set ?ps. Q p) \<longleftrightarrow> (\<exists>j. passed_at es j \<and> Q (evidence_scope (es ! j), j, es ! j))" for Q
    unfolding Bex_def passing_list_mem by blast
  have cov: "fst (?scan i) \<longleftrightarrow> covered_at es i" for i
    unfolding scan_passing_covered covered_at_def mem fst_conv snd_conv by blast
  have und: "\<not> covered_at es i \<Longrightarrow> snd (?scan i) \<longleftrightarrow> undecidable_at es i" for i
  proof -
    assume "\<not> covered_at es i"
    then have "snd (?scan i) \<longleftrightarrow> False \<or> (\<exists>p\<in>set ?ps. i < fst (snd p) \<and> (fst p = None \<or> evidence_scope (es ! i) = None) \<and>
            (has_test_semantics (es ! i) \<longrightarrow> has_test_semantics (snd (snd p))))"
      unfolding cov [symmetric] by (rule scan_passing_undecidable)
    then show "snd (?scan i) \<longleftrightarrow> undecidable_at es i"
      unfolding undecidable_at_def mem fst_conv snd_conv by blast
  qed
  have unres: "entry_unresolved ?ps (?l i) \<longleftrightarrow>
      te_verdict (es ! i) \<noteq> ''passed'' \<and> \<not> covered_at es i \<and> \<not> undecidable_at es i" for i
    using cov [of i] und [of i] by (cases "?scan i") (auto simp: entry_unresolved_def)
  have covd: "entry_covered ?ps (?l i) \<longleftrightarrow> te_verdict (es ! i) = ''passed'' \<or> covered_at es i" for i
    using cov [of i] by (simp add: entry_covered_def)
  have "classify_failures (authoritative_evidences es) = Unresolved \<longleftrightarrow> (\<exists>l\<in>set ?ls. entry_unresolved ?ps l)"
    unfolding classify_failures_def Let_def by (rule classify_loop_cases(1)) simp
  also have "\<dots> \<longleftrightarrow> (\<exists>i. is_latest es i \<and> entry_unresolved ?ps (?l i))" unfolding Bex_def latest_list_mem by blast
  finally show "classify_failures (authoritative_evidences es) = Unresolved \<longleftrightarrow>
     (\<exists>i. failed_at es i \<and> \<not> covered_at es i \<and> \<not> undecidable_at es i)"
    unfolding unres failed_at_def by blast
  have "classify_failures (authoritative_evidences es) = No_Failure \<longleftrightarrow> (\<forall>l\<in>set ?ls. entry_covered ?ps l)"
    unfolding classify_failures_def Let_def using classify_loop_cases(2) [of No_Failure ?ps ?ls] by simp
  also have "\<dots> \<longleftrightarrow> (\<forall>i. is_latest es i \<longrightarrow> entry_covered ?ps (?l i))" unfolding Ball_def latest_list_mem by blast
  finally show "classify_failures (authoritative_evidences es) = No_Failure \<longleftrightarrow>
     (\<forall>i. failed_at es i \<longrightarrow> covered_at es i)"
    unfolding covd failed_at_def by blast
qed

lemma authoritative_evidences_Nil: "authoritative_evidences es = [] \<longleftrightarrow> (\<forall>e\<in>set es. \<not> authoritative e)"
proof -
  have "set es = snd ` set (enumerate 0 es)" by (metis list.set_map map_snd_enumerate)
  then show ?thesis by (auto simp: authoritative_evidences_def filter_empty_conv)
qed

lemma latest_exists:
  assumes "e \<in> set es" and "authoritative e"
  shows "\<exists>i. is_latest es i"
proof -
  let ?I = "{i. i < length es \<and> authoritative (es ! i)}"
  have "?I \<noteq> {}" using assms by (auto simp: in_set_conv_nth)
  then have "Max ?I \<in> ?I" and "\<forall>j\<in>?I. j \<le> Max ?I" using Max_in [of ?I] by simp_all
  then obtain m where m: "m \<in> ?I" "\<forall>j\<in>?I. j \<le> m" by blast
  then have "is_latest es m" by (auto simp: is_latest_def not_le [symmetric])
  then show ?thesis by blast
qed

lemma run_verdict_cases:
  assumes "\<exists>e\<in>set es. authoritative e"
  shows "compute_run_verdict es =
    (if \<exists>i. failed_at es i \<and> \<not> covered_at es i \<and> \<not> undecidable_at es i then FAILED
     else if \<exists>i. failed_at es i \<and> \<not> covered_at es i then INCONCLUSIVE
     else if \<exists>e\<in>set es. te_parser_confidence e = ''low'' then INCONCLUSIVE else PASSED)"
proof -
  have ne: "es \<noteq> []" "authoritative_evidences es \<noteq> []"
    using assms authoritative_evidences_Nil by auto
  show ?thesis
    using ne classify_failures_cases [of es]
    by (cases "classify_failures (authoritative_evidences es)") (auto simp: compute_run_verdict_def Let_def)
qed

lemma run_verdict_undecided:
  "\<not> (\<exists>e\<in>set es. authoritative e) \<Longrightarrow> compute_run_verdict es = (if es = [] then NOT_RUN else INCONCLUSIVE)"
  using authoritative_evidences_Nil [of es] by (auto simp: compute_run_verdict_def)

text \<open>Sample evidence: a pytest run with a scope, with a given verdict.\<close>

definition pytest_evidence :: "string \<Rightarrow> string list \<Rightarrow> string \<Rightarrow> test_evidence" where
  "pytest_evidence cid selectors verdict =
     \<lparr>te_command_id = cid, te_command_execution_id = None, te_framework = ''python'', te_collected = None,
      te_passed = Some 1, te_failed = None, te_skipped = None, te_errors = None, te_selectors = selectors,
      te_coverage_scope = Some (JStr ''pytest'', selectors), te_parser = ''pytest'',
      te_parser_confidence = ''high'', te_verdict = verdict, te_session_id = [], te_workflow_id = [],
      te_milestone_id = [], te_tenant_id = 1\<rparr>"

section \<open>Properties\<close>

text \<open>C5: a run is passed exactly when there is evidence, all of it at high or medium confidence or
  unknown but some authoritative, and the latest invocation of every command passed or is covered
  by the latest, later, passing invocation of another.\<close>
theorem run_passes_iff:
  "compute_run_verdict es = PASSED \<longleftrightarrow>
     (\<exists>e\<in>set es. authoritative e) \<and> (\<forall>e\<in>set es. te_parser_confidence e \<noteq> ''low'') \<and>
     (\<forall>i. is_latest es i \<longrightarrow> te_verdict (es ! i) = ''passed'' \<or>
        (\<exists>j>i. is_latest es j \<and> te_verdict (es ! j) = ''passed'' \<and>
           pytest_scope_covers (evidence_scope (es ! j)) (evidence_scope (es ! i))))"
  using run_verdict_cases [of es] run_verdict_undecided [of es]
  by (cases "\<exists>e\<in>set es. authoritative e") (auto simp: failed_at_def covered_at_def passed_at_def)

theorem run_passes_iff_witness:
  "compute_run_verdict [pytest_evidence ''a'' [''tests/a.py''] ''failed'', pytest_evidence ''b'' [''tests''] ''passed''] = PASSED"
proof -
  let ?es = "[pytest_evidence ''a'' [''tests/a.py''] ''failed'', pytest_evidence ''b'' [''tests''] ''passed'']"
  have cov: "pytest_scope_covers (evidence_scope (?es ! 1)) (evidence_scope (?es ! 0))" by code_simp
  have p: "te_verdict (?es ! 1) = ''passed''" "te_parser_confidence (?es ! 0) = ''high''"
    "te_parser_confidence (?es ! 1) = ''high''" by (simp_all add: pytest_evidence_def)
  have l: "is_latest ?es 1"
    by (auto simp: is_latest_def pytest_evidence_def authoritative_def authoritative_confidence_def)
  have "te_verdict (?es ! i) = ''passed'' \<or> (\<exists>j>i. is_latest ?es j \<and> te_verdict (?es ! j) = ''passed'' \<and>
      pytest_scope_covers (evidence_scope (?es ! j)) (evidence_scope (?es ! i)))" if "is_latest ?es i" for i
  proof (cases "i = 0")
    case True
    then show ?thesis using cov p(1) l by (intro disjI2 exI [of _ 1]) (simp del: nth_Cons_0 One_nat_def)
  next
    case False
    then have "i = 1" using that by (auto simp: is_latest_def)
    then show ?thesis using p(1) by blast
  qed
  then show ?thesis
    unfolding run_passes_iff using p(2,3) by (simp add: authoritative_def authoritative_confidence_def)
qed

text \<open>a run is failed exactly when the latest invocation of some command did not pass, no later
  pass covers it, and no later pass leaves the matter open: for a pass with a missing scope on
  either side to do so, it must show that it ran tests if the failure does.\<close>
theorem run_fails_iff:
  "compute_run_verdict es = FAILED \<longleftrightarrow>
     (\<exists>i. is_latest es i \<and> te_verdict (es ! i) \<noteq> ''passed'' \<and>
        (\<forall>j>i. is_latest es j \<and> te_verdict (es ! j) = ''passed'' \<longrightarrow>
           \<not> pytest_scope_covers (evidence_scope (es ! j)) (evidence_scope (es ! i)) \<and>
           (evidence_scope (es ! j) \<noteq> None \<and> evidence_scope (es ! i) \<noteq> None \<or>
            has_test_semantics (es ! i) \<and> \<not> has_test_semantics (es ! j))))"
proof (cases "\<exists>e\<in>set es. authoritative e")
  case True
  have "compute_run_verdict es = FAILED \<longleftrightarrow> (\<exists>i. failed_at es i \<and> \<not> covered_at es i \<and> \<not> undecidable_at es i)"
    unfolding run_verdict_cases [OF True] by simp
  also have "\<dots> \<longleftrightarrow> (\<exists>i. failed_at es i \<and> (\<forall>j>i. passed_at es j \<longrightarrow>
       \<not> pytest_scope_covers (evidence_scope (es ! j)) (evidence_scope (es ! i)) \<and>
       (evidence_scope (es ! j) \<noteq> None \<and> evidence_scope (es ! i) \<noteq> None \<or>
        has_test_semantics (es ! i) \<and> \<not> has_test_semantics (es ! j))))"
    by (rule iff_exI) (auto simp: covered_at_def undecidable_at_def)
  finally show ?thesis unfolding failed_at_def passed_at_def conj_assoc .
next
  case False
  then have "\<not> is_latest es i" for i by (auto simp: is_latest_def)
  then show ?thesis using run_verdict_undecided [OF False] by (auto split: if_splits)
qed

theorem run_fails_iff_witness:
  "compute_run_verdict [pytest_evidence ''a'' [] ''failed'', pytest_evidence ''b'' [''tests''] ''passed''] = FAILED"
proof -
  let ?es = "[pytest_evidence ''a'' [] ''failed'', pytest_evidence ''b'' [''tests''] ''passed'']"
  have "\<not> pytest_scope_covers (evidence_scope (?es ! 1)) (evidence_scope (?es ! 0))"
    "evidence_scope (?es ! 1) \<noteq> None" "evidence_scope (?es ! 0) \<noteq> None" by code_simp+
  moreover have "j = 1" if "0 < j" "is_latest ?es j" for j using that by (auto simp: is_latest_def less_Suc_eq)
  moreover have "is_latest ?es 0" "te_verdict (?es ! 0) \<noteq> ''passed''"
    by (auto simp: is_latest_def pytest_evidence_def authoritative_def authoritative_confidence_def
        command_key_of_def less_Suc_eq)
  ultimately show ?thesis unfolding run_fails_iff by (intro exI [of _ 0]) blast
qed

text \<open>the last word decides: when the last authoritative evidence of a run did not pass, the run is
  failed, even when that evidence is itself inconclusive.\<close>
theorem last_evidence_decides:
  assumes "authoritative (es ! i)" and "i < length es" and "te_verdict (es ! i) \<noteq> ''passed''"
    and "\<forall>j. i < j \<and> j < length es \<longrightarrow> \<not> authoritative (es ! j)"
  shows "compute_run_verdict es = FAILED"
proof -
  have "failed_at es i" using assms by (auto simp: failed_at_def is_latest_def)
  moreover have "\<not> passed_at es j" if "i < j" for j
    using assms(4) that by (auto simp: passed_at_def is_latest_def)
  moreover have "\<exists>e\<in>set es. authoritative e" using assms(1,2) by force
  ultimately show ?thesis
    using run_verdict_cases [of es] by (auto simp: covered_at_def undecidable_at_def)
qed

theorem last_evidence_decides_witness:
  "compute_run_verdict [pytest_evidence ''a'' [] ''passed'', pytest_evidence ''b'' [''t''] ''inconclusive''] = FAILED"
  by (rule last_evidence_decides [of _ 1])
    (auto simp: authoritative_def authoritative_confidence_def pytest_evidence_def)

text \<open>a run whose only test command found no tests to run fails, although it exited with 0: its
  evidence is inconclusive at high confidence, which the run counts as a failure.\<close>
theorem empty_test_run_fails:
  assumes "resolve_framework (shell_text ce) hint = ''rust''"
    and "ce_output_excerpt ce = ''test result: ok. 0 passed; 0 failed''"
  shows "compute_run_verdict [parse_test_evidence ce hint] = FAILED"
proof -
  let ?e = "parse_test_evidence ce hint"
  have v: "te_verdict ?e = ''inconclusive''" and c: "te_parser_confidence ?e = ''high''"
    using assms by (simp_all add: parse_test_evidence_def Let_def parse_framework_def empty_cargo_run)
  then have "failed_at [?e] 0" by (auto simp: failed_at_def is_latest_def authoritative_def authoritative_confidence_def)
  moreover have "\<not> passed_at [?e] j" for j using v by (auto simp: passed_at_def is_latest_def)
  moreover have "\<exists>e\<in>set [?e]. authoritative e" using c by (simp add: authoritative_def authoritative_confidence_def)
  ultimately show ?thesis
    using run_verdict_cases [of "[?e]"] by (auto simp: covered_at_def undecidable_at_def)
qed

theorem empty_test_run_fails_witness:
  "compute_run_verdict [parse_test_evidence ((blank_evidence ''c'' ''s'')\<lparr>ce_shell_command := Some ''cargo test'',
     ce_exit_code := Some 0, ce_output_excerpt := ''test result: ok. 0 passed; 0 failed''\<rparr>) []] = FAILED"
  by (rule empty_test_run_fails) code_simp+

text \<open>a pass of the whole suite clears a run: when its evidence is last and every failure of the run
  is a pytest command of the same execution context, the run is passed.\<close>
theorem full_suite_pass_clears:
  assumes last: "i < length es" "authoritative (es ! i)" "te_verdict (es ! i) = ''passed''"
      "\<forall>j. i < j \<and> j < length es \<longrightarrow> \<not> authoritative (es ! j)"
    and full: "evidence_scope (es ! i) = Some (context, {})"
    and failures: "\<forall>e\<in>set es. te_verdict e \<noteq> ''passed'' \<longrightarrow> (\<exists>S. evidence_scope e = Some (context, S))"
    and conf: "\<forall>e\<in>set es. te_parser_confidence e \<noteq> ''low''"
  shows "compute_run_verdict es = PASSED"
proof -
  have lat: "passed_at es i" using last by (auto simp: passed_at_def is_latest_def)
  have "covered_at es k" if "failed_at es k" for k
  proof -
    have k: "k < length es" "authoritative (es ! k)" "te_verdict (es ! k) \<noteq> ''passed''"
      using that by (auto simp: failed_at_def is_latest_def)
    then have "k < i" using last by (metis linorder_neqE_nat)
    moreover obtain S where "evidence_scope (es ! k) = Some (context, S)" using failures k by force
    ultimately show ?thesis using lat full by (auto simp: covered_at_def pytest_scope_covers_def)
  qed
  moreover have "\<exists>e\<in>set es. authoritative e" using last(1,2) by force
  ultimately show ?thesis using run_verdict_cases [of es] conf by auto
qed

theorem full_suite_pass_clears_witness:
  "compute_run_verdict [pytest_evidence ''a'' [''t''] ''failed'', pytest_evidence ''b'' [] ''passed''] = PASSED"
  by (rule full_suite_pass_clears [of 1 _ "''pytest''"])
    (auto simp: authoritative_def authoritative_confidence_def pytest_evidence_def evidence_scope_def scope_from_dict_def)

end
