(* ===== verification/Test_Recognition.thy ===== *)
theory Test_Recognition
  imports Test_Scope Py_Regex Command_Evidence
begin

text \<open>
  Which shell commands run tests
  (\<open>app/modules/workspace/autonomous/orchestrator.py\<close>, \<open>_command_segments\<close> to
  \<open>_has_test_tool_call\<close>): a command is split into the segments that run as separate commands,
  with quotes, comments and here-documents respected; a segment that only reads, or that installs
  something, is dropped; the body of a shell's \<open>-c\<close> is split in turn, two levels deep; and a
  segment that is left is a test run when it contains a runner as a token, the words of a runner
  pattern as consecutive tokens, or the execution of a file below \<open>tests/\<close>.
\<close>

section \<open>Tables\<close>

definition non_executing_commands :: "string list" where
  "non_executing_commands = [''cat'', ''less'', ''more'', ''head'', ''tail'', ''bat'', ''nl'', ''grep'', ''rg'', ''ag'',
     ''ls'', ''stat'', ''wc'', ''file'', ''du'', ''git'', ''sed'', ''awk'', ''jq'', ''sort'', ''uniq'', ''cut'', ''tr'',
     ''column'', ''tee'', ''strings'', ''od'', ''xxd'', ''md5sum'', ''sha256sum'', ''basename'', ''dirname'', ''diff'',
     ''find'', ''cp'', ''mv'', ''rm'', ''mkdir'', ''chmod'', ''touch'', ''vim'', ''nano'', ''echo'', ''printf'', ''which'',
     ''realpath'', ''ps'', ''curl'', ''wget'']"

definition interpreter_commands :: "string list" where
  "interpreter_commands = [''bash'', ''sh'', ''zsh'', ''python'', ''python3'', ''node'', ''npx'', ''pnpm'', ''yarn'',
     ''bun'', ''deno'']"

definition test_runner_commands :: "string list" where
  "test_runner_commands = [''pytest'', ''py.test'', ''unittest'', ''nose2'', ''tox'', ''nox'', ''jest'', ''vitest'',
     ''mocha'', ''npm'', ''go'', ''gotestsum'', ''cargo'', ''mvn'', ''gradle'', ''gradlew'', ''make'']"

definition exclude_flag_tokens :: "string list" where
  "exclude_flag_tokens = [''--help'', ''--version'', ''-h'', ''--collect-only'', ''--co'', ''--list'', ''--listTests'',
     ''--list-tests'']"

definition package_managers :: "string list" where
  "package_managers = [''pip'', ''pip3'', ''uv'', ''poetry'', ''npm'', ''yarn'', ''pnpm'', ''apt'', ''apt-get'', ''brew'',
     ''conda'']"

definition install_subcommands :: "string list" where
  "install_subcommands = [''install'', ''add'', ''ci'', ''uninstall'', ''remove'']"

definition shell_c_commands :: "string list" where
  "shell_c_commands = [''bash'', ''sh'', ''zsh'', ''dash'', ''ksh'']"

definition test_command_patterns :: "(string \<times> string list) list" where
  "test_command_patterns =
     [(''python'', [''pytest'', ''python -m pytest'', ''-m pytest'', ''unittest'', ''tox'', ''nox'']),
      (''javascript'', [''jest'', ''npm test'', ''npm run test'', ''yarn test'', ''yarn run test'', ''pnpm test'',
         ''pnpm run test'', ''vitest'', ''mocha'']),
      (''go'', [''go test'', ''gotestsum'']),
      (''rust'', [''cargo test'', ''cargo t'']),
      (''java'', [''mvn test'', ''gradle test'', ''./gradlew test''])]"

definition all_test_patterns :: "string list" where
  "all_test_patterns = sort (remdups (concat (map snd test_command_patterns)))"

definition generic_patterns :: "string list" where
  "generic_patterns = [''pytest'', ''unittest'', ''jest'', ''vitest'', ''go test'', ''cargo test'', ''npm test'',
     ''npm run test'', ''yarn test'', ''pnpm test'']"

definition bare_runner_patterns :: "string list" where
  "bare_runner_patterns = [''pytest'', ''unittest'', ''jest'', ''vitest'', ''mocha'', ''tox'', ''nox'', ''gotestsum'']"

definition artifact_operation_verbs :: "string list" where
  "artifact_operation_verbs = [''install'', ''uninstall'', ''add'', ''remove'', ''download'', ''build'', ''pull'', ''push'',
     ''tag'', ''create'', ''apply'', ''delete'', ''search'']"

definition operand_head_commands :: "string list" where
  "operand_head_commands = [''ssh'', ''su'', ''doas'', ''runuser'']"

definition artifact_tools :: "string list" where
  "artifact_tools = [''docker'', ''docker-compose'', ''podman'', ''podman-compose'', ''helm'', ''kubectl'', ''pip'', ''pip3'',
     ''npm'', ''yarn'', ''pnpm'', ''poetry'', ''uv'', ''conda'', ''apt'', ''apt-get'', ''brew'', ''gem'', ''cargo'', ''go'',
     ''mvn'', ''gradle'', ''gradlew'', ''terraform'', ''aws'', ''gcloud'']"

definition executing_interpreters :: "string list" where
  "executing_interpreters = [''bash'', ''sh'', ''zsh'', ''dash'', ''ksh'', ''python'', ''python3'', ''node'', ''bun'', ''deno'',
     ''ts-node'', ''tsx'']"

definition python_module_runners :: "string list" where
  "python_module_runners = [''pytest'', ''unittest'', ''nose2'', ''tox'', ''nox'']"

definition npx_bare_runners :: "string list" where
  "npx_bare_runners = [''vitest'', ''jest'', ''mocha'']"

definition npx_subcommand_runners :: "(string \<times> string list) list" where
  "npx_subcommand_runners = [(''playwright'', [''test'']), (''cypress'', [''run''])]"

definition shell_tool_names :: "string list" where
  "shell_tool_names = [''bash'', ''sh'', ''shell'', ''zsh'', ''run_shell_command'', ''exec_command'', ''execute_bash'',
     ''local_shell'', ''container.exec'', ''terminal'', ''run_terminal_cmd'']"

definition test_tool_names :: "string list" where
  "test_tool_names = [''pytest'', ''run_tests'', ''test'']"

section \<open>Segments of a command\<close>

definition shell_tokens :: "string \<Rightarrow> string list" where
  "shell_tokens text = (case shlex_split text of Some ts \<Rightarrow> ts | None \<Rightarrow> py_split_ws text)"

definition py_alnum :: "char \<Rightarrow> bool" where
  "py_alnum c \<longleftrightarrow> word_char c \<and> c \<noteq> CHR ''_''"

definition py_alpha :: "char \<Rightarrow> bool" where
  "py_alpha c \<longleftrightarrow> (let n = (of_char c :: nat) in
     65 \<le> n \<and> n \<le> 90 \<or> 97 \<le> n \<and> n \<le> 122 \<or> n \<in> {170, 181, 186} \<or> 192 \<le> n \<and> n \<noteq> 215 \<and> n \<noteq> 247)"

text \<open>\<open>_parse_heredoc_delimiter\<close> on the text after \<open><<\<close>: the delimiter, how many characters it takes
  up, and whether tabs are stripped from the body.\<close>

definition parse_heredoc_delimiter :: "string \<Rightarrow> (string \<times> nat \<times> bool) option" where
  "parse_heredoc_delimiter s =
     (let strip_tabs = (s \<noteq> [] \<and> hd s = CHR ''-'');
          j0 = (if strip_tabs then 1 else 0);
          j = j0 + length (takeWhile (\<lambda>c. c = CHR '' '' \<or> c = CHR 0x09) (drop j0 s));
          t = drop j s
      in if t \<noteq> [] \<and> (hd t = sq \<or> hd t = dq) then
           (if hd t \<in> set (tl t) then
              (let d = takeWhile (\<lambda>c. c \<noteq> hd t) (tl t) in Some (d, j + length d + 2, strip_tabs))
            else None)
         else
           (let w = takeWhile (\<lambda>c. py_alnum c \<or> c = CHR ''_'') t
            in if w = [] \<or> \<not> (py_alpha (hd w) \<or> hd w = CHR ''_'') then None
               else Some (w, j + length w, strip_tabs)))"

text \<open>The text after the body of a here-document: what follows the line that is the delimiter.\<close>

function skip_heredoc :: "string \<Rightarrow> bool \<Rightarrow> string \<Rightarrow> string" where
  "skip_heredoc delimiter strip_tabs s =
     (if s = [] then []
      else
        (let line = takeWhile (\<lambda>c. c \<noteq> CHR 0x0A) s;
             rest = drop (Suc (length line)) s;
             shown = (if strip_tabs then dropWhile (\<lambda>c. c = CHR 0x09) line else line)
         in if py_strip shown = delimiter then rest else skip_heredoc delimiter strip_tabs rest))"
  by pat_completeness auto
termination by (relation "measure (\<lambda>(d, t, s). length s)") auto

declare skip_heredoc.simps [simp del]

lemma skip_heredoc_le: "length (skip_heredoc d t s) \<le> length s"
proof (induction s rule: length_induct)
  case (1 s)
  show ?case
  proof (cases "s = []")
    case True
    then show ?thesis by (simp add: skip_heredoc.simps)
  next
    case False
    define rest where "rest = drop (Suc (length (takeWhile (\<lambda>c. c \<noteq> CHR 0x0A) s))) s"
    have lt: "length rest < length s" using False by (simp add: rest_def)
    then have "length (skip_heredoc d t rest) \<le> length s" using 1 by fastforce
    then show ?thesis using lt False by (subst skip_heredoc.simps) (simp add: Let_def rest_def [symmetric])
  qed
qed

definition skip_heredocs :: "(string \<times> bool) list \<Rightarrow> string \<Rightarrow> string" where
  "skip_heredocs pending s = foldl (\<lambda>s p. skip_heredoc (fst p) (snd p) s) s pending"

lemma skip_heredocs_le: "length (skip_heredocs pending s) \<le> length s"
  unfolding skip_heredocs_def
proof (induction pending arbitrary: s)
  case (Cons p ps)
  show ?case using le_trans [OF Cons.IH [of "skip_heredoc (fst p) (snd p) s"] skip_heredoc_le] by simp
qed simp

definition newline_char :: "char \<Rightarrow> bool" where
  "newline_char c \<longleftrightarrow> c = CHR 0x0A \<or> c = CHR 0x0D"

text \<open>The scanner of \<open>_command_segments\<close>: the pending here-documents, the two quotation states, the
  character before the position, the segment being read (reversed) and the text that is left.\<close>

function segments_go ::
  "(string \<times> bool) list \<Rightarrow> bool \<Rightarrow> bool \<Rightarrow> char option \<Rightarrow> string \<Rightarrow> string \<Rightarrow> string list" where
  "segments_go pending in_single in_double prev buf [] = [rev buf]"
| "segments_go pending in_single in_double prev buf (ch # cs) =
     (if ch = bsl \<and> \<not> in_single \<and> cs \<noteq> [] then
        segments_go pending in_single in_double (Some (hd cs)) (hd cs # ch # buf) (tl cs)
      else if ch = sq \<and> \<not> in_double then
        segments_go pending (\<not> in_single) in_double (Some ch) (ch # buf) cs
      else if ch = dq \<and> \<not> in_single then
        segments_go pending in_single (\<not> in_double) (Some ch) (ch # buf) cs
      else if in_single \<or> in_double then
        segments_go pending in_single in_double (Some ch) (ch # buf) cs
      else
        (case if ch = CHR ''<'' \<and> cs \<noteq> [] \<and> hd cs = CHR ''<'' then parse_heredoc_delimiter (tl cs) else None of
           Some (delimiter, k, strip_tabs) \<Rightarrow>
             segments_go (pending @ [(delimiter, strip_tabs)]) in_single in_double
               (Some (last (ch # hd cs # take k (tl cs)))) (rev (ch # hd cs # take k (tl cs)) @ buf) (drop k (tl cs))
         | None \<Rightarrow>
             if ch = CHR ''#'' \<and> (buf = [] \<or> py_space (hd buf)) then
               segments_go pending in_single in_double
                 (Some (last (ch # takeWhile (\<lambda>c. \<not> newline_char c) cs))) buf (dropWhile (\<lambda>c. \<not> newline_char c) cs)
             else if (ch = CHR ''&'' \<or> ch = CHR ''|'') \<and> cs \<noteq> [] \<and> hd cs = ch then
               rev buf # segments_go pending in_single in_double (Some ch) [] (tl cs)
             else if newline_char ch then
               rev buf # segments_go [] in_single in_double (Some ch) [] (skip_heredocs pending cs)
             else if ch = CHR '';'' \<or> ch = CHR ''|'' then
               rev buf # segments_go pending in_single in_double (Some ch) [] cs
             else if ch = CHR ''&'' \<and> prev \<noteq> None \<and> prev \<noteq> Some CHR ''>'' \<and> prev \<noteq> Some CHR ''&'' \<and>
                 cs \<noteq> [] \<and> hd cs \<noteq> CHR ''&'' \<and> hd cs \<noteq> CHR ''>'' then
               rev buf # segments_go pending in_single in_double (Some ch) [] cs
             else segments_go pending in_single in_double (Some ch) (ch # buf) cs))"
  by pat_completeness auto
termination
  by (relation "measure (\<lambda>(p, s, d, v, b, t). length t)")
    (simp_all add: less_Suc_eq_le skip_heredocs_le length_dropWhile_le)

declare segments_go.simps(2) [simp del]

definition command_segments :: "string \<Rightarrow> string list" where
  "command_segments command = filter (\<lambda>seg. py_strip seg \<noteq> []) (segments_go [] False False None [] command)"

section \<open>Segments that execute nothing\<close>

definition is_assignment :: "string \<Rightarrow> bool" where
  "is_assignment token \<longleftrightarrow>
     (let w = takeWhile word_char token in w \<noteq> [] \<and> py_startswith (drop (length w) token) ''='')"

definition is_flag :: "string \<Rightarrow> bool" where
  "is_flag token \<longleftrightarrow> py_startswith token ''-''"

text \<open>The first token after a package manager that is neither a flag nor another manager.\<close>

fun install_follower :: "string list \<Rightarrow> bool" where
  "install_follower [] = False"
| "install_follower (f # fs) =
     (if is_flag f then install_follower fs
      else if basename f \<in> set package_managers then install_follower fs
      else basename f \<in> set install_subcommands)"

fun is_package_manager_install :: "string list \<Rightarrow> bool" where
  "is_package_manager_install [] = False"
| "is_package_manager_install (token # rest) =
     (if is_assignment token then is_package_manager_install rest
      else if basename token \<notin> set package_managers then is_package_manager_install rest
      else install_follower rest)"

definition strip_substitution :: "string \<Rightarrow> string" where
  "strip_substitution s = dropWhile (\<lambda>c. c \<in> set ''$(`'') s"

fun scan_heads :: "string list \<Rightarrow> bool" where
  "scan_heads [] = False"
| "scan_heads (token # rest) =
     (if is_assignment token then scan_heads rest
      else
        (let base = strip_substitution (basename token)
         in if base \<in> set test_runner_commands \<or> base \<in> set interpreter_commands then False
            else if base \<in> set non_executing_commands then True
            else scan_heads rest))"

definition segment_is_non_executing :: "string \<Rightarrow> bool" where
  "segment_is_non_executing segment =
     (let tokens = shell_tokens segment
      in if is_package_manager_install tokens then True else scan_heads tokens)"

section \<open>Bodies of \<open>-c\<close>\<close>

fun c_flag_argument :: "string list \<Rightarrow> string option" where
  "c_flag_argument [] = None"
| "c_flag_argument (flag # rest) =
     (if \<not> is_flag flag \<or> flag = ''--'' then None
      else if py_startswith flag ''--'' then c_flag_argument rest
      else if CHR ''c'' \<in> set (tl flag) then (case rest of body # _ \<Rightarrow> Some body | [] \<Rightarrow> None)
      else c_flag_argument rest)"

fun shell_c_argument :: "string list \<Rightarrow> string option" where
  "shell_c_argument [] = None"
| "shell_c_argument (token # rest) =
     (if basename token \<notin> set shell_c_commands then shell_c_argument rest
      else c_flag_argument rest)"

fun noexec_flags :: "string list \<Rightarrow> bool" where
  "noexec_flags [] = False"
| "noexec_flags (flag # rest) =
     (if \<not> is_flag flag \<or> flag = ''--'' then False
      else if flag = ''-o'' then
        (case rest of
           operand # _ \<Rightarrow>
             if map ascii_lower operand \<in> {''noexec'', ''no_exec''} then True else noexec_flags rest
         | [] \<Rightarrow> noexec_flags rest)
      else if py_startswith flag ''--'' then noexec_flags rest
      else if CHR ''n'' \<in> set (tl flag) then True
      else noexec_flags rest)"

fun is_syntax_check_only :: "string list \<Rightarrow> bool" where
  "is_syntax_check_only [] = False"
| "is_syntax_check_only (token # rest) =
     (if basename token \<in> {''node'', ''nodejs''} then ''--check'' \<in> set rest
      else if basename token \<notin> set shell_c_commands then is_syntax_check_only rest
      else noexec_flags rest)"

definition has_exclude_flag :: "string list \<Rightarrow> bool" where
  "has_exclude_flag tokens \<longleftrightarrow> (\<exists>t\<in>set tokens. t \<in> set exclude_flag_tokens)"

text \<open>The segments that run; the number is how many levels of \<open>-c\<close> are still expanded.\<close>

fun executable_segments :: "nat \<Rightarrow> string \<Rightarrow> string list" where
  "executable_segments levels command =
     concat (map (\<lambda>segment.
        if segment_is_non_executing segment then []
        else segment #
          (case levels of
             0 \<Rightarrow> []
           | Suc n \<Rightarrow>
               (let tokens = shell_tokens segment
                in if is_syntax_check_only tokens \<or> has_exclude_flag tokens then []
                   else (case shell_c_argument tokens of
                           Some (c # cs) \<Rightarrow> executable_segments n (c # cs)
                         | _ \<Rightarrow> []))))
       (command_segments command))"

declare executable_segments.simps [simp del]

section \<open>Runner patterns\<close>

fun artifact_verb_from :: "string option \<Rightarrow> string list \<Rightarrow> bool" where
  "artifact_verb_from previous [] = False"
| "artifact_verb_from previous (token # rest) =
     (if map ascii_lower token \<notin> set artifact_operation_verbs then artifact_verb_from (Some token) rest
      else
        (case previous of
           None \<Rightarrow> True
         | Some p \<Rightarrow>
             if is_flag p \<or> basename p \<in> set operand_head_commands then artifact_verb_from (Some token) rest
             else True))"

definition artifact_verb_after_a_bare_word :: "string list \<Rightarrow> bool" where
  "artifact_verb_after_a_bare_word tokens = artifact_verb_from None tokens"

fun first_operand_is_verb :: "string list \<Rightarrow> bool" where
  "first_operand_is_verb [] = False"
| "first_operand_is_verb (c # cs) =
     (if is_flag c then first_operand_is_verb cs else map ascii_lower c \<in> set artifact_operation_verbs)"

fun artifact_tool_subcommand_is_a_verb :: "string list \<Rightarrow> bool" where
  "artifact_tool_subcommand_is_a_verb [] = False"
| "artifact_tool_subcommand_is_a_verb (token # rest) =
     (if map ascii_lower (basename token) \<notin> set artifact_tools then artifact_tool_subcommand_is_a_verb rest
      else first_operand_is_verb rest)"

definition is_artifact_operation :: "string list \<Rightarrow> bool" where
  "is_artifact_operation tokens \<longleftrightarrow>
     artifact_verb_after_a_bare_word tokens \<or> artifact_tool_subcommand_is_a_verb tokens"

definition continues_word :: "char \<Rightarrow> bool" where
  "continues_word c \<longleftrightarrow> (let n = (of_char c :: nat) in
     65 \<le> n \<and> n \<le> 90 \<or> 97 \<le> n \<and> n \<le> 122 \<or> 48 \<le> n \<and> n \<le> 57) \<or> c = CHR ''-''"

definition last_word_matches :: "string \<Rightarrow> string \<Rightarrow> bool" where
  "last_word_matches word token \<longleftrightarrow>
     token = word \<or>
     py_startswith token word \<and>
     (case drop (length word) token of [] \<Rightarrow> True | c # _ \<Rightarrow> \<not> continues_word c)"

text \<open>The words of a pattern at the front of the tokens, flags skipped between them.\<close>

fun words_match :: "bool \<Rightarrow> string list \<Rightarrow> string list \<Rightarrow> bool" where
  "words_match first [] tokens = True"
| "words_match first (word # words) tokens =
     (case (if first then tokens else dropWhile is_flag tokens) of
        [] \<Rightarrow> False
      | token # rest \<Rightarrow>
          if words \<noteq> [] then basename token = basename word \<and> words_match False words rest
          else last_word_matches word token)"

fun multiword_pattern_matches :: "string \<Rightarrow> string list \<Rightarrow> bool" where
  "multiword_pattern_matches pattern [] = False"
| "multiword_pattern_matches pattern (token # tokens) =
     (words_match True (py_split_ws pattern) (token # tokens) \<or> multiword_pattern_matches pattern tokens)"

definition strip_leading_assignments :: "string list \<Rightarrow> string list" where
  "strip_leading_assignments tokens = dropWhile is_assignment tokens"

definition pattern_matches_segment :: "string \<Rightarrow> string list \<Rightarrow> bool" where
  "pattern_matches_segment pattern tokens =
     (let stripped = strip_leading_assignments tokens
      in if is_artifact_operation stripped then False
         else if pattern \<in> set bare_runner_patterns then \<exists>t\<in>set stripped. basename t = pattern
         else multiword_pattern_matches pattern stripped)"

section \<open>Executed test files\<close>

definition test_path_re :: rx where
  "test_path_re = rx_cats [rx_opt (Cat (Star (Sat (\<lambda>c. word_char c \<or> c \<in> set ''./~-''))) (rx_lit ''/'')),
     rx_lit ''test'', rx_opt (rx_lit ''s''), rx_lit ''/'', rx_plus rx_dot, rx_lit ''.'',
     foldr Alt (map rx_lit [''sh'', ''bash'', ''py'', ''js'', ''ts'', ''mjs'']) (rx_lit ''bats''), End]"

fun stays_inside_tests :: "string list \<Rightarrow> bool" where
  "stays_inside_tests [] = False"
| "stays_inside_tests (part # parts) =
     (if part = ''tests'' \<or> part = ''test'' then ''..'' \<notin> set parts else stays_inside_tests parts)"

definition is_test_path :: "string \<Rightarrow> bool" where
  "is_test_path token \<longleftrightarrow>
     rx_match_start test_path_re token \<and> stays_inside_tests (split_char CHR ''/'' token)"

definition python_versioned :: "string \<Rightarrow> bool" where
  "python_versioned base \<longleftrightarrow>
     rx_match_start (rx_cats [rx_lit ''python3.'', rx_plus (Sat py_digit), End]) base"

fun first_operand_in :: "string list \<Rightarrow> string list \<Rightarrow> bool" where
  "first_operand_in subcommands [] = False"
| "first_operand_in subcommands (c # cs) =
     (if is_flag c then first_operand_in subcommands cs else c \<in> set subcommands)"

fun is_npx_test_invocation :: "string list \<Rightarrow> bool" where
  "is_npx_test_invocation [] = False"
| "is_npx_test_invocation (f # fs) =
     (if is_flag f \<or> f \<in> {''dlx'', ''exec''} then is_npx_test_invocation fs
      else if basename f \<in> set npx_bare_runners then True
      else (case map_of npx_subcommand_runners (basename f) of
              None \<Rightarrow> False
            | Some subcommands \<Rightarrow> first_operand_in subcommands fs))"

text \<open>The scan for the first interpreter or runner of a segment; \<open>None\<close> is the end of the loop without
  a return.\<close>

fun interpreter_scan :: "string list \<Rightarrow> bool option" where
  "interpreter_scan [] = None"
| "interpreter_scan (token # rest) =
     (let base = basename token
      in if (base \<in> {''python'', ''python3'', ''node''} \<or> python_versioned base) \<and> ''-m'' \<in> set rest then
           Some (case tl (dropWhile (\<lambda>t. t \<noteq> ''-m'') rest) of m # _ \<Rightarrow> m \<in> set python_module_runners | [] \<Rightarrow> False)
         else if base \<in> {''npx'', ''pnpm'', ''yarn'', ''bunx''} then Some (is_npx_test_invocation rest)
         else if base \<in> set executing_interpreters \<or> python_versioned base then Some (\<exists>arg\<in>set rest. is_test_path arg)
         else interpreter_scan rest)"

fun path_execution_scan :: "string list \<Rightarrow> bool" where
  "path_execution_scan [] = False"
| "path_execution_scan (segment # segments) =
     (let tokens = strip_leading_assignments (shell_tokens segment)
      in if tokens = [] \<or> is_syntax_check_only tokens then path_execution_scan segments
         else if is_test_path (hd tokens) then True
         else (case interpreter_scan tokens of
                 Some b \<Rightarrow> b
               | None \<Rightarrow> path_execution_scan segments))"

definition is_test_path_execution :: "string \<Rightarrow> bool" where
  "is_test_path_execution command = path_execution_scan (executable_segments 2 command)"

section \<open>Commands and tool calls\<close>

definition segment_runs_tests :: "string list \<Rightarrow> string \<Rightarrow> bool" where
  "segment_runs_tests patterns segment =
     (let tokens = shell_tokens segment
      in \<not> has_exclude_flag tokens \<and>
         ((\<exists>p\<in>set patterns. pattern_matches_segment p tokens) \<or> is_test_path_execution segment))"

definition command_runs_tests :: "string \<Rightarrow> string list \<Rightarrow> bool" where
  "command_runs_tests command patterns_to_check =
     (\<exists>segment\<in>set (executable_segments 2 command). segment_runs_tests patterns_to_check segment)"

definition patterns_for :: "string \<Rightarrow> string list" where
  "patterns_for framework_type =
     (if framework_type = ''mixed'' then all_test_patterns
      else (case map_of test_command_patterns framework_type of Some ps \<Rightarrow> ps | None \<Rightarrow> generic_patterns))"

text \<open>\<open>_has_test_tool_call\<close> for one call: the name of the tool and its command.\<close>

definition has_test_tool_call :: "string \<Rightarrow> string \<Rightarrow> string \<Rightarrow> bool" where
  "has_test_tool_call tool_name command framework_type =
     (let patterns = patterns_for framework_type;
          lowered = map ascii_lower tool_name
      in if lowered \<in> set test_tool_names then
           command_runs_tests (py_strip (lowered @ '' '' @ command)) (patterns @ [''run_tests''])
         else if lowered \<in> set shell_tool_names then
           command \<noteq> [] \<and> command_runs_tests command patterns
         else False)"

section \<open>Commands made of quoted words\<close>

lemma shlex_special: "c \<in> {bsl, sq, dq, CHR ''<'', CHR ''#'', CHR ''&'', CHR ''|'', CHR '';'', CHR 0x0A, CHR 0x0D} \<Longrightarrow>
    \<not> (shlex_safe c \<or> c = CHR '' '')"
  by (auto simp: shlex_safe_def)

lemma segments_go_plain:
  assumes "shlex_safe c \<or> c = CHR '' ''"
  shows "segments_go [] False False prev buf (c # cs) = segments_go [] False False (Some c) (c # buf) cs"
proof -
  have "c \<notin> {bsl, sq, dq, CHR ''<'', CHR ''#'', CHR ''&'', CHR ''|'', CHR '';'', CHR 0x0A, CHR 0x0D}"
    using shlex_special assms by blast
  then show ?thesis by (subst segments_go.simps(2)) (simp add: newline_char_def)
qed

lemma segments_go_safe:
  "\<forall>c\<in>set s. shlex_safe c \<Longrightarrow> s \<noteq> [] \<Longrightarrow>
   segments_go [] False False prev buf (s @ r) = segments_go [] False False (Some (last s)) (rev s @ buf) r"
proof (induction s arbitrary: prev buf)
  case (Cons c s)
  then show ?case by (cases s) (simp_all add: segments_go_plain)
qed simp

lemma segments_go_single:
  "segments_go [] True False prev buf (quote_single s @ sq # r) =
   segments_go [] False False (Some sq) (sq # rev (quote_single s) @ buf) r"
  by (induction s arbitrary: prev buf) (simp_all add: segments_go.simps(2))

lemma segments_go_quote:
  "segments_go [] False False prev buf (shlex_quote w @ r) =
   segments_go [] False False (Some (last (shlex_quote w))) (rev (shlex_quote w) @ buf) r"
proof (cases "w \<noteq> [] \<and> (\<forall>c\<in>set w. shlex_safe c)")
  case True
  then show ?thesis by (simp add: shlex_quote_def segments_go_safe)
next
  case False
  have "segments_go [] False False prev buf (sq # quote_single w @ sq # r) =
      segments_go [] False False (Some sq) (sq # rev (quote_single w) @ sq # buf) r"
    by (subst segments_go.simps(2)) (simp add: segments_go_single)
  then show ?thesis using False by (cases w) (auto simp: shlex_quote_def)
qed

lemma segments_go_join: "segments_go [] False False prev buf (shlex_join ws) = [rev buf @ shlex_join ws]"
  unfolding shlex_join_def
proof (induction ws arbitrary: prev buf rule: induct_list012)
  case (2 w)
  then show ?case using segments_go_quote [of prev buf w "[]"] by simp
next
  case (3 w v ws)
  then show ?case by (simp add: segments_go_quote segments_go_plain)
qed simp

lemma py_strip_nonspace:
  assumes "x \<in> set s" and "\<not> py_space x"
  shows "py_strip s \<noteq> []"
proof
  assume "py_strip s = []"
  then have "\<forall>y\<in>set (dropWhile py_space s). py_space y" by (simp add: py_strip_def)
  moreover have "dropWhile py_space s \<noteq> []" using assms by auto
  ultimately show False using hd_dropWhile hd_in_set by blast
qed

lemma shlex_quote_visible: "\<exists>x\<in>set (shlex_quote w). \<not> py_space x"
proof -
  have "shlex_safe c \<Longrightarrow> \<not> py_space c" for c by (auto simp: shlex_safe_def py_space_def Let_def)
  then show ?thesis by (cases w) (auto simp: shlex_quote_def py_space_def)
qed

lemma command_segments_join:
  assumes "ws \<noteq> []"
  shows "command_segments (shlex_join ws) = [shlex_join ws]"
proof -
  obtain w vs where ws: "ws = w # vs" using assms by (cases ws) auto
  have "set (shlex_quote w) \<subseteq> set (shlex_join ws)" unfolding ws shlex_join_def by (cases vs) auto
  then have "py_strip (shlex_join ws) \<noteq> []" using shlex_quote_visible [of w] py_strip_nonspace by blast
  then show ?thesis by (simp add: command_segments_def segments_go_join)
qed

lemma shell_tokens_join [simp]: "shell_tokens (shlex_join ws) = ws"
  by (simp add: shell_tokens_def shlex_split_join)

lemma executable_segments_join:
  "ws \<noteq> [] \<Longrightarrow> executable_segments levels (shlex_join ws) =
    (if is_package_manager_install ws \<or> scan_heads ws then []
     else shlex_join ws #
       (case levels of 0 \<Rightarrow> []
        | Suc n \<Rightarrow>
          if is_syntax_check_only ws \<or> has_exclude_flag ws then []
          else (case shell_c_argument ws of Some (c # cs) \<Rightarrow> executable_segments n (c # cs) | _ \<Rightarrow> [])))"
  by (cases levels; subst executable_segments.simps)
    (simp_all add: command_segments_join segment_is_non_executing_def Let_def)

section \<open>Here-documents\<close>

lemma takeWhile_no: "c \<notin> set s \<Longrightarrow> takeWhile (\<lambda>x. x \<noteq> c) s = s"
  by (rule takeWhile_eq_all_conv [THEN iffD2]) auto

lemma split_char_hd: "hd (split_char c s) = takeWhile (\<lambda>x. x \<noteq> c) s"
  by (induction s) (auto split: list.splits simp: hd_def)

lemma split_char_tl:
  "c \<in> set s \<Longrightarrow> split_char c (drop (Suc (length (takeWhile (\<lambda>x. x \<noteq> c) s))) s) = tl (split_char c s)"
  by (induction s) (auto split: list.splits)

lemma skip_heredoc_body:
  assumes d: "py_strip d = d" "CHR 0x0A \<notin> set d" "d \<noteq> []"
  shows "\<forall>l\<in>set (split_char CHR 0x0A body). py_strip l \<noteq> d \<Longrightarrow>
    skip_heredoc d False (body @ CHR 0x0A # d) = []"
proof (induction body rule: length_induct)
  case (1 body)
  let ?nl = "CHR 0x0A"
  have last: "skip_heredoc d False d = []"
    using d by (subst skip_heredoc.simps) (simp add: takeWhile_no Let_def)
  let ?line = "takeWhile (\<lambda>x. x \<noteq> ?nl) body"
  have "?line \<in> set (split_char ?nl body)" using split_char_hd [of ?nl body] list.set_sel(1) [OF split_char_nonempty] by metis
  then have ne: "py_strip ?line \<noteq> d" using "1.prems" by blast
  show ?case
  proof (cases "?nl \<in> set body")
    case False
    then have "takeWhile (\<lambda>x. x \<noteq> ?nl) (body @ ?nl # d) = body" by (subst takeWhile_append2) auto
    then show ?thesis
      using ne last False by (subst skip_heredoc.simps) (simp add: takeWhile_no Let_def)
  next
    case True
    let ?rest = "drop (Suc (length ?line)) body"
    have "?line \<noteq> body" using True by (metis set_takeWhileD)
    moreover have "length ?line \<le> length body" by (rule length_takeWhile_le)
    ultimately have l: "length ?line < length body"
      by (metis append_take_drop_id append_Nil2 le_neq_implies_less length_takeWhile_le take_all takeWhile_eq_take)
    have "takeWhile (\<lambda>x. x \<noteq> ?nl) (body @ ?nl # d) = ?line" using True by (simp add: takeWhile_append1)
    moreover have "drop (Suc (length ?line)) (body @ ?nl # d) = ?rest @ ?nl # d" using l by simp
    moreover have "skip_heredoc d False (?rest @ ?nl # d) = []"
      using 1 l split_char_tl [OF True] list.set_sel(2) [OF split_char_nonempty] by (simp add: Ball_def)
    ultimately show ?thesis using ne by (subst skip_heredoc.simps) (simp add: Let_def)
  qed
qed

text \<open>A here-document with a quoted delimiter, after a redirection into a file.\<close>

definition heredoc_command :: "string \<Rightarrow> string \<Rightarrow> string \<Rightarrow> string" where
  "heredoc_command file d body =
     ''cat > '' @ shlex_quote file @ '' <<'' @ sq # d @ sq # CHR 0x0A # body @ CHR 0x0A # d"

lemma heredoc_delimiter:
  "sq \<notin> set d \<Longrightarrow> parse_heredoc_delimiter (sq # d @ sq # r) = Some (d, length d + 2, False)"
  by (simp add: parse_heredoc_delimiter_def Let_def takeWhile_append2 takeWhile_append takeWhile_no)

lemma segments_go_heredoc:
  assumes "sq \<notin> set d"
  shows "segments_go [] False False prev buf (CHR ''<'' # CHR ''<'' # sq # d @ sq # CHR 0x0A # r) =
    (rev buf @ ''<<'' @ sq # d @ [sq]) # segments_go [] False False (Some CHR 0x0A) [] (skip_heredoc d False r)"
proof -
  have k: "take (length d + 2) (sq # d @ sq # CHR 0x0A # r) = sq # d @ [sq]"
    "drop (length d + 2) (sq # d @ sq # CHR 0x0A # r) = CHR 0x0A # r" by simp_all
  have "segments_go [] False False prev buf (CHR ''<'' # CHR ''<'' # sq # d @ sq # CHR 0x0A # r) =
      segments_go [(d, False)] False False (Some (last (CHR ''<'' # CHR ''<'' # sq # d @ [sq])))
        (rev (CHR ''<'' # CHR ''<'' # sq # d @ [sq]) @ buf) (CHR 0x0A # r)"
    using heredoc_delimiter [OF assms, of "CHR 0x0A # r"] k by (subst segments_go.simps(2)) simp
  also have "\<dots> = rev (rev (CHR ''<'' # CHR ''<'' # sq # d @ [sq]) @ buf) #
      segments_go [] False False (Some CHR 0x0A) [] (skip_heredoc d False r)"
    by (subst segments_go.simps(2)) (simp add: newline_char_def skip_heredocs_def)
  finally show ?thesis by simp
qed

lemma segments_go_heredoc_command:
  assumes "sq \<notin> set d"
  shows "segments_go [] False False None [] (heredoc_command file d body) =
    (''cat > '' @ shlex_quote file @ '' <<'' @ sq # d @ [sq]) #
      segments_go [] False False (Some CHR 0x0A) [] (skip_heredoc d False (body @ CHR 0x0A # d))"
proof -
  have gt: "segments_go [] False False prev buf (CHR ''>'' # cs) = segments_go [] False False (Some CHR ''>'') (CHR ''>'' # buf) cs"
    for prev buf cs
    by (subst segments_go.simps(2)) (simp add: newline_char_def)
  have cat: "shlex_safe CHR ''c''" "shlex_safe CHR ''a''" "shlex_safe CHR ''t''" by (simp_all add: shlex_safe_def)
  show ?thesis
    by (simp add: heredoc_command_def segments_go_plain cat gt segments_go_quote segments_go_heredoc [OF assms])
qed

lemma heredoc_segment:
  assumes "sq \<notin> set d"
  shows "shell_tokens (''cat > '' @ shlex_quote file @ '' <<'' @ sq # d @ [sq]) = [''cat'', ''>'', file, ''<<'' @ d]"
proof -
  have quoted: "shlex_go (Quoted sq) tok True (d @ [sq]) = Some [rev tok @ d]" for tok
    using assms
  proof (induction d arbitrary: tok)
    case (Cons c d)
    then show ?case using Cons.IH [of "c # tok"] by auto
  qed simp
  have "shlex_go Blank [] False (shlex_quote file @ CHR '' '' # ''<<'' @ sq # d @ [sq]) = Some [file, ''<<'' @ d]"
    unfolding shlex_go_quote
    by (subst shlex_go_word_end)
      (cases d; use quoted [of "''<<''"] assms in \<open>auto simp: shlex_space_def\<close>)
  then show ?thesis by (simp add: shell_tokens_def shlex_split_def shlex_space_def)
qed

text \<open>Facts on the tables, evaluated once.\<close>

lemma non_executing_heads:
  "\<forall>h\<in>set non_executing_commands. basename h = h \<and> \<not> is_assignment h \<and> strip_substitution h = h \<and>
     h \<notin> set test_runner_commands \<and> h \<notin> set interpreter_commands"
  by code_simp

lemma cat_reads: "scan_heads (''cat'' # ts)"
  by (simp add: is_assignment_def strip_substitution_def basename_def py_after_last_def py_startswith_def
      word_char_def test_runner_commands_def interpreter_commands_def non_executing_commands_def)

lemma pytest_runs: "\<not> scan_heads (''pytest'' # ts)" "\<not> is_assignment ''pytest''" "basename ''pytest'' = ''pytest''"
  "''pytest'' \<in> set bare_runner_patterns"
  by (simp_all add: is_assignment_def strip_substitution_def basename_def py_after_last_def py_startswith_def
      word_char_def test_runner_commands_def bare_runner_patterns_def)

lemma bash_wrapper:
  "is_package_manager_install (''bash'' # ''-c'' # ts) = is_package_manager_install ts"
  "\<not> scan_heads (''bash'' # ts)" "\<not> is_flag t \<Longrightarrow> \<not> is_syntax_check_only [''bash'', ''-c'', t]"
  "shell_c_argument (''bash'' # ''-c'' # t # ts) = Some t"
proof -
  have b: "\<not> is_assignment ''bash''" "basename ''bash'' = ''bash''" "''bash'' \<notin> set package_managers"
    "''bash'' \<in> set interpreter_commands" "''bash'' \<in> set shell_c_commands" "strip_substitution ''bash'' = ''bash''"
    and c: "\<not> is_assignment ''-c''" "basename ''-c'' = ''-c''" "''-c'' \<notin> set package_managers" "is_flag ''-c''"
    "\<not> py_startswith ''-c'' ''--''"
    by code_simp+
  show "is_package_manager_install (''bash'' # ''-c'' # ts) = is_package_manager_install ts"
    and "\<not> scan_heads (''bash'' # ts)" and "shell_c_argument (''bash'' # ''-c'' # t # ts) = Some t"
    using b c by (simp_all add: Let_def)
  show "\<not> is_flag t \<Longrightarrow> \<not> is_syntax_check_only [''bash'', ''-c'', t]"
    using b c by simp
qed

lemma body_sample:
  "''cd app; pytest -q'' \<noteq> []" "\<not> is_flag ''cd app; pytest -q''" "\<not> has_exclude_flag [''cd app; pytest -q'']"
  "\<not> is_package_manager_install [''cd app; pytest -q'']"
  by code_simp+

lemma body_sample_segments:
  "\<exists>seg\<in>set (executable_segments 1 ''cd app; pytest -q''). segment_runs_tests [''pytest''] seg"
  by code_simp

lemma filter_word_sample: "has_test_tool_call ''bash'' ''pytest builds'' ''python''"
  by code_simp

lemma bash_is_shell: "map ascii_lower ''bash'' \<notin> set test_tool_names"
  by code_simp

section \<open>Properties\<close>

text \<open>C15: what a reading command is given never counts as a test run: a command that consists of a
  reading command and any arguments, quoted, is not a test run, whatever the arguments say and
  whatever the patterns.\<close>
theorem arguments_never_count:
  assumes "h \<in> set non_executing_commands"
  shows "\<not> command_runs_tests (shlex_join (h # args)) patterns"
  using assms non_executing_heads by (simp add: command_runs_tests_def executable_segments_join Let_def)

theorem arguments_never_count_witness:
  "\<not> command_runs_tests (shlex_join [''echo'', ''&& pytest tests; npm test'']) [''pytest'', ''npm test'']"
  by (rule arguments_never_count) code_simp+

text \<open>writing a test file is not running one: the lines of a here-document are not commands,
  whatever they contain, so \<open>cat > file <<'D'\<close> with any body that does not contain the delimiter
  line is not a test run.\<close>
theorem heredoc_body_is_data:
  assumes "py_strip d = d" and "d \<noteq> []" and "CHR 0x0A \<notin> set d" and "sq \<notin> set d"
    and "\<forall>l\<in>set (split_char CHR 0x0A body). py_strip l \<noteq> d"
  shows "\<not> command_runs_tests (heredoc_command file d body) patterns"
proof -
  define seg where "seg = ''cat > '' @ shlex_quote file @ '' <<'' @ sq # d @ [sq]"
  have "segments_go [] False False None [] (heredoc_command file d body) = [seg, []]"
    unfolding segments_go_heredoc_command [OF assms(4)] skip_heredoc_body [OF assms(1,3,2,5)] seg_def by simp
  then have "set (command_segments (heredoc_command file d body)) \<subseteq> {seg}"
    by (auto simp: command_segments_def py_strip_def)
  moreover have "segment_is_non_executing seg"
    unfolding segment_is_non_executing_def seg_def heredoc_segment [OF assms(4)] Let_def by (simp only: cat_reads if_cancel)
  ultimately have "executable_segments 2 (heredoc_command file d body) = []"
    by (subst executable_segments.simps) auto
  then show ?thesis by (simp add: command_runs_tests_def)
qed

theorem heredoc_body_is_data_witness:
  "\<not> command_runs_tests (heredoc_command ''tests/a.py'' ''EOF'' (''import pytest'' @ [CHR 0x0A] @ ''npm test'')) [''pytest'']"
  by (rule heredoc_body_is_data) code_simp+

text \<open>a pytest invocation is recognized with any arguments, quoted, as long as they contain neither a
  flag that only lists or explains, nor words that make it look like an installation or an
  operation on an artifact.\<close>
theorem pytest_is_recognized:
  assumes "\<not> is_package_manager_install (''pytest'' # args)" and "\<not> is_artifact_operation (''pytest'' # args)"
    and "\<not> has_exclude_flag args" and "''pytest'' \<in> set patterns"
  shows "command_runs_tests (shlex_join (''pytest'' # args)) patterns"
proof -
  let ?c = "shlex_join (''pytest'' # args)"
  have "?c \<in> set (executable_segments 2 ?c)"
    using assms(1)
    by (simp add: executable_segments_join pytest_runs del: scan_heads.simps is_package_manager_install.simps)
  moreover have "pattern_matches_segment ''pytest'' (''pytest'' # args)"
    using assms(2) by (simp add: pattern_matches_segment_def strip_leading_assignments_def pytest_runs)
  moreover have "\<not> has_exclude_flag (''pytest'' # args)"
    using assms(3) by (simp add: has_exclude_flag_def exclude_flag_tokens_def)
  ultimately show ?thesis
    using assms(4) unfolding command_runs_tests_def segment_runs_tests_def Let_def
    by (intro bexI [of _ ?c]) (auto simp only: shell_tokens_join)
qed

theorem pytest_is_recognized_witness:
  "command_runs_tests (shlex_join [''pytest'', ''-k'', ''a or b'', ''tests'']) [''pytest'']"
  by (rule pytest_is_recognized) code_simp+

text \<open>the command line a shell is given with \<open>-c\<close> is looked into: what runs in it, one level deeper,
  counts, and nothing else does but the words of the wrapper themselves.\<close>
theorem shell_body_is_expanded:
  assumes "body \<noteq> []" and "\<not> is_flag body" and "\<not> has_exclude_flag [body]" and "\<not> is_package_manager_install [body]"
  shows "command_runs_tests (shlex_join [''bash'', ''-c'', body]) patterns \<longleftrightarrow>
    segment_runs_tests patterns (shlex_join [''bash'', ''-c'', body]) \<or>
    (\<exists>seg\<in>set (executable_segments 1 body). segment_runs_tests patterns seg)"
proof -
  obtain c cs where b: "body = c # cs" using assms(1) by (cases body) auto
  have "\<not> has_exclude_flag [''bash'', ''-c'', body]"
    using assms(3) by (auto simp: has_exclude_flag_def exclude_flag_tokens_def)
  moreover have "\<not> is_package_manager_install [''bash'', ''-c'', body]"
    using assms(4) by (simp only: bash_wrapper) simp
  moreover have "\<not> is_syntax_check_only [''bash'', ''-c'', body]" using assms(2) by (rule bash_wrapper)
  moreover have "shell_c_argument [''bash'', ''-c'', body] = Some (c # cs)" unfolding b by (rule bash_wrapper)
  moreover have "\<not> scan_heads [''bash'', ''-c'', body]" by (rule bash_wrapper)
  ultimately have "executable_segments 2 (shlex_join [''bash'', ''-c'', body]) =
      shlex_join [''bash'', ''-c'', body] # executable_segments 1 body"
    using executable_segments_join [of "[''bash'', ''-c'', body]" 2]
    by (simp add: b numeral_2_eq_2 del: scan_heads.simps is_package_manager_install.simps
        is_syntax_check_only.simps shell_c_argument.simps)
  then show ?thesis by (auto simp: command_runs_tests_def)
qed

theorem shell_body_is_expanded_witness:
  "command_runs_tests (shlex_join [''bash'', ''-c'', ''cd app; pytest -q'']) [''pytest'']"
  unfolding shell_body_is_expanded [OF body_sample] using body_sample_segments by blast

text \<open>a filter that is an ordinary word hides a test run: \<open>jest search\<close> and \<open>pytest build\<close> are
  taken for operations on an artifact and are not recognized under any patterns, although the
  words only select tests.\<close>
theorem filter_word_hides_run:
  "\<not> pattern_matches_segment p (shell_tokens ''npx jest search'') \<and>
   \<not> has_test_tool_call ''bash'' ''jest search'' ''javascript'' \<and>
   \<not> has_test_tool_call ''bash'' ''pytest build'' ''python'' \<and>
   has_test_tool_call ''bash'' ''pytest builds'' ''python''"
proof (intro conjI)
  have "is_artifact_operation (strip_leading_assignments (shell_tokens ''npx jest search''))" by code_simp
  then show "\<not> pattern_matches_segment p (shell_tokens ''npx jest search'')"
    by (simp add: pattern_matches_segment_def Let_def)
qed (code_simp+)

text \<open>a tool is not believed by its name: a tool that is neither a shell nor a test tool never counts
  as a test run, and a shell tool counts exactly when its command does.\<close>
theorem tool_name_alone_never_counts:
  "has_test_tool_call tool_name command framework \<longrightarrow>
     (map ascii_lower tool_name \<in> set shell_tool_names \<and> command_runs_tests command (patterns_for framework) \<or>
      map ascii_lower tool_name \<in> set test_tool_names \<and>
      command_runs_tests (py_strip (map ascii_lower tool_name @ '' '' @ command)) (patterns_for framework @ [''run_tests'']))"
  by (auto simp: has_test_tool_call_def Let_def split: if_splits)

theorem tool_name_alone_never_counts_witness:
  "command_runs_tests ''pytest builds'' (patterns_for ''python'')"
  using tool_name_alone_never_counts [of "''bash''" "''pytest builds''" "''python''"] filter_word_sample
  using bash_is_shell by blast

end
