(* ===== verification/Test_Gate.thy ===== *)
theory Test_Gate
  imports Test_Verdict Test_Recognition
begin

text \<open>
  The gate after the test phase (\<open>app/modules/workspace/autonomous/orchestrator.py\<close>,
  \<open>_compute_structured_test_verdict\<close>, \<open>_carry_forward_prior_test_verdict\<close> and the routing of
  \<open>_run_test_phase\<close>): the verdict is computed from the recorded evidence of the current
  milestone, or carried forward from the previous one; the flags of the gate are derived from it
  and from what the agent reported; and the workflow goes on to the review, retries, repairs or
  fails. What the gate reads out of the agent's text, and the heuristic over the tool results, are
  inputs; the feedback text, the comments on the issue and the milestone rows are not modelled.
\<close>

section \<open>The structured verdict\<close>

definition current_evidence :: "string \<Rightarrow> command_evidence list \<Rightarrow> command_evidence list" where
  "current_evidence milestone_id rows =
     (let current = py_strip milestone_id
      in if current \<noteq> [] \<and> (\<exists>ce\<in>set rows. ce_milestone_id ce \<noteq> [])
         then filter (\<lambda>ce. ce_milestone_id ce = current) rows
         else rows)"

text \<open>The verdict and the parsed evidence; \<open>persist\<close> says which writes of test evidence succeed, a
  write that raises makes the whole computation give \<open>NOT_RUN\<close>.\<close>

definition structured_test_verdict ::
  "(test_evidence \<Rightarrow> bool) \<Rightarrow> evidence_table \<Rightarrow> string \<Rightarrow> string \<Rightarrow> string \<Rightarrow> execution_verdict \<times> test_evidence list" where
  "structured_test_verdict persist t session_id milestone_id framework_type =
     (if session_id = [] then (NOT_RUN, [])
      else
        (let command_evidences = query_by_session t session_id;
             current = current_evidence milestone_id command_evidences;
             test_commands = filter (\<lambda>ce. has_test_tool_call (ce_tool_name ce) (shell_text ce) framework_type) current;
             test_evidences = map (\<lambda>ce. parse_test_evidence ce framework_type) test_commands
         in if command_evidences = [] \<or> current = [] \<or> test_commands = [] then (NOT_RUN, [])
            else if \<exists>e\<in>set test_evidences. \<not> persist e then (NOT_RUN, [])
            else (compute_run_verdict test_evidences, test_evidences)))"

record milestone_row =
  ms_type :: string
  ms_milestone_id :: string
  ms_row_id :: int

text \<open>Python's \<open>max\<close> with a key: the first of the largest.\<close>

fun first_max :: "milestone_row \<Rightarrow> milestone_row list \<Rightarrow> milestone_row" where
  "first_max best [] = best"
| "first_max best (m # ms) = first_max (if ms_row_id m > ms_row_id best then m else best) ms"

definition carry_forward_verdict ::
  "(string \<Rightarrow> test_evidence list) \<Rightarrow> milestone_row list \<Rightarrow> string \<Rightarrow> string \<Rightarrow> int \<Rightarrow> execution_verdict" where
  "carry_forward_verdict evidence_of milestones workflow_id current_milestone_id test_retries =
     (if test_retries \<le> 0 \<or> workflow_id = [] \<or> current_milestone_id = [] then NOT_RUN
      else
        (case filter (\<lambda>ms. ms_type ms = ''tests_run'' \<and> ms_milestone_id ms \<noteq> current_milestone_id) milestones of
           [] \<Rightarrow> NOT_RUN
         | m # ms \<Rightarrow>
             (let prior = ms_milestone_id (first_max m ms)
              in if prior = [] then NOT_RUN else compute_run_verdict (evidence_of prior))))"

definition effective_verdict :: "execution_verdict \<Rightarrow> int \<Rightarrow> execution_verdict \<Rightarrow> execution_verdict" where
  "effective_verdict structured test_retries prior =
     (if structured = NOT_RUN \<and> test_retries > 0 \<and> (prior = FAILED \<or> prior = PASSED) then prior else structured)"

section \<open>The flags of the gate\<close>

record gate_input =
  gi_success :: bool
  gi_status_tag :: string
  gi_skip_tag :: bool
  gi_skip_keyword :: bool
  gi_has_test_result :: bool
  gi_text_passed :: bool
  gi_test_tool_call :: bool
  gi_passing_tool_result :: bool
  gi_verdict :: execution_verdict
  gi_unfixable :: bool
  gi_requirer_mode :: string
  gi_requirer_missing :: "string list"
  gi_primary_error :: "string option"

definition tests_actually_run :: "gate_input \<Rightarrow> bool" where
  "tests_actually_run g =
     (if gi_verdict g = PASSED then True
      else if gi_verdict g = FAILED then gi_passing_tool_result g
      else gi_passing_tool_result g \<or> gi_test_tool_call g \<and> gi_has_test_result g \<and> gi_text_passed g)"

definition test_result_inconclusive :: "gate_input \<Rightarrow> bool" where
  "test_result_inconclusive g \<longleftrightarrow>
     gi_verdict g \<noteq> PASSED \<and> gi_success g \<and>
     (gi_test_tool_call g \<or> gi_has_test_result g \<or> gi_status_tag g \<in> {''passed'', ''failed''}) \<and>
     \<not> tests_actually_run g"

definition tests_actually_skipped :: "gate_input \<Rightarrow> bool" where
  "tests_actually_skipped g \<longleftrightarrow>
     gi_verdict g \<noteq> PASSED \<and>
     (gi_status_tag g = ''skipped'' \<or> gi_skip_tag g \<or>
      gi_success g \<and> gi_skip_keyword g \<and> \<not> tests_actually_run g \<or>
      gi_success g \<and> \<not> tests_actually_run g \<and> \<not> gi_test_tool_call g \<and> \<not> gi_has_test_result g)"

definition requirer_enforced :: "gate_input \<Rightarrow> bool" where
  "requirer_enforced g \<longleftrightarrow>
     gi_requirer_mode g = ''enforce'' \<and> gi_requirer_missing g \<noteq> [] \<and> \<not> test_result_inconclusive g \<and>
     \<not> tests_actually_skipped g \<and> gi_success g \<and> \<not> gi_unfixable g"

section \<open>Routing\<close>

record test_counters =
  tc_test_retries :: int
  tc_skip_retries :: int
  tc_dev_retries :: int
  tc_dev_round :: int

datatype gate_outcome = Retry | Repair | Gate_Failed | Review

definition max_test_retries :: int where "max_test_retries = 2"

definition max_dev_retries_on_test_fail :: int where "max_dev_retries_on_test_fail = 2"

definition retry_tests :: "test_counters \<Rightarrow> gate_outcome \<times> test_counters" where
  "retry_tests c =
     (let test_retries = tc_test_retries c + 1
      in if test_retries \<le> max_test_retries then (Retry, c\<lparr>tc_test_retries := test_retries\<rparr>)
         else (Gate_Failed, c))"

definition repair_round :: "test_counters \<Rightarrow> gate_outcome \<times> test_counters" where
  "repair_round c =
     (let dev_retries = tc_dev_retries c + 1
      in if dev_retries \<le> max_dev_retries_on_test_fail then
           (Repair, c\<lparr>tc_dev_round := tc_dev_round c + 1, tc_dev_retries := dev_retries,
              tc_test_retries := 0, tc_skip_retries := 0\<rparr>)
         else (Gate_Failed, c))"

definition route_inconclusive :: "gate_input \<Rightarrow> test_counters \<Rightarrow> gate_outcome \<times> test_counters" where
  "route_inconclusive g c =
     (if tc_test_retries c + 1 \<le> max_test_retries then retry_tests c
      else if gi_verdict g = FAILED then repair_round c
      else (Gate_Failed, c))"

definition route_skipped :: "gate_input \<Rightarrow> test_counters \<Rightarrow> gate_outcome \<times> test_counters" where
  "route_skipped g c =
     (if truthy_str (gi_primary_error g) then (Gate_Failed, c)
      else
        (let skip_retries = tc_skip_retries c + 1
         in if skip_retries \<le> 1 then (Retry, c\<lparr>tc_skip_retries := skip_retries\<rparr>) else (Gate_Failed, c)))"

definition gate_route :: "gate_input \<Rightarrow> test_counters \<Rightarrow> gate_outcome \<times> test_counters" where
  "gate_route g c =
     (if test_result_inconclusive g then route_inconclusive g c
      else if requirer_enforced g then retry_tests c
      else if tests_actually_skipped g then route_skipped g c
      else if \<not> gi_success g then retry_tests c
      else if gi_unfixable g then repair_round c
      else (Review, c\<lparr>tc_test_retries := 0, tc_dev_retries := 0, tc_skip_retries := 0\<rparr>))"

text \<open>A sequence of test phases, until one of them ends the workflow's development.\<close>

fun gate_run :: "gate_input list \<Rightarrow> test_counters \<Rightarrow> gate_outcome \<times> test_counters" where
  "gate_run [] c = (Retry, c)"
| "gate_run (g # gs) c =
     (let (res, c') = gate_route g c
      in if res = Gate_Failed \<or> res = Review then (res, c') else gate_run gs c')"

lemmas gate_defs = tests_actually_run_def test_result_inconclusive_def tests_actually_skipped_def
  requirer_enforced_def retry_tests_def repair_round_def route_inconclusive_def route_skipped_def
  gate_route_def max_test_retries_def max_dev_retries_on_test_fail_def

section \<open>Lemmas\<close>

definition gate_budget :: "test_counters \<Rightarrow> int" where
  "gate_budget c = 4 * (2 - tc_dev_retries c) + (2 - tc_test_retries c) + (1 - tc_skip_retries c)"

definition counters_ok :: "test_counters \<Rightarrow> bool" where
  "counters_ok c \<longleftrightarrow> 0 \<le> tc_test_retries c \<and> tc_test_retries c \<le> 2 \<and> 0 \<le> tc_skip_retries c \<and> tc_skip_retries c \<le> 1 \<and>
     0 \<le> tc_dev_retries c \<and> tc_dev_retries c \<le> 2"

text \<open>A move of the counters keeps them in range, and uses up budget unless it ends the run.\<close>

definition good_move :: "test_counters \<Rightarrow> gate_outcome \<times> test_counters \<Rightarrow> bool" where
  "good_move c r \<longleftrightarrow> counters_ok (snd r) \<and> (fst r = Retry \<or> fst r = Repair \<longrightarrow> gate_budget (snd r) < gate_budget c)"

lemma good_moves:
  assumes "counters_ok c"
  shows "good_move c (retry_tests c)" and "good_move c (repair_round c)" and "good_move c (route_skipped g c)"
    and "good_move c (Gate_Failed, c)"
    and "good_move c (Review, c\<lparr>tc_test_retries := 0, tc_dev_retries := 0, tc_skip_retries := 0\<rparr>)"
  using assms
  by (simp_all add: good_move_def counters_ok_def gate_budget_def retry_tests_def repair_round_def
      route_skipped_def max_test_retries_def max_dev_retries_on_test_fail_def Let_def)

lemma gate_route_good: "counters_ok c \<Longrightarrow> good_move c (gate_route g c)"
  unfolding gate_route_def route_inconclusive_def using good_moves by (simp split: if_split)

lemma gate_route_ok: "counters_ok c \<Longrightarrow> counters_ok (snd (gate_route g c))"
  using gate_route_good good_move_def by blast

lemma gate_route_budget:
  "counters_ok c \<Longrightarrow> fst (gate_route g c) = Retry \<or> fst (gate_route g c) = Repair \<Longrightarrow>
   gate_budget (snd (gate_route g c)) < gate_budget c"
  using gate_route_good good_move_def by blast

lemma gate_budget_nonneg: "counters_ok c \<Longrightarrow> 0 \<le> gate_budget c \<and> gate_budget c \<le> 11"
  by (auto simp: counters_ok_def gate_budget_def)

lemma gate_run_bounded:
  "counters_ok c \<Longrightarrow> gate_budget c < int (length gs) \<Longrightarrow> fst (gate_run gs c) \<in> {Gate_Failed, Review}"
proof (induction gs arbitrary: c)
  case Nil
  then show ?case using gate_budget_nonneg [of c] by simp
next
  case (Cons g gs)
  obtain r c' where rc: "gate_route g c = (r, c')" by fastforce
  show ?case
  proof (cases "r = Gate_Failed \<or> r = Review")
    case False
    then have "r = Retry \<or> r = Repair" by (cases r) auto
    then have "gate_budget c' < gate_budget c" and "counters_ok c'"
      using gate_route_budget [OF Cons.prems(1), of g] gate_route_ok [OF Cons.prems(1), of g] rc by auto
    then show ?thesis using Cons.IH [of c'] Cons.prems(2) False rc by auto
  qed (use rc in auto)
qed

lemma masked_command:
  "resolve_framework ''pytest tests || true'' ''python'' = ''python''"
  "has_test_tool_call ''bash'' ''pytest tests || true'' ''python''"
  by code_simp+

section \<open>Properties\<close>

text \<open>the workflow goes on to the review only when the session succeeded and there is evidence: a
  structured pass, a passing tool result, or, when the structured layer did not decide, a test
  call together with a passed count in the agent's text. A structured failure is overruled by a
  passing tool result only, never by text.\<close>
theorem review_needs_evidence:
  assumes "fst (gate_route g c) = Review"
  shows "gi_success g \<and> \<not> gi_unfixable g \<and>
    (gi_verdict g = PASSED \<or> gi_passing_tool_result g \<or>
     gi_verdict g \<noteq> FAILED \<and> gi_test_tool_call g \<and> gi_text_passed g)"
proof -
  have r: "fst (retry_tests c) \<noteq> Review" "fst (repair_round c) \<noteq> Review" "fst (route_skipped g c) \<noteq> Review"
    "fst (route_inconclusive g c) \<noteq> Review"
    by (simp_all add: retry_tests_def repair_round_def route_skipped_def route_inconclusive_def Let_def)
  have f: "\<not> test_result_inconclusive g" "\<not> tests_actually_skipped g" "gi_success g" "\<not> gi_unfixable g"
    using assms r by (auto simp: gate_route_def split: if_splits)
  then have "gi_verdict g = PASSED \<or> tests_actually_run g"
    by (auto simp: test_result_inconclusive_def tests_actually_skipped_def)
  then show ?thesis using f by (auto simp: tests_actually_run_def split: if_splits)
qed

definition sample_gate :: "execution_verdict \<Rightarrow> bool \<Rightarrow> gate_input" where
  "sample_gate v tool_result =
     \<lparr>gi_success = True, gi_status_tag = ''passed'', gi_skip_tag = False, gi_skip_keyword = False,
      gi_has_test_result = True, gi_text_passed = True, gi_test_tool_call = True,
      gi_passing_tool_result = tool_result, gi_verdict = v, gi_unfixable = False,
      gi_requirer_mode = ''shadow'', gi_requirer_missing = [''python''], gi_primary_error = None\<rparr>"

definition fresh_counters :: test_counters where
  "fresh_counters = \<lparr>tc_test_retries = 0, tc_skip_retries = 0, tc_dev_retries = 0, tc_dev_round = 1\<rparr>"

lemmas sample_gate_defs = sample_gate_def fresh_counters_def gate_defs

theorem review_needs_evidence_witness:
  "gi_passing_tool_result (sample_gate FAILED True)"
proof -
  have "fst (gate_route (sample_gate FAILED True) fresh_counters) = Review" by (simp add: sample_gate_defs)
  from review_needs_evidence [OF this] show ?thesis by (simp add: sample_gate_def)
qed

text \<open>when the structured layer does not decide, the agent's own words do: an inconclusive run with a
  test call and a text that says so many passed goes on to the review, although no tool result
  passed and the comment says that prose can no longer promote a run.\<close>
theorem prose_promotes_inconclusive:
  assumes "gi_verdict g \<in> {NOT_RUN, INCONCLUSIVE}" and "gi_success g" and "gi_test_tool_call g"
    and "gi_has_test_result g" and "gi_text_passed g" and "\<not> gi_unfixable g"
    and "gi_status_tag g \<noteq> ''skipped''" and "\<not> gi_skip_tag g" and "gi_requirer_mode g \<noteq> ''enforce''"
  shows "fst (gate_route g c) = Review"
  using assms by (auto simp: gate_defs)

theorem prose_promotes_inconclusive_witness:
  "fst (gate_route (sample_gate INCONCLUSIVE False) fresh_counters) = Review"
  by (rule prose_promotes_inconclusive) (simp_all add: sample_gate_def)

text \<open>C20: the gate cannot go on retrying: from counters in range, whatever the agent reports, among any
  twelve test phases in a row one ends in the review or fails the workflow.\<close>
theorem gate_terminates:
  "counters_ok c \<Longrightarrow> 12 \<le> length gs \<Longrightarrow> fst (gate_run gs c) \<in> {Gate_Failed, Review}"
  using gate_run_bounded [of c gs] gate_budget_nonneg [of c] by linarith

theorem gate_terminates_witness:
  "fst (gate_run (replicate 12 (sample_gate FAILED False)) fresh_counters) \<in> {Gate_Failed, Review}"
  by (rule gate_terminates) (simp_all add: counters_ok_def fresh_counters_def)

text \<open>a persistent structured failure is handed to development: after the test retries are used up
  it starts a repair round with fresh test and skip budgets, at most twice, and then the workflow
  fails.\<close>
theorem failure_reaches_repair:
  assumes "gi_verdict g = FAILED" and "gi_success g" and "gi_test_tool_call g" and "\<not> gi_passing_tool_result g"
    and "tc_test_retries c = 2"
  shows "gate_route g c =
    (if tc_dev_retries c < 2 then
       (Repair, c\<lparr>tc_dev_round := tc_dev_round c + 1, tc_dev_retries := tc_dev_retries c + 1,
          tc_test_retries := 0, tc_skip_retries := 0\<rparr>)
     else (Gate_Failed, c))"
  using assms
  by (simp add: gate_route_def test_result_inconclusive_def tests_actually_run_def route_inconclusive_def
      repair_round_def max_test_retries_def max_dev_retries_on_test_fail_def Let_def)

theorem failure_reaches_repair_witness:
  "fst (gate_route (sample_gate FAILED False) (fresh_counters\<lparr>tc_test_retries := 2\<rparr>)) = Repair"
  by (subst failure_reaches_repair) (simp_all add: sample_gate_def fresh_counters_def)

text \<open>a verdict is carried forward only on a retry and only when it decides: otherwise the verdict of
  the gate is the one computed from the evidence of the current milestone.\<close>
theorem carry_forward_only_decides:
  "effective_verdict structured retries
     (carry_forward_verdict evidence_of milestones workflow_id current retries) \<noteq> structured \<longrightarrow>
   structured = NOT_RUN \<and> 0 < retries \<and>
   (\<exists>ms\<in>set milestones. ms_type ms = ''tests_run'' \<and> ms_milestone_id ms \<noteq> current \<and>
      compute_run_verdict (evidence_of (ms_milestone_id ms)) =
        effective_verdict structured retries (carry_forward_verdict evidence_of milestones workflow_id current retries))"
proof -
  have fm: "first_max m ms \<in> set (m # ms)" for m ms
    by (induction ms arbitrary: m) (auto split: if_splits)
  show ?thesis
  proof (cases "filter (\<lambda>ms. ms_type ms = ''tests_run'' \<and> ms_milestone_id ms \<noteq> current) milestones")
    case (Cons m ms)
    then have "first_max m ms \<in> {x \<in> set milestones. ms_type x = ''tests_run'' \<and> ms_milestone_id x \<noteq> current}"
      using fm [of m ms] by (metis set_filter)
    then show ?thesis using Cons by (auto simp: effective_verdict_def carry_forward_verdict_def Let_def)
  qed (simp add: effective_verdict_def carry_forward_verdict_def)
qed

theorem carry_forward_only_decides_witness:
  "effective_verdict NOT_RUN 1 (carry_forward_verdict (\<lambda>_. [pytest_evidence ''a'' [] ''failed''])
     [\<lparr>ms_type = ''tests_run'', ms_milestone_id = ''m0'', ms_row_id = 1\<rparr>] ''w'' ''m1'' 1) = FAILED"
proof -
  have v: "compute_run_verdict [pytest_evidence ''a'' [] ''failed''] = FAILED" by code_simp
  have ne: "effective_verdict NOT_RUN 1 (carry_forward_verdict (\<lambda>_. [pytest_evidence ''a'' [] ''failed''])
     [\<lparr>ms_type = ''tests_run'', ms_milestone_id = ''m0'', ms_row_id = 1\<rparr>] ''w'' ''m1'' 1) \<noteq> NOT_RUN"
    by (simp add: effective_verdict_def carry_forward_verdict_def v)
  show ?thesis
    using carry_forward_only_decides [of NOT_RUN 1 "\<lambda>_. [pytest_evidence ''a'' [] ''failed'']"
        "[\<lparr>ms_type = ''tests_run'', ms_milestone_id = ''m0'', ms_row_id = 1\<rparr>]" "''w''" "''m1''"] ne v
    by auto
qed

text \<open>a run in which no recorded command is a test command, of the current milestone, is not run,
  whatever its other commands print.\<close>
theorem no_test_command_not_run:
  assumes "\<forall>ce\<in>set (query_by_session t session_id). \<not> has_test_tool_call (ce_tool_name ce) (shell_text ce) framework"
  shows "structured_test_verdict persist t session_id milestone_id framework = (NOT_RUN, [])"
proof -
  have "set (current_evidence milestone_id (query_by_session t session_id)) \<subseteq> set (query_by_session t session_id)"
    by (auto simp: current_evidence_def Let_def)
  then have "filter (\<lambda>ce. has_test_tool_call (ce_tool_name ce) (shell_text ce) framework)
      (current_evidence milestone_id (query_by_session t session_id)) = []"
    using assms by (auto simp: filter_empty_conv)
  then show ?thesis by (simp add: structured_test_verdict_def Let_def)
qed

definition echo_row :: command_evidence where
  "echo_row = (blank_evidence ''c1'' ''s1'')\<lparr>ce_tool_name := ''bash'', ce_shell_command := Some ''echo 3 passed'',
     ce_exit_code := Some 0, ce_output_excerpt := ''3 passed''\<rparr>"

theorem no_test_command_not_run_witness:
  "structured_test_verdict (\<lambda>_. True) [echo_row] ''s1'' ''m1'' ''python'' = (NOT_RUN, [])"
  by (rule no_test_command_not_run) (code_simp)

text \<open>the exit code of a masked command is believed: \<open>pytest tests || true\<close> that prints no summary is
  passed and goes on to the review, because the exit code 0 of \<open>true\<close> is taken for that of
  pytest.\<close>
theorem masked_exit_code_passes:
  fixes excerpt :: string
  defines "ce \<equiv> (blank_evidence ''c1'' ''s1'')\<lparr>ce_tool_name := ''bash'', ce_shell_command := Some ''pytest tests || true'',
     ce_exit_code := Some 0, ce_terminal_reason := ''completed'', ce_output_excerpt := excerpt\<rparr>"
  assumes "extract_count (count_target excerpt) passed_patterns = None"
    and "extract_count (count_target excerpt) failed_patterns = None"
    and "extract_count (count_target excerpt) errors_patterns = None" and "rx_search unittest_ok excerpt = None"
  shows "fst (structured_test_verdict (\<lambda>_. True) [ce] ''s1'' ''m1'' ''python'') = PASSED"
proof -
  let ?e = "parse_test_evidence ce ''python''"
  have c: "shell_text ce = ''pytest tests || true''" "ce_tool_name ce = ''bash''" "ce_exit_code ce = Some 0"
    "ce_output_excerpt ce = excerpt" "ce_session_id ce = ''s1''" "ce_milestone_id ce = []"
    by (simp_all add: ce_def shell_text_def blank_evidence_def)
  have "te_verdict ?e = ''passed''" and conf: "te_parser_confidence ?e = ''medium''"
    using assms(2-5) by (simp_all add: parse_test_evidence_def c Let_def parse_framework_def masked_command(1)
        parse_pytest_def unittest_passed_def verdict_from_exit_def)
  then have "compute_run_verdict [?e] = PASSED"
    using run_verdict_cases [of "[?e]"]
    by (auto simp: authoritative_def authoritative_confidence_def failed_at_def is_latest_def)
  then show ?thesis
    by (simp add: structured_test_verdict_def query_by_session_def current_evidence_def c masked_command(2) Let_def)
qed

theorem masked_exit_code_passes_witness:
  "fst (structured_test_verdict (\<lambda>_. True) [(blank_evidence ''c1'' ''s1'')\<lparr>ce_tool_name := ''bash'',
     ce_shell_command := Some ''pytest tests || true'', ce_exit_code := Some 0, ce_terminal_reason := ''completed'',
     ce_output_excerpt := ''not found''\<rparr>] ''s1'' ''m1'' ''python'') = PASSED"
  by (rule masked_exit_code_passes) code_simp+

end
