(* ===== verification/Acceptance_Gates.thy ===== *)
theory Acceptance_Gates
  imports Py_Regex
begin

text \<open>
  The deterministic part of the acceptance check after a merge
  (\<^verbatim>\<open>modules/workspace/autonomous/acceptance_verdicts.py\<close>, \<^verbatim>\<open>acceptance_gates.py\<close> and the scope gate of
  \<^verbatim>\<open>phases/acceptance_verification.py\<close>): the verdict of one item, the aggregation over the items of
  an issue, the five gates over the files a merge changed, and the gate over the paths the issue
  requires. What git answers is a parameter, one answer per question a gate asks, and any
  of them may raise. Paths and file contents are Latin-1.
\<close>

section \<open>Verdicts\<close>

datatype verdict = CONFIRMED | REJECTED | INDETERMINATE

fun tristate_value :: "verdict \<Rightarrow> string" where
  "tristate_value CONFIRMED = ''confirmed''"
| "tristate_value REJECTED = ''rejected''"
| "tristate_value INDETERMINATE = ''indeterminate''"

fun to_bool_or_none :: "verdict \<Rightarrow> bool option" where
  "to_bool_or_none CONFIRMED = Some True"
| "to_bool_or_none REJECTED = Some False"
| "to_bool_or_none INDETERMINATE = None"

record item_verdict =
  iv_item :: string
  iv_verdict :: verdict
  iv_evidence :: "json list"
  iv_rationale :: string
  iv_retryable :: bool

definition item_of :: "string \<Rightarrow> verdict \<Rightarrow> json list \<Rightarrow> string \<Rightarrow> item_verdict" where
  "item_of item v evidence rationale =
     \<lparr>iv_item = item, iv_verdict = v, iv_evidence = evidence, iv_rationale = rationale, iv_retryable = False\<rparr>"

definition ref_note :: "string \<Rightarrow> string \<Rightarrow> json" where
  "ref_note ref note = JObj [(''ref'', JStr ref), (''note'', JStr note)]"

definition aggregate_verdicts :: "item_verdict list \<Rightarrow> string" where
  "aggregate_verdicts items =
     (if list_ex (\<lambda>iv. iv_verdict iv = REJECTED) items then ''rejected''
      else if list_ex (\<lambda>iv. iv_verdict iv = INDETERMINATE) items then ''indeterminate''
      else if items \<noteq> [] \<and> list_all (\<lambda>iv. iv_verdict iv = CONFIRMED) items then ''confirmed''
      else ''indeterminate'')"

lemma item_of_simps [simp]:
  "iv_item (item_of i v ev r) = i" "iv_verdict (item_of i v ev r) = v"
  "iv_evidence (item_of i v ev r) = ev" "\<not> iv_retryable (item_of i v ev r)"
  by (simp_all add: item_of_def)

lemma item_of_inject [simp]: "item_of i v ev r = item_of i' v' ev' r' \<longleftrightarrow> i = i' \<and> v = v' \<and> ev = ev' \<and> r = r'"
  by (auto simp: item_of_def)

lemma aggregate_confirmed_iff:
  "aggregate_verdicts items = ''confirmed'' \<longleftrightarrow> items \<noteq> [] \<and> (\<forall>iv\<in>set items. iv_verdict iv = CONFIRMED)"
  by (auto simp: aggregate_verdicts_def list_ex_iff list_all_iff)

lemma aggregate_rejected_iff:
  "aggregate_verdicts items = ''rejected'' \<longleftrightarrow> (\<exists>iv\<in>set items. iv_verdict iv = REJECTED)"
  by (auto simp: aggregate_verdicts_def list_ex_iff list_all_iff)

lemma aggregate_cases:
  "aggregate_verdicts items \<in> {''confirmed'', ''rejected'', ''indeterminate''}"
  by (simp add: aggregate_verdicts_def)

section \<open>What a gate may ask\<close>

text \<open>
  \<open>ge_changed g\<close> is the answer of \<open>get_changed_files\<close> to the gate \<open>g\<close>, \<open>ge_status\<close> the one of
  \<open>get_changed_files_with_status\<close>, \<open>ge_touched\<close> of \<open>path_touched_in_range\<close>, and \<open>ge_show\<close> the
  standard output of \<open>git show <merge>:<path>\<close>, \<open>None\<close> when it is not a string.
\<close>

record gate_env =
  ge_changed :: "string \<Rightarrow> string list result"
  ge_status :: "(string \<times> string) list result"
  ge_touched :: "string \<Rightarrow> bool result"
  ge_show :: "string \<Rightarrow> string option result"
  ge_repr :: "pyexn \<Rightarrow> string"

definition default_reader :: "gate_env \<Rightarrow> string \<Rightarrow> string" where
  "default_reader e path = (case ge_show e path of Inr (Some txt) \<Rightarrow> txt | _ \<Rightarrow> [])"

definition security_path_re :: rx where
  "security_path_re = rx_alts (map rx_ilit
     [''security'', ''auth'', ''retention'', ''delete'', ''archive'', ''lock'', ''permission''])"

definition is_changed_test :: "string \<Rightarrow> bool" where
  "is_changed_test path \<longleftrightarrow>
     (let p = py_lower path in py_startswith p ''tests/'' \<or> py_startswith p ''test/'' \<or> py_startswith p ''test_'')"

definition is_security_path :: "string \<Rightarrow> bool" where
  "is_security_path path \<longleftrightarrow> rx_found security_path_re path"

definition strip_ext :: "string \<Rightarrow> string" where
  "strip_ext path =
     (let base = py_after_last CHR ''/'' path
      in if CHR ''.'' \<in> set base then py_before_last CHR ''.'' base else base)"

text \<open>\<^verbatim>\<open>re.sub(r"\W+", "_", s)\<close>; the flag tells that the run of characters being replaced goes on.\<close>

fun squeeze_nonword :: "bool \<Rightarrow> string \<Rightarrow> string" where
  "squeeze_nonword r [] = []"
| "squeeze_nonword r (c # cs) =
     (if word_char c then c # squeeze_nonword False cs
      else if r then squeeze_nonword True cs else CHR ''_'' # squeeze_nonword True cs)"

section \<open>Negative tests\<close>

definition neg_test_assertion_re :: rx where
  "neg_test_assertion_re = rx_cats [WordB,
     rx_alts (map rx_lit [''assert'', ''raises'', ''pytest.raises'', ''fail'', ''self.assertRaises'']), WordB]"

definition sec_stem :: "string \<Rightarrow> string" where
  "sec_stem sec = py_lower (squeeze_nonword False (strip_ext sec))"

definition negatively_tested :: "gate_env \<Rightarrow> string list \<Rightarrow> string \<Rightarrow> bool" where
  "negatively_tested e test_files sec \<longleftrightarrow>
     list_ex (\<lambda>tf. let content = default_reader e tf in
        sec_stem sec \<noteq> [] \<and> py_contains (sec_stem sec) (py_lower content) \<and>
        rx_found neg_test_assertion_re content) test_files"

definition security_files :: "string list \<Rightarrow> string list" where
  "security_files changed = filter (\<lambda>p. is_security_path p \<and> \<not> is_changed_test p) changed"

definition negative_test_gate :: "gate_env \<Rightarrow> item_verdict list result" where
  "negative_test_gate e = rbind (ge_changed e ''negative_test_gate'') (\<lambda>changed.
     let secs = security_files changed;
         test_files = filter is_changed_test changed;
         missing = filter (\<lambda>sec. \<not> negatively_tested e test_files sec) secs;
         confirmed_any = list_ex (negatively_tested e test_files) secs
     in Inr
       (if secs = [] then []
        else if missing \<noteq> [] \<and> \<not> confirmed_any then
          [item_of (''negative-test:'' @ hd missing) REJECTED
             [ref_note (''missing-test:'' @ hd missing)
                (''security/data-loss file changed without a failure-path test: '' @ hd missing)]
             ''A security/data-loss path was changed but no changed test file references it with an assertion (pytest.raises/assert/fail).'']
        else if confirmed_any then
          [item_of ''negative-test:coverage'' CONFIRMED
             (map (\<lambda>tf. ref_note (''test:'' @ tf) ''failure-path test present'') test_files)
             ''At least one security/data-loss change has failure-path test coverage.'']
        else []))"

section \<open>Banned patterns\<close>

definition legacy_patterns :: "(string \<times> rx) list" where
  "legacy_patterns =
     [(''_sync_ssh_keys_legacy'', rx_lit ''_sync_ssh_keys_legacy''),
      (''direct-tenant_id-authorization'',
       rx_alts [rx_cats [rx_lit ''tenant_id'', Star rx_space, rx_lit ''==''],
                rx_cats [rx_lit ''=='', Star rx_space, rx_lit ''tenant_id''],
                rx_cats [rx_lit ''filter('', Star rx_dot, rx_lit ''tenant_id'', Star rx_dot, rx_lit '')'']]),
      (''archive-calling-delete'',
       rx_cats [rx_lit ''def'', rx_spaces, rx_lit ''archive'', WordB, rx_upto 400 rx_any, WordB, rx_lit ''delete'', WordB]),
      (''lock-acquire-failure-proceeding'',
       rx_alts (map rx_ilit [''proceeding anyway'', ''continue without lock'', ''continuing without lock'']))]"

text \<open>The first banned pattern found in the files, with the file, and whether anything could be read.\<close>

fun legacy_scan :: "(string \<Rightarrow> string) \<Rightarrow> bool \<Rightarrow> string list \<Rightarrow> bool \<times> (string \<times> string) option" where
  "legacy_scan reader seen [] = (seen, None)"
| "legacy_scan reader seen (p # ps) =
     (let content = reader p in
      if content = [] then legacy_scan reader seen ps
      else case List.find (\<lambda>np. rx_found (snd np) content) legacy_patterns of
             Some (name, _) \<Rightarrow> (True, Some (name, p))
           | None \<Rightarrow> legacy_scan reader True ps)"

definition legacy_pattern_gate :: "gate_env \<Rightarrow> item_verdict list result" where
  "legacy_pattern_gate e = rbind (ge_changed e ''legacy_pattern_gate'') (\<lambda>changed.
     let prod_files = filter (\<lambda>p. \<not> is_changed_test p) changed
     in Inr
       (if prod_files = [] then []
        else case legacy_scan (default_reader e) False prod_files of
          (_, Some (name, p)) \<Rightarrow>
            [item_of (''legacy-pattern:'' @ name) REJECTED
               [ref_note (''file:'' @ p) (''banned legacy pattern '' @ [sq] @ name @ [sq] @ '' present in '' @ p)]
               (''Changed production file reintroduces a banned legacy pattern ('' @ name @ '').'')]
        | (seen, None) \<Rightarrow>
            if \<not> seen then
              [item_of ''legacy-pattern:scan'' INDETERMINATE
                 [ref_note ''none'' ''could not read any changed file content'']
                 ''Gate could not read changed-file content; cannot confirm.'']
            else
              [item_of ''legacy-pattern:scan'' CONFIRMED
                 (map (\<lambda>p. ref_note (''file:'' @ p) ''no banned legacy patterns'') prod_files)
                 ''No banned legacy patterns found in changed production files.'']))"

section \<open>Callers of new modules\<close>

definition repo_or_service_re :: rx where
  "repo_or_service_re = rx_cats [Bos, rx_lit ''app/'', rx_alts [rx_lit ''repositories'', rx_lit ''services''],
     rx_lit ''/'', rx_plus rx_dot, rx_lit ''.py'', End]"

definition is_repo_or_service_module :: "string \<Rightarrow> bool" where
  "is_repo_or_service_module path \<longleftrightarrow> rx_match_start repo_or_service_re path"

definition module_dotted :: "string \<Rightarrow> string" where
  "module_dotted path =
     map (\<lambda>c. if c = CHR ''/'' then CHR ''.'' else c)
       (if py_endswith path ''.py'' then take (length path - 3) path else path)"

definition import_found :: "string \<Rightarrow> string \<Rightarrow> bool" where
  "import_found dotted content \<longleftrightarrow>
     rx_found (rx_cats [WordB, rx_lit ''from'', rx_spaces, rx_lit dotted, rx_spaces, rx_lit ''import'', WordB]) content \<or>
     rx_found (rx_cats [WordB, rx_lit ''import'', rx_spaces, rx_lit dotted, WordB]) content"

definition has_prod_caller :: "gate_env \<Rightarrow> string list \<Rightarrow> string \<Rightarrow> bool" where
  "has_prod_caller e non_test mod_path \<longleftrightarrow>
     list_ex (\<lambda>p. p \<noteq> mod_path \<and> import_found (module_dotted mod_path) (default_reader e p)) non_test"

text \<open>\<^verbatim>\<open>status_by_path[path] = status\<close> over the entries.\<close>

definition status_by_path :: "(string \<times> string) list \<Rightarrow> (string, string) dict" where
  "status_by_path entries = foldl (\<lambda>d sp. AList.update (snd sp) (fst sp) d) [] entries"

definition new_modules :: "(string, string) dict \<Rightarrow> string list" where
  "new_modules d = map fst (filter (\<lambda>ps. snd ps \<in> {''A'', ''R''} \<and> is_repo_or_service_module (fst ps)) d)"

definition call_chain_gate :: "gate_env \<Rightarrow> item_verdict list result" where
  "call_chain_gate e = rbind (ge_status e) (\<lambda>entries.
     let d = status_by_path entries;
         non_test = filter (\<lambda>p. \<not> is_changed_test p) (map fst d);
         mods = new_modules d;
         missing = filter (\<lambda>m. \<not> has_prod_caller e non_test m) mods;
         confirmed_any = list_ex (has_prod_caller e non_test) mods
     in Inr
       (if mods = [] then []
        else if missing \<noteq> [] \<and> \<not> confirmed_any then
          [item_of (''call-chain:'' @ strip_ext (hd missing)) REJECTED
             [ref_note (''missing-caller:'' @ hd missing)
                (''new repo/service module '' @ hd missing @ '' has no production caller in the diff'')]
             ''A new repository/service module was added but no changed production file imports it (dead code / missing wiring).'']
        else if confirmed_any then
          [item_of ''call-chain:new-modules'' CONFIRMED
             (map (\<lambda>p. ref_note (''caller:'' @ p) ''production import present'') non_test)
             ''At least one new repo/service module has a production caller.'']
        else []))"

section \<open>Deployment\<close>

definition deployment_path_re :: rx where
  "deployment_path_re = rx_alts
     [Cat Bos (rx_ilit ''migrations/''), rx_ilit ''install.sh'', rx_ilit ''sudoers'', Cat (rx_ilit ''.service'') End,
      rx_ilit ''dockerfile'', rx_ilit ''docker-compose'', Cat (rx_ilit ''.toml'') End, rx_ilit ''deploy'']"

definition migration_file_re :: rx where
  "migration_file_re = rx_cats [Bos, rx_lit ''migrations/versions/'', rx_plus rx_dot, rx_lit ''.py'', End]"

definition deployment_gate :: "gate_env \<Rightarrow> item_verdict list result" where
  "deployment_gate e = rbind (ge_changed e ''deployment_gate'') (\<lambda>changed.
     let deploy_files = filter (rx_found deployment_path_re) changed;
         migrations = filter (rx_match_start migration_file_re) changed
     in Inr
       (if deploy_files = [] then []
        else if migrations \<noteq> [] then
          [item_of ''deployment:artifacts'' CONFIRMED
             (map (\<lambda>p. ref_note (''migration:'' @ p) ''migration file present'') migrations)
             ''A migration file is present for the schema/deployment change.'']
        else
          [item_of ''deployment:artifacts'' INDETERMINATE
             (map (\<lambda>p. ref_note (''deploy:'' @ p) ''deployment-critical file changed; artifact check deferred'') deploy_files)
             ''A deployment-critical path changed; first-cut gate cannot mechanically confirm the paired artifact. Defer to reviewer.'']))"

section \<open>Silently swallowed errors\<close>

definition empty_except_re :: rx where
  "empty_except_re = rx_cats
     [rx_lit ''except'', WordB, Star (Sat (\<lambda>c. c \<noteq> CHR 0x0A)), rx_lit '':'', Star rx_space, rx_lit [CHR 0x0A], Star rx_space,
      rx_alts [rx_lit ''pass'', rx_lit ''...'',
        rx_cats [Star (Sat (\<lambda>c. c = CHR '' '' \<or> c = CHR 0x09)), rx_lit [CHR 0x0A], Star rx_space,
          Ahead (rx_alts [rx_lit ''except'', rx_lit ''finally'', rx_lit ''def'', rx_lit ''class'', Eos])]]]"

definition swallows_errors :: "gate_env \<Rightarrow> string \<Rightarrow> bool" where
  "swallows_errors e p \<longleftrightarrow> (let content = default_reader e p in content \<noteq> [] \<and> rx_found empty_except_re content)"

definition regression_gate :: "gate_env \<Rightarrow> item_verdict list result" where
  "regression_gate e = rbind (ge_changed e ''regression_gate'') (\<lambda>changed.
     let offending = filter (swallows_errors e) (security_files changed)
     in Inr
       (if offending \<noteq> [] then
          [item_of (''regression:'' @ strip_ext (hd offending)) REJECTED
             [ref_note (''file:'' @ hd offending) (''empty/pass except body in security path '' @ hd offending)]
             ''A security/data-loss file has an except body that is just pass/.../empty (silent error swallowing).'']
        else []))"

section \<open>All gates\<close>

definition mechanical_gates :: "(string \<times> (gate_env \<Rightarrow> item_verdict list result)) list" where
  "mechanical_gates =
     [(''negative_test_gate'', negative_test_gate), (''call_chain_gate'', call_chain_gate),
      (''deployment_gate'', deployment_gate), (''regression_gate'', regression_gate)]"

definition gate_failure :: "gate_env \<Rightarrow> string \<Rightarrow> pyexn \<Rightarrow> item_verdict" where
  "gate_failure e name exc =
     \<lparr>iv_item = ''gate:'' @ name, iv_verdict = INDETERMINATE,
      iv_evidence = [ref_note ''error'' (''gate raised: '' @ ge_repr e exc)],
      iv_rationale = ''Mechanical gate failed to run; defaulting to indeterminate.'', iv_retryable = True\<rparr>"

definition gate_verdicts :: "gate_env \<Rightarrow> string \<times> (gate_env \<Rightarrow> item_verdict list result) \<Rightarrow> item_verdict list" where
  "gate_verdicts e g = (case snd g e of Inr vs \<Rightarrow> vs | Inl exc \<Rightarrow> [gate_failure e (fst g) exc])"

definition run_mechanical_gates :: "gate_env \<Rightarrow> item_verdict list" where
  "run_mechanical_gates e = concat (map (gate_verdicts e) mechanical_gates)"

section \<open>The scope gate\<close>

text \<open>
  \<open>fnmatch.fnmatch\<close> as POSIX Python does it: \<open>*\<close>, \<open>?\<close>, and bracket expressions with \<open>!\<close> and
  ranges; an unclosed bracket is literal and a range whose ends are in the wrong order is empty.
\<close>

datatype glob_token = GStar | GAny | GLit char | GSet bool "(char \<times> char) list"

text \<open>The members of a bracket expression: pairs of ends, a single character being both.\<close>

fun glob_members :: "string \<Rightarrow> (char \<times> char) list" where
  "glob_members (a # m # b # cs) =
     (if m = CHR ''-'' then (a, b) # glob_members cs else (a, a) # glob_members (m # b # cs))"
| "glob_members [a, m] = [(a, a), (m, m)]"
| "glob_members [a] = [(a, a)]"
| "glob_members [] = []"

text \<open>The text of a bracket expression after \<open>[\<close> and what follows its closing bracket.\<close>

definition glob_bracket :: "string \<Rightarrow> (bool \<times> string \<times> string) option" where
  "glob_bracket s =
     (let neg = (s \<noteq> [] \<and> hd s = CHR ''!'');
          body = (if neg then tl s else s);
          lead = (if body \<noteq> [] \<and> hd body = CHR '']'' then 1 else 0);
          inner = takeWhile (\<lambda>c. c \<noteq> CHR '']'') (drop lead body);
          rest = dropWhile (\<lambda>c. c \<noteq> CHR '']'') (drop lead body)
      in if rest = [] then None else Some (neg, take lead body @ inner, tl rest))"

lemma glob_bracket_shorter: "glob_bracket s = Some (neg, body, rest) \<Longrightarrow> length rest < length s"
proof -
  assume a: "glob_bracket s = Some (neg, body, rest)"
  define b where "b = (if s \<noteq> [] \<and> hd s = CHR ''!'' then tl s else s)"
  define t where "t = dropWhile (\<lambda>c. c \<noteq> CHR '']'') (drop (if b \<noteq> [] \<and> hd b = CHR '']'' then 1 else 0) b)"
  have "\<exists>n i. glob_bracket s = (if t = [] then None else Some (n, i, tl t))"
    unfolding glob_bracket_def t_def b_def Let_def by blast
  then have "rest = tl t" "t \<noteq> []" using a by (auto split: if_splits)
  moreover have "length t \<le> length b" unfolding t_def
    by (rule order_trans [OF length_dropWhile_le]) simp
  moreover have "length b \<le> length s" by (simp add: b_def)
  ultimately show ?thesis by (cases t) auto
qed

function glob_tokens :: "string \<Rightarrow> glob_token list" where
  "glob_tokens [] = []"
| "glob_tokens (c # cs) =
     (if c = CHR ''*'' then GStar # glob_tokens cs
      else if c = CHR ''?'' then GAny # glob_tokens cs
      else if c = CHR ''['' then
        (case glob_bracket cs of
           None \<Rightarrow> GLit c # glob_tokens cs
         | Some (neg, body, rest) \<Rightarrow> GSet neg (glob_members body) # glob_tokens rest)
      else GLit c # glob_tokens cs)"
  by pat_completeness auto
termination
  by (relation "measure length") (simp_all, metis glob_bracket_shorter less_SucI)

declare glob_tokens.simps [simp del]

fun token_accepts :: "glob_token \<Rightarrow> char \<Rightarrow> bool" where
  "token_accepts GStar c \<longleftrightarrow> True"
| "token_accepts GAny c \<longleftrightarrow> True"
| "token_accepts (GLit d) c \<longleftrightarrow> c = d"
| "token_accepts (GSet neg ms) c \<longleftrightarrow> (neg \<noteq> list_ex (\<lambda>(a, b). a \<le> c \<and> c \<le> b) ms)"

fun glob_go :: "glob_token list \<Rightarrow> string \<Rightarrow> bool" where
  "glob_go [] s \<longleftrightarrow> s = []"
| "glob_go (GStar # ts) [] \<longleftrightarrow> glob_go ts []"
| "glob_go (GStar # ts) (c # cs) \<longleftrightarrow> glob_go ts (c # cs) \<or> glob_go (GStar # ts) cs"
| "glob_go (t # ts) [] \<longleftrightarrow> False"
| "glob_go (t # ts) (c # cs) \<longleftrightarrow> token_accepts t c \<and> glob_go ts cs"

definition fnmatch :: "string \<Rightarrow> string \<Rightarrow> bool" where
  "fnmatch name pattern \<longleftrightarrow> glob_go (glob_tokens pattern) name"

definition glob_matches :: "string \<Rightarrow> string list \<Rightarrow> string option" where
  "glob_matches pattern paths = List.find (\<lambda>p. fnmatch p pattern \<or> p = pattern) paths"

definition glob_meta_chars :: string where
  "glob_meta_chars = ''*?[]{}''"

definition is_literal_path :: "string \<Rightarrow> bool" where
  "is_literal_path path \<longleftrightarrow> list_all (\<lambda>c. c \<notin> set glob_meta_chars) path"

text \<open>A probe that could not be run: the attempt is inconclusive and may be retried.\<close>

definition scope_failure :: "string \<Rightarrow> string \<Rightarrow> string \<Rightarrow> string \<Rightarrow> item_verdict" where
  "scope_failure item ref note rationale =
     \<lparr>iv_item = item, iv_verdict = INDETERMINATE, iv_evidence = [ref_note ref note],
      iv_rationale = rationale, iv_retryable = True\<rparr>"

definition scope_confirmed :: "string \<Rightarrow> string \<Rightarrow> item_verdict" where
  "scope_confirmed path hit =
     item_of path CONFIRMED [ref_note (''git-diff:'' @ hit) ''required path present in merge''] []"

definition scope_lost :: "string \<Rightarrow> item_verdict" where
  "scope_lost path = item_of path REJECTED
     [ref_note (''lost:'' @ path) ''path modified within the merge range but absent from the final cumulative diff'']
     ''The merge range contains commits touching this required path, yet the cumulative diff does not - the change was likely lost during conflict resolution.''"

definition scope_missing :: "string \<Rightarrow> item_verdict" where
  "scope_missing path = item_of path REJECTED
     [ref_note (''missing:'' @ path) ''required path absent from base..merge diff'']
     ''Issue scope requires this path; it was not changed on the merged branch.''"

definition scope_advisory :: "string \<Rightarrow> json" where
  "scope_advisory path = JObj
     [(''item'', JStr path), (''verdict'', JStr ''advisory''),
      (''evidence'', JList [ref_note (''untouched:'' @ path) ''path absent from base..merge diff and never touched in range'']),
      (''rationale'', JStr ''LLM-extracted scope listed this path, but no commit in the merge range touched it; not counted against the verdict.'')]"

text \<open>The loop over the required paths, with the verdicts and the advisory entries collected so far.\<close>

fun scope_loop ::
    "gate_env \<Rightarrow> string list \<Rightarrow> string \<Rightarrow> item_verdict list \<Rightarrow> json list \<Rightarrow> string list \<Rightarrow> item_verdict list \<times> json list" where
  "scope_loop e changed source verdicts advisory [] = (verdicts, advisory)"
| "scope_loop e changed source verdicts advisory (path # paths) =
     (case glob_matches path changed of
        Some hit \<Rightarrow> scope_loop e changed source (verdicts @ [scope_confirmed path hit]) advisory paths
      | None \<Rightarrow>
          (case (if is_literal_path path then ge_touched e path else Inr False) of
             Inl exc \<Rightarrow>
               ([scope_failure path ''git-log:error'' (''scope history probe failed: '' @ ge_repr e exc)
                   ''Required-path history could not be read; verification must pause.''], [])
           | Inr touched \<Rightarrow>
               if touched then scope_loop e changed source (verdicts @ [scope_lost path]) advisory paths
               else if source = ''convention'' then scope_loop e changed source (verdicts @ [scope_missing path]) advisory paths
               else scope_loop e changed source verdicts (advisory @ [scope_advisory path]) paths))"

definition run_scope_gate :: "gate_env \<Rightarrow> string list \<Rightarrow> string \<Rightarrow> item_verdict list \<times> json list" where
  "run_scope_gate e required_paths source =
     (case ge_changed e ''scope'' of
        Inl exc \<Rightarrow>
          ([scope_failure ''scope:changed-files'' ''git-diff:error'' (''scope diff failed: '' @ ge_repr e exc)
              ''Required-path scope could not be read; verification must pause.''], [])
      | Inr changed \<Rightarrow> scope_loop e changed source [] [] required_paths)"

section \<open>Lemmas on the gates\<close>

lemma run_mechanical_gates_unfold:
  "run_mechanical_gates e = gate_verdicts e (''negative_test_gate'', negative_test_gate) @
     gate_verdicts e (''call_chain_gate'', call_chain_gate) @
     gate_verdicts e (''deployment_gate'', deployment_gate) @ gate_verdicts e (''regression_gate'', regression_gate)"
  by (simp add: run_mechanical_gates_def mechanical_gates_def)

lemma gate_verdicts_cases:
  assumes "v \<in> set (gate_verdicts e (n, g))"
  obtains exc where "g e = Inl exc" "v = gate_failure e n exc"
    | vs where "g e = Inr vs" "v \<in> set vs"
  using assms by (auto simp: gate_verdicts_def split: sum.splits)

lemma gate_failure_simps [simp]:
  "iv_item (gate_failure e n exc) = ''gate:'' @ n" "iv_verdict (gate_failure e n exc) = INDETERMINATE"
  "iv_retryable (gate_failure e n exc)"
  by (simp_all add: gate_failure_def)

text \<open>What each gate can answer when it does not raise.\<close>

lemma negative_test_gate_Inr:
  assumes "negative_test_gate e = Inr vs"
  obtains changed where "ge_changed e ''negative_test_gate'' = Inr changed"
    "vs = [] \<or> (\<exists>v. vs = [v] \<and> \<not> iv_retryable v \<and>
       (iv_verdict v = CONFIRMED \<and>
          (\<exists>sec\<in>set (security_files changed). negatively_tested e (filter is_changed_test changed) sec) \<or>
        iv_verdict v = REJECTED \<and> security_files changed \<noteq> [] \<and>
          (\<forall>sec\<in>set (security_files changed). \<not> negatively_tested e (filter is_changed_test changed) sec)))"
proof -
  from assms obtain changed where c: "ge_changed e ''negative_test_gate'' = Inr changed"
      and "vs = [] \<or> (\<exists>i ev r. vs = [item_of i REJECTED ev r] \<and> security_files changed \<noteq> [] \<and>
          \<not> list_ex (negatively_tested e (filter is_changed_test changed)) (security_files changed)) \<or>
        (\<exists>i ev r. vs = [item_of i CONFIRMED ev r] \<and>
          list_ex (negatively_tested e (filter is_changed_test changed)) (security_files changed))"
    by (auto simp: negative_test_gate_def Let_def split: if_splits)
  then show ?thesis by (intro that [OF c]) (auto simp: list_ex_iff)
qed

lemma call_chain_gate_Inr:
  assumes "call_chain_gate e = Inr vs"
  obtains entries where "ge_status e = Inr entries"
    "vs = [] \<or> (\<exists>v. vs = [v] \<and> \<not> iv_retryable v \<and>
       (iv_verdict v = CONFIRMED \<or>
        iv_verdict v = REJECTED \<and> new_modules (status_by_path entries) \<noteq> [] \<and>
          (\<forall>m\<in>set (new_modules (status_by_path entries)).
             \<not> has_prod_caller e (filter (\<lambda>p. \<not> is_changed_test p) (map fst (status_by_path entries))) m)))"
  using assms by (auto simp: call_chain_gate_def Let_def list_ex_iff split: if_splits)

lemma deployment_gate_Inr:
  assumes "deployment_gate e = Inr vs"
  shows "vs = [] \<or> (\<exists>v. vs = [v] \<and> \<not> iv_retryable v \<and> iv_verdict v \<noteq> REJECTED)"
  using assms by (auto simp: deployment_gate_def Let_def split: if_splits)

lemma regression_gate_Inr:
  assumes "regression_gate e = Inr vs"
  obtains changed where "ge_changed e ''regression_gate'' = Inr changed"
    "vs = [] \<or> (\<exists>v. vs = [v] \<and> \<not> iv_retryable v \<and> iv_verdict v = REJECTED \<and>
       (\<exists>p\<in>set (security_files changed). swallows_errors e p))"
proof -
  from assms obtain changed where c: "ge_changed e ''regression_gate'' = Inr changed"
      and "vs = [] \<or> (\<exists>i ev r. vs = [item_of i REJECTED ev r] \<and> filter (swallows_errors e) (security_files changed) \<noteq> [])"
    by (auto simp: regression_gate_def Let_def split: if_splits)
  then show ?thesis by (intro that [OF c]) (auto simp: filter_empty_conv)
qed

lemma gate_verdicts_length:
  assumes "\<And>vs. g e = Inr vs \<Longrightarrow> length vs \<le> 1"
  shows "length (gate_verdicts e (n, g)) \<le> 1"
  using assms by (auto simp: gate_verdicts_def split: sum.splits)

lemma run_mechanical_gates_length: "length (run_mechanical_gates e) \<le> 4"
proof -
  have "length (gate_verdicts e (''negative_test_gate'', negative_test_gate)) \<le> 1"
    by (rule gate_verdicts_length, erule negative_test_gate_Inr) auto
  moreover have "length (gate_verdicts e (''call_chain_gate'', call_chain_gate)) \<le> 1"
    by (rule gate_verdicts_length, erule call_chain_gate_Inr) auto
  moreover have "length (gate_verdicts e (''deployment_gate'', deployment_gate)) \<le> 1"
    by (rule gate_verdicts_length, drule deployment_gate_Inr) auto
  moreover have "length (gate_verdicts e (''regression_gate'', regression_gate)) \<le> 1"
    by (rule gate_verdicts_length, erule regression_gate_Inr) auto
  ultimately show ?thesis by (simp add: run_mechanical_gates_unfold)
qed

definition some_gate_raises :: "gate_env \<Rightarrow> bool" where
  "some_gate_raises e \<longleftrightarrow> (\<exists>x\<in>{''negative_test_gate'', ''deployment_gate'', ''regression_gate''}. \<exists>exc. ge_changed e x = Inl exc) \<or>
     (\<exists>exc. ge_status e = Inl exc)"

lemma gate_raises_conv:
  "negative_test_gate e = Inl exc \<longleftrightarrow> ge_changed e ''negative_test_gate'' = Inl exc"
  "call_chain_gate e = Inl exc \<longleftrightarrow> ge_status e = Inl exc"
  "deployment_gate e = Inl exc \<longleftrightarrow> ge_changed e ''deployment_gate'' = Inl exc"
  "regression_gate e = Inl exc \<longleftrightarrow> ge_changed e ''regression_gate'' = Inl exc"
  by (simp_all add: negative_test_gate_def call_chain_gate_def deployment_gate_def regression_gate_def rbind_Inl_conv Let_def)

lemma gate_retryable_raises:
  assumes "v \<in> set (gate_verdicts e (n, g))" and "iv_retryable v"
    and "\<And>vs. g e = Inr vs \<Longrightarrow> \<forall>v\<in>set vs. \<not> iv_retryable v"
  shows "\<exists>exc. g e = Inl exc \<and> v = gate_failure e n exc"
  using assms(1) by (rule gate_verdicts_cases) (use assms in \<open>auto\<close>)

lemma retryable_gate_raised:
  assumes "v \<in> set (run_mechanical_gates e)" and "iv_retryable v"
  shows "some_gate_raises e"
proof -
  have "(\<exists>exc. negative_test_gate e = Inl exc) \<or> (\<exists>exc. call_chain_gate e = Inl exc) \<or>
      (\<exists>exc. deployment_gate e = Inl exc) \<or> (\<exists>exc. regression_gate e = Inl exc)"
  proof -
    consider "v \<in> set (gate_verdicts e (''negative_test_gate'', negative_test_gate))"
      | "v \<in> set (gate_verdicts e (''call_chain_gate'', call_chain_gate))"
      | "v \<in> set (gate_verdicts e (''deployment_gate'', deployment_gate))"
      | "v \<in> set (gate_verdicts e (''regression_gate'', regression_gate))"
      using assms(1) by (auto simp: run_mechanical_gates_unfold)
    then show ?thesis
    proof cases
      case 1
      from gate_retryable_raises [OF this assms(2)] show ?thesis by (force elim: negative_test_gate_Inr)
    next
      case 2
      from gate_retryable_raises [OF this assms(2)] show ?thesis by (force elim: call_chain_gate_Inr)
    next
      case 3
      from gate_retryable_raises [OF this assms(2)] show ?thesis by (force dest: deployment_gate_Inr)
    next
      case 4
      from gate_retryable_raises [OF this assms(2)] show ?thesis by (force elim: regression_gate_Inr)
    qed
  qed
  then show ?thesis by (auto simp: gate_raises_conv some_gate_raises_def)
qed

lemma raised_gate_retryable: "some_gate_raises e \<Longrightarrow> \<exists>v\<in>set (run_mechanical_gates e). iv_verdict v = INDETERMINATE \<and> iv_retryable v"
  by (force simp: some_gate_raises_def run_mechanical_gates_unfold gate_verdicts_def gate_raises_conv [symmetric])

section \<open>Lemmas on the scope gate\<close>

definition probe_fails :: "gate_env \<Rightarrow> string list \<Rightarrow> string \<Rightarrow> bool" where
  "probe_fails e changed path \<longleftrightarrow>
     glob_matches path changed = None \<and> is_literal_path path \<and> (\<exists>exc. ge_touched e path = Inl exc)"

definition lost_path :: "gate_env \<Rightarrow> string \<Rightarrow> bool" where
  "lost_path e path \<longleftrightarrow> is_literal_path path \<and> ge_touched e path = Inr True"

text \<open>What one path contributes when its probe does not fail.\<close>

definition path_verdicts :: "gate_env \<Rightarrow> string list \<Rightarrow> string \<Rightarrow> string \<Rightarrow> item_verdict list" where
  "path_verdicts e changed source path =
     (case glob_matches path changed of
        Some hit \<Rightarrow> [scope_confirmed path hit]
      | None \<Rightarrow> if lost_path e path then [scope_lost path]
                else if source = ''convention'' then [scope_missing path] else [])"

definition path_advisory :: "gate_env \<Rightarrow> string list \<Rightarrow> string \<Rightarrow> string \<Rightarrow> json list" where
  "path_advisory e changed source path =
     (if glob_matches path changed = None \<and> \<not> lost_path e path \<and> source \<noteq> ''convention''
      then [scope_advisory path] else [])"

lemma scope_failure_inject [simp]:
  "scope_failure i r n t = scope_failure i' r' n' t' \<longleftrightarrow> i = i' \<and> r = r' \<and> n = n' \<and> t = t'"
  by (auto simp: scope_failure_def ref_note_def)

lemma scope_loop_ok:
  "(\<forall>p\<in>set paths. \<not> probe_fails e changed p) \<Longrightarrow>
   scope_loop e changed source vs ad paths =
     (vs @ concat (map (path_verdicts e changed source) paths), ad @ concat (map (path_advisory e changed source) paths))"
proof (induction paths arbitrary: vs ad)
  case (Cons p paths)
  then have "\<not> probe_fails e changed p" by simp
  with Cons show ?case
    by (cases "ge_touched e p")
      (auto simp: probe_fails_def lost_path_def path_verdicts_def path_advisory_def split: option.splits)
qed simp

lemma scope_loop_fails:
  "(\<exists>p\<in>set paths. probe_fails e changed p) \<Longrightarrow>
   \<exists>p n r. p \<in> set paths \<and> scope_loop e changed source vs ad paths = ([scope_failure p ''git-log:error'' n r], [])"
proof (induction paths arbitrary: vs ad)
  case (Cons p paths)
  show ?case
  proof (cases "probe_fails e changed p")
    case True
    then show ?thesis by (auto simp: probe_fails_def)
  next
    case False
    with Cons.prems have "\<exists>p\<in>set paths. probe_fails e changed p" by auto
    then have ih: "\<exists>p' n r. p' \<in> set paths \<and>
        scope_loop e changed source vs' ad' paths = ([scope_failure p' ''git-log:error'' n r], [])" for vs' ad'
      by (rule Cons.IH)
    have "\<exists>vs' ad'. scope_loop e changed source vs ad (p # paths) = scope_loop e changed source vs' ad' paths"
      using False by (cases "ge_touched e p") (auto simp: probe_fails_def split: option.splits)
    with ih show ?thesis by fastforce
  qed
qed simp

lemma scope_item_verdicts [simp]:
  "iv_verdict (scope_confirmed p h) = CONFIRMED" "iv_verdict (scope_lost p) = REJECTED"
  "iv_verdict (scope_missing p) = REJECTED" "iv_verdict (scope_failure i r n t) = INDETERMINATE"
  "iv_retryable (scope_failure i r n t)" "\<not> iv_retryable (scope_confirmed p h)" "\<not> iv_retryable (scope_lost p)"
  "\<not> iv_retryable (scope_missing p)" "iv_item (scope_confirmed p h) = p" "iv_item (scope_lost p) = p"
  "iv_item (scope_missing p) = p"
  by (simp_all add: scope_confirmed_def scope_lost_def scope_missing_def scope_failure_def)

text \<open>Whether the paths can be judged at all.\<close>

definition scope_readable :: "gate_env \<Rightarrow> string list \<Rightarrow> string list \<Rightarrow> bool" where
  "scope_readable e paths changed \<longleftrightarrow>
     ge_changed e ''scope'' = Inr changed \<and> (\<forall>p\<in>set paths. \<not> probe_fails e changed p)"

lemma run_scope_gate_readable:
  "scope_readable e paths changed \<Longrightarrow>
   run_scope_gate e paths source =
     (concat (map (path_verdicts e changed source) paths), concat (map (path_advisory e changed source) paths))"
  by (simp add: run_scope_gate_def scope_readable_def scope_loop_ok)

lemma run_scope_gate_unreadable:
  assumes "\<nexists>changed. scope_readable e paths changed"
  shows "\<exists>v. run_scope_gate e paths source = ([v], []) \<and> iv_verdict v = INDETERMINATE \<and> iv_retryable v"
proof (cases "ge_changed e ''scope''")
  case (Inl exc)
  then show ?thesis by (simp add: run_scope_gate_def)
next
  case (Inr changed)
  with assms have "\<exists>p\<in>set paths. probe_fails e changed p" by (auto simp: scope_readable_def)
  from scope_loop_fails [OF this, of source "[]" "[]"] obtain p n r where
    "scope_loop e changed source [] [] paths = ([scope_failure p ''git-log:error'' n r], [])" by auto
  with Inr show ?thesis by (simp add: run_scope_gate_def)
qed

lemma glob_matches_hit: "(\<exists>h. glob_matches p paths = Some h) \<longleftrightarrow> (\<exists>c\<in>set paths. fnmatch c p \<or> c = p)"
  unfolding glob_matches_def using find_None_iff [of "\<lambda>c. fnmatch c p \<or> c = p" paths] by auto

lemma scope_retryable_iff:
  "(\<exists>v\<in>set (fst (run_scope_gate e paths source)). iv_retryable v) \<longleftrightarrow> (\<nexists>changed. scope_readable e paths changed)"
proof (cases "\<exists>changed. scope_readable e paths changed")
  case True
  then obtain changed where "scope_readable e paths changed" ..
  with True show ?thesis
    by (auto simp: run_scope_gate_readable path_verdicts_def split: option.splits if_splits)
next
  case False
  with run_scope_gate_unreadable [OF False, of source] show ?thesis by auto
qed

lemma scope_no_objection:
  assumes "\<forall>v\<in>set (fst (run_scope_gate e paths source)). iv_verdict v = CONFIRMED" and "p \<in> set paths"
  shows "\<exists>changed. ge_changed e ''scope'' = Inr changed \<and>
     ((\<exists>c\<in>set changed. fnmatch c p \<or> c = p) \<or> source \<noteq> ''convention'' \<and> \<not> lost_path e p)"
proof -
  obtain changed where ok: "scope_readable e paths changed"
    using assms(1) run_scope_gate_unreadable [of e paths source] by fastforce
  then have "set (path_verdicts e changed source p) \<subseteq> set (fst (run_scope_gate e paths source))"
    using assms(2) by (auto simp: run_scope_gate_readable)
  with assms(1) have "\<forall>v\<in>set (path_verdicts e changed source p). iv_verdict v = CONFIRMED" by blast
  then have "(\<exists>h. glob_matches p changed = Some h) \<or> source \<noteq> ''convention'' \<and> \<not> lost_path e p"
    by (auto simp: path_verdicts_def split: option.splits if_splits)
  with ok show ?thesis unfolding glob_matches_hit by (auto simp: scope_readable_def)
qed

lemma glob_tokens_literal: "is_literal_path p \<Longrightarrow> glob_tokens p = map GLit p"
proof (induction p)
  case (Cons c cs)
  then have "c \<noteq> CHR ''*''" "c \<noteq> CHR ''?''" "c \<noteq> CHR ''[''" and "is_literal_path cs"
    by (auto simp: is_literal_path_def glob_meta_chars_def)
  with Cons.IH show ?case by (simp add: glob_tokens.simps)
qed (simp add: glob_tokens.simps)

lemma glob_go_literal: "glob_go (map GLit p) s \<longleftrightarrow> s = p"
proof (induction p arbitrary: s)
  case (Cons c p)
  then show ?case by (cases s) auto
qed simp

lemma fnmatch_literal: "is_literal_path p \<Longrightarrow> fnmatch s p \<longleftrightarrow> s = p"
  by (simp add: fnmatch_def glob_tokens_literal glob_go_literal)

section \<open>Properties\<close>

text \<open>which condition of the code a rejection rests on: for every changed security file no changed test was read
  that names it and asserts, for every new module no changed file was read that imports it, or a
  changed security file was read to swallow an error; the deployment gate never rejects. A file git does
  not show counts as read and empty.\<close>
theorem gate_rejections_justified:
  assumes "v \<in> set (run_mechanical_gates e)" and "iv_verdict v = REJECTED"
  shows "(\<exists>changed. ge_changed e ''negative_test_gate'' = Inr changed \<and> security_files changed \<noteq> [] \<and>
       (\<forall>sec\<in>set (security_files changed). \<not> negatively_tested e (filter is_changed_test changed) sec)) \<or>
     (\<exists>entries. ge_status e = Inr entries \<and> new_modules (status_by_path entries) \<noteq> [] \<and>
       (\<forall>m\<in>set (new_modules (status_by_path entries)).
          \<not> has_prod_caller e (filter (\<lambda>p. \<not> is_changed_test p) (map fst (status_by_path entries))) m)) \<or>
     (\<exists>changed p. ge_changed e ''regression_gate'' = Inr changed \<and> p \<in> set (security_files changed) \<and> swallows_errors e p)"
proof -
  consider "v \<in> set (gate_verdicts e (''negative_test_gate'', negative_test_gate))"
    | "v \<in> set (gate_verdicts e (''call_chain_gate'', call_chain_gate))"
    | "v \<in> set (gate_verdicts e (''deployment_gate'', deployment_gate))"
    | "v \<in> set (gate_verdicts e (''regression_gate'', regression_gate))"
    using assms(1) by (auto simp: run_mechanical_gates_unfold)
  then show ?thesis
  proof cases
    case 1
    then show ?thesis by (rule gate_verdicts_cases) (use assms(2) in \<open>auto elim!: negative_test_gate_Inr\<close>)
  next
    case 2
    then show ?thesis by (rule gate_verdicts_cases) (use assms(2) in \<open>auto elim!: call_chain_gate_Inr\<close>)
  next
    case 3
    then show ?thesis by (rule gate_verdicts_cases) (use assms(2) in \<open>auto dest: deployment_gate_Inr\<close>)
  next
    case 4
    then show ?thesis by (rule gate_verdicts_cases) (use assms(2) in \<open>auto elim!: regression_gate_Inr\<close>)
  qed
qed

text \<open>Of the changed tests, no text can be read.\<close>

definition tests_unread :: "gate_env \<Rightarrow> string list \<Rightarrow> bool" where
  "tests_unread e changed \<longleftrightarrow> (\<forall>p\<in>set changed. is_changed_test p \<longrightarrow> default_reader e p = [])"

text \<open>a merge that changes a security file is rejected for good when git does not show the text of the changed
  tests, whatever they test: an unreadable file is not told from an empty one.\<close>
theorem unread_tests_reject:
  assumes "ge_changed e ''negative_test_gate'' = Inr changed" and "security_files changed \<noteq> []" and "tests_unread e changed"
  shows "(\<exists>v\<in>set (run_mechanical_gates e). iv_verdict v = REJECTED \<and> \<not> iv_retryable v) \<and>
    aggregate_verdicts (before @ run_mechanical_gates e @ after) = ''rejected''"
proof -
  have none: "\<not> negatively_tested e (filter is_changed_test changed) sec" for sec
    using assms(3) by (auto simp: negatively_tested_def tests_unread_def list_ex_iff py_lower_def Let_def)
  obtain sec secs where "security_files changed = sec # secs" using assms(2) by (cases "security_files changed") auto
  then obtain i ev r where "negative_test_gate e = Inr [item_of i REJECTED ev r]"
    using assms(1) none by (simp add: negative_test_gate_def Let_def list_ex_iff)
  then have "item_of i REJECTED ev r \<in> set (run_mechanical_gates e)" by (simp add: run_mechanical_gates_unfold gate_verdicts_def)
  then have "\<exists>v\<in>set (run_mechanical_gates e). iv_verdict v = REJECTED \<and> \<not> iv_retryable v" by (intro bexI) simp_all
  then show ?thesis unfolding aggregate_rejected_iff by auto
qed

definition merge_of :: "(string \<times> string) list \<Rightarrow> gate_env" where
  "merge_of contents = \<lparr>ge_changed = (\<lambda>_. Inr (map fst contents)),
     ge_status = Inr (map (\<lambda>pc. (''M'', fst pc)) contents), ge_touched = (\<lambda>_. Inr False),
     ge_show = (\<lambda>p. Inr (map_of contents p)), ge_repr = (\<lambda>_. ''boom'')\<rparr>"

definition untested_auth :: gate_env where
  "untested_auth = merge_of [(''app/auth.py'', ''x = 1'')]"

lemma auth_files: "security_files [''app/auth.py''] = [''app/auth.py'']" "\<not> is_changed_test ''app/auth.py''"
  by code_simp+

theorem unread_tests_reject_witness:
  "aggregate_verdicts (run_mechanical_gates (untested_auth\<lparr>ge_changed := (\<lambda>_. Inr [''app/auth.py'', ''tests/test_auth.py''])\<rparr>)) = ''rejected''"
proof -
  let ?e = "untested_auth\<lparr>ge_changed := (\<lambda>_. Inr [''app/auth.py'', ''tests/test_auth.py''])\<rparr>"
  have "security_files [''app/auth.py'', ''tests/test_auth.py''] \<noteq> []" by code_simp
  moreover have "tests_unread ?e [''app/auth.py'', ''tests/test_auth.py'']"
    using auth_files(2) by (simp add: tests_unread_def default_reader_def untested_auth_def merge_of_def)
  ultimately show ?thesis using unread_tests_reject [of ?e "[''app/auth.py'', ''tests/test_auth.py'']" "[]" "[]"] by simp
qed

lemma untested_auth_rejected:
  "\<exists>v\<in>set (run_mechanical_gates untested_auth). iv_verdict v = REJECTED"
proof -
  have "ge_changed untested_auth ''negative_test_gate'' = Inr [''app/auth.py'']"
    by (simp add: untested_auth_def merge_of_def)
  then have "\<exists>i ev r. negative_test_gate untested_auth = Inr [item_of i REJECTED ev r]"
    by (simp add: negative_test_gate_def auth_files negatively_tested_def)
  then show ?thesis by (auto simp: run_mechanical_gates_unfold gate_verdicts_def)
qed

theorem gate_rejections_justified_witness:
  "(\<exists>changed. ge_changed untested_auth ''negative_test_gate'' = Inr changed \<and> security_files changed \<noteq> [] \<and>
       (\<forall>sec\<in>set (security_files changed). \<not> negatively_tested untested_auth (filter is_changed_test changed) sec)) \<or>
     (\<exists>entries. ge_status untested_auth = Inr entries \<and> new_modules (status_by_path entries) \<noteq> [] \<and>
       (\<forall>m\<in>set (new_modules (status_by_path entries)).
          \<not> has_prod_caller untested_auth (filter (\<lambda>p. \<not> is_changed_test p) (map fst (status_by_path entries))) m)) \<or>
     (\<exists>changed p. ge_changed untested_auth ''regression_gate'' = Inr changed \<and> p \<in> set (security_files changed) \<and>
        swallows_errors untested_auth p)"
  using untested_auth_rejected by (rule bexE) (rule gate_rejections_justified)

text \<open>one changed security file with a failure-path test is enough: the gate then confirms
  the merge, whatever other security files were changed without a test.\<close>
theorem one_tested_file_confirms:
  assumes "ge_changed e ''negative_test_gate'' = Inr changed" and "sec \<in> set (security_files changed)"
    and "negatively_tested e (filter is_changed_test changed) sec"
  shows "\<exists>v. negative_test_gate e = Inr [v] \<and> iv_verdict v = CONFIRMED \<and> iv_item v = ''negative-test:coverage''"
proof -
  have "list_ex (negatively_tested e (filter is_changed_test changed)) (security_files changed)"
    using assms(2,3) by (auto simp: list_ex_iff)
  moreover have "security_files changed \<noteq> []" using assms(2) by auto
  ultimately show ?thesis using assms(1) by (simp add: negative_test_gate_def)
qed

definition half_tested :: gate_env where
  "half_tested = merge_of [(''app/auth.py'', ''x = 1''), (''app/delete_all.py'', ''y = 2''),
     (''tests/t.py'', ''import auth; assert auth.x'')]"

lemma half_tested_files:
  "security_files [''app/auth.py'', ''app/delete_all.py'', ''tests/t.py''] = [''app/auth.py'', ''app/delete_all.py'']"
  "\<not> is_changed_test ''app/delete_all.py''" "is_changed_test ''tests/t.py''"
  "sec_stem ''app/auth.py'' = ''auth''" "sec_stem ''app/delete_all.py'' = ''delete_all''"
  "rx_found neg_test_assertion_re ''import auth; assert auth.x''"
  "py_contains ''auth'' (py_lower ''import auth; assert auth.x'')"
  "\<not> py_contains ''delete_all'' (py_lower ''import auth; assert auth.x'')"
  by code_simp+

lemma half_tested_reads: "default_reader half_tested ''tests/t.py'' = ''import auth; assert auth.x''"
  by (simp add: default_reader_def half_tested_def merge_of_def)

theorem one_tested_file_confirms_witness:
  "\<not> negatively_tested half_tested [''tests/t.py''] ''app/delete_all.py'' \<and>
   ''app/delete_all.py'' \<in> set (security_files [''app/auth.py'', ''app/delete_all.py'', ''tests/t.py'']) \<and>
   (\<exists>v. negative_test_gate half_tested = Inr [v] \<and> iv_verdict v = CONFIRMED \<and> iv_item v = ''negative-test:coverage'')"
proof (intro conjI)
  show "\<not> negatively_tested half_tested [''tests/t.py''] ''app/delete_all.py''"
    by (simp add: negatively_tested_def half_tested_reads half_tested_files)
  show "''app/delete_all.py'' \<in> set (security_files [''app/auth.py'', ''app/delete_all.py'', ''tests/t.py''])"
    by (simp add: half_tested_files)
  show "\<exists>v. negative_test_gate half_tested = Inr [v] \<and> iv_verdict v = CONFIRMED \<and> iv_item v = ''negative-test:coverage''"
    by (rule one_tested_file_confirms [of _ "[''app/auth.py'', ''app/delete_all.py'', ''tests/t.py'']" "''app/auth.py''"])
      (simp_all only: half_tested_files,
       simp_all add: negatively_tested_def half_tested_reads half_tested_files auth_files, simp_all add: half_tested_def merge_of_def)
qed

text \<open>the gates add at most four verdicts, and one that may be retried comes only from a
  question to git that raised; it is indeterminate and names its gate.\<close>
theorem raising_gate_is_retryable:
  "length (run_mechanical_gates e) \<le> 4 \<and>
   (\<forall>exc. ge_status e = Inl exc \<longrightarrow> gate_failure e ''call_chain_gate'' exc \<in> set (run_mechanical_gates e)) \<and>
   ((\<exists>v\<in>set (run_mechanical_gates e). iv_retryable v) \<longleftrightarrow> some_gate_raises e)"
proof -
  have "gate_failure e ''call_chain_gate'' exc \<in> set (run_mechanical_gates e)" if "ge_status e = Inl exc" for exc
    using that by (simp add: run_mechanical_gates_unfold gate_verdicts_def gate_raises_conv [symmetric])
  then show ?thesis using retryable_gate_raised raised_gate_retryable run_mechanical_gates_length by blast
qed

definition no_status :: gate_env where
  "no_status = (merge_of [])\<lparr>ge_status := Inl OSError\<rparr>"

theorem raising_gate_is_retryable_witness:
  "gate_failure no_status ''call_chain_gate'' OSError \<in> set (run_mechanical_gates no_status)"
  using raising_gate_is_retryable [of no_status] by (simp add: no_status_def)

text \<open>when every verdict of the scope gate is a confirmation, every required path of a
  convention snapshot was changed by the merge, literally or as a glob; a path of an extracted
  snapshot may instead be one no commit of the range touched.\<close>
theorem confirmed_scope_was_changed:
  assumes "\<forall>v\<in>set (fst (run_scope_gate e paths source)). iv_verdict v = CONFIRMED" and "p \<in> set paths"
  shows "\<exists>changed. ge_changed e ''scope'' = Inr changed \<and>
     (if source = ''convention'' then \<exists>c\<in>set changed. fnmatch c p \<or> c = p
      else (\<exists>c\<in>set changed. fnmatch c p \<or> c = p) \<or> \<not> is_literal_path p \<or> ge_touched e p \<noteq> Inr True)"
  using scope_no_objection [OF assms] by (auto simp: lost_path_def)

lemma app_glob: "glob_matches ''app/*.py'' [''app/a.py''] = Some ''app/a.py''"
  by code_simp

theorem confirmed_scope_was_changed_witness:
  "\<exists>changed. ge_changed (merge_of [(''app/a.py'', [])]) ''scope'' = Inr changed \<and>
     (\<exists>c\<in>set changed. fnmatch c ''app/*.py'' \<or> c = ''app/*.py'')"
proof -
  have "\<forall>v\<in>set (fst (run_scope_gate (merge_of [(''app/a.py'', [])]) [''app/*.py''] ''convention'')). iv_verdict v = CONFIRMED"
    by (simp add: run_scope_gate_def merge_of_def app_glob)
  from confirmed_scope_was_changed [OF this, of "''app/*.py''"] show ?thesis by simp
qed

text \<open>the scope gate judges every path on its own, in the order required, when git answers;
  one path git could not be asked about makes the whole scope a single indeterminate verdict that
  may be retried, and what was found for the other paths is dropped.\<close>
theorem scope_gate_exact:
  "(\<forall>changed. scope_readable e paths changed \<longrightarrow>
      run_scope_gate e paths source =
        (concat (map (path_verdicts e changed source) paths), concat (map (path_advisory e changed source) paths)) \<and>
      (\<forall>v\<in>set (fst (run_scope_gate e paths source)). \<not> iv_retryable v)) \<and>
   ((\<nexists>changed. scope_readable e paths changed) \<longrightarrow>
      (\<exists>v. run_scope_gate e paths source = ([v], []) \<and> iv_verdict v = INDETERMINATE \<and> iv_retryable v))"
  using run_scope_gate_readable [of e paths _ source] run_scope_gate_unreadable [of e paths source]
    scope_retryable_iff [of e paths source] by blast

definition unprobed :: gate_env where
  "unprobed = (merge_of [(''a'', [])])\<lparr>ge_touched := (\<lambda>_. Inl OSError)\<rparr>"

theorem scope_gate_exact_witness:
  "(\<exists>v. run_scope_gate unprobed [''a'', ''b''] ''convention'' = ([v], []) \<and> iv_verdict v = INDETERMINATE \<and> iv_retryable v)"
proof -
  have "glob_matches ''b'' [''a''] = None" "is_literal_path ''b''" by code_simp+
  then have "\<nexists>changed. scope_readable unprobed [''a'', ''b''] changed"
    by (auto simp: unprobed_def merge_of_def scope_readable_def probe_fails_def)
  with scope_gate_exact [of unprobed "[''a'', ''b'']" "''convention''"] show ?thesis by blast
qed

end
