(* ===== verification/Acceptance_Items.thy ===== *)
theory Acceptance_Items
  imports Complex_Main Acceptance_Gates
begin

text \<open>
  How the verdicts of the verification agent are matched with the checklist of an issue
  (\<^verbatim>\<open>modules/workspace/autonomous/phases/acceptance_verification.py\<close>): the normal form of an item,
  the conservative similarity of two items, and the extension of the verdicts to every item of the
  checklist. The similarity is defined on Unicode code points, since Chinese text is cut into
  bigrams; the table of \<open>casefold\<close> is the parameter \<open>cf\<close>. A similarity is a quotient of token
  weights; rationals stand for Python's floats, which order such quotients and compare them with
  0.8 in the same way for items below \<open>2 ^ 24\<close> tokens.
\<close>

type_synonym utext = "int list"

definition ucode :: "string \<Rightarrow> utext" where
  "ucode s = map of_char s"

section \<open>Normal form\<close>

definition uni_space :: "int \<Rightarrow> bool" where
  "uni_space c \<longleftrightarrow> 9 \<le> c \<and> c \<le> 13 \<or> 28 \<le> c \<and> c \<le> 32 \<or> c \<in> {133, 160, 5760, 8232, 8233, 8239, 8287, 12288} \<or>
     8192 \<le> c \<and> c \<le> 8202"

fun uni_split_acc :: "utext \<Rightarrow> utext \<Rightarrow> utext list" where
  "uni_split_acc acc [] = (if acc = [] then [] else [rev acc])"
| "uni_split_acc acc (c # cs) =
     (if uni_space c then (if acc = [] then [] else [rev acc]) @ uni_split_acc [] cs
      else uni_split_acc (c # acc) cs)"

definition uni_split :: "utext \<Rightarrow> utext list" where
  "uni_split s = uni_split_acc [] s"

fun uni_join :: "utext list \<Rightarrow> utext" where
  "uni_join [] = []"
| "uni_join [x] = x"
| "uni_join (x # xs) = x @ 32 # uni_join xs"

definition normalized_item :: "(int \<Rightarrow> utext) \<Rightarrow> utext \<Rightarrow> utext" where
  "normalized_item cf value = concat (map cf (uni_join (uni_split value)))"

section \<open>Similarity\<close>

definition is_cjk :: "int \<Rightarrow> bool" where
  "is_cjk c \<longleftrightarrow> 0x3400 \<le> c \<and> c \<le> 0x4DBF \<or> 0x4E00 \<le> c \<and> c \<le> 0x9FFF"

definition negation_marker_tokens :: "utext list" where
  "negation_marker_tokens = map ucode [''not'', ''no'', ''never'', ''without'']"

definition cjk_negation_heads :: "int list" where
  "cjk_negation_heads = [0x4E0D, 0x672A, 0x65E0, 0x975E, 0x83AB, 0x52FF, 0x6CA1]"

definition strip_marks :: "utext \<Rightarrow> utext" where
  "strip_marks t = (let marks = [46, 44, 59, 58, 33, 63, 40, 41, 91, 93, 34, 39]
     in rev (dropWhile (\<lambda>c. c \<in> set marks) (rev (dropWhile (\<lambda>c. c \<in> set marks) t))))"

definition negation_marker :: "utext \<Rightarrow> utext option" where
  "negation_marker token =
     (let word = strip_marks token in
      if word = [] then None
      else if word = ucode ''cannot'' \<or> take 3 (rev word) = rev (ucode [CHR ''n'', sq, CHR ''t'']) then Some (ucode ''not'')
      else if word \<in> set negation_marker_tokens then Some word
      else if hd word \<in> set cjk_negation_heads then Some [hd word]
      else None)"

definition negation_markers :: "utext list \<Rightarrow> utext set" where
  "negation_markers tokens = set (List.map_filter negation_marker tokens)"

definition contains_token_subsequence :: "utext list \<Rightarrow> utext list \<Rightarrow> bool" where
  "contains_token_subsequence haystack needle \<longleftrightarrow>
     needle \<noteq> [] \<and> length needle \<le> length haystack \<and>
     list_ex (\<lambda>i. take (length needle) (drop i haystack) = needle) [0..<length haystack - length needle + 1]"

fun bigrams :: "utext \<Rightarrow> utext list" where
  "bigrams [] = []"
| "bigrams [c] = [[c]]"
| "bigrams [c, d] = [[c, d]]"
| "bigrams (c # d # e # cs) = [c, d] # bigrams (d # e # cs)"

lemma cjk_run_shorter:
  assumes "dropWhile (\<lambda>c. \<not> is_cjk c) s \<noteq> []"
  shows "length (dropWhile is_cjk (dropWhile (\<lambda>c. \<not> is_cjk c) s)) < length s"
proof -
  obtain c cs where d: "dropWhile (\<lambda>c. \<not> is_cjk c) s = c # cs" and "is_cjk c"
    using assms by (metis (mono_tags, lifting) dropWhile_eq_Cons_conv list.exhaust)
  have "length (dropWhile is_cjk (dropWhile (\<lambda>c. \<not> is_cjk c) s)) \<le> length cs"
    using d \<open>is_cjk c\<close> by (simp add: length_dropWhile_le)
  also have "length cs < length (dropWhile (\<lambda>c. \<not> is_cjk c) s)" by (simp add: d)
  also have "\<dots> \<le> length s" by (rule length_dropWhile_le)
  finally show ?thesis .
qed

function fuzzy_tokens :: "utext \<Rightarrow> utext list" where
  "fuzzy_tokens s =
     (let seg = takeWhile (\<lambda>c. \<not> is_cjk c) s;
          rest = dropWhile (\<lambda>c. \<not> is_cjk c) s
      in uni_split seg @
         (if rest = [] then [] else bigrams (takeWhile is_cjk rest) @ fuzzy_tokens (dropWhile is_cjk rest)))"
  by pat_completeness auto
termination
  by (relation "measure length") (simp_all add: cjk_run_shorter)

declare fuzzy_tokens.simps [simp del]

definition token_weight :: "utext \<Rightarrow> nat" where
  "token_weight t = (if list_ex is_cjk t then 1 else 2)"

definition weight_of :: "utext list \<Rightarrow> nat" where
  "weight_of ts = sum_list (map token_weight (remdups ts))"

definition weighted_jaccard :: "utext list \<Rightarrow> utext list \<Rightarrow> rat" where
  "weighted_jaccard as bs =
     (if as @ bs = [] then 0 else of_nat (weight_of (filter (\<lambda>t. t \<in> set bs) as)) / of_nat (weight_of (as @ bs)))"

text \<open>The shorter of two token lists, the first one when they are equally long, and the other.\<close>

definition short_long :: "utext list \<Rightarrow> utext list \<Rightarrow> utext list \<times> utext list" where
  "short_long as bs = (if length as \<le> length bs then (as, bs) else (bs, as))"

definition is_elaboration :: "utext list \<Rightarrow> utext list \<Rightarrow> bool" where
  "is_elaboration long short \<longleftrightarrow>
     3 \<le> length short \<and> length long \<le> 2 * length short \<and> contains_token_subsequence long short"

definition items_match_fuzzy :: "(int \<Rightarrow> utext) \<Rightarrow> utext \<Rightarrow> utext \<Rightarrow> rat" where
  "items_match_fuzzy cf a b =
     (let na = normalized_item cf a; nb = normalized_item cf b in
      if na = [] \<or> nb = [] then 0
      else if na = nb then 1
      else let ta = fuzzy_tokens na; tb = fuzzy_tokens nb in
        if ta = [] \<or> tb = [] then 0
        else if negation_markers ta \<noteq> negation_markers tb then 0
        else if is_elaboration (snd (short_long ta tb)) (fst (short_long ta tb)) then 1
        else weighted_jaccard ta tb)"

definition fuzzy_threshold :: rat where
  "fuzzy_threshold = 4 / 5"

section \<open>Covering the checklist\<close>

abbreviation norm_str :: "(int \<Rightarrow> utext) \<Rightarrow> string \<Rightarrow> utext" where
  "norm_str cf s \<equiv> normalized_item cf (ucode s)"

definition covered_items :: "(int \<Rightarrow> utext) \<Rightarrow> item_verdict list \<Rightarrow> utext list" where
  "covered_items cf vs = filter (\<lambda>n. n \<noteq> []) (map (\<lambda>v. norm_str cf (iv_item v)) vs)"

text \<open>The items that need a paraphrase, with their places: not blank, not covered, no duplicates.\<close>

fun open_items :: "(int \<Rightarrow> utext) \<Rightarrow> utext list \<Rightarrow> (nat \<times> string) list \<Rightarrow> (nat \<times> string) list" where
  "open_items cf seen [] = []"
| "open_items cf seen ((i, c) # cs) =
     (if norm_str cf c = [] \<or> norm_str cf c \<in> set seen then open_items cf seen cs
      else (i, c) # open_items cf (norm_str cf c # seen) cs)"

type_synonym candidate = "rat \<times> nat \<times> nat"

definition candidates :: "(int \<Rightarrow> utext) \<Rightarrow> item_verdict list \<Rightarrow> string list \<Rightarrow> candidate list" where
  "candidates cf vs checklist =
     concat (map (\<lambda>(i, c).
         List.map_filter (\<lambda>(j, v).
             let score = items_match_fuzzy cf (ucode c) (ucode (iv_item v))
             in if fuzzy_threshold \<le> score then Some (score, i, j) else None)
           (enumerate 0 vs))
       (open_items cf (covered_items cf vs) (enumerate 0 checklist)))"

text \<open>\<^verbatim>\<open>fuzzy_matched\<close> as pairs of the place of an item and the place of its verdict.\<close>

fun assign_matches :: "(nat \<times> nat) list \<Rightarrow> candidate list \<Rightarrow> (nat \<times> nat) list" where
  "assign_matches m [] = m"
| "assign_matches m ((score, i, j) # cs) =
     (if i \<in> fst ` set m \<or> j \<in> snd ` set m then assign_matches m cs else assign_matches (m @ [(i, j)]) cs)"

definition fuzzy_matched :: "(int \<Rightarrow> utext) \<Rightarrow> item_verdict list \<Rightarrow> string list \<Rightarrow> (nat \<times> nat) list" where
  "fuzzy_matched cf vs checklist = assign_matches [] (sort_key (\<lambda>e. - fst e) (candidates cf vs checklist))"

definition uncovered_item :: "string \<Rightarrow> item_verdict" where
  "uncovered_item c = item_of c INDETERMINATE
     [ref_note ''verifier:missing-item'' ''The verifier returned no verdict for this acceptance item.'']
     ''The verifier did not cover this checklist item; no acceptance decision was made for it.''"

definition paraphrased_item :: "string \<Rightarrow> item_verdict \<Rightarrow> item_verdict" where
  "paraphrased_item c v = item_of c (iv_verdict v) (iv_evidence v) (iv_rationale v)"

fun extend_verdicts ::
    "(int \<Rightarrow> utext) \<Rightarrow> item_verdict list \<Rightarrow> (nat \<times> nat) list \<Rightarrow> utext list \<Rightarrow> (nat \<times> string) list \<Rightarrow> item_verdict list" where
  "extend_verdicts cf vs m covered [] = []"
| "extend_verdicts cf vs m covered ((i, c) # cs) =
     (if norm_str cf c = [] \<or> norm_str cf c \<in> set covered then extend_verdicts cf vs m covered cs
      else (case map_of m i of Some j \<Rightarrow> paraphrased_item c (vs ! j) | None \<Rightarrow> uncovered_item c) #
           extend_verdicts cf vs m (norm_str cf c # covered) cs)"

definition cover_missing_checklist_items ::
    "(int \<Rightarrow> utext) \<Rightarrow> item_verdict list \<Rightarrow> string list \<Rightarrow> item_verdict list" where
  "cover_missing_checklist_items cf vs checklist =
     vs @ extend_verdicts cf vs (fuzzy_matched cf vs checklist) (covered_items cf vs) (enumerate 0 checklist)"

section \<open>Lemmas\<close>

lemma weight_of_set: "weight_of ts = (\<Sum>t\<in>set ts. token_weight t)"
  by (simp add: weight_of_def sum_list_distinct_conv_sum_set)

lemma weighted_jaccard_commute: "weighted_jaccard as bs = weighted_jaccard bs as"
proof -
  have "set as \<inter> set bs = {x \<in> set as. x \<in> set bs}" "set as \<inter> set bs = {x \<in> set bs. x \<in> set as}" by auto
  then show ?thesis by (auto simp: weighted_jaccard_def weight_of_set Un_commute)
qed

lemma weighted_jaccard_bounds: "0 \<le> weighted_jaccard as bs \<and> weighted_jaccard as bs \<le> 1"
proof -
  have "weight_of (filter (\<lambda>t. t \<in> set bs) as) \<le> weight_of (as @ bs)"
    unfolding weight_of_set by (rule sum_mono2) auto
  then show ?thesis
    by (cases "weight_of (as @ bs) = 0") (auto simp: weighted_jaccard_def divide_le_eq)
qed

lemma contains_same_length:
  "length a = length b \<Longrightarrow> contains_token_subsequence a b \<longleftrightarrow> a \<noteq> [] \<and> a = b"
  by (auto simp: contains_token_subsequence_def)

lemma elaboration_commute:
  "is_elaboration (snd (short_long a b)) (fst (short_long a b)) \<longleftrightarrow>
   is_elaboration (snd (short_long b a)) (fst (short_long b a))"
proof (cases "length a = length b")
  case True
  then show ?thesis by (auto simp: short_long_def is_elaboration_def contains_same_length)
next
  case False
  then have "short_long a b = short_long b a" by (auto simp: short_long_def)
  then show ?thesis by simp
qed

lemma open_items_spec:
  "(i, c) \<in> set (open_items cf seen cs) \<Longrightarrow> (i, c) \<in> set cs \<and> norm_str cf c \<noteq> [] \<and> norm_str cf c \<notin> set seen"
  by (induction cf seen cs rule: open_items.induct) (auto split: if_splits)

lemma candidates_spec:
  assumes "(score, i, j) \<in> set (candidates cf vs checklist)"
  shows "i < length checklist \<and> j < length vs \<and> fuzzy_threshold \<le> score \<and>
     score = items_match_fuzzy cf (ucode (checklist ! i)) (ucode (iv_item (vs ! j)))"
  using assms
  by (auto simp: candidates_def map_filter_def in_set_enumerate_eq Let_def dest!: open_items_spec split: if_splits)

lemma assign_matches_spec:
  assumes "distinct (map fst m)" "distinct (map snd m)" and "\<forall>(i, j)\<in>set m. P i j"
    and "\<forall>(s, i, j)\<in>set cs. P i j"
  shows "distinct (map fst (assign_matches m cs)) \<and> distinct (map snd (assign_matches m cs)) \<and>
     (\<forall>(i, j)\<in>set (assign_matches m cs). P i j)"
  using assms
proof (induction m cs rule: assign_matches.induct)
  case (2 m score i j cs)
  then show ?case by (cases "i \<in> fst ` set m \<or> j \<in> snd ` set m") auto
qed simp

definition paraphrases :: "(int \<Rightarrow> utext) \<Rightarrow> string \<Rightarrow> string \<Rightarrow> bool" where
  "paraphrases cf c item \<longleftrightarrow> fuzzy_threshold \<le> items_match_fuzzy cf (ucode c) (ucode item)"

lemma fuzzy_matched_spec:
  "distinct (map fst (fuzzy_matched cf vs checklist)) \<and> distinct (map snd (fuzzy_matched cf vs checklist)) \<and>
   (\<forall>(i, j)\<in>set (fuzzy_matched cf vs checklist).
      i < length checklist \<and> j < length vs \<and> paraphrases cf (checklist ! i) (iv_item (vs ! j)))"
  unfolding fuzzy_matched_def
  by (rule assign_matches_spec) (auto simp: paraphrases_def dest: candidates_spec)

lemma extend_verdicts_covers:
  "(i, c) \<in> set cs \<Longrightarrow> norm_str cf c \<noteq> [] \<Longrightarrow>
   norm_str cf c \<in> set covered \<or> (\<exists>v\<in>set (extend_verdicts cf vs m covered cs). norm_str cf (iv_item v) = norm_str cf c)"
proof (induction cf vs m covered cs rule: extend_verdicts.induct)
  case (2 cf vs m covered i' c' cs)
  show ?case
  proof (cases "norm_str cf c' = [] \<or> norm_str cf c' \<in> set covered")
    case True
    with 2 show ?thesis by auto
  next
    case False
    define v where "v = (case map_of m i' of Some j \<Rightarrow> paraphrased_item c' (vs ! j) | None \<Rightarrow> uncovered_item c')"
    have "iv_item v = c'" by (simp add: v_def paraphrased_item_def uncovered_item_def split: option.splits)
    moreover have "extend_verdicts cf vs m covered ((i', c') # cs) = v # extend_verdicts cf vs m (norm_str cf c' # covered) cs"
      using False by (simp add: v_def)
    ultimately show ?thesis using 2 False by auto
  qed
qed simp

lemma extend_verdicts_source:
  "x \<in> set (extend_verdicts cf vs m covered cs) \<Longrightarrow>
   \<exists>i c. (i, c) \<in> set cs \<and> iv_item x = c \<and>
     (x = uncovered_item c \<or> (\<exists>j. map_of m i = Some j \<and> x = paraphrased_item c (vs ! j)))"
  by (induction cf vs m covered cs rule: extend_verdicts.induct)
    (fastforce simp: paraphrased_item_def uncovered_item_def split: if_splits option.splits)+

lemma fuzzy_of_normal_forms:
  "normalized_item cf a = normalized_item cf a' \<Longrightarrow> items_match_fuzzy cf a b = items_match_fuzzy cf a' b"
  by (simp add: items_match_fuzzy_def Let_def)

lemma cover_source:
  assumes "x \<in> set (extend_verdicts cf vs (fuzzy_matched cf vs checklist) covered (enumerate 0 checklist))"
  shows "iv_item x \<in> set checklist \<and>
     (x = uncovered_item (iv_item x) \<or>
      (\<exists>v\<in>set vs. x = paraphrased_item (iv_item x) v \<and> paraphrases cf (iv_item x) (iv_item v)))"
proof -
  from extend_verdicts_source [OF assms] obtain i c where i: "i < length checklist" "c = checklist ! i" "iv_item x = c"
    and x: "x = uncovered_item c \<or> (\<exists>j. map_of (fuzzy_matched cf vs checklist) i = Some j \<and> x = paraphrased_item c (vs ! j))"
    by (auto simp: in_set_enumerate_eq)
  from x show ?thesis
  proof
    assume "x = uncovered_item c"
    with i show ?thesis by auto
  next
    assume "\<exists>j. map_of (fuzzy_matched cf vs checklist) i = Some j \<and> x = paraphrased_item c (vs ! j)"
    then obtain j where j: "(i, j) \<in> set (fuzzy_matched cf vs checklist)" "x = paraphrased_item c (vs ! j)"
      by (auto dest: map_of_SomeD)
    with fuzzy_matched_spec [of cf vs checklist] i(2)
    have "j < length vs" "paraphrases cf c (iv_item (vs ! j))" by auto
    with i j show ?thesis by auto
  qed
qed

lemma cover_complete:
  assumes "c \<in> set checklist" and "norm_str cf c \<noteq> []"
  shows "\<exists>v\<in>set (cover_missing_checklist_items cf vs checklist). norm_str cf (iv_item v) = norm_str cf c"
proof -
  obtain i where "i < length checklist" "c = checklist ! i" using assms(1) by (auto simp: in_set_conv_nth)
  then have "(i, c) \<in> set (enumerate 0 checklist)" by (simp add: in_set_enumerate_eq)
  from extend_verdicts_covers [OF this assms(2), of "covered_items cf vs" vs "fuzzy_matched cf vs checklist"]
  show ?thesis by (auto simp: cover_missing_checklist_items_def covered_items_def)
qed

lemma confirmed_covers:
  assumes "\<forall>v\<in>set (cover_missing_checklist_items cf vs checklist). iv_verdict v = CONFIRMED"
    and "c \<in> set checklist" and "norm_str cf c \<noteq> []"
  shows "\<exists>v\<in>set vs. iv_verdict v = CONFIRMED \<and> (norm_str cf (iv_item v) = norm_str cf c \<or> paraphrases cf c (iv_item v))"
proof -
  obtain x where x: "x \<in> set (cover_missing_checklist_items cf vs checklist)" "norm_str cf (iv_item x) = norm_str cf c"
    using cover_complete [OF assms(2,3)] by blast
  with assms(1) have conf: "iv_verdict x = CONFIRMED" by blast
  show ?thesis
  proof (cases "x \<in> set vs")
    case True
    with x conf show ?thesis by blast
  next
    case False
    with x(1) have "x \<in> set (extend_verdicts cf vs (fuzzy_matched cf vs checklist) (covered_items cf vs) (enumerate 0 checklist))"
      by (simp add: cover_missing_checklist_items_def)
    from cover_source [OF this] conf obtain v where v: "v \<in> set vs" "x = paraphrased_item (iv_item x) v" "paraphrases cf (iv_item x) (iv_item v)"
      by (auto simp: uncovered_item_def dest: arg_cong [where f = iv_verdict])
    from v(2) have "iv_verdict x = iv_verdict v" by (metis item_of_simps(2) paraphrased_item_def)
    moreover have "paraphrases cf c (iv_item v)"
      using v(3) fuzzy_of_normal_forms [OF x(2)] by (simp add: paraphrases_def)
    ultimately show ?thesis using v(1) conf by (intro bexI [of _ v]) simp_all
  qed
qed

section \<open>Properties\<close>

definition ascii_fold :: "int \<Rightarrow> utext" where
  "ascii_fold c = (if 65 \<le> c \<and> c \<le> 90 then [c + 32] else [c])"



text \<open>the paraphrases are assigned one to one: no item takes two verdicts, and no verdict of
  the agent covers two items through a paraphrase.\<close>
theorem paraphrases_one_to_one:
  "distinct (map fst (fuzzy_matched cf vs checklist)) \<and> distinct (map snd (fuzzy_matched cf vs checklist))"
  using fuzzy_matched_spec by blast

text \<open>the similarity of two items lies between 0 and 1 and does not depend on which of them
  comes from the checklist.\<close>
theorem similarity_bounded_symmetric:
  "0 \<le> items_match_fuzzy cf a b \<and> items_match_fuzzy cf a b \<le> 1 \<and> items_match_fuzzy cf a b = items_match_fuzzy cf b a"
proof -
  define ta tb where t: "ta = fuzzy_tokens (normalized_item cf a)" "tb = fuzzy_tokens (normalized_item cf b)"
  have el: "is_elaboration (snd (short_long ta tb)) (fst (short_long ta tb)) \<longleftrightarrow>
      is_elaboration (snd (short_long tb ta)) (fst (short_long tb ta))"
    by (rule elaboration_commute)
  have "items_match_fuzzy cf a b = items_match_fuzzy cf b a"
    unfolding items_match_fuzzy_def Let_def t [symmetric] using weighted_jaccard_commute [of ta tb] el
    by (simp add: eq_commute disj_commute)
  moreover have "0 \<le> items_match_fuzzy cf a b \<and> items_match_fuzzy cf a b \<le> 1"
    unfolding items_match_fuzzy_def Let_def using weighted_jaccard_bounds by simp
  ultimately show ?thesis by blast
qed

text \<open>a verdict on a part of a requirement confirms all of it: when the tokens of the agent's
  item are a run of at least three and at least half of the tokens of the checklist item, with the
  same negations, the item counts as its paraphrase.\<close>
theorem part_of_item_confirms_all:
  assumes "fuzzy_tokens (norm_str cf c) = xs @ fuzzy_tokens (norm_str cf item) @ ys"
    and "3 \<le> length (fuzzy_tokens (norm_str cf item))"
    and "length xs + length ys \<le> length (fuzzy_tokens (norm_str cf item))"
    and "negation_markers (fuzzy_tokens (norm_str cf c)) = negation_markers (fuzzy_tokens (norm_str cf item))"
  shows "paraphrases cf c item"
proof -
  let ?t = "fuzzy_tokens (norm_str cf item)" and ?l = "fuzzy_tokens (norm_str cf c)"
  have none: "fuzzy_tokens [] = []" by (simp add: fuzzy_tokens.simps uni_split_def)
  have ne: "?t \<noteq> []" "?l \<noteq> []" using assms(1,2) by auto
  then have n: "norm_str cf item \<noteq> []" "norm_str cf c \<noteq> []" using none by force+
  have "contains_token_subsequence ?l ?t"
    unfolding contains_token_subsequence_def list_ex_iff assms(1)
    using ne(1) by (auto intro!: bexI [of _ "length xs"])
  then have "is_elaboration ?l ?t" using assms(1-3) by (simp add: is_elaboration_def)
  moreover have "length ?t = length ?l \<Longrightarrow> ?t = ?l" using assms(1) by simp
  ultimately have "is_elaboration (snd (short_long ?l ?t)) (fst (short_long ?l ?t))"
    using assms(1) by (auto simp: short_long_def)
  then show ?thesis using n ne assms(4) by (simp add: paraphrases_def items_match_fuzzy_def fuzzy_threshold_def Let_def)
qed

lemma half_item_tokens:
  "fuzzy_tokens (norm_str ascii_fold ''validate the input file and report errors'') =
     [] @ fuzzy_tokens (norm_str ascii_fold ''validate the input file'') @ map ucode [''and'', ''report'', ''errors'']"
  "3 \<le> length (fuzzy_tokens (norm_str ascii_fold ''validate the input file''))"
  "length ([] :: utext list) + length (map ucode [''and'', ''report'', ''errors'']) \<le> length (fuzzy_tokens (norm_str ascii_fold ''validate the input file''))"
  "negation_markers (fuzzy_tokens (norm_str ascii_fold ''validate the input file and report errors'')) =
     negation_markers (fuzzy_tokens (norm_str ascii_fold ''validate the input file''))"
  by code_simp+

lemma half_item_aggregate:
  "aggregate_verdicts (cover_missing_checklist_items ascii_fold [item_of ''validate the input file'' CONFIRMED [] []]
     [''validate the input file and report errors'']) = ''confirmed''"
  by code_simp

theorem part_of_item_confirms_all_witness:
  "paraphrases ascii_fold ''validate the input file and report errors'' ''validate the input file'' \<and>
   aggregate_verdicts (cover_missing_checklist_items ascii_fold [item_of ''validate the input file'' CONFIRMED [] []]
     [''validate the input file and report errors'']) = ''confirmed''"
  using part_of_item_confirms_all [OF half_item_tokens] half_item_aggregate by blast

text \<open>a verdict that names one item exactly can cover another one as well: an agent that only
  confirmed the weaker of two requirements confirms both.\<close>
theorem exact_verdict_reused:
  "aggregate_verdicts (cover_missing_checklist_items ascii_fold [item_of ''export data to csv'' CONFIRMED [] []]
     [''export data to csv'', ''export data to csv nightly'']) = ''confirmed''"
  by code_simp

text \<open>an addition or removal of a negation is never a paraphrase, unless the normal forms agree.\<close>
theorem negation_never_matches:
  assumes "negation_markers (fuzzy_tokens (norm_str cf c)) \<noteq> negation_markers (fuzzy_tokens (norm_str cf item))"
  shows "\<not> paraphrases cf c item"
proof -
  have "norm_str cf c \<noteq> norm_str cf item" using assms by auto
  then show ?thesis using assms by (simp add: paraphrases_def items_match_fuzzy_def fuzzy_threshold_def Let_def)
qed

theorem negation_never_matches_witness:
  "\<not> paraphrases ascii_fold ''the job must delete old rows'' ''the job mustn't delete old rows''"
proof -
  have "negation_markers (fuzzy_tokens (norm_str ascii_fold ''the job must delete old rows'')) \<noteq>
      negation_markers (fuzzy_tokens (norm_str ascii_fold ''the job mustn't delete old rows''))"
    by code_simp
  then show ?thesis by (rule negation_never_matches)
qed

end
