(* ===== verification/Verifier_Output.thy ===== *)
theory Verifier_Output
  imports Py_Regex "HOL-Library.Sublist"
begin

text \<open>
  How the verdict object is recovered from the text of the acceptance verifier
  (\<^verbatim>\<open>modules/workspace/autonomous/orchestrator.py\<close>, \<^verbatim>\<open>_extract_verifier_json\<close> and
  \<^verbatim>\<open>_parse_verifier_output\<close>): fenced blocks, balanced objects, trailing commas, quotes the agent
  forgot to escape and objects that were cut off. \<^verbatim>\<open>json.loads\<close> is the parameter \<open>loads\<close>, \<open>None\<close>
  where it raises. Indices of the code are kept as the suffixes of the text they stand for.
\<close>

section \<open>Scanning\<close>

text \<open>Characters consumed up to the closing brace of the object that opens the text.\<close>

fun balanced_go :: "bool \<Rightarrow> bool \<Rightarrow> int \<Rightarrow> string \<Rightarrow> nat option" where
  "balanced_go in_str escaped depth [] = None"
| "balanced_go in_str escaped depth (c # cs) =
     (if escaped then map_option Suc (balanced_go in_str False depth cs)
      else if c = bsl then map_option Suc (balanced_go in_str True depth cs)
      else if c = dq then map_option Suc (balanced_go (\<not> in_str) False depth cs)
      else if in_str then map_option Suc (balanced_go in_str False depth cs)
      else if c = CHR ''{'' then map_option Suc (balanced_go in_str False (depth + 1) cs)
      else if c = CHR ''}'' then
        (if depth - 1 = 0 then Some 1 else map_option Suc (balanced_go in_str False (depth - 1) cs))
      else map_option Suc (balanced_go in_str False depth cs))"

definition at_brace :: "string \<Rightarrow> string" where
  "at_brace s = dropWhile (\<lambda>c. c \<noteq> CHR ''{'') s"

definition outer_balanced :: "string \<Rightarrow> string option" where
  "outer_balanced s =
     (let t = at_brace s in if t = [] then None else map_option (\<lambda>n. take n t) (balanced_go False False 0 t))"

lemma at_brace_length: "length (at_brace s) \<le> length s"
  by (simp add: at_brace_def length_dropWhile_le)

function first_balanced :: "string \<Rightarrow> string option" where
  "first_balanced s =
     (if at_brace s = [] then None
      else case balanced_go False False 0 (at_brace s) of
             Some n \<Rightarrow> Some (take n (at_brace s))
           | None \<Rightarrow> first_balanced (tl (at_brace s)))"
  by pat_completeness auto
termination
proof (relation "measure length")
  fix s :: string
  assume "at_brace s \<noteq> []"
  then show "(tl (at_brace s), s) \<in> measure length"
    using at_brace_length [of s] by (cases "at_brace s") auto
qed simp

declare first_balanced.simps [simp del]

section \<open>Repairs\<close>

definition json_ws :: "char \<Rightarrow> bool" where
  "json_ws c \<longleftrightarrow> c \<in> {CHR '' '', CHR 0x09, CHR 0x0D, CHR 0x0A}"

fun escape_go :: "bool \<Rightarrow> bool \<Rightarrow> string \<Rightarrow> string" where
  "escape_go in_str escaped [] = []"
| "escape_go in_str escaped (c # cs) =
     (if \<not> in_str then c # escape_go (c = dq) False cs
      else if escaped then c # escape_go True False cs
      else if c = bsl then c # escape_go True True cs
      else if c = dq then
        (let nxt = dropWhile json_ws cs in
         if nxt = [] \<or> hd nxt \<in> {CHR '':'', CHR '','', CHR ''}'', CHR '']''} then c # escape_go False False cs
         else bsl # dq # escape_go True False cs)
      else c # escape_go True False cs)"

definition escape_inner_string_quotes :: "string \<Rightarrow> string" where
  "escape_inner_string_quotes s = escape_go False False s"

fun strip_go :: "bool \<Rightarrow> bool \<Rightarrow> string \<Rightarrow> string" where
  "strip_go in_str escaped [] = []"
| "strip_go in_str escaped (c # cs) =
     (if escaped then c # strip_go in_str False cs
      else if c = bsl then c # strip_go in_str True cs
      else if c = dq then c # strip_go (\<not> in_str) False cs
      else if \<not> in_str \<and> c = CHR '','' \<and>
          (case dropWhile py_space cs of [] \<Rightarrow> False | d # _ \<Rightarrow> d = CHR ''}'' \<or> d = CHR '']'')
        then strip_go in_str False cs
      else c # strip_go in_str False cs)"

definition strip_trailing_commas :: "string \<Rightarrow> string" where
  "strip_trailing_commas s = strip_go False False s"

definition try_parse :: "(string \<Rightarrow> json option) \<Rightarrow> string \<Rightarrow> json option" where
  "try_parse loads candidate0 =
     (let candidate = py_strip candidate0;
          parsed = (case loads candidate of Some v \<Rightarrow> Some v | None \<Rightarrow>
                     (case loads (strip_trailing_commas candidate) of Some v \<Rightarrow> Some v | None \<Rightarrow>
                        loads (strip_trailing_commas (escape_inner_string_quotes candidate))))
      in if candidate = [] then None
         else case parsed of Some v \<Rightarrow> if is_obj v then Some v else None | None \<Rightarrow> None)"

text \<open>The characters that close the containers still open after a prefix, innermost first.\<close>

fun closing_go :: "string \<Rightarrow> bool \<Rightarrow> bool \<Rightarrow> string \<Rightarrow> string option" where
  "closing_go stack in_str escaped [] =
     (if in_str then None else Some (map (\<lambda>c. if c = CHR ''{'' then CHR ''}'' else CHR '']'') stack))"
| "closing_go stack in_str escaped (c # cs) =
     (if escaped then closing_go stack in_str False cs
      else if c = bsl then closing_go stack in_str True cs
      else if c = dq then closing_go stack (\<not> in_str) False cs
      else if in_str then closing_go stack in_str False cs
      else if c = CHR ''{'' \<or> c = CHR ''['' then closing_go (c # stack) in_str False cs
      else if c = CHR ''}'' then
        (if stack = [] \<or> hd stack \<noteq> CHR ''{'' then None else closing_go (tl stack) in_str False cs)
      else if c = CHR '']'' then
        (if stack = [] \<or> hd stack \<noteq> CHR ''['' then None else closing_go (tl stack) in_str False cs)
      else closing_go stack in_str False cs)"

definition closing_for :: "string \<Rightarrow> string option" where
  "closing_for p = closing_go [] False False p"

text \<open>The lengths of the prefixes that end right after a container that closes, shortest first.\<close>

fun cut_points :: "nat \<Rightarrow> bool \<Rightarrow> bool \<Rightarrow> string \<Rightarrow> nat list" where
  "cut_points i in_str escaped [] = []"
| "cut_points i in_str escaped (c # cs) =
     (if escaped then cut_points (Suc i) in_str False cs
      else if c = bsl then cut_points (Suc i) in_str True cs
      else if c = dq then cut_points (Suc i) (\<not> in_str) False cs
      else if in_str then cut_points (Suc i) in_str False cs
      else if (c = CHR ''}'' \<or> c = CHR '']'') \<and>
          (case dropWhile py_space cs of [] \<Rightarrow> True | d # _ \<Rightarrow> d \<in> {CHR '','', CHR ''}'', CHR '']''})
        then Suc i # cut_points (Suc i) in_str False cs
      else cut_points (Suc i) in_str False cs)"

text \<open>The text that is tried for one cut, if its prefix can be closed.\<close>

definition repaired_at :: "string \<Rightarrow> nat \<Rightarrow> string option" where
  "repaired_at body n =
     map_option (\<lambda>closers. strip_trailing_commas (take n body @ closers)) (closing_for (take n body))"

fun first_parsed :: "(string \<Rightarrow> json option) \<Rightarrow> string list \<Rightarrow> json option" where
  "first_parsed loads [] = None"
| "first_parsed loads (c # cs) = (case try_parse loads c of Some v \<Rightarrow> Some v | None \<Rightarrow> first_parsed loads cs)"

definition repair_truncated_json_object :: "(string \<Rightarrow> json option) \<Rightarrow> string \<Rightarrow> json option" where
  "repair_truncated_json_object loads s =
     (let body = at_brace (py_strip s)
      in first_parsed loads (List.map_filter (repaired_at body) (rev (cut_points 0 False False body))))"

section \<open>Extraction\<close>

definition fence_re :: rx where
  "fence_re = rx_cats [rx_lit ''```'', rx_opt (rx_lit ''json''), Star rx_space, Grp (Lazy rx_any), Star rx_space, rx_lit ''```'']"

definition parse_opt :: "(string \<Rightarrow> json option) \<Rightarrow> string option \<Rightarrow> json option" where
  "parse_opt loads obj = (case obj of Some t \<Rightarrow> try_parse loads t | None \<Rightarrow> None)"

definition or_else :: "'a option \<Rightarrow> 'a option \<Rightarrow> 'a option" where
  "or_else a b = (case a of Some _ \<Rightarrow> a | None \<Rightarrow> b)"

fun from_regions :: "(string \<Rightarrow> json option) \<Rightarrow> string list \<Rightarrow> json option" where
  "from_regions loads [] = None"
| "from_regions loads (r # rs) =
     or_else (parse_opt loads (first_balanced r))
       (or_else (repair_truncated_json_object loads r) (from_regions loads rs))"

definition extract_verifier_json :: "(string \<Rightarrow> json option) \<Rightarrow> string \<Rightarrow> json option" where
  "extract_verifier_json loads text =
     or_else (from_regions loads (rev (rx_groups fence_re text)))
       (or_else (parse_opt loads (outer_balanced text))
          (or_else (repair_truncated_json_object loads text) (parse_opt loads (first_balanced text))))"

definition verifier_error :: "string \<Rightarrow> (string, json) dict" where
  "verifier_error message = [(''verdicts'', JList []), (''snapshot'', JNull), (''infra_error'', JStr message)]"

text \<open>\<open>d.setdefault(k, v)\<close>\<close>

definition dict_setdefault :: "string \<Rightarrow> json \<Rightarrow> (string, json) dict \<Rightarrow> (string, json) dict" where
  "dict_setdefault k v d = (if k \<in> fst ` set d then d else d @ [(k, v)])"

definition parse_verifier_output :: "(string \<Rightarrow> json option) \<Rightarrow> string \<Rightarrow> (string, json) dict" where
  "parse_verifier_output loads text =
     (if text = [] then verifier_error ''verification agent returned empty output''
      else case extract_verifier_json loads text of
        None \<Rightarrow> verifier_error ''verification agent output was not valid JSON'' @
                 [(''infra_error_kind'', JStr ''unparseable_output'')]
      | Some (JObj d) \<Rightarrow>
          (case (case map_of d ''verdicts'' of Some v \<Rightarrow> v | None \<Rightarrow> JList []) of
             JList vs \<Rightarrow>
               if \<not> list_all is_obj vs then verifier_error ''verification agent verdicts were malformed''
               else if jget (JObj d) ''snapshot'' \<noteq> JNull \<and> \<not> is_obj (jget (JObj d) ''snapshot'')
                 then verifier_error ''verification agent snapshot was malformed''
               else dict_setdefault ''snapshot'' JNull (dict_setdefault ''verdicts'' (JList []) d)
           | _ \<Rightarrow> verifier_error ''verification agent verdicts were malformed'')
      | Some _ \<Rightarrow> verifier_error ''verification agent output was not an object'')"

section \<open>Lemmas\<close>

lemma balanced_go_bound: "balanced_go s e d t = Some n \<Longrightarrow> n \<le> length t"
  by (induction s e d t arbitrary: n rule: balanced_go.induct) (auto split: if_splits)

lemma strip_go_subseq: "subseq (strip_go s e t) t"
  by (induction s e t rule: strip_go.induct) auto

lemma strip_go_keeps: "filter (\<lambda>c. c \<noteq> CHR '','') (strip_go s e t) = filter (\<lambda>c. c \<noteq> CHR '','') t"
  by (induction s e t rule: strip_go.induct) auto

lemma escape_go_keeps: "filter (\<lambda>c. c \<noteq> bsl) (escape_go s e t) = filter (\<lambda>c. c \<noteq> bsl) t"
  by (induction s e t rule: escape_go.induct) (auto simp: Let_def)

lemma escape_go_super: "subseq t (escape_go s e t)"
  by (induction s e t rule: escape_go.induct) (auto simp: Let_def)

definition closers_of :: "string \<Rightarrow> string" where
  "closers_of stack = map (\<lambda>c. if c = CHR ''{'' then CHR ''}'' else CHR '']'') stack"

text \<open>One character of the scan.\<close>

definition closing_step :: "string \<Rightarrow> bool \<Rightarrow> bool \<Rightarrow> char \<Rightarrow> (string \<times> bool \<times> bool) option" where
  "closing_step stack in_str escaped c =
     (if escaped then Some (stack, in_str, False)
      else if c = bsl then Some (stack, in_str, True)
      else if c = dq then Some (stack, \<not> in_str, False)
      else if in_str then Some (stack, in_str, False)
      else if c = CHR ''{'' \<or> c = CHR ''['' then Some (c # stack, in_str, False)
      else if c = CHR ''}'' then (if stack = [] \<or> hd stack \<noteq> CHR ''{'' then None else Some (tl stack, in_str, False))
      else if c = CHR '']'' then (if stack = [] \<or> hd stack \<noteq> CHR ''['' then None else Some (tl stack, in_str, False))
      else Some (stack, in_str, False))"

lemma closing_go_Cons:
  "closing_go stack s e (c # cs) =
     (case closing_step stack s e c of None \<Rightarrow> None | Some (stack', s', e') \<Rightarrow> closing_go stack' s' e' cs)"
  by (simp add: closing_step_def)

lemma closing_step_stack:
  "closing_step stack s e c = Some (stack', s', e') \<Longrightarrow> set stack \<subseteq> {CHR ''{'', CHR ''[''} \<Longrightarrow>
     set stack' \<subseteq> {CHR ''{'', CHR ''[''} \<and> (c \<noteq> bsl \<longrightarrow> \<not> e')"
  unfolding closing_step_def by (cases stack) (auto split: if_splits)

declare closing_go.simps(2) [simp del] closing_go_Cons [simp]

text \<open>The scan of a text that can be closed ends in a stack, and goes on from it.\<close>

lemma closing_go_append:
  assumes "closing_go stack s e p = Some cl" and "set stack \<subseteq> {CHR ''{'', CHR ''[''}"
  shows "\<exists>stack' e'. set stack' \<subseteq> {CHR ''{'', CHR ''[''} \<and> cl = closers_of stack' \<and>
     (p \<noteq> [] \<and> last p \<noteq> bsl \<longrightarrow> \<not> e') \<and> (p = [] \<longrightarrow> e' = e) \<and>
     (\<forall>t. closing_go stack s e (p @ t) = closing_go stack' False e' t)"
  using assms
proof (induction p arbitrary: stack s e)
  case Nil
  then show ?case by (auto simp: closers_of_def split: if_splits)
next
  case (Cons c cs)
  then obtain st1 s1 e1 where step: "closing_step stack s e c = Some (st1, s1, e1)"
      and go: "closing_go st1 s1 e1 cs = Some cl"
    by (auto split: option.splits)
  note ok = closing_step_stack [OF step Cons.prems(2)]
  obtain stack' e' where ih: "set stack' \<subseteq> {CHR ''{'', CHR ''[''}" "cl = closers_of stack'"
    "cs \<noteq> [] \<and> last cs \<noteq> bsl \<longrightarrow> \<not> e'" "cs = [] \<longrightarrow> e' = e1"
    "\<forall>t. closing_go st1 s1 e1 (cs @ t) = closing_go stack' False e' t"
    using Cons.IH [OF go] ok by blast
  show ?case
    by (rule exI [of _ stack'], rule exI [of _ e']) (use ih ok step in auto)
qed

lemma closing_go_closers:
  "set stack \<subseteq> {CHR ''{'', CHR ''[''} \<Longrightarrow> closing_go stack False False (closers_of stack) = Some []"
proof (induction stack)
  case (Cons c stack)
  then have "closing_step (c # stack) False False (if c = CHR ''{'' then CHR ''}'' else CHR '']'') = Some (stack, False, False)"
    by (auto simp: closing_step_def)
  with Cons show ?case by (simp add: closers_of_def)
qed (simp add: closers_of_def)

lemma cut_points_last:
  "n \<in> set (cut_points i s e t) \<Longrightarrow>
     i < n \<and> n \<le> i + length t \<and> (t ! (n - i - 1) = CHR ''}'' \<or> t ! (n - i - 1) = CHR '']'')"
proof (induction t arbitrary: i s e)
  case (Cons c cs)
  from Cons.prems consider "n = Suc i" "c = CHR ''}'' \<or> c = CHR '']''" | s' e' where "n \<in> set (cut_points (Suc i) s' e' cs)"
    by (auto split: if_splits)
  then show ?case
  proof cases
    case 1
    then show ?thesis by auto
  next
    case 2
    from Cons.IH [OF this] have ih: "Suc i < n" "n \<le> Suc i + length cs"
      "cs ! (n - Suc i - 1) = CHR ''}'' \<or> cs ! (n - Suc i - 1) = CHR '']''" by auto
    then have "(c # cs) ! (n - i - 1) = cs ! (n - Suc i - 1)" by (simp add: nth_Cons')
    with ih show ?thesis by simp
  qed
qed simp

lemma cut_points_decreasing: "sorted_wrt (<) (cut_points i s e t) \<and> (\<forall>n\<in>set (cut_points i s e t). i < n)"
  by (induction i s e t rule: cut_points.induct) (auto simp: Suc_lessD)

lemma try_parse_obj: "try_parse loads c = Some v \<Longrightarrow> is_obj v \<and> (\<exists>t. loads t = Some v)"
  by (auto simp: try_parse_def Let_def split: if_splits option.splits)

lemma first_parsed_obj: "first_parsed loads cs = Some v \<Longrightarrow> is_obj v \<and> (\<exists>t. loads t = Some v)"
  by (induction cs) (auto split: option.splits dest: try_parse_obj)

lemma repair_obj: "repair_truncated_json_object loads s = Some v \<Longrightarrow> is_obj v \<and> (\<exists>t. loads t = Some v)"
  by (auto simp: repair_truncated_json_object_def Let_def dest: first_parsed_obj)

lemma parse_opt_obj: "parse_opt loads o' = Some v \<Longrightarrow> is_obj v \<and> (\<exists>t. loads t = Some v)"
  by (auto simp: parse_opt_def split: option.splits dest: try_parse_obj)

lemma or_else_Some: "or_else a b = Some v \<longleftrightarrow> a = Some v \<or> a = None \<and> b = Some v"
  by (auto simp: or_else_def split: option.splits)

lemma from_regions_obj: "from_regions loads rs = Some v \<Longrightarrow> is_obj v \<and> (\<exists>t. loads t = Some v)"
  by (induction rs) (auto simp: or_else_Some dest: parse_opt_obj repair_obj)

lemma extract_obj: "extract_verifier_json loads text = Some v \<Longrightarrow> is_obj v \<and> (\<exists>t. loads t = Some v)"
  by (auto simp: extract_verifier_json_def or_else_Some dest: parse_opt_obj repair_obj from_regions_obj)

lemma repaired_is_closed:
  assumes "n \<in> set (cut_points 0 False False body)" and "closing_for (take n body) = Some closers"
  shows "closing_for (take n body @ closers) = Some []"
proof -
  have n: "0 < n" "n \<le> length body" and last: "body ! (n - 1) = CHR ''}'' \<or> body ! (n - 1) = CHR '']''"
    using cut_points_last [OF assms(1)] by auto
  then have ne: "take n body \<noteq> []" by auto
  then have "last (take n body) = body ! (n - 1)" using n by (simp add: last_conv_nth min_def)
  then have "last (take n body) \<noteq> bsl" using last by auto
  moreover have "closing_go [] False False (take n body) = Some closers"
    using assms(2) by (simp add: closing_for_def)
  note closing_go_append [OF this, simplified]
  then obtain stack' e' where st: "set stack' \<subseteq> {CHR ''{'', CHR ''[''}" "closers = closers_of stack'"
      "take n body \<noteq> [] \<and> last (take n body) \<noteq> bsl \<longrightarrow> \<not> e'"
      "\<forall>t. closing_go [] False False (take n body @ t) = closing_go stack' False e' t"
    using ne by auto
  have "\<not> e'" using st(3) ne calculation by blast
  with st show ?thesis using closing_go_closers [OF st(1)] unfolding closing_for_def by simp
qed

section \<open>Properties\<close>

text \<open>what is recovered from the text of the agent is always an object, and one that
  \<^verbatim>\<open>json.loads\<close> returned: nothing is made up, and no text without one is given a verdict.\<close>
theorem extraction_only_parses:
  assumes "extract_verifier_json loads text = Some v"
  shows "is_obj v \<and> (\<exists>t. loads t = Some v)"
  using assms by (rule extract_obj)

definition empty_object_loads :: "string \<Rightarrow> json option" where
  "empty_object_loads s = (if s = ''{}'' then Some (JObj []) else None)"

lemma fenced_empty_object: "extract_verifier_json empty_object_loads ''so: ```json {} ```'' = Some (JObj [])"
  by code_simp

theorem extraction_only_parses_witness: "is_obj (JObj []) \<and> (\<exists>t. empty_object_loads t = Some (JObj []))"
  by (rule extraction_only_parses [OF fenced_empty_object])

text \<open>dropping trailing commas removes nothing but commas, in place.\<close>
theorem trailing_commas_only:
  "subseq (strip_trailing_commas s) s \<and>
   filter (\<lambda>c. c \<noteq> CHR '','') (strip_trailing_commas s) = filter (\<lambda>c. c \<noteq> CHR '','') s"
  by (simp add: strip_trailing_commas_def strip_go_subseq strip_go_keeps)

text \<open>escaping quotes inserts nothing but backslashes, in place.\<close>
theorem escaping_inserts_backslashes:
  "subseq s (escape_inner_string_quotes s) \<and>
   filter (\<lambda>c. c \<noteq> bsl) (escape_inner_string_quotes s) = filter (\<lambda>c. c \<noteq> bsl) s"
  by (simp add: escape_inner_string_quotes_def escape_go_super escape_go_keeps)

text \<open>a text cut off after a complete part is closed exactly: with the closing brackets that
  are appended, every container is closed by its own bracket and nothing is left open.\<close>
theorem truncated_text_is_closed:
  assumes "n \<in> set (cut_points 0 False False body)" and "closing_for (take n body) = Some closers"
  shows "closing_for (take n body @ closers) = Some []"
  using assms by (rule repaired_is_closed)

definition cut_body :: string where
  "cut_body = ''{'' @ [dq] @ ''v'' @ [dq] @ '':[{}, {''"

theorem truncated_text_is_closed_witness:
  "closing_for (take 8 cut_body @ '']}'') = Some []"
proof -
  have "8 \<in> set (cut_points 0 False False cut_body)" by code_simp
  moreover have "closing_for (take 8 cut_body) = Some '']}''" by code_simp
  ultimately show ?thesis by (rule truncated_text_is_closed)
qed

text \<open>whatever the agent writes, the parsed output carries a list of objects as its verdicts
  and an object or nothing as its snapshot.\<close>
theorem parsed_output_shape:
  "\<exists>vs. map_of (parse_verifier_output loads text) ''verdicts'' = Some (JList vs) \<and> list_all is_obj vs \<and>
     (\<exists>s. map_of (parse_verifier_output loads text) ''snapshot'' = Some s \<and> (s = JNull \<or> is_obj s))"
proof -
  have err: "map_of (verifier_error m) ''verdicts'' = Some (JList [])" "map_of (verifier_error m) ''snapshot'' = Some JNull" for m
    by (simp_all add: verifier_error_def)
  have append: "map_of (d @ d') k = Some v" if "map_of d k = Some v" for d d' :: "(string, json) dict" and k v
    using that by (simp add: map_add_Some_iff)
  have setdef: "map_of (dict_setdefault k w d) k' =
      (if k' = k \<and> map_of d k = None then Some w else map_of d k')" for k k' :: string and w d
  proof -
    have "k \<in> fst ` set d \<longleftrightarrow> map_of d k \<noteq> None" by (simp add: map_of_eq_None_iff)
    then show ?thesis by (auto simp: dict_setdefault_def map_add_def split: option.splits)
  qed
  show ?thesis
  proof (cases "text = []")
    case True
    then show ?thesis by (simp add: parse_verifier_output_def err)
  next
    case False
    show ?thesis
    proof (cases "extract_verifier_json loads text")
      case None
      with False show ?thesis by (simp add: parse_verifier_output_def err append)
    next
      case (Some v)
      with extract_obj [OF Some] obtain d where d: "v = JObj d" by (auto simp: is_obj_def split: json.splits)
      show ?thesis
        using False Some d
        by (auto simp: parse_verifier_output_def err setdef jget_def split: json.split option.split)
    qed
  qed
qed

end
