(* ===== verification/Acceptance_Snapshot.thy ===== *)
theory Acceptance_Snapshot
  imports Py_Regex "HOL-Library.Multiset"
begin

text \<open>
  The acceptance criteria of an issue
  (\<^verbatim>\<open>modules/workspace/autonomous/acceptance_snapshot.py\<close> and the validation of an extracted
  snapshot in \<^verbatim>\<open>phases/acceptance_verification.py\<close>): the sections of the issue in Markdown, the
  paths and items in them, the content that is hashed, and the snapshot as stored. Text is
  Latin-1: the Chinese alternatives of the section titles and patterns have no match in it and are
  left out. A stored snapshot is read back at the types it is written with.
\<close>

record snapshot =
  sn_required_paths :: "string list"
  sn_checklist :: "string list"
  sn_non_scope :: "string list"
  sn_closure :: bool
  sn_source :: string
  sn_confidence :: string

definition empty_snapshot :: snapshot where
  "empty_snapshot = \<lparr>sn_required_paths = [], sn_checklist = [], sn_non_scope = [], sn_closure = False,
     sn_source = ''missing'', sn_confidence = ''low''\<rparr>"

definition jstrs :: "string list \<Rightarrow> json" where
  "jstrs xs = JList (map JStr xs)"

definition to_canonical :: "snapshot \<Rightarrow> json" where
  "to_canonical sn = JObj
     [(''required_paths'', jstrs (sort (sn_required_paths sn))), (''checklist'', jstrs (sort (sn_checklist sn))),
      (''non_scope'', jstrs (sort (sn_non_scope sn))), (''closure_constraints'', JBool (sn_closure sn))]"

text \<open>\<open>hash_snapshot\<close>: \<open>digest\<close> is the SHA-256 of the sorted JSON text.\<close>

definition hash_snapshot :: "(json \<Rightarrow> string) \<Rightarrow> snapshot \<Rightarrow> string" where
  "hash_snapshot digest sn = digest (to_canonical sn)"

section \<open>Parsing an issue\<close>

definition section_re :: rx where
  "section_re = rx_cats [Bol, rx_lit ''#'', rx_opt (rx_lit ''#''), rx_opt (rx_lit ''#''), rx_opt (rx_lit ''#''),
     rx_opt (rx_lit ''#''), rx_opt (rx_lit ''#''), rx_spaces, Grp (Lazy rx_dot), Star rx_space, Eol]"

definition closure_constraint_re :: rx where
  "closure_constraint_re = rx_alts
     [Cat (rx_ilit ''do not close '') (rx_alts [rx_ilit ''until'', rx_ilit ''before'']),
      rx_cats [rx_ilit ''no '', rx_alts [rx_ilit ''premature'', rx_ilit ''staged''], rx_ilit '' close'']]"

definition token_path_char :: "char \<Rightarrow> bool" where
  "token_path_char c \<longleftrightarrow> (let n = (of_char c :: nat) in
     48 \<le> n \<and> n \<le> 57 \<or> 65 \<le> n \<and> n \<le> 90 \<or> 97 \<le> n \<and> n \<le> 122) \<or> c \<in> set ''_./?*{}[]-''"

definition token_path_re :: rx where
  "token_path_re = rx_cats [rx_opt (rx_lit ''`''), Grp (rx_plus (Sat token_path_char)), rx_opt (rx_lit ''`'')]"

text \<open>The heading of each section and its text up to the next one; a later heading replaces an
  equal earlier one.\<close>

fun section_pairs :: "(string option \<times> string \<times> string) list \<Rightarrow> (string \<times> string) list" where
  "section_pairs [] = []"
| "section_pairs ((g, s, after) # ms) =
     (py_lower (py_strip (case g of Some t \<Rightarrow> t | None \<Rightarrow> [])),
      case ms of [] \<Rightarrow> after | (_, s', _) # _ \<Rightarrow> take (length after - length s') after) # section_pairs ms"

definition split_sections :: "string \<Rightarrow> (string, string) dict" where
  "split_sections body = foldl (\<lambda>d kv. AList.update (fst kv) (snd kv) d) [] (section_pairs (rx_spans section_re [] body))"

definition bullet :: "string \<Rightarrow> bool" where
  "bullet line \<longleftrightarrow> py_startswith line ''-'' \<or> py_startswith line ''*''"

definition bullet_text :: "string \<Rightarrow> string" where
  "bullet_text line = py_strip (dropWhile (\<lambda>c. c \<in> set ''-* '') line)"

definition path_shaped :: "string \<Rightarrow> bool" where
  "path_shaped tok \<longleftrightarrow> CHR ''/'' \<in> set tok \<or> py_startswith tok ''.'' \<or> CHR ''*'' \<in> set tok"

definition path_in_line :: "string \<Rightarrow> string option" where
  "path_in_line line0 =
     (let line = py_strip line0
      in if \<not> bullet line then None
         else List.find path_shaped (rx_groups token_path_re (bullet_text line)))"

fun keep_first :: "string set \<Rightarrow> string list \<Rightarrow> string list" where
  "keep_first seen [] = []"
| "keep_first seen (p # ps) = (if p \<in> seen then keep_first seen ps else p # keep_first (insert p seen) ps)"

definition extract_paths :: "string \<Rightarrow> string list" where
  "extract_paths text = keep_first {} (List.map_filter path_in_line (py_splitlines text))"

definition checklist_re :: rx where
  "checklist_re = rx_cats [Star rx_space, Sat (\<lambda>c. c = CHR ''-'' \<or> c = CHR ''*''), rx_spaces, rx_lit ''['',
     Sat (\<lambda>c. c \<in> set '' xX''), rx_lit '']'', rx_spaces, Grp (Star rx_dot), End]"

definition extract_checklist :: "string \<Rightarrow> string list" where
  "extract_checklist text =
     List.map_filter (\<lambda>line. case rx_match_group checklist_re line of Some (Some g) \<Rightarrow> Some (py_strip g) | _ \<Rightarrow> None)
       (py_splitlines text)"

definition extract_plain_list :: "string \<Rightarrow> string list" where
  "extract_plain_list text = map bullet_text (filter bullet (map py_strip (py_splitlines text)))"

definition criteria_keywords :: "string list" where
  "criteria_keywords = [''acceptance criteria'', ''acceptance'']"

definition nonscope_keywords :: "string list" where
  "nonscope_keywords = [''non-scope'', ''non scope'', ''out of scope'']"

definition section_with :: "(string \<Rightarrow> bool) \<Rightarrow> (string, string) dict \<Rightarrow> string option" where
  "section_with P d = map_option snd (List.find (\<lambda>kv. P (fst kv)) d)"

definition mentions :: "string list \<Rightarrow> string \<Rightarrow> bool" where
  "mentions kws t \<longleftrightarrow> list_ex (\<lambda>k. py_contains k t) kws"

definition parse_acceptance_snapshot :: "string \<Rightarrow> snapshot" where
  "parse_acceptance_snapshot body =
     (let sections = split_sections body;
          scope = section_with (\<lambda>t. t = ''scope'') sections;
          criteria = section_with (mentions criteria_keywords) sections;
          nonscope = section_with (mentions nonscope_keywords) sections;
          convention = (scope \<noteq> None \<or> criteria \<noteq> None)
      in \<lparr>sn_required_paths = (case scope of Some t \<Rightarrow> extract_paths t | None \<Rightarrow> []),
          sn_checklist = (case criteria of Some t \<Rightarrow> extract_checklist t | None \<Rightarrow> []),
          sn_non_scope = (case nonscope of Some t \<Rightarrow> extract_plain_list t | None \<Rightarrow> []),
          sn_closure = rx_found closure_constraint_re body,
          sn_source = (if convention then ''convention'' else ''missing''),
          sn_confidence = (if convention then ''high'' else ''low'')\<rparr>)"

section \<open>Stored snapshots\<close>

text \<open>The dictionary of the fields, and its text by \<^verbatim>\<open>json.dumps\<close>.\<close>

definition snapshot_dict :: "snapshot \<Rightarrow> json" where
  "snapshot_dict sn = JObj
     [(''required_paths'', jstrs (sn_required_paths sn)), (''checklist'', jstrs (sn_checklist sn)),
      (''non_scope'', jstrs (sn_non_scope sn)), (''closure_constraints'', JBool (sn_closure sn)),
      (''source'', JStr (sn_source sn)), (''confidence'', JStr (sn_confidence sn))]"

definition snapshot_to_json :: "(json \<Rightarrow> string) \<Rightarrow> snapshot \<Rightarrow> string" where
  "snapshot_to_json dumps sn = dumps (snapshot_dict sn)"

fun strs_of :: "json list \<Rightarrow> string list option" where
  "strs_of [] = Some []"
| "strs_of (JStr s # vs) = map_option (\<lambda>xs. s # xs) (strs_of vs)"
| "strs_of (v # vs) = None"

definition list_field :: "(string, json) dict \<Rightarrow> string \<Rightarrow> string list option" where
  "list_field d k = (case map_of d k of None \<Rightarrow> Some [] | Some (JList vs) \<Rightarrow> strs_of vs | _ \<Rightarrow> None)"

definition str_field :: "(string, json) dict \<Rightarrow> string \<Rightarrow> string \<Rightarrow> string option" where
  "str_field d k dflt = (case map_of d k of None \<Rightarrow> Some dflt | Some (JStr s) \<Rightarrow> Some s | _ \<Rightarrow> None)"

definition snapshot_fields :: "string list" where
  "snapshot_fields = [''required_paths'', ''checklist'', ''non_scope'', ''closure_constraints'', ''source'', ''confidence'']"

text \<open>\<^verbatim>\<open>AcceptanceSnapshot(**json.loads(...))\<close>: an unknown field or a value that is not an object raises.\<close>

definition snapshot_of_dict :: "json \<Rightarrow> snapshot option" where
  "snapshot_of_dict v =
     (case v of JObj d \<Rightarrow>
        if \<not> list_all (\<lambda>kv. fst kv \<in> set snapshot_fields) d then None
        else (case (list_field d ''required_paths'', list_field d ''checklist'', list_field d ''non_scope'',
                    str_field d ''source'' ''missing'', str_field d ''confidence'' ''low'') of
                (Some ps, Some cs, Some ns, Some src, Some conf) \<Rightarrow>
                  (case map_of d ''closure_constraints'' of
                     None \<Rightarrow> Some \<lparr>sn_required_paths = ps, sn_checklist = cs, sn_non_scope = ns, sn_closure = False,
                               sn_source = src, sn_confidence = conf\<rparr>
                   | Some (JBool b) \<Rightarrow> Some \<lparr>sn_required_paths = ps, sn_checklist = cs, sn_non_scope = ns, sn_closure = b,
                               sn_source = src, sn_confidence = conf\<rparr>
                   | _ \<Rightarrow> None)
              | _ \<Rightarrow> None)
      | _ \<Rightarrow> None)"

definition snapshot_of_json :: "(string \<Rightarrow> json option) \<Rightarrow> string \<Rightarrow> snapshot option" where
  "snapshot_of_json loads s = Option.bind (loads s) snapshot_of_dict"

section \<open>Extracted snapshots\<close>

definition cross_issue_prefix_re :: rx where
  "cross_issue_prefix_re = rx_cats [Bos, rx_ilit ''issue'', Star rx_space, rx_lit ''#'', rx_number, Star rx_space, rx_lit '':'']"

definition expected_fields :: "string list" where
  "expected_fields = [''required_paths'', ''checklist'', ''non_scope'', ''closure_constraints'']"

text \<open>A list of strings none of which is blank, stripped.\<close>

definition stripped_strs :: "json \<Rightarrow> string list option" where
  "stripped_strs v =
     (case v of JList vs \<Rightarrow>
        (case strs_of vs of
           Some xs \<Rightarrow> if list_all (\<lambda>x. py_strip x \<noteq> []) xs then Some (map py_strip xs) else None
         | None \<Rightarrow> None)
      | _ \<Rightarrow> None)"

definition other_issue :: "string \<Rightarrow> string \<Rightarrow> bool" where
  "other_issue issue item \<longleftrightarrow>
     (case rx_match_group cross_issue_prefix_re item of Some (Some n) \<Rightarrow> n \<noteq> issue | _ \<Rightarrow> False)"

text \<open>\<open>None\<close> is the \<open>ValueError\<close>; the number of the issue is \<open>None\<close> when it is not known.\<close>

definition validate_extracted_snapshot :: "json \<Rightarrow> int option \<Rightarrow> snapshot option" where
  "validate_extracted_snapshot payload issue_number =
     (case payload of JObj d \<Rightarrow>
        if set (map fst d) \<noteq> set expected_fields then None
        else (case (stripped_strs (jget payload ''required_paths''), stripped_strs (jget payload ''checklist''),
                    stripped_strs (jget payload ''non_scope''), jget payload ''closure_constraints'') of
                (Some ps, Some cs0, Some ns, JBool b) \<Rightarrow>
                  (let cs = (case issue_number of
                               Some n \<Rightarrow> if n = 0 then cs0 else filter (\<lambda>c. \<not> other_issue (str_of_int n) c) cs0
                             | None \<Rightarrow> cs0)
                   in if ps = [] \<and> cs = [] then None
                      else Some \<lparr>sn_required_paths = ps, sn_checklist = cs, sn_non_scope = ns, sn_closure = b,
                             sn_source = ''llm'', sn_confidence = ''low''\<rparr>)
              | _ \<Rightarrow> None)
      | _ \<Rightarrow> None)"

section \<open>Lemmas\<close>

lemma strs_of_map [simp]: "strs_of (map JStr xs) = Some xs"
  by (induction xs) simp_all

lemma jstrs_inject [simp]: "jstrs xs = jstrs ys \<longleftrightarrow> xs = ys"
  by (simp add: jstrs_def inj_map_eq_map inj_def)

lemma keep_first_distinct: "distinct (keep_first seen ps) \<and> set (keep_first seen ps) = set ps - seen"
  by (induction seen ps rule: keep_first.induct) auto

lemma path_in_line_shaped: "path_in_line line = Some p \<Longrightarrow> path_shaped p"
  by (auto simp: path_in_line_def Let_def dest: find_SomeD split: if_splits)

lemma stripped_strs_spec: "stripped_strs v = Some xs \<Longrightarrow> \<forall>x\<in>set xs. \<exists>y. x = py_strip y \<and> x \<noteq> []"
  by (fastforce simp: stripped_strs_def list_all_iff split: json.splits option.splits if_splits)

lemma sort_eq_mset: "sort xs = sort ys \<longleftrightarrow> mset xs = mset ys" for xs ys :: "string list"
  by (metis mset_sort properties_for_sort sorted_sort)

lemma validated_spec:
  assumes "validate_extracted_snapshot payload issue = Some sn"
  shows "sn_source sn = ''llm'' \<and> (sn_required_paths sn \<noteq> [] \<or> sn_checklist sn \<noteq> []) \<and>
     (\<forall>x\<in>set (sn_required_paths sn @ sn_checklist sn @ sn_non_scope sn). x \<noteq> []) \<and>
     (\<forall>n. issue = Some n \<longrightarrow> n = 0 \<or> (\<forall>c\<in>set (sn_checklist sn). \<not> other_issue (str_of_int n) c))"
proof -
  from assms obtain ps cs0 ns b where lists: "stripped_strs (jget payload ''required_paths'') = Some ps"
      "stripped_strs (jget payload ''checklist'') = Some cs0" "stripped_strs (jget payload ''non_scope'') = Some ns"
    and sn: "sn = \<lparr>sn_required_paths = ps, sn_checklist = (case issue of
                               Some n \<Rightarrow> if n = 0 then cs0 else filter (\<lambda>c. \<not> other_issue (str_of_int n) c) cs0
                             | None \<Rightarrow> cs0), sn_non_scope = ns, sn_closure = b,
                             sn_source = ''llm'', sn_confidence = ''low''\<rparr>"
    and ne: "\<not> (ps = [] \<and> sn_checklist sn = [])"
    by (auto simp: validate_extracted_snapshot_def Let_def split: json.splits if_splits option.splits)
  show ?thesis
    using ne stripped_strs_spec [OF lists(1)] stripped_strs_spec [OF lists(2)] stripped_strs_spec [OF lists(3)]
    unfolding sn by (auto split: option.splits if_splits)
qed

section \<open>Properties\<close>

text \<open>Where \<^verbatim>\<open>json.loads\<close> reads back the text \<^verbatim>\<open>json.dumps\<close> wrote, a stored snapshot is read back as it was.\<close>

lemma snapshot_read_back: "loads (dumps (snapshot_dict sn)) = Some (snapshot_dict sn) \<Longrightarrow> snapshot_of_json loads (snapshot_to_json dumps sn) = Some sn"
  by (simp add: snapshot_of_json_def snapshot_of_dict_def snapshot_to_json_def snapshot_dict_def list_field_def str_field_def snapshot_fields_def jstrs_def)

text \<open>what is hashed depends on the content of the criteria alone: neither the order of the
  entries nor where the snapshot comes from changes it, and any change of an entry does.\<close>
theorem canonical_ignores_order:
  "to_canonical a = to_canonical b \<longleftrightarrow>
     mset (sn_required_paths a) = mset (sn_required_paths b) \<and> mset (sn_checklist a) = mset (sn_checklist b) \<and>
     mset (sn_non_scope a) = mset (sn_non_scope b) \<and> sn_closure a = sn_closure b"
  by (auto simp: to_canonical_def sort_eq_mset)

text \<open>the paths read from a section are path-shaped and listed once.\<close>
theorem extracted_paths_shape: "distinct (extract_paths text) \<and> (\<forall>p\<in>set (extract_paths text). path_shaped p)"
  using keep_first_distinct [of "{}" "List.map_filter path_in_line (py_splitlines text)"]
  by (auto simp: extract_paths_def map_filter_def dest: path_in_line_shaped)

text \<open>an extracted snapshot that is accepted names something to verify, has no blank entry, and
  no item of its checklist is marked as belonging to another issue.\<close>
theorem validated_snapshot_verifiable:
  assumes "validate_extracted_snapshot payload (Some n) = Some sn" and "n \<noteq> 0"
  shows "sn_source sn = ''llm'' \<and> (sn_required_paths sn \<noteq> [] \<or> sn_checklist sn \<noteq> []) \<and>
     (\<forall>x\<in>set (sn_required_paths sn @ sn_checklist sn @ sn_non_scope sn). x \<noteq> []) \<and>
     (\<forall>c\<in>set (sn_checklist sn). \<not> other_issue (str_of_int n) c)"
  using validated_spec [OF assms(1)] assms(2) by blast

definition extracted_sample :: json where
  "extracted_sample = JObj [(''required_paths'', JList []), (''closure_constraints'', JBool False),
     (''checklist'', jstrs ['' logs the error '', ''Issue #7: adds a flag'', ''Issue #5: adds a test'']), (''non_scope'', JList [])]"

lemma extracted_sample_validated:
  "validate_extracted_snapshot extracted_sample (Some 5) =
     Some (empty_snapshot\<lparr>sn_checklist := [''logs the error'', ''Issue #5: adds a test''], sn_source := ''llm''\<rparr>)"
  by code_simp

theorem validated_snapshot_verifiable_witness:
  "\<not> other_issue (str_of_int 5) ''Issue #5: adds a test'' \<and> other_issue (str_of_int 5) ''Issue #7: adds a flag''"
proof
  show "\<not> other_issue (str_of_int 5) ''Issue #5: adds a test''"
    using validated_snapshot_verifiable [OF extracted_sample_validated] by simp
  show "other_issue (str_of_int 5) ''Issue #7: adds a flag''" by code_simp
qed

definition plain_criteria :: string where
  "plain_criteria = ''## Scope'' @ [CHR 0x0A] @ ''- `app/a.py`'' @ [CHR 0x0A] @ ''## Acceptance Criteria'' @ [CHR 0x0A] @ ''- logs the error''"

text \<open>acceptance criteria that are written as plain bullets are not read: only boxes enter the
  checklist, and with a scope section the snapshot still counts as complete.\<close>
theorem plain_criteria_ignored:
  "parse_acceptance_snapshot plain_criteria =
     \<lparr>sn_required_paths = [''app/a.py''], sn_checklist = [], sn_non_scope = [], sn_closure = False,
      sn_source = ''convention'', sn_confidence = ''high''\<rparr>"
  by code_simp

end
