(* ===== verification/Acceptance_Phase.thy ===== *)
theory Acceptance_Phase
  imports Acceptance_Items Acceptance_Snapshot Verifier_Output Workflow_Phase "HOL-Library.Countable"
begin

text \<open>
  The phase that verifies a merged issue
  (\<^verbatim>\<open>modules/workspace/autonomous/phases/acceptance_verification.py\<close>, \<open>handle\<close>, and the run of
  the verifier in \<^verbatim>\<open>orchestrator.py\<close>): when it runs, what it reuses, how the verdicts of the agent
  are read, combined with the gates and reported, and what it does to the issue. The effects on
  GitHub, the milestone and the session are recorded in the order they happen; what GitHub, git,
  the agent and the lock answer is the environment. \<^verbatim>\<open>json.dumps\<close>, \<^verbatim>\<open>json.loads\<close>, the digest, \<open>str\<close> of a
  value that is not a string and the table of \<open>casefold\<close> are its parameters. The text of the issue
  comment is not modelled: the event carries the report it is made from; neither is the reason that
  follows the complaint about an invalid snapshot.
\<close>

section \<open>The environment\<close>

text \<open>How the run of the verifier ends: no checkout of the merge, a raise while it is spawned, a
  pause of the workflow, no result, a failure with its code, or its text.\<close>

datatype verifier_run = No_Checkout | Spawn_Raised | Run_Paused | Run_None | Run_Failed string | Run_Text string

record acc_env =
  ae_enabled :: bool
  ae_merge_sha :: "json result"
  ae_issue_open :: bool
  ae_closure :: "(string \<times> json) option result"
  ae_login :: "string option result"
  ae_issue :: "json result"
  ae_guard :: "nat \<Rightarrow> bool"
  ae_write :: "string \<Rightarrow> pyexn option"
  ae_run :: verifier_run
  ae_early :: "(string \<times> (string, int) dict) option"
  ae_session :: string
  ae_usage :: "(string, int) dict"
  ae_verifier :: string
  ae_gates :: gate_env
  ae_now :: string
  ae_uuid :: string

record acc_lib =
  al_dumps :: "json \<Rightarrow> string"
  al_loads :: "string \<Rightarrow> json option"
  al_digest :: "json \<Rightarrow> string"
  al_str :: "json \<Rightarrow> string"
  al_fold :: "int \<Rightarrow> utext"

datatype acc_event =
    Reopened
  | Audited string json
  | Verifier_Ran
  | Commented json
  | Closed
  | Finalized string patch
  | Tagged string string

datatype acc_stop = Exn pyexn | Paused_Run

type_synonym 'a acc = "acc_event list \<times> (acc_stop + 'a)"

section \<open>Running the verifier\<close>

type_synonym jdict = "(string, json) dict"

definition jints :: "(string, int) dict \<Rightarrow> json" where
  "jints d = JObj (map (\<lambda>kv. (fst kv, JInt (snd kv))) d)"

definition attach_early :: "acc_env \<Rightarrow> jdict \<Rightarrow> jdict" where
  "attach_early e d =
     (case ae_early e of
        Some (mid, base) \<Rightarrow>
          if mid = [] then d
          else AList.update ''usage_baseline'' (jints base) (AList.update ''milestone_id'' (JStr mid) d)
      | None \<Rightarrow> d)"

definition attach_runtime :: "acc_env \<Rightarrow> jdict \<Rightarrow> jdict" where
  "attach_runtime e d =
     AList.update ''usage'' (jints (ae_usage e)) (AList.update ''session_id'' (JStr (ae_session e)) d)"

definition verifier_failure :: "acc_env \<Rightarrow> string \<Rightarrow> jdict" where
  "verifier_failure e message =
     [(''verdicts'', JList []), (''snapshot'', JNull), (''verified_by'', JStr (ae_verifier e)), (''infra_error'', JStr message)]"

definition run_verification_agent :: "acc_lib \<Rightarrow> acc_env \<Rightarrow> acc_stop + jdict" where
  "run_verification_agent L e =
     (case ae_run e of
        No_Checkout \<Rightarrow> Inr (verifier_failure e ''merged-main checkout failed'')
      | Spawn_Raised \<Rightarrow> Inr (attach_early e (verifier_failure e ''verification agent spawn failed''))
      | Run_Paused \<Rightarrow> Inl Paused_Run
      | Run_None \<Rightarrow> Inr (attach_early e (verifier_failure e ''verification agent failed (runner error)''))
      | Run_Failed code \<Rightarrow>
          Inr (attach_runtime e (attach_early e
            (verifier_failure e (''verification agent failed ('' @ (if code = [] then ''runner error'' else code) @ '')''))))
      | Run_Text text \<Rightarrow>
          Inr (attach_early e (attach_runtime e
            (AList.update ''verified_by'' (JStr (ae_verifier e)) (parse_verifier_output (al_loads L) text)))))"

section \<open>Reading the verdicts of the agent\<close>

definition verdict_from_str :: "string \<Rightarrow> verdict" where
  "verdict_from_str s0 =
     (let s = py_lower s0 in
      if s = ''confirmed'' then CONFIRMED else if s = ''rejected'' then REJECTED else INDETERMINATE)"

definition valid_evidence_entry :: "json \<Rightarrow> bool" where
  "valid_evidence_entry v \<longleftrightarrow>
     (case v of JObj d \<Rightarrow>
        (case map_of d ''ref'' of Some (JStr r) \<Rightarrow> py_strip r \<noteq> [] | _ \<Rightarrow> False) \<and>
        (case map_of d ''note'' of None \<Rightarrow> True | Some (JStr _) \<Rightarrow> True | _ \<Rightarrow> False)
      | _ \<Rightarrow> False)"

definition missing_evidence :: json where
  "missing_evidence = ref_note ''verifier:missing-evidence'' ''A definitive verifier verdict had no concrete evidence reference.''"

text \<open>One raw verdict: a raise, \<open>None\<close> when it is malformed, or the verdict it gives. The test
  whether the status is one of the three raises on a list or an object, which have no hash.\<close>

definition read_verdict :: "json \<Rightarrow> item_verdict option result" where
  "read_verdict raw =
     (case raw of JObj d \<Rightarrow>
        (case jget raw ''item'' of
           JStr item \<Rightarrow>
             if py_strip item = [] then Inr None
             else (case jget raw ''verdict'' of
                JList _ \<Rightarrow> Inl TypeError
              | JObj _ \<Rightarrow> Inl TypeError
              | JStr status \<Rightarrow>
                  if status \<notin> {''confirmed'', ''rejected'', ''indeterminate''} then Inr None
                  else (case (jget raw ''evidence'', case map_of d ''rationale'' of None \<Rightarrow> JStr [] | Some r \<Rightarrow> r) of
                     (JList ev, JStr rationale) \<Rightarrow>
                       if \<not> list_all valid_evidence_entry ev then Inr None
                       else if verdict_from_str status \<noteq> INDETERMINATE \<and> ev = [] then
                         Inr (Some (item_of (py_strip item) INDETERMINATE [missing_evidence]
                           ''Definitive acceptance verdicts require concrete evidence.''))
                       else Inr (Some (item_of (py_strip item) (verdict_from_str status) ev rationale))
                   | _ \<Rightarrow> Inr None)
              | _ \<Rightarrow> Inr None)
         | _ \<Rightarrow> Inr None)
      | _ \<Rightarrow> Inr None)"

text \<open>The loop over the raw verdicts: the last complaint and the verdicts that could be read.\<close>

fun read_verdicts :: "int \<Rightarrow> json list \<Rightarrow> (json option \<times> item_verdict list) result" where
  "read_verdicts i [] = Inr (None, [])"
| "read_verdicts i (raw # raws) =
     rbind (read_verdict raw) (\<lambda>r. rbind (read_verdicts (i + 1) raws) (\<lambda>(infra, vs).
       Inr (case r of
          Some v \<Rightarrow> (infra, v # vs)
        | None \<Rightarrow> (case infra of Some m \<Rightarrow> Some m | None \<Rightarrow> Some (JStr
            (if is_obj raw then ''verification agent verdict fields were malformed at index '' @ str_of_int i
             else ''verification agent verdict fields were malformed'')), vs))))"

text \<open>\<^verbatim>\<open>agent_out.get("verdicts") or []\<close> as it is iterated over.\<close>

definition raw_verdicts :: "json \<Rightarrow> json list result" where
  "raw_verdicts v =
     (if \<not> truthy v then Inr []
      else case v of JList xs \<Rightarrow> Inr xs | JStr s \<Rightarrow> Inr (map (\<lambda>c. JStr [c]) s) | JObj d \<Rightarrow> Inr (map (JStr \<circ> fst) d)
         | _ \<Rightarrow> Inl TypeError)"

section \<open>Earlier attempts\<close>

definition stored_report :: "acc_lib \<Rightarrow> patch \<Rightarrow> json option" where
  "stored_report L flow =
     (let raw = field flow ''verification_report'' JNull in
      if \<not> truthy raw then None
      else case (case raw of JStr s \<Rightarrow> al_loads L s | JObj d \<Rightarrow> Some raw | _ \<Rightarrow> None) of
             Some (JObj d) \<Rightarrow> Some (JObj d) | _ \<Rightarrow> None)"

definition same_pair :: "json \<Rightarrow> json \<Rightarrow> string \<Rightarrow> bool" where
  "same_pair report merge_sha snap_hash \<longleftrightarrow>
     jget report ''merge_sha'' = merge_sha \<and> jget report ''issue_acceptance_hash'' = JStr snap_hash"

definition status_text :: "patch \<Rightarrow> string" where
  "status_text flow = (case field flow ''verification_status'' JNull of JStr s \<Rightarrow> s | _ \<Rightarrow> [])"

definition already_verified_for :: "acc_lib \<Rightarrow> patch \<Rightarrow> json \<Rightarrow> string \<Rightarrow> json option" where
  "already_verified_for L flow merge_sha snap_hash =
     (if py_strip (status_text flow) \<notin> {''confirmed'', ''rejected'', ''indeterminate''} then None
      else case stored_report L flow of
        Some report \<Rightarrow>
          if truthy (jget report ''infra_error'') \<or> \<not> same_pair report merge_sha snap_hash then None else Some report
      | None \<Rightarrow> None)"

text \<open>\<^verbatim>\<open>int(x or 0)\<close> on what the phase itself wrote.\<close>

definition int_or_zero :: "json \<Rightarrow> int" where
  "int_or_zero v = (case v of JInt n \<Rightarrow> n | JBool b \<Rightarrow> of_bool b
     | JStr s \<Rightarrow> (case int_of_digits s of Some n \<Rightarrow> n | None \<Rightarrow> 0) | _ \<Rightarrow> 0)"

definition infra_report :: "acc_lib \<Rightarrow> patch \<Rightarrow> json \<Rightarrow> string \<Rightarrow> json option" where
  "infra_report L flow merge_sha snap_hash =
     (case stored_report L flow of
        Some report \<Rightarrow> if truthy (jget report ''infra_error'') \<and> same_pair report merge_sha snap_hash then Some report else None
      | None \<Rightarrow> None)"

definition prior_infra_retry_count :: "acc_lib \<Rightarrow> patch \<Rightarrow> json \<Rightarrow> string \<Rightarrow> int" where
  "prior_infra_retry_count L flow merge_sha snap_hash =
     (case infra_report L flow merge_sha snap_hash of
        Some report \<Rightarrow> max 0 (int_or_zero (jget report ''infra_retry_count'')) | None \<Rightarrow> 0)"

definition prior_infra_error_kind :: "acc_lib \<Rightarrow> patch \<Rightarrow> json \<Rightarrow> string \<Rightarrow> string option" where
  "prior_infra_error_kind L flow merge_sha snap_hash =
     (case infra_report L flow merge_sha snap_hash of
        Some report \<Rightarrow> (case jget report ''infra_error_kind'' of JStr s \<Rightarrow> if s = [] then None else Some s | _ \<Rightarrow> None)
      | None \<Rightarrow> None)"

definition max_verifier_infra_retries :: int where "max_verifier_infra_retries = 3"
definition deterministic_parse_max_retries :: int where "deterministic_parse_max_retries = 2"

section \<open>The snapshot in force\<close>

definition parse_issue_body :: "acc_env \<Rightarrow> json \<Rightarrow> string" where
  "parse_issue_body e issue_number =
     (if \<not> truthy issue_number then []
      else case ae_issue e of
        Inr (JObj d) \<Rightarrow> (case map_of d ''body'' of Some (JStr b) \<Rightarrow> b | _ \<Rightarrow> [])
      | _ \<Rightarrow> [])"

definition stored_snapshot :: "acc_lib \<Rightarrow> patch \<Rightarrow> snapshot option" where
  "stored_snapshot L flow =
     (case field flow ''issue_acceptance_snapshot'' JNull of
        JStr s \<Rightarrow> if s = [] then None else snapshot_of_json (al_loads L) s
      | _ \<Rightarrow> None)"

definition current_snapshot :: "acc_lib \<Rightarrow> acc_env \<Rightarrow> patch \<Rightarrow> snapshot" where
  "current_snapshot L e flow =
     (case stored_snapshot L flow of Some sn \<Rightarrow> sn
      | None \<Rightarrow> parse_acceptance_snapshot (parse_issue_body e (field flow ''github_issue_number'' JNull)))"

definition requires_extraction :: "snapshot \<Rightarrow> bool" where
  "requires_extraction sn \<longleftrightarrow> sn_source sn = ''missing'' \<or> sn_required_paths sn = [] \<and> sn_checklist sn = []"

definition issue_int :: "json \<Rightarrow> int option" where
  "issue_int v = (case v of JInt n \<Rightarrow> Some n | _ \<Rightarrow> None)"

section \<open>One attempt\<close>

record attempt =
  at_snapshot :: snapshot
  at_hash :: string
  at_infra :: json
  at_kind :: json
  at_count :: int
  at_scope :: "item_verdict list"
  at_advisory :: "json list"
  at_gates :: "item_verdict list"
  at_verifier :: "item_verdict list"
  at_status :: string
  at_agent :: jdict

text \<open>What the answer of the agent says about the snapshot: the snapshot that holds from here on
  and a complaint, if there is one.\<close>

definition settle_snapshot :: "snapshot \<Rightarrow> json \<Rightarrow> json \<Rightarrow> json \<Rightarrow> snapshot \<times> json" where
  "settle_snapshot sn issue_number extracted infra =
     (if extracted \<noteq> JNull then
        (if \<not> requires_extraction sn then
           (sn, JStr ''verification agent returned an unexpected snapshot for structured criteria'')
         else case validate_extracted_snapshot extracted (issue_int issue_number) of
             Some sn' \<Rightarrow> (sn', infra)
           | None \<Rightarrow> (sn, JStr ''verification agent returned invalid snapshot''))
      else if requires_extraction sn \<and> \<not> truthy infra then
        (sn, JStr ''verification agent omitted the required extracted acceptance snapshot'')
      else (sn, infra))"

definition infrastructure_item :: "acc_lib \<Rightarrow> json \<Rightarrow> item_verdict" where
  "infrastructure_item L infra =
     \<lparr>iv_item = ''verifier:infrastructure'', iv_verdict = INDETERMINATE,
      iv_evidence = [ref_note ''verifier:infra-error'' (case infra of JStr s \<Rightarrow> s | _ \<Rightarrow> al_str L infra)],
      iv_rationale = ''The verifier did not complete successfully; no acceptance decision was made.'', iv_retryable = True\<rparr>"

definition probe_complaint :: "item_verdict list \<Rightarrow> json \<Rightarrow> json" where
  "probe_complaint probed infra =
     (let retryable = map iv_item (filter iv_retryable probed)
      in if retryable \<noteq> [] \<and> \<not> truthy infra
         then JStr (''acceptance probes failed to run: '' @ py_join '', '' retryable) else infra)"

definition attempt_of ::
    "acc_lib \<Rightarrow> acc_env \<Rightarrow> patch \<Rightarrow> json \<Rightarrow> snapshot \<Rightarrow> jdict \<Rightarrow> json option \<Rightarrow> item_verdict list \<Rightarrow> attempt" where
  "attempt_of L e flow merge_sha sn0 agent_out complaint vs0 =
     (let infra0 = (case complaint of Some m \<Rightarrow> m | None \<Rightarrow> field agent_out ''infra_error'' JNull);
          snap = settle_snapshot sn0 (field flow ''github_issue_number'' JNull) (field agent_out ''snapshot'' JNull) infra0;
          sn = fst snap;
          snap_hash = hash_snapshot (al_digest L) sn;
          vs1 = cover_missing_checklist_items (al_fold L) vs0 (sn_checklist sn);
          scope = run_scope_gate (ae_gates e) (sn_required_paths sn) (sn_source sn);
          gates = run_mechanical_gates (ae_gates e);
          infra = probe_complaint (fst scope @ gates) (snd snap);
          vs = (if truthy infra then vs1 @ [infrastructure_item L infra] else vs1)
      in \<lparr>at_snapshot = sn, at_hash = snap_hash, at_infra = infra,
           at_kind = (if truthy infra then field agent_out ''infra_error_kind'' JNull else JNull),
           at_count = (if truthy infra then prior_infra_retry_count L flow merge_sha snap_hash + 1 else 0),
           at_scope = fst scope, at_advisory = snd scope, at_gates = gates, at_verifier = vs,
           at_status = (if truthy infra then ''indeterminate'' else aggregate_verdicts (fst scope @ gates @ vs)),
           at_agent = agent_out\<rparr>)"

definition verify_attempt ::
    "acc_lib \<Rightarrow> acc_env \<Rightarrow> patch \<Rightarrow> json \<Rightarrow> snapshot \<Rightarrow> jdict \<Rightarrow> attempt result" where
  "verify_attempt L e flow merge_sha sn0 agent_out =
     rbind (raw_verdicts (field agent_out ''verdicts'' JNull)) (\<lambda>raws.
     rbind (read_verdicts 0 raws) (\<lambda>(complaint, vs0).
       Inr (attempt_of L e flow merge_sha sn0 agent_out complaint vs0)))"

section \<open>The report\<close>

definition verified_by_default :: json where "verified_by_default = JStr ''acceptance-verifier-v1''"

definition short_entry :: "item_verdict \<Rightarrow> json" where
  "short_entry v = JObj [(''item'', JStr (iv_item v)), (''verdict'', JStr (tristate_value (iv_verdict v))), (''evidence'', JList (iv_evidence v))]"

definition long_entry :: "item_verdict \<Rightarrow> json" where
  "long_entry v = JObj [(''item'', JStr (iv_item v)), (''verdict'', JStr (tristate_value (iv_verdict v))),
     (''evidence'', JList (iv_evidence v)), (''rationale'', JStr (iv_rationale v))]"

definition verified_by_of :: "attempt \<Rightarrow> json" where
  "verified_by_of a = por (field (at_agent a) ''verified_by'' JNull) verified_by_default"

definition report_of :: "acc_env \<Rightarrow> json \<Rightarrow> attempt \<Rightarrow> json" where
  "report_of e merge_sha a = JObj
     [(''merge_sha'', merge_sha), (''issue_acceptance_hash'', JStr (at_hash a)), (''verified_by'', verified_by_of a),
      (''scope'', JList (map short_entry (at_scope a) @ at_advisory a)), (''gates'', JList (map long_entry (at_gates a))),
      (''verifier'', JList (map long_entry (at_verifier a))), (''status'', JStr (at_status a)),
      (''infra_error'', por (at_infra a) JNull), (''infra_error_kind'', at_kind a),
      (''infra_retry_count'', JInt (at_count a)), (''verified_at'', JStr (ae_now e))]"

definition common_patch :: "acc_lib \<Rightarrow> acc_env \<Rightarrow> patch \<Rightarrow> json \<Rightarrow> attempt \<Rightarrow> patch" where
  "common_patch L e flow merge_sha a =
     [(''verification_status'', JStr (at_status a)), (''verification_merge_sha'', merge_sha),
      (''verification_started_at'', por (field flow ''verification_started_at'' JNull) (JStr (ae_now e))),
      (''verification_completed_at'', JStr (ae_now e)),
      (''verification_report'', JStr (al_dumps L (report_of e merge_sha a))),
      (''issue_acceptance_snapshot'', JStr (snapshot_to_json (al_dumps L) (at_snapshot a))),
      (''issue_acceptance_hash'', JStr (at_hash a)), (''verified_by'', verified_by_of a),
      (''verification_attempt'', JInt (int_or_zero (field flow ''verification_attempt'' JNull) + 1))]"

definition report_entries :: "json \<Rightarrow> string \<Rightarrow> json list" where
  "report_entries report kind = (case jget report kind of JList xs \<Rightarrow> xs | _ \<Rightarrow> [])"

definition failed_items :: "json \<Rightarrow> (string \<times> json) list" where
  "failed_items report =
     concat (map (\<lambda>kind. map (Pair kind)
         (filter (\<lambda>x. jget x ''verdict'' \<noteq> JStr ''confirmed'' \<and> jget x ''verdict'' \<noteq> JStr ''advisory'') (report_entries report kind)))
       [''scope'', ''gates'', ''verifier''])"

definition advisory_items :: "json \<Rightarrow> json list" where
  "advisory_items report =
     concat (map (\<lambda>kind. filter (\<lambda>x. jget x ''verdict'' = JStr ''advisory'') (report_entries report kind))
       [''scope'', ''gates'', ''verifier''])"

definition entry_names :: "json list \<Rightarrow> string list" where
  "entry_names xs = filter (\<lambda>n. n \<noteq> []) (map (\<lambda>x. case jget x ''item'' of JStr n \<Rightarrow> py_strip n | _ \<Rightarrow> []) xs)"

definition listed_names :: "string list \<Rightarrow> string" where
  "listed_names names = py_join '', '' (take 6 names) @
     (if length names > 6 then '' (+'' @ str_of_int (int (length names) - 6) @ '' more)'' else [])"

definition acceptance_summary :: "string \<Rightarrow> json \<Rightarrow> string" where
  "acceptance_summary status report =
     (let failed = entry_names (map snd (failed_items report)); advisory = entry_names (advisory_items report) in
      if failed \<noteq> [] then ''status='' @ status @ ''; not-verified: '' @ listed_names failed
      else if advisory \<noteq> [] then ''status='' @ status @ ''; advisory: '' @ listed_names advisory
      else ''status='' @ status @ ''; scope='' @ str_of_int (int (length (report_entries report ''scope''))) @
        '' gates='' @ str_of_int (int (length (report_entries report ''gates''))) @
        '' verifier='' @ str_of_int (int (length (report_entries report ''verifier''))))"

section \<open>Settling\<close>

definition usage_keys :: "string list" where
  "usage_keys = [''total_tokens'', ''total_input_tokens'', ''total_output_tokens'', ''request_count'']"

definition agent_text :: "attempt \<Rightarrow> string \<Rightarrow> string" where
  "agent_text a k = (case field (at_agent a) k JNull of JStr s \<Rightarrow> s | _ \<Rightarrow> [])"

definition agent_count :: "attempt \<Rightarrow> string \<Rightarrow> string \<Rightarrow> int" where
  "agent_count a k c = int_or_zero (jget (field (at_agent a) k JNull) c)"

definition acceptance_milestone :: "acc_lib \<Rightarrow> acc_env \<Rightarrow> patch \<Rightarrow> json \<Rightarrow> attempt \<Rightarrow> patch" where
  "acceptance_milestone L e flow merge_sha a =
     (let report = report_of e merge_sha a in
     [(''workflow_id'', field flow ''workflow_id'' JNull), (''milestone_id'', JStr (ae_uuid e)),
      (''phase'', JStr ''acceptance_verification''),
      (''dev_round'', JInt (case por (field flow ''dev_round'' JNull) (JInt 1) of v \<Rightarrow> int_or_zero v)),
      (''round_number'', JInt (int_or_zero (field flow ''verification_attempt'' JNull) + 1)),
      (''milestone_type'', JStr ''acceptance_verification''), (''status'', JStr (at_status a)),
      (''title'', JStr (''Acceptance verification: '' @ at_status a)),
      (''result_summary'', JStr (acceptance_summary (at_status a) report)), (''metadata'', JStr (al_dumps L report)),
      (''session_id'', JStr (agent_text a ''session_id'')),
      (''phase_total_tokens'', JInt (agent_count a ''usage'' ''total_tokens'')),
      (''phase_input_tokens'', JInt (agent_count a ''usage'' ''total_input_tokens'')),
      (''phase_output_tokens'', JInt (agent_count a ''usage'' ''total_output_tokens'')),
      (''phase_request_count'', JInt (agent_count a ''usage'' ''request_count''))])"

definition finalize_fields :: "acc_lib \<Rightarrow> acc_env \<Rightarrow> json \<Rightarrow> attempt \<Rightarrow> patch" where
  "finalize_fields L e merge_sha a =
     [(''status'', JStr (at_status a)), (''title'', JStr (''Acceptance verification: '' @ at_status a)),
      (''result_summary'', JStr (acceptance_summary (at_status a) (report_of e merge_sha a))),
      (''metadata'', JStr (al_dumps L (report_of e merge_sha a))), (''session_id'', JStr (agent_text a ''session_id''))]"

definition early_id :: "attempt \<Rightarrow> string" where
  "early_id a = agent_text a ''milestone_id''"

definition finalized :: "attempt \<Rightarrow> patch \<Rightarrow> acc_event list" where
  "finalized a upd = (if early_id a = [] then [] else [Finalized (early_id a) upd])"

definition tagged :: "acc_env \<Rightarrow> attempt \<Rightarrow> acc_event list" where
  "tagged e a = (if agent_text a ''session_id'' = [] then []
     else [Tagged (agent_text a ''session_id'') (if early_id a = [] then ae_uuid e else early_id a)])"

definition settle_milestones :: "acc_lib \<Rightarrow> acc_env \<Rightarrow> patch \<Rightarrow> json \<Rightarrow> attempt \<Rightarrow> patch list" where
  "settle_milestones L e flow merge_sha a = (if early_id a = [] then [acceptance_milestone L e flow merge_sha a] else [])"

definition has_usage :: "attempt \<Rightarrow> bool" where
  "has_usage a =
     (if early_id a = [] then truthy (field (at_agent a) ''usage'' JNull)
      else list_ex (\<lambda>k. agent_count a ''usage_baseline'' k + agent_count a ''usage'' k \<noteq> 0) usage_keys)"

definition deterministic_repeat :: "acc_lib \<Rightarrow> patch \<Rightarrow> json \<Rightarrow> attempt \<Rightarrow> bool" where
  "deterministic_repeat L flow merge_sha a \<longleftrightarrow>
     at_kind a = JStr ''unparseable_output'' \<and>
     prior_infra_error_kind L flow merge_sha (at_hash a) = Some ''unparseable_output''"

definition effective_max :: "acc_lib \<Rightarrow> patch \<Rightarrow> json \<Rightarrow> attempt \<Rightarrow> int" where
  "effective_max L flow merge_sha a =
     (if deterministic_repeat L flow merge_sha a then deterministic_parse_max_retries else max_verifier_infra_retries)"

definition error_pair :: "string \<Rightarrow> string \<times> json" where
  "error_pair m = (''error_message'', JStr m)"

definition pause_with :: "acc_lib \<Rightarrow> acc_env \<Rightarrow> patch \<Rightarrow> json \<Rightarrow> attempt \<Rightarrow> string \<Rightarrow> string \<Rightarrow> phase_result" where
  "pause_with L e flow merge_sha a message err =
     result_pause (common_patch L e flow merge_sha a @ [error_pair message]) (settle_milestones L e flow merge_sha a)
       (JObj [(''message'', JStr err), (''report'', report_of e merge_sha a)]) (has_usage a)"

definition posted_comment :: "acc_env \<Rightarrow> json \<Rightarrow> json \<Rightarrow> acc_event list" where
  "posted_comment e issue_number report =
     (if truthy issue_number \<and> ae_write e ''comment'' = None then [Commented report] else [])"

definition settle_infra :: "acc_lib \<Rightarrow> acc_env \<Rightarrow> patch \<Rightarrow> json \<Rightarrow> attempt \<Rightarrow> phase_result acc" where
  "settle_infra L e flow merge_sha a =
     (if at_count a < effective_max L flow merge_sha a then
        (finalized a [(''status'', JStr ''failed''), (''title'', JStr ''Acceptance verification: failed''),
            error_pair ''Acceptance verifier infrastructure failure; retrying''] @
           (if early_id a = [] then [] else tagged e a),
         Inr (result_retry (common_patch L e flow merge_sha a @ [error_pair ''Acceptance verifier infrastructure failure; retrying''])))
      else
        (let message = (if deterministic_repeat L flow merge_sha a
               then ''Acceptance verifier produced unparseable output '' @ str_of_int (at_count a) @ ''x; awaiting review''
               else ''Acceptance verifier infrastructure retries exhausted; awaiting review'')
         in (finalized a (finalize_fields L e merge_sha a @ [error_pair message]) @ tagged e a,
             Inr (pause_with L e flow merge_sha a message ''verifier-infrastructure-exhausted''))))"

definition settle_confirmed :: "acc_lib \<Rightarrow> acc_env \<Rightarrow> patch \<Rightarrow> json \<Rightarrow> attempt \<Rightarrow> phase_result acc" where
  "settle_confirmed L e flow merge_sha a =
     (if \<not> ae_guard e 1 then ([], Inr (result_retry []))
      else case ae_write e ''comment'' of Some exc \<Rightarrow> ([], Inl (Exn exc)) | None \<Rightarrow>
        (if \<not> ae_guard e 2 then ([Commented (report_of e merge_sha a)], Inr (result_retry []))
         else case ae_write e ''close'' of
             Some exc \<Rightarrow> ([Commented (report_of e merge_sha a)], Inl (Exn exc))
           | None \<Rightarrow>
               ([Commented (report_of e merge_sha a), Closed] @ finalized a (finalize_fields L e merge_sha a) @ tagged e a,
                Inr (result_completed (Some ''completed'') None
                  (common_patch L e flow merge_sha a @
                     [(''issue_closed_by_workflow_at'', JStr (ae_now e)), (''completed_at'', JStr (ae_now e)), (''error_message'', JNull)])
                  (settle_milestones L e flow merge_sha a) (has_usage a)))))"

definition settle_paused :: "acc_lib \<Rightarrow> acc_env \<Rightarrow> patch \<Rightarrow> json \<Rightarrow> attempt \<Rightarrow> phase_result acc" where
  "settle_paused L e flow merge_sha a =
     (posted_comment e (field flow ''github_issue_number'' JNull) (report_of e merge_sha a) @
        finalized a (finalize_fields L e merge_sha a) @ tagged e a,
      Inr (if at_status a = ''rejected''
           then pause_with L e flow merge_sha a ''Acceptance verification rejected; awaiting review'' ''Acceptance verification rejected''
           else pause_with L e flow merge_sha a ''Acceptance indeterminate: awaiting evidence'' ''indeterminate''))"

definition settle :: "acc_lib \<Rightarrow> acc_env \<Rightarrow> patch \<Rightarrow> json \<Rightarrow> attempt \<Rightarrow> phase_result acc" where
  "settle L e flow merge_sha a =
     (if truthy (at_infra a) then settle_infra L e flow merge_sha a
      else if at_status a = ''confirmed'' then settle_confirmed L e flow merge_sha a
      else settle_paused L e flow merge_sha a)"

section \<open>The handler\<close>

definition folded :: "acc_lib \<Rightarrow> string \<Rightarrow> utext" where
  "folded L s = concat (map (al_fold L) (ucode s))"

definition service_closure :: "acc_lib \<Rightarrow> acc_env \<Rightarrow> (string \<times> json) option" where
  "service_closure L e =
     (case (ae_closure e, ae_login e) of
        (Inr closure, Inr (Some login)) \<Rightarrow>
          (let closer = (case closure of Some (c, _) \<Rightarrow> c | None \<Rightarrow> []);
               closed_at = (case closure of Some (_, t) \<Rightarrow> t | None \<Rightarrow> JNull)
           in if login \<noteq> [] \<and> folded L closer = folded L login then Some (closer, closed_at) else None)
      | _ \<Rightarrow> None)"

text \<open>\<open>None\<close> asks for a retry, \<open>Some\<close> goes on.\<close>

definition reopen_stage :: "acc_lib \<Rightarrow> acc_env \<Rightarrow> json \<Rightarrow> unit option acc" where
  "reopen_stage L e issue_number =
     (if \<not> truthy issue_number \<or> ae_issue_open e then ([], Inr (Some ()))
      else case service_closure L e of
        None \<Rightarrow> ([], Inr (Some ()))
      | Some (closer, closed_at) \<Rightarrow>
          if \<not> ae_guard e 0 then ([], Inr None)
          else case ae_write e ''reopen'' of Some exc \<Rightarrow> ([], Inl (Exn exc)) | None \<Rightarrow>
            ([Reopened, Audited ''acceptance_reopened_issue''
                (JObj [(''issue'', issue_number), (''closer'', JStr closer), (''closed_at'', closed_at)])], Inr (Some ())))"

definition replayed :: "json \<Rightarrow> patch \<Rightarrow> phase_result" where
  "replayed prior flow =
     (let status = por (jget prior ''status'') (JStr (status_text flow)) in
      if status = JStr ''confirmed'' then result_completed (Some ''completed'') None [] [] False
      else if status = JStr ''rejected'' then
        result_pause [(''verification_status'', JStr ''rejected''),
            error_pair ''Acceptance already rejected for this merge; awaiting next action''] []
          (JObj [(''message'', JStr ''replayed-rejected''), (''report'', prior)]) False
      else
        result_pause [(''verification_status'', JStr ''indeterminate''),
            error_pair ''Acceptance indeterminate (reused prior result); awaiting evidence''] []
          (JObj [(''message'', JStr ''replayed-indeterminate''), (''report'', prior)]) False)"

text \<open>From the snapshot on.\<close>

definition verify_stage :: "acc_lib \<Rightarrow> acc_env \<Rightarrow> patch \<Rightarrow> json \<Rightarrow> phase_result acc" where
  "verify_stage L e flow merge_sha =
     (let sn = current_snapshot L e flow;
          prior = (if requires_extraction sn then None
                   else already_verified_for L flow merge_sha (hash_snapshot (al_digest L) sn))
      in case prior of
           Some report \<Rightarrow> ([], Inr (replayed report flow))
         | None \<Rightarrow>
             (case run_verification_agent L e of
                Inl stop \<Rightarrow> ([], Inl stop)
              | Inr agent_out \<Rightarrow>
                  (case verify_attempt L e flow merge_sha sn agent_out of
                     Inl exc \<Rightarrow> ([Verifier_Ran], Inl (Exn exc))
                   | Inr a \<Rightarrow> (case settle L e flow merge_sha a of (evs, r) \<Rightarrow> (Verifier_Ran # evs, r)))))"

definition merge_sha_of :: "acc_env \<Rightarrow> patch \<Rightarrow> json result" where
  "merge_sha_of e flow =
     (if \<not> truthy (field flow ''verification_merge_sha'' JNull) \<and> truthy (field flow ''github_pr_number'' JNull)
      then ae_merge_sha e else Inr (field flow ''verification_merge_sha'' JNull))"

definition handle_acceptance :: "acc_lib \<Rightarrow> acc_env \<Rightarrow> patch \<Rightarrow> phase_result acc" where
  "handle_acceptance L e flow =
     (if \<not> ae_enabled e then ([], Inr (result_completed (Some ''completed'') None [] [] False))
      else if field flow ''verification_status'' JNull = JStr ''confirmed''
        then ([], Inr (result_completed (Some ''completed'') None [] [] False))
      else case merge_sha_of e flow of
        Inl exc \<Rightarrow> ([], Inl (Exn exc))
      | Inr merge_sha \<Rightarrow>
          if \<not> truthy merge_sha \<or> \<not> truthy (field flow ''base_commit_sha'' JNull) then ([], Inr (result_retry []))
          else case reopen_stage L e (field flow ''github_issue_number'' JNull) of
            (evs, Inl stop) \<Rightarrow> (evs, Inl stop)
          | (evs, Inr None) \<Rightarrow> (evs, Inr (result_retry []))
          | (evs, Inr (Some _)) \<Rightarrow>
              (case verify_stage L e flow merge_sha of (evs', r) \<Rightarrow> (evs @ evs', r)))"

section \<open>Lemmas\<close>

lemma read_verdict_evidence:
  "read_verdict raw = Inr (Some v) \<Longrightarrow> iv_verdict v = CONFIRMED \<Longrightarrow> iv_evidence v \<noteq> []"
  by (auto simp: read_verdict_def split: json.splits if_splits option.splits)

lemma read_verdicts_evidence:
  "read_verdicts i raws = Inr (c, vs) \<Longrightarrow> v \<in> set vs \<Longrightarrow> iv_verdict v = CONFIRMED \<Longrightarrow> iv_evidence v \<noteq> []"
proof (induction i raws arbitrary: c vs rule: read_verdicts.induct)
  case (2 i raw raws)
  from "2.prems"(1) obtain r c' vs' where r: "read_verdict raw = Inr r" and rest: "read_verdicts (i + 1) raws = Inr (c', vs')"
    and vs: "vs = (case r of Some w \<Rightarrow> w # vs' | None \<Rightarrow> vs')"
    by (auto split: option.splits)
  have ih: "v \<in> set vs' \<Longrightarrow> iv_evidence v \<noteq> []" using "2.IH" r rest "2.prems"(3) by blast
  show ?case
  proof (cases r)
    case None
    with vs ih "2.prems"(2) show ?thesis by simp
  next
    case (Some w)
    then show ?thesis using vs ih "2.prems"(2,3) read_verdict_evidence [of raw w] r by auto
  qed
qed simp

lemma probe_complaint_silent: "\<not> truthy (probe_complaint probed infra) \<Longrightarrow> \<forall>v\<in>set probed. \<not> iv_retryable v"
  by (auto simp: probe_complaint_def Let_def filter_empty_conv split: if_splits)

lemma attempt_of_simps:
  fixes L e flow m sn0 out c vs0
  defines "a \<equiv> attempt_of L e flow m sn0 out c vs0"
  shows "at_snapshot a = fst (settle_snapshot sn0 (field flow ''github_issue_number'' JNull) (field out ''snapshot'' JNull)
        (case c of Some x \<Rightarrow> x | None \<Rightarrow> field out ''infra_error'' JNull))"
    and "at_hash a = hash_snapshot (al_digest L) (at_snapshot a)"
    and "at_scope a = fst (run_scope_gate (ae_gates e) (sn_required_paths (at_snapshot a)) (sn_source (at_snapshot a)))"
    and "at_gates a = run_mechanical_gates (ae_gates e)"
    and "at_infra a = probe_complaint (at_scope a @ at_gates a)
       (snd (settle_snapshot sn0 (field flow ''github_issue_number'' JNull) (field out ''snapshot'' JNull)
          (case c of Some x \<Rightarrow> x | None \<Rightarrow> field out ''infra_error'' JNull)))"
    and "at_verifier a = cover_missing_checklist_items (al_fold L) vs0 (sn_checklist (at_snapshot a)) @
       (if truthy (at_infra a) then [infrastructure_item L (at_infra a)] else [])"
    and "at_status a = (if truthy (at_infra a) then ''indeterminate'' else aggregate_verdicts (at_scope a @ at_gates a @ at_verifier a))"
    and "at_count a = (if truthy (at_infra a) then prior_infra_retry_count L flow m (at_hash a) + 1 else 0)"
    and "at_kind a = (if truthy (at_infra a) then field out ''infra_error_kind'' JNull else JNull)"
    and "at_agent a = out"
  by (simp_all only: a_def attempt_of_def Let_def attempt.simps) simp_all

lemma verify_attempt_Inr:
  assumes "verify_attempt L e flow m sn0 out = Inr a"
  obtains raws c vs0 where "raw_verdicts (field out ''verdicts'' JNull) = Inr raws" "read_verdicts 0 raws = Inr (c, vs0)"
    "a = attempt_of L e flow m sn0 out c vs0"
  using assms by (auto simp: verify_attempt_def)

lemma settle_events:
  "Closed \<in> set (fst (settle L e flow m a)) \<Longrightarrow>
     \<not> truthy (at_infra a) \<and> at_status a = ''confirmed'' \<and> ae_guard e 1 \<and> ae_guard e 2"
  by (auto simp: settle_def settle_infra_def settle_confirmed_def settle_paused_def finalized_def tagged_def
      posted_comment_def Let_def split: if_splits option.splits)

lemma settle_outcome:
  assumes "settle L e flow m a = (evs, Inr r)"
  shows "res_outcome r = Completed \<and> Closed \<in> set evs \<or>
     res_outcome r = Pause \<or> res_outcome r = Retry \<and> (res_patch r = [] \<or> truthy (at_infra a) \<and>
        at_count a < effective_max L flow m a \<and>
        res_patch r = common_patch L e flow m a @ [error_pair ''Acceptance verifier infrastructure failure; retrying''])"
  using assms
  by (auto simp: settle_def settle_infra_def settle_confirmed_def settle_paused_def pause_with_def result_pause_def
      result_retry_def result_completed_def Let_def split: if_splits option.splits)

lemma reopen_events: "set (fst (reopen_stage L e i)) \<inter> {Closed, Verifier_Ran} = {}"
  by (auto simp: reopen_stage_def split: option.splits if_splits)

text \<open>The three ways in which the handler ends after the early exits.\<close>

lemma handle_cases:
  assumes "handle_acceptance L e flow = (evs, res)"
  obtains
    (idle) "set evs \<inter> {Closed, Verifier_Ran} = {}"
      "\<And>r. res = Inr r \<Longrightarrow> res_outcome r \<in> {Completed, Retry} \<and> res_patch r = []"
  | (on) m evs0 evs1 where "ae_enabled e" "merge_sha_of e flow = Inr m" "truthy m" "evs = evs0 @ evs1"
      "set evs0 \<inter> {Closed, Verifier_Ran} = {}" "verify_stage L e flow m = (evs1, res)"
proof -
  show thesis
  proof (cases "\<not> ae_enabled e \<or> field flow ''verification_status'' JNull = JStr ''confirmed''")
    case True
    then have "handle_acceptance L e flow = ([], Inr (result_completed (Some ''completed'') None [] [] False))"
      unfolding handle_acceptance_def by (rule disjE) (simp_all only: if_True if_False not_False_eq_True simp_thms if_cancel)
    with assms show thesis by (intro idle) (simp_all add: result_completed_def)
  next
    case on0: False
    show thesis
    proof (cases "merge_sha_of e flow")
      case (Inl exc)
      with on0 have "handle_acceptance L e flow = ([], Inl (Exn exc))" by (simp add: handle_acceptance_def)
      with assms show thesis by (intro idle) simp_all
    next
      case (Inr m)
      show thesis
      proof (cases "truthy m \<and> truthy (field flow ''base_commit_sha'' JNull)")
        case False
        with on0 Inr have "handle_acceptance L e flow = ([], Inr (result_retry []))"
          by (simp add: handle_acceptance_def)
        with assms show thesis by (intro idle) (simp_all add: result_retry_def)
      next
        case True
        obtain evs0 r0 where r0: "reopen_stage L e (field flow ''github_issue_number'' JNull) = (evs0, r0)" by fastforce
        have no: "set evs0 \<inter> {Closed, Verifier_Ran} = {}"
          using reopen_events [of L e "field flow ''github_issue_number'' JNull"] r0 by simp
        have h: "handle_acceptance L e flow = (case (evs0, r0) of
            (evs, Inl stop) \<Rightarrow> (evs, Inl stop)
          | (evs, Inr None) \<Rightarrow> (evs, Inr (result_retry []))
          | (evs, Inr (Some _)) \<Rightarrow> (case verify_stage L e flow m of (evs', r) \<Rightarrow> (evs @ evs', r)))"
          using on0 Inr True r0 by (simp add: handle_acceptance_def)
        consider stop where "r0 = Inl stop" | "r0 = Inr None" | "r0 = Inr (Some ())"
          by (metis old.sum.exhaust option.exhaust old.unit.exhaust)
        then show thesis
        proof cases
          case 1
          with h assms no show thesis by (intro idle) simp_all
        next
          case 2
          with h assms no show thesis by (intro idle) (simp_all add: result_retry_def)
        next
          case 3
          obtain evs1 r1 where r1: "verify_stage L e flow m = (evs1, r1)" by fastforce
          with h 3 assms have "evs = evs0 @ evs1" "res = r1" by simp_all
          with on on0 Inr True no r1 show thesis by blast
        qed
      qed
    qed
  qed
qed

lemma verify_stage_cases:
  assumes "verify_stage L e flow m = (evs, res)"
  obtains (replay) report where "evs = []" "res = Inr (replayed report flow)"
      "already_verified_for L flow m (hash_snapshot (al_digest L) (current_snapshot L e flow)) = Some report"
      "\<not> requires_extraction (current_snapshot L e flow)"
    | (stopped) stop where "Closed \<notin> set evs" "res = Inl stop"
    | (ran) out a evs1 where "run_verification_agent L e = Inr out"
        "verify_attempt L e flow m (current_snapshot L e flow) out = Inr a" "settle L e flow m a = (evs1, res)" "evs = Verifier_Ran # evs1"
  using assms by (auto simp: verify_stage_def Let_def split: option.splits sum.splits prod.splits if_splits)

lemma replayed_outcome: "res_outcome (replayed report flow) = Pause \<or> res_outcome (replayed report flow) = Completed \<and> res_patch (replayed report flow) = []"
  by (simp add: replayed_def Let_def result_completed_def result_pause_def)

lemma read_verdicts_complaint: "read_verdicts i raws = Inr (c, vs) \<Longrightarrow> c = Some m \<Longrightarrow> truthy m"
proof (induction raws arbitrary: i c vs m)
  case (Cons raw raws)
  show ?case
  proof (cases "read_verdict raw")
    case (Inr r)
    with Cons.prems(1) obtain c' vs' where rest: "read_verdicts (i + 1) raws = Inr (c', vs')"
      by auto
    with Cons.prems Inr Cons.IH [OF rest] show ?thesis
      by (cases r; cases c') (auto split: if_splits)
  qed (use Cons.prems in simp)
qed simp

lemma settle_snapshot_quiet:
  assumes "\<not> truthy (snd (settle_snapshot sn0 i ext infra))"
  shows "\<not> truthy infra \<and> (fst (settle_snapshot sn0 i ext infra) = sn0 \<and> \<not> requires_extraction sn0 \<and> ext = JNull \<or>
     requires_extraction sn0 \<and> sn_source (fst (settle_snapshot sn0 i ext infra)) = ''llm'')"
  using assms by (auto simp: settle_snapshot_def dest: validated_spec split: if_splits option.splits)

lemma probe_complaint_quiet: "\<not> truthy (probe_complaint probed infra) \<Longrightarrow> \<not> truthy infra"
  by (auto simp: probe_complaint_def Let_def split: if_splits)

definition item_confirmed_by :: "acc_lib \<Rightarrow> item_verdict list \<Rightarrow> string \<Rightarrow> bool" where
  "item_confirmed_by L vs c \<longleftrightarrow>
     norm_str (al_fold L) c = [] \<or>
     (\<exists>v\<in>set vs. iv_verdict v = CONFIRMED \<and> iv_evidence v \<noteq> [] \<and>
        (norm_str (al_fold L) (iv_item v) = norm_str (al_fold L) c \<or> paraphrases (al_fold L) c (iv_item v)))"

definition path_accepted :: "gate_env \<Rightarrow> string \<Rightarrow> string \<Rightarrow> bool" where
  "path_accepted g source p \<longleftrightarrow>
     (\<exists>changed. ge_changed g ''scope'' = Inr changed \<and>
        ((\<exists>c\<in>set changed. fnmatch c p \<or> c = p) \<or> source \<noteq> ''convention'' \<and> \<not> lost_path g p))"

lemma confirmed_attempt:
  assumes "a = attempt_of L e flow m sn0 out c vs" and "read_verdicts 0 raws = Inr (c, vs)"
    and "\<not> truthy (at_infra a)" and "at_status a = ''confirmed''"
  shows "c = None \<and> (at_snapshot a = sn0 \<and> \<not> requires_extraction sn0 \<or> sn_source (at_snapshot a) = ''llm'') \<and>
     (\<forall>i\<in>set (sn_checklist (at_snapshot a)). item_confirmed_by L vs i) \<and>
     (\<forall>p\<in>set (sn_required_paths (at_snapshot a)). path_accepted (ae_gates e) (sn_source (at_snapshot a)) p) \<and>
     (\<forall>v\<in>set (run_mechanical_gates (ae_gates e)). iv_verdict v = CONFIRMED) \<and> \<not> some_gate_raises (ae_gates e)"
proof -
  note simps = attempt_of_simps [of L e flow m sn0 out c vs, folded assms(1)]
  define infra0 where "infra0 = (case c of Some x \<Rightarrow> x | None \<Rightarrow> field out ''infra_error'' JNull)"
  have quiet: "\<not> truthy (snd (settle_snapshot sn0 (field flow ''github_issue_number'' JNull) (field out ''snapshot'' JNull) infra0))"
    using assms(3) simps(5) probe_complaint_quiet unfolding infra0_def by auto
  from settle_snapshot_quiet [OF quiet] have "\<not> truthy infra0"
    and sn: "at_snapshot a = sn0 \<and> \<not> requires_extraction sn0 \<or> sn_source (at_snapshot a) = ''llm''"
    unfolding simps(1) infra0_def by auto
  then have c: "c = None" using read_verdicts_complaint [OF assms(2)] by (cases c) (auto simp: infra0_def)
  have agg: "aggregate_verdicts (at_scope a @ at_gates a @ cover_missing_checklist_items (al_fold L) vs (sn_checklist (at_snapshot a))) = ''confirmed''"
    using assms(3,4) simps(6,7) by simp
  then have all: "\<forall>v\<in>set (at_scope a) \<union> set (at_gates a) \<union>
      set (cover_missing_checklist_items (al_fold L) vs (sn_checklist (at_snapshot a))). iv_verdict v = CONFIRMED"
    by (simp add: aggregate_confirmed_iff ball_Un)
  have items: "item_confirmed_by L vs i" if "i \<in> set (sn_checklist (at_snapshot a))" for i
    using confirmed_covers [OF _ that, of "al_fold L" vs] all read_verdicts_evidence [OF assms(2)]
    unfolding item_confirmed_by_def by blast
  have paths: "path_accepted (ae_gates e) (sn_source (at_snapshot a)) p" if "p \<in> set (sn_required_paths (at_snapshot a))" for p
    unfolding path_accepted_def by (rule scope_no_objection [OF _ that]) (use all simps(3) in auto)
  have gates: "\<forall>v\<in>set (run_mechanical_gates (ae_gates e)). iv_verdict v = CONFIRMED" using all simps(4) by auto
  then have "\<not> some_gate_raises (ae_gates e)" using raised_gate_retryable by fastforce
  with c sn items paths gates show ?thesis by blast
qed

lemma handle_closed:
  assumes "Closed \<in> set (fst (handle_acceptance L e flow))"
  obtains m out a where "merge_sha_of e flow = Inr m" "run_verification_agent L e = Inr out"
    "verify_attempt L e flow m (current_snapshot L e flow) out = Inr a"
    "\<not> truthy (at_infra a)" "at_status a = ''confirmed''" "ae_guard e 1" "ae_guard e 2"
proof -
  obtain evs res where h: "handle_acceptance L e flow = (evs, res)" by fastforce
  from h show thesis
  proof (cases rule: handle_cases)
    case idle
    with assms h show thesis by auto
  next
    case (on m evs0 evs1)
    from on(6) show thesis
    proof (cases rule: verify_stage_cases)
      case (ran out a evs2)
      have "Closed \<in> set (fst (settle L e flow m a))" using assms h on ran by auto
      from settle_events [OF this] show thesis using that on ran by blast
    qed (use assms h on in auto)
  qed
qed

section \<open>Retries\<close>

text \<open>The row as the commit of a patch leaves it.\<close>

definition patched :: "patch \<Rightarrow> patch \<Rightarrow> patch" where
  "patched flow p = foldl (\<lambda>d kv. AList.update (fst kv) (snd kv) d) flow p"

definition infra_retry :: "acc_lib \<Rightarrow> acc_env \<Rightarrow> patch \<Rightarrow> patch \<Rightarrow> bool" where
  "infra_retry L e flow p \<longleftrightarrow>
     (\<exists>r. snd (handle_acceptance L e flow) = Inr r \<and> res_outcome r = Retry \<and> res_patch r = p \<and> p \<noteq> [])"

lemma infra_retry_attempt:
  assumes "infra_retry L e flow p"
  obtains m out a where "merge_sha_of e flow = Inr m" "truthy m" "run_verification_agent L e = Inr out"
    "verify_attempt L e flow m (current_snapshot L e flow) out = Inr a" "truthy (at_infra a)"
    "at_count a < effective_max L flow m a"
    "p = common_patch L e flow m a @ [error_pair ''Acceptance verifier infrastructure failure; retrying'']"
proof -
  obtain evs r where h: "handle_acceptance L e flow = (evs, Inr r)" and r: "res_outcome r = Retry" "res_patch r = p" "p \<noteq> []"
    using assms unfolding infra_retry_def by (metis prod.collapse)
  from h show thesis
  proof (cases rule: handle_cases)
    case idle
    with r show thesis by auto
  next
    case (on m evs0 evs1)
    from on(6) show thesis
    proof (cases rule: verify_stage_cases)
      case (replay report)
      with r replayed_outcome [of report flow] show thesis by auto
    next
      case (ran out a evs2)
      from settle_outcome [OF ran(3)] r show thesis using that on ran by auto
    qed auto
  qed
qed

lemma field_patched:
  "field (patched flow p) k d = (case map_of (rev p) k of Some v \<Rightarrow> v | None \<Rightarrow> field flow k d)"
proof (induction p rule: rev_induct)
  case (snoc kv p)
  then show ?case
    by (cases kv) (auto simp: patched_def field_def map_of_update split: option.splits)
qed (simp add: patched_def)

text \<open>What the library of Python promises: a document is read back as it was dumped, and no dump is
  empty.\<close>

definition lib_ok :: "acc_lib \<Rightarrow> bool" where
  "lib_ok L \<longleftrightarrow> (\<forall>v. al_loads L (al_dumps L v) = Some v \<and> al_dumps L v \<noteq> [])"

text \<open>A row whose last attempt failed for the infrastructure the \<open>c\<close>-th time in a row.\<close>

definition retry_state :: "acc_lib \<Rightarrow> patch \<Rightarrow> snapshot \<Rightarrow> int \<Rightarrow> bool" where
  "retry_state L flow sn c \<longleftrightarrow>
     stored_snapshot L flow = Some sn \<and> truthy (field flow ''verification_merge_sha'' JNull) \<and> 1 \<le> c \<and> c \<le> 2 \<and>
     (\<exists>rep. infra_report L flow (field flow ''verification_merge_sha'' JNull) (hash_snapshot (al_digest L) sn) = Some rep \<and>
        jget rep ''infra_retry_count'' = JInt c)"

definition retry_budget :: "snapshot \<Rightarrow> int \<Rightarrow> nat" where
  "retry_budget sn c = (if requires_extraction sn then 2 else 0) + nat (2 - c)"

fun infra_run :: "acc_lib \<Rightarrow> acc_env list \<Rightarrow> patch \<Rightarrow> bool" where
  "infra_run L [] flow = True"
| "infra_run L (e # es) flow = (\<exists>p. infra_retry L e flow p \<and> infra_run L es (patched flow p))"

lemma common_patch_fields:
  assumes "p = common_patch L e flow m a @ [error_pair msg]"
  shows "field (patched flow p) ''verification_merge_sha'' d = m"
    and "field (patched flow p) ''verification_report'' d = JStr (al_dumps L (report_of e m a))"
    and "field (patched flow p) ''issue_acceptance_snapshot'' d = JStr (snapshot_to_json (al_dumps L) (at_snapshot a))"
  unfolding assms field_patched by (simp_all add: common_patch_def error_pair_def)

lemma report_fields:
  "jget (report_of e m a) ''infra_error'' = por (at_infra a) JNull" "jget (report_of e m a) ''merge_sha'' = m"
  "jget (report_of e m a) ''issue_acceptance_hash'' = JStr (at_hash a)"
  "jget (report_of e m a) ''infra_retry_count'' = JInt (at_count a)" "jget (report_of e m a) ''infra_error_kind'' = at_kind a"
  by (simp_all add: report_of_def jget_def)

lemma effective_max_le: "effective_max L flow m a \<le> 3"
  by (simp add: effective_max_def deterministic_parse_max_retries_def max_verifier_infra_retries_def)

lemma prior_count_nonneg: "0 \<le> prior_infra_retry_count L flow m h"
  by (simp add: prior_infra_retry_count_def split: option.splits)

lemma report_read_back:
  assumes "lib_ok L" and "p = common_patch L e flow m a @ [error_pair msg]" and "truthy (at_infra a)"
  shows "infra_report L (patched flow p) m (at_hash a) = Some (report_of e m a)"
proof -
  note fs = common_patch_fields [OF assms(2)]
  have "stored_report L (patched flow p) = Some (report_of e m a)"
    using assms(1) by (simp add: stored_report_def fs lib_ok_def Let_def) (simp add: report_of_def)
  then show ?thesis using assms(3) by (simp add: infra_report_def same_pair_def report_fields por_def)
qed

lemma settle_snapshot_cases:
  "fst (settle_snapshot sn i ext infra) = sn \<or>
   requires_extraction sn \<and> \<not> requires_extraction (fst (settle_snapshot sn i ext infra))"
  by (auto simp: settle_snapshot_def requires_extraction_def dest: validated_spec split: option.splits)

lemma infra_retry_state:
  assumes "lib_ok L" and "infra_retry L e flow p"
  obtains sn c where "retry_state L (patched flow p) sn c"
    "sn = current_snapshot L e flow \<or> requires_extraction (current_snapshot L e flow) \<and> \<not> requires_extraction sn"
    "\<And>m. merge_sha_of e flow = Inr m \<Longrightarrow> c = prior_infra_retry_count L flow m (hash_snapshot (al_digest L) sn) + 1"
proof -
  from assms(2) obtain m out a where m: "merge_sha_of e flow = Inr m" "truthy m"
    and at: "verify_attempt L e flow m (current_snapshot L e flow) out = Inr a" "truthy (at_infra a)"
      "at_count a < effective_max L flow m a"
    and p: "p = common_patch L e flow m a @ [error_pair ''Acceptance verifier infrastructure failure; retrying'']"
    by (rule infra_retry_attempt)
  from at(1) obtain c vs where a: "a = attempt_of L e flow m (current_snapshot L e flow) out c vs"
    by (rule verify_attempt_Inr)
  note simps = attempt_of_simps [of L e flow m "current_snapshot L e flow" out c vs, folded a]
  note fs = common_patch_fields [OF p]
  have count: "at_count a = prior_infra_retry_count L flow m (at_hash a) + 1" using simps(8) at(2) by simp
  then have "1 \<le> at_count a" using prior_count_nonneg [of L flow m "at_hash a"] by simp
  moreover have "at_count a \<le> 2" using at(3) effective_max_le [of L flow m a] by simp
  moreover have "stored_snapshot L (patched flow p) = Some (at_snapshot a)"
    using assms(1) by (simp add: stored_snapshot_def fs lib_ok_def snapshot_read_back) (simp add: snapshot_to_json_def)
  ultimately have "retry_state L (patched flow p) (at_snapshot a) (at_count a)"
    using report_read_back [OF assms(1) p at(2)] m(2) by (simp add: retry_state_def fs simps(2) [symmetric] report_fields)
  moreover have "at_snapshot a = current_snapshot L e flow \<or>
      requires_extraction (current_snapshot L e flow) \<and> \<not> requires_extraction (at_snapshot a)"
    unfolding simps(1) by (rule settle_snapshot_cases)
  ultimately show thesis using that count m(1) simps(2) by auto
qed

lemma retry_state_step:
  assumes "lib_ok L" and "retry_state L flow sn c" and "infra_retry L e flow p"
  obtains sn' c' where "retry_state L (patched flow p) sn' c'" "retry_budget sn' c' < retry_budget sn c"
proof -
  have cur: "current_snapshot L e flow = sn" using assms(2) by (simp add: retry_state_def current_snapshot_def)
  have m: "merge_sha_of e flow = Inr (field flow ''verification_merge_sha'' JNull)"
    using assms(2) by (simp add: retry_state_def merge_sha_of_def)
  obtain sn' c' where st: "retry_state L (patched flow p) sn' c'"
    and "sn' = current_snapshot L e flow \<or> requires_extraction (current_snapshot L e flow) \<and> \<not> requires_extraction sn'"
    and "\<And>m. merge_sha_of e flow = Inr m \<Longrightarrow> c' = prior_infra_retry_count L flow m (hash_snapshot (al_digest L) sn') + 1"
    by (rule infra_retry_state [OF assms(1,3)]) blast
  then have sn': "sn' = sn \<or> requires_extraction sn \<and> \<not> requires_extraction sn'"
    and c': "c' = prior_infra_retry_count L flow (field flow ''verification_merge_sha'' JNull) (hash_snapshot (al_digest L) sn') + 1"
    unfolding cur using m by simp_all
  have range: "1 \<le> c'" "c' \<le> 2" "1 \<le> c" "c \<le> 2" using st assms(2) by (simp_all add: retry_state_def)
  have "prior_infra_retry_count L flow (field flow ''verification_merge_sha'' JNull) (hash_snapshot (al_digest L) sn) = c"
  proof -
    obtain rep where "infra_report L flow (field flow ''verification_merge_sha'' JNull) (hash_snapshot (al_digest L) sn) = Some rep"
      "jget rep ''infra_retry_count'' = JInt c" using assms(2) unfolding retry_state_def by blast
    then show ?thesis using range by (simp add: prior_infra_retry_count_def int_or_zero_def)
  qed
  then have "sn' = sn \<Longrightarrow> c' = c + 1" using c' by simp
  then have "retry_budget sn' c' < retry_budget sn c" using sn' range by (auto simp: retry_budget_def)
  with st that show thesis by blast
qed

lemma infra_run_budget:
  "lib_ok L \<Longrightarrow> retry_state L flow sn c \<Longrightarrow> infra_run L es flow \<Longrightarrow> length es \<le> retry_budget sn c"
proof (induction es arbitrary: flow sn c)
  case (Cons e es)
  then obtain p where p: "infra_retry L e flow p" "infra_run L es (patched flow p)" by auto
  obtain sn' c' where "retry_state L (patched flow p) sn' c'" "retry_budget sn' c' < retry_budget sn c"
    by (rule retry_state_step [OF Cons.prems(1,2) p(1)])
  with Cons.IH [OF Cons.prems(1) _ p(2)] show ?case by fastforce
qed simp

lemma infra_run_bounded:
  assumes "lib_ok L" and "infra_run L es flow"
  shows "length es \<le> 4"
proof (cases es)
  case (Cons e es')
  then obtain p where p: "infra_retry L e flow p" "infra_run L es' (patched flow p)" using assms(2) by auto
  obtain sn c where st: "retry_state L (patched flow p) sn c" by (rule infra_retry_state [OF assms(1) p(1)])
  have "length es' \<le> retry_budget sn c" by (rule infra_run_budget [OF assms(1) st p(2)])
  also have "1 \<le> c" using st by (simp add: retry_state_def)
  then have "retry_budget sn c \<le> 3" by (auto simp: retry_budget_def)
  finally show ?thesis using Cons by simp
qed simp

lemma closed_accepted:
  assumes "Closed \<in> set (fst (handle_acceptance L e flow))"
  shows "ae_guard e 1 \<and> ae_guard e 2 \<and> \<not> some_gate_raises (ae_gates e) \<and>
     (\<forall>v\<in>set (run_mechanical_gates (ae_gates e)). iv_verdict v = CONFIRMED) \<and>
     (\<exists>out sn vs raws. run_verification_agent L e = Inr out \<and> raw_verdicts (field out ''verdicts'' JNull) = Inr raws \<and>
        (sn = current_snapshot L e flow \<and> \<not> requires_extraction sn \<or> sn_source sn = ''llm'') \<and>
        read_verdicts 0 raws = Inr (None, vs) \<and>
        (\<forall>i\<in>set (sn_checklist sn). item_confirmed_by L vs i) \<and>
        (\<forall>p\<in>set (sn_required_paths sn). path_accepted (ae_gates e) (sn_source sn) p))"
  using assms
proof (rule handle_closed)
  fix m out a
  assume run: "run_verification_agent L e = Inr out"
    and at: "verify_attempt L e flow m (current_snapshot L e flow) out = Inr a"
    and quiet: "\<not> truthy (at_infra a)" and conf: "at_status a = ''confirmed''" and g: "ae_guard e 1" "ae_guard e 2"
  from at obtain raws c vs where raws: "raw_verdicts (field out ''verdicts'' JNull) = Inr raws"
    and r: "read_verdicts 0 raws = Inr (c, vs)"
    and a: "a = attempt_of L e flow m (current_snapshot L e flow) out c vs" by (rule verify_attempt_Inr)
  note all = confirmed_attempt [OF a r quiet conf]
  have sn: "at_snapshot a = current_snapshot L e flow \<and> \<not> requires_extraction (at_snapshot a) \<or> sn_source (at_snapshot a) = ''llm''"
    using all [THEN conjunct2, THEN conjunct1] by (elim disjE) simp_all
  have r': "read_verdicts 0 raws = Inr (None, vs)" using r all [THEN conjunct1] by simp
  show ?thesis
    by (intro conjI exI [of _ out] exI [of _ "at_snapshot a"] exI [of _ vs] exI [of _ raws])
      (rule g run raws sn r' all [THEN conjunct2, THEN conjunct2, THEN conjunct1]
        all [THEN conjunct2, THEN conjunct2, THEN conjunct2, THEN conjunct1]
        all [THEN conjunct2, THEN conjunct2, THEN conjunct2, THEN conjunct2, THEN conjunct1]
        all [THEN conjunct2, THEN conjunct2, THEN conjunct2, THEN conjunct2, THEN conjunct2])+
qed

lemma handle_issue_irrelevant:
  assumes "stored_snapshot L flow = Some sn"
  shows "handle_acceptance L (e\<lparr>ae_issue := i\<rparr>) flow = handle_acceptance L e flow"
proof -
  have "attach_early (e\<lparr>ae_issue := i\<rparr>) = attach_early e" "attach_runtime (e\<lparr>ae_issue := i\<rparr>) = attach_runtime e"
    "verifier_failure (e\<lparr>ae_issue := i\<rparr>) = verifier_failure e"
    by (intro ext, simp add: attach_early_def attach_runtime_def verifier_failure_def)+
  then have 1: "run_verification_agent L (e\<lparr>ae_issue := i\<rparr>) = run_verification_agent L e"
    by (simp add: run_verification_agent_def split: verifier_run.split)
  have 2: "current_snapshot L (e\<lparr>ae_issue := i\<rparr>) flow = current_snapshot L e flow"
    using assms by (simp add: current_snapshot_def)
  have 3: "verify_attempt L (e\<lparr>ae_issue := i\<rparr>) flow m sn0 out = verify_attempt L e flow m sn0 out" for m sn0 out
  proof -
    have "attempt_of L (e\<lparr>ae_issue := i\<rparr>) = attempt_of L e" by (intro ext) (simp add: attempt_of_def)
    then show ?thesis by (simp add: verify_attempt_def)
  qed
  have r: "report_of (e\<lparr>ae_issue := i\<rparr>) m a = report_of e m a" for m a by (simp add: report_of_def)
  have c: "common_patch L (e\<lparr>ae_issue := i\<rparr>) flow m a = common_patch L e flow m a" for m a
    unfolding common_patch_def r by simp
  have ms: "settle_milestones L (e\<lparr>ae_issue := i\<rparr>) flow m a = settle_milestones L e flow m a" for m a
    unfolding settle_milestones_def acceptance_milestone_def r by simp
  have f: "finalize_fields L (e\<lparr>ae_issue := i\<rparr>) m a = finalize_fields L e m a" for m a
    unfolding finalize_fields_def r by simp
  have t: "tagged (e\<lparr>ae_issue := i\<rparr>) a = tagged e a" for a by (simp add: tagged_def)
  have pw: "pause_with L (e\<lparr>ae_issue := i\<rparr>) flow m a x y = pause_with L e flow m a x y" for m a x y
    unfolding pause_with_def r c ms by simp
  have pc: "posted_comment (e\<lparr>ae_issue := i\<rparr>) = posted_comment e" by (intro ext) (simp add: posted_comment_def)
  have 4: "settle L (e\<lparr>ae_issue := i\<rparr>) flow m a = settle L e flow m a" for m a
    unfolding settle_def settle_infra_def settle_confirmed_def settle_paused_def r c ms f t pw pc by (simp split: option.split)
  have 5: "verify_stage L (e\<lparr>ae_issue := i\<rparr>) flow m = verify_stage L e flow m" for m
    unfolding verify_stage_def 1 2 3 4 by (rule refl)
  have 6: "reopen_stage L (e\<lparr>ae_issue := i\<rparr>) n = reopen_stage L e n" for n
    unfolding reopen_stage_def service_closure_def by (simp split: option.split)
  show ?thesis unfolding handle_acceptance_def 5 6 merge_sha_of_def by simp
qed

instance json :: countable by countable_datatype

section \<open>Properties\<close>

text \<open>C6: the issue is closed only when the verifier ran and everything agreed: no complaint about
  its answer, every item of the checklist confirmed with evidence by an item of the agent that
  names or paraphrases it, every required path changed (or, for an extracted snapshot, not lost),
  every gate silent or confirming and none of them failing to run, and the lock held before the
  comment and before the closing.\<close>
theorem issue_closed_only_when_accepted:
  assumes "Closed \<in> set (fst (handle_acceptance L e flow))"
  shows "ae_guard e 1 \<and> ae_guard e 2 \<and> \<not> some_gate_raises (ae_gates e) \<and>
     (\<forall>v\<in>set (run_mechanical_gates (ae_gates e)). iv_verdict v = CONFIRMED) \<and>
     (\<exists>out sn vs raws. run_verification_agent L e = Inr out \<and> raw_verdicts (field out ''verdicts'' JNull) = Inr raws \<and>
        (sn = current_snapshot L e flow \<and> \<not> requires_extraction sn \<or> sn_source sn = ''llm'') \<and>
        read_verdicts 0 raws = Inr (None, vs) \<and>
        (\<forall>i\<in>set (sn_checklist sn). item_confirmed_by L vs i) \<and>
        (\<forall>p\<in>set (sn_required_paths sn). path_accepted (ae_gates e) (sn_source sn) p))"
  using assms by (rule closed_accepted)

text \<open>failures of the infrastructure keep the workflow in its phase four times in a row at the
  most, twice for one snapshot and twice more when the criteria were extracted meanwhile; whatever
  the later attempts meet, the next one ends otherwise.\<close>
theorem infra_retries_bounded:
  assumes "lib_ok L" and "infra_run L es flow"
  shows "length es \<le> 4"
  using assms by (rule infra_run_bounded)

text \<open>delivered code is never marked as failed: the phase completes, pauses or retries, and
  when it completes with a change to the row, it has closed the issue.\<close>
theorem delivered_code_never_failed:
  assumes "handle_acceptance L e flow = (evs, Inr r)"
  shows "res_outcome r \<in> {Completed, Pause, Retry} \<and> (res_outcome r = Completed \<longrightarrow> res_patch r = [] \<or> Closed \<in> set evs)"
  using assms
proof (cases rule: handle_cases)
  case idle
  then show ?thesis by auto
next
  case (on m evs0 evs1)
  from on(6) show ?thesis
  proof (cases rule: verify_stage_cases)
    case (replay report)
    then show ?thesis using replayed_outcome [of report flow] by auto
  next
    case (ran out a evs2)
    then show ?thesis using settle_outcome [OF ran(3)] on by auto
  qed auto
qed

text \<open>an issue whose criteria were stored by an earlier attempt is not read again: editing it
  changes nothing.\<close>
theorem edited_issue_not_reread:
  assumes "stored_snapshot L flow = Some sn"
  shows "handle_acceptance L (e\<lparr>ae_issue := edited\<rparr>) flow = handle_acceptance L e flow"
  using assms by (rule handle_issue_irrelevant)

text \<open>when the issue cannot be read once, its criteria count as missing whatever it says: the
  verifier has to extract them, and an extracted snapshot that is valid is the one in force.\<close>
theorem unreadable_issue_loses_criteria:
  assumes "stored_snapshot L flow = None" and "ae_issue e = Inl exc"
    and "validate_extracted_snapshot extracted (issue_int n) = Some sn" and "extracted \<noteq> JNull"
  shows "requires_extraction (current_snapshot L e flow) \<and>
     settle_snapshot (current_snapshot L e flow) n extracted infra = (sn, infra)"
proof -
  have "parse_issue_body e (field flow ''github_issue_number'' JNull) = []"
    using assms(2) by (simp add: parse_issue_body_def)
  moreover have "requires_extraction (parse_acceptance_snapshot [])" by code_simp
  ultimately have "requires_extraction (current_snapshot L e flow)" using assms(1) by (simp add: current_snapshot_def)
  with assms(3,4) show ?thesis by (simp add: settle_snapshot_def)
qed

text \<open>a verdict whose status is a list raises a TypeError out of the phase instead of counting
  as malformed, so the attempt is neither reported nor counted.\<close>
theorem unhashable_verdict_raises:
  assumes "raw_verdicts (field out ''verdicts'' JNull) = Inr (JObj [(''item'', JStr ''a''), (''verdict'', JList ys)] # raws)"
  shows "verify_attempt L e flow m sn out = Inl TypeError"
  using assms by (simp add: verify_attempt_def read_verdict_def jget_def py_strip_def py_space_def)

definition sample_snapshot :: snapshot where
  "sample_snapshot = empty_snapshot\<lparr>sn_checklist := [''logs the error''], sn_source := ''convention''\<rparr>"

definition sample_answer :: json where
  "sample_answer = JObj [(''verdicts'', JList [JObj [(''item'', JStr ''logs the error''), (''verdict'', JStr ''confirmed''),
     (''evidence'', JList [ref_note ''app/a.py:3'' ''''])]])]"

definition closing_lib :: acc_lib where
  "closing_lib = \<lparr>al_dumps = (\<lambda>_. ''d''),
     al_loads = (\<lambda>s. if s = ''s'' then Some (snapshot_dict sample_snapshot) else if s = ''{}'' then Some sample_answer else None),
     al_digest = (\<lambda>_. ''h''), al_str = (\<lambda>_. ''''), al_fold = ascii_fold\<rparr>"

definition closing_env :: acc_env where
  "closing_env = \<lparr>ae_enabled = True, ae_merge_sha = Inr JNull, ae_issue_open = True, ae_closure = Inr None, ae_login = Inr None,
     ae_issue = Inr JNull, ae_guard = (\<lambda>_. True), ae_write = (\<lambda>_. None), ae_run = Run_Text ''{}'', ae_early = None,
     ae_session = ''s1'', ae_usage = [], ae_verifier = ''v1'', ae_gates = merge_of [], ae_now = ''now'', ae_uuid = ''u1''\<rparr>"

definition closing_flow :: patch where
  "closing_flow = [(''verification_merge_sha'', JStr ''m1''), (''base_commit_sha'', JStr ''b1''), (''github_issue_number'', JInt 5),
     (''issue_acceptance_snapshot'', JStr ''s'')]"

lemma sample_closed: "Closed \<in> set (fst (handle_acceptance closing_lib closing_env closing_flow))"
  by code_simp

theorem issue_closed_only_when_accepted_witness:
  "\<not> some_gate_raises (ae_gates closing_env)"
  using issue_closed_only_when_accepted [OF sample_closed] by blast

definition stuck_env :: acc_env where "stuck_env = closing_env\<lparr>ae_run := No_Checkout\<rparr>"
definition stuck_flow :: patch where
  "stuck_flow = [(''verification_merge_sha'', JStr ''m1''), (''base_commit_sha'', JStr ''b1'')]"

definition counting_lib :: acc_lib where
  "counting_lib = \<lparr>al_dumps = (\<lambda>v. replicate (Suc (to_nat v)) CHR ''x''), al_loads = (\<lambda>s. Some (from_nat (length s - 1))),
     al_digest = (\<lambda>_. ''h''), al_str = (\<lambda>_. ''''), al_fold = ascii_fold\<rparr>"

lemma counting_lib_ok: "lib_ok counting_lib"
  by (simp add: lib_ok_def counting_lib_def)

lemma stuck_retries: "\<exists>p. infra_retry L stuck_env stuck_flow p"
proof -
  define sn where "sn = parse_acceptance_snapshot []"
  define a where "a = attempt_of L stuck_env stuck_flow (JStr ''m1'') sn (verifier_failure stuck_env ''merged-main checkout failed'') None []"
  note simps = attempt_of_simps [of L stuck_env stuck_flow "JStr ''m1''" sn "verifier_failure stuck_env ''merged-main checkout failed''" None "[]",
      folded a_def]
  have req: "requires_extraction sn" unfolding sn_def by code_simp
  have cur: "current_snapshot L stuck_env stuck_flow = sn"
    by (simp add: current_snapshot_def stored_snapshot_def stuck_flow_def field_def parse_issue_body_def sn_def)
  have at: "verify_attempt L stuck_env stuck_flow (JStr ''m1'') sn (verifier_failure stuck_env ''merged-main checkout failed'') = Inr a"
    by (simp add: verify_attempt_def verifier_failure_def raw_verdicts_def field_def a_def)
  have infra: "truthy (at_infra a)"
    unfolding simps(5) by (simp add: settle_snapshot_def verifier_failure_def field_def probe_complaint_def Let_def)
  have no: "infra_report L stuck_flow m h = None" for m h
    by (simp add: infra_report_def stored_report_def stuck_flow_def field_def)
  have "at_count a < effective_max L stuck_flow (JStr ''m1'') a"
    using infra by (simp add: simps(8) prior_infra_retry_count_def no effective_max_def deterministic_repeat_def
        prior_infra_error_kind_def max_verifier_infra_retries_def)
  then obtain evs r where "settle L stuck_env stuck_flow (JStr ''m1'') a = (evs, Inr r)" "res_outcome r = Retry" "res_patch r \<noteq> []"
    using infra by (simp add: settle_def settle_infra_def result_retry_def)
  moreover have "run_verification_agent L stuck_env = Inr (verifier_failure stuck_env ''merged-main checkout failed'')"
    by (simp add: run_verification_agent_def stuck_env_def)
  ultimately have "verify_stage L stuck_env stuck_flow (JStr ''m1'') = (Verifier_Ran # evs, Inr r)"
    using at req by (simp add: verify_stage_def cur)
  then have "handle_acceptance L stuck_env stuck_flow = (Verifier_Ran # evs, Inr r)"
    by (simp add: handle_acceptance_def stuck_env_def closing_env_def stuck_flow_def field_def merge_sha_of_def reopen_stage_def)
  then show ?thesis using \<open>res_outcome r = Retry\<close> \<open>res_patch r \<noteq> []\<close> by (auto simp: infra_retry_def)
qed

theorem infra_retries_bounded_witness:
  "infra_run counting_lib [stuck_env] stuck_flow \<and> length [stuck_env] \<le> 4"
proof -
  have "infra_run counting_lib [stuck_env] stuck_flow" using stuck_retries by simp
  with infra_retries_bounded [OF counting_lib_ok this] show ?thesis by simp
qed

lemma sample_outcome: "snd (handle_acceptance closing_lib (closing_env\<lparr>ae_enabled := False\<rparr>) closing_flow) = Inr (result_completed (Some ''completed'') None [] [] False)"
  by code_simp

theorem delivered_code_never_failed_witness:
  "res_outcome (result_completed (Some ''completed'') None [] [] False) \<in> {Completed, Pause, Retry}"
  using delivered_code_never_failed [of closing_lib "closing_env\<lparr>ae_enabled := False\<rparr>" closing_flow
      "fst (handle_acceptance closing_lib (closing_env\<lparr>ae_enabled := False\<rparr>) closing_flow)"] sample_outcome
  by (metis prod.collapse)

theorem edited_issue_not_reread_witness:
  "handle_acceptance closing_lib (closing_env\<lparr>ae_issue := Inr (JObj [(''body'', JStr ''## Acceptance Criteria'')])\<rparr>) closing_flow =
     handle_acceptance closing_lib closing_env closing_flow"
proof -
  have "stored_snapshot closing_lib closing_flow = Some sample_snapshot" by code_simp
  then show ?thesis by (rule edited_issue_not_reread)
qed

theorem unreadable_issue_loses_criteria_witness:
  "requires_extraction (current_snapshot closing_lib (closing_env\<lparr>ae_issue := Inl OSError\<rparr>) stuck_flow)"
proof -
  have "stored_snapshot closing_lib stuck_flow = None" by code_simp
  from unreadable_issue_loses_criteria [OF this, of "closing_env\<lparr>ae_issue := Inl OSError\<rparr>" OSError extracted_sample "JInt 5"]
    extracted_sample_validated
  show ?thesis by (simp add: issue_int_def extracted_sample_def)
qed

theorem unhashable_verdict_raises_witness:
  "verify_attempt closing_lib closing_env closing_flow (JStr ''m1'') sample_snapshot
     [(''verdicts'', JList [JObj [(''item'', JStr ''a''), (''verdict'', JList [])]])] = Inl TypeError"
  by (rule unhashable_verdict_raises [where raws = "[]"]) (simp add: raw_verdicts_def field_def)

end
