(* ===== verification/Workspace_Paths.thy ===== *)
theory Workspace_Paths
  imports Py_Text "HOL-Library.Sublist"
begin

text \<open>
  Which paths of the file system a user may reach (\<^verbatim>\<open>utils/path_guard.py\<close>, the guards of
  \<^verbatim>\<open>routes/fs.py\<close> and of the registration of a project in \<^verbatim>\<open>routes/projects.py\<close>): the shape and the
  blacklist of a path, the home directories of the users, the shared projects of a tenant, the two
  sides of a share (its registration and its use as a root) and what \<open>browse\<close>, \<open>check-path\<close>,
  \<open>create-directory\<close>, \<open>upload\<close> and \<open>download\<close> admit. What \<^verbatim>\<open>os.path.realpath\<close> answers, the
  users, the projects and the configuration are the environment; a directory tree that changes
  between the check and the access is not modelled. Where the code applies \<open>realpath\<close> outside
  \<open>is_valid_path\<close>, the path has passed it or comes from the configuration, so it does not raise.
\<close>

section \<open>The environment\<close>

text \<open>A user as the guards read it; a missing account or name is the empty string.\<close>

record fs_user =
  fu_id :: int
  fu_account :: string
  fu_name :: string
  fu_tenant :: "int option"

record project_row =
  pr_id :: int
  pr_tenant :: int
  pr_path :: string

record path_env =
  pe_realpath :: "string \<Rightarrow> string"
  pe_raises :: "string \<Rightarrow> bool"
  pe_windows :: bool
  pe_root :: bool
  pe_base_config :: string
  pe_users :: "fs_user list result"
  pe_shared :: "int \<Rightarrow> string list result"
  pe_projects :: "project_row list result"

section \<open>The shape of a path\<close>

definition os_sep :: "path_env \<Rightarrow> string" where
  "os_sep e = (if pe_windows e then [bsl] else ''/'')"

text \<open>Equal to a root or beneath it: \<^verbatim>\<open>p == root or p.startswith(root + os.sep)\<close>.\<close>

definition inside :: "path_env \<Rightarrow> string \<Rightarrow> string \<Rightarrow> bool" where
  "inside e p root \<longleftrightarrow> p = root \<or> py_startswith p (root @ os_sep e)"

definition blacklisted_paths :: "string list" where
  "blacklisted_paths = [''/etc'', ''/bin'', ''/sbin'', ''/usr'', ''/usr/local'', ''/usr/share'', ''/root'', ''/boot'', ''/dev'',
     ''/proc'', ''/sys'', ''/var'', ''/opt'', ''/tmp'', ''/lib'', ''/lib64'']"

definition blacklisted_resolved :: "path_env \<Rightarrow> string list" where
  "blacklisted_resolved e = blacklisted_paths @ map (pe_realpath e) blacklisted_paths"

definition is_valid_path :: "path_env \<Rightarrow> string \<Rightarrow> string list option \<Rightarrow> bool" where
  "is_valid_path e path allowed_prefixes \<longleftrightarrow>
     path \<noteq> [] \<and> \<not> py_contains ''..'' path \<and>
     (if pe_windows e then 2 \<le> length path \<and> path ! 1 = CHR '':'' else py_startswith path ''/'') \<and>
     \<not> pe_raises e path \<and>
     (let abs_path = pe_realpath e path in
      (pe_windows e \<or> \<not> list_ex (inside e abs_path) (blacklisted_resolved e)) \<and>
      (case allowed_prefixes of None \<Rightarrow> True | Some roots \<Rightarrow> roots = [] \<or> list_ex (inside e abs_path) roots))"

text \<open>\<open>re.split(r"[\\/]", value)\<close>, and a drive letter with its separator.\<close>

definition path_segments :: "string \<Rightarrow> string list" where
  "path_segments s = split_char CHR ''/'' (map (\<lambda>c. if c = bsl then CHR ''/'' else c) s)"

definition drive_path :: "string \<Rightarrow> bool" where
  "drive_path s \<longleftrightarrow>
     (case s of d # c # p # _ \<Rightarrow> (let n = (of_char d :: nat) in 65 \<le> n \<and> n \<le> 90 \<or> 97 \<le> n \<and> n \<le> 122) \<and> c = CHR '':'' \<and> (p = bsl \<or> p = CHR ''/'')
      | _ \<Rightarrow> False)"

definition is_valid_remote_path :: "json \<Rightarrow> bool" where
  "is_valid_remote_path v \<longleftrightarrow>
     (case v of JStr s \<Rightarrow>
        s \<noteq> [] \<and> CHR 0x00 \<notin> set s \<and> ''..'' \<notin> set (path_segments s) \<and>
        (py_startswith s ''/'' \<or> py_startswith s ''~/'' \<or> py_startswith s (CHR ''~'' # [bsl]) \<or> drive_path s)
      | _ \<Rightarrow> False)"

section \<open>Shared projects\<close>

definition shared_dirname :: string where "shared_dirname = ''shared''"

definition under_base :: "string \<Rightarrow> string \<Rightarrow> string" where
  "under_base base name = py_rstrip CHR ''/'' base @ ''/'' @ name"

definition shared_namespace_roots :: "path_env \<Rightarrow> string list \<Rightarrow> string list" where
  "shared_namespace_roots e bases = map (\<lambda>b. pe_realpath e (under_base b shared_dirname)) (filter (\<lambda>b. b \<noteq> []) bases)"

datatype share_error =
    Not_A_Path
  | Outside_Bases
  | Is_Base
  | Is_Namespace_Root
  | Is_Home_Or_Ancestor
  | Namespace_Is_Home
  | Must_Use_Namespace
  | In_Home
  | Outside_Creator_Roots

text \<open>The loop over the homes; \<open>roots\<close> are the resolved roots of the creator, \<open>None\<close> on the
  reading side.\<close>

fun home_conflict ::
    "path_env \<Rightarrow> string \<Rightarrow> string list \<Rightarrow> string list option \<Rightarrow> string list \<Rightarrow> share_error option" where
  "home_conflict e resolved namespace_roots roots [] = None"
| "home_conflict e resolved namespace_roots roots (home # homes) =
     (if home = [] then home_conflict e resolved namespace_roots roots homes
      else (let resolved_home = pe_realpath e home in
        if resolved_home = resolved \<or> py_startswith resolved_home (resolved @ os_sep e) then Some Is_Home_Or_Ancestor
        else if resolved_home \<in> set namespace_roots \<and> py_startswith resolved (resolved_home @ os_sep e) then Some Namespace_Is_Home
        else if py_startswith resolved (resolved_home @ os_sep e) \<and>
                resolved_home \<notin> set (case roots of Some rs \<Rightarrow> rs | None \<Rightarrow> []) then
          Some (if roots \<noteq> None then Must_Use_Namespace else In_Home)
        else home_conflict e resolved namespace_roots roots homes))"

definition shared_project_path_error ::
    "path_env \<Rightarrow> string \<Rightarrow> string list \<Rightarrow> string list \<Rightarrow> string list option \<Rightarrow> share_error option" where
  "shared_project_path_error e path base_dirs home_dirs creator_roots =
     (let bases = filter (\<lambda>b. b \<noteq> []) base_dirs in
      if \<not> is_valid_path e path (Some bases) then Some Outside_Bases
      else (let resolved = pe_realpath e path;
                namespace_roots = shared_namespace_roots e bases;
                roots = map_option (\<lambda>rs. map (pe_realpath e) (filter (\<lambda>r. r \<noteq> []) rs)) creator_roots
        in if \<exists>b\<in>set bases. resolved = pe_realpath e b then Some Is_Base
           else if resolved \<in> set namespace_roots then Some Is_Namespace_Root
           else case home_conflict e resolved namespace_roots roots home_dirs of
             Some err \<Rightarrow> Some err
           | None \<Rightarrow>
               (case roots of
                  Some rs \<Rightarrow> if \<not> list_ex (inside e resolved) rs then Some Outside_Creator_Roots else None
                | None \<Rightarrow> None)))"

section \<open>The homes and the roots of a user\<close>

definition workspace_base_dirs :: "path_env \<Rightarrow> string list" where
  "workspace_base_dirs e = map py_strip (filter (\<lambda>d. py_strip d \<noteq> []) (split_char CHR '','' (pe_base_config e)))"

definition account_of :: "fs_user \<Rightarrow> string" where
  "account_of u = (if fu_account u \<noteq> [] then fu_account u else fu_name u)"

definition username_is_another_users_account :: "path_env \<Rightarrow> fs_user \<Rightarrow> bool" where
  "username_is_another_users_account e u \<longleftrightarrow>
     (case pe_users e of Inl _ \<Rightarrow> False
      | Inr rows \<Rightarrow> list_ex (\<lambda>r. fu_account r = fu_name u \<and> fu_id r \<noteq> fu_id u) rows)"

definition home_roots_for_user :: "path_env \<Rightarrow> fs_user \<Rightarrow> bool \<Rightarrow> string list" where
  "home_roots_for_user e u sandboxed =
     (let account = account_of u in
      if account = [] \<or> account = shared_dirname then []
      else if fu_account u = [] \<and> pe_root e \<and> username_is_another_users_account e u then []
      else map (\<lambda>b. pe_realpath e (under_base b account)) (if sandboxed then [''/workspace''] else workspace_base_dirs e))"

text \<open>\<open>get_home_directory\<close>: the configured value as one directory.\<close>

definition legacy_home :: "path_env \<Rightarrow> fs_user \<Rightarrow> string" where
  "legacy_home e u = pe_base_config e @ ''/'' @ account_of u"

definition home_roots_for_write :: "path_env \<Rightarrow> fs_user \<Rightarrow> bool \<Rightarrow> string list" where
  "home_roots_for_write e u sandboxed =
     (let roots = home_roots_for_user e u sandboxed; legacy = pe_realpath e (legacy_home e u) in
      if roots = [] then [] else if legacy \<in> set roots then roots else roots @ [legacy])"

definition homes_of :: "string list \<Rightarrow> fs_user list \<Rightarrow> string list" where
  "homes_of bases rows =
     concat (map (\<lambda>r. if account_of r = [] then [] else map (\<lambda>b. under_base b (account_of r)) bases) rows)"

definition all_user_home_dirs :: "path_env \<Rightarrow> string list \<Rightarrow> string list" where
  "all_user_home_dirs e bases = (case pe_users e of Inl _ \<Rightarrow> [] | Inr rows \<Rightarrow> homes_of bases rows)"

definition shared_root_rejection_reason :: "path_env \<Rightarrow> string \<Rightarrow> string list \<Rightarrow> share_error option" where
  "shared_root_rejection_reason e path home_dirs =
     (if path = [] then Some Not_A_Path
      else shared_project_path_error e path (workspace_base_dirs e) home_dirs None)"

definition add_new :: "string list \<Rightarrow> string \<Rightarrow> string list" where
  "add_new ps p = (if p \<in> set ps then ps else ps @ [p])"

definition get_shared_project_paths :: "path_env \<Rightarrow> int \<Rightarrow> string list result" where
  "get_shared_project_paths e tenant =
     (if tenant \<le> 0 then Inr []
      else rbind (pe_shared e tenant) (\<lambda>rows. Inr (foldl add_new [] (map (pe_realpath e) (filter (\<lambda>r. r \<noteq> []) rows)))))"

definition allowed_roots_for_user :: "path_env \<Rightarrow> fs_user \<Rightarrow> bool \<Rightarrow> string list" where
  "allowed_roots_for_user e u sandboxed =
     (let roots = home_roots_for_user e u sandboxed in
      case fu_tenant u of None \<Rightarrow> roots
      | Some tenant \<Rightarrow>
          (case get_shared_project_paths e tenant of Inl _ \<Rightarrow> roots
           | Inr candidates \<Rightarrow>
               foldl add_new roots
                 (filter (\<lambda>c. shared_root_rejection_reason e c (all_user_home_dirs e (workspace_base_dirs e)) = None) candidates)))"

definition within_any_root :: "path_env \<Rightarrow> string \<Rightarrow> string list \<Rightarrow> bool" where
  "within_any_root e resolved roots \<longleftrightarrow> list_ex (\<lambda>r. r \<noteq> [] \<and> inside e resolved r) roots"

section \<open>What the endpoints admit\<close>

text \<open>\<^verbatim>\<open>os.path.dirname\<close> on POSIX.\<close>

definition posix_dirname :: "string \<Rightarrow> string" where
  "posix_dirname p =
     (let head = rev (dropWhile (\<lambda>c. c \<noteq> CHR ''/'') (rev p))
      in if list_all (\<lambda>c. c = CHR ''/'') head then head else py_rstrip CHR ''/'' head)"

datatype fs_error =
    Path_Required
  | Path_Not_String
  | Path_Too_Long
  | In_Sandbox
  | No_Home
  | Bad_Prefix
  | Not_Yours
  | First_Level_Home
  | Not_Validatable
  | Share_Rejected share_error
  | Private_Is_Base
  | Private_In_Namespace
  | Overlaps_Project int

fun check_bases :: "path_env \<Rightarrow> string \<Rightarrow> string list \<Rightarrow> string list \<Rightarrow> fs_error option" where
  "check_bases e resolved homes [] = Some Not_Validatable"
| "check_bases e resolved homes (base # bases) =
     (if resolved = pe_realpath e base then None
      else if posix_dirname resolved = pe_realpath e base then
        (if resolved \<notin> set homes then None else Some First_Level_Home)
      else check_bases e resolved homes bases)"

definition check_path_rejection_reason :: "path_env \<Rightarrow> string \<Rightarrow> fs_user \<Rightarrow> bool \<Rightarrow> fs_error option" where
  "check_path_rejection_reason e resolved u sandboxed =
     (if within_any_root e resolved (allowed_roots_for_user e u sandboxed) then None
      else check_bases e resolved (map (pe_realpath e) (all_user_home_dirs e (workspace_base_dirs e))) (workspace_base_dirs e))"

definition request_bases :: "path_env \<Rightarrow> bool \<Rightarrow> string list" where
  "request_bases e sandboxed = (if sandboxed then [''/workspace''] else workspace_base_dirs e)"

text \<open>\<open>browse\<close>: the directory that is listed.\<close>

definition browse_target :: "path_env \<Rightarrow> fs_user \<Rightarrow> bool \<Rightarrow> string \<Rightarrow> fs_error + string" where
  "browse_target e u sandboxed path =
     (if path = [] \<or> py_lower path = ''home'' then
        (case home_roots_for_user e u sandboxed of [] \<Rightarrow> Inl No_Home | root # _ \<Rightarrow> Inr root)
      else if \<not> is_valid_path e path (Some (request_bases e sandboxed)) then Inl Bad_Prefix
      else if \<not> within_any_root e (pe_realpath e path) (allowed_roots_for_user e u sandboxed) then Inl Not_Yours
      else Inr (pe_realpath e path))"

definition as_path :: "json \<Rightarrow> fs_error + string" where
  "as_path v = (if \<not> truthy v then Inl Path_Required else case v of JStr s \<Rightarrow> Inr s | _ \<Rightarrow> Inl Path_Not_String)"

definition admitted :: "path_env \<Rightarrow> fs_user \<Rightarrow> bool \<Rightarrow> string \<Rightarrow> fs_error + string" where
  "admitted e u sandboxed path =
     (if \<not> is_valid_path e path (Some (request_bases e sandboxed)) then Inl Bad_Prefix
      else case check_path_rejection_reason e (pe_realpath e path) u sandboxed of
        Some err \<Rightarrow> Inl err | None \<Rightarrow> Inr (pe_realpath e path))"

definition check_path_target :: "path_env \<Rightarrow> fs_user \<Rightarrow> bool \<Rightarrow> json \<Rightarrow> fs_error + string" where
  "check_path_target e u sandboxed v = rbind (as_path v) (admitted e u sandboxed)"

definition create_directory_target :: "path_env \<Rightarrow> fs_user \<Rightarrow> bool \<Rightarrow> json \<Rightarrow> fs_error + string" where
  "create_directory_target e u sandboxed v =
     (if sandboxed then Inl In_Sandbox
      else rbind (as_path v) (\<lambda>path. if length path > 4096 then Inl Path_Too_Long else admitted e u False path))"

text \<open>Upload, download and deletion stay in the homes of the user.\<close>

definition resolve_user_owned_path :: "path_env \<Rightarrow> fs_user \<Rightarrow> bool \<Rightarrow> string \<Rightarrow> (string \<times> string option \<times> string) result" where
  "resolve_user_owned_path e u sandboxed target =
     (if target = [] \<or> \<not> is_valid_path e target (Some (workspace_base_dirs e)) then Inl ValueError
      else (let resolved = pe_realpath e target in
        case find (inside e resolved) (home_roots_for_write e u sandboxed) of
          None \<Rightarrow> Inl ValueError
        | Some root \<Rightarrow> Inr (resolved, (if fu_account u = [] then None else Some (fu_account u)), root)))"

definition resolve_file_in_home :: "path_env \<Rightarrow> fs_user \<Rightarrow> string \<Rightarrow> (string \<times> string option \<times> string) option" where
  "resolve_file_in_home e u raw_path =
     (if raw_path = [] \<or> \<not> is_valid_path e raw_path (Some (workspace_base_dirs e)) then None
      else (let target = pe_realpath e raw_path in
        case find (\<lambda>r. within_any_root e target [r]) (home_roots_for_write e u False) of
          None \<Rightarrow> None
        | Some root \<Rightarrow> Some (target, (if fu_account u = [] then None else Some (fu_account u)), root)))"

section \<open>Registering a project\<close>

definition shared_registration_error :: "path_env \<Rightarrow> string \<Rightarrow> int \<Rightarrow> fs_error option" where
  "shared_registration_error e path tenant =
     (let bases = workspace_base_dirs e;
          homes = all_user_home_dirs e bases;
          open_roots = (case get_shared_project_paths e tenant of Inl _ \<Rightarrow> [] | Inr rs \<Rightarrow> rs);
          creator_roots = shared_namespace_roots e bases @
            filter (\<lambda>r. shared_project_path_error e r bases homes None = None) open_roots
      in map_option Share_Rejected (shared_project_path_error e path bases homes (Some creator_roots)))"

definition real_stripped :: "path_env \<Rightarrow> string \<Rightarrow> string" where
  "real_stripped e p = py_rstrip (hd (os_sep e)) (pe_realpath e p)"

text \<open>The projects of the other tenants by their path; a later row of the same path replaces the
  project.\<close>

definition other_projects :: "path_env \<Rightarrow> int \<Rightarrow> (string, int) dict" where
  "other_projects e tenant =
     (case pe_projects e of Inl _ \<Rightarrow> []
      | Inr rows \<Rightarrow>
          foldl (\<lambda>d r. AList.update (real_stripped e (pr_path r)) (pr_id r) d) []
            (filter (\<lambda>r. pr_tenant r \<noteq> tenant \<and> pr_path r \<noteq> [] \<and>
               real_stripped e (pr_path r) \<notin> set (map (real_stripped e) (workspace_base_dirs e))) rows))"

definition private_registration_error :: "path_env \<Rightarrow> string \<Rightarrow> int \<Rightarrow> fs_error option" where
  "private_registration_error e path tenant =
     (let bases = workspace_base_dirs e; resolved = real_stripped e path in
      if list_ex (\<lambda>b. resolved = real_stripped e b) bases then Some Private_Is_Base
      else if list_ex (inside e resolved) (shared_namespace_roots e bases) then Some Private_In_Namespace
      else map_option (\<lambda>kv. Overlaps_Project (snd kv))
        (find (\<lambda>kv. inside e resolved (fst kv) \<or> py_startswith (fst kv) (resolved @ os_sep e)) (other_projects e tenant)))"

section \<open>Lemmas\<close>

lemma os_sep_single: obtains c where "os_sep e = [c]"
  by (cases "pe_windows e") (auto simp: os_sep_def)

lemma inside_refl [simp]: "inside e p p"
  by (simp add: inside_def)

lemma inside_trans: "inside e p q \<Longrightarrow> inside e q r \<Longrightarrow> inside e p r"
  unfolding inside_def py_startswith_iff by (metis append_assoc)

lemma inside_comparable:
  assumes "inside e p a" and "inside e p b"
  shows "inside e a b \<or> inside e b a"
proof -
  obtain c where c: "os_sep e = [c]" by (rule os_sep_single)
  consider "p = a" | "p = b" | "prefix (a @ [c]) p" "prefix (b @ [c]) p"
    using assms unfolding inside_def c py_startswith_iff prefix_def by blast
  then show ?thesis
  proof cases
    case 3
    then have "prefix (a @ [c]) (b @ [c]) \<or> prefix (b @ [c]) (a @ [c])" by (rule prefix_same_cases)
    then have "a @ [c] = b @ [c] \<or> prefix (a @ [c]) b \<or> prefix (b @ [c]) a" by auto
    then show ?thesis unfolding inside_def c py_startswith_iff prefix_def by auto
  qed (use assms in auto)
qed

lemma home_conflict_None:
  "home_conflict e resolved ns roots homes = None \<longleftrightarrow>
     (\<forall>h\<in>set homes. h \<noteq> [] \<longrightarrow> \<not> inside e (pe_realpath e h) resolved \<and>
        (py_startswith resolved (pe_realpath e h @ os_sep e) \<longrightarrow>
           pe_realpath e h \<notin> set ns \<and> pe_realpath e h \<in> set (case roots of Some rs \<Rightarrow> rs | None \<Rightarrow> [])))"
  by (induction e resolved ns roots homes rule: home_conflict.induct) (auto simp: Let_def inside_def)

lemma set_foldl_add_new [simp]: "set (foldl add_new ps qs) = set ps \<union> set qs"
  by (induction qs arbitrary: ps) (auto simp: add_new_def)

lemma valid_path_resolved:
  assumes "is_valid_path e path roots" and "\<And>p. pe_realpath e (pe_realpath e p) = pe_realpath e p"
    and "\<not> pe_windows e" and "py_startswith (pe_realpath e path) ''/''" and "\<not> py_contains ''..'' (pe_realpath e path)"
    and "\<not> pe_raises e (pe_realpath e path)"
  shows "is_valid_path e (pe_realpath e path) roots"
  using assms by (auto simp: is_valid_path_def py_startswith_def Let_def)

lemma shared_ok_iff:
  "shared_project_path_error e path bs homes cr = None \<longleftrightarrow>
     (let bases = filter (\<lambda>b. b \<noteq> []) bs; resolved = pe_realpath e path;
          roots = map_option (\<lambda>rs. map (pe_realpath e) (filter (\<lambda>r. r \<noteq> []) rs)) cr
      in is_valid_path e path (Some bases) \<and> (\<forall>b\<in>set bases. resolved \<noteq> pe_realpath e b) \<and>
         resolved \<notin> set (shared_namespace_roots e bases) \<and>
         home_conflict e resolved (shared_namespace_roots e bases) roots homes = None \<and>
         (\<forall>rs. roots = Some rs \<longrightarrow> list_ex (inside e resolved) rs))"
  by (auto simp: shared_project_path_error_def Let_def split: option.splits)

text \<open>A share that the reading side accepts neither holds a home nor lies in one.\<close>

lemma clean_share_apart:
  assumes "shared_project_path_error e s bs homes None = None" and "h \<in> set homes" and "h \<noteq> []"
  shows "\<not> inside e (pe_realpath e s) (pe_realpath e h)" and "\<not> inside e (pe_realpath e h) (pe_realpath e s)"
  using assms by (auto simp: shared_ok_iff Let_def home_conflict_None inside_def)

lemma clean_share_disjoint:
  assumes "shared_project_path_error e s bs homes None = None" and "h \<in> set homes" and "h \<noteq> []"
    and "inside e p (pe_realpath e s)" and "inside e p (pe_realpath e h)"
  shows False
  using inside_comparable [OF assms(4,5)] clean_share_apart [OF assms(1-3)] by blast

lemma home_in_all:
  assumes "pe_users e = Inr rows" and "r \<in> set rows" and "account_of r \<noteq> []" and "b \<in> set bases"
  shows "under_base b (account_of r) \<in> set (all_user_home_dirs e bases)"
  using assms by (force simp: all_user_home_dirs_def homes_of_def)

lemma under_base_nonempty [simp]: "under_base b n \<noteq> []"
  by (simp add: under_base_def)

lemma shared_paths_resolved:
  assumes "get_shared_project_paths e t = Inr cs" and "c \<in> set cs"
  shows "\<exists>raw. c = pe_realpath e raw"
  using assms by (auto simp: get_shared_project_paths_def split: if_splits)

lemma allowed_root_cases:
  assumes "r \<in> set (allowed_roots_for_user e u sandboxed)"
  shows "r \<in> set (home_roots_for_user e u sandboxed) \<or>
     (\<exists>raw. r = pe_realpath e raw) \<and>
     shared_root_rejection_reason e r (all_user_home_dirs e (workspace_base_dirs e)) = None"
  using assms shared_paths_resolved
  by (auto simp: allowed_roots_for_user_def Let_def split: option.splits sum.splits)

lemma allowed_home:
  assumes idem: "\<And>p. pe_realpath e (pe_realpath e p) = pe_realpath e p"
    and rows: "pe_users e = Inr rows" "r \<in> set rows" "account_of r \<noteq> []" "b \<in> set (workspace_base_dirs e)"
    and adm: "within_any_root e p (allowed_roots_for_user e u sandboxed)"
    and home: "inside e p (pe_realpath e (under_base b (account_of r)))"
  shows "list_ex (inside e p) (home_roots_for_user e u sandboxed)"
proof -
  obtain root where root: "root \<in> set (allowed_roots_for_user e u sandboxed)" "inside e p root"
    using adm by (auto simp: within_any_root_def list_ex_iff)
  show ?thesis
  proof (cases "root \<in> set (home_roots_for_user e u sandboxed)")
    case False
    then obtain raw where raw: "root = pe_realpath e raw"
      and ok: "shared_root_rejection_reason e root (all_user_home_dirs e (workspace_base_dirs e)) = None"
      using allowed_root_cases [OF root(1)] by blast
    have "shared_project_path_error e root (workspace_base_dirs e) (all_user_home_dirs e (workspace_base_dirs e)) None = None"
      using ok by (simp add: shared_root_rejection_reason_def split: if_splits)
    moreover have "inside e p (pe_realpath e root)" using root(2) idem raw by simp
    ultimately show ?thesis using clean_share_disjoint home_in_all [OF rows] home under_base_nonempty by blast
  qed (use root in \<open>auto simp: list_ex_iff\<close>)
qed

lemma creation_roots_are_no_homes:
  assumes idem: "\<And>p. pe_realpath e (pe_realpath e p) = pe_realpath e p"
    and ok: "shared_registration_error e path t = None"
    and home: "h \<in> set (all_user_home_dirs e (workspace_base_dirs e))" "h \<noteq> []"
  shows "\<not> py_startswith (pe_realpath e path) (pe_realpath e h @ os_sep e)"
proof
  assume strict: "py_startswith (pe_realpath e path) (pe_realpath e h @ os_sep e)"
  let ?bases = "workspace_base_dirs e" and ?homes = "all_user_home_dirs e (workspace_base_dirs e)"
  obtain open_roots where ok': "shared_project_path_error e path ?bases ?homes (Some (shared_namespace_roots e ?bases @
      filter (\<lambda>r. shared_project_path_error e r ?bases ?homes None = None) open_roots)) = None"
    using ok by (auto simp: shared_registration_error_def Let_def)
  have all: "filter (\<lambda>b. b \<noteq> []) ?bases = ?bases" by (auto simp: workspace_base_dirs_def filter_map comp_def)
  obtain r where r: "pe_realpath e r = pe_realpath e h" "pe_realpath e h \<notin> set (shared_namespace_roots e ?bases)"
    "r \<in> set (shared_namespace_roots e ?bases) \<or> shared_project_path_error e r ?bases ?homes None = None"
    using ok' strict home by (auto simp: shared_ok_iff Let_def home_conflict_None all)
  show False
  proof (cases "r \<in> set (shared_namespace_roots e ?bases)")
    case True
    then have "pe_realpath e r = r" using idem by (auto simp: shared_namespace_roots_def)
    with r True show False by simp
  next
    case False
    with r(1,3) clean_share_apart(1) [OF _ home] show False by fastforce
  qed
qed

lemma slash_free_homes_apart:
  assumes "CHR ''/'' \<notin> set a" and "CHR ''/'' \<notin> set a'" and "a \<noteq> a'" and "\<not> pe_windows e"
    and "inside e p (under_base b a)" and "inside e p (under_base b a')"
  shows False
  using inside_comparable [OF assms(5,6)] assms(1-4)
  by (auto simp: inside_def under_base_def os_sep_def py_startswith_iff)

lemma dirname_inside:
  assumes "h \<noteq> []" and "last h \<noteq> CHR ''/''" and "\<not> pe_windows e"
  shows "inside e (posix_dirname (h @ ''/'' @ rest)) h"
proof -
  let ?s = "CHR ''/''"
  define m where "m = rev (dropWhile (\<lambda>c. c \<noteq> ?s) (rev rest))"
  have head: "rev (dropWhile (\<lambda>c. c \<noteq> ?s) (rev (h @ ''/'' @ rest))) = h @ ?s # m"
    by (simp add: m_def dropWhile_append)
  have "\<not> list_all (\<lambda>c. c = ?s) (h @ ?s # m)" using assms(1,2) by (cases h rule: rev_cases) auto
  then have d: "posix_dirname (h @ ''/'' @ rest) = py_rstrip ?s (h @ ?s # m)" unfolding posix_dirname_def Let_def head by (simp only: if_False)
  have h: "dropWhile (\<lambda>c. c = ?s) (rev h) = rev h" using assms(1,2) by (cases h rule: rev_cases) auto
  show ?thesis
  proof (cases "\<forall>c\<in>set m. c = ?s")
    case True
    then have "py_rstrip ?s (h @ ?s # m) = h" by (simp add: py_rstrip_def dropWhile_append h)
    with d show ?thesis by simp
  next
    case False
    then have "py_rstrip ?s (h @ ?s # m) = (h @ [?s]) @ py_rstrip ?s m" by (auto simp: py_rstrip_def dropWhile_append)
    then have "py_startswith (posix_dirname (h @ ''/'' @ rest)) (h @ [?s])" using d py_startswith_append by metis
    with assms(3) show ?thesis by (simp add: inside_def os_sep_def)
  qed
qed

lemma check_bases_None:
  "check_bases e p homes bases = None \<Longrightarrow>
     \<exists>b\<in>set bases. p = pe_realpath e b \<or> posix_dirname p = pe_realpath e b \<and> p \<notin> set homes"
  by (induction bases) (auto split: if_splits)

lemma other_project_keys:
  assumes "pe_projects e = Inr rows" and "row \<in> set rows" and "pr_tenant row \<noteq> t" and "pr_path row \<noteq> []"
    and "real_stripped e (pr_path row) \<notin> set (map (real_stripped e) (workspace_base_dirs e))"
  shows "\<exists>n. (real_stripped e (pr_path row), n) \<in> set (other_projects e t)"
proof -
  have keys: "fst ` set (foldl (\<lambda>d r. AList.update (real_stripped e (pr_path r)) (pr_id r) d) d rs) =
      fst ` set d \<union> (\<lambda>r. real_stripped e (pr_path r)) ` set rs" for d rs
    by (induction rs arbitrary: d) (auto simp: dom_update)
  have "real_stripped e (pr_path row) \<in> fst ` set (other_projects e t)"
    using assms by (auto simp: other_projects_def keys)
  then show ?thesis by auto
qed

lemma py_contains_append: "py_contains p (x @ p @ y)"
proof (induction x)
  case Nil
  then show ?case by (cases "p @ y") (use py_startswith_append in \<open>auto, metis\<close>)
qed simp

lemma shares_open_no_home_lemma:
  assumes "\<And>p. pe_realpath e (pe_realpath e p) = pe_realpath e p"
    and "pe_users e = Inr rows" and "r \<in> set rows" and "account_of r \<noteq> []" and "b \<in> set (workspace_base_dirs e)"
    and "browse_target e u sandboxed path = Inr p" and "inside e p (pe_realpath e (under_base b (account_of r)))"
  shows "list_ex (inside e p) (home_roots_for_user e u sandboxed)"
proof (cases "path = [] \<or> py_lower path = ''home''")
  case True
  then show ?thesis using assms(6) by (auto simp: browse_target_def split: list.splits)
next
  case False
  then have "within_any_root e p (allowed_roots_for_user e u sandboxed)"
    using assms(6) by (auto simp: browse_target_def split: if_splits)
  with assms show ?thesis using allowed_home by blast
qed

section \<open>Properties\<close>

text \<open>a path that is admitted is absolute, contains no parent reference, resolves beneath one
  of the given directories and into no system directory.\<close>
theorem valid_path_confined:
  assumes "is_valid_path e path (Some roots)" and "roots \<noteq> []" and "\<not> pe_windows e"
  shows "py_startswith path ''/'' \<and> \<not> py_contains ''..'' path \<and>
     (\<exists>r\<in>set roots. inside e (pe_realpath e path) r) \<and>
     (\<forall>d\<in>set blacklisted_paths. \<not> inside e (pe_realpath e path) d \<and> \<not> inside e (pe_realpath e path) (pe_realpath e d))"
  using assms by (auto simp: is_valid_path_def Let_def list_ex_iff blacklisted_resolved_def)

text \<open>the two sides of a share agree: what the registration of a shared project accepts, the
  filter that reads the projects of the tenant accepts as a root for all its members.\<close>
theorem created_share_readable:
  assumes "shared_registration_error e path t = None"
    and "\<And>p. pe_realpath e (pe_realpath e p) = pe_realpath e p" and "\<not> pe_windows e"
    and "py_startswith (pe_realpath e path) ''/''" and "\<not> py_contains ''..'' (pe_realpath e path)"
    and "\<not> pe_raises e (pe_realpath e path)"
  shows "shared_root_rejection_reason e (pe_realpath e path) (all_user_home_dirs e (workspace_base_dirs e)) = None"
proof -
  have "\<not> py_startswith (pe_realpath e path) (pe_realpath e h @ os_sep e)"
    if "h \<in> set (all_user_home_dirs e (workspace_base_dirs e))" "h \<noteq> []" for h
    using creation_roots_are_no_homes [OF assms(2,1) that] .
  moreover have "is_valid_path e (pe_realpath e path) roots" if "is_valid_path e path roots" for roots
    by (rule valid_path_resolved [OF that assms(2-6)])
  moreover have "pe_realpath e path \<noteq> []" using assms(4) by (auto simp: py_startswith_def)
  ultimately show ?thesis using assms(1,2)
    by (auto simp: shared_root_rejection_reason_def shared_registration_error_def shared_ok_iff Let_def home_conflict_None)
qed

text \<open>whatever the tenant shares, a user reaches the home of an account only where it lies in
  one of the user's own home directories.\<close>
theorem shares_open_no_home:
  assumes "\<And>p. pe_realpath e (pe_realpath e p) = pe_realpath e p"
    and "pe_users e = Inr rows" and "r \<in> set rows" and "account_of r \<noteq> []" and "b \<in> set (workspace_base_dirs e)"
    and "browse_target e u sandboxed path = Inr p" and "inside e p (pe_realpath e (under_base b (account_of r)))"
  shows "list_ex (inside e p) (home_roots_for_user e u sandboxed)"
  using assms by (rule shares_open_no_home_lemma)

text \<open>C4: on a POSIX host outside the sandbox, with one base directory that is the configured one, where resolving
  a path is idempotent, the homes of the two accounts resolve to themselves, the listing of the users
  succeeds with the other account in it, and both account names are without slashes: what browsing
  resolves to, and what a file operation in the home or on an owned path resolves to, is not inside the
  home of the other account. Without these conditions it is not: see \<open>unknown_homes_fail_open\<close> and
  \<open>parent_name_reaches_everything\<close>.\<close>
theorem homes_isolated:
  assumes "\<And>p. pe_realpath e (pe_realpath e p) = pe_realpath e p" and "\<not> pe_windows e"
    and "pe_users e = Inr rows" and "r \<in> set rows" and "account_of r \<noteq> []" and "account_of r \<noteq> account_of u"
    and "workspace_base_dirs e = [b]" and "under_base b (account_of u) = legacy_home e u"
    and "CHR ''/'' \<notin> set (account_of r)" and "CHR ''/'' \<notin> set (account_of u)"
    and "\<And>n. n \<in> {account_of r, account_of u} \<Longrightarrow> pe_realpath e (under_base b n) = under_base b n"
  shows "(browse_target e u False path = Inr p \<longrightarrow> \<not> inside e p (under_base b (account_of r))) \<and>
     (resolve_file_in_home e u path = Some (p, a, root) \<longrightarrow> \<not> inside e p (under_base b (account_of r))) \<and>
     (resolve_user_owned_path e u False path = Inr (p, a, root) \<longrightarrow> \<not> inside e p (under_base b (account_of r)))"
proof (intro conjI impI notI)
  have own: "set (home_roots_for_user e u False) \<subseteq> {under_base b (account_of u)}"
    using assms(7,11) by (auto simp: home_roots_for_user_def Let_def)
  have wr: "set (home_roots_for_write e u False) \<subseteq> {under_base b (account_of u)}"
    using own assms(8) assms(11) [of "account_of u"] by (auto simp: home_roots_for_write_def Let_def)
  have apart: "False" if "inside e p (under_base b (account_of u))" "inside e p (under_base b (account_of r))"
    using slash_free_homes_apart [OF assms(10,9) _ assms(2) that] assms(6) by simp
  { assume "browse_target e u False path = Inr p" and home: "inside e p (under_base b (account_of r))"
    then have "list_ex (inside e p) (home_roots_for_user e u False)"
      using shares_open_no_home_lemma [OF assms(1,3,4,5), of b u False path p] assms(7,11) by simp
    with own apart home show False by (auto simp: list_ex_iff) }
  { assume "resolve_file_in_home e u path = Some (p, a, root)" and home: "inside e p (under_base b (account_of r))"
    then have "root \<in> set (home_roots_for_write e u False)" "inside e p root"
      by (auto simp: resolve_file_in_home_def Let_def within_any_root_def find_Some_iff split: if_splits option.splits)
    with wr apart home show False by auto }
  { assume "resolve_user_owned_path e u False path = Inr (p, a, root)" and home: "inside e p (under_base b (account_of r))"
    then have "root \<in> set (home_roots_for_write e u False)" "inside e p root"
      by (auto simp: resolve_user_owned_path_def Let_def find_Some_iff split: if_splits option.splits)
    with wr apart home show False by auto }
qed

text \<open>\<open>check-path\<close> and \<open>create-directory\<close> admit nothing within the home of an account, the
  home itself included, except in the user's own home directories.\<close>
theorem check_path_hides_homes:
  assumes "\<And>p. pe_realpath e (pe_realpath e p) = pe_realpath e p" and "\<not> pe_windows e"
    and "pe_users e = Inr rows" and "r \<in> set rows" and "account_of r \<noteq> []" and "b \<in> set (workspace_base_dirs e)"
    and "h = pe_realpath e (under_base b (account_of r))" and "h \<noteq> []" and "last h \<noteq> CHR ''/''"
    and "\<And>b'. b' \<in> set (workspace_base_dirs e) \<Longrightarrow> \<not> inside e (pe_realpath e b') h"
    and "check_path_target e u sandboxed v = Inr p \<or> create_directory_target e u False v = Inr p" and "inside e p h"
  shows "list_ex (inside e p) (home_roots_for_user e u sandboxed) \<or> list_ex (inside e p) (home_roots_for_user e u False)"
proof -
  obtain sb where sb: "sb = sandboxed \<or> sb = False" "check_path_rejection_reason e p u sb = None"
    using assms(11) by (auto simp: check_path_target_def create_directory_target_def admitted_def split: if_splits option.splits)
  show ?thesis
  proof (cases "within_any_root e p (allowed_roots_for_user e u sb)")
    case True
    from allowed_home [OF assms(1,3-6) True] assms(7,12) sb(1) show ?thesis by auto
  next
    case False
    then obtain b' where b': "b' \<in> set (workspace_base_dirs e)" "p = pe_realpath e b' \<or> posix_dirname p = pe_realpath e b' \<and>
        p \<notin> set (map (pe_realpath e) (all_user_home_dirs e (workspace_base_dirs e)))"
      using check_bases_None [of e p "map (pe_realpath e) (all_user_home_dirs e (workspace_base_dirs e))" "workspace_base_dirs e"]
        sb(2) by (auto simp: check_path_rejection_reason_def)
    have "h \<in> set (map (pe_realpath e) (all_user_home_dirs e (workspace_base_dirs e)))"
      using home_in_all [OF assms(3-6)] assms(7) by auto
    moreover have "inside e (posix_dirname p) h" if ne: "p \<noteq> h"
    proof -
      obtain rest where "p = h @ ''/'' @ rest" using assms(2,12) ne unfolding inside_def os_sep_def py_startswith_iff by auto
      then show ?thesis using dirname_inside [OF assms(8,9,2)] by simp
    qed
    ultimately have "False" using b' assms(10) [OF b'(1)] assms(12) by (cases "p = h") auto
    then show ?thesis ..
  qed
qed

text \<open>\<open>create-directory\<close> creates exactly what \<open>check-path\<close> reports as valid, up to the limit
  on the length of the path.\<close>
theorem create_directory_as_checked:
  "create_directory_target e u False v = Inr p \<longleftrightarrow>
     check_path_target e u False v = Inr p \<and> (\<exists>s. v = JStr s \<and> length s \<le> 4096)"
  by (cases v) (auto simp: create_directory_target_def check_path_target_def as_path_def)

text \<open>a project that is registered as private is no base directory, lies outside the shared
  namespace and overlaps no project of another tenant in either direction.\<close>
theorem private_project_disjoint:
  assumes "private_registration_error e path t = None" and "pe_projects e = Inr rows" and "row \<in> set rows"
    and "pr_tenant row \<noteq> t" and "pr_path row \<noteq> []"
    and "real_stripped e (pr_path row) \<notin> set (map (real_stripped e) (workspace_base_dirs e))"
  shows "\<not> inside e (real_stripped e path) (real_stripped e (pr_path row)) \<and>
     \<not> inside e (real_stripped e (pr_path row)) (real_stripped e path) \<and>
     (\<forall>n\<in>set (shared_namespace_roots e (workspace_base_dirs e)). \<not> inside e (real_stripped e path) n)"
  using assms(1) other_project_keys [OF assms(2-6)]
  by (auto simp: private_registration_error_def Let_def list_ex_iff find_None_iff inside_def split: if_splits)

text \<open>a base directory that is configured with a trailing slash locks everyone out: no
  resolved path is beneath it.\<close>
theorem trailing_slash_locks_out:
  assumes "\<not> pe_windows e" and "\<not> py_contains ''//'' (pe_realpath e path)" and "last (pe_realpath e path) \<noteq> CHR ''/''"
  shows "\<not> is_valid_path e path (Some [b @ ''/''])"
  using assms py_contains_append [of "''//''" b]
  by (auto simp: is_valid_path_def Let_def inside_def os_sep_def py_startswith_iff)

text \<open>when the users cannot be listed, a share inside a home passes the filter of the reading
  side: it is rejected only as a base directory, as the namespace or by its shape.\<close>
theorem unknown_homes_fail_open:
  assumes "pe_users e = Inl exc" and "is_valid_path e s (Some (workspace_base_dirs e))"
    and "\<forall>b\<in>set (workspace_base_dirs e). pe_realpath e s \<noteq> pe_realpath e b"
    and "pe_realpath e s \<notin> set (shared_namespace_roots e (workspace_base_dirs e))"
  shows "shared_root_rejection_reason e s (all_user_home_dirs e (workspace_base_dirs e)) = None"
proof -
  have "filter (\<lambda>b. b \<noteq> []) (workspace_base_dirs e) = workspace_base_dirs e"
    by (auto simp: workspace_base_dirs_def filter_map comp_def)
  with assms show ?thesis
    by (auto simp: shared_root_rejection_reason_def shared_ok_iff Let_def all_user_home_dirs_def) (simp add: is_valid_path_def)
qed

text \<open>the name of an account is not checked to be a path component: a user who is called
  \<^verbatim>\<open>..\<close> browses whatever lies beneath the base directory, every home included.\<close>
theorem parent_name_reaches_everything:
  assumes "fu_account u = []" and "fu_name u = ''..''" and "\<not> pe_root e" and "workspace_base_dirs e = [b]"
    and "d = pe_realpath e (under_base b ''..'')" and "d \<noteq> []" and "inside e b d"
    and "is_valid_path e path (Some [b])" and "py_lower path \<noteq> ''home''"
  shows "browse_target e u False path = Inr (pe_realpath e path)"
proof -
  have own: "home_roots_for_user e u False = [d]" using assms by (simp add: home_roots_for_user_def account_of_def shared_dirname_def)
  have mem: "d \<in> set (allowed_roots_for_user e u False)"
    unfolding allowed_roots_for_user_def own by (auto simp: Let_def split: option.split sum.split)
  have "inside e (pe_realpath e path) b" using assms(8) by (auto simp: is_valid_path_def Let_def)
  then have "inside e (pe_realpath e path) d" using inside_trans assms(7) by blast
  then have "within_any_root e (pe_realpath e path) (allowed_roots_for_user e u False)"
    using mem assms(6) by (auto simp: within_any_root_def list_ex_iff)
  moreover have "path \<noteq> []" using assms(8) by (auto simp: is_valid_path_def)
  ultimately show ?thesis using assms by (simp add: browse_target_def request_bases_def)
qed

section \<open>Concrete inputs\<close>

definition alice :: fs_user where "alice = \<lparr>fu_id = 1, fu_account = [], fu_name = ''alice'', fu_tenant = Some 1\<rparr>"
definition bob :: fs_user where "bob = \<lparr>fu_id = 2, fu_account = ''bob'', fu_name = ''bob'', fu_tenant = Some 1\<rparr>"

text \<open>A tree without symbolic links, two users and a shared project.\<close>

definition ws_env :: path_env where
  "ws_env = \<lparr>pe_realpath = (\<lambda>p. p), pe_raises = (\<lambda>_. False), pe_windows = False, pe_root = False, pe_base_config = ''/ws'',
     pe_users = Inr [alice, bob], pe_shared = (\<lambda>_. Inr [''/ws/shared/x'', ''/ws/alice/.ssh'']),
     pe_projects = Inr [\<lparr>pr_id = 7, pr_tenant = 2, pr_path = ''/ws/team''\<rparr>]\<rparr>"

lemma ws_env_simps:
  "pe_realpath ws_env = (\<lambda>p. p)" "pe_windows ws_env = False" "pe_raises ws_env = (\<lambda>_. False)" "pe_users ws_env = Inr [alice, bob]"
  "pe_projects ws_env = Inr [\<lparr>pr_id = 7, pr_tenant = 2, pr_path = ''/ws/team''\<rparr>]"
  by (simp_all add: ws_env_def)

lemma ws_env_facts:
  "workspace_base_dirs ws_env = [''/ws'']" "account_of alice = ''alice''" "account_of bob = ''bob''"
  "under_base ''/ws'' ''alice'' = ''/ws/alice''" "under_base ''/ws'' ''bob'' = ''/ws/bob''" "legacy_home ws_env bob = ''/ws/bob''"
  "is_valid_path ws_env ''/ws/shared/y'' (Some [''/ws''])"
  "shared_registration_error ws_env ''/ws/shared/y'' 1 = None"
  "browse_target ws_env bob False ''/ws/shared/x/src'' = Inr ''/ws/shared/x/src''"
  "browse_target ws_env bob False ''/ws/bob/src'' = Inr ''/ws/bob/src''"
  "browse_target ws_env alice False ''/ws/alice/src'' = Inr ''/ws/alice/src''"
  "check_path_target ws_env alice False (JStr ''/ws/alice/new'') = Inr ''/ws/alice/new''"
  "private_registration_error ws_env ''/ws/bob/app'' 1 = None" "real_stripped ws_env ''/ws/team'' = ''/ws/team''"
  "real_stripped ws_env ''/ws'' = ''/ws''"
  by code_simp+

theorem valid_path_confined_witness:
  "\<exists>r\<in>set [''/ws'']. inside ws_env ''/ws/shared/y'' r"
  using valid_path_confined [OF ws_env_facts(7)] by (simp add: ws_env_simps)

theorem created_share_readable_witness:
  "shared_root_rejection_reason ws_env ''/ws/shared/y'' (all_user_home_dirs ws_env (workspace_base_dirs ws_env)) = None"
proof -
  have "\<not> py_contains ''..'' ''/ws/shared/y''" by code_simp
  with created_share_readable [OF ws_env_facts(8)] show ?thesis by (simp add: ws_env_simps py_startswith_def)
qed

theorem shares_open_no_home_witness:
  "list_ex (inside ws_env ''/ws/alice/src'') (home_roots_for_user ws_env alice False)"
proof -
  have "inside ws_env ''/ws/alice/src'' (pe_realpath ws_env (under_base ''/ws'' (account_of alice)))" by code_simp
  from shares_open_no_home [OF _ ws_env_simps(4) _ _ _ ws_env_facts(11) this] show ?thesis by (simp add: ws_env_simps ws_env_facts)
qed

theorem homes_isolated_witness:
  "\<not> inside ws_env ''/ws/bob/src'' (under_base ''/ws'' (account_of alice))"
proof -
  have "(browse_target ws_env bob False ''/ws/bob/src'' = Inr ''/ws/bob/src'' \<longrightarrow>
      \<not> inside ws_env ''/ws/bob/src'' (under_base ''/ws'' (account_of alice))) \<and>
     (resolve_file_in_home ws_env bob ''/ws/bob/src'' = Some (''/ws/bob/src'', None, []) \<longrightarrow>
      \<not> inside ws_env ''/ws/bob/src'' (under_base ''/ws'' (account_of alice))) \<and>
     (resolve_user_owned_path ws_env bob False ''/ws/bob/src'' = Inr (''/ws/bob/src'', None, []) \<longrightarrow>
      \<not> inside ws_env ''/ws/bob/src'' (under_base ''/ws'' (account_of alice)))"
    by (rule homes_isolated [where rows = "[alice, bob]"]) (simp_all add: ws_env_simps ws_env_facts)
  then show ?thesis using ws_env_facts(10) by simp
qed

theorem check_path_hides_homes_witness:
  "list_ex (inside ws_env ''/ws/alice/new'') (home_roots_for_user ws_env alice False)"
proof -
  have "inside ws_env ''/ws/alice/new'' ''/ws/alice''" "\<not> inside ws_env ''/ws'' ''/ws/alice''" by code_simp+
  with check_path_hides_homes [where e = ws_env and rows = "[alice, bob]" and r = alice and b = "''/ws''" and h = "''/ws/alice''" and
      u = alice and sandboxed = False and v = "JStr ''/ws/alice/new''" and p = "''/ws/alice/new''"]
  show ?thesis by (simp add: ws_env_simps ws_env_facts)
qed

theorem private_project_disjoint_witness:
  "\<not> inside ws_env (real_stripped ws_env ''/ws/bob/app'') ''/ws/team''"
  using private_project_disjoint [OF ws_env_facts(13) ws_env_simps(5), of "\<lparr>pr_id = 7, pr_tenant = 2, pr_path = ''/ws/team''\<rparr>"]
  by (simp add: ws_env_facts)

theorem trailing_slash_locks_out_witness: "\<not> is_valid_path ws_env ''/ws/bob'' (Some [''/ws'' @ ''/''])"
proof -
  have "\<not> py_contains ''//'' ''/ws/bob''" by code_simp
  then show ?thesis using trailing_slash_locks_out [of ws_env "''/ws/bob''" "''/ws''"] by (simp add: ws_env_simps)
qed

definition lost_users_env :: path_env where "lost_users_env = ws_env\<lparr>pe_users := Inl DBError\<rparr>"

theorem unknown_homes_fail_open_witness:
  "shared_root_rejection_reason lost_users_env ''/ws/alice/.ssh'' (all_user_home_dirs lost_users_env (workspace_base_dirs lost_users_env)) = None \<and>
   shared_root_rejection_reason ws_env ''/ws/alice/.ssh'' (all_user_home_dirs ws_env (workspace_base_dirs ws_env)) = Some In_Home"
proof
  have "is_valid_path lost_users_env ''/ws/alice/.ssh'' (Some (workspace_base_dirs lost_users_env))"
    "\<forall>b\<in>set (workspace_base_dirs lost_users_env). pe_realpath lost_users_env ''/ws/alice/.ssh'' \<noteq> pe_realpath lost_users_env b"
    "pe_realpath lost_users_env ''/ws/alice/.ssh'' \<notin> set (shared_namespace_roots lost_users_env (workspace_base_dirs lost_users_env))"
    by code_simp+
  from unknown_homes_fail_open [OF _ this]
  show "shared_root_rejection_reason lost_users_env ''/ws/alice/.ssh'' (all_user_home_dirs lost_users_env (workspace_base_dirs lost_users_env)) = None"
    by (simp add: lost_users_env_def)
  show "shared_root_rejection_reason ws_env ''/ws/alice/.ssh'' (all_user_home_dirs ws_env (workspace_base_dirs ws_env)) = Some In_Home"
    by code_simp
qed

definition dots :: fs_user where "dots = \<lparr>fu_id = 3, fu_account = [], fu_name = ''..'', fu_tenant = None\<rparr>"
definition deep_env :: path_env where
  "deep_env = ws_env\<lparr>pe_base_config := ''/data/ws'', pe_realpath := (\<lambda>p. if p = ''/data/ws/..'' then ''/data'' else p)\<rparr>"

theorem parent_name_reaches_everything_witness:
  "browse_target deep_env dots False ''/data/ws/alice'' = Inr ''/data/ws/alice''"
proof -
  have v: "is_valid_path deep_env ''/data/ws/alice'' (Some [''/data/ws''])" "workspace_base_dirs deep_env = [''/data/ws'']"
    "pe_realpath deep_env (under_base ''/data/ws'' ''..'') = ''/data''" "inside deep_env ''/data/ws'' ''/data''"
    "py_lower ''/data/ws/alice'' \<noteq> ''home''" by code_simp+
  have "browse_target deep_env dots False ''/data/ws/alice'' = Inr (pe_realpath deep_env ''/data/ws/alice'')"
    by (rule parent_name_reaches_everything [OF _ _ _ v(2) v(3) [symmetric] _ v(4,1,5)])
      (simp_all add: dots_def deep_env_def ws_env_def)
  then show ?thesis by (simp add: deep_env_def)
qed

end
