(* ===== verification/Alert_Queue.thy ===== *)
theory Alert_Queue
  imports Py_Text Leader_Election Complex_Main
begin

text \<open>
  Quota alerts and the queue of those that could not be written
  (\<^verbatim>\<open>modules/governance/alert_transaction_manager.py\<close>, \<^verbatim>\<open>services/alert_compensation_worker.py\<close>): an
  alert goes into the tables \<open>quota_alerts\<close> and \<open>alerts\<close> in one transaction, not more than once an
  hour for a user and a quota type; after three failures its data are queued, and a worker that
  holds the lease of \<^verbatim>\<open>alert_compensation\<close> retries the queue. Which transactions the database
  commits, the clock, the identifiers and the JSON text of the data are parameters. The texts of
  title and message are left out; both rows carry the time of the transaction.
\<close>

section \<open>Tables\<close>

record alert_data =
  ad_user :: int
  ad_username :: string
  ad_qtype :: string
  ad_pct :: rat
  ad_usage :: int
  ad_limit :: int
  ad_threshold :: rat
  ad_otype :: string

record quota_alert_row =
  qa_id :: int
  qa_user :: int
  qa_type :: string
  qa_qtype :: string
  qa_period :: string
  qa_threshold :: rat
  qa_usage :: int
  qa_limit :: int
  qa_pct :: rat
  qa_created :: instant
  qa_ack :: "(instant \<times> int) option"

record alert_row =
  al_id :: string
  al_severity :: string
  al_user :: int
  al_username :: string
  al_qtype :: string
  al_pct :: rat
  al_created :: instant

record failure_row =
  af_id :: int
  af_data :: string
  af_count :: int
  af_last :: "instant option"
  af_created :: instant
  af_status :: string

record alert_db =
  db_quota_alerts :: "quota_alert_row list"
  db_alerts :: "alert_row list"
  db_failures :: "failure_row list"
  db_quota_seq :: int
  db_failure_seq :: int

text \<open>The JSON text of the data of an alert.\<close>

record alert_codec =
  co_dump :: "alert_data \<Rightarrow> string"
  co_load :: "string \<Rightarrow> alert_data option"

section \<open>Creating an alert\<close>

definition alert_transaction_max_retries :: nat where "alert_transaction_max_retries = 3"
definition alert_compensation_max_retries :: int where "alert_compensation_max_retries = 10"

text \<open>One call: the clock, the answers of the database to the search for a recent alert (a refused statement
  raises), to the attempts of the transaction and to the insertion into the queue, and the new
  identifier.\<close>

record create_env =
  ce_now :: instant
  ce_search :: bool
  ce_commits :: "bool list"
  ce_queue :: bool
  ce_uuid :: string

definition severity_of :: "string \<Rightarrow> string" where
  "severity_of otype = (if otype = ''exceeded'' then ''critical'' else otype)"

definition normalize_alert_severity :: "string \<Rightarrow> string result" where
  "normalize_alert_severity s =
     (let n = py_lower (py_strip s) in
      if n \<in> {''info'', ''warning'', ''critical''} then Inr n else Inl ValueError)"

definition to_quota_alerts_row :: "alert_data \<Rightarrow> int \<Rightarrow> instant \<Rightarrow> quota_alert_row" where
  "to_quota_alerts_row ad n now =
     \<lparr>qa_id = n, qa_user = ad_user ad, qa_type = ad_otype ad, qa_qtype = ad_qtype ad, qa_period = ''daily'',
      qa_threshold = ad_threshold ad, qa_usage = ad_usage ad, qa_limit = ad_limit ad, qa_pct = ad_pct ad / 100,
      qa_created = now, qa_ack = None\<rparr>"

definition to_alerts_row :: "alert_data \<Rightarrow> string \<Rightarrow> string \<Rightarrow> instant \<Rightarrow> alert_row" where
  "to_alerts_row ad alert_id severity now =
     \<lparr>al_id = alert_id, al_severity = severity, al_user = ad_user ad, al_username = ad_username ad,
      al_qtype = ad_qtype ad, al_pct = ad_pct ad, al_created = now\<rparr>"

definition has_recent_alert :: "instant \<Rightarrow> int \<Rightarrow> string \<Rightarrow> alert_db \<Rightarrow> bool" where
  "has_recent_alert now user qtype db \<longleftrightarrow>
     (let threshold = now - seconds 3600 in
      list_ex (\<lambda>q. qa_user q = user \<and> qa_qtype q = qtype \<and> threshold \<le> qa_created q) (db_quota_alerts db) \<or>
      list_ex (\<lambda>a. al_user a = user \<and> al_qtype a = qtype \<and> threshold \<le> al_created a) (db_alerts db))"

definition execute_transaction :: "alert_data \<Rightarrow> string \<Rightarrow> string \<Rightarrow> instant \<Rightarrow> alert_db \<Rightarrow> alert_db" where
  "execute_transaction ad alert_id severity now db =
     db\<lparr>db_quota_alerts := db_quota_alerts db @ [to_quota_alerts_row ad (db_quota_seq db) now],
        db_alerts := db_alerts db @ [to_alerts_row ad alert_id severity now],
        db_quota_seq := db_quota_seq db + 1\<rparr>"

text \<open>The loop over the attempts: a transaction that is rolled back changes nothing.\<close>

fun attempts :: "nat \<Rightarrow> bool list \<Rightarrow> bool" where
  "attempts 0 oks = False"
| "attempts (Suc n) [] = False"
| "attempts (Suc n) (ok # oks) = (ok \<or> attempts n oks)"

definition add_to_failure_queue :: "alert_codec \<Rightarrow> alert_data \<Rightarrow> instant \<Rightarrow> alert_db \<Rightarrow> alert_db" where
  "add_to_failure_queue co ad now db =
     db\<lparr>db_failures := db_failures db @
          [\<lparr>af_id = db_failure_seq db, af_data = co_dump co ad, af_count = 0, af_last = None, af_created = now, af_status = ''pending''\<rparr>],
        db_failure_seq := db_failure_seq db + 1\<rparr>"

definition create_quota_alert ::
    "alert_codec \<Rightarrow> create_env \<Rightarrow> alert_data \<Rightarrow> alert_db \<Rightarrow> ((bool \<times> string option) \<times> alert_db) result" where
  "create_quota_alert co e ad db =
     rbind (normalize_alert_severity (severity_of (ad_otype ad))) (\<lambda>severity. if \<not> ce_search e then Inl DBError else Inr
       (if has_recent_alert (ce_now e) (ad_user ad) (ad_qtype ad) db then ((True, None), db)
        else if attempts alert_transaction_max_retries (ce_commits e) then
          ((True, Some (ce_uuid e)), execute_transaction ad (ce_uuid e) severity (ce_now e) db)
        else ((False, None), if ce_queue e then add_to_failure_queue co ad (ce_now e) db else db)))"

definition alert_type_for :: "rat \<Rightarrow> string" where
  "alert_type_for usage_percent =
     (if 100 \<le> usage_percent then ''exceeded'' else if 95 \<le> usage_percent then ''critical'' else ''warning'')"

definition create_quota_alert_transactional ::
    "alert_codec \<Rightarrow> create_env \<Rightarrow> int \<Rightarrow> string \<Rightarrow> rat \<Rightarrow> string \<Rightarrow> int \<Rightarrow> int \<Rightarrow> rat \<Rightarrow> alert_db \<Rightarrow>
     ((bool \<times> string option) \<times> alert_db) result" where
  "create_quota_alert_transactional co e user username usage_percent qtype usage limit threshold db =
     create_quota_alert co e
       \<lparr>ad_user = user, ad_username = username, ad_qtype = qtype, ad_pct = usage_percent, ad_usage = usage,
        ad_limit = limit, ad_threshold = threshold, ad_otype = alert_type_for usage_percent\<rparr> db"

section \<open>The queue\<close>

definition pending_failure :: "failure_row \<Rightarrow> bool" where
  "pending_failure f \<longleftrightarrow> (af_status f = ''pending'' \<or> af_status f = ''retrying'') \<and> af_count f < alert_compensation_max_retries"

definition get_pending_failures :: "nat \<Rightarrow> alert_db \<Rightarrow> failure_row list" where
  "get_pending_failures limit db = take limit (sort_key af_created (filter pending_failure (db_failures db)))"

record retry_env =
  re_create :: create_env
  re_update :: bool

definition failure_status :: "bool \<Rightarrow> int \<Rightarrow> string" where
  "failure_status success new_count =
     (if success then ''success''
      else if alert_compensation_max_retries \<le> new_count then ''failed'' else ''retrying'')"

definition update_failure :: "int \<Rightarrow> int \<Rightarrow> instant \<Rightarrow> string \<Rightarrow> alert_db \<Rightarrow> alert_db" where
  "update_failure n new_count now status db =
     db\<lparr>db_failures := map (\<lambda>f. if af_id f = n then f\<lparr>af_count := new_count, af_last := Some now, af_status := status\<rparr> else f)
        (db_failures db)\<rparr>"

definition retry_failure :: "alert_codec \<Rightarrow> retry_env \<Rightarrow> failure_row \<Rightarrow> alert_db \<Rightarrow> bool \<times> alert_db" where
  "retry_failure co e f db =
     (case co_load co (af_data f) of None \<Rightarrow> (False, db)
      | Some ad \<Rightarrow>
          (case create_quota_alert co (re_create e) ad db of Inl _ \<Rightarrow> (False, db)
           | Inr ((success, _), db1) \<Rightarrow>
               (let new_count = (if success then af_count f else af_count f + 1) in
                if re_update e
                then (success, update_failure (af_id f) new_count (ce_now (re_create e)) (failure_status success new_count) db1)
                else (False, db1))))"

text \<open>The loop of the worker over the rows it read, with the numbers of retries that succeeded and
  failed; \<open>es\<close> gives the answers of the database, one per row.\<close>

fun retry_all :: "alert_codec \<Rightarrow> retry_env list \<Rightarrow> failure_row list \<Rightarrow> alert_db \<Rightarrow> (int \<times> int) \<times> alert_db" where
  "retry_all co (e # es) (f # fs) db =
     (case retry_failure co e f db of (success, db1) \<Rightarrow>
        (case retry_all co es fs db1 of ((s, n), db2) \<Rightarrow>
           (if success then (s + 1, n) else (s, n + 1), db2)))"
| "retry_all co es fs db = ((0, 0), db)"

section \<open>The worker\<close>

definition compensation_timeout :: int where "compensation_timeout = 1800"

text \<open>One cycle of the worker: \<open>fetch\<close> tells whether the queue can be read.\<close>

definition process_failures ::
    "(lease_stmt \<Rightarrow> bool) \<Rightarrow> alert_codec \<Rightarrow> retry_env list \<Rightarrow> bool \<Rightarrow> string \<Rightarrow> string \<Rightarrow> instant \<Rightarrow> instant \<Rightarrow>
     sched_db \<Rightarrow> alert_db \<Rightarrow> election_client \<times> sched_db \<times> alert_db" where
  "process_failures ok co es fetch leader owner now end_time d db =
     (let (got, c1, d1) = try_acquire_leadership ok None now
            (new_client ''alert_compensation'' leader owner ''heartbeat'' compensation_timeout) d
      in if \<not> got then (case record_run ok ''skipped'' None None now c1 d1 of (c2, d2) \<Rightarrow> (c2, d2, db))
         else if fetch \<and> get_pending_failures 100 db = [] then (c1, d1, db)
         else
           (let db1 = (if fetch then snd (retry_all co es (get_pending_failures 100 db) db) else db);
                (c2, d2) = record_run ok (if fetch then ''completed'' else ''failed'') (Some ((end_time - now) div 1000))
                  (if fetch then None else Some ''error'') end_time c1 d1;
                (c3, d3) = release_leadership ok c2 d2
            in (c3, d3, db1)))"

section \<open>Lemmas\<close>

lemma attempts_iff: "attempts n oks \<longleftrightarrow> True \<in> set (take n oks)"
  by (induction n oks rule: attempts.induct) auto

definition refused :: "alert_codec \<Rightarrow> create_env \<Rightarrow> alert_data \<Rightarrow> alert_db \<Rightarrow> bool" where
  "refused co e ad db \<longleftrightarrow> severity_of (ad_otype ad) \<in> {''warning'', ''critical''} \<and>
     \<not> has_recent_alert (ce_now e) (ad_user ad) (ad_qtype ad) db \<and> True \<notin> set (take 3 (ce_commits e)) \<and> ce_queue e \<and> ce_search e"

lemma normalize_known: "s \<in> {''warning'', ''critical''} \<Longrightarrow> normalize_alert_severity s = Inr s"
  by (auto simp: normalize_alert_severity_def Let_def) (code_simp | simp)+

lemma create_refused:
  "refused co e ad db \<Longrightarrow> create_quota_alert co e ad db = Inr ((False, None), add_to_failure_queue co ad (ce_now e) db)"
  by (simp add: refused_def create_quota_alert_def normalize_known attempts_iff alert_transaction_max_retries_def)

definition queue_ok :: "alert_db \<Rightarrow> bool" where
  "queue_ok db \<longleftrightarrow> distinct (map af_id (db_failures db)) \<and>
     (\<forall>f\<in>set (db_failures db). af_id f < db_failure_seq db \<and> 0 \<le> af_count f \<and> af_count f \<le> alert_compensation_max_retries)"

lemma queue_ok_add: "queue_ok db \<Longrightarrow> queue_ok (add_to_failure_queue co ad now db)"
  by (auto simp: queue_ok_def add_to_failure_queue_def alert_compensation_max_retries_def)

lemma queue_ok_update:
  "queue_ok db \<Longrightarrow> 0 \<le> n \<Longrightarrow> n \<le> alert_compensation_max_retries \<Longrightarrow> queue_ok (update_failure i n now st db)"
proof -
  have ids: "map af_id (db_failures (update_failure i n now st db)) = map af_id (db_failures db)"
    by (simp add: update_failure_def)
  assume "queue_ok db" "0 \<le> n" "n \<le> alert_compensation_max_retries"
  then show ?thesis unfolding queue_ok_def ids by (auto simp: update_failure_def)
qed

lemma queue_ok_create:
  assumes "queue_ok db" and "create_quota_alert co e ad db = Inr (r, db')"
  shows "queue_ok db'"
proof -
  have "queue_ok (execute_transaction ad i s n db) = queue_ok db" for i s n by (simp add: queue_ok_def execute_transaction_def)
  with assms show ?thesis by (auto simp: create_quota_alert_def queue_ok_add split: if_splits)
qed

lemma queue_ok_retry:
  assumes "queue_ok db" and "0 \<le> af_count f" and "af_count f < alert_compensation_max_retries"
    and "retry_failure co e f db = (r, db')"
  shows "queue_ok db'"
proof (cases "co_load co (af_data f)")
  case (Some ad)
  show ?thesis
  proof (cases "create_quota_alert co (re_create e) ad db")
    case (Inr x)
    then obtain s i db1 where x: "x = ((s, i), db1)" by (metis prod.exhaust)
    have "queue_ok db1" using queue_ok_create [OF assms(1)] Inr x by blast
    then show ?thesis using assms(2-4) Some Inr x
      by (auto simp: retry_failure_def Let_def queue_ok_update split: if_splits)
  qed (use assms Some in \<open>simp add: retry_failure_def\<close>)
qed (use assms in \<open>simp add: retry_failure_def\<close>)

lemma queue_ok_retry_all:
  "queue_ok db \<Longrightarrow> \<forall>f\<in>set fs. 0 \<le> af_count f \<and> af_count f < alert_compensation_max_retries \<Longrightarrow>
     queue_ok (snd (retry_all co es fs db))"
proof (induction co es fs db rule: retry_all.induct)
  case (1 co e es f fs db)
  obtain r db1 where r: "retry_failure co e f db = (r, db1)" by fastforce
  have "queue_ok db1" using queue_ok_retry [OF "1.prems"(1) _ _ r] "1.prems"(2) by simp
  then have "queue_ok (snd (retry_all co es fs db1))" using "1.IH" [OF r [symmetric]] "1.prems"(2) by simp
  then show ?case using r by (auto split: prod.splits)
qed simp_all

lemma pending_set: "set (get_pending_failures n db) \<subseteq> {f \<in> set (db_failures db). pending_failure f}"
  using set_take_subset [of n "sort_key af_created (filter pending_failure (db_failures db))"]
  by (auto simp: get_pending_failures_def)

text \<open>Rows of both tables in the order they were written: for one user and one type they lie more
  than an hour apart.\<close>

definition spaced :: "quota_alert_row list \<Rightarrow> bool" where
  "spaced qs = sorted_wrt (\<lambda>p q. qa_user p = qa_user q \<and> qa_qtype p = qa_qtype q \<longrightarrow> qa_created p + seconds 3600 < qa_created q) qs"

fun create_all :: "alert_codec \<Rightarrow> (create_env \<times> alert_data) list \<Rightarrow> alert_db \<Rightarrow> alert_db" where
  "create_all co [] db = db"
| "create_all co ((e, ad) # cs) db =
     create_all co cs (case create_quota_alert co e ad db of Inr (_, db') \<Rightarrow> db' | Inl _ \<Rightarrow> db)"

definition row_keys :: "alert_db \<Rightarrow> (int \<times> string \<times> instant) list" where
  "row_keys db = map (\<lambda>q. (qa_user q, qa_qtype q, qa_created q)) (db_quota_alerts db)"

definition alert_keys :: "alert_db \<Rightarrow> (int \<times> string \<times> instant) list" where
  "alert_keys db = map (\<lambda>a. (al_user a, al_qtype a, al_created a)) (db_alerts db)"

lemma create_cases:
  assumes "create_quota_alert co e ad db = Inr ((s, i), db')"
  obtains (recent) "s" "i = None" "db' = db" "has_recent_alert (ce_now e) (ad_user ad) (ad_qtype ad) db"
    | (written) sev where "s" "i = Some (ce_uuid e)" "db' = execute_transaction ad (ce_uuid e) sev (ce_now e) db"
        "\<not> has_recent_alert (ce_now e) (ad_user ad) (ad_qtype ad) db" "True \<in> set (take 3 (ce_commits e))"
    | (refused) "\<not> s" "i = None" "db' = (if ce_queue e then add_to_failure_queue co ad (ce_now e) db else db)"
        "True \<notin> set (take 3 (ce_commits e))"
  using assms by (auto simp: create_quota_alert_def attempts_iff alert_transaction_max_retries_def split: if_splits)

lemma create_spaced:
  assumes "spaced (db_quota_alerts db)" and "\<forall>q\<in>set (db_quota_alerts db). qa_created q \<le> ce_now e"
    and "create_quota_alert co e ad db = Inr (r, db')"
  shows "spaced (db_quota_alerts db') \<and> (\<forall>q\<in>set (db_quota_alerts db'). qa_created q \<le> ce_now e)"
proof -
  obtain s i where r: "r = (s, i)" by fastforce
  from assms(3) [unfolded r] show ?thesis
  proof (cases rule: create_cases)
    case (written sev)
    then have "\<forall>q\<in>set (db_quota_alerts db). qa_user q = ad_user ad \<and> qa_qtype q = ad_qtype ad \<longrightarrow> qa_created q + seconds 3600 < ce_now e"
      by (auto simp: has_recent_alert_def Let_def list_ex_iff)
    with written assms(1,2) show ?thesis
      by (auto simp: spaced_def execute_transaction_def to_quota_alerts_row_def sorted_wrt_append)
  qed (use assms in \<open>auto simp: add_to_failure_queue_def\<close>)
qed

lemma create_all_spaced:
  "spaced (db_quota_alerts db) \<Longrightarrow> sorted (map (\<lambda>c. ce_now (fst c)) cs) \<Longrightarrow>
     \<forall>q\<in>set (db_quota_alerts db). \<forall>c\<in>set cs. qa_created q \<le> ce_now (fst c) \<Longrightarrow>
     spaced (db_quota_alerts (create_all co cs db))"
proof (induction co cs db rule: create_all.induct)
  case (2 co e ad cs db)
  define db' where "db' = (case create_quota_alert co e ad db of Inr (_, db') \<Rightarrow> db' | Inl _ \<Rightarrow> db)"
  have le: "\<forall>q\<in>set (db_quota_alerts db). qa_created q \<le> ce_now e" using "2.prems"(3) by auto
  have "spaced (db_quota_alerts db') \<and> (\<forall>q\<in>set (db_quota_alerts db'). qa_created q \<le> ce_now e)"
    using create_spaced [OF "2.prems"(1) le] "2.prems"(1) le
    by (cases "create_quota_alert co e ad db") (auto simp: db'_def)
  then have "spaced (db_quota_alerts db')" "\<forall>q\<in>set (db_quota_alerts db'). \<forall>c\<in>set cs. qa_created q \<le> ce_now (fst c)"
    using "2.prems"(2) by (auto intro: order_trans)
  moreover have "sorted (map (\<lambda>c. ce_now (fst c)) cs)" using "2.prems"(2) by simp
  ultimately have "spaced (db_quota_alerts (create_all co cs db'))" using "2.IH" unfolding db'_def by blast
  then show ?case by (simp add: db'_def)
qed simp

lemma create_paired:
  assumes "row_keys db = alert_keys db" and "create_quota_alert co e ad db = Inr (r, db')"
  shows "row_keys db' = alert_keys db'"
proof -
  obtain s i where r: "r = (s, i)" by fastforce
  from assms(2) [unfolded r] show ?thesis
    by (cases rule: create_cases)
      (use assms(1) in \<open>auto simp: row_keys_def alert_keys_def execute_transaction_def to_quota_alerts_row_def to_alerts_row_def add_to_failure_queue_def\<close>)
qed

text \<open>Retrying a row while the database refuses every alert.\<close>

definition pending_count :: "alert_db \<Rightarrow> nat" where
  "pending_count db = length (filter pending_failure (db_failures db))"

lemma refused_fields:
  "db_quota_alerts db' = db_quota_alerts db \<Longrightarrow> db_alerts db' = db_alerts db \<Longrightarrow> refused co e ad db' = refused co e ad db"
  by (simp add: refused_def has_recent_alert_def)

lemma retry_refused:
  assumes "co_load co (af_data f) = Some ad" and "refused co (re_create e) ad db" and "re_update e"
  shows "retry_failure co e f db =
     (False, update_failure (af_id f) (af_count f + 1) (ce_now (re_create e)) (failure_status False (af_count f + 1))
        (add_to_failure_queue co ad (ce_now (re_create e)) db))"
  using assms by (simp add: retry_failure_def create_refused Let_def)

lemma filter_map_length:
  assumes "\<And>x. x \<in> set xs \<Longrightarrow> P (g x) = P x"
  shows "length (filter P (map g xs)) = length (filter P xs)"
  using assms by (induction xs) auto

lemma pending_after_refusal:
  assumes ok: "queue_ok db" and f: "f \<in> set (db_failures db)" "pending_failure f" "af_count f + 1 < alert_compensation_max_retries"
  shows "pending_count (update_failure (af_id f) (af_count f + 1) now (failure_status False (af_count f + 1)) (add_to_failure_queue co ad now db)) =
     pending_count db + 1"
proof -
  let ?g = "\<lambda>x. if af_id x = af_id f then x\<lparr>af_count := af_count f + 1, af_last := Some now, af_status := ''retrying''\<rparr> else x"
  have same: "x = f" if "x \<in> set (db_failures db)" "af_id x = af_id f" for x
    using ok f(1) that unfolding queue_ok_def by (metis (no_types, lifting) distinct_map inj_on_contraD)
  have new: "db_failure_seq db \<noteq> af_id f" using ok f(1) by (auto simp: queue_ok_def)
  have "length (filter pending_failure (map ?g (db_failures db))) = length (filter pending_failure (db_failures db))"
  proof (rule filter_map_length)
    fix x assume x: "x \<in> set (db_failures db)"
    show "pending_failure (?g x) = pending_failure x"
    proof (cases "af_id x = af_id f")
      case True
      with same [OF x True] f show ?thesis by (simp add: pending_failure_def)
    qed simp
  qed
  then show ?thesis using f(3) new
    by (simp add: pending_count_def update_failure_def add_to_failure_queue_def failure_status_def)
      (simp add: pending_failure_def alert_compensation_max_retries_def)
qed

text \<open>A pass over a list of rows of the queue, all of which are refused.\<close>

lemma refusal_keeps_rows:
  assumes ok: "queue_ok db" and x: "x \<in> set (db_failures db)" and "af_id x \<noteq> n"
  shows "x \<in> set (db_failures (update_failure n c now st (add_to_failure_queue co ad now' db)))"
  using assms by (force simp: update_failure_def add_to_failure_queue_def)

lemma failing_pass:
  assumes "queue_ok db" and "set fs \<subseteq> set (db_failures db)" and "distinct (map af_id fs)"
    and "\<forall>f\<in>set fs. pending_failure f \<and> 0 \<le> af_count f \<and> af_count f + 1 < alert_compensation_max_retries"
    and "length es = length fs"
    and "\<forall>x\<in>set (zip es fs). re_update (fst x) \<and> (\<exists>ad. co_load co (af_data (snd x)) = Some ad \<and> refused co (re_create (fst x)) ad db)"
  shows "pending_count (snd (retry_all co es fs db)) = pending_count db + length fs \<and> fst (retry_all co es fs db) = (0, int (length fs))"
  using assms
proof (induction co es fs db rule: retry_all.induct)
  case (1 co e es f fs db)
  obtain ad where ad: "co_load co (af_data f) = Some ad" "refused co (re_create e) ad db" "re_update e" using "1.prems"(6) by auto
  define db1 where "db1 = update_failure (af_id f) (af_count f + 1) (ce_now (re_create e)) (failure_status False (af_count f + 1))
        (add_to_failure_queue co ad (ce_now (re_create e)) db)"
  have r: "retry_failure co e f db = (False, db1)" using retry_refused [OF ad] by (simp add: db1_def)
  have count: "pending_count db1 = pending_count db + 1"
    unfolding db1_def by (rule pending_after_refusal) (use "1.prems" in auto)
  have "queue_ok db1" using queue_ok_retry [OF "1.prems"(1) _ _ r] "1.prems"(4) by (simp add: pending_failure_def)
  moreover have "set fs \<subseteq> set (db_failures db1)"
  proof
    fix x assume x: "x \<in> set fs"
    then have "x \<in> set (db_failures db)" "af_id x \<noteq> af_id f" using "1.prems"(2,3) by (auto simp: image_iff)
    then show "x \<in> set (db_failures db1)" unfolding db1_def by (rule refusal_keeps_rows [OF "1.prems"(1)])
  qed
  moreover have "refused co e' ad' db1 = refused co e' ad' db" for e' ad'
    by (rule refused_fields) (simp_all add: db1_def update_failure_def add_to_failure_queue_def)
  ultimately have "pending_count (snd (retry_all co es fs db1)) = pending_count db1 + length fs \<and> fst (retry_all co es fs db1) = (0, int (length fs))"
    by (intro "1.IH" [OF r [symmetric]]) (use "1.prems"(3-6) in auto)
  with count r show ?case by (cases "retry_all co es fs db1") simp
qed (auto simp: pending_count_def)

lemma pending_rows:
  assumes "queue_ok db" and "pending_count db \<le> n"
  shows "length (get_pending_failures n db) = pending_count db" "set (get_pending_failures n db) = {f \<in> set (db_failures db). pending_failure f}"
    "distinct (map af_id (get_pending_failures n db))"
proof -
  have g: "get_pending_failures n db = sort_key af_created (filter pending_failure (db_failures db))"
    using assms(2) by (simp add: get_pending_failures_def pending_count_def)
  then show "length (get_pending_failures n db) = pending_count db" "set (get_pending_failures n db) = {f \<in> set (db_failures db). pending_failure f}"
    by (simp_all add: pending_count_def)
  have "distinct (map af_id (filter pending_failure (db_failures db)))"
    using assms(1) by (auto simp: queue_ok_def distinct_map inj_on_def)
  then show "distinct (map af_id (get_pending_failures n db))"
    unfolding g by (simp add: distinct_map)
qed

section \<open>Properties\<close>

text \<open>an alert is written to both tables or to none: the call reports success and writes both
  rows, reports success because of an alert of the last hour and writes nothing, or queues the data
  of the alert once after three failures.\<close>
theorem alert_written_or_queued:
  assumes "create_quota_alert co e ad db = Inr ((s, i), db')"
  shows "(s \<and> i \<noteq> None \<and> row_keys db' = row_keys db @ [(ad_user ad, ad_qtype ad, ce_now e)] \<and>
          alert_keys db' = alert_keys db @ [(ad_user ad, ad_qtype ad, ce_now e)] \<and> db_failures db' = db_failures db) \<or>
     (s \<and> db' = db \<and> has_recent_alert (ce_now e) (ad_user ad) (ad_qtype ad) db) \<or>
     (\<not> s \<and> True \<notin> set (take 3 (ce_commits e)) \<and> row_keys db' = row_keys db \<and> alert_keys db' = alert_keys db \<and>
        (ce_queue e \<longrightarrow> (\<exists>f. db_failures db' = db_failures db @ [f] \<and> af_data f = co_dump co ad \<and> pending_failure f)))"
  using assms
  by (cases rule: create_cases)
    (auto simp: row_keys_def alert_keys_def execute_transaction_def to_quota_alerts_row_def to_alerts_row_def
      add_to_failure_queue_def pending_failure_def alert_compensation_max_retries_def)

text \<open>in any sequence of calls in the order of the clock, two alerts of one user and one type
  are more than an hour apart.\<close>
theorem alerts_an_hour_apart:
  assumes "sorted (map (\<lambda>c. ce_now (fst c)) cs)" and "db_quota_alerts db = []"
  shows "spaced (db_quota_alerts (create_all co cs db))"
  using assms by (intro create_all_spaced) (simp_all add: spaced_def)

text \<open>C39: the number of retries of a queued alert stays within its bound, and the identifiers of
  the queue stay distinct.\<close>
theorem retries_within_bound:
  assumes "queue_ok db"
  shows "queue_ok (snd (retry_all co es (get_pending_failures n db) db))"
  using assms pending_set [of n db]
  by (intro queue_ok_retry_all) (auto simp: queue_ok_def pending_failure_def)

text \<open>a retry that fails queues its alert again: a pass during which the database refuses the
  alerts doubles the queue, and the bound of ten retries per row ends nothing.\<close>
theorem failing_pass_doubles_queue:
  assumes "queue_ok db" and "pending_count db \<le> 100" and "length es = pending_count db"
    and "\<forall>f\<in>set (db_failures db). af_count f + 1 < alert_compensation_max_retries"
    and "\<And>f. f \<in> set (db_failures db) \<Longrightarrow> \<exists>ad. co_load co (af_data f) = Some ad \<and> (\<forall>e\<in>set es. re_update e \<and> refused co (re_create e) ad db)"
  shows "pending_count (snd (retry_all co es (get_pending_failures 100 db) db)) = 2 * pending_count db"
proof -
  note rows = pending_rows [OF assms(1,2)]
  have "pending_count (snd (retry_all co es (get_pending_failures 100 db) db)) = pending_count db + length (get_pending_failures 100 db) \<and>
      fst (retry_all co es (get_pending_failures 100 db) db) = (0, int (length (get_pending_failures 100 db)))"
  proof (rule failing_pass [OF assms(1) _ rows(3)])
    show "set (get_pending_failures 100 db) \<subseteq> set (db_failures db)" using rows(2) by auto
    show "\<forall>f\<in>set (get_pending_failures 100 db). pending_failure f \<and> 0 \<le> af_count f \<and> af_count f + 1 < alert_compensation_max_retries"
      using rows(2) assms(1,4) by (auto simp: queue_ok_def)
    show "length es = length (get_pending_failures 100 db)" using rows(1) assms(3) by simp
    show "\<forall>x\<in>set (zip es (get_pending_failures 100 db)). re_update (fst x) \<and>
        (\<exists>ad. co_load co (af_data (snd x)) = Some ad \<and> refused co (re_create (fst x)) ad db)"
    proof
      fix x assume x: "x \<in> set (zip es (get_pending_failures 100 db))"
      then have pair: "(fst x, snd x) \<in> set (zip es (get_pending_failures 100 db))" by simp
      have "fst x \<in> set es" by (rule set_zip_leftD [OF pair])
      have mem: "snd x \<in> set (db_failures db)" using set_zip_rightD [OF pair] rows(2) by simp
      obtain ad where "co_load co (af_data (snd x)) = Some ad" "\<forall>e\<in>set es. re_update e \<and> refused co (re_create e) ad db"
        using assms(5) [OF mem] by (elim exE conjE)
      with \<open>fst x \<in> set es\<close> show "re_update (fst x) \<and> (\<exists>ad. co_load co (af_data (snd x)) = Some ad \<and> refused co (re_create (fst x)) ad db)"
        by (intro conjI exI [of _ ad]) simp_all
    qed
  qed
  with rows(1) show ?thesis by simp
qed

text \<open>a pass that finds the queue empty does not release the lease: for half an hour, up to the
  minute the lease is rounded down to, the worker of every process, this one included, skips the queue, whatever enters it meanwhile.\<close>
theorem empty_pass_blocks_queue:
  assumes "process_failures ok co es True leader owner now end_time d db = (c1, d1, db1)"
    and "get_pending_failures 100 db = []" and "lc_is_leader c1" and "\<And>st. ok st"
    and "leader' \<noteq> leader" and "now' \<le> lease_expiry now compensation_timeout"
    and "select_leader ''alert_compensation'' (sd_leaders d) \<noteq> Some leader"
  shows "\<exists>c2 d2. process_failures ok co es' fetch leader' owner' now' end' d1 db' = (c2, d2, db')"
proof -
  let ?job = "''alert_compensation''"
  obtain got c0 d0 where a: "try_acquire_leadership ok None now (new_client ?job leader owner ''heartbeat'' compensation_timeout) d = (got, c0, d0)"
    by (metis prod_cases3)
  have got: "got" "d1 = d0"
    using assms(1-4) a by (auto simp: process_failures_def try_acquire_leadership_def new_client_def try_acquire_heartbeat_lock_def
        record_run_def count_client_def Let_def split: if_splits)
  have "select_leader ?job (sd_leaders d0) = Some leader"
    "sd_leaders d0 = sql_claim ?job leader (Some owner, None) now (lease_expiry now compensation_timeout) (sd_leaders d)"
    using a got(1) assms(4) by (auto simp: try_acquire_leadership_def new_client_def try_acquire_heartbeat_lock_def Let_def split: if_splits)
  note d0 = this
  have "lease_holder ?job (sd_leaders d) = None \<or> (\<exists>i e. lease_holder ?job (sd_leaders d) = Some (i, e) \<and> e < now)"
  proof (rule ccontr)
    assume "\<not> ?thesis"
    then obtain i e where ie: "lease_holder ?job (sd_leaders d) = Some (i, e)" "now \<le> e" by (auto simp: not_less)
    from claim_refused [OF this] d0(2) have "lease_holder ?job (sd_leaders d0) = Some (i, e)" by simp
    with d0(1) ie(1) assms(7) show False by (simp add: select_leader_holder)
  qed
  from claim_granted [OF this] d0(2)
  have h: "lease_holder ?job (sd_leaders d0) = Some (leader, lease_expiry now compensation_timeout)" by simp
  then have "lease_holder ?job (sql_claim ?job l x now' (lease_expiry now' t) (sd_leaders d1)) = Some (leader, lease_expiry now compensation_timeout)" for l x t
    using claim_refused [OF _ assms(6)] got(2) by simp
  then have "select_leader ?job (sql_claim ?job l x now' (lease_expiry now' t) (sd_leaders d1)) = Some leader" for l x t
    by (simp add: select_leader_holder)
  then show ?thesis using assms(4,5)
    by (simp add: process_failures_def try_acquire_leadership_def new_client_def try_acquire_heartbeat_lock_def Let_def split: prod.split)
qed

section \<open>Concrete inputs\<close>

definition full_quota :: alert_data where
  "full_quota = \<lparr>ad_user = 1, ad_username = ''u'', ad_qtype = ''tokens'', ad_pct = 100, ad_usage = 5, ad_limit = 5, ad_threshold = 1, ad_otype = ''exceeded''\<rparr>"

definition one_codec :: alert_codec where
  "one_codec = \<lparr>co_dump = (\<lambda>_. ''x''), co_load = (\<lambda>_. Some full_quota)\<rparr>"

definition empty_alerts :: alert_db where
  "empty_alerts = \<lparr>db_quota_alerts = [], db_alerts = [], db_failures = [], db_quota_seq = 1, db_failure_seq = 1\<rparr>"

definition down_env :: "instant \<Rightarrow> create_env" where
  "down_env t = \<lparr>ce_now = t, ce_search = True, ce_commits = [], ce_queue = True, ce_uuid = ''a''\<rparr>"
definition up_env :: "instant \<Rightarrow> create_env" where
  "up_env t = \<lparr>ce_now = t, ce_search = True, ce_commits = [False, True], ce_queue = True, ce_uuid = ''a''\<rparr>"

definition one_queued :: alert_db where "one_queued = add_to_failure_queue one_codec full_quota 0 empty_alerts"

lemma one_queued_simps:
  "db_failures one_queued = [\<lparr>af_id = 1, af_data = ''x'', af_count = 0, af_last = None, af_created = 0, af_status = ''pending''\<rparr>]"
  "db_quota_alerts one_queued = []" "db_alerts one_queued = []" "db_failure_seq one_queued = 2"
  by (simp_all add: one_queued_def add_to_failure_queue_def empty_alerts_def one_codec_def)

lemma one_queued_ok: "queue_ok one_queued" "pending_count one_queued = 1"
  by (simp_all add: queue_ok_def one_queued_simps pending_count_def pending_failure_def alert_compensation_max_retries_def)

lemma down_refused: "refused co (down_env t) full_quota one_queued"
  by (simp add: refused_def down_env_def full_quota_def severity_of_def has_recent_alert_def one_queued_simps)

theorem alert_written_or_queued_witness:
  "\<exists>f. db_failures one_queued = db_failures empty_alerts @ [f] \<and> af_data f = co_dump one_codec full_quota \<and> pending_failure f"
proof -
  have r: "refused one_codec (down_env 0) full_quota empty_alerts"
    by (simp add: refused_def down_env_def full_quota_def severity_of_def has_recent_alert_def empty_alerts_def)
  have "create_quota_alert one_codec (down_env 0) full_quota empty_alerts = Inr ((False, None), one_queued)"
    using create_refused [OF r] by (simp add: one_queued_def down_env_def)
  from alert_written_or_queued [OF this] show ?thesis by (simp add: down_env_def)
qed

theorem alerts_an_hour_apart_witness:
  "spaced (db_quota_alerts (create_all one_codec [(up_env 0, full_quota), (up_env (seconds 60), full_quota), (up_env (seconds 4000), full_quota)] empty_alerts))"
  by (rule alerts_an_hour_apart) (simp_all add: up_env_def empty_alerts_def)

theorem retries_within_bound_witness:
  "queue_ok (snd (retry_all one_codec [\<lparr>re_create = down_env 1, re_update = True\<rparr>] (get_pending_failures 100 one_queued) one_queued))"
  by (rule retries_within_bound [OF one_queued_ok(1)])

theorem failing_pass_doubles_queue_witness:
  "pending_count (snd (retry_all one_codec [\<lparr>re_create = down_env 1, re_update = True\<rparr>] (get_pending_failures 100 one_queued) one_queued)) = 2"
proof -
  have "pending_count (snd (retry_all one_codec [\<lparr>re_create = down_env 1, re_update = True\<rparr>] (get_pending_failures 100 one_queued) one_queued)) =
      2 * pending_count one_queued"
    by (rule failing_pass_doubles_queue [OF one_queued_ok(1)])
      (simp_all add: one_queued_ok one_queued_simps alert_compensation_max_retries_def one_codec_def down_refused)
  then show ?thesis by (simp add: one_queued_ok)
qed

definition quiet_sched :: sched_db where "quiet_sched = \<lparr>sd_leaders = [], sd_runs = [], sd_token_seq = 0\<rparr>"

definition first_pass :: "election_client \<times> sched_db \<times> alert_db" where
  "first_pass = process_failures (\<lambda>_. True) one_codec [] True ''w1'' ''host'' 0 0 quiet_sched empty_alerts"

theorem empty_pass_blocks_queue_witness:
  "\<exists>c2 d2. process_failures (\<lambda>_. True) one_codec [\<lparr>re_create = up_env (seconds 300), re_update = True\<rparr>] True ''w2'' ''host'' (seconds 300) (seconds 300)
     (fst (snd first_pass)) one_queued = (c2, d2, one_queued)"
proof (rule empty_pass_blocks_queue)
  show "process_failures (\<lambda>_. True) one_codec [] True ''w1'' ''host'' 0 0 quiet_sched empty_alerts = (fst first_pass, fst (snd first_pass), snd (snd first_pass))"
    by (simp add: first_pass_def)
  show "get_pending_failures 100 empty_alerts = []" by (simp add: get_pending_failures_def empty_alerts_def)
  show "lc_is_leader (fst first_pass)" by (simp add: first_pass_def process_failures_def try_acquire_leadership_def new_client_def
      try_acquire_heartbeat_lock_def quiet_sched_def sql_claim_def select_leader_def fresh_row_def get_pending_failures_def empty_alerts_def)
  show "''w2'' \<noteq> ''w1''" by simp
  show "seconds 300 \<le> lease_expiry 0 compensation_timeout" by (simp add: lease_expiry_def floor_minute_def compensation_timeout_def)
  show "select_leader ''alert_compensation'' (sd_leaders quiet_sched) \<noteq> Some ''w1''" by (simp add: quiet_sched_def select_leader_def)
qed simp

end
