(* ===== verification/Quota.thy ===== *)
theory Quota
  imports Alert_Queue
begin

text \<open>
  Quotas (\<^verbatim>\<open>modules/governance/quota_manager.py\<close>, \<^verbatim>\<open>services/quota_enforcement_scheduler.py\<close>): the
  limits of a user for a day and a month, the usage that counts against them and where it is read
  from, the check before a request, the alerts, and the scheduler that closes the sessions of users
  over their quota. The tables are those of \<open>Alert_Queue\<close> and the ones below; a query of a table
  that may be missing is a result. Days are counted from 1970-01-01 and a clock carries the day of
  the month. Percentages are exact, where the code computes with floats; the texts of the alerts are
  left out, and so are the last alerts that a status carries along. The lease of the scheduler is that of \<open>Leader_Election\<close>.
\<close>

section \<open>The database\<close>

record quota_user =
  qu_id :: int
  qu_name :: string
  qu_account :: string
  qu_active :: bool
  qu_daily_tokens :: "int option"
  qu_daily_requests :: "int option"
  qu_monthly_tokens :: "int option"
  qu_monthly_requests :: "int option"

record usage_row =
  ur_user :: int
  ur_date :: int
  ur_tokens :: int
  ur_requests :: int

record agent_session =
  as_id :: string
  as_user :: int
  as_type :: string
  as_date :: int
  as_tokens :: int
  as_status :: string
  as_autonomous :: bool

record daily_message =
  dm_sender :: string
  dm_date :: int
  dm_role :: string
  dm_source :: "string option"
  dm_session :: "string option"
  dm_tokens :: int

record quota_db =
  q_users :: "quota_user list"
  q_usage :: "usage_row list"
  q_session_usage :: "usage_row list result"
  q_daily_stats :: "usage_row list result"
  q_sessions :: "agent_session list"
  q_messages :: "(string \<times> string) list"
  q_daily_messages :: "daily_message list"
  q_alerts :: alert_db

record clock =
  ck_now :: instant
  ck_day_of_month :: int

definition day_of :: "instant \<Rightarrow> int" where "day_of t = t div seconds 86400"

definition today :: "clock \<Rightarrow> int" where "today k = day_of (ck_now k)"

definition find_user :: "quota_db \<Rightarrow> int \<Rightarrow> quota_user option" where
  "find_user db uid = find (\<lambda>u. qu_id u = uid) (q_users db)"

section \<open>Periods\<close>

text \<open>\<open>date.weekday()\<close>: Monday is 0, and the first day is a Thursday.\<close>

definition weekday :: "int \<Rightarrow> int" where "weekday d = (d + 3) mod 7"

definition period_dates :: "clock \<Rightarrow> string \<Rightarrow> int \<times> int" where
  "period_dates k period =
     (if period = ''weekly'' then (today k - weekday (today k), today k)
      else if period = ''monthly'' then (today k - (ck_day_of_month k - 1), today k)
      else (today k, today k))"

section \<open>Usage\<close>

definition sum_rows :: "usage_row list \<Rightarrow> int \<Rightarrow> int \<Rightarrow> int \<Rightarrow> int \<times> int" where
  "sum_rows rows uid s e =
     (let sel = filter (\<lambda>r. ur_user r = uid \<and> s \<le> ur_date r \<and> ur_date r \<le> e) rows
      in (sum_list (map ur_tokens sel), sum_list (map ur_requests sel)))"

definition some_usage :: "int \<times> int \<Rightarrow> bool" where "some_usage u \<longleftrightarrow> 0 < fst u \<or> 0 < snd u"

text \<open>The calls that a session answered, and the third source: sessions by the day they were
  created plus the messages of the command line that belong to no session.\<close>

definition assistant_messages :: "quota_db \<Rightarrow> string \<Rightarrow> int" where
  "assistant_messages db sid = int (length (filter (\<lambda>m. fst m = sid \<and> snd m = ''assistant'') (q_messages db)))"

definition session_usage :: "quota_db \<Rightarrow> int \<Rightarrow> int \<Rightarrow> int \<Rightarrow> int \<times> int" where
  "session_usage db uid s e =
     (let sel = filter (\<lambda>a. as_user a = uid \<and> as_type a \<in> {''local'', ''remote'', ''terminal''} \<and> s \<le> as_date a \<and> as_date a \<le> e) (q_sessions db)
      in (sum_list (map as_tokens sel), sum_list (map (\<lambda>a. assistant_messages db (as_id a)) sel)))"

definition unbound_usage :: "quota_db \<Rightarrow> string \<Rightarrow> int \<Rightarrow> int \<Rightarrow> int \<times> int" where
  "unbound_usage db account s e =
     (let sel = filter (\<lambda>m. py_startswith (dm_sender m) account \<and> s \<le> dm_date m \<and> dm_date m \<le> e \<and> dm_role m = ''assistant'' \<and>
            dm_source m \<noteq> Some ''remote_workspace'' \<and> (dm_session m = None \<or> dm_session m = Some [])) (q_daily_messages db)
      in (sum_list (map dm_tokens sel), int (length sel)))"

definition legacy_usage :: "quota_db \<Rightarrow> int \<Rightarrow> int \<Rightarrow> int \<Rightarrow> int \<times> int" where
  "legacy_usage db uid s e =
     (let sess = session_usage db uid s e;
          unbound = (case find_user db uid of None \<Rightarrow> (0, 0)
            | Some u \<Rightarrow>
                (let account = (if qu_account u \<noteq> [] then qu_account u else qu_name u)
                 in if account = [] then (0, 0) else unbound_usage db account s e))
      in (fst sess + fst unbound, snd sess + snd unbound))"

definition usage_in_range :: "quota_db \<Rightarrow> int \<Rightarrow> int \<Rightarrow> int \<Rightarrow> int \<times> int" where
  "usage_in_range db uid s e =
     (let per_day = (case q_session_usage db of Inr rows \<Rightarrow> sum_rows rows uid s e | Inl _ \<Rightarrow> (0, 0));
          stats = (case q_daily_stats db of Inr rows \<Rightarrow> sum_rows rows uid s e | Inl _ \<Rightarrow> (0, 0))
      in if some_usage per_day then per_day else if some_usage stats then stats else legacy_usage db uid s e)"

section \<open>Status\<close>

definition token_multiplier :: int where "token_multiplier = 1000000"

text \<open>\<open>round(x, 2)\<close>: ties go to the even digit.\<close>

definition round_even :: "rat \<Rightarrow> int" where
  "round_even y = (let d = y - of_int \<lfloor>y\<rfloor> in if d < 1 / 2 then \<lfloor>y\<rfloor> else if d > 1 / 2 then \<lfloor>y\<rfloor> + 1 else if even \<lfloor>y\<rfloor> then \<lfloor>y\<rfloor> else \<lfloor>y\<rfloor> + 1)"

definition round2 :: "rat \<Rightarrow> rat" where "round2 x = of_int (round_even (x * 100)) / 100"

definition percentage :: "int \<Rightarrow> int \<Rightarrow> rat" where
  "percentage used limit = (if 0 < limit then of_int used / of_int limit * 100 else 0)"

record quota_status =
  qs_token_limit :: int
  qs_tokens_used :: int
  qs_token_pct :: rat
  qs_request_limit :: int
  qs_requests_used :: int
  qs_request_pct :: rat
  qs_over_tokens :: bool
  qs_over_requests :: bool

definition limits_of :: "quota_user option \<Rightarrow> string \<Rightarrow> int \<times> int" where
  "limits_of user period =
     (let tq = Option.bind user (if period = ''monthly'' then qu_monthly_tokens else qu_daily_tokens);
          rq = Option.bind user (if period = ''monthly'' then qu_monthly_requests else qu_daily_requests)
      in (case tq of Some n \<Rightarrow> n * token_multiplier | None \<Rightarrow> 1000000, case rq of Some n \<Rightarrow> n | None \<Rightarrow> 1000))"

definition quota_status_of :: "quota_db \<Rightarrow> clock \<Rightarrow> int \<Rightarrow> string \<Rightarrow> quota_status" where
  "quota_status_of db k uid period =
     (let lim = limits_of (find_user db uid) period; dates = period_dates k period;
          used = usage_in_range db uid (fst dates) (snd dates)
      in \<lparr>qs_token_limit = fst lim, qs_tokens_used = fst used, qs_token_pct = round2 (percentage (fst used) (fst lim)),
          qs_request_limit = snd lim, qs_requests_used = snd used, qs_request_pct = round2 (percentage (snd used) (snd lim)),
          qs_over_tokens = (fst lim \<le> fst used), qs_over_requests = (snd lim \<le> snd used)\<rparr>)"

section \<open>The check before a request\<close>

datatype quota_answer = Allowed | Token_Exceeded | Request_Exceeded | Monthly_Token_Exceeded | Monthly_Request_Exceeded

definition set_quota :: "int option \<Rightarrow> bool" where "set_quota q \<longleftrightarrow> q \<noteq> None \<and> q \<noteq> Some 0"

definition check_monthly :: "quota_db \<Rightarrow> clock \<Rightarrow> quota_user \<Rightarrow> int \<Rightarrow> int \<Rightarrow> quota_answer" where
  "check_monthly db k u tokens requests =
     (if \<not> set_quota (qu_monthly_tokens u) \<and> \<not> set_quota (qu_monthly_requests u) then Allowed
      else (let st = quota_status_of db k (qu_id u) ''monthly'' in
        if set_quota (qu_monthly_tokens u) \<and> the (qu_monthly_tokens u) * token_multiplier \<le> qs_tokens_used st + tokens
          then Monthly_Token_Exceeded
        else if set_quota (qu_monthly_requests u) \<and> the (qu_monthly_requests u) \<le> qs_requests_used st + requests
          then Monthly_Request_Exceeded
        else Allowed))"

definition check_quota :: "quota_db \<Rightarrow> clock \<Rightarrow> int \<Rightarrow> int \<Rightarrow> int \<Rightarrow> quota_answer" where
  "check_quota db k uid tokens requests =
     (let st = quota_status_of db k uid ''daily'' in
      if qs_token_limit st \<le> qs_tokens_used st + tokens then Token_Exceeded
      else if qs_request_limit st \<le> qs_requests_used st + requests then Request_Exceeded
      else case find_user db uid of None \<Rightarrow> Allowed | Some u \<Rightarrow> check_monthly db k u tokens requests)"

text \<open>\<open>get_all_quota_statuses\<close>: the statement that reads the sessions of all users has one
  closing parenthesis too many, so it raises as soon as there is a user.\<close>

definition all_quota_statuses :: "quota_db \<Rightarrow> clock \<Rightarrow> (int \<times> quota_status) list result" where
  "all_quota_statuses db k = (if filter qu_active (q_users db) = [] then Inr [] else Inl DBError)"

section \<open>Recording usage and alerts\<close>

definition upsert_usage :: "int \<Rightarrow> int \<Rightarrow> int \<Rightarrow> int \<Rightarrow> usage_row list \<Rightarrow> usage_row list" where
  "upsert_usage uid date tokens requests rows =
     (if list_ex (\<lambda>r. ur_user r = uid \<and> ur_date r = date) rows
      then map (\<lambda>r. if ur_user r = uid \<and> ur_date r = date
             then r\<lparr>ur_tokens := ur_tokens r + tokens, ur_requests := ur_requests r + requests\<rparr> else r) rows
      else rows @ [\<lparr>ur_user = uid, ur_date = date, ur_tokens = tokens, ur_requests = requests\<rparr>])"

definition default_thresholds :: "rat list" where "default_thresholds = [8 / 10, 95 / 100, 1]"

text \<open>The fallback of the manager: the highest threshold that is reached, unless there is an alert
  of today for it or a higher one.\<close>

fun create_alert_if_needed ::
    "clock \<Rightarrow> int \<Rightarrow> string \<Rightarrow> int \<Rightarrow> int \<Rightarrow> rat \<Rightarrow> rat list \<Rightarrow> alert_db \<Rightarrow> alert_db" where
  "create_alert_if_needed k uid qtype usage limit pct [] db = db"
| "create_alert_if_needed k uid qtype usage limit pct (t # ts) db =
     (if t \<le> pct then
        (if list_ex (\<lambda>q. qa_user q = uid \<and> qa_qtype q = qtype \<and> day_of (qa_created q) = today k \<and> t \<le> qa_threshold q) (db_quota_alerts db)
         then db
         else db\<lparr>db_quota_alerts := db_quota_alerts db @
               [\<lparr>qa_id = db_quota_seq db, qa_user = uid,
                 qa_type = (if 1 \<le> pct then ''exceeded'' else if 95 / 100 \<le> pct then ''critical'' else ''warning''),
                 qa_qtype = qtype, qa_period = ''daily'', qa_threshold = t, qa_usage = usage, qa_limit = limit, qa_pct = pct,
                 qa_created = ck_now k, qa_ack = None\<rparr>],
               db_quota_seq := db_quota_seq db + 1\<rparr>)
      else create_alert_if_needed k uid qtype usage limit pct ts db)"

definition user_name :: "quota_db \<Rightarrow> int \<Rightarrow> string" where
  "user_name db uid = (case find_user db uid of Some u \<Rightarrow> qu_name u | None \<Rightarrow> [])"

text \<open>\<open>raised\<close>: writing the alert raises.\<close>

definition check_and_create_alerts ::
    "alert_codec \<Rightarrow> create_env \<Rightarrow> bool \<Rightarrow> quota_db \<Rightarrow> clock \<Rightarrow> int \<Rightarrow> quota_db" where
  "check_and_create_alerts co e raised db k uid =
     (let st = quota_status_of db k uid ''daily'';
          max_pct = max (qs_token_pct st) (qs_request_pct st);
          by_tokens = qs_request_pct st \<le> qs_token_pct st;
          qtype = (if by_tokens then ''tokens'' else ''requests'');
          usage = (if by_tokens then qs_tokens_used st else qs_requests_used st);
          limit = (if by_tokens then qs_token_limit st else qs_request_limit st)
      in if max_pct < 80 then db
         else if raised then db\<lparr>q_alerts := create_alert_if_needed k uid qtype usage limit (max_pct / 100) (rev default_thresholds) (q_alerts db)\<rparr>
         else (case create_quota_alert_transactional co e uid (user_name db uid) max_pct qtype usage limit (max_pct / 100) (q_alerts db) of
                 Inr (_, adb) \<Rightarrow> db\<lparr>q_alerts := adb\<rparr>
               | Inl _ \<Rightarrow> db\<lparr>q_alerts := create_alert_if_needed k uid qtype usage limit (max_pct / 100) (rev default_thresholds) (q_alerts db)\<rparr>))"

text \<open>\<open>ok\<close>: the statement that records the usage succeeds.\<close>

definition record_usage ::
    "alert_codec \<Rightarrow> create_env \<Rightarrow> bool \<Rightarrow> bool \<Rightarrow> quota_db \<Rightarrow> clock \<Rightarrow> int \<Rightarrow> int \<Rightarrow> int \<Rightarrow> int option \<Rightarrow> bool \<times> quota_db" where
  "record_usage co e raised ok db k uid tokens requests date =
     (if \<not> ok then (False, db)
      else (True, check_and_create_alerts co e raised
          (db\<lparr>q_usage := upsert_usage uid (case date of Some d \<Rightarrow> d | None \<Rightarrow> today k) tokens requests (q_usage db)\<rparr>) k uid))"

definition acknowledge_alert :: "int \<Rightarrow> int \<Rightarrow> instant \<Rightarrow> alert_db \<Rightarrow> bool \<times> alert_db" where
  "acknowledge_alert alert_id by now db =
     (list_ex (\<lambda>q. qa_id q = alert_id) (db_quota_alerts db),
      db\<lparr>db_quota_alerts := map (\<lambda>q. if qa_id q = alert_id then q\<lparr>qa_ack := Some (now, by)\<rparr> else q) (db_quota_alerts db)\<rparr>)"

definition cleanup_old_alerts :: "int \<Rightarrow> instant \<Rightarrow> alert_db \<Rightarrow> int \<times> alert_db" where
  "cleanup_old_alerts days now db =
     (let old = (\<lambda>q. qa_ack q \<noteq> None \<and> qa_created q < now - seconds (days * 86400))
      in (int (length (filter old (db_quota_alerts db))),
          db\<lparr>db_quota_alerts := filter (\<lambda>q. \<not> old q) (db_quota_alerts db)\<rparr>))"

section \<open>The enforcement scheduler\<close>

definition coalesce :: "int option \<Rightarrow> int \<Rightarrow> int" where
  "coalesce q d = (case q of Some n \<Rightarrow> n | None \<Rightarrow> d)"

definition over_quota :: "int option \<Rightarrow> int option \<Rightarrow> int \<Rightarrow> int \<Rightarrow> bool" where
  "over_quota token_quota request_quota tokens requests \<longleftrightarrow>
     coalesce request_quota 999999 \<le> requests \<or> coalesce token_quota 999999 * 1000000 \<le> tokens"

text \<open>The rows of the two statements: the user, the tokens and the requests.\<close>

definition exceeded_daily :: "quota_db \<Rightarrow> usage_row list \<Rightarrow> clock \<Rightarrow> (quota_user \<times> int \<times> int) list" where
  "exceeded_daily db rows k =
     concat (map (\<lambda>r. map (\<lambda>u. (u, ur_tokens r, ur_requests r))
         (filter (\<lambda>u. qu_id u = ur_user r \<and> qu_active u \<and> ur_date r = today k \<and>
            over_quota (qu_daily_tokens u) (qu_daily_requests u) (ur_tokens r) (ur_requests r)) (q_users db))) rows)"

definition exceeded_monthly :: "quota_db \<Rightarrow> usage_row list \<Rightarrow> clock \<Rightarrow> (quota_user \<times> int \<times> int) list" where
  "exceeded_monthly db rows k =
     (let dates = period_dates k ''monthly'' in
      List.map_filter (\<lambda>u.
        let used = sum_rows rows (qu_id u) (fst dates) (snd dates) in
        if qu_active u \<and> list_ex (\<lambda>r. ur_user r = qu_id u \<and> fst dates \<le> ur_date r \<and> ur_date r \<le> snd dates) rows \<and>
           over_quota (qu_monthly_tokens u) (qu_monthly_requests u) (fst used) (snd used)
        then Some (u, used) else None) (q_users db))"

type_synonym action_key = "int \<times> int \<times> string"

definition quota_pct :: "int option \<Rightarrow> int \<Rightarrow> int \<Rightarrow> rat" where
  "quota_pct quota factor used = (if set_quota quota then of_int used / of_int (the quota * factor) * 100 else 0)"

text \<open>The percentages of a monthly row are read from columns the statement does not select.\<close>

definition row_pcts :: "quota_user \<Rightarrow> string \<Rightarrow> int \<Rightarrow> int \<Rightarrow> rat \<times> rat" where
  "row_pcts u period tokens requests =
     (if period = ''monthly'' then (0, 0)
      else (quota_pct (qu_daily_tokens u) 1000000 tokens, quota_pct (qu_daily_requests u) 1 requests))"

definition close_sessions :: "(string \<Rightarrow> bool) \<Rightarrow> int \<Rightarrow> agent_session list \<Rightarrow> agent_session list" where
  "close_sessions ok uid =
     map (\<lambda>a. if as_user a = uid \<and> as_status a = ''active'' \<and> \<not> as_autonomous a \<and> ok (as_id a)
        then a\<lparr>as_status := ''completed''\<rparr> else a)"

text \<open>\<open>raised\<close>: writing the alert raises; \<open>ok\<close>: which sessions can be completed.\<close>

definition enforce_user ::
    "alert_codec \<Rightarrow> create_env \<Rightarrow> bool \<Rightarrow> (string \<Rightarrow> bool) \<Rightarrow> clock \<Rightarrow> string \<Rightarrow> quota_user \<times> int \<times> int \<Rightarrow>
     quota_db \<times> action_key list \<Rightarrow> quota_db \<times> action_key list" where
  "enforce_user co e raised ok k period row st =
     (case row of (u, tokens, requests) \<Rightarrow>
      let key = (qu_id u, today k, period) in
      if key \<in> set (snd st) then st
      else
        (let pcts = row_pcts u period tokens requests;
             qtype = period @ (if fst pcts \<le> snd pcts then ''_requests'' else ''_tokens'');
             adb = (if raised then q_alerts (fst st)
               else case create_quota_alert_transactional co e (qu_id u) (qu_name u) (max (fst pcts) (snd pcts)) qtype 0 0 0 (q_alerts (fst st)) of
                 Inr (_, adb) \<Rightarrow> adb | Inl _ \<Rightarrow> q_alerts (fst st))
         in ((fst st)\<lparr>q_alerts := adb, q_sessions := close_sessions ok (qu_id u) (q_sessions (fst st))\<rparr>,
             filter (\<lambda>x. fst (snd x) = today k) (key # snd st))))"

definition run_checks ::
    "alert_codec \<Rightarrow> (int \<Rightarrow> create_env) \<Rightarrow> bool \<Rightarrow> (string \<Rightarrow> bool) \<Rightarrow> clock \<Rightarrow> quota_db \<times> action_key list \<Rightarrow>
     bool \<times> quota_db \<times> action_key list" where
  "run_checks co env raised ok k st =
     (case q_daily_stats (fst st) of
        Inl _ \<Rightarrow> (False, st)
      | Inr rows \<Rightarrow>
          (let daily = exceeded_daily (fst st) rows k;
               st1 = foldl (\<lambda>s r. enforce_user co (env (qu_id (fst r))) raised ok k ''daily'' r s) st daily;
               monthly = filter (\<lambda>r. qu_id (fst r) \<notin> (\<lambda>d. qu_id (fst d)) ` set daily) (exceeded_monthly (fst st1) rows k)
           in (True, foldl (\<lambda>s r. enforce_user co (env (qu_id (fst r))) raised ok k ''monthly'' r s) st1 monthly)))"

text \<open>One run: with PostgreSQL only the holder of the lease enforces.\<close>

definition run_enforcement ::
    "(lease_stmt \<Rightarrow> bool) \<Rightarrow> bool \<Rightarrow> alert_codec \<Rightarrow> (int \<Rightarrow> create_env) \<Rightarrow> bool \<Rightarrow> (string \<Rightarrow> bool) \<Rightarrow> clock \<Rightarrow> string \<Rightarrow> string \<Rightarrow>
     instant \<Rightarrow> sched_db \<Rightarrow> quota_db \<times> action_key list \<Rightarrow> election_client \<times> sched_db \<times> quota_db \<times> action_key list" where
  "run_enforcement lok postgres co env raised ok k leader owner end_time d st =
     (let (got, c1, d1) = try_acquire_leadership lok None (ck_now k)
            (new_client ''quota_enforcement'' leader owner ''heartbeat'' 1800) d
      in if \<not> got \<and> postgres then (case record_run lok ''skipped'' None None (ck_now k) c1 d1 of (c2, d2) \<Rightarrow> (c2, d2, st))
         else
           (let (done, st1) = run_checks co env raised ok k st in
            if \<not> got then (c1, d1, st1)
            else
              (let (c2, d2) = record_run lok (if done then ''completed'' else ''failed'') (Some ((end_time - ck_now k) div 1000))
                     (if done then None else Some ''error'') end_time c1 d1;
                   (c3, d3) = release_leadership lok c2 d2
               in (c3, d3, st1))))"

section \<open>Lemmas\<close>

lemma find_user_id: "find_user db uid = Some u \<Longrightarrow> qu_id u = uid \<and> u \<in> set (q_users db)"
  by (auto simp: find_user_def find_Some_iff)

lemma status_alerts [simp]:
  "quota_status_of (db\<lparr>q_alerts := a\<rparr>) = quota_status_of db" "quota_status_of (db\<lparr>q_usage := w\<rparr>) = quota_status_of db"
  "find_user (db\<lparr>q_alerts := a\<rparr>) = find_user db" "find_user (db\<lparr>q_usage := w\<rparr>) = find_user db"
proof -
  show f: "find_user (db\<lparr>q_alerts := a\<rparr>) = find_user db" "find_user (db\<lparr>q_usage := w\<rparr>) = find_user db"
    by (intro ext, simp add: find_user_def)+
  have "assistant_messages (db\<lparr>q_alerts := a\<rparr>) = assistant_messages db" "assistant_messages (db\<lparr>q_usage := w\<rparr>) = assistant_messages db"
    by (intro ext, simp add: assistant_messages_def)+
  then have "session_usage (db\<lparr>q_alerts := a\<rparr>) = session_usage db" "session_usage (db\<lparr>q_usage := w\<rparr>) = session_usage db"
    "unbound_usage (db\<lparr>q_alerts := a\<rparr>) = unbound_usage db" "unbound_usage (db\<lparr>q_usage := w\<rparr>) = unbound_usage db"
    by (intro ext, simp add: session_usage_def unbound_usage_def)+
  with f have "legacy_usage (db\<lparr>q_alerts := a\<rparr>) = legacy_usage db" "legacy_usage (db\<lparr>q_usage := w\<rparr>) = legacy_usage db"
    by (intro ext, simp add: legacy_usage_def Let_def split: option.split)+
  then have "usage_in_range (db\<lparr>q_alerts := a\<rparr>) = usage_in_range db" "usage_in_range (db\<lparr>q_usage := w\<rparr>) = usage_in_range db"
    by (intro ext, simp add: usage_in_range_def Let_def split: sum.split)+
  with f show "quota_status_of (db\<lparr>q_alerts := a\<rparr>) = quota_status_of db" "quota_status_of (db\<lparr>q_usage := w\<rparr>) = quota_status_of db"
    by (intro ext, simp add: quota_status_of_def Let_def)+
qed

lemma check_and_create_status [simp]: "quota_status_of (check_and_create_alerts co e raised db k uid) = quota_status_of db"
  by (auto simp: check_and_create_alerts_def Let_def split: sum.splits prod.splits)

definition closed_by :: "int set \<Rightarrow> agent_session \<Rightarrow> agent_session \<Rightarrow> bool" where
  "closed_by U a b \<longleftrightarrow> b = a \<or>
     b = a\<lparr>as_status := ''completed''\<rparr> \<and> as_status a = ''active'' \<and> \<not> as_autonomous a \<and> as_user a \<in> U"

lemma closed_by_refl: "list_all2 (closed_by U) xs xs"
  by (simp add: list_all2_same closed_by_def)

lemma closed_by_trans: "list_all2 (closed_by U) xs ys \<Longrightarrow> list_all2 (closed_by U) ys zs \<Longrightarrow> list_all2 (closed_by U) xs zs"
  by (rule list_all2_trans [of "closed_by U" "closed_by U"]) (auto simp: closed_by_def)

lemma close_sessions_closed: "uid \<in> U \<Longrightarrow> list_all2 (closed_by U) xs (close_sessions ok uid xs)"
  by (induction xs) (auto simp: close_sessions_def closed_by_def)

lemma enforce_user_closed:
  "qu_id (fst row) \<in> U \<Longrightarrow> list_all2 (closed_by U) (q_sessions (fst st)) (q_sessions (fst (enforce_user co e raised ok k period row st)))"
  by (cases row) (auto simp: enforce_user_def Let_def closed_by_refl close_sessions_closed)

lemma enforce_all_closed:
  "\<forall>r\<in>set rows. qu_id (fst r) \<in> U \<Longrightarrow>
     list_all2 (closed_by U) (q_sessions (fst st))
       (q_sessions (fst (foldl (\<lambda>s r. enforce_user co (env (qu_id (fst r))) raised ok k period r s) st rows)))"
proof (induction rows arbitrary: st)
  case (Cons r rows)
  let ?st = "enforce_user co (env (qu_id (fst r))) raised ok k period r st"
  have "list_all2 (closed_by U) (q_sessions (fst st)) (q_sessions (fst ?st))"
    by (rule enforce_user_closed) (use Cons.prems in simp)
  moreover have "list_all2 (closed_by U) (q_sessions (fst ?st))
      (q_sessions (fst (foldl (\<lambda>s r. enforce_user co (env (qu_id (fst r))) raised ok k period r s) ?st rows)))"
    by (rule Cons.IH) (use Cons.prems in simp)
  ultimately show ?case unfolding foldl.simps by (rule closed_by_trans)
qed (simp add: closed_by_refl)

lemma enforce_user_users [simp]:
  "q_users (fst (enforce_user co e raised ok k period row st)) = q_users (fst st)"
  by (cases row) (simp add: enforce_user_def Let_def)

lemma enforce_all_users [simp]:
  "q_users (fst (foldl (\<lambda>s r. enforce_user co (env (qu_id (fst r))) raised ok k period r s) st rows)) = q_users (fst st)"
  by (induction rows arbitrary: st) simp_all

lemma exceeded_daily_iff:
  "x \<in> set (exceeded_daily db rows k) \<longleftrightarrow>
     (\<exists>r u. r \<in> set rows \<and> u \<in> set (q_users db) \<and> qu_id u = ur_user r \<and> qu_active u \<and> ur_date r = today k \<and>
        over_quota (qu_daily_tokens u) (qu_daily_requests u) (ur_tokens r) (ur_requests r) \<and> x = (u, ur_tokens r, ur_requests r))"
  by (auto simp: exceeded_daily_def)

section \<open>Properties\<close>

text \<open>a request that is admitted stays below every limit that is set: the use of the day and of
  the month, with what the request announces, is below the quota.\<close>
theorem admitted_below_limits:
  assumes "check_quota db k uid tokens requests = Allowed"
  shows "qs_tokens_used (quota_status_of db k uid ''daily'') + tokens < qs_token_limit (quota_status_of db k uid ''daily'') \<and>
     qs_requests_used (quota_status_of db k uid ''daily'') + requests < qs_request_limit (quota_status_of db k uid ''daily'') \<and>
     (\<forall>u q. find_user db uid = Some u \<and> qu_monthly_tokens u = Some q \<and> q \<noteq> 0 \<longrightarrow>
        qs_tokens_used (quota_status_of db k uid ''monthly'') + tokens < q * token_multiplier) \<and>
     (\<forall>u q. find_user db uid = Some u \<and> qu_monthly_requests u = Some q \<and> q \<noteq> 0 \<longrightarrow>
        qs_requests_used (quota_status_of db k uid ''monthly'') + requests < q)"
  using assms find_user_id [of db uid]
  by (auto simp: check_quota_def check_monthly_def set_quota_def Let_def split: if_splits)

text \<open>a monthly quota of zero limits nothing before a request, although the status of the
  month reports it as used up.\<close>
theorem zero_monthly_quota_unlimited:
  assumes "find_user db uid = Some u" and "qu_monthly_tokens u = Some 0" and "qu_monthly_requests u = Some 0"
    and "0 \<le> qs_tokens_used (quota_status_of db k uid ''monthly'')"
  shows "check_monthly db k u tokens requests = Allowed \<and> qs_over_tokens (quota_status_of db k uid ''monthly'')"
  using assms by (simp add: check_monthly_def set_quota_def quota_status_of_def limits_of_def Let_def)

text \<open>what \<open>record_usage\<close> writes is read by no check: the status of every user and period is the
  same afterwards, whatever was recorded.\<close>
theorem recorded_usage_not_counted:
  "quota_status_of (snd (record_usage co e raised ok db k uid tokens requests date)) = quota_status_of db"
  by (simp add: record_usage_def)

text \<open>for an active user with both daily quotas the scheduler and the status agree on who is
  over the quota, when the statistics of the day are the source of both.\<close>
theorem scheduler_agrees_with_status:
  assumes "find_user db uid = Some u" and "distinct (map qu_id (q_users db))" and "qu_active u"
    and "qu_daily_tokens u = Some tq" and "qu_daily_requests u = Some rq"
    and "q_daily_stats db = Inr rows" and "filter (\<lambda>r. ur_user r = uid \<and> ur_date r = today k) rows = [r]"
    and "0 < ur_tokens r \<or> 0 < ur_requests r" and "q_session_usage db = Inl DBError"
  shows "(\<exists>x\<in>set (exceeded_daily db rows k). qu_id (fst x) = uid) \<longleftrightarrow>
     qs_over_tokens (quota_status_of db k uid ''daily'') \<or> qs_over_requests (quota_status_of db k uid ''daily'')"
proof -
  have u: "qu_id u = uid" "u \<in> set (q_users db)" using find_user_id [OF assms(1)] by auto
  have only: "v = u" if "v \<in> set (q_users db)" "qu_id v = uid" for v
    using assms(2) u that by (metis distinct_map inj_on_contraD)
  have one: "{x \<in> set rows. ur_user x = uid \<and> ur_date x = today k} = {r}"
    using arg_cong [OF assms(7), of set] by simp
  then have r: "r \<in> set rows" "ur_user r = uid" "ur_date r = today k" by auto
  have unique: "x = r" if "x \<in> set rows" "ur_user x = uid" "ur_date x = today k" for x using one that by blast
  have sel: "filter (\<lambda>x. ur_user x = uid \<and> today k \<le> ur_date x \<and> ur_date x \<le> today k) rows = [r]"
  proof -
    have "(\<lambda>x::usage_row. ur_user x = uid \<and> today k \<le> ur_date x \<and> ur_date x \<le> today k) = (\<lambda>r. ur_user r = uid \<and> ur_date r = today k)" by auto
    then show ?thesis using assms(7) by (simp only:)
  qed
  have "usage_in_range db uid (today k) (today k) = (ur_tokens r, ur_requests r)"
    using assms(6,8,9) sel by (simp add: usage_in_range_def sum_rows_def some_usage_def)
  then have status: "qs_over_tokens (quota_status_of db k uid ''daily'') \<longleftrightarrow> tq * token_multiplier \<le> ur_tokens r"
    "qs_over_requests (quota_status_of db k uid ''daily'') \<longleftrightarrow> rq \<le> ur_requests r"
    using assms(1,4,5) by (simp_all add: quota_status_of_def limits_of_def period_dates_def Let_def)
  have "(\<exists>x\<in>set (exceeded_daily db rows k). qu_id (fst x) = uid) \<longleftrightarrow> over_quota (Some tq) (Some rq) (ur_tokens r) (ur_requests r)"
  proof
    assume "\<exists>x\<in>set (exceeded_daily db rows k). qu_id (fst x) = uid"
    then obtain x v where x: "x \<in> set rows" "v \<in> set (q_users db)" "qu_id v = uid" "ur_user x = uid" "ur_date x = today k"
      "over_quota (qu_daily_tokens v) (qu_daily_requests v) (ur_tokens x) (ur_requests x)" by (auto simp: exceeded_daily_iff)
    with unique [OF x(1,4,5)] only [OF x(2,3)] assms(4,5) show "over_quota (Some tq) (Some rq) (ur_tokens r) (ur_requests r)" by simp
  next
    assume "over_quota (Some tq) (Some rq) (ur_tokens r) (ur_requests r)"
    then have "(u, ur_tokens r, ur_requests r) \<in> set (exceeded_daily db rows k)"
      using r u assms(3-5) unfolding exceeded_daily_iff by (intro exI [of _ r] exI [of _ u]) simp
    then show "\<exists>x\<in>set (exceeded_daily db rows k). qu_id (fst x) = uid" using u(1) by force
  qed
  with status show ?thesis by (auto simp: over_quota_def coalesce_def token_multiplier_def)
qed

text \<open>C31: enforcement completes only active sessions of users who are over a quota of the day or the
  month, and never a session of an autonomous workflow; every other session is left as it is.\<close>
theorem enforcement_spares_others:
  assumes "run_checks co env raised ok k (db, done) = (b, db', done')" and "q_daily_stats db = Inr rows"
    and "over = (\<lambda>x. qu_id (fst x)) ` (set (exceeded_daily db rows k) \<union> set (exceeded_monthly db rows k))"
  shows "list_all2 (\<lambda>a a'. a' = a \<or> a' = a\<lparr>as_status := ''completed''\<rparr> \<and> as_status a = ''active'' \<and> \<not> as_autonomous a \<and> as_user a \<in> over)
     (q_sessions db) (q_sessions db')"
proof -
  define st1 where "st1 = foldl (\<lambda>s r. enforce_user co (env (qu_id (fst r))) raised ok k ''daily'' r s) (db, done) (exceeded_daily db rows k)"
  have users: "q_users (fst st1) = q_users db" unfolding st1_def by simp
  then have monthly: "exceeded_monthly (fst st1) rows k = exceeded_monthly db rows k" by (simp add: exceeded_monthly_def)
  have "list_all2 (closed_by over) (q_sessions db) (q_sessions (fst st1))"
    unfolding st1_def using enforce_all_closed [of "exceeded_daily db rows k" over "(db, done)" co env raised ok k "''daily''"] assms(3) by simp
  moreover have "list_all2 (closed_by over) (q_sessions (fst st1)) (q_sessions db')"
  proof -
    let ?m = "filter (\<lambda>r. qu_id (fst r) \<notin> (\<lambda>d. qu_id (fst d)) ` set (exceeded_daily db rows k)) (exceeded_monthly (fst st1) rows k)"
    have "db' = fst (foldl (\<lambda>s r. enforce_user co (env (qu_id (fst r))) raised ok k ''monthly'' r s) st1 ?m)"
      using assms(1,2) by (simp add: run_checks_def st1_def Let_def)
    moreover have "\<forall>r\<in>set ?m. qu_id (fst r) \<in> over" unfolding monthly using assms(3) by auto
    ultimately show ?thesis using enforce_all_closed [of ?m over st1 co env raised ok k "''monthly''"] by simp
  qed
  ultimately have "list_all2 (closed_by over) (q_sessions db) (q_sessions db')" by (rule closed_by_trans)
  then show ?thesis by (simp add: closed_by_def [abs_def])
qed

text \<open>the alert of an exceeded monthly quota reports a warning about zero percent, whatever was
  used: the percentages come from columns that the statement does not select.\<close>
theorem monthly_alert_reports_zero:
  assumes "enforce_user co e False ok k ''monthly'' (u, tokens, requests) (db, done) = (db', done')"
    and "(qu_id u, today k, ''monthly'') \<notin> set done" and "True \<in> set (take 3 (ce_commits e))" and "ce_search e"
    and "\<not> has_recent_alert (ce_now e) (qu_id u) ''monthly_requests'' (q_alerts db)"
  shows "\<exists>row. db_quota_alerts (q_alerts db') = db_quota_alerts (q_alerts db) @ [row] \<and>
     qa_type row = ''warning'' \<and> qa_pct row = 0 \<and> qa_qtype row = ''monthly_requests''"
proof -
  have n: "normalize_alert_severity ''warning'' = Inr ''warning''" by (rule normalize_known) simp
  show ?thesis using assms n
    by (auto simp: enforce_user_def Let_def row_pcts_def create_quota_alert_transactional_def create_quota_alert_def
        alert_type_for_def severity_of_def attempts_iff alert_transaction_max_retries_def execute_transaction_def to_quota_alerts_row_def)
qed

text \<open>a user is dealt with once a day and period: sessions that are opened later on the same day
  stay open, whatever the next runs find.\<close>
theorem later_sessions_stay_open:
  assumes "enforce_user co e raised ok k period row (db, done) = (db', done')" and "qu_id (fst row') = qu_id (fst row)"
    and "today k' = today k"
  shows "enforce_user co e' raised' ok' k' period row' (db2, done') = (db2, done')"
proof -
  have "(qu_id (fst row), today k, period) \<in> set done'"
    using assms(1) by (cases row) (auto simp: enforce_user_def Let_def split: if_splits)
  with assms(2,3) show ?thesis by (cases row') (auto simp: enforce_user_def Let_def)
qed

text \<open>a period ends today; a week starts on its Monday and a month on its first day.\<close>
theorem period_bounds:
  "snd (period_dates k p) = today k \<and> (fst (period_dates k ''weekly'') \<le> today k \<and> today k \<le> fst (period_dates k ''weekly'') + 6 \<and>
     weekday (fst (period_dates k ''weekly'')) = 0) \<and>
   today k = fst (period_dates k ''monthly'') + (ck_day_of_month k - 1)"
proof -
  have "weekday (d - weekday d) = 0" for d
    by (simp add: weekday_def) (metis add_diff_eq diff_add_eq minus_mod_eq_mult_div mod_mult_self1_is_0)
  moreover have "0 \<le> weekday d \<and> weekday d \<le> 6" for d
    using pos_mod_bound [of 7 "d + 3"] by (simp add: weekday_def)
  ultimately show ?thesis by (simp add: period_dates_def)
qed

text \<open>the fallback raises the alerts of a user, a type and a day step by step: their thresholds
  are strictly increasing.\<close>
theorem fallback_alerts_escalate:
  assumes "sorted_wrt (<) (map qa_threshold (filter (\<lambda>q. qa_user q = uid \<and> qa_qtype q = qtype \<and> day_of (qa_created q) = today k) (db_quota_alerts db)))"
  shows "sorted_wrt (<) (map qa_threshold (filter (\<lambda>q. qa_user q = uid \<and> qa_qtype q = qtype \<and> day_of (qa_created q) = today k)
     (db_quota_alerts (create_alert_if_needed k uid qtype usage limit pct ts db))))"
proof (induction ts)
  case (Cons t ts)
  then show ?case using assms by (auto simp: list_ex_iff sorted_wrt_append today_def not_le)
qed (use assms in simp)

text \<open>a user without quotas is refused after a thousand requests a day, while the scheduler does
  not count the user as over the quota: the two use different defaults.\<close>
theorem default_quotas_differ:
  assumes "find_user db uid = Some u" and "distinct (map qu_id (q_users db))" and "qu_daily_tokens u = None" and "qu_daily_requests u = None"
    and "fst (usage_in_range db uid (today k) (today k)) < 1000000" and "1000 \<le> snd (usage_in_range db uid (today k) (today k))"
    and "\<forall>r\<in>set rows. ur_user r = uid \<longrightarrow> ur_requests r < 999999 \<and> ur_tokens r < 999999000000"
  shows "check_quota db k uid 0 0 = Request_Exceeded \<and> (\<forall>x\<in>set (exceeded_daily db rows k). qu_id (fst x) \<noteq> uid)"
proof -
  have only: "v = u" if "v \<in> set (q_users db)" "qu_id v = uid" for v
    using assms(2) find_user_id [OF assms(1)] that by (metis distinct_map inj_on_contraD)
  have "\<forall>x\<in>set (exceeded_daily db rows k). qu_id (fst x) \<noteq> uid"
    using only assms(3,4,7) by (fastforce simp: exceeded_daily_iff over_quota_def coalesce_def)
  then show ?thesis
    using assms(1,3-6) by (simp add: check_quota_def quota_status_of_def limits_of_def period_dates_def Let_def)
qed

section \<open>Concrete inputs\<close>

definition noon :: clock where "noon = \<lparr>ck_now = seconds 43200, ck_day_of_month = 1\<rparr>"

definition ann :: quota_user where
  "ann = \<lparr>qu_id = 1, qu_name = ''ann'', qu_account = [], qu_active = True, qu_daily_tokens = Some 2, qu_daily_requests = Some 10,
     qu_monthly_tokens = Some 0, qu_monthly_requests = Some 0\<rparr>"

definition guest :: quota_user where
  "guest = ann\<lparr>qu_id := 2, qu_name := ''guest'', qu_daily_tokens := None, qu_daily_requests := None\<rparr>"

definition open_session :: "bool \<Rightarrow> agent_session" where
  "open_session auto = \<lparr>as_id = ''s'', as_user = 1, as_type = ''local'', as_date = 0, as_tokens = 0, as_status = ''active'', as_autonomous = auto\<rparr>"

definition stats_db :: "int \<Rightarrow> quota_db" where
  "stats_db requests = \<lparr>q_users = [ann, guest], q_usage = [], q_session_usage = Inl DBError,
     q_daily_stats = Inr [\<lparr>ur_user = 1, ur_date = 0, ur_tokens = 5, ur_requests = requests\<rparr>,
       \<lparr>ur_user = 2, ur_date = 0, ur_tokens = 5, ur_requests = 1500\<rparr>],
     q_sessions = [open_session False, open_session True], q_messages = [], q_daily_messages = [], q_alerts = empty_alerts\<rparr>"

lemma noon_today: "today noon = 0" "period_dates noon ''daily'' = (0, 0)" "period_dates noon ''monthly'' = (0, 0)"
  by (simp_all add: noon_def today_def day_of_def period_dates_def)

lemma stats_db_simps:
  "find_user (stats_db n) 1 = Some ann" "find_user (stats_db n) 2 = Some guest" "q_users (stats_db n) = [ann, guest]" "q_session_usage (stats_db n) = Inl DBError"
  "q_daily_stats (stats_db n) = Inr [\<lparr>ur_user = 1, ur_date = 0, ur_tokens = 5, ur_requests = n\<rparr>, \<lparr>ur_user = 2, ur_date = 0, ur_tokens = 5, ur_requests = 1500\<rparr>]"
  "q_alerts (stats_db n) = empty_alerts"
  by (simp_all add: stats_db_def find_user_def ann_def guest_def)

lemma stats_usage: "usage_in_range (stats_db n) 1 0 0 = (5, n)" "usage_in_range (stats_db n) 2 0 0 = (5, 1500)"
  by (simp_all add: usage_in_range_def stats_db_simps sum_rows_def some_usage_def)

theorem admitted_below_limits_witness:
  "qs_requests_used (quota_status_of (stats_db 3) noon 1 ''daily'') + 1 < qs_request_limit (quota_status_of (stats_db 3) noon 1 ''daily'')"
proof -
  have "check_quota (stats_db 3) noon 1 7 1 = Allowed"
    by (simp add: check_quota_def check_monthly_def quota_status_of_def noon_today stats_usage stats_db_simps limits_of_def ann_def
        token_multiplier_def set_quota_def Let_def)
  from admitted_below_limits [OF this] show ?thesis by simp
qed

theorem zero_monthly_quota_unlimited_witness:
  "check_monthly (stats_db 3) noon ann 7 1 = Allowed \<and> qs_over_tokens (quota_status_of (stats_db 3) noon 1 ''monthly'')"
  by (rule zero_monthly_quota_unlimited [OF stats_db_simps(1)])
    (simp_all add: ann_def quota_status_of_def noon_today stats_usage Let_def)

theorem scheduler_agrees_with_status_witness:
  "(\<exists>x\<in>set (exceeded_daily (stats_db 12) [\<lparr>ur_user = 1, ur_date = 0, ur_tokens = 5, ur_requests = 12\<rparr>, \<lparr>ur_user = 2, ur_date = 0, ur_tokens = 5, ur_requests = 1500\<rparr>] noon).
      qu_id (fst x) = 1) \<longleftrightarrow>
     qs_over_tokens (quota_status_of (stats_db 12) noon 1 ''daily'') \<or> qs_over_requests (quota_status_of (stats_db 12) noon 1 ''daily'')"
  by (rule scheduler_agrees_with_status [OF stats_db_simps(1), where r = "\<lparr>ur_user = 1, ur_date = 0, ur_tokens = 5, ur_requests = 12\<rparr>"])
    (simp_all add: stats_db_simps ann_def guest_def noon_today)

theorem default_quotas_differ_witness: "check_quota (stats_db 3) noon 2 0 0 = Request_Exceeded"
proof -
  have "check_quota (stats_db 3) noon 2 0 0 = Request_Exceeded \<and> (\<forall>x\<in>set (exceeded_daily (stats_db 3) [] noon). qu_id (fst x) \<noteq> 2)"
    by (rule default_quotas_differ [OF stats_db_simps(2)]) (simp_all add: stats_db_simps guest_def ann_def noon_today stats_usage)
  then show ?thesis by simp
qed

definition enforced :: "bool \<times> quota_db \<times> action_key list" where
  "enforced = run_checks one_codec (\<lambda>_. up_env 0) False (\<lambda>_. True) noon (stats_db 12, [])"

theorem enforcement_spares_others_witness:
  "q_sessions (fst (snd enforced)) ! 1 = open_session True"
proof -
  have e: "run_checks one_codec (\<lambda>_. up_env 0) False (\<lambda>_. True) noon (stats_db 12, []) = (fst enforced, fst (snd enforced), snd (snd enforced))"
    by (simp add: enforced_def)
  from enforcement_spares_others [OF e stats_db_simps(5) refl] show ?thesis
    by (auto simp: stats_db_def list_all2_Cons1 open_session_def)
qed

definition busy_user :: quota_user where "busy_user = ann\<lparr>qu_monthly_requests := Some 5\<rparr>"

definition monthly_run :: "quota_db \<times> action_key list" where
  "monthly_run = enforce_user one_codec (up_env 0) False (\<lambda>_. True) noon ''monthly'' (busy_user, 0, 9) (stats_db 9, [])"

theorem monthly_alert_reports_zero_witness:
  "\<exists>row. db_quota_alerts (q_alerts (fst monthly_run)) = db_quota_alerts (q_alerts (stats_db 9)) @ [row] \<and>
     qa_type row = ''warning'' \<and> qa_pct row = 0 \<and> qa_qtype row = ''monthly_requests''"
  by (rule monthly_alert_reports_zero [of one_codec "up_env 0" "\<lambda>_. True" noon busy_user 0 9 "stats_db 9" "[]" "fst monthly_run" "snd monthly_run"])
    (simp_all add: monthly_run_def up_env_def stats_db_simps empty_alerts_def has_recent_alert_def)

theorem later_sessions_stay_open_witness:
  "enforce_user one_codec (up_env 5) False (\<lambda>_. True) noon ''monthly'' (busy_user, 0, 50) (stats_db 50, snd monthly_run) = (stats_db 50, snd monthly_run)"
  by (rule later_sessions_stay_open [of one_codec "up_env 0" False "\<lambda>_. True" noon "''monthly''" "(busy_user, 0, 9)" "stats_db 9" "[]" "fst monthly_run"])
    (simp_all add: monthly_run_def)

theorem fallback_alerts_escalate_witness:
  "sorted_wrt (<) (map qa_threshold (filter (\<lambda>q. qa_user q = 1 \<and> qa_qtype q = ''tokens'' \<and> day_of (qa_created q) = today noon)
     (db_quota_alerts (create_alert_if_needed noon 1 ''tokens'' 9 10 (9 / 10) (rev default_thresholds) empty_alerts))))"
  by (rule fallback_alerts_escalate) (simp add: empty_alerts_def)

end
