(* ===== verification/Py_Url.thy ===== *)
theory Py_Url
  imports Py_Text "HOL-Library.Word"
begin

text \<open>
  What the sources use of the standard library to read network addresses and URLs: \<open>ipaddress\<close>
  (parsing, networks, the classes of special addresses), \<open>urllib.parse\<close> (splitting a URL, the host,
  the port and the credentials in it, percent-decoding) and the label check of the codec \<open>idna\<close>.
  Addresses are machine words; a string is a list of ASCII or Latin-1 characters. UTF-8 and the
  encoding of host names that are not ASCII are parameters.
\<close>

section \<open>Addresses and networks\<close>

datatype ip = V4 "32 word" | V6 "128 word"

definition in_net :: "'w::len word \<Rightarrow> nat \<Rightarrow> 'w word \<Rightarrow> bool" where
  "in_net net n a \<longleftrightarrow> drop_bit (LENGTH('w) - n) a = drop_bit (LENGTH('w) - n) net"

definition in_any :: "('w::len word \<times> nat) list \<Rightarrow> 'w word \<Rightarrow> bool" where
  "in_any nets a \<longleftrightarrow> list_ex (\<lambda>(net, n). in_net net n a) nets"

lemma in_any_Nil: "in_any [] a \<longleftrightarrow> False"
  by (simp add: in_any_def)

lemma in_any_Cons: "in_any ((net, n) # nets) a \<longleftrightarrow> in_net net n a \<or> in_any nets a"
  by (simp add: in_any_def)

definition quad :: "int \<Rightarrow> int \<Rightarrow> int \<Rightarrow> int \<Rightarrow> 32 word" where
  "quad a b c d = word_of_int (((a * 256 + b) * 256 + c) * 256 + d)"

lemma in_net_uint:
  "in_net net n a \<longleftrightarrow> uint a div 2 ^ (LENGTH('w) - n) = uint net div 2 ^ (LENGTH('w) - n)" for a net :: "'w::len word"
  by (simp only: in_net_def word_uint_eq_iff unsigned_drop_bit_eq) (simp add: drop_bit_eq_div take_bit_eq_mod)

lemma div_eq_iff: "a div b = c \<longleftrightarrow> c * b \<le> a \<and> a < (c + 1) * b" if "0 < b" for a b c :: int
proof
  assume "a div b = c"
  then have "a = c * b + a mod b" using div_mult_mod_eq [of a b] by simp
  with that show "c * b \<le> a \<and> a < (c + 1) * b" using pos_mod_bound [OF that, of a] pos_mod_sign [OF that, of a] by (simp only: distrib_right mult_1) linarith
next
  assume "c * b \<le> a \<and> a < (c + 1) * b"
  then have "a = b * c + (a - c * b)" "0 \<le> a - c * b" "a - c * b < b" by (simp_all add: algebra_simps)
  then show "a div b = c" by (rule int_div_pos_eq)
qed

lemma in_net_bounds:
  "in_net net n a \<longleftrightarrow> (let k = 2 ^ (LENGTH('w) - n); c = uint net div k in c * k \<le> uint a \<and> uint a < (c + 1) * k)"
  for a net :: "'w::len word"
  by (simp add: in_net_uint div_eq_iff Let_def)

text \<open>\<open>is_private\<close>, \<open>is_multicast\<close>, \<open>is_reserved\<close>, \<open>is_global\<close> and the others, from the tables of
  the module. An IPv4-mapped address is private when the embedded address is.\<close>

definition private4 :: "32 word \<Rightarrow> bool" where
  "private4 a \<longleftrightarrow>
     in_any [(quad 0 0 0 0, 8), (quad 10 0 0 0, 8), (quad 127 0 0 0, 8), (quad 169 254 0 0, 16), (quad 172 16 0 0, 12),
       (quad 192 0 0 0, 24), (quad 192 0 0 170, 31), (quad 192 0 2 0, 24), (quad 192 168 0 0, 16), (quad 198 18 0 0, 15),
       (quad 198 51 100 0, 24), (quad 203 0 113 0, 24), (quad 240 0 0 0, 4), (quad 255 255 255 255, 32)] a \<and>
     \<not> in_any [(quad 192 0 0 9, 32), (quad 192 0 0 10, 32)] a"

definition mapped4 :: "128 word \<Rightarrow> 32 word option" where
  "mapped4 a = (if drop_bit 32 a = 0xFFFF then Some (ucast a) else None)"

definition hextets :: "int list \<Rightarrow> 128 word" where
  "hextets hs = word_of_int (foldl (\<lambda>n h. n * 65536 + h) 0 hs * 65536 ^ (8 - length hs))"

definition private6 :: "128 word \<Rightarrow> bool" where
  "private6 a \<longleftrightarrow> (case mapped4 a of Some b \<Rightarrow> private4 b
     | None \<Rightarrow> in_any [(1, 128), (0, 128), (hextets [0, 0, 0, 0, 0, 0xFFFF], 96), (hextets [0x64, 0xFF9B, 1], 48), (hextets [0x100], 64),
         (hextets [0x2001], 23), (hextets [0x2001, 0xDB8], 32), (hextets [0x2002], 16), (hextets [0xFC00], 7), (hextets [0xFE80], 10)] a \<and>
       \<not> in_any [(hextets [0x2001, 1, 0, 0, 0, 0, 0, 1], 128), (hextets [0x2001, 1, 0, 0, 0, 0, 0, 2], 128), (hextets [0x2001, 3], 32),
         (hextets [0x2001, 4, 0x112], 48), (hextets [0x2001, 0x20], 28), (hextets [0x2001, 0x30], 28)] a)"

definition reserved6 :: "128 word \<Rightarrow> bool" where
  "reserved6 a \<longleftrightarrow> in_any [(0, 8), (hextets [0x100], 8), (hextets [0x200], 7), (hextets [0x400], 6), (hextets [0x800], 5),
     (hextets [0x1000], 4), (hextets [0x4000], 3), (hextets [0x6000], 3), (hextets [0x8000], 3), (hextets [0xA000], 3),
     (hextets [0xC000], 3), (hextets [0xE000], 4), (hextets [0xF000], 5), (hextets [0xF800], 6), (hextets [0xFE00], 9)] a"

fun is_private :: "ip \<Rightarrow> bool" where "is_private (V4 a) = private4 a" | "is_private (V6 a) = private6 a"

fun is_loopback :: "ip \<Rightarrow> bool" where "is_loopback (V4 a) = in_net (quad 127 0 0 0) 8 a" | "is_loopback (V6 a) = (a = 1)"

fun is_link_local :: "ip \<Rightarrow> bool" where
  "is_link_local (V4 a) = in_net (quad 169 254 0 0) 16 a" | "is_link_local (V6 a) = in_net (hextets [0xFE80]) 10 a"

fun is_multicast :: "ip \<Rightarrow> bool" where
  "is_multicast (V4 a) = in_net (quad 224 0 0 0) 4 a" | "is_multicast (V6 a) = in_net (hextets [0xFF00]) 8 a"

fun is_reserved :: "ip \<Rightarrow> bool" where
  "is_reserved (V4 a) = in_net (quad 240 0 0 0) 4 a" | "is_reserved (V6 a) = reserved6 a"

fun is_unspecified :: "ip \<Rightarrow> bool" where "is_unspecified (V4 a) = (a = 0)" | "is_unspecified (V6 a) = (a = 0)"

fun is_global :: "ip \<Rightarrow> bool" where
  "is_global (V4 a) = (\<not> in_net (quad 100 64 0 0) 10 a \<and> \<not> private4 a)" | "is_global (V6 a) = (\<not> private6 a)"

section \<open>Reading an address\<close>

definition hex_digit :: "char \<Rightarrow> int option" where
  "hex_digit c = (let n = (of_char c :: int) in
     if 48 \<le> n \<and> n \<le> 57 then Some (n - 48) else if 65 \<le> n \<and> n \<le> 70 then Some (n - 55)
     else if 97 \<le> n \<and> n \<le> 102 then Some (n - 87) else None)"

definition decimal :: "string \<Rightarrow> int" where "decimal s = foldl (\<lambda>n c. n * 10 + (of_char c - 48)) 0 s"

definition octet :: "string \<Rightarrow> int option" where
  "octet s = (if s = [] \<or> \<not> list_all py_digit s \<or> 3 < length s \<or> s \<noteq> ''0'' \<and> hd s = CHR ''0'' \<or> 255 < decimal s then None
     else Some (decimal s))"

definition parse_v4 :: "string \<Rightarrow> 32 word option" where
  "parse_v4 s = (case map octet (split_char CHR ''.'' s) of
       [Some a, Some b, Some c, Some d] \<Rightarrow> Some (quad a b c d) | _ \<Rightarrow> None)"

definition hextet :: "string \<Rightarrow> int option" where
  "hextet s = (if s = [] \<or> 4 < length s \<or> list_ex (\<lambda>c. hex_digit c = None) s then None
     else Some (foldl (\<lambda>n c. n * 16 + the (hex_digit c)) 0 s))"

fun hex_text :: "nat \<Rightarrow> string" where
  "hex_text n = (if n < 10 then [char_of (48 + n)] else if n < 16 then [char_of (87 + n)] else hex_text (n div 16) @ hex_text (n mod 16))"

declare hex_text.simps [simp del]

text \<open>\<open>_ip_int_from_string\<close>: the parts between the colons, an IPv4 suffix rewritten as two of them, and
  at most one empty part inside, which stands for a run of zeros.\<close>

definition v6_parts :: "string \<Rightarrow> string list option" where
  "v6_parts s = (let parts = split_char CHR '':'' s in
     if length parts < 3 then None
     else if CHR ''.'' \<in> set (last parts) then
       (case parse_v4 (last parts) of None \<Rightarrow> None
        | Some a \<Rightarrow> Some (butlast parts @ [hex_text (unat (drop_bit 16 a)), hex_text (unat (take_bit 16 a))]))
     else Some parts)"

definition join_hextets :: "int option list \<Rightarrow> 128 word option" where
  "join_hextets hs = (if None \<in> set hs then None else Some (word_of_int (foldl (\<lambda>n h. n * 65536 + the h) 0 hs)))"

definition v6_of_parts :: "string list \<Rightarrow> 128 word option" where
  "v6_of_parts parts =
     (let inner = filter (\<lambda>i. parts ! i = []) [1..<length parts - 1]
      in if 9 < length parts \<or> 1 < length inner then None
         else case inner of
           [] \<Rightarrow> if length parts \<noteq> 8 then None else join_hextets (map hextet parts)
         | k # _ \<Rightarrow>
             (let hi = (if hd parts = [] then k - 1 else k);
                  lo = (if last parts = [] then length parts - k - 2 else length parts - k - 1)
              in if hd parts = [] \<and> hi \<noteq> 0 \<or> last parts = [] \<and> lo \<noteq> 0 \<or> 8 < hi + lo + 1 then None
                 else join_hextets (map hextet (take hi parts) @ replicate (8 - (hi + lo)) (Some 0) @
                   map hextet (drop (length parts - lo) parts))))"

text \<open>A scope such as \<^verbatim>\<open>%eth0\<close> at the end is not part of the address.\<close>

definition parse_v6 :: "string \<Rightarrow> 128 word option" where
  "parse_v6 s =
     (let addr = takeWhile (\<lambda>c. c \<noteq> CHR ''%'') s; scope = drop (Suc (length addr)) s
      in if CHR ''/'' \<in> set s \<or> CHR ''%'' \<in> set s \<and> (scope = [] \<or> CHR ''%'' \<in> set scope) then None
         else Option.bind (v6_parts addr) v6_of_parts)"

definition parse_ip :: "string \<Rightarrow> ip option" where
  "parse_ip s = (case parse_v4 s of Some a \<Rightarrow> Some (V4 a) | None \<Rightarrow> map_option V6 (parse_v6 s))"

section \<open>URLs\<close>

definition py_partition :: "char \<Rightarrow> string \<Rightarrow> string \<times> bool \<times> string" where
  "py_partition c s = (takeWhile (\<lambda>x. x \<noteq> c) s, c \<in> set s, tl (dropWhile (\<lambda>x. x \<noteq> c) s))"

definition py_rpartition :: "char \<Rightarrow> string \<Rightarrow> string \<times> bool \<times> string" where
  "py_rpartition c s = (if c \<in> set s then py_before_last c s else [], c \<in> set s, py_after_last c s)"

record url_parts =
  u_scheme :: string
  u_netloc :: string
  u_path :: string
  u_query :: string

definition scheme_char :: "char \<Rightarrow> bool" where
  "scheme_char c \<longleftrightarrow> (let n = (of_char c :: nat) in 97 \<le> n \<and> n \<le> 122 \<or> 65 \<le> n \<and> n \<le> 90 \<or> py_digit c \<or> c \<in> set ''+-.'')"

definition ascii_alpha :: "char \<Rightarrow> bool" where
  "ascii_alpha c \<longleftrightarrow> (let n = (of_char c :: nat) in 97 \<le> n \<and> n \<le> 122 \<or> 65 \<le> n \<and> n \<le> 90)"

definition split_scheme :: "string \<Rightarrow> string \<times> string" where
  "split_scheme url = (let (pre, found, rest) = py_partition CHR '':'' url in
     if found \<and> pre \<noteq> [] \<and> ascii_alpha (hd pre) \<and> list_all scheme_char pre then (py_lower pre, rest) else ([], url))"

text \<open>\<open>\A v hex+ . any+ \Z\<close> or an IPv6 address.\<close>

definition bracketed_ok :: "string \<Rightarrow> bool" where
  "bracketed_ok host =
     (if py_startswith host ''v'' then
        (let (version, dot, rest) = py_partition CHR ''.'' (tl host)
         in dot \<and> version \<noteq> [] \<and> list_all (\<lambda>c. hex_digit c \<noteq> None) version \<and> rest \<noteq> [] \<and> CHR 0x0A \<notin> set rest)
      else (case parse_ip host of Some (V6 _) \<Rightarrow> True | _ \<Rightarrow> False))"

definition netloc_ok :: "string \<Rightarrow> bool" where
  "netloc_ok n \<longleftrightarrow> (if CHR ''['' \<in> set n \<and> CHR '']'' \<in> set n
     then bracketed_ok (fst (py_partition CHR '']'' (snd (snd (py_partition CHR ''['' n)))))
     else CHR ''['' \<notin> set n \<and> CHR '']'' \<notin> set n)"

text \<open>\<open>urlsplit\<close>, \<open>None\<close> where it raises. The check of the host under NFKC finds nothing to refuse
  in Latin-1 characters.\<close>

definition urlsplit :: "string \<Rightarrow> url_parts option" where
  "urlsplit raw =
     (let url = filter (\<lambda>c. c \<notin> {CHR 0x09, CHR 0x0D, CHR 0x0A}) (dropWhile (\<lambda>c. (of_char c :: nat) \<le> 32) raw);
          (scheme, rest) = split_scheme url;
          has_net = py_startswith rest ''//'';
          netloc = (if has_net then takeWhile (\<lambda>c. c \<notin> set ''/?#'') (drop 2 rest) else []);
          path1 = (if has_net then dropWhile (\<lambda>c. c \<notin> set ''/?#'') (drop 2 rest) else rest);
          path2 = fst (py_partition CHR ''#'' path1);
          (path, _, query) = py_partition CHR ''?'' path2
      in if netloc_ok netloc then Some \<lparr>u_scheme = scheme, u_netloc = netloc, u_path = path, u_query = query\<rparr> else None)"

definition host_part :: "url_parts \<Rightarrow> string" where "host_part u = snd (snd (py_rpartition CHR ''@'' (u_netloc u)))"

definition hostinfo :: "url_parts \<Rightarrow> string \<times> string" where
  "hostinfo u =
     (let (_, open_br, bracketed) = py_partition CHR ''['' (host_part u)
      in if open_br then (let (h, _, rest) = py_partition CHR '']'' bracketed in (h, snd (snd (py_partition CHR '':'' rest))))
         else (let (h, _, p) = py_partition CHR '':'' (host_part u) in (h, p)))"

text \<open>A zone after a percent sign is not lower-cased; \<open>None\<close> and the empty host are both false.\<close>

definition url_hostname :: "url_parts \<Rightarrow> string" where
  "url_hostname u = (let h = fst (hostinfo u) in
     py_lower (takeWhile (\<lambda>c. c \<noteq> CHR ''%'') h) @ dropWhile (\<lambda>c. c \<noteq> CHR ''%'') h)"

definition url_port :: "url_parts \<Rightarrow> int option result" where
  "url_port u = (let p = snd (hostinfo u) in
     if p = [] then Inr None
     else if list_all py_digit p \<and> decimal p \<le> 65535 then Inr (Some (decimal p))
     else Inl ValueError)"

definition url_credentials :: "url_parts \<Rightarrow> (string \<times> string) option" where
  "url_credentials u =
     (let (userinfo, have_info, _) = py_rpartition CHR ''@'' (u_netloc u); (user, _, password) = py_partition CHR '':'' userinfo
      in if have_info then Some (user, password) else None)"

text \<open>\<open>unquote(s, errors='strict')\<close>: only runs of ASCII are decoded; \<open>utf8\<close> reads a sequence of bytes.\<close>

fun unquote_bytes :: "string \<Rightarrow> string" where
  "unquote_bytes [] = []"
| "unquote_bytes (c # cs) =
     (case cs of
        a # b # rest \<Rightarrow>
          (if c = CHR ''%'' \<and> hex_digit a \<noteq> None \<and> hex_digit b \<noteq> None
           then char_of (the (hex_digit a) * 16 + the (hex_digit b)) # unquote_bytes rest else c # unquote_bytes cs)
      | _ \<Rightarrow> c # unquote_bytes cs)"

definition is_ascii :: "string \<Rightarrow> bool" where "is_ascii s \<longleftrightarrow> list_all (\<lambda>c. (of_char c :: nat) < 128) s"

fun unquote_runs :: "(string \<Rightarrow> string option) \<Rightarrow> string \<Rightarrow> string \<Rightarrow> string option" where
  "unquote_runs utf8 acc [] = utf8 (unquote_bytes (rev acc))"
| "unquote_runs utf8 acc (c # cs) =
     (if (of_char c :: nat) < 128 then unquote_runs utf8 (c # acc) cs
      else Option.bind (utf8 (unquote_bytes (rev acc))) (\<lambda>t. map_option (\<lambda>r. t @ c # r) (unquote_runs utf8 [] cs)))"

definition unquote :: "(string \<Rightarrow> string option) \<Rightarrow> string \<Rightarrow> string option" where
  "unquote utf8 s = (if CHR ''%'' \<in> set s then unquote_runs utf8 [] s else Some s)"

text \<open>\<open>host.encode('idna')\<close>: on ASCII only the lengths of the labels are checked.\<close>

definition idna_encode :: "(string \<Rightarrow> string option) \<Rightarrow> string \<Rightarrow> string option" where
  "idna_encode idna host =
     (if is_ascii host then
        (let labels = split_char CHR ''.'' host
         in if host = [] \<or> list_all (\<lambda>l. l \<noteq> [] \<and> length l < 64) (butlast labels) \<and> length (last labels) < 64 then Some host else None)
      else idna host)"

end
