(* ===== verification/Outbound_Url.thy ===== *)
theory Outbound_Url
  imports Py_Url
begin

text \<open>
  The guard of outbound requests (\<^verbatim>\<open>utils/outbound_url_guard.py\<close>): which addresses count as public,
  the validation of a URL before a request, the check at connect time, and \<open>safe_request\<close>, which
  mounts that check for the scheme of the URL. The environment, the answers of the resolver and
  what a session of \<open>requests\<close> contacts are arguments; a resolver may answer differently at
  every call. The texts of errors are a datatype.
\<close>

section \<open>Public addresses\<close>

definition non_public_global4 :: "(32 word \<times> nat) list" where
  "non_public_global4 = [(quad 0 0 0 0, 8), (quad 100 64 0 0, 10), (quad 192 0 0 0, 24), (quad 192 0 2 0, 24), (quad 198 18 0 0, 15),
     (quad 198 51 100 0, 24), (quad 203 0 113 0, 24)]"

definition non_public_global6 :: "(128 word \<times> nat) list" where
  "non_public_global6 = [(hextets [0x64, 0xFF9B], 96), (hextets [0x2001, 0xDB8], 32)]"

fun in_non_public_global :: "ip \<Rightarrow> bool" where
  "in_non_public_global (V4 a) = in_any non_public_global4 a"
| "in_non_public_global (V6 a) = in_any non_public_global6 a"

definition is_public_address :: "ip \<Rightarrow> bool" where
  "is_public_address a \<longleftrightarrow>
     (if is_private a \<or> is_loopback a \<or> is_link_local a \<or> is_multicast a \<or> is_reserved a \<or> is_unspecified a then False
      else if in_non_public_global a then False
      else is_global a)"

text \<open>The same as intervals of numbers.\<close>

definition between :: "int \<Rightarrow> int \<Rightarrow> int \<Rightarrow> bool" where "between lo hi x \<longleftrightarrow> lo \<le> x \<and> x \<le> hi"

lemma in_net_between:
  "in_net net n a \<longleftrightarrow> between (uint net div 2 ^ (LENGTH('w) - n) * 2 ^ (LENGTH('w) - n))
     ((uint net div 2 ^ (LENGTH('w) - n) + 1) * 2 ^ (LENGTH('w) - n) - 1) (uint a)" for a net :: "'w::len word"
  by (auto simp: in_net_bounds between_def Let_def)

lemma nets4_between:
  "in_net (quad 0 0 0 0) 8 a \<longleftrightarrow> between 0 16777215 (uint a)"
  "in_net (quad 10 0 0 0) 8 a \<longleftrightarrow> between 167772160 184549375 (uint a)"
  "in_net (quad 100 64 0 0) 10 a \<longleftrightarrow> between 1681915904 1686110207 (uint a)"
  "in_net (quad 127 0 0 0) 8 a \<longleftrightarrow> between 2130706432 2147483647 (uint a)"
  "in_net (quad 169 254 0 0) 16 a \<longleftrightarrow> between 2851995648 2852061183 (uint a)"
  "in_net (quad 172 16 0 0) 12 a \<longleftrightarrow> between 2886729728 2887778303 (uint a)"
  "in_net (quad 192 0 0 0) 24 a \<longleftrightarrow> between 3221225472 3221225727 (uint a)"
  "in_net (quad 192 0 2 0) 24 a \<longleftrightarrow> between 3221225984 3221226239 (uint a)"
  "in_net (quad 192 168 0 0) 16 a \<longleftrightarrow> between 3232235520 3232301055 (uint a)"
  "in_net (quad 198 18 0 0) 15 a \<longleftrightarrow> between 3323068416 3323199487 (uint a)"
  "in_net (quad 198 51 100 0) 24 a \<longleftrightarrow> between 3325256704 3325256959 (uint a)"
  "in_net (quad 203 0 113 0) 24 a \<longleftrightarrow> between 3405803776 3405804031 (uint a)"
  "in_net (quad 224 0 0 0) 4 a \<longleftrightarrow> between 3758096384 4026531839 (uint a)"
  "in_net (quad 240 0 0 0) 4 a \<longleftrightarrow> between 4026531840 4294967295 (uint a)"
  by (simp_all add: in_net_between quad_def)

lemma subnets4:
  "in_net (quad 192 0 0 170) 31 a \<Longrightarrow> in_net (quad 192 0 0 0) 24 a"
  "in_net (quad 192 0 0 9) 32 a \<Longrightarrow> in_net (quad 192 0 0 0) 24 a"
  "in_net (quad 192 0 0 10) 32 a \<Longrightarrow> in_net (quad 192 0 0 0) 24 a"
  "in_net (quad 255 255 255 255) 32 a \<Longrightarrow> in_net (quad 240 0 0 0) 4 a"
  "a = 0 \<Longrightarrow> in_net (quad 0 0 0 0) 8 a"
  by (simp_all add: in_net_between quad_def between_def)

definition special4 :: "(int \<times> int) list" where
  "special4 = map (\<lambda>(lo, hi). (uint lo, uint hi))
     [(quad 0 0 0 0, quad 0 255 255 255), (quad 10 0 0 0, quad 10 255 255 255), (quad 100 64 0 0, quad 100 127 255 255),
      (quad 127 0 0 0, quad 127 255 255 255), (quad 169 254 0 0, quad 169 254 255 255), (quad 172 16 0 0, quad 172 31 255 255),
      (quad 192 0 0 0, quad 192 0 0 255), (quad 192 0 2 0, quad 192 0 2 255), (quad 192 168 0 0, quad 192 168 255 255),
      (quad 198 18 0 0, quad 198 19 255 255), (quad 198 51 100 0, quad 198 51 100 255), (quad 203 0 113 0, quad 203 0 113 255),
      (quad 224 0 0 0, quad 239 255 255 255), (quad 240 0 0 0, quad 255 255 255 255)]"

definition outside :: "(int \<times> int) list \<Rightarrow> int \<Rightarrow> bool" where
  "outside rs x \<longleftrightarrow> list_all (\<lambda>(lo, hi). \<not> between lo hi x) rs"

definition special_nets4 :: "(32 word \<times> nat) list" where
  "special_nets4 = [(quad 0 0 0 0, 8), (quad 10 0 0 0, 8), (quad 100 64 0 0, 10), (quad 127 0 0 0, 8), (quad 169 254 0 0, 16), (quad 172 16 0 0, 12),
     (quad 192 0 0 0, 24), (quad 192 0 2 0, 24), (quad 192 168 0 0, 16), (quad 198 18 0 0, 15), (quad 198 51 100 0, 24), (quad 203 0 113 0, 24),
     (quad 224 0 0 0, 4), (quad 240 0 0 0, 4)]"

lemma public4_nets: "is_public_address (V4 a) \<longleftrightarrow> \<not> in_any special_nets4 a"
  unfolding is_public_address_def is_private.simps is_loopback.simps is_link_local.simps is_multicast.simps is_reserved.simps
    is_unspecified.simps is_global.simps in_non_public_global.simps private4_def non_public_global4_def special_nets4_def in_any_Nil in_any_Cons
  using subnets4 [of a] by argo

lemma public4_ranges: "is_public_address (V4 a) \<longleftrightarrow> outside special4 (uint a)"
  unfolding public4_nets special_nets4_def in_any_Nil in_any_Cons nets4_between
  by (simp add: in_any_Nil outside_def special4_def quad_def)

text \<open>C18: An IPv4 address passes as public exactly when it lies outside the address ranges that the registry of
  special purposes sets aside, written out as intervals of the address's 32-bit value. The shared space of
  carriers is 100.64.0.0/10 there, so that 100.128.0.1, which the documentation of the function counts to it,
  passes.\<close>

theorem public4_iff: "is_public_address (V4 a) \<longleftrightarrow> outside special4 (uint a)"
  by (rule public4_ranges)

text \<open>The address which the documentation of the check names as one to be refused is public.\<close>

theorem documented_address_public: "is_public_address (V4 0x64800001)"
  unfolding public4_ranges by (simp add: outside_def special4_def quad_def between_def)

lemma nets6_between:
  "in_net (0) 8 a \<longleftrightarrow> between 0 1329227995784915872903807060280344575 (uint a)"
  "in_net (hextets [0x100]) 8 a \<longleftrightarrow> between 1329227995784915872903807060280344576 2658455991569831745807614120560689151 (uint a)"
  "in_net (hextets [0x200]) 7 a \<longleftrightarrow> between 2658455991569831745807614120560689152 5316911983139663491615228241121378303 (uint a)"
  "in_net (hextets [0x400]) 6 a \<longleftrightarrow> between 5316911983139663491615228241121378304 10633823966279326983230456482242756607 (uint a)"
  "in_net (hextets [0x800]) 5 a \<longleftrightarrow> between 10633823966279326983230456482242756608 21267647932558653966460912964485513215 (uint a)"
  "in_net (hextets [0x1000]) 4 a \<longleftrightarrow> between 21267647932558653966460912964485513216 42535295865117307932921825928971026431 (uint a)"
  "in_net (hextets [0x4000]) 3 a \<longleftrightarrow> between 85070591730234615865843651857942052864 127605887595351923798765477786913079295 (uint a)"
  "in_net (hextets [0x6000]) 3 a \<longleftrightarrow> between 127605887595351923798765477786913079296 170141183460469231731687303715884105727 (uint a)"
  "in_net (hextets [0x8000]) 3 a \<longleftrightarrow> between 170141183460469231731687303715884105728 212676479325586539664609129644855132159 (uint a)"
  "in_net (hextets [0xA000]) 3 a \<longleftrightarrow> between 212676479325586539664609129644855132160 255211775190703847597530955573826158591 (uint a)"
  "in_net (hextets [0xC000]) 3 a \<longleftrightarrow> between 255211775190703847597530955573826158592 297747071055821155530452781502797185023 (uint a)"
  "in_net (hextets [0xE000]) 4 a \<longleftrightarrow> between 297747071055821155530452781502797185024 319014718988379809496913694467282698239 (uint a)"
  "in_net (hextets [0xF000]) 5 a \<longleftrightarrow> between 319014718988379809496913694467282698240 329648542954659136480144150949525454847 (uint a)"
  "in_net (hextets [0xF800]) 6 a \<longleftrightarrow> between 329648542954659136480144150949525454848 334965454937798799971759379190646833151 (uint a)"
  "in_net (hextets [0xFE00]) 9 a \<longleftrightarrow> between 337623910929368631717566993311207522304 338288524927261089654018896841347694591 (uint a)"
  "in_net (hextets [0xFE80]) 10 a \<longleftrightarrow> between 338288524927261089654018896841347694592 338620831926207318622244848606417780735 (uint a)"
  "in_net (hextets [0xFC00]) 7 a \<longleftrightarrow> between 334965454937798799971759379190646833152 337623910929368631717566993311207522303 (uint a)"
  "in_net (hextets [0xFF00]) 8 a \<longleftrightarrow> between 338953138925153547590470800371487866880 340282366920938463463374607431768211455 (uint a)"
  "in_net (hextets [0x2001]) 23 a \<longleftrightarrow> between 42540488161975842760550356425300246528 42540528726795050063891204319802818559 (uint a)"
  "in_net (hextets [0x2001, 0xDB8]) 32 a \<longleftrightarrow> between 42540766411282592856903984951653826560 42540766490510755371168322545197776895 (uint a)"
  "in_net (hextets [0x2002]) 16 a \<longleftrightarrow> between 42545680458834377588178886921629466624 42550872755692912415807417417958686719 (uint a)"
  by (simp_all add: in_net_between hextets_def)

lemma subnets6:
  "a = 0 \<Longrightarrow> in_net 0 8 a" "a = 1 \<Longrightarrow> in_net 0 8 a"
  "in_net (hextets [0, 0, 0, 0, 0, 0xFFFF]) 96 a \<Longrightarrow> in_net 0 8 a" "in_net 1 128 a \<Longrightarrow> in_net 0 8 a" "in_net 0 128 a \<Longrightarrow> in_net 0 8 a"
  "in_net (hextets [0x64, 0xFF9B, 1]) 48 a \<Longrightarrow> in_net 0 8 a" "in_net (hextets [0x64, 0xFF9B]) 96 a \<Longrightarrow> in_net 0 8 a"
  "in_net (hextets [0x100]) 64 a \<Longrightarrow> in_net (hextets [0x100]) 8 a"
  by (simp_all add: in_net_between hextets_def between_def)

lemma mapped4_reserved: "mapped4 a = Some b \<Longrightarrow> in_net 0 8 a"
  by (rule subnets6(3)) (simp add: mapped4_def in_net_def hextets_def split: if_splits)

lemma between_merge: "m' = m + 1 \<Longrightarrow> l \<le> m' \<Longrightarrow> m \<le> h \<Longrightarrow> between l m x \<or> between m' h x \<longleftrightarrow> between l h x"
  by (auto simp: between_def)

lemma between_merge_rest:
  "m' = m + 1 \<Longrightarrow> l \<le> m' \<Longrightarrow> m \<le> h \<Longrightarrow> between l m x \<or> between m' h x \<or> R \<longleftrightarrow> between l h x \<or> R"
  using between_merge [of m' m l h x] by auto

definition special6 :: "(int \<times> int) list" where
  "special6 = map (\<lambda>(lo, hi). (uint lo, uint hi))
     [(0, hextets [0x2000] - 1), (hextets [0x2001], hextets [0x2001, 0x200] - 1), (hextets [0x2001, 0xDB8], hextets [0x2001, 0xDB9] - 1),
      (hextets [0x2002], hextets [0x2003] - 1), (hextets [0x4000], hextets [0xFEC0] - 1), (hextets [0xFF00], 0xFFFFFFFFFFFFFFFFFFFFFFFFFFFFFFFF)]"

definition exception_nets6 :: "(128 word \<times> nat) list" where
  "exception_nets6 = [(hextets [0x2001, 1, 0, 0, 0, 0, 0, 1], 128), (hextets [0x2001, 1, 0, 0, 0, 0, 0, 2], 128), (hextets [0x2001, 3], 32),
     (hextets [0x2001, 4, 0x112], 48), (hextets [0x2001, 0x20], 28), (hextets [0x2001, 0x30], 28)]"

lemma reserved6_between:
  "reserved6 a \<or> in_net (hextets [0xFC00]) 7 a \<or> in_net (hextets [0xFE80]) 10 a \<longleftrightarrow>
   between 0 0x1FFFFFFFFFFFFFFFFFFFFFFFFFFFFFFF (uint a) \<or> between 0x40000000000000000000000000000000 0xFEBFFFFFFFFFFFFFFFFFFFFFFFFFFFFF (uint a)"
proof -
  have fc: "in_net (hextets [0xF800]) 6 a \<or> in_net (hextets [0xFE00]) 9 a \<or> in_net (hextets [0xFC00]) 7 a \<or> in_net (hextets [0xFE80]) 10 a \<longleftrightarrow>
    in_net (hextets [0xF800]) 6 a \<or> in_net (hextets [0xFC00]) 7 a \<or> in_net (hextets [0xFE00]) 9 a \<or> in_net (hextets [0xFE80]) 10 a" by blast
  show ?thesis
    unfolding reserved6_def in_any_Nil in_any_Cons disj_assoc simp_thms fc
    by (simp add: nets6_between between_merge between_merge_rest)
qed

lemma exceptions_special:
  assumes "in_any exception_nets6 a"
  shows "in_net (hextets [0x2001]) 23 a" "\<not> between 0 0x1FFFFFFFFFFFFFFFFFFFFFFFFFFFFFFF (uint a)"
    "\<not> between 0x40000000000000000000000000000000 0xFEBFFFFFFFFFFFFFFFFFFFFFFFFFFFFF (uint a)"
    "\<not> in_net (hextets [0x2001, 0xDB8]) 32 a" "\<not> in_net (hextets [0x2002]) 16 a" "\<not> in_net (hextets [0xFF00]) 8 a"
proof -
  from assms show s: "in_net (hextets [0x2001]) 23 a"
    by (auto simp: exception_nets6_def in_any_Nil in_any_Cons in_net_between hextets_def between_def)
  then show "\<not> between 0 0x1FFFFFFFFFFFFFFFFFFFFFFFFFFFFFFF (uint a)"
    "\<not> between 0x40000000000000000000000000000000 0xFEBFFFFFFFFFFFFFFFFFFFFFFFFFFFFF (uint a)"
    "\<not> in_net (hextets [0x2001, 0xDB8]) 32 a" "\<not> in_net (hextets [0x2002]) 16 a" "\<not> in_net (hextets [0xFF00]) 8 a"
    by (simp_all add: nets6_between between_def)
qed

lemma public6_nets:
  "is_public_address (V6 a) \<longleftrightarrow>
     \<not> (reserved6 a \<or> in_net (hextets [0xFC00]) 7 a \<or> in_net (hextets [0xFE80]) 10 a) \<and> \<not> in_net (hextets [0xFF00]) 8 a \<and>
     \<not> in_net (hextets [0x2001, 0xDB8]) 32 a \<and> \<not> in_net (hextets [0x2002]) 16 a \<and>
     (in_net (hextets [0x2001]) 23 a \<longrightarrow> in_any exception_nets6 a)"
proof (cases "in_net 0 8 a")
  case True
  then have "reserved6 a" by (simp add: reserved6_def in_any_Cons)
  then show ?thesis by (simp add: is_public_address_def)
next
  case False
  then have m: "mapped4 a = None" using mapped4_reserved [of a] by (cases "mapped4 a") auto
  have r: "in_net (hextets [0x100]) 64 a \<Longrightarrow> reserved6 a"
    using subnets6(8) [of a] by (simp add: reserved6_def in_any_Cons)
  have "is_public_address (V6 a) \<longleftrightarrow> \<not> private6 a \<and> \<not> reserved6 a \<and> \<not> in_net (hextets [0xFE80]) 10 a \<and> \<not> in_net (hextets [0xFF00]) 8 a \<and>
      \<not> in_net (hextets [0x2001, 0xDB8]) 32 a"
    using False subnets6(1,2,7) [of a]
    unfolding is_public_address_def is_private.simps is_loopback.simps is_link_local.simps is_multicast.simps is_reserved.simps
      is_unspecified.simps is_global.simps in_non_public_global.simps non_public_global6_def in_any_Nil in_any_Cons by argo
  moreover have "private6 a \<longleftrightarrow> (in_net (hextets [0x100]) 64 a \<or> in_net (hextets [0x2001]) 23 a \<or> in_net (hextets [0x2001, 0xDB8]) 32 a \<or>
      in_net (hextets [0x2002]) 16 a \<or> in_net (hextets [0xFC00]) 7 a \<or> in_net (hextets [0xFE80]) 10 a) \<and> \<not> in_any exception_nets6 a"
    using False subnets6(3-6) [of a] unfolding private6_def m option.case exception_nets6_def in_any_Nil in_any_Cons by argo
  moreover have "in_any exception_nets6 a \<Longrightarrow> \<not> in_net (hextets [0xFC00]) 7 a"
    using exceptions_special(2,3) [of a] reserved6_between [of a] by blast
  ultimately show ?thesis using r exceptions_special(4,5) [of a] by blast
qed

theorem public6_iff: "is_public_address (V6 a) \<longleftrightarrow> outside special6 (uint a) \<or> in_any exception_nets6 a"
proof -
  have "outside special6 (uint a) \<longleftrightarrow> \<not> (between 0 0x1FFFFFFFFFFFFFFFFFFFFFFFFFFFFFFF (uint a) \<or>
      between 0x40000000000000000000000000000000 0xFEBFFFFFFFFFFFFFFFFFFFFFFFFFFFFF (uint a)) \<and> \<not> in_net (hextets [0xFF00]) 8 a \<and>
     \<not> in_net (hextets [0x2001, 0xDB8]) 32 a \<and> \<not> in_net (hextets [0x2002]) 16 a \<and> \<not> in_net (hextets [0x2001]) 23 a"
    unfolding nets6_between by (simp add: outside_def special6_def hextets_def) argo
  moreover note exceptions_special [of a]
  ultimately show ?thesis unfolding public6_nets reserved6_between by blast
qed

section \<open>Allowed ports\<close>

definition default_allowed_ports :: "int list" where "default_allowed_ports = [80, 443, 8080, 8443, 9000, 9443]"

definition port_entry :: "string \<Rightarrow> int option" where
  "port_entry p = (case py_int (py_strip p) of Some n \<Rightarrow> if 1 \<le> n \<and> n \<le> 65535 then Some n else None | None \<Rightarrow> None)"

definition parse_allowed_ports :: "string \<Rightarrow> int list" where
  "parse_allowed_ports env =
     (let raw = py_strip env in
      if raw = [] then default_allowed_ports
      else (let ports = List.map_filter port_entry (split_char CHR '','' raw) in if ports = [] then [80, 443] else ports))"

definition get_allowed_ports :: "string \<Rightarrow> int list option \<Rightarrow> int list \<times> int list option" where
  "get_allowed_ports env cache = (case cache of Some ports \<Rightarrow> (ports, cache)
     | None \<Rightarrow> (let ports = parse_allowed_ports env in (ports, Some ports)))"

definition invalidate_port_cache :: "int list option \<Rightarrow> int list option" where "invalidate_port_cache cache = None"

section \<open>Validation before the request\<close>

datatype url_error = Empty_Url | Invalid_Url | Bad_Scheme | No_Host | Null_In_Credentials | At_In_Credentials | Has_Credentials
  | Bad_Encoding | Double_Encoding | Null_In_Host | Blocked_Host | Bad_Port | Invalid_Host | Unresolvable | Bad_Answer | No_Address
  | Non_Public | Rebinding

text \<open>\<open>transient\<close>: the failures that are worth a retry.\<close>

definition transient :: "url_error \<Rightarrow> bool" where "transient e \<longleftrightarrow> e = Unresolvable \<or> e = No_Address"

datatype url_verdict = Blocked url_error | Verified "ip list"

definition blocked_hostnames :: "string list" where
  "blocked_hostnames = [''localhost'', ''localhost.localdomain'', ''ip6-localhost'', ''ip6-loopback'', ''broadcasthost'', ''metadata'',
     ''metadata.google.internal'', ''metadata.azure'', ''metadata.vultr'', ''kubernetes'', ''kubernetes.default'', ''openshift'', ''docker'',
     ''169.254.169.254'']"

definition normalize_hostname :: "(string \<Rightarrow> string option) \<Rightarrow> string \<Rightarrow> url_error + string" where
  "normalize_hostname utf8 host =
     (case unquote utf8 host of None \<Rightarrow> Inl Bad_Encoding
      | Some decoded \<Rightarrow>
          if CHR ''%'' \<in> set decoded then Inl Double_Encoding
          else if CHR 0x00 \<in> set decoded then Inl Null_In_Host
          else Inr (py_lower (py_rstrip CHR ''.'' decoded)))"

text \<open>The first error in the user name or the password; decoding them may raise.\<close>

fun credentials_error :: "(string \<Rightarrow> string option) \<Rightarrow> string list \<Rightarrow> url_error option result" where
  "credentials_error utf8 [] = Inr None"
| "credentials_error utf8 (v # vs) =
     (if v = [] then credentials_error utf8 vs
      else case unquote utf8 v of None \<Rightarrow> Inl ValueError
        | Some decoded \<Rightarrow>
            if CHR 0x00 \<in> set decoded then Inr (Some Null_In_Credentials)
            else if CHR ''@'' \<in> set decoded then Inr (Some At_In_Credentials)
            else credentials_error utf8 vs)"

definition parse_ip_address :: "string \<Rightarrow> ip option" where
  "parse_ip_address v = parse_ip (takeWhile (\<lambda>c. c \<noteq> CHR ''%'') v)"

text \<open>A resolver raises \<open>OSError\<close> (\<open>None\<close>) or returns the first entries of socket addresses, which
  may be empty tuples.\<close>

type_synonym resolver = "string \<Rightarrow> int \<Rightarrow> string option list option"

definition port_or_443 :: "int option \<Rightarrow> int" where
  "port_or_443 p = (case p of None \<Rightarrow> 443 | Some n \<Rightarrow> if n = 0 then 443 else n)"

definition resolve_addresses :: "string \<Rightarrow> int option \<Rightarrow> resolver \<Rightarrow> ip list result" where
  "resolve_addresses host port resolver =
     (case parse_ip_address host of Some a \<Rightarrow> Inr [a]
      | None \<Rightarrow>
          (case resolver host (port_or_443 port) of None \<Rightarrow> Inl OSError
           | Some infos \<Rightarrow>
               (let found = map parse_ip_address (List.map_filter id infos)
                in if None \<in> set found then Inl ValueError else Inr (remdups (map the found)))))"

definition validate_host :: "string \<Rightarrow> int option \<Rightarrow> resolver \<Rightarrow> url_verdict" where
  "validate_host ascii_host port resolver =
     (case resolve_addresses ascii_host port resolver of
        Inl OSError \<Rightarrow> Blocked Unresolvable
      | Inl _ \<Rightarrow> Blocked Bad_Answer
      | Inr addresses \<Rightarrow>
          if addresses = [] then Blocked No_Address
          else if filter is_public_address addresses \<noteq> addresses then Blocked Non_Public
          else Verified (filter is_public_address addresses))"

definition validate_parts ::
    "(string \<Rightarrow> string option) \<Rightarrow> (string \<Rightarrow> string option) \<Rightarrow> int list \<Rightarrow> resolver \<Rightarrow> url_parts \<Rightarrow> url_verdict result" where
  "validate_parts utf8 idna ports resolver u =
     (case normalize_hostname utf8 (url_hostname u) of Inl e \<Rightarrow> Inr (Blocked e)
      | Inr host \<Rightarrow>
          if host \<in> set blocked_hostnames then Inr (Blocked Blocked_Host)
          else rbind (url_port u) (\<lambda>port.
            if port \<noteq> None \<and> the port \<notin> set ports then Inr (Blocked Bad_Port)
            else case idna_encode idna host of None \<Rightarrow> Inr (Blocked Invalid_Host)
              | Some ascii_host \<Rightarrow> Inr (validate_host ascii_host port resolver)))"

definition validate_public_http_url ::
    "(string \<Rightarrow> string option) \<Rightarrow> (string \<Rightarrow> string option) \<Rightarrow> int list \<Rightarrow> resolver \<Rightarrow> string \<Rightarrow> url_verdict result" where
  "validate_public_http_url utf8 idna ports resolver url =
     (if url = [] then Inr (Blocked Empty_Url)
      else case urlsplit url of None \<Rightarrow> Inr (Blocked Invalid_Url)
        | Some u \<Rightarrow>
            if u_scheme u \<notin> {''http'', ''https''} then Inr (Blocked Bad_Scheme)
            else if url_hostname u = [] then Inr (Blocked No_Host)
            else case url_credentials u of
                Some (user, password) \<Rightarrow>
                  if user \<noteq> [] \<or> password \<noteq> []
                  then rbind (credentials_error utf8 [user, password]) (\<lambda>e. Inr (Blocked (case e of Some b \<Rightarrow> b | None \<Rightarrow> Has_Credentials)))
                  else validate_parts utf8 idna ports resolver u
              | None \<Rightarrow> validate_parts utf8 idna ports resolver u)"

section \<open>The check at connect time\<close>

text \<open>The refusal of an address literal is raised inside a \<^verbatim>\<open>try\<close> whose handler takes it for "not a
  literal", so it is the second check that refuses. The first result is \<open>Some\<close> refusal.\<close>

definition connect_host :: "url_parts \<Rightarrow> string" where
  "connect_host u = rev (dropWhile (\<lambda>c. c \<in> set ''[]'') (rev (dropWhile (\<lambda>c. c \<in> set ''[]'') (url_hostname u))))"

definition check_resolved_ip :: "resolver \<Rightarrow> string \<Rightarrow> url_error option result" where
  "check_resolved_ip resolver url =
     (case urlsplit url of None \<Rightarrow> Inl ValueError
      | Some u \<Rightarrow>
          (let host = connect_host u
           in if host = [] then Inr (Some No_Host)
              else if (case parse_ip_address host of Some a \<Rightarrow> is_public_address a | None \<Rightarrow> False) then Inr None
              else rbind (url_port u) (\<lambda>port.
                case resolve_addresses host (Some (port_or_443 port)) resolver of
                  Inl OSError \<Rightarrow> Inr (Some Unresolvable)
                | Inl e \<Rightarrow> Inl e
                | Inr addresses \<Rightarrow>
                    if addresses = [] then Inr (Some No_Address)
                    else if list_all is_public_address addresses then Inr None
                    else Inr (Some Rebinding))))"

section \<open>Requests\<close>

datatype adapter = Pinned "ip list" | Http_Adapter | Custom_Adapter nat

type_synonym adapters = "string \<Rightarrow> adapter option"

definition url_scheme :: "string \<Rightarrow> string" where
  "url_scheme url = (case urlsplit url of Some u \<Rightarrow> u_scheme u | None \<Rightarrow> [])"

definition adapter_key :: "string \<Rightarrow> string" where "adapter_key scheme = scheme @ ''://''"

definition resolve_public_addresses ::
    "(string \<Rightarrow> string option) \<Rightarrow> (string \<Rightarrow> string option) \<Rightarrow> int list \<Rightarrow> resolver \<Rightarrow> string \<Rightarrow> (pyexn + url_error) + ip list" where
  "resolve_public_addresses utf8 idna ports resolver url =
     (case validate_public_http_url utf8 idna ports resolver url of
        Inl e \<Rightarrow> Inl (Inl e)
      | Inr (Blocked e) \<Rightarrow> Inl (Inr e)
      | Inr (Verified ips) \<Rightarrow> if ips = [] then Inl (Inr No_Address) else Inr ips)"

text \<open>\<open>send\<close>: what the session does with the adapters that are mounted. The adapters are put back
  whether it raises or not.\<close>

definition safe_request ::
    "(string \<Rightarrow> string option) \<Rightarrow> (string \<Rightarrow> string option) \<Rightarrow> int list \<Rightarrow> resolver \<Rightarrow> string \<Rightarrow> (adapters \<Rightarrow> 'r) \<Rightarrow> adapters \<Rightarrow>
     ((pyexn + url_error) + 'r) \<times> adapters" where
  "safe_request utf8 idna ports resolver url send mounted =
     (case resolve_public_addresses utf8 idna ports resolver url of
        Inl e \<Rightarrow> (Inl e, mounted)
      | Inr ips \<Rightarrow>
          (let key = adapter_key (url_scheme url);
               previous = mounted key;
               during = mounted(key \<mapsto> Pinned ips)
           in (Inr (send during), during(key \<mapsto> (case previous of Some a \<Rightarrow> a | None \<Rightarrow> Http_Adapter)))))"

text \<open>A session connects to a URL through the adapter that is mounted for its scheme; a pinned one
  runs its check first. \<open>resolver\<close> answers at that time. \<open>follow\<close> is such a session: it contacts one
  URL after the other, as the answers redirect it, until a check refuses.\<close>

definition may_connect :: "resolver \<Rightarrow> adapters \<Rightarrow> string \<Rightarrow> bool" where
  "may_connect resolver mounted url \<longleftrightarrow> (case mounted (adapter_key (url_scheme url)) of
     Some (Pinned _) \<Rightarrow> check_resolved_ip resolver url = Inr None | Some _ \<Rightarrow> True | None \<Rightarrow> False)"

definition follow :: "resolver \<Rightarrow> string list \<Rightarrow> adapters \<Rightarrow> string list" where
  "follow resolver hops mounted = takeWhile (may_connect resolver mounted) hops"

section \<open>What is let through\<close>

lemma resolve_addresses_public_literal: "parse_ip_address host = Some a \<Longrightarrow> resolve_addresses host port r = Inr [a]"
  by (simp add: resolve_addresses_def)

lemma validate_host_Verified:
  "validate_host h port r = Verified ips \<longleftrightarrow> resolve_addresses h port r = Inr ips \<and> ips \<noteq> [] \<and> list_all is_public_address ips"
  by (auto simp: validate_host_def filter_id_conv list_all_iff split: sum.splits pyexn.splits if_splits)

lemma validate_parts_Verified:
  "validate_parts utf8 idna ports r u = Inr (Verified ips) \<longleftrightarrow>
     (\<exists>host port ascii. normalize_hostname utf8 (url_hostname u) = Inr host \<and> host \<notin> set blocked_hostnames \<and> url_port u = Inr port \<and>
       (port = None \<or> the port \<in> set ports) \<and> idna_encode idna host = Some ascii \<and>
       resolve_addresses ascii port r = Inr ips \<and> ips \<noteq> [] \<and> list_all is_public_address ips)"
  by (auto simp: validate_parts_def validate_host_Verified split: sum.splits option.splits if_splits)

text \<open>A URL that is validated has the scheme http or https, no user name and no password, a host that
  is not on the list of blocked names, no port or an allowed one, and every address its host
  resolves to is public.\<close>
theorem validated_url_public:
  assumes "validate_public_http_url utf8 idna ports r url = Inr (Verified ips)"
  shows "\<exists>u host port ascii. urlsplit url = Some u \<and> u_scheme u \<in> {''http'', ''https''} \<and>
     (case url_credentials u of None \<Rightarrow> True | Some c \<Rightarrow> c = ([], [])) \<and>
     normalize_hostname utf8 (url_hostname u) = Inr host \<and> host \<notin> set blocked_hostnames \<and>
     url_port u = Inr port \<and> (port = None \<or> the port \<in> set ports) \<and>
     idna_encode idna host = Some ascii \<and> resolve_addresses ascii port r = Inr ips \<and> ips \<noteq> [] \<and> list_all is_public_address ips"
proof -
  obtain u where u: "urlsplit url = Some u" "u_scheme u \<in> {''http'', ''https''}"
    using assms by (auto simp: validate_public_http_url_def split: if_splits option.splits)
  have c: "case url_credentials u of None \<Rightarrow> True | Some c \<Rightarrow> c = ([], [])" "validate_parts utf8 idna ports r u = Inr (Verified ips)"
    using assms u by (auto simp: validate_public_http_url_def split: if_splits option.splits)
  show ?thesis using u c(1) c(2) [unfolded validate_parts_Verified] by metis
qed

lemma validated_url_public_nonempty: "validate_public_http_url utf8 idna ports r url = Inr (Verified ips) \<Longrightarrow> ips \<noteq> []"
  by (auto simp: validate_public_http_url_def validate_parts_Verified split: if_splits option.splits)

text \<open>The host of a URL that passed the check at connect time.\<close>

definition host_public :: "resolver \<Rightarrow> string \<Rightarrow> bool" where
  "host_public r host \<longleftrightarrow> (\<exists>a. parse_ip_address host = Some a \<and> is_public_address a) \<or>
     (\<exists>port addresses. resolve_addresses host (Some port) r = Inr addresses \<and> addresses \<noteq> [] \<and> list_all is_public_address addresses)"

lemma check_resolved_ip_passes:
  assumes "check_resolved_ip r url = Inr None"
  shows "\<exists>u. urlsplit url = Some u \<and> connect_host u \<noteq> [] \<and> host_public r (connect_host u)"
proof -
  obtain u where u: "urlsplit url = Some u" "connect_host u \<noteq> []"
    using assms by (auto simp: check_resolved_ip_def Let_def split: option.splits if_splits)
  show ?thesis
  proof (cases "case parse_ip_address (connect_host u) of Some a \<Rightarrow> is_public_address a | None \<Rightarrow> False")
    case True
    then have "host_public r (connect_host u)" by (auto simp: host_public_def split: option.splits)
    with u show ?thesis by blast
  next
    case False
    with assms u obtain port where "url_port u = Inr port" by (cases "url_port u") (auto simp: check_resolved_ip_def)
    with assms u False obtain addresses where "resolve_addresses (connect_host u) (Some (port_or_443 port)) r = Inr addresses"
      "addresses \<noteq> []" "list_all is_public_address addresses"
      by (auto simp: check_resolved_ip_def split: sum.splits pyexn.splits if_splits)
    then have "host_public r (connect_host u)" by (auto simp: host_public_def)
    with u show ?thesis by blast
  qed
qed

text \<open>Whatever a session contacts in a guarded request under the scheme of the URL has a host whose
  addresses were public again when the connection was made, whatever the resolver answered before.\<close>
theorem same_scheme_contacts_public:
  assumes "safe_request utf8 idna ports r0 url send mounted = (Inr contacts, mounted')"
    and "\<And>m t. t \<in> set (send m) \<Longrightarrow> may_connect r1 m t"
    and "t \<in> set contacts" and "url_scheme t = url_scheme url"
  shows "\<exists>u. urlsplit t = Some u \<and> connect_host u \<noteq> [] \<and> host_public r1 (connect_host u)"
proof -
  obtain ips where "contacts = send (mounted(adapter_key (url_scheme url) \<mapsto> Pinned ips))"
    using assms(1) by (auto simp: safe_request_def Let_def split: sum.splits)
  then have "check_resolved_ip r1 t = Inr None"
    using assms(2) [of t "mounted(adapter_key (url_scheme url) \<mapsto> Pinned ips)"] assms(3,4) by (simp add: may_connect_def)
  then show ?thesis by (rule check_resolved_ip_passes)
qed

text \<open>The check is mounted for the scheme of the URL only: a redirect of an https request to http
  reaches the metadata address of the cloud provider without any check.\<close>
theorem redirect_to_http_unchecked:
  assumes "validate_public_http_url utf8 idna ports r0 url = Inr (Verified ips)" and "url_scheme url = ''https''"
    and "check_resolved_ip r1 url = Inr None" and "mounted ''http://'' = Some Http_Adapter"
  shows "fst (safe_request utf8 idna ports r0 url (follow r1 [url, ''http://169.254.169.254/'']) mounted) =
    Inr [url, ''http://169.254.169.254/'']"
proof -
  have t: "url_scheme ''http://169.254.169.254/'' = ''http''" by code_simp
  have "ips \<noteq> []" using validated_url_public_nonempty [OF assms(1)] .
  then show ?thesis
    using assms t by (simp add: safe_request_def resolve_public_addresses_def follow_def may_connect_def adapter_key_def Let_def)
qed

text \<open>A request leaves the adapters of its session as they were, but for a scheme that had none.\<close>
theorem adapters_restored:
  "snd (safe_request utf8 idna ports r0 url send mounted) k =
     (if mounted k = None \<and> k = adapter_key (url_scheme url) \<and> fst (safe_request utf8 idna ports r0 url send mounted) \<in> range Inr
      then Some Http_Adapter else mounted k)"
  by (auto simp: safe_request_def Let_def split: sum.splits option.splits)

text \<open>At connect time the host is read up to its first percent sign: behind a public literal and a
  percent sign any name passes, whatever it resolves to.\<close>
theorem percent_skips_recheck:
  assumes "urlsplit url = Some u" and "connect_host u = literal @ CHR ''%'' # name" and "CHR ''%'' \<notin> set literal"
    and "parse_ip literal = Some a" and "is_public_address a"
  shows "check_resolved_ip r url = Inr None"
proof -
  have "takeWhile (\<lambda>c. c \<noteq> CHR ''%'') (literal @ CHR ''%'' # name) = literal"
    using assms(3) by (subst takeWhile_append2) auto
  then show ?thesis using assms by (simp add: check_resolved_ip_def parse_ip_address_def)
qed

text \<open>A port that is not a number up to 65535 raises out of the validation, which promises a result.\<close>
theorem bad_port_raises:
  assumes "urlsplit url = Some u" and "u_scheme u \<in> {''http'', ''https''}" and "url_hostname u \<noteq> []" and "url_credentials u = None"
    and "normalize_hostname utf8 (url_hostname u) = Inr host" and "host \<notin> set blocked_hostnames" and "url_port u = Inl e"
  shows "validate_public_http_url utf8 idna ports r url = Inl e"
proof -
  have "urlsplit [] = Some \<lparr>u_scheme = [], u_netloc = [], u_path = [], u_query = []\<rparr>" by code_simp
  with assms(1,2) have "url \<noteq> []" by auto
  moreover have "validate_parts utf8 idna ports r u = Inl e" using assms(5-7) by (simp add: validate_parts_def)
  ultimately show ?thesis using assms(1-4) by (simp add: validate_public_http_url_def)
qed

lemma port_entry_range: "port_entry p = Some n \<Longrightarrow> n \<in> {1..65535}"
  by (auto simp: port_entry_def split: option.splits if_splits)

text \<open>The allowed ports are port numbers, and there is always one.\<close>
theorem allowed_ports_valid: "parse_allowed_ports env \<noteq> [] \<and> set (parse_allowed_ports env) \<subseteq> {1..65535}"
proof -
  let ?ports = "List.map_filter port_entry (split_char CHR '','' (py_strip env))"
  have "set ?ports \<subseteq> {1..65535}"
    using port_entry_range unfolding map_filter_def by fastforce
  then show ?thesis by (simp add: parse_allowed_ports_def default_allowed_ports_def Let_def)
qed

text \<open>The site-local addresses fec0::/10 of IPv6 count as public.\<close>
theorem site_local_public:
  assumes "in_net (hextets [0xFEC0]) 10 a"
  shows "is_public_address (V6 a)"
  using assms by (simp add: public6_iff outside_def special6_def in_net_between hextets_def between_def)

text \<open>No address that embeds an IPv4 address in a known way is public: not the mapped and the
  compatible ones, not 6to4, Teredo or the prefix of NAT64; nor is any unique local, link-local or
  multicast address.\<close>
theorem embedded_v4_not_public:
  assumes "mapped4 a \<noteq> None \<or> in_net 0 96 a \<or> in_net (hextets [0x2002]) 16 a \<or> in_net (hextets [0x2001, 0]) 32 a \<or>
     in_net (hextets [0x64, 0xFF9B]) 96 a \<or> in_net (hextets [0xFC00]) 7 a \<or> in_net (hextets [0xFE80]) 10 a \<or> in_net (hextets [0xFF00]) 8 a"
  shows "\<not> is_public_address (V6 a)"
proof -
  have "in_net 0 96 a \<Longrightarrow> in_net 0 8 a" "in_net (hextets [0x64, 0xFF9B]) 96 a \<Longrightarrow> in_net 0 8 a"
    by (simp_all add: in_net_between hextets_def between_def)
  moreover have "in_net 0 8 a \<Longrightarrow> reserved6 a" by (simp add: reserved6_def in_any_Cons)
  moreover have "in_net (hextets [0x2001, 0]) 32 a \<Longrightarrow> in_net (hextets [0x2001]) 23 a \<and> \<not> in_any exception_nets6 a"
    by (auto simp: in_net_between hextets_def between_def exception_nets6_def in_any_Nil in_any_Cons)
  ultimately show ?thesis using assms mapped4_reserved [of a] unfolding public6_nets by blast
qed

section \<open>Concrete inputs\<close>

definition dns :: "string \<Rightarrow> resolver" where "dns answer host port = Some [Some answer]"

lemma dns_public: "parse_ip_address ''8.8.8.8'' = Some (V4 0x08080808)" "is_public_address (V4 0x08080808)"
  by code_simp (simp add: public4_ranges outside_def special4_def quad_def between_def)

definition site :: url_parts where "site = \<lparr>u_scheme = ''https'', u_netloc = ''h.io'', u_path = ''/'', u_query = []\<rparr>"

lemma site_url: "urlsplit ''https://h.io/'' = Some site" "url_hostname site = ''h.io''" "url_credentials site = None" "url_port site = Inr None"
  "connect_host site = ''h.io''" "parse_ip_address ''h.io'' = None" "unquote Some ''h.io'' = Some ''h.io''" "idna_encode Some ''h.io'' = Some ''h.io''"
  by (code_simp, code_simp, code_simp, code_simp, code_simp, code_simp, code_simp, code_simp)

lemma site_valid: "validate_public_http_url Some Some [443] (dns ''8.8.8.8'') ''https://h.io/'' = Inr (Verified [V4 0x08080808])"
proof -
  have "normalize_hostname Some ''h.io'' = Inr ''h.io''" by code_simp
  moreover have "''h.io'' \<notin> set blocked_hostnames" by code_simp
  moreover have "resolve_addresses ''h.io'' None (dns ''8.8.8.8'') = Inr [V4 0x08080808]"
    by (simp add: resolve_addresses_def site_url dns_def map_filter_def dns_public)
  ultimately have "validate_parts Some Some [443] (dns ''8.8.8.8'') site = Inr (Verified [V4 0x08080808])"
    by (simp add: validate_parts_Verified site_url dns_public)
  then show ?thesis by (simp add: validate_public_http_url_def site_url) (simp add: site_def)
qed

lemma site_check: "check_resolved_ip (dns ''8.8.8.8'') ''https://h.io/'' = Inr None"
  by (simp add: check_resolved_ip_def site_url resolve_addresses_def dns_def map_filter_def dns_public)

theorem validated_url_public_witness: "\<exists>u. urlsplit ''https://h.io/'' = Some u \<and> u_scheme u \<in> {''http'', ''https''}"
  using validated_url_public [OF site_valid] by blast

definition https_session :: adapters where "https_session = [''https://'' \<mapsto> Http_Adapter, ''http://'' \<mapsto> Http_Adapter]"

lemma site_run:
  "fst (safe_request Some Some [443] (dns ''8.8.8.8'') ''https://h.io/'' (follow (dns ''8.8.8.8'') [''https://h.io/'']) https_session) =
    Inr [''https://h.io/'']"
  by (simp add: safe_request_def resolve_public_addresses_def site_valid follow_def may_connect_def adapter_key_def Let_def site_check
      url_scheme_def site_url site_def)

theorem redirect_to_http_unchecked_witness:
  "fst (safe_request Some Some [443] (dns ''8.8.8.8'') ''https://h.io/'' (follow (dns ''8.8.8.8'') [''https://h.io/'', ''http://169.254.169.254/'']) https_session) =
    Inr [''https://h.io/'', ''http://169.254.169.254/'']"
  by (rule redirect_to_http_unchecked [OF site_valid _ site_check]) (simp_all add: url_scheme_def site_url site_def https_session_def)

theorem same_scheme_contacts_public_witness:
  "\<exists>u. urlsplit ''https://h.io/'' = Some u \<and> connect_host u \<noteq> [] \<and> host_public (dns ''8.8.8.8'') (connect_host u)"
proof -
  let ?send = "follow (dns ''8.8.8.8'') [''https://h.io/'']"
  have r: "safe_request Some Some [443] (dns ''8.8.8.8'') ''https://h.io/'' ?send https_session =
    (Inr [''https://h.io/''], snd (safe_request Some Some [443] (dns ''8.8.8.8'') ''https://h.io/'' ?send https_session))"
    by (rule prod_eqI) (simp_all add: site_run)
  have s: "may_connect (dns ''8.8.8.8'') m t" if "t \<in> set (?send m)" for m t
    using that unfolding follow_def by (rule set_takeWhileD [THEN conjunct2])
  show ?thesis by (rule same_scheme_contacts_public [OF r s]) simp_all
qed

theorem percent_skips_recheck_witness: "check_resolved_ip (dns ''10.0.0.1'') ''https://8.8.8.8%2eh.io/'' = Inr None"
proof -
  have u: "urlsplit ''https://8.8.8.8%2eh.io/'' = Some (site\<lparr>u_netloc := ''8.8.8.8%2eh.io''\<rparr>)"
    "connect_host (site\<lparr>u_netloc := ''8.8.8.8%2eh.io''\<rparr>) = ''8.8.8.8'' @ CHR ''%'' # ''2eh.io''"
    by (code_simp, code_simp)
  have "parse_ip ''8.8.8.8'' = Some (V4 0x08080808)" by code_simp
  then show ?thesis by (intro percent_skips_recheck [OF u _ _ dns_public(2)]) simp_all
qed

theorem bad_port_raises_witness: "validate_public_http_url Some Some [443] (dns ''8.8.8.8'') ''http://h.io:99999/'' = Inl ValueError"
  by (rule bad_port_raises [where u = "\<lparr>u_scheme = ''http'', u_netloc = ''h.io:99999'', u_path = ''/'', u_query = []\<rparr>" and host = "''h.io''"])
    (code_simp, simp, code_simp, code_simp, code_simp, code_simp, code_simp)

theorem site_local_public_witness: "is_public_address (V6 0xFEC00000000000000000000000000001)"
  by (rule site_local_public) (simp add: in_net_between hextets_def between_def)

theorem embedded_v4_not_public_witness: "\<not> is_public_address (V6 0xFFFF08080808)"
  by (rule embedded_v4_not_public) (simp add: mapped4_def)

end
