(* ===== verification/Llm_Proxy_Url.thy ===== *)
theory Llm_Proxy_Url
  imports Outbound_Url
begin

text \<open>
  The URLs of model providers that administrators configure
  (\<^verbatim>\<open>utils/llm_proxy_url_validator.py\<close>): allowlists of hosts for the deployment and for a tenant, the
  cache of their addresses, the validation that lets them through or hands over to \<open>Outbound_Url\<close>, and
  the addresses stored with a key against DNS rebinding; with the gates that \<^verbatim>\<open>api_key_proxy.py\<close> and
  \<^verbatim>\<open>llm_proxy_handler.py\<close> build from them. Hashes, audit records and metrics are left out, and so is the
  \<open>expected_network\<close> of an allowlist entry, which nothing reads. Times are in microseconds.
\<close>

section \<open>Allowlists\<close>

text \<open>Tenant 0 stands for the global list; a later key for the same number replaces an earlier one.\<close>

type_synonym allowlists = "(int, string list) dict"

definition entries :: "string list \<Rightarrow> string list" where
  "entries hs = filter (\<lambda>h. h \<noteq> []) (map py_strip hs)"

definition host_strings :: "json list \<Rightarrow> string list" where
  "host_strings js = List.map_filter (\<lambda>j. case j of JStr h \<Rightarrow> Some h | _ \<Rightarrow> None) js"

definition tenant_lists :: "(string \<times> json) list \<Rightarrow> allowlists \<Rightarrow> allowlists" where
  "tenant_lists kvs base =
     foldl (\<lambda>d (k, v). case (py_int (py_strip k), v) of
         (Some tenant, JList hs) \<Rightarrow> AList.update tenant (entries (host_strings hs)) d | _ \<Rightarrow> d) base kvs"

definition get_allowed_hosts :: "(string \<Rightarrow> json option) \<Rightarrow> string \<Rightarrow> string \<Rightarrow> allowlists" where
  "get_allowed_hosts loads hosts_env tenants_env =
     (let base = (if py_strip hosts_env = [] then [] else [(0, entries (split_char CHR '','' (py_strip hosts_env)))])
      in if py_strip tenants_env = [] then base
         else case loads (py_strip tenants_env) of Some (JObj kvs) \<Rightarrow> tenant_lists kvs base | _ \<Rightarrow> base)"

datatype entry_error = Empty_Entry | Public_Entry | Entry_Unresolvable | Entry_No_Address | Entry_All_Public

definition validate_allowlist_entry :: "string \<Rightarrow> resolver \<Rightarrow> (entry_error + ip list) result" where
  "validate_allowlist_entry raw resolver =
     (let host = py_lower (py_strip raw)
      in if host = [] then Inr (Inl Empty_Entry)
         else case parse_ip_address host of
             Some a \<Rightarrow> if is_public_address a then Inr (Inl Public_Entry) else Inr (Inr [a])
           | None \<Rightarrow>
               (case resolve_addresses host (Some 443) resolver of
                  Inl OSError \<Rightarrow> Inr (Inl Entry_Unresolvable)
                | Inl e \<Rightarrow> Inl e
                | Inr addresses \<Rightarrow>
                    if addresses = [] then Inr (Inl Entry_No_Address)
                    else if list_all is_public_address addresses then Inr (Inl Entry_All_Public)
                    else Inr (Inr addresses)))"

definition normal_host :: "string \<Rightarrow> string" where "normal_host h = py_rstrip CHR ''.'' (py_lower h)"

definition listed :: "string \<Rightarrow> int \<Rightarrow> allowlists \<Rightarrow> bool" where
  "listed host tenant al \<longleftrightarrow> host \<in> set (map normal_host (case map_of al tenant of Some hs \<Rightarrow> hs | None \<Rightarrow> []))"

text \<open>The list of the tenant first; an entry there that is not valid is not looked up in the global one.\<close>

definition is_allowed_host :: "allowlists \<Rightarrow> string \<Rightarrow> int \<Rightarrow> resolver \<Rightarrow> (entry_error + ip list) option result" where
  "is_allowed_host al host tenant resolver =
     (let normalized = normal_host (py_strip host)
      in if listed normalized tenant al then rbind (validate_allowlist_entry normalized resolver) (\<lambda>r. Inr (Some r))
         else if listed normalized 0 al then rbind (validate_allowlist_entry normalized resolver) (\<lambda>r. Inr (Some r))
         else Inr None)"

text \<open>What a client is told about an error.\<close>

definition sanitize_error_message :: "string \<Rightarrow> string" where
  "sanitize_error_message error =
     (let e = py_lower error in
      if py_contains ''private address'' e then ''Blocked outbound URL: host resolves to private address''
      else if py_contains ''localhost'' e \<or> py_contains ''127.0.0.1'' e then ''Blocked outbound URL: localhost not allowed''
      else if py_contains ''metadata'' e \<or> py_contains ''169.254'' e then ''Blocked outbound URL: metadata endpoint not allowed''
      else if py_contains ''non-public'' e then ''Blocked outbound URL: non-public address blocked''
      else if py_contains ''port'' e then ''Blocked outbound URL: port not allowed''
      else if py_contains ''credentials'' e then ''Blocked outbound URL: credentials not allowed in URL''
      else if py_contains ''scheme'' e \<or> py_contains ''http'' e then ''Blocked outbound URL: invalid scheme''
      else ''Blocked outbound URL: security policy violation'')"

section \<open>The cache of addresses\<close>

type_synonym dns_cache = "(string, ip list \<times> instant) dict"

definition dns_cache_ttl :: instant where "dns_cache_ttl = seconds 300"

definition get_cached_dns_result :: "instant \<Rightarrow> string \<Rightarrow> dns_cache \<Rightarrow> ip list option \<times> dns_cache" where
  "get_cached_dns_result now host cache =
     (case map_of cache host of None \<Rightarrow> (None, cache)
      | Some (ips, at) \<Rightarrow> if now - at > dns_cache_ttl then (None, AList.delete host cache) else (Some ips, cache))"

definition set_cached_dns_result :: "instant \<Rightarrow> string \<Rightarrow> ip list \<Rightarrow> dns_cache \<Rightarrow> dns_cache" where
  "set_cached_dns_result now host ips cache = AList.update host (ips, now) cache"

definition invalidate_dns_cache :: "dns_cache \<Rightarrow> dns_cache" where "invalidate_dns_cache cache = []"

section \<open>The validation\<close>

datatype llm_error = Invalid_Format | Missing_Hostname | Guard_Error url_error

datatype llm_verdict = Llm_Blocked llm_error | Llm_Allowed "ip list" bool


record llm_env =
  le_utf8 :: "string \<Rightarrow> string option"
  le_idna :: "string \<Rightarrow> string option"
  le_ports :: "int list"
  le_lists :: allowlists
  le_check_disabled :: bool
  le_now :: instant

definition check_disabled :: "string \<Rightarrow> bool" where "check_disabled env \<longleftrightarrow> py_lower env = ''true''"

text \<open>The addresses of a listed host are cached; a failure of the resolver is ignored.\<close>

definition cache_listed :: "llm_env \<Rightarrow> resolver \<Rightarrow> url_parts \<Rightarrow> string \<Rightarrow> dns_cache \<Rightarrow> unit result \<times> dns_cache" where
  "cache_listed e resolver u host cache =
     (case get_cached_dns_result (le_now e) host cache of
        (Some _, cache') \<Rightarrow> (Inr (), cache')
      | (None, cache') \<Rightarrow>
          (case rbind (url_port u) (\<lambda>port. resolve_addresses host (Some (port_or_443 port)) resolver) of
             Inr ips \<Rightarrow> (Inr (), set_cached_dns_result (le_now e) host ips cache')
           | Inl OSError \<Rightarrow> (Inr (), cache')
           | Inl x \<Rightarrow> (Inl x, cache')))"

definition guard_verdict :: "llm_env \<Rightarrow> resolver \<Rightarrow> string \<Rightarrow> llm_verdict result" where
  "guard_verdict e resolver url =
     rbind (validate_public_http_url (le_utf8 e) (le_idna e) (le_ports e) resolver url)
       (\<lambda>v. Inr (case v of Blocked b \<Rightarrow> Llm_Blocked (Guard_Error b) | Verified ips \<Rightarrow> Llm_Allowed ips False))"

definition validate_llm_proxy_url :: "llm_env \<Rightarrow> resolver \<Rightarrow> string \<Rightarrow> int \<Rightarrow> dns_cache \<Rightarrow> llm_verdict result \<times> dns_cache" where
  "validate_llm_proxy_url e resolver url tenant cache =
     (if url = [] then (Inr (Llm_Allowed [] False), cache)
      else case urlsplit url of None \<Rightarrow> (Inr (Llm_Blocked Invalid_Format), cache)
        | Some u \<Rightarrow>
            if url_hostname u = [] then (Inr (Llm_Blocked Missing_Hostname), cache)
            else if le_check_disabled e then (Inr (Llm_Allowed [] False), cache)
            else (let host = normal_host (py_strip (url_hostname u)) in
              case is_allowed_host (le_lists e) host tenant resolver of
                Inl x \<Rightarrow> (Inl x, cache)
              | Inr (Some (Inr ips)) \<Rightarrow>
                  (case cache_listed e resolver u host cache of
                     (Inl x, cache') \<Rightarrow> (Inl x, cache')
                   | (Inr _, cache') \<Rightarrow> (Inr (Llm_Allowed ips True), cache'))
              | Inr _ \<Rightarrow> (guard_verdict e resolver url, cache)))"

section \<open>Stored addresses\<close>

text \<open>\<open>show_ip\<close>: \<open>str\<close> of an address. Every exception counts as no address, or as a refusal.\<close>

definition url_addresses :: "string \<Rightarrow> resolver \<Rightarrow> ip list option" where
  "url_addresses url resolver =
     (case urlsplit url of None \<Rightarrow> None
      | Some u \<Rightarrow>
          if url_hostname u = [] then None
          else (case rbind (url_port u) (\<lambda>port. resolve_addresses (url_hostname u) (Some (port_or_443 port)) resolver) of
             Inl _ \<Rightarrow> None | Inr ips \<Rightarrow> Some ips))"

definition resolve_and_store_ips :: "(ip \<Rightarrow> string) \<Rightarrow> string \<Rightarrow> resolver \<Rightarrow> string \<times> ip list" where
  "resolve_and_store_ips show_ip url resolver =
     (if url = [] then ([], [])
      else case urlsplit url of None \<Rightarrow> ([], [])
        | Some u \<Rightarrow>
            if url_hostname u = [] then ([], [])
            else case parse_ip_address (url_hostname u) of
                Some a \<Rightarrow> if is_public_address a then (show_ip a, [a]) else ([], [])
              | None \<Rightarrow>
                  (case url_addresses url resolver of None \<Rightarrow> ([], [])
                   | Some ips \<Rightarrow>
                       (let public = filter is_public_address ips
                        in if public = [] then ([], []) else (py_join '','' (map show_ip public), public))))"

definition stored_set :: "string \<Rightarrow> string list" where "stored_set stored = entries (split_char CHR '','' stored)"

definition validate_ip_against_stored :: "(ip \<Rightarrow> string) \<Rightarrow> string \<Rightarrow> string \<Rightarrow> resolver \<Rightarrow> bool" where
  "validate_ip_against_stored show_ip url stored resolver =
     (if stored = [] then True
      else case url_addresses url resolver of None \<Rightarrow> False
        | Some current \<Rightarrow>
            if set (map show_ip current) \<inter> set (stored_set stored) = {} then current \<noteq> [] \<and> list_all is_public_address current
            else True)"

section \<open>The gates of the key store and of the proxy\<close>

text \<open>\<open>store_api_key\<close> before anything is written: the addresses to store, or a refusal.\<close>

definition store_gate :: "(ip \<Rightarrow> string) \<Rightarrow> llm_env \<Rightarrow> resolver \<Rightarrow> string \<Rightarrow> int \<Rightarrow> dns_cache \<Rightarrow> (llm_error + string) result \<times> dns_cache" where
  "store_gate show_ip e resolver base_url tenant cache =
     (if base_url = [] then (Inr (Inr []), cache)
      else case validate_llm_proxy_url e resolver base_url tenant cache of
        (Inl x, cache') \<Rightarrow> (Inl x, cache')
      | (Inr (Llm_Blocked b), cache') \<Rightarrow> (Inr (Inl b), cache')
      | (Inr (Llm_Allowed _ _), cache') \<Rightarrow> (Inr (Inr (fst (resolve_and_store_ips show_ip base_url resolver))), cache'))"



section \<open>What an allowlist opens\<close>

text \<open>An allowlist entry is valid exactly when it is a non-public address or a name of which some
  address is not public: the other addresses may be public, and in any networks.\<close>
theorem entry_valid_iff:
  assumes "py_strip raw = raw" and "py_lower raw = raw" and "raw \<noteq> []"
  shows "validate_allowlist_entry raw r = Inr (Inr ips) \<longleftrightarrow>
     resolve_addresses raw (Some 443) r = Inr ips \<and> ips \<noteq> [] \<and> \<not> list_all is_public_address ips"
  using assms
  by (auto simp: validate_allowlist_entry_def resolve_addresses_def Let_def split: option.splits sum.splits pyexn.splits if_splits)

lemma is_allowed_host_listed: "is_allowed_host al host t r = Inr (Some v) \<Longrightarrow>
    listed (normal_host (py_strip host)) t al \<or> listed (normal_host (py_strip host)) 0 al"
  by (auto simp: is_allowed_host_def Let_def split: if_splits)

lemma entry_valid_non_public: "validate_allowlist_entry raw r = Inr (Inr ips) \<Longrightarrow> ips \<noteq> [] \<and> \<not> list_all is_public_address ips"
  by (auto simp: validate_allowlist_entry_def Let_def split: option.splits sum.splits pyexn.splits if_splits)

lemma is_allowed_host_entry: "is_allowed_host al host t r = Inr (Some v) \<Longrightarrow> \<exists>h. validate_allowlist_entry h r = Inr v"
  by (auto simp: is_allowed_host_def Let_def split: if_splits)

lemma validate_llm_allowed:
  assumes "fst (validate_llm_proxy_url e r url tenant cache) = Inr (Llm_Allowed ips m)" and "url \<noteq> []" and "\<not> le_check_disabled e"
  obtains u where "urlsplit url = Some u" "url_hostname u \<noteq> []" "m"
      "is_allowed_host (le_lists e) (normal_host (py_strip (url_hostname u))) tenant r = Inr (Some (Inr ips))"
  | "\<not> m" "validate_public_http_url (le_utf8 e) (le_idna e) (le_ports e) r url = Inr (Verified ips)"
proof -
  obtain u where u: "urlsplit url = Some u" "url_hostname u \<noteq> []"
    using assms by (auto simp: validate_llm_proxy_url_def split: option.splits if_splits)
  have v: "fst (case is_allowed_host (le_lists e) (normal_host (py_strip (url_hostname u))) tenant r of
                Inl x \<Rightarrow> (Inl x, cache)
              | Inr (Some (Inr ips)) \<Rightarrow>
                  (case cache_listed e r u (normal_host (py_strip (url_hostname u))) cache of
                     (Inl x, cache') \<Rightarrow> (Inl x, cache')
                   | (Inr _, cache') \<Rightarrow> (Inr (Llm_Allowed ips True), cache'))
              | Inr _ \<Rightarrow> (guard_verdict e r url, cache)) = Inr (Llm_Allowed ips m)"
    using assms u by (simp add: validate_llm_proxy_url_def Let_def)
  have g: "\<not> m \<and> validate_public_http_url (le_utf8 e) (le_idna e) (le_ports e) r url = Inr (Verified ips)"
    if h: "guard_verdict e r url = Inr (Llm_Allowed ips m)"
    proof -
    obtain v where v: "validate_public_http_url (le_utf8 e) (le_idna e) (le_ports e) r url = Inr v"
      "(case v of Blocked b \<Rightarrow> Llm_Blocked (Guard_Error b) | Verified ips \<Rightarrow> Llm_Allowed ips False) = Llm_Allowed ips m"
      using h by (auto simp: guard_verdict_def)
    then show ?thesis by (cases v) auto
  qed
  show ?thesis
  proof (cases "is_allowed_host (le_lists e) (normal_host (py_strip (url_hostname u))) tenant r")
    case (Inl x) with v show ?thesis by simp
  next
    case (Inr o')
    show ?thesis
    proof (cases "\<exists>is. o' = Some (Inr is)")
      case True
      then obtain "is" where o: "o' = Some (Inr is)" by blast
      with v Inr have "m \<and> is = ips" by (auto split: prod.splits sum.splits)
      with o Inr u show ?thesis using that(1) by blast
    next
      case False
      with v Inr have "guard_verdict e r url = Inr (Llm_Allowed ips m)" by (auto split: option.splits sum.splits)
      with g show ?thesis using that(2) by blast
    qed
  qed
qed

text \<open>The name that is looked up in the lists.\<close>

definition lookup_name :: "url_parts \<Rightarrow> string" where
  "lookup_name u = normal_host (py_strip (normal_host (py_strip (url_hostname u))))"

lemma llm_allowed_shape:
  assumes "fst (validate_llm_proxy_url e r url tenant cache) = Inr (Llm_Allowed ips m)"
  shows "url = [] \<or> le_check_disabled e \<or>
     (\<exists>u. urlsplit url = Some u \<and> (listed (lookup_name u) tenant (le_lists e) \<or> listed (lookup_name u) 0 (le_lists e)) \<and>
        ips \<noteq> [] \<and> \<not> list_all is_public_address ips) \<or>
     validate_public_http_url (le_utf8 e) (le_idna e) (le_ports e) r url = Inr (Verified ips)"
proof (cases "url = [] \<or> le_check_disabled e")
  case False
  then have c: "url \<noteq> []" "\<not> le_check_disabled e" by auto
  show ?thesis
  proof (rule validate_llm_allowed [OF assms c])
    fix u assume u: "urlsplit url = Some u"
      "is_allowed_host (le_lists e) (normal_host (py_strip (url_hostname u))) tenant r = Inr (Some (Inr ips))"
    have "listed (lookup_name u) tenant (le_lists e) \<or> listed (lookup_name u) 0 (le_lists e)"
      using is_allowed_host_listed [OF u(2)] unfolding lookup_name_def .
    moreover have "ips \<noteq> [] \<and> \<not> list_all is_public_address ips"
      using is_allowed_host_entry [OF u(2)] entry_valid_non_public by blast
    ultimately show ?thesis using u(1) by blast
  qed blast
qed blast

text \<open>A configured URL is let through only if it is empty, the check is switched off, its host is
  listed for the tenant or globally and has an address that is not public, or the guard verified it.\<close>
theorem llm_allowed_cases:
  assumes "fst (validate_llm_proxy_url e r url tenant cache) = Inr (Llm_Allowed ips m)"
  shows "url = [] \<or> le_check_disabled e \<or>
     (\<exists>u. urlsplit url = Some u \<and> (listed (lookup_name u) tenant (le_lists e) \<or> listed (lookup_name u) 0 (le_lists e)) \<and>
        ips \<noteq> [] \<and> \<not> list_all is_public_address ips) \<or>
     validate_public_http_url (le_utf8 e) (le_idna e) (le_ports e) r url = Inr (Verified ips)"
  using assms by (rule llm_allowed_shape)

text \<open>The cached addresses of a listed host decide nothing: the verdict is the same for every cache
  with which the validation returns.\<close>
theorem cached_dns_ignored:
  assumes "fst (validate_llm_proxy_url e r url tenant cache) = Inr v" and "fst (validate_llm_proxy_url e r url tenant cache') = Inr v'"
  shows "v = v'"
proof (cases "urlsplit url")
  case (Some u)
  let ?a = "is_allowed_host (le_lists e) (normal_host (py_strip (url_hostname u))) tenant r"
  show ?thesis
  proof (cases "url = [] \<or> url_hostname u = [] \<or> le_check_disabled e")
    case False
    then show ?thesis using assms Some
      by (cases ?a) (auto simp: validate_llm_proxy_url_def Let_def split: option.splits sum.splits prod.splits)
  qed (use assms Some in \<open>auto simp: validate_llm_proxy_url_def split: if_splits\<close>)
qed (use assms in \<open>auto simp: validate_llm_proxy_url_def split: if_splits\<close>)

text \<open>The lists of other tenants have no influence.\<close>
theorem other_tenants_lists_irrelevant:
  assumes "map_of (le_lists e) tenant = map_of al tenant" and "map_of (le_lists e) 0 = map_of al 0"
  shows "validate_llm_proxy_url (e\<lparr>le_lists := al\<rparr>) r url tenant cache = validate_llm_proxy_url e r url tenant cache"
proof -
  have "listed h tenant al = listed h tenant (le_lists e)" "listed h 0 al = listed h 0 (le_lists e)" for h
    using assms by (simp_all add: listed_def)
  then have "is_allowed_host al h tenant r = is_allowed_host (le_lists e) h tenant r" for h
    by (simp add: is_allowed_host_def Let_def cong: if_cong)
  moreover have sel: "le_now (e\<lparr>le_lists := al\<rparr>) = le_now e" "le_utf8 (e\<lparr>le_lists := al\<rparr>) = le_utf8 e" "le_idna (e\<lparr>le_lists := al\<rparr>) = le_idna e"
    "le_ports (e\<lparr>le_lists := al\<rparr>) = le_ports e" "le_check_disabled (e\<lparr>le_lists := al\<rparr>) = le_check_disabled e"
    "le_lists (e\<lparr>le_lists := al\<rparr>) = al" by simp_all
  moreover have "cache_listed (e\<lparr>le_lists := al\<rparr>) = cache_listed e" "guard_verdict (e\<lparr>le_lists := al\<rparr>) = guard_verdict e"
    unfolding fun_eq_iff cache_listed_def guard_verdict_def sel by simp_all
  ultimately show ?thesis by (simp only: validate_llm_proxy_url_def)
qed

text \<open>An entry for the tenant 0 replaces the global list.\<close>
theorem tenant_zero_replaces_global:
  assumes "py_strip env \<noteq> []" and "loads (py_strip env) = Some (JObj [(''0'', JList hs)])"
  shows "map_of (get_allowed_hosts loads hosts_env env) 0 = Some (entries (host_strings hs))"
proof -
  have "py_int (py_strip ''0'') = Some 0" by code_simp
  then show ?thesis using assms by (simp add: get_allowed_hosts_def tenant_lists_def Let_def update_conv')
qed

section \<open>What the stored addresses protect\<close>

lemma split_char_join: "xs \<noteq> [] \<Longrightarrow> \<forall>x\<in>set xs. c \<notin> set x \<Longrightarrow> split_char c (py_join [c] xs) = xs"
  by (induction "[c]" xs rule: py_join.induct) (auto simp: split_char_plain split_char_cons)

lemma entries_id: "\<forall>x\<in>set xs. x \<noteq> [] \<and> py_strip x = x \<Longrightarrow> entries xs = xs"
  by (induction xs) (auto simp: entries_def)

text \<open>The addresses that are stored for a URL are accepted as long as the resolver gives the same answer.\<close>
theorem stored_addresses_accepted:
  assumes "\<And>a. show_ip a \<noteq> [] \<and> CHR '','' \<notin> set (show_ip a) \<and> py_strip (show_ip a) = show_ip a"
    and "urlsplit url = Some u" and "url_port u = Inr port"
  shows "validate_ip_against_stored show_ip url (fst (resolve_and_store_ips show_ip url r)) r"
proof -
  have set_of: "stored_set (py_join '','' (map show_ip ips)) = map show_ip ips" if "ips \<noteq> []" for ips
    proof -
    have "split_char CHR '','' (py_join '','' (map show_ip ips)) = map show_ip ips"
      using that assms(1) by (intro split_char_join) auto
    moreover have "entries (map show_ip ips) = map show_ip ips"
      using assms(1) by (intro entries_id) simp
    ultimately show ?thesis by (simp add: stored_set_def)
  qed
  have one: "stored_set (show_ip a) = [show_ip a]" for a using set_of [of "[a]"] by simp
  show ?thesis
  proof (cases "parse_ip_address (url_hostname u)")
    case (Some a)
    then show ?thesis using assms(2,3) one
      by (auto simp: validate_ip_against_stored_def resolve_and_store_ips_def url_addresses_def resolve_addresses_def)
  next
    case None
    show ?thesis
    proof (cases "url_addresses url r")
      case (Some ips)
      then show ?thesis using assms(2) None set_of [of "filter is_public_address ips"]
        by (auto simp: validate_ip_against_stored_def resolve_and_store_ips_def Let_def filter_empty_conv)
    qed (use assms(2) None in \<open>simp add: validate_ip_against_stored_def resolve_and_store_ips_def\<close>)
  qed
qed

text \<open>One stored address in the answer is enough: the others may be private.\<close>
theorem mixed_answer_accepted:
  assumes "url_addresses url r = Some current" and "a \<in> set current" and "show_ip a \<in> set (stored_set stored)"
  shows "validate_ip_against_stored show_ip url stored r"
  using assms by (auto simp: validate_ip_against_stored_def)

text \<open>An answer without a stored address is accepted only if all its addresses are public.\<close>
theorem rebinding_refused:
  assumes "stored \<noteq> []" and "url_addresses url r = Some current" and "set (map show_ip current) \<inter> set (stored_set stored) = {}"
    and "a \<in> set current" and "\<not> is_public_address a"
  shows "\<not> validate_ip_against_stored show_ip url stored r"
  using assms by (auto simp: validate_ip_against_stored_def list_all_iff)



section \<open>Concrete inputs\<close>

definition lan :: llm_env where
  "lan = \<lparr>le_utf8 = Some, le_idna = Some, le_ports = [443], le_lists = [(0, [''h.io''])], le_check_disabled = False, le_now = 0\<rparr>"

lemma site_lookup: "normal_host (py_strip ''h.io'') = ''h.io''" "lookup_name site = ''h.io''"
  by (code_simp, code_simp)

lemma private_answer: "parse_ip_address ''10.0.0.1'' = Some (V4 0x0A000001)" "\<not> is_public_address (V4 0x0A000001)"
  by code_simp (simp add: public4_ranges outside_def special4_def quad_def between_def)

lemma lan_answer: "resolve_addresses ''h.io'' p (dns ''10.0.0.1'') = Inr [V4 0x0A000001]"
  by (simp add: resolve_addresses_def site_url dns_def map_filter_def private_answer)

theorem entry_valid_iff_witness: "validate_allowlist_entry ''h.io'' (dns ''10.0.0.1'') = Inr (Inr [V4 0x0A000001])"
proof -
  have "py_strip ''h.io'' = ''h.io''" "py_lower ''h.io'' = ''h.io''" by (code_simp, code_simp)
  then show ?thesis by (subst entry_valid_iff) (simp_all add: lan_answer private_answer)
qed

lemma lan_valid: "fst (validate_llm_proxy_url lan (dns ''10.0.0.1'') ''https://h.io/'' 3 cache) = Inr (Llm_Allowed [V4 0x0A000001] True)"
proof -
  have v: "validate_allowlist_entry ''h.io'' (dns ''10.0.0.1'') = Inr (Inr [V4 0x0A000001])"
  proof -
    have "py_lower (py_strip ''h.io'') = ''h.io''" by code_simp
    then show ?thesis by (simp add: validate_allowlist_entry_def site_url lan_answer private_answer)
  qed
  have l: "listed ''h.io'' 3 (le_lists lan) = False" "listed ''h.io'' 0 (le_lists lan) = True" by (code_simp, code_simp)
  then have "is_allowed_host (le_lists lan) ''h.io'' 3 (dns ''10.0.0.1'') = Inr (Some (Inr [V4 0x0A000001]))"
    by (simp add: is_allowed_host_def site_lookup v Let_def)
  moreover have "fst (cache_listed lan (dns ''10.0.0.1'') site ''h.io'' cache) = Inr ()"
    by (auto simp: cache_listed_def lan_answer site_url split: option.splits prod.splits)
  moreover have "\<not> le_check_disabled lan" by (simp add: lan_def)
  ultimately show ?thesis
    by (auto simp: validate_llm_proxy_url_def site_url site_lookup Let_def split: prod.splits sum.splits)
qed

theorem llm_allowed_cases_witness:
  "''https://h.io/'' = [] \<or> le_check_disabled lan \<or>
     (\<exists>u. urlsplit ''https://h.io/'' = Some u \<and> (listed (lookup_name u) 3 (le_lists lan) \<or> listed (lookup_name u) 0 (le_lists lan)) \<and>
        [V4 0x0A000001] \<noteq> [] \<and> \<not> list_all is_public_address [V4 0x0A000001]) \<or>
     validate_public_http_url (le_utf8 lan) (le_idna lan) (le_ports lan) (dns ''10.0.0.1'') ''https://h.io/'' = Inr (Verified [V4 0x0A000001])"
  by (rule llm_allowed_cases [OF lan_valid [of "[]"]])

theorem cached_dns_ignored_witness:
  "projr (fst (validate_llm_proxy_url lan (dns ''10.0.0.1'') ''https://h.io/'' 3 [])) =
   projr (fst (validate_llm_proxy_url lan (dns ''10.0.0.1'') ''https://h.io/'' 3 [(''h.io'', [V4 0x08080808], 0)]))"
  by (rule cached_dns_ignored [of lan "dns ''10.0.0.1''" "''https://h.io/''" 3 "[]" _ "[(''h.io'', [V4 0x08080808], 0)]"]) (simp_all add: lan_valid)

theorem other_tenants_lists_irrelevant_witness:
  "validate_llm_proxy_url (lan\<lparr>le_lists := [(4, [''x''] ), (0, [''h.io''])]\<rparr>) (dns ''10.0.0.1'') ''https://h.io/'' 3 [] =
   validate_llm_proxy_url lan (dns ''10.0.0.1'') ''https://h.io/'' 3 []"
  by (rule other_tenants_lists_irrelevant) (simp_all add: lan_def)

theorem tenant_zero_replaces_global_witness:
  "map_of (get_allowed_hosts (\<lambda>_. Some (JObj [(''0'', JList [JStr ''b''])])) ''a'' ''x'') 0 = Some (entries (host_strings [JStr ''b'']))"
  by (rule tenant_zero_replaces_global) (code_simp, simp)

definition plain_ip :: "ip \<Rightarrow> string" where "plain_ip a = ''1''"

theorem stored_addresses_accepted_witness:
  "validate_ip_against_stored plain_ip ''https://h.io/'' (fst (resolve_and_store_ips plain_ip ''https://h.io/'' (dns ''8.8.8.8''))) (dns ''8.8.8.8'')"
proof (rule stored_addresses_accepted [OF _ site_url(1,4)])
  have "py_strip ''1'' = ''1''" by code_simp
  then show "plain_ip a \<noteq> [] \<and> CHR '','' \<notin> set (plain_ip a) \<and> py_strip (plain_ip a) = plain_ip a" for a by (simp add: plain_ip_def)
qed

definition two_answers :: resolver where "two_answers host port = Some [Some ''8.8.8.8'', Some ''10.0.0.1'']"

lemma two_addresses: "url_addresses ''https://h.io/'' two_answers = Some [V4 0x08080808, V4 0x0A000001]"
  by (simp add: url_addresses_def site_url resolve_addresses_def two_answers_def map_filter_def dns_public private_answer)

lemma stored_one: "stored_set ''1'' = [''1'']" by code_simp

theorem mixed_answer_accepted_witness: "validate_ip_against_stored plain_ip ''https://h.io/'' ''1'' two_answers"
  by (rule mixed_answer_accepted [OF two_addresses, of "V4 0x08080808"]) (simp_all add: plain_ip_def stored_one)

theorem rebinding_refused_witness: "\<not> validate_ip_against_stored plain_ip ''https://h.io/'' ''2'' two_answers"
proof -
  have "stored_set ''2'' = [''2'']" by code_simp
  then show ?thesis
    by (intro rebinding_refused [OF _ two_addresses _ _ private_answer(2)]) (simp_all add: plain_ip_def)
qed


end
