(* ===== verification/Api_Keys.thy ===== *)
theory Api_Keys
  imports Llm_Proxy_Url
begin

text \<open>
  The store of the providers' API keys (\<^verbatim>\<open>modules/workspace/api_key_proxy.py\<close>) and the choice among them
  (\<^verbatim>\<open>api_key_router.py\<close>). The table \<^verbatim>\<open>api_key_store\<close> is a list of rows in the order of insertion. The
  cipher, the hash and the choice by weights are parameters; \<open>ok\<close> says whether the database executes a
  statement.
\<close>

section \<open>The table\<close>

record key_row =
  kr_id :: int
  kr_tenant :: int
  kr_provider :: string
  kr_name :: string
  kr_encrypted :: string
  kr_hash :: string
  kr_base_url :: "string option"
  kr_active :: bool
  kr_created_by :: "int option"
  kr_cli_tools :: "string option"
  kr_cli_settings :: "string option"
  kr_scope :: string
  kr_priority :: "int option"
  kr_weight :: "int option"
  kr_resolved_ips :: "string option"
  kr_resolved_at :: "instant option"

record key_table =
  kt_rows :: "key_row list"
  kt_next :: int

definition key_of :: "key_row \<Rightarrow> int \<times> string \<times> string" where "key_of r = (kr_tenant r, kr_provider r, kr_name r)"

record key_input =
  ki_tenant :: int
  ki_provider :: string
  ki_name :: string
  ki_api_key :: string
  ki_base_url :: "string option"
  ki_created_by :: "int option"
  ki_cli_tools :: "string option"
  ki_cli_settings :: "string option"
  ki_scope :: string
  ki_priority :: int
  ki_weight :: int

text \<open>The row of an input; on a conflict of tenant, provider and name the identifier, the creator and
  the place of the old row are kept.\<close>

definition new_key_row :: "(string \<Rightarrow> string) \<Rightarrow> (string \<Rightarrow> string) \<Rightarrow> int \<Rightarrow> key_input \<Rightarrow> string \<Rightarrow> instant option \<Rightarrow> key_row" where
  "new_key_row enc sha i k ips at =
     \<lparr>kr_id = i, kr_tenant = ki_tenant k, kr_provider = ki_provider k, kr_name = ki_name k, kr_encrypted = enc (ki_api_key k),
      kr_hash = sha (ki_api_key k), kr_base_url = ki_base_url k, kr_active = True, kr_created_by = ki_created_by k,
      kr_cli_tools = ki_cli_tools k, kr_cli_settings = ki_cli_settings k, kr_scope = ki_scope k, kr_priority = Some (ki_priority k),
      kr_weight = Some (ki_weight k), kr_resolved_ips = Some ips, kr_resolved_at = at\<rparr>"

definition upsert_key :: "key_row \<Rightarrow> key_table \<Rightarrow> key_table" where
  "upsert_key row t =
     (if key_of row \<in> key_of ` set (kt_rows t)
      then t\<lparr>kt_rows := map (\<lambda>r. if key_of r = key_of row then row\<lparr>kr_id := kr_id r, kr_created_by := kr_created_by r\<rparr> else r) (kt_rows t)\<rparr>
      else t\<lparr>kt_rows := kt_rows t @ [row\<lparr>kr_id := kt_next t\<rparr>], kt_next := kt_next t + 1\<rparr>)"

record key_env =
  ke_show_ip :: "ip \<Rightarrow> string"
  ke_llm :: llm_env
  ke_resolver :: resolver
  ke_enc :: "string \<Rightarrow> string"
  ke_dec :: "string \<Rightarrow> string option"
  ke_sha :: "string \<Rightarrow> string"
  ke_now :: instant

datatype store_answer = Stored | Url_Refused llm_error | Store_Failed

definition store_api_key :: "key_env \<Rightarrow> bool \<Rightarrow> key_input \<Rightarrow> dns_cache \<Rightarrow> key_table \<Rightarrow> store_answer result \<times> dns_cache \<times> key_table" where
  "store_api_key e ok k cache t =
     (let url = (case ki_base_url k of None \<Rightarrow> [] | Some u \<Rightarrow> u) in
      case store_gate (ke_show_ip e) (ke_llm e) (ke_resolver e) url (ki_tenant k) cache of
        (Inl x, cache') \<Rightarrow> (Inl x, cache', t)
      | (Inr (Inl err), cache') \<Rightarrow> (Inr (Url_Refused err), cache', t)
      | (Inr (Inr ips), cache') \<Rightarrow>
          if ok then (Inr Stored, cache', upsert_key (new_key_row (ke_enc e) (ke_sha e) 0 k ips (if ips = [] then None else Some (ke_now e))) t)
          else (Inr Store_Failed, cache', t))"

section \<open>Choosing a key\<close>

record candidate =
  cd_id :: int
  cd_api_key :: string
  cd_base_url :: "string option"
  cd_priority :: int
  cd_weight :: int
  cd_cli_settings :: "string option"
  cd_resolved_ips :: "string option"

text \<open>\<open>pick\<close>: \<open>random.choices(keys, weights=weights, k=1)[0]\<close> as the index it draws. Sorting by
  priority is stable.\<close>

definition weighted_random :: "(int list \<Rightarrow> nat) \<Rightarrow> candidate list \<Rightarrow> candidate" where
  "weighted_random pick keys = keys ! pick (map (\<lambda>k. max (cd_weight k) 1) keys)"

definition select_key :: "(int list \<Rightarrow> nat) \<Rightarrow> candidate list \<Rightarrow> int list \<Rightarrow> candidate option" where
  "select_key pick candidates exclude =
     (let pool = filter (\<lambda>c. cd_id c \<notin> set exclude) candidates
      in if pool = [] then None
         else (let sorted = sort_key (\<lambda>c. - cd_priority c) pool;
                   top = filter (\<lambda>c. cd_priority c = cd_priority (hd sorted)) sorted
               in if length top = 1 then Some (hd top) else Some (weighted_random pick top)))"

definition or_default :: "int option \<Rightarrow> int \<Rightarrow> int" where
  "or_default v d = (case v of None \<Rightarrow> d | Some n \<Rightarrow> if n = 0 then d else n)"

definition candidate_of :: "(string \<Rightarrow> string option) \<Rightarrow> key_row \<Rightarrow> candidate option" where
  "candidate_of dec r = map_option (\<lambda>p. \<lparr>cd_id = kr_id r, cd_api_key = p, cd_base_url = kr_base_url r, cd_priority = or_default (kr_priority r) 0,
     cd_weight = or_default (kr_weight r) 100, cd_cli_settings = kr_cli_settings r, cd_resolved_ips = kr_resolved_ips r\<rparr>) (dec (kr_encrypted r))"

definition in_scope :: "int \<Rightarrow> string \<Rightarrow> string \<Rightarrow> key_row \<Rightarrow> bool" where
  "in_scope tenant provider scope r \<longleftrightarrow> kr_tenant r = tenant \<and> kr_provider r = provider \<and> kr_active r \<and> (kr_scope r = scope \<or> kr_scope r = ''shared'')"

definition resolve_api_key_for_scope ::
    "(string \<Rightarrow> string option) \<Rightarrow> (int list \<Rightarrow> nat) \<Rightarrow> int \<Rightarrow> string \<Rightarrow> string \<Rightarrow> int list \<Rightarrow> key_table \<Rightarrow> candidate option" where
  "resolve_api_key_for_scope dec pick tenant provider scope exclude t =
     (let candidates = List.map_filter (candidate_of dec) (filter (in_scope tenant provider scope) (kt_rows t))
      in if candidates = [] then None else select_key pick candidates exclude)"

definition resolve_api_key :: "(string \<Rightarrow> string option) \<Rightarrow> (int list \<Rightarrow> nat) \<Rightarrow> int \<Rightarrow> string \<Rightarrow> key_table \<Rightarrow> (string \<times> string option) option" where
  "resolve_api_key dec pick tenant provider t =
     map_option (\<lambda>c. (cd_api_key c, cd_base_url c)) (resolve_api_key_for_scope dec pick tenant provider ''remote'' [] t)"

definition resolve_api_key_from_key_ids ::
    "(string \<Rightarrow> string option) \<Rightarrow> (int list \<Rightarrow> nat) \<Rightarrow> int \<Rightarrow> string \<Rightarrow> int list \<Rightarrow> int list \<Rightarrow> key_table \<Rightarrow> candidate option" where
  "resolve_api_key_from_key_ids dec pick tenant provider ids exclude t =
     (if ids = [] then None
      else select_key pick (List.map_filter (candidate_of dec)
        (filter (\<lambda>r. kr_tenant r = tenant \<and> kr_provider r = provider \<and> kr_active r \<and> kr_id r \<in> set ids) (kt_rows t))) exclude)"

section \<open>Reading, deleting, updating\<close>

definition get_key_by_id :: "int \<Rightarrow> int \<Rightarrow> key_table \<Rightarrow> key_row option" where
  "get_key_by_id tenant i t = find (\<lambda>r. kr_tenant r = tenant \<and> kr_id r = i) (kt_rows t)"

definition get_api_key_by_id_for_tenant :: "int \<Rightarrow> int \<Rightarrow> key_table \<Rightarrow> key_row option result" where
  "get_api_key_by_id_for_tenant i target_tenant t = (if target_tenant \<le> 0 then Inl ValueError else Inr (get_key_by_id target_tenant i t))"

definition delete_where :: "(key_row \<Rightarrow> bool) \<Rightarrow> key_table \<Rightarrow> bool \<times> key_table" where
  "delete_where P t = (list_ex P (kt_rows t), t\<lparr>kt_rows := filter (\<lambda>r. \<not> P r) (kt_rows t)\<rparr>)"

definition delete_api_key :: "int \<Rightarrow> string \<Rightarrow> string \<Rightarrow> key_table \<Rightarrow> bool \<times> key_table" where
  "delete_api_key tenant provider name = delete_where (\<lambda>r. key_of r = (tenant, provider, name))"

definition delete_api_key_by_id :: "int \<Rightarrow> int \<Rightarrow> key_table \<Rightarrow> bool \<times> key_table" where
  "delete_api_key_by_id i tenant = delete_where (\<lambda>r. kr_id r = i \<and> kr_tenant r = tenant)"

text \<open>The columns an update may set; \<open>None\<close> leaves one alone. A new base URL sets the stored addresses
  too, to nothing when it is empty or has no public address. A name that is taken raises.\<close>

record key_patch =
  kp_name :: "string option"
  kp_base_url :: "string option"
  kp_cli_tools :: "string option"
  kp_cli_settings :: "string option"
  kp_active :: "bool option"
  kp_scope :: "string option"
  kp_priority :: "int option"
  kp_weight :: "int option"

definition patch_empty :: "key_patch \<Rightarrow> bool" where
  "patch_empty p \<longleftrightarrow> kp_name p = None \<and> kp_base_url p = None \<and> kp_cli_tools p = None \<and> kp_cli_settings p = None \<and> kp_active p = None \<and>
     kp_scope p = None \<and> kp_priority p = None \<and> kp_weight p = None"

definition keep :: "'a option \<Rightarrow> 'a \<Rightarrow> 'a" where "keep v old = (case v of None \<Rightarrow> old | Some n \<Rightarrow> n)"

definition keep_opt :: "'a option \<Rightarrow> 'a option \<Rightarrow> 'a option" where "keep_opt v old = (if v = None then old else v)"

definition apply_patch :: "key_patch \<Rightarrow> string option \<Rightarrow> instant option \<Rightarrow> key_row \<Rightarrow> key_row" where
  "apply_patch p ips at r =
     r\<lparr>kr_name := keep (kp_name p) (kr_name r), kr_base_url := keep_opt (kp_base_url p) (kr_base_url r),
       kr_resolved_ips := (if kp_base_url p = None then kr_resolved_ips r else ips),
       kr_resolved_at := (if kp_base_url p = None then kr_resolved_at r else at),
       kr_cli_tools := keep_opt (kp_cli_tools p) (kr_cli_tools r), kr_cli_settings := keep_opt (kp_cli_settings p) (kr_cli_settings r),
       kr_active := keep (kp_active p) (kr_active r), kr_scope := keep (kp_scope p) (kr_scope r),
       kr_priority := keep_opt (kp_priority p) (kr_priority r), kr_weight := keep_opt (kp_weight p) (kr_weight r)\<rparr>"

definition update_rows :: "int \<Rightarrow> int \<Rightarrow> key_patch \<Rightarrow> string option \<Rightarrow> instant option \<Rightarrow> key_table \<Rightarrow> bool result \<times> key_table" where
  "update_rows i tenant p ips at t =
     (if patch_empty p then (Inr False, t)
      else (let rows' = map (\<lambda>r. if kr_id r = i \<and> kr_tenant r = tenant then apply_patch p ips at r else r) (kt_rows t)
            in if distinct (map key_of rows') then (Inr (list_ex (\<lambda>r. kr_id r = i \<and> kr_tenant r = tenant) (kt_rows t)), t\<lparr>kt_rows := rows'\<rparr>)
               else (Inl DBError, t)))"

definition update_api_key_by_id :: "key_env \<Rightarrow> int \<Rightarrow> int \<Rightarrow> key_patch \<Rightarrow> dns_cache \<Rightarrow> key_table \<Rightarrow> bool result \<times> dns_cache \<times> key_table" where
  "update_api_key_by_id e i tenant p cache t =
     (case kp_base_url p of
        None \<Rightarrow> (let (r, t') = update_rows i tenant p None None t in (r, cache, t'))
      | Some url \<Rightarrow>
          (case store_gate (ke_show_ip e) (ke_llm e) (ke_resolver e) url tenant cache of
             (Inl x, cache') \<Rightarrow> (Inl x, cache', t)
           | (Inr (Inl _), cache') \<Rightarrow> (Inr False, cache', t)
           | (Inr (Inr ips), cache') \<Rightarrow>
               (let (r, t') = update_rows i tenant p (if url = [] then None else Some ips) (if ips = [] then None else Some (ke_now e)) t
                in (r, cache', t'))))"

section \<open>Invariant\<close>

definition key_table_ok :: "key_table \<Rightarrow> bool" where
  "key_table_ok t \<longleftrightarrow> distinct (map key_of (kt_rows t)) \<and> distinct (map kr_id (kt_rows t)) \<and> (\<forall>r\<in>set (kt_rows t). kr_id r < kt_next t)"

lemma distinct_map_same: "(\<And>x. x \<in> set xs \<Longrightarrow> f (g x) = f x) \<Longrightarrow> map f (map g xs) = map f xs"
  by simp

lemma upsert_key_ok [inv_intros]: "key_table_ok t \<Longrightarrow> key_table_ok (upsert_key row t)"
proof -
  assume ok: "key_table_ok t"
  let ?u = "\<lambda>r. if key_of r = key_of row then row\<lparr>kr_id := kr_id r, kr_created_by := kr_created_by r\<rparr> else r"
  have "map key_of (map ?u rs) = map key_of rs" "map kr_id (map ?u rs) = map kr_id rs" for rs
    by (simp_all add: key_of_def)
  moreover have "kr_id (?u r) = kr_id r" for r by simp
  ultimately show ?thesis
    using ok unfolding key_table_ok_def upsert_key_def
    by (auto simp: key_of_def simp del: map_map split: if_splits)
qed

lemma delete_where_ok [inv_intros]: "key_table_ok t \<Longrightarrow> key_table_ok (snd (delete_where P t))"
  by (auto simp: key_table_ok_def delete_where_def distinct_map_filter)

lemma update_rows_ok [inv_intros]: "key_table_ok t \<Longrightarrow> key_table_ok (snd (update_rows i tenant p ips at t))"
proof -
  assume ok: "key_table_ok t"
  let ?u = "\<lambda>r. if kr_id r = i \<and> kr_tenant r = tenant then apply_patch p ips at r else r"
  have p: "kr_id (apply_patch p ips at r) = kr_id r" for r by (simp add: apply_patch_def)
  then have "map kr_id (map ?u rs) = map kr_id rs" for rs by simp
  then show ?thesis using ok
    by (auto simp: key_table_ok_def update_rows_def Let_def p simp del: map_map)
qed

text \<open>Whatever is stored, updated and deleted, a tenant has one key of a provider and a name, and the
  identifiers are distinct.\<close>
theorem key_operations_keep_table:
  assumes "key_table_ok t"
  shows "key_table_ok (snd (snd (store_api_key e ok k cache t))) \<and> key_table_ok (snd (snd (update_api_key_by_id e i tenant p cache t))) \<and>
     key_table_ok (snd (delete_api_key tenant provider name t)) \<and> key_table_ok (snd (delete_api_key_by_id i tenant t))"
proof -
  have "key_table_ok (snd (snd (store_api_key e ok k cache t)))"
    using upsert_key_ok [OF assms] assms by (simp add: store_api_key_def Let_def split: prod.splits sum.splits)
  moreover have "key_table_ok (snd (snd (update_api_key_by_id e i tenant p cache t)))"
    using update_rows_ok [OF assms] assms
    by (simp add: update_api_key_by_id_def Let_def case_prod_unfold split: option.splits sum.splits)
  ultimately show ?thesis using delete_where_ok [OF assms] by (simp add: delete_api_key_def delete_api_key_by_id_def)
qed

section \<open>The selection\<close>

lemma hd_sort_key_max:
  assumes "pool \<noteq> []"
  shows "hd (sort_key (\<lambda>c. - cd_priority c) pool) \<in> set pool"
    and "c \<in> set pool \<Longrightarrow> cd_priority c \<le> cd_priority (hd (sort_key (\<lambda>c. - cd_priority c) pool))"
proof -
  let ?s = "sort_key (\<lambda>c. - cd_priority c) pool"
  have ne: "?s \<noteq> []" using assms by (metis set_empty set_sort)
  then show "hd ?s \<in> set pool" by (metis hd_in_set set_sort)
  have "sorted (map (\<lambda>c. - cd_priority c) ?s)" by simp
  moreover assume "c \<in> set pool"
  then have "c \<in> set ?s" by simp
  ultimately show "cd_priority c \<le> cd_priority (hd ?s)"
    using ne by (cases ?s) auto
qed

lemma select_key_Some:
  assumes "select_key pick cs ex = Some c" and "\<And>ws. ws \<noteq> [] \<Longrightarrow> pick ws < length ws"
  shows "c \<in> set cs \<and> cd_id c \<notin> set ex \<and> (\<forall>d\<in>set cs. cd_id d \<notin> set ex \<longrightarrow> cd_priority d \<le> cd_priority c)"
proof -
  let ?pool = "filter (\<lambda>c. cd_id c \<notin> set ex) cs"
  let ?s = "sort_key (\<lambda>c. - cd_priority c) ?pool"
  let ?top = "filter (\<lambda>c. cd_priority c = cd_priority (hd ?s)) ?s"
  have ne: "?pool \<noteq> []" using assms(1) by (auto simp: select_key_def)
  have "hd ?s \<in> set ?s" using hd_sort_key_max(1) [OF ne] by simp
  then have "hd ?s \<in> set ?top" by simp
  then have tne: "?top \<noteq> []" by (metis empty_iff list.set(1))
  have "c \<in> set ?top"
  proof (cases "length ?top = 1")
    case True
    with assms(1) ne have "c = hd ?top" by (auto simp: select_key_def Let_def)
    with tne show ?thesis using hd_in_set by blast
  next
    case False
    with assms(1) ne have "c = weighted_random pick ?top" by (auto simp: select_key_def Let_def)
    moreover have "pick (map (\<lambda>k. max (cd_weight k) 1) ?top) < length ?top" using assms(2) [of "map (\<lambda>k. max (cd_weight k) 1) ?top"] tne by simp
    ultimately show ?thesis unfolding weighted_random_def by (metis nth_mem)
  qed
  then show ?thesis using hd_sort_key_max(2) [OF ne] by auto
qed

lemma select_key_None: "select_key pick cs ex = None \<longleftrightarrow> (\<forall>c\<in>set cs. cd_id c \<in> set ex)"
  by (auto simp: select_key_def Let_def filter_empty_conv)

text \<open>A row that a request may use: of the tenant and the provider, active, in scope, not excluded, and
  its key can be decrypted.\<close>

definition usable :: "(string \<Rightarrow> string option) \<Rightarrow> int \<Rightarrow> string \<Rightarrow> string \<Rightarrow> int list \<Rightarrow> key_row \<Rightarrow> bool" where
  "usable dec tenant provider scope ex r \<longleftrightarrow> in_scope tenant provider scope r \<and> kr_id r \<notin> set ex \<and> dec (kr_encrypted r) \<noteq> None"

lemma candidates_iff: "c \<in> set (List.map_filter (candidate_of dec) rs) \<longleftrightarrow> (\<exists>r\<in>set rs. candidate_of dec r = Some c)"
  by (induction rs) (auto simp: List.map_filter_simps split: option.splits)

lemma ball_candidates:
  "(\<forall>c\<in>set (List.map_filter (candidate_of dec) rs). cd_id c \<in> X) \<longleftrightarrow> (\<forall>r\<in>set rs. dec (kr_encrypted r) \<noteq> None \<longrightarrow> kr_id r \<in> X)"
proof -
  have "(\<forall>c\<in>set (List.map_filter (candidate_of dec) rs). cd_id c \<in> X) \<longleftrightarrow> (\<forall>r\<in>set rs. \<forall>c. candidate_of dec r = Some c \<longrightarrow> cd_id c \<in> X)"
    using candidates_iff [of _ dec rs] by blast
  also have "\<dots> \<longleftrightarrow> (\<forall>r\<in>set rs. dec (kr_encrypted r) \<noteq> None \<longrightarrow> kr_id r \<in> X)"
    by (auto simp: candidate_of_def)
  finally show ?thesis .
qed

lemma candidate_of_Some: "candidate_of dec r = Some c \<Longrightarrow>
    cd_id c = kr_id r \<and> dec (kr_encrypted r) = Some (cd_api_key c) \<and> cd_priority c = or_default (kr_priority r) 0 \<and> cd_base_url c = kr_base_url r \<and>
    cd_resolved_ips c = kr_resolved_ips r"
  by (auto simp: candidate_of_def)

lemma resolved_key_row:
  assumes "resolve_api_key_for_scope dec pick tenant provider scope ex t = Some c" and "\<And>ws. ws \<noteq> [] \<Longrightarrow> pick ws < length ws"
  shows "\<exists>r\<in>set (kt_rows t). usable dec tenant provider scope ex r \<and> cd_id c = kr_id r \<and> dec (kr_encrypted r) = Some (cd_api_key c) \<and>
     cd_base_url c = kr_base_url r \<and> cd_resolved_ips c = kr_resolved_ips r \<and>
     (\<forall>r'\<in>set (kt_rows t). usable dec tenant provider scope ex r' \<longrightarrow> or_default (kr_priority r') 0 \<le> or_default (kr_priority r) 0)"
proof -
  let ?cs = "List.map_filter (candidate_of dec) (filter (in_scope tenant provider scope) (kt_rows t))"
  have s: "select_key pick ?cs ex = Some c" using assms(1) by (auto simp: resolve_api_key_for_scope_def Let_def split: if_splits)
  note sel = select_key_Some [OF s assms(2)]
  then obtain r where r: "r \<in> set (kt_rows t)" "in_scope tenant provider scope r" "candidate_of dec r = Some c"
    by (auto simp: candidates_iff)
  have "or_default (kr_priority r') 0 \<le> or_default (kr_priority r) 0" if h: "r' \<in> set (kt_rows t)" "usable dec tenant provider scope ex r'" for r'
  proof -
    obtain d where d: "candidate_of dec r' = Some d" using h(2) by (auto simp: usable_def candidate_of_def)
    then have "d \<in> set ?cs" using h by (auto simp: candidates_iff usable_def)
    then show ?thesis using sel candidate_of_Some [OF d] candidate_of_Some [OF r(3)] h(2) by (auto simp: usable_def)
  qed
  moreover have "usable dec tenant provider scope ex r" using r sel candidate_of_Some [OF r(3)] by (simp add: usable_def)
  ultimately show ?thesis using r(1) candidate_of_Some [OF r(3)] by blast
qed

lemma failover_exhausts_rows:
  "resolve_api_key_for_scope dec pick tenant provider scope ex t = None \<longleftrightarrow> (\<forall>r\<in>set (kt_rows t). \<not> usable dec tenant provider scope ex r)"
proof -
  let ?cs = "List.map_filter (candidate_of dec) (filter (in_scope tenant provider scope) (kt_rows t))"
  have "resolve_api_key_for_scope dec pick tenant provider scope ex t = None \<longleftrightarrow> (\<forall>c\<in>set ?cs. cd_id c \<in> set ex)"
    by (auto simp: resolve_api_key_for_scope_def Let_def select_key_None)
  also have "\<dots> \<longleftrightarrow> (\<forall>r\<in>set (kt_rows t). \<not> usable dec tenant provider scope ex r)"
    unfolding ball_candidates by (auto simp: usable_def)
  finally show ?thesis .
qed

text \<open>C27: The key that is chosen for a tenant, a provider and a scope belongs to a usable row, and no usable
  row has a higher priority.\<close>
theorem resolved_key_best:
  assumes "resolve_api_key_for_scope dec pick tenant provider scope ex t = Some c" and "\<And>ws. ws \<noteq> [] \<Longrightarrow> pick ws < length ws"
  shows "\<exists>r\<in>set (kt_rows t). usable dec tenant provider scope ex r \<and> cd_id c = kr_id r \<and> dec (kr_encrypted r) = Some (cd_api_key c) \<and>
     cd_base_url c = kr_base_url r \<and> cd_resolved_ips c = kr_resolved_ips r \<and>
     (\<forall>r'\<in>set (kt_rows t). usable dec tenant provider scope ex r' \<longrightarrow> or_default (kr_priority r') 0 \<le> or_default (kr_priority r) 0)"
  using assms by (rule resolved_key_row)

text \<open>Nothing is chosen exactly when no row is usable: excluding the keys that failed, one after the
  other, tries all of them.\<close>
theorem failover_exhausts_keys:
  "resolve_api_key_for_scope dec pick tenant provider scope ex t = None \<longleftrightarrow> (\<forall>r\<in>set (kt_rows t). \<not> usable dec tenant provider scope ex r)"
  by (rule failover_exhausts_rows)

lemma upsert_key_member: "\<exists>r\<in>set (kt_rows (upsert_key row t)). \<exists>i c. r = row\<lparr>kr_id := i, kr_created_by := c\<rparr>"
proof (cases "key_of row \<in> key_of ` set (kt_rows t)")
  case True
  then obtain r where "r \<in> set (kt_rows t)" "key_of r = key_of row" by auto
  then show ?thesis using True
    by (intro bexI [of _ "row\<lparr>kr_id := kr_id r, kr_created_by := kr_created_by r\<rparr>"]) (auto simp: upsert_key_def image_iff)
next
  case False
  have "row\<lparr>kr_id := kt_next t\<rparr> = row\<lparr>kr_id := kt_next t, kr_created_by := kr_created_by row\<rparr>" by simp
  then show ?thesis using False
    by (intro bexI [of _ "row\<lparr>kr_id := kt_next t\<rparr>"]) (blast, simp add: upsert_key_def)
qed

text \<open>A key that is stored and has no rival is the one that is found, as it was given.\<close>
theorem stored_key_resolved:
  assumes "fst (store_api_key e True k cache t) = Inr Stored" and "\<And>x. ke_dec e (ke_enc e x) = Some x" and "key_table_ok t"
    and "\<And>ws. ws \<noteq> [] \<Longrightarrow> pick ws < length ws"
    and "\<forall>r\<in>set (kt_rows t). kr_tenant r = ki_tenant k \<and> kr_provider r = ki_provider k \<longrightarrow> kr_name r = ki_name k"
    and "ki_scope k = scope \<or> ki_scope k = ''shared''"
  shows "\<exists>c. resolve_api_key_for_scope (ke_dec e) pick (ki_tenant k) (ki_provider k) scope [] (snd (snd (store_api_key e True k cache t))) = Some c \<and>
     cd_api_key c = ki_api_key k \<and> cd_base_url c = ki_base_url k"
proof -
  let ?t = "snd (snd (store_api_key e True k cache t))"
  obtain ips at where t: "?t = upsert_key (new_key_row (ke_enc e) (ke_sha e) 0 k ips at) t"
    using assms(1) by (auto simp: store_api_key_def Let_def split: prod.splits sum.splits)
  have only: "\<forall>r\<in>set (kt_rows ?t). kr_tenant r = ki_tenant k \<and> kr_provider r = ki_provider k \<longrightarrow>
      kr_encrypted r = ke_enc e (ki_api_key k) \<and> kr_base_url r = ki_base_url k"
    using assms(5) unfolding t by (auto simp: upsert_key_def new_key_row_def key_of_def image_iff)
  have "\<exists>r\<in>set (kt_rows ?t). usable (ke_dec e) (ki_tenant k) (ki_provider k) scope [] r"
  proof -
    obtain r i c where r: "r \<in> set (kt_rows ?t)" "r = (new_key_row (ke_enc e) (ke_sha e) 0 k ips at)\<lparr>kr_id := i, kr_created_by := c\<rparr>"
      using upsert_key_member unfolding t by blast
    have "usable (ke_dec e) (ki_tenant k) (ki_provider k) scope [] r"
      using assms(2,6) unfolding r(2) by (auto simp: new_key_row_def usable_def in_scope_def)
    with r(1) show ?thesis by blast
  qed
  then obtain c where c: "resolve_api_key_for_scope (ke_dec e) pick (ki_tenant k) (ki_provider k) scope [] ?t = Some c"
    using failover_exhausts_rows by (metis option.exhaust)
  from resolved_key_row [OF c assms(4)] obtain r where "r \<in> set (kt_rows ?t)" "usable (ke_dec e) (ki_tenant k) (ki_provider k) scope [] r"
    "ke_dec e (kr_encrypted r) = Some (cd_api_key c)" "cd_base_url c = kr_base_url r" by blast
  with only c assms(2) show ?thesis by (auto simp: usable_def in_scope_def)
qed

text \<open>The keys of other tenants have no influence on the choice.\<close>
theorem other_tenants_keys_irrelevant:
  assumes "filter (\<lambda>r. kr_tenant r = tenant) (kt_rows t) = filter (\<lambda>r. kr_tenant r = tenant) (kt_rows t')"
  shows "resolve_api_key_for_scope dec pick tenant provider scope ex t = resolve_api_key_for_scope dec pick tenant provider scope ex t' \<and>
     resolve_api_key_from_key_ids dec pick tenant provider ids ex t = resolve_api_key_from_key_ids dec pick tenant provider ids ex t'"
proof -
  have f: "filter P (kt_rows t) = filter P (kt_rows t')" if "\<And>r. P r \<Longrightarrow> kr_tenant r = tenant" for P
  proof -
    have "filter P rs = filter P (filter (\<lambda>r. kr_tenant r = tenant) rs)" for rs using that by (induction rs) auto
    with assms show ?thesis by metis
  qed
  show ?thesis
    using f [of "in_scope tenant provider scope"]
      f [of "\<lambda>r. kr_tenant r = tenant \<and> kr_provider r = provider \<and> kr_active r \<and> kr_id r \<in> set ids"]
    by (simp add: resolve_api_key_for_scope_def resolve_api_key_from_key_ids_def in_scope_def)
qed

text \<open>A weight of 0 counts as the default 100, not as the least weight.\<close>
theorem zero_weight_counts_full:
  assumes "kr_weight r = Some 0" and "candidate_of dec r = Some c"
  shows "max (cd_weight c) 1 = 100"
  using assms by (auto simp: candidate_of_def or_default_def)

text \<open>A key whose base URL the validation refuses is neither stored nor updated.\<close>
theorem refused_url_not_stored:
  assumes "fst (validate_llm_proxy_url (ke_llm e) (ke_resolver e) url tenant cache) = Inr (Llm_Blocked b)" and "url \<noteq> []"
    and "ki_base_url k = Some url" and "ki_tenant k = tenant" and "kp_base_url p = Some url"
  shows "fst (store_api_key e ok k cache t) = Inr (Url_Refused b) \<and> snd (snd (store_api_key e ok k cache t)) = t \<and>
     fst (update_api_key_by_id e i tenant p cache t) = Inr False \<and> snd (snd (update_api_key_by_id e i tenant p cache t)) = t"
proof -
  have g: "fst (store_gate (ke_show_ip e) (ke_llm e) (ke_resolver e) url tenant cache) = Inr (Inl b)"
    using assms(1,2) by (auto simp: store_gate_def split: prod.splits)
  show ?thesis using assms(3-5) g
    by (auto simp: store_api_key_def update_api_key_by_id_def Let_def split: prod.splits)
qed

section \<open>Concrete inputs\<close>

definition key_env1 :: key_env where
  "key_env1 = \<lparr>ke_show_ip = plain_ip, ke_llm = lan, ke_resolver = dns ''10.0.0.1'', ke_enc = rev, ke_dec = (\<lambda>s. Some (rev s)),
     ke_sha = (\<lambda>_. ''h''), ke_now = 5\<rparr>"

definition key1 :: key_input where
  "key1 = \<lparr>ki_tenant = 3, ki_provider = ''openai'', ki_name = ''main'', ki_api_key = ''sk-1'', ki_base_url = None, ki_created_by = None,
     ki_cli_tools = None, ki_cli_settings = None, ki_scope = ''remote'', ki_priority = 1, ki_weight = 0\<rparr>"

definition no_keys :: key_table where "no_keys = \<lparr>kt_rows = [], kt_next = 1\<rparr>"

definition row1 :: key_row where "row1 = (new_key_row rev (\<lambda>_. ''h'') 1 key1 [] None)"

lemma stored1: "store_api_key key_env1 True key1 [] no_keys = (Inr Stored, [], \<lparr>kt_rows = [row1], kt_next = 2\<rparr>)"
  by (simp add: store_api_key_def store_gate_def key1_def key_env1_def no_keys_def upsert_key_def new_key_row_def row1_def)

lemma resolved1: "resolve_api_key_for_scope (ke_dec key_env1) (\<lambda>_. 0) 3 ''openai'' ''remote'' [] \<lparr>kt_rows = [row1], kt_next = 2\<rparr> =
    candidate_of (ke_dec key_env1) row1"
  by (simp add: resolve_api_key_for_scope_def in_scope_def row1_def new_key_row_def key1_def List.map_filter_simps candidate_of_def
      key_env1_def select_key_def)

theorem key_operations_keep_table_witness:
  "key_table_ok (snd (snd (store_api_key key_env1 True key1 [] no_keys)))"
proof -
  have "key_table_ok no_keys" by (simp add: key_table_ok_def no_keys_def)
  from key_operations_keep_table [OF this] show ?thesis by blast
qed

theorem resolved_key_best_witness:
  "\<exists>r\<in>set [row1]. usable (ke_dec key_env1) 3 ''openai'' ''remote'' [] r"
proof -
  obtain c where "candidate_of (ke_dec key_env1) row1 = Some c" by (simp add: candidate_of_def key_env1_def)
  then have c: "resolve_api_key_for_scope (ke_dec key_env1) (\<lambda>_. 0) 3 ''openai'' ''remote'' [] \<lparr>kt_rows = [row1], kt_next = 2\<rparr> = Some c"
    by (simp add: resolved1)
  from resolved_key_best [OF c] show ?thesis by auto
qed

theorem stored_key_resolved_witness:
  "\<exists>c. resolve_api_key_for_scope (ke_dec key_env1) (\<lambda>_. 0) (ki_tenant key1) (ki_provider key1) ''remote'' [] (snd (snd (store_api_key key_env1 True key1 [] no_keys))) = Some c \<and>
     cd_api_key c = ki_api_key key1 \<and> cd_base_url c = ki_base_url key1"
proof -
  have "fst (store_api_key key_env1 True key1 [] no_keys) = Inr Stored" by (simp add: stored1)
  then show ?thesis
    by (rule stored_key_resolved) (simp_all add: key_env1_def no_keys_def key_table_ok_def key1_def)
qed

theorem other_tenants_keys_irrelevant_witness:
  "resolve_api_key_for_scope (ke_dec key_env1) (\<lambda>_. 0) 3 ''openai'' ''remote'' [] \<lparr>kt_rows = [row1, row1\<lparr>kr_tenant := 4\<rparr>], kt_next = 3\<rparr> =
   resolve_api_key_for_scope (ke_dec key_env1) (\<lambda>_. 0) 3 ''openai'' ''remote'' [] \<lparr>kt_rows = [row1], kt_next = 2\<rparr>"
proof -
  have "filter (\<lambda>r. kr_tenant r = 3) (kt_rows \<lparr>kt_rows = [row1, row1\<lparr>kr_tenant := 4\<rparr>], kt_next = 3\<rparr>) =
    filter (\<lambda>r. kr_tenant r = 3) (kt_rows \<lparr>kt_rows = [row1], kt_next = 2\<rparr>)" by simp
  from other_tenants_keys_irrelevant [OF this] show ?thesis by blast
qed

theorem zero_weight_counts_full_witness: "\<exists>c. candidate_of (ke_dec key_env1) row1 = Some c \<and> max (cd_weight c) 1 = 100"
proof -
  obtain c where c: "candidate_of (ke_dec key_env1) row1 = Some c" by (simp add: candidate_of_def key_env1_def)
  have "kr_weight row1 = Some 0" by (simp add: row1_def new_key_row_def key1_def)
  from zero_weight_counts_full [OF this c] c show ?thesis by blast
qed

theorem refused_url_not_stored_witness:
  "snd (snd (store_api_key key_env1 True (key1\<lparr>ki_base_url := Some ''/x''\<rparr>) [] no_keys)) = no_keys"
proof -
  have s: "urlsplit ''/x'' = Some \<lparr>u_scheme = [], u_netloc = [], u_path = ''/x'', u_query = []\<rparr>"
    "url_hostname \<lparr>u_scheme = [], u_netloc = [], u_path = ''/x'', u_query = []\<rparr> = []" by (code_simp, code_simp)
  have "fst (validate_llm_proxy_url (ke_llm key_env1) (ke_resolver key_env1) ''/x'' 3 []) = Inr (Llm_Blocked Missing_Hostname)"
    by (simp add: validate_llm_proxy_url_def s)
  from refused_url_not_stored [OF this, of "key1\<lparr>ki_base_url := Some ''/x''\<rparr>"
      "\<lparr>kp_name = None, kp_base_url = Some ''/x'', kp_cli_tools = None, kp_cli_settings = None, kp_active = None, kp_scope = None, kp_priority = None, kp_weight = None\<rparr>"]
  show ?thesis by (simp add: key1_def)
qed

end
