(* ===== verification/Single_Use.thy ===== *)
theory Single_Use
  imports Prelude
begin

text \<open>
  The contract of identifiers that may be used once, such as tokens and approvals: whatever steps the
  users of a shared table take, and however they interleave, an identifier is accepted at most once.
\<close>

section \<open>Runs\<close>

inductive runs :: "('s \<Rightarrow> 'e \<Rightarrow> 's \<Rightarrow> bool) \<Rightarrow> 's \<Rightarrow> 'e list \<Rightarrow> 's \<Rightarrow> bool" for step where
  stop: "runs step s [] s"
| more: "step s e s' \<Longrightarrow> runs step s' es s'' \<Longrightarrow> runs step s (e # es) s''"

inductive_cases runs_ConsE: "runs step s (e # es) s''"

section \<open>The contract\<close>

locale single_use =
  fixes step :: "'s \<Rightarrow> 'e \<Rightarrow> 's \<Rightarrow> bool"
    and inv :: "'s \<Rightarrow> bool"
    and spent :: "'id \<Rightarrow> 's \<Rightarrow> bool"
    and accepts :: "'e \<Rightarrow> 'id option"
  assumes inv_step: "inv s \<Longrightarrow> step s e s' \<Longrightarrow> inv s'"
    and accept: "inv s \<Longrightarrow> step s e s' \<Longrightarrow> accepts e = Some i \<Longrightarrow> \<not> spent i s \<and> spent i s'"
    and keep_spent: "inv s \<Longrightarrow> step s e s' \<Longrightarrow> spent i s \<Longrightarrow> spent i s'"
begin

lemma spent_never_accepted: "runs step s es s' \<Longrightarrow> inv s \<Longrightarrow> spent i s \<Longrightarrow> \<forall>e\<in>set es. accepts e \<noteq> Some i"
proof (induction rule: runs.induct)
  case (more s e s' es s'')
  then show ?case using inv_step accept keep_spent by (metis set_ConsD)
qed simp

lemma accepted_once: "runs step s es s' \<Longrightarrow> inv s \<Longrightarrow> length (filter (\<lambda>e. accepts e = Some i) es) \<le> 1"
proof (induction rule: runs.induct)
  case (more s e s' es s'')
  show ?case
  proof (cases "accepts e = Some i")
    case True
    with more have "spent i s'" "inv s'" using accept inv_step by blast+
    with more(2) have "filter (\<lambda>e. accepts e = Some i) es = []"
      using spent_never_accepted by (simp add: filter_empty_conv)
    with True show ?thesis by simp
  qed (use more inv_step in simp)
qed simp

end

end
