(* ===== verification/Proxy_Token.thy ===== *)
theory Proxy_Token
  imports Py_Text Single_Use
begin

text \<open>
  The tokens with which agents, terminals and web interfaces call the model proxy
  (\<^verbatim>\<open>modules/workspace/api_key_proxy.py\<close>): signed payloads with a record in the table
  \<^verbatim>\<open>proxy_token_jtis\<close> that is revoked, consumed, marked as expired and cleaned up. The signature, the
  hash, Base64, JSON, the printing of instants, the environment, the sessions, the users and the
  instances of the web interface are parameters. The statements on the table succeed; the last
  statement of a validation is separate from the reads before it, so that validations interleave.
\<close>

section \<open>Parameters\<close>

record token_env =
  te_mac :: "string \<Rightarrow> string"
  te_sha :: "string \<Rightarrow> string"
  te_b64e :: "string \<Rightarrow> string"
  te_b64d :: "string \<Rightarrow> string option"
  te_dumps :: "json \<Rightarrow> string"
  te_loads :: "string \<Rightarrow> json option"
  te_isof :: "instant \<Rightarrow> string"
  te_of_iso :: "string \<Rightarrow> instant option"
  te_str :: "json \<Rightarrow> string"
  te_unquote :: "string \<Rightarrow> string"
  te_upper :: "string \<Rightarrow> string"
  te_var :: "string \<Rightarrow> string option"

text \<open>\<open>pw_alive\<close>: whether the instance of a user is alive; \<open>pw_status\<close>: the status of a session;
  \<open>pw_principal\<close>: whether a user is active and deleted, and the deletion and status of the tenant.\<close>

record token_world =
  pw_alive :: "json \<Rightarrow> bool result"
  pw_status :: "string \<Rightarrow> string option result"
  pw_principal :: "json \<Rightarrow> json \<Rightarrow> (bool \<times> bool \<times> bool \<times> string) option result"

definition env_text :: "token_env \<Rightarrow> string \<Rightarrow> string" where
  "env_text e name = (case te_var e name of None \<Rightarrow> [] | Some v \<Rightarrow> py_strip v)"

definition parse_int :: "string \<Rightarrow> int option" where "parse_int s = py_int (py_strip s)"

section \<open>Lifetimes\<close>

definition default_ttl_minutes :: int where "default_ttl_minutes = 240"

definition min_ttl_minutes :: "token_env \<Rightarrow> int" where
  "min_ttl_minutes e = (case parse_int (env_text e ''OPENACE_MIN_PROXY_TOKEN_TTL_MINUTES'') of None \<Rightarrow> 5 | Some n \<Rightarrow> n)"

fun first_ttl :: "token_env \<Rightarrow> int \<Rightarrow> string list \<Rightarrow> int" where
  "first_ttl e least [] = default_ttl_minutes"
| "first_ttl e least (name # names) =
     (case parse_int (env_text e name) of None \<Rightarrow> first_ttl e least names
      | Some n \<Rightarrow> if 0 < n then (if n < least then least else n) else first_ttl e least names)"

definition default_proxy_token_ttl_minutes :: "token_env \<Rightarrow> string \<Rightarrow> int" where
  "default_proxy_token_ttl_minutes e session_type =
     first_ttl e (min_ttl_minutes e)
       [''OPENACE_PROXY_TOKEN_TTL_'' @ te_upper e session_type @ ''_MINUTES'', ''OPENACE_PROXY_TOKEN_TTL_MINUTES'']"

definition clock_skew_seconds :: "token_env \<Rightarrow> string \<Rightarrow> int result" where
  "clock_skew_seconds e session_type =
     (case parse_int (case te_var e ''OPENACE_PROXY_TOKEN_CLOCK_SKEW_DEFAULT_SECONDS'' of None \<Rightarrow> ''30'' | Some v \<Rightarrow> v) of
        None \<Rightarrow> Inl ValueError
      | Some d \<Rightarrow>
          (let own = env_text e (''OPENACE_PROXY_TOKEN_CLOCK_SKEW_'' @ te_upper e session_type @ ''_SECONDS'')
           in if own = [] then Inr d else Inr (case parse_int own of None \<Rightarrow> d | Some n \<Rightarrow> n)))"

definition json_text :: "token_env \<Rightarrow> json \<Rightarrow> string" where
  "json_text e v = (case v of JStr s \<Rightarrow> s | _ \<Rightarrow> te_str e v)"

definition normalize_reuse_mode :: "token_env \<Rightarrow> json \<Rightarrow> string" where
  "normalize_reuse_mode e v =
     (let m = py_lower (py_strip (if truthy v then json_text e v else ''multi_use''))
      in if m = ''multi_use'' \<or> m = ''single_use'' then m else ''multi_use'')"

section \<open>The table\<close>

record jti_row =
  jr_jti :: string
  jr_hash :: string
  jr_user :: json
  jr_session :: json
  jr_tenant :: json
  jr_provider :: json
  jr_session_type :: json
  jr_scope :: json
  jr_reuse :: string
  jr_expires :: instant
  jr_first_used :: "instant option"
  jr_last_used :: "instant option"
  jr_consumed :: "instant option"
  jr_revoked :: "instant option"
  jr_revoke_reason :: "string option"
  jr_uses :: int
  jr_terminated :: "(instant \<times> string) option"

type_synonym jti_table = "jti_row list"

type_synonym payload = "(string \<times> json) list"

definition pl :: "payload \<Rightarrow> string \<Rightarrow> json" where "pl p k = (case map_of p k of None \<Rightarrow> JNull | Some v \<Rightarrow> v)"

definition pl_or :: "payload \<Rightarrow> string \<Rightarrow> json \<Rightarrow> json" where "pl_or p k d = (case map_of p k of None \<Rightarrow> d | Some v \<Rightarrow> v)"

definition record_issue :: "token_env \<Rightarrow> string \<Rightarrow> payload \<Rightarrow> instant \<Rightarrow> string \<Rightarrow> jti_table \<Rightarrow> unit result \<times> jti_table" where
  "record_issue e token p expires mode t =
     (case pl p ''jti'' of
        JStr j \<Rightarrow>
          if list_ex (\<lambda>r. jr_jti r = j \<or> jr_hash r = te_sha e token) t then (Inl DBError, t)
          else (Inr (), t @ [\<lparr>jr_jti = j, jr_hash = te_sha e token, jr_user = pl p ''user_id'', jr_session = pl_or p ''session_id'' (JStr []),
             jr_tenant = pl p ''tenant_id'', jr_provider = pl_or p ''provider'' (JStr []), jr_session_type = pl_or p ''session_type'' (JStr ''agent''),
             jr_scope = pl p ''scope'', jr_reuse = mode, jr_expires = expires, jr_first_used = None, jr_last_used = None, jr_consumed = None,
             jr_revoked = None, jr_revoke_reason = None, jr_uses = 0, jr_terminated = None\<rparr>])
      | _ \<Rightarrow> (Inl DBError, t))"

definition token_record :: "string \<Rightarrow> jti_table \<Rightarrow> jti_row option" where "token_record j t = find (\<lambda>r. jr_jti r = j) t"

definition used_now :: "instant \<Rightarrow> jti_row \<Rightarrow> jti_row" where
  "used_now now r = r\<lparr>jr_first_used := (case jr_first_used r of None \<Rightarrow> Some now | Some f \<Rightarrow> Some f), jr_last_used := Some now, jr_uses := jr_uses r + 1\<rparr>"

definition touch_token_record :: "string \<Rightarrow> instant \<Rightarrow> jti_table \<Rightarrow> jti_table" where
  "touch_token_record j now t = map (\<lambda>r. if jr_jti r = j then used_now now r else r) t"

definition consumable_token :: "string \<Rightarrow> jti_row \<Rightarrow> bool" where
  "consumable_token j r \<longleftrightarrow> jr_jti r = j \<and> jr_revoked r = None \<and> jr_consumed r = None"

definition consume_single_use :: "string \<Rightarrow> instant \<Rightarrow> jti_table \<Rightarrow> bool \<times> jti_table" where
  "consume_single_use j now t =
     (list_ex (consumable_token j) t, map (\<lambda>r. if consumable_token j r then (used_now now r)\<lparr>jr_consumed := Some now\<rparr> else r) t)"

definition revoke_proxy_token_jti :: "string \<Rightarrow> instant \<Rightarrow> jti_table \<Rightarrow> bool \<times> jti_table" where
  "revoke_proxy_token_jti j now t =
     (if j = [] then (False, t) else (True, map (\<lambda>r. if jr_jti r = j then r\<lparr>jr_revoked := Some now\<rparr> else r) t))"

definition revoke_proxy_tokens_for_session :: "string \<Rightarrow> string \<Rightarrow> instant \<Rightarrow> jti_table \<Rightarrow> int \<times> jti_table" where
  "revoke_proxy_tokens_for_session sid reason now t =
     (if sid = [] then (0, t)
      else (let hit = (\<lambda>r. jr_session r = JStr sid \<and> jr_revoked r = None)
            in (int (length (filter hit t)), map (\<lambda>r. if hit r then r\<lparr>jr_revoked := Some now, jr_revoke_reason := Some reason\<rparr> else r) t)))"

definition has_valid_proxy_token :: "string \<Rightarrow> instant \<Rightarrow> jti_table \<Rightarrow> bool" where
  "has_valid_proxy_token sid now t \<longleftrightarrow> sid \<noteq> [] \<and> list_ex (\<lambda>r. jr_session r = JStr sid \<and> jr_revoked r = None \<and> now < jr_expires r) t"

definition mark_single_use_terminated :: "string \<Rightarrow> string \<Rightarrow> instant \<Rightarrow> jti_table \<Rightarrow> jti_table" where
  "mark_single_use_terminated j reason now t =
     map (\<lambda>r. if jr_jti r = j \<and> jr_reuse r = ''single_use'' \<and> jr_terminated r = None \<and> jr_consumed r = None
        then r\<lparr>jr_terminated := Some (now, reason)\<rparr> else r) t"

text \<open>The cleanup deletes at most a thousand rows a time, in the order of the table.\<close>

definition stale_token :: "instant \<Rightarrow> int \<Rightarrow> int \<Rightarrow> jti_row \<Rightarrow> bool" where
  "stale_token now days terminated_days r \<longleftrightarrow>
     jr_expires r < now - seconds 86400 * days \<or>
     (case jr_consumed r of None \<Rightarrow> False | Some c \<Rightarrow> c < now - seconds 86400) \<or>
     (case jr_revoked r of None \<Rightarrow> False | Some c \<Rightarrow> c < now - seconds 86400) \<or>
     (case jr_terminated r of None \<Rightarrow> False | Some c \<Rightarrow> fst c < now - seconds 86400 * terminated_days)"

fun drop_first :: "nat \<Rightarrow> ('a \<Rightarrow> bool) \<Rightarrow> 'a list \<Rightarrow> 'a list" where
  "drop_first n P [] = []"
| "drop_first n P (x # xs) = (if P x \<and> 0 < n then drop_first (n - 1) P xs else x # drop_first n P xs)"

definition cleanup_proxy_token_jtis :: "token_env \<Rightarrow> int \<Rightarrow> instant \<Rightarrow> jti_table \<Rightarrow> int \<times> jti_table" where
  "cleanup_proxy_token_jtis e days now t =
     (case parse_int (case te_var e ''OPENACE_PROXY_TOKEN_CLEANUP_TERMINATED_DAYS'' of None \<Rightarrow> ''7'' | Some v \<Rightarrow> v) of
        None \<Rightarrow> (0, t)
      | Some td \<Rightarrow> (let t' = drop_first 1000 (stale_token now days td) t in (int (length t) - int (length t'), t')))"

section \<open>Issuing\<close>

text \<open>\<open>expires_seconds\<close> must be an integer when it is given. The extra entries overwrite the payload.\<close>

record token_request =
  tr_user :: json
  tr_session :: string
  tr_tenant :: json
  tr_provider :: string
  tr_minutes :: "int option"
  tr_seconds :: "json option"
  tr_session_type :: string
  tr_extra :: payload

definition expiry :: "token_env \<Rightarrow> instant \<Rightarrow> token_request \<Rightarrow> instant result" where
  "expiry e now q =
     (case tr_seconds q of
        Some (JInt n) \<Rightarrow> Inr (now + seconds n)
      | Some _ \<Rightarrow> Inl ValueError
      | None \<Rightarrow> Inr (now + seconds 60 * (case tr_minutes q of Some m \<Rightarrow> m | None \<Rightarrow> default_proxy_token_ttl_minutes e (tr_session_type q))))"

definition requested_mode :: "token_env \<Rightarrow> payload \<Rightarrow> string" where
  "requested_mode e extra = normalize_reuse_mode e
     (pl_or extra ''reuse_mode'' (JStr (if truthy (pl_or extra ''single_use'' (JBool False)) then ''single_use'' else ''multi_use'')))"

definition own_entries :: "payload \<Rightarrow> payload" where
  "own_entries extra = filter (\<lambda>(k, _). k \<noteq> ''reuse_mode'' \<and> k \<noteq> ''single_use'') extra"

definition token_payload :: "token_env \<Rightarrow> string \<Rightarrow> instant \<Rightarrow> token_request \<Rightarrow> payload" where
  "token_payload e jti expires q =
     foldl (\<lambda>d (k, v). AList.update k v d)
       [(''user_id'', tr_user q), (''session_id'', JStr (tr_session q)), (''tenant_id'', tr_tenant q), (''provider'', JStr (tr_provider q)),
        (''session_type'', JStr (tr_session_type q)), (''exp'', JStr (te_isof e expires)), (''jti'', JStr jti),
        (''reuse_mode'', JStr (requested_mode e (tr_extra q)))]
       (own_entries (tr_extra q))"

definition sign_payload :: "token_env \<Rightarrow> payload \<Rightarrow> string" where
  "sign_payload e p = (let b = te_b64e e (te_dumps e (JObj p)) in b @ ''.'' @ te_mac e b)"

definition generate_proxy_token :: "token_env \<Rightarrow> string \<Rightarrow> instant \<Rightarrow> token_request \<Rightarrow> jti_table \<Rightarrow> string result \<times> jti_table" where
  "generate_proxy_token e jti now q t =
     (case expiry e now q of
        Inl x \<Rightarrow> (Inl x, t)
      | Inr expires \<Rightarrow>
          (let p = token_payload e jti expires q; token = sign_payload e p;
               (r, t') = record_issue e token p expires (requested_mode e (tr_extra q)) t
           in (rbind r (\<lambda>_. Inr token), t')))"

section \<open>Validation\<close>

definition decode_proxy_token :: "token_env \<Rightarrow> string \<Rightarrow> payload option" where
  "decode_proxy_token e token =
     (case split_char CHR ''.'' token of
        [b, signature] \<Rightarrow>
          if signature \<noteq> te_mac e b then None
          else (case Option.bind (te_b64d e b) (te_loads e) of Some (JObj p) \<Rightarrow> Some p | _ \<Rightarrow> None)
      | _ \<Rightarrow> None)"

text \<open>A session that is not a string raises; a false one is no session.\<close>

definition session_of :: "payload \<Rightarrow> string result" where
  "session_of p = (case pl p ''session_id'' of JStr s \<Rightarrow> Inr s | v \<Rightarrow> if truthy v then Inl TypeError else Inr [])"

definition webui_session :: "string \<Rightarrow> json \<Rightarrow> bool" where
  "webui_session sid user \<longleftrightarrow> sid \<noteq> [] \<and> py_startswith sid ''webui:'' \<and> truthy user"

definition webui_instance_alive :: "token_world \<Rightarrow> string \<Rightarrow> json \<Rightarrow> bool result" where
  "webui_instance_alive w sid user = (if webui_session sid user then pw_alive w user else Inr False)"

definition session_allows_proxy_token ::
    "token_env \<Rightarrow> token_world \<Rightarrow> string \<Rightarrow> string \<Rightarrow> json \<Rightarrow> instant \<Rightarrow> instant \<Rightarrow> bool result" where
  "session_allows_proxy_token e w sid session_type user now expires =
     (if webui_session sid user then webui_instance_alive w sid user
      else rbind (clock_skew_seconds e session_type) (\<lambda>skew.
        if expires + seconds skew < now then Inr False
        else if sid = [] \<or> session_type = ''ha_pool'' then Inr True
        else case pw_status w sid of
            Inl _ \<Rightarrow> Inr False
          | Inr None \<Rightarrow> Inr (session_type \<notin> {''agent'', ''terminal'', ''workflow'', ''external''})
          | Inr (Some status) \<Rightarrow> Inr (status = ''active'' \<or> status = ''paused'')))"

definition external_principal_alive :: "token_world \<Rightarrow> json \<Rightarrow> json \<Rightarrow> bool" where
  "external_principal_alive w user tenant \<longleftrightarrow> user \<noteq> JNull \<and> tenant \<noteq> JNull \<and>
     (case pw_principal w user tenant of
        Inr (Some (active, user_deleted, tenant_deleted, tenant_status)) \<Rightarrow>
          active \<and> \<not> user_deleted \<and> \<not> tenant_deleted \<and> (tenant_status = ''active'' \<or> tenant_status = ''trial'')
      | _ \<Rightarrow> False)"

text \<open>Everything before the last statement: what it found, and whether an expired single-use token is to
  be marked. An exception is a refusal.\<close>

record ready_token =
  rt_jti :: string
  rt_payload :: payload
  rt_single :: bool

datatype check_outcome = Refused | Expired_Single string | Ready ready_token

definition token_jti :: "token_env \<Rightarrow> payload \<Rightarrow> string" where
  "token_jti e p = py_strip (if truthy (pl p ''jti'') then json_text e (pl p ''jti'') else [])"

definition token_session_type :: "token_env \<Rightarrow> payload \<Rightarrow> string" where
  "token_session_type e p = json_text e (pl_or p ''session_type'' (JStr ''agent''))"

definition single_use_row :: "token_env \<Rightarrow> jti_row \<Rightarrow> bool" where
  "single_use_row e r \<longleftrightarrow> normalize_reuse_mode e (JStr (jr_reuse r)) = ''single_use''"

definition check_record :: "token_env \<Rightarrow> token_world \<Rightarrow> instant \<Rightarrow> string \<Rightarrow> payload \<Rightarrow> jti_row \<Rightarrow> check_outcome result" where
  "check_record e w now j p r =
     (case map_of p ''exp'' of None \<Rightarrow> Inl KeyError
      | Some v \<Rightarrow>
         (case te_of_iso e (json_text e v) of None \<Rightarrow> Inl ValueError
          | Some expires \<Rightarrow>
              rbind (session_of p) (\<lambda>sid.
              rbind (clock_skew_seconds e (token_session_type e p)) (\<lambda>skew.
              rbind (if jr_expires r + seconds skew < now then rbind (webui_instance_alive w sid (pl p ''user_id'')) (\<lambda>a. Inr (\<not> a)) else Inr False)
                (\<lambda>expired.
              if expired then Inr (if single_use_row e r then Expired_Single j else Refused)
              else rbind (session_allows_proxy_token e w sid (token_session_type e p) (pl p ''user_id'') now expires) (\<lambda>allowed.
                if \<not> allowed then Inr Refused
                else if token_session_type e p = ''external'' \<and> \<not> external_principal_alive w (pl p ''user_id'') (pl p ''tenant_id'') then Inr Refused
                else if \<not> single_use_row e r \<and> jr_consumed r \<noteq> None then Inr Refused
                else Inr (Ready \<lparr>rt_jti = j, rt_payload = p, rt_single = single_use_row e r\<rparr>)))))))"

definition check_token :: "token_env \<Rightarrow> token_world \<Rightarrow> instant \<Rightarrow> string \<Rightarrow> jti_table \<Rightarrow> check_outcome" where
  "check_token e w now token t =
     (let token' = (if token = [] then [] else te_unquote e token) in
      case decode_proxy_token e token' of
        None \<Rightarrow> Refused
      | Some p \<Rightarrow>
          if p = [] \<or> token_jti e p = [] then Refused
          else (case token_record (token_jti e p) t of
              None \<Rightarrow> Refused
            | Some r \<Rightarrow>
                if jr_hash r \<noteq> te_sha e token' \<or> jr_revoked r \<noteq> None then Refused
                else (case check_record e w now (token_jti e p) p r of Inl _ \<Rightarrow> Refused | Inr c \<Rightarrow> c)))"

definition finish_token :: "instant \<Rightarrow> ready_token \<Rightarrow> jti_table \<Rightarrow> payload option \<times> jti_table" where
  "finish_token now q t =
     (if rt_single q then (let (ok, t') = consume_single_use (rt_jti q) now t in (if ok then Some (rt_payload q) else None, t'))
      else (Some (rt_payload q), touch_token_record (rt_jti q) now t))"

definition validate_proxy_token :: "token_env \<Rightarrow> token_world \<Rightarrow> instant \<Rightarrow> string \<Rightarrow> jti_table \<Rightarrow> payload option \<times> jti_table" where
  "validate_proxy_token e w now token t =
     (case check_token e w now token t of
        Refused \<Rightarrow> (None, t)
      | Expired_Single j \<Rightarrow> (None, mark_single_use_terminated j ''expired'' now t)
      | Ready q \<Rightarrow> finish_token now q t)"

section \<open>Interleaved validations\<close>

text \<open>The validations under way, the tokens ever issued, and the steps: issuing a token with a fresh
  identifier, the reads of a validation, its last statement, revoking, marking and cleaning up. An
  event is the acceptance of a token, with whether it was a single-use token.\<close>

record token_state =
  ts_table :: jti_table
  ts_issued :: "string set"
  ts_pending :: "nat \<Rightarrow> ready_token option"

type_synonym token_event = "(string \<times> bool) option"

definition accepted_event :: "ready_token \<Rightarrow> payload option \<Rightarrow> token_event" where
  "accepted_event q r = (if r = None then None else Some (rt_jti q, rt_single q))"

inductive token_step :: "token_env \<Rightarrow> token_state \<Rightarrow> token_event \<Rightarrow> token_state \<Rightarrow> bool" for e where
  issue: "jti \<notin> ts_issued s \<Longrightarrow> generate_proxy_token e jti now q (ts_table s) = (r, t') \<Longrightarrow>
     pl (token_payload e jti expires q) ''jti'' = JStr jti \<Longrightarrow> expiry e now q = Inr expires \<Longrightarrow>
     token_step e s None (s\<lparr>ts_table := t', ts_issued := insert jti (ts_issued s)\<rparr>)"
| begin_check: "ts_pending s c = None \<Longrightarrow> check_token e w now token (ts_table s) = Ready q \<Longrightarrow>
     token_step e s None (s\<lparr>ts_pending := (ts_pending s)(c \<mapsto> q)\<rparr>)"
| expire: "check_token e w now token (ts_table s) = Expired_Single j \<Longrightarrow>
     token_step e s None (s\<lparr>ts_table := mark_single_use_terminated j ''expired'' now (ts_table s)\<rparr>)"
| finish: "ts_pending s c = Some q \<Longrightarrow> finish_token now q (ts_table s) = (r, t') \<Longrightarrow>
     token_step e s (accepted_event q r) (s\<lparr>ts_table := t', ts_pending := (ts_pending s)(c := None)\<rparr>)"
| revoke_jti: "token_step e s None (s\<lparr>ts_table := snd (revoke_proxy_token_jti j now (ts_table s))\<rparr>)"
| revoke_session: "token_step e s None (s\<lparr>ts_table := snd (revoke_proxy_tokens_for_session sid reason now (ts_table s))\<rparr>)"
| cleanup: "token_step e s None (s\<lparr>ts_table := snd (cleanup_proxy_token_jtis e days now (ts_table s))\<rparr>)"

definition no_tokens :: token_state where "no_tokens = \<lparr>ts_table = [], ts_issued = {}, ts_pending = (\<lambda>_. None)\<rparr>"

definition token_inv :: "token_state \<Rightarrow> bool" where
  "token_inv s \<longleftrightarrow> distinct (map jr_jti (ts_table s)) \<and> jr_jti ` set (ts_table s) \<subseteq> ts_issued s \<and>
     (\<forall>c q. ts_pending s c = Some q \<longrightarrow> rt_jti q \<in> ts_issued s)"

definition spent_token :: "string \<Rightarrow> token_state \<Rightarrow> bool" where
  "spent_token j s \<longleftrightarrow> j \<in> ts_issued s \<and> (\<forall>r\<in>set (ts_table s). jr_jti r = j \<longrightarrow> jr_consumed r \<noteq> None)"

definition spends :: "token_event \<Rightarrow> string option" where
  "spends ev = (case ev of Some (j, True) \<Rightarrow> Some j | _ \<Rightarrow> None)"

text \<open>Every statement but the insertion maps the rows or deletes some; none changes an identifier or
  takes a consumption back.\<close>

definition keeps_rows :: "jti_table \<Rightarrow> jti_table \<Rightarrow> bool" where
  "keeps_rows t t' \<longleftrightarrow> (\<exists>xs f. set xs \<subseteq> set t \<and> (distinct (map jr_jti t) \<longrightarrow> distinct (map jr_jti xs)) \<and> t' = map f xs \<and>
     (\<forall>r. jr_jti (f r) = jr_jti r \<and> (jr_consumed r \<noteq> None \<longrightarrow> jr_consumed (f r) \<noteq> None)))"

lemma keeps_rows_map [intro]:
  "(\<And>r. jr_jti (f r) = jr_jti r \<and> (jr_consumed r \<noteq> None \<longrightarrow> jr_consumed (f r) \<noteq> None)) \<Longrightarrow> keeps_rows t (map f t)"
  unfolding keeps_rows_def by blast

lemma keeps_rows_refl [intro]: "keeps_rows t t"
  using keeps_rows_map [of "\<lambda>r. r" t] by simp

lemma drop_first_subset: "set (drop_first n P xs) \<subseteq> set xs"
  by (induction n P xs rule: drop_first.induct) auto

lemma drop_first_distinct: "distinct (map f xs) \<Longrightarrow> distinct (map f (drop_first n P xs))"
proof (induction n P xs rule: drop_first.induct)
  case (2 n P x xs)
  then show ?case using drop_first_subset [of n P xs] by auto
qed simp

lemma keeps_rows_drop: "keeps_rows t (drop_first n P t)"
  unfolding keeps_rows_def
  by (rule exI [of _ "drop_first n P t"], rule exI [of _ "\<lambda>r. r"]) (auto simp: drop_first_subset drop_first_distinct)

lemma keeps_rows_operations:
  "keeps_rows t (touch_token_record j now t)" "keeps_rows t (snd (consume_single_use j now t))"
  "keeps_rows t (snd (revoke_proxy_token_jti j now t))" "keeps_rows t (snd (revoke_proxy_tokens_for_session sid reason now t))"
  "keeps_rows t (mark_single_use_terminated j reason now t)" "keeps_rows t (snd (cleanup_proxy_token_jtis e days now t))"
  by (auto simp: touch_token_record_def consume_single_use_def revoke_proxy_token_jti_def revoke_proxy_tokens_for_session_def
      mark_single_use_terminated_def cleanup_proxy_token_jtis_def used_now_def Let_def keeps_rows_drop split: option.splits)

lemma keeps_rows_finish: "keeps_rows t (snd (finish_token now q t))"
  using keeps_rows_operations(1,2) by (auto simp: finish_token_def split: prod.splits) (metis snd_conv)

lemma keeps_rows_inv:
  assumes "keeps_rows (ts_table s) t'" and "token_inv s"
  shows "token_inv (s\<lparr>ts_table := t'\<rparr>)" and "spent_token j s \<Longrightarrow> spent_token j (s\<lparr>ts_table := t'\<rparr>)"
  using assms unfolding keeps_rows_def token_inv_def spent_token_def by (force simp: comp_def)+

lemma token_recordD: "token_record j t = Some r \<Longrightarrow> r \<in> set t \<and> jr_jti r = j"
  unfolding token_record_def by (auto simp: find_Some_iff)

lemma check_ready_issued:
  assumes "check_token e w now token t = Ready q"
  shows "rt_jti q \<in> jr_jti ` set t"
proof -
  have "\<exists>r. token_record (rt_jti q) t = Some r"
    using assms unfolding check_token_def check_record_def Let_def
    by (auto split: option.splits if_splits sum.splits)
  then show ?thesis using token_recordD by (metis image_eqI)
qed

lemma record_issue_table:
  "record_issue e token p x m t = (r, t') \<Longrightarrow> pl p ''jti'' = JStr j \<Longrightarrow>
   t' = t \<or> (\<exists>n. t' = t @ [n] \<and> jr_jti n = j \<and> jr_consumed n = None)"
  unfolding record_issue_def by (auto split: if_splits)

lemma generate_table:
  assumes "generate_proxy_token e jti now q t = (r, t')" and "expiry e now q = Inr x"
    and "pl (token_payload e jti x q) ''jti'' = JStr jti"
  shows "t' = t \<or> (\<exists>n. t' = t @ [n] \<and> jr_jti n = jti \<and> jr_consumed n = None)"
  using assms record_issue_table unfolding generate_proxy_token_def Let_def
  by (auto split: prod.splits)

lemma token_inv_issue:
  assumes "token_inv s" and "jti \<notin> ts_issued s" and "t' = ts_table s \<or> (\<exists>n. t' = ts_table s @ [n] \<and> jr_jti n = jti \<and> jr_consumed n = None)"
  shows "token_inv (s\<lparr>ts_table := t', ts_issued := insert jti (ts_issued s)\<rparr>)"
    and "spent_token j s \<Longrightarrow> spent_token j (s\<lparr>ts_table := t', ts_issued := insert jti (ts_issued s)\<rparr>)"
  using assms unfolding token_inv_def spent_token_def by (auto 0 3 simp: image_iff subset_iff)

lemma token_inv_pending:
  "token_inv s \<Longrightarrow> rt_jti q \<in> ts_issued s \<Longrightarrow> token_inv (s\<lparr>ts_pending := (ts_pending s)(c \<mapsto> q)\<rparr>)"
  "token_inv s \<Longrightarrow> token_inv (s\<lparr>ts_pending := (ts_pending s)(c := None)\<rparr>)"
  unfolding token_inv_def by auto

lemma spent_token_pending [simp]:
  "spent_token j (s\<lparr>ts_pending := p\<rparr>) = spent_token j s" "spent_token j (s\<lparr>ts_table := t, ts_pending := p\<rparr>) = spent_token j (s\<lparr>ts_table := t\<rparr>)"
  by (simp_all add: spent_token_def)

lemma token_step_keeps:
  assumes "token_step e s ev s'" and "token_inv s"
  shows "token_inv s' \<and> (spent_token j s \<longrightarrow> spent_token j s')"
  using assms
proof (cases rule: token_step.cases)
  case (issue jti now q r t' x)
  then show ?thesis using token_inv_issue generate_table assms(2) by metis
next
  case (begin_check c w now token q)
  with check_ready_issued [OF begin_check(4)] assms(2) have "rt_jti q \<in> ts_issued s"
    by (auto simp: token_inv_def)
  then show ?thesis using begin_check assms(2) token_inv_pending(1) by simp
next
  case (finish c q now r t')
  have "keeps_rows (ts_table s) t'" using keeps_rows_finish finish by (metis snd_conv)
  from keeps_rows_inv [OF this assms(2)] show ?thesis
    using finish token_inv_pending(2) [of "s\<lparr>ts_table := t'\<rparr>" c] by simp
qed (use keeps_rows_inv keeps_rows_operations assms(2) in metis)+

lemma consume_once:
  assumes "distinct (map jr_jti t)" and "consume_single_use j now t = (True, t')"
  shows "\<exists>r\<in>set t. jr_jti r = j \<and> jr_consumed r = None" and "\<forall>r\<in>set t'. jr_jti r = j \<longrightarrow> jr_consumed r \<noteq> None"
proof -
  obtain r where r: "r \<in> set t" "consumable_token j r" using assms(2) by (auto simp: consume_single_use_def list_ex_iff)
  then show "\<exists>r\<in>set t. jr_jti r = j \<and> jr_consumed r = None" by (auto simp: consumable_token_def)
  have "r' = r" if "r' \<in> set t" "jr_jti r' = j" for r'
    using that r assms(1) by (auto simp: consumable_token_def distinct_map inj_on_def)
  then show "\<forall>r\<in>set t'. jr_jti r = j \<longrightarrow> jr_consumed r \<noteq> None"
    using assms(2) r(2) by (auto simp: consume_single_use_def used_now_def)
qed

lemma token_step_spends:
  assumes "token_step e s ev s'" and "token_inv s" and "spends ev = Some j"
  shows "\<not> spent_token j s \<and> spent_token j s'"
  using assms
proof (cases rule: token_step.cases)
  case (finish c q now r t')
  then have q: "rt_single q" "rt_jti q = j" "r \<noteq> None"
    using assms(3) by (auto simp: spends_def accepted_event_def split: if_splits bool.splits)
  have c: "consume_single_use j now (ts_table s) = (True, t')"
    using finish(4) q by (auto simp: finish_token_def split: prod.splits if_splits)
  have d: "distinct (map jr_jti (ts_table s))" and i: "j \<in> ts_issued s" using assms(2) finish q by (auto simp: token_inv_def)
  show ?thesis using consume_once [OF d c] i finish by (auto simp: spent_token_def)
qed (simp_all add: spends_def)

interpretation tokens: single_use "token_step e" token_inv spent_token spends
  by unfold_locales (use token_step_keeps token_step_spends in blast)+

section \<open>What an accepted token shows\<close>

lemma split_char_not_Nil [simp]: "split_char d s \<noteq> []"
  by (induction s) (auto split: list.splits)

lemma split_char_one: "split_char d s = [a] \<Longrightarrow> s = a"
  by (induction s arbitrary: a) (auto split: if_splits list.splits)

lemma split_char_two: "split_char d s = [a, b] \<Longrightarrow> s = a @ d # b"
  by (induction s arbitrary: a) (auto split: if_splits list.splits dest: split_char_one)

lemma split_char_pair: "d \<notin> set a \<Longrightarrow> d \<notin> set b \<Longrightarrow> split_char d (a @ d # b) = [a, b]"
  by (simp add: split_char_plain split_char_cons)

definition plain_token :: "token_env \<Rightarrow> string \<Rightarrow> string" where
  "plain_token e token = (if token = [] then [] else te_unquote e token)"

lemma decode_signed:
  assumes "decode_proxy_token e token = Some p"
  shows "\<exists>b. token = b @ ''.'' @ te_mac e b \<and> Option.bind (te_b64d e b) (te_loads e) = Some (JObj p)"
proof -
  obtain b s where "split_char CHR ''.'' token = [b, s]" "s = te_mac e b" "Option.bind (te_b64d e b) (te_loads e) = Some (JObj p)"
    using assms unfolding decode_proxy_token_def
    by (auto split: list.splits if_splits option.splits json.splits)
  then show ?thesis using split_char_two by fastforce
qed

definition row_open :: "token_env \<Rightarrow> token_world \<Rightarrow> instant \<Rightarrow> payload \<Rightarrow> jti_row \<Rightarrow> bool" where
  "row_open e w now p r \<longleftrightarrow> (\<exists>sid x skew. session_of p = Inr sid \<and>
     Option.bind (map_of p ''exp'') (\<lambda>v. te_of_iso e (json_text e v)) = Some x \<and>
     clock_skew_seconds e (token_session_type e p) = Inr skew \<and>
     (if webui_session sid (pl p ''user_id'') then pw_alive w (pl p ''user_id'') = Inr True
      else now \<le> jr_expires r + seconds skew \<and> now \<le> x + seconds skew \<and>
        (sid = [] \<or> token_session_type e p = ''ha_pool'' \<or>
         (case pw_status w sid of Inr (Some status) \<Rightarrow> status \<in> {''active'', ''paused''}
          | Inr None \<Rightarrow> token_session_type e p \<notin> {''agent'', ''terminal'', ''workflow'', ''external''} | Inl _ \<Rightarrow> False))))"

lemma session_allows_iff:
  "session_allows_proxy_token e w sid ty user now x = Inr True \<longleftrightarrow>
     (if webui_session sid user then pw_alive w user = Inr True
      else (\<exists>skew. clock_skew_seconds e ty = Inr skew \<and> now \<le> x + seconds skew) \<and>
        (sid = [] \<or> ty = ''ha_pool'' \<or>
         (case pw_status w sid of Inr (Some status) \<Rightarrow> status \<in> {''active'', ''paused''}
          | Inr None \<Rightarrow> ty \<notin> {''agent'', ''terminal'', ''workflow'', ''external''} | Inl _ \<Rightarrow> False)))"
  unfolding session_allows_proxy_token_def webui_instance_alive_def
  by (cases "clock_skew_seconds e ty") (auto simp: not_less split: sum.splits option.splits)

lemma check_record_ready:
  assumes "check_record e w now j p r = Inr (Ready q)"
  shows "q = \<lparr>rt_jti = j, rt_payload = p, rt_single = single_use_row e r\<rparr>" and "row_open e w now p r"
    and "token_session_type e p = ''external'' \<Longrightarrow> external_principal_alive w (pl p ''user_id'') (pl p ''tenant_id'')"
    and "\<not> single_use_row e r \<Longrightarrow> jr_consumed r = None"
proof -
  obtain v x sid skew where f: "map_of p ''exp'' = Some v" "te_of_iso e (json_text e v) = Some x" "session_of p = Inr sid"
    "clock_skew_seconds e (token_session_type e p) = Inr skew"
    "jr_expires r + seconds skew < now \<Longrightarrow> webui_instance_alive w sid (pl p ''user_id'') = Inr True"
    "session_allows_proxy_token e w sid (token_session_type e p) (pl p ''user_id'') now x = Inr True"
    "\<not> (token_session_type e p = ''external'' \<and> \<not> external_principal_alive w (pl p ''user_id'') (pl p ''tenant_id''))"
    "\<not> (\<not> single_use_row e r \<and> jr_consumed r \<noteq> None)" "q = \<lparr>rt_jti = j, rt_payload = p, rt_single = single_use_row e r\<rparr>"
    using assms unfolding check_record_def by (auto split: option.splits if_splits)
  from f(5) have "webui_session sid (pl p ''user_id'') \<or> now \<le> jr_expires r + seconds skew"
    by (cases "webui_session sid (pl p ''user_id'')"; cases "jr_expires r + seconds skew < now") (simp_all add: webui_instance_alive_def)
  with f(1-4) f(6) [unfolded session_allows_iff] show "row_open e w now p r"
    unfolding row_open_def by (auto split: if_splits)
qed (use assms in \<open>auto simp: check_record_def split: option.splits if_splits\<close>)

lemma check_token_ready:
  assumes "check_token e w now token t = Ready q"
  shows "decode_proxy_token e (plain_token e token) = Some (rt_payload q)" and "rt_jti q = token_jti e (rt_payload q)"
    and "\<exists>r. token_record (rt_jti q) t = Some r \<and> jr_hash r = te_sha e (plain_token e token) \<and> jr_revoked r = None \<and>
       check_record e w now (rt_jti q) (rt_payload q) r = Inr (Ready q)"
proof -
  obtain p r where f: "decode_proxy_token e (plain_token e token) = Some p" "token_record (token_jti e p) t = Some r"
    "jr_hash r = te_sha e (plain_token e token)" "jr_revoked r = None" "check_record e w now (token_jti e p) p r = Inr (Ready q)"
    using assms unfolding check_token_def plain_token_def [symmetric] Let_def
    by (auto split: option.splits if_splits sum.splits)
  then have "rt_jti q = token_jti e p" "rt_payload q = p" using check_record_ready(1) by fastforce+
  with f show "decode_proxy_token e (plain_token e token) = Some (rt_payload q)" "rt_jti q = token_jti e (rt_payload q)"
    "\<exists>r. token_record (rt_jti q) t = Some r \<and> jr_hash r = te_sha e (plain_token e token) \<and> jr_revoked r = None \<and>
       check_record e w now (rt_jti q) (rt_payload q) r = Inr (Ready q)" by simp_all
qed

lemma validate_Some:
  "validate_proxy_token e w now token t = (Some p, t') \<Longrightarrow> \<exists>q. check_token e w now token t = Ready q \<and> finish_token now q t = (Some p, t')"
  unfolding validate_proxy_token_def by (auto split: check_outcome.splits)

lemma finish_Some:
  assumes "finish_token now q t = (Some p, t')"
  shows "rt_payload q = p" and "rt_single q \<Longrightarrow> \<exists>r\<in>set t. consumable_token (rt_jti q) r"
  using assms unfolding finish_token_def by (auto simp: consume_single_use_def list_ex_iff split: if_splits)

text \<open>C11: A validation that accepts a token has checked everything: the signature over the payload is the
  server's, the table has the record of its identifier with the hash of the token, neither revoked nor
  consumed, the lifetime or the instance of the web interface is open and the session is active or
  paused, and the principal of an external token is active.\<close>

theorem accepted_token_justified:
  assumes "validate_proxy_token e w now token t = (Some p, t')" and "distinct (map jr_jti t)"
  shows "\<exists>b r. plain_token e token = b @ ''.'' @ te_mac e b \<and> Option.bind (te_b64d e b) (te_loads e) = Some (JObj p) \<and>
    r \<in> set t \<and> jr_jti r = token_jti e p \<and> jr_hash r = te_sha e (plain_token e token) \<and> jr_revoked r = None \<and> jr_consumed r = None \<and>
    row_open e w now p r \<and>
    (token_session_type e p = ''external'' \<longrightarrow> external_principal_alive w (pl p ''user_id'') (pl p ''tenant_id''))"
proof -
  obtain q where q: "check_token e w now token t = Ready q" "finish_token now q t = (Some p, t')"
    using validate_Some [OF assms(1)] by blast
  note c = check_token_ready [OF q(1), unfolded finish_Some(1) [OF q(2)]]
  then obtain r where r: "token_record (rt_jti q) t = Some r" "jr_hash r = te_sha e (plain_token e token)" "jr_revoked r = None"
    "check_record e w now (rt_jti q) p r = Inr (Ready q)" by blast
  note d = token_recordD [OF r(1)]
  have "jr_consumed r = None"
  proof (cases "rt_single q")
    case True
    then obtain r' where "r' \<in> set t" "jr_jti r' = rt_jti q" "jr_consumed r' = None"
      using finish_Some(2) [OF q(2)] by (auto simp: consumable_token_def)
    then show ?thesis using d assms(2) by (metis distinct_map inj_on_def)
  next
    case False
    then show ?thesis using check_record_ready(1,4) [OF r(4)] by (metis ready_token.select_convs(3))
  qed
  then show ?thesis using decode_signed [OF c(1)] c(2) d r(2,3) check_record_ready(2,3) [OF r(4)] by metis
qed

text \<open>C9: Whatever the order in which tokens are issued, validated by any number of workers at once,
  revoked, marked as expired and cleaned up, a single-use token is accepted at most once.\<close>

theorem single_use_once:
  assumes "runs (token_step e) no_tokens events s"
  shows "length (filter (\<lambda>ev. spends ev = Some j) events) \<le> 1"
proof -
  have "token_inv no_tokens" by (simp add: token_inv_def no_tokens_def)
  then show ?thesis by (rule tokens.accepted_once [OF assms])
qed

text \<open>A token whose record has been revoked by its identifier is refused from then on, and so is
  every token of a session whose tokens have been revoked, if it was not revoked before (and then it is
  refused anyway).\<close>

theorem revoked_tokens_refused:
  assumes "token_record (token_jti e p) t = Some r" and "sid \<noteq> []"
  shows "jr_jti r = j \<Longrightarrow> j \<noteq> [] \<Longrightarrow> fst (validate_proxy_token e w now token (snd (revoke_proxy_token_jti j now0 t))) \<noteq> Some p"
    and "jr_session r = JStr sid \<Longrightarrow>
      fst (validate_proxy_token e w now token (snd (revoke_proxy_tokens_for_session sid reason now0 t))) \<noteq> Some p"
proof -
  have no: "fst (validate_proxy_token e w now token t') \<noteq> Some p" if "\<forall>r'. token_record (token_jti e p) t' = Some r' \<longrightarrow> jr_revoked r' \<noteq> None" for t'
  proof
    assume "fst (validate_proxy_token e w now token t') = Some p"
    then obtain t'' where "validate_proxy_token e w now token t' = (Some p, t'')" by (cases "validate_proxy_token e w now token t'") auto
    then obtain q where q: "check_token e w now token t' = Ready q" "rt_payload q = p" using validate_Some finish_Some(1) by metis
    show False using check_token_ready(2,3) [OF q(1)] q(2) that by auto
  qed
  show "jr_jti r = j \<Longrightarrow> j \<noteq> [] \<Longrightarrow> fst (validate_proxy_token e w now token (snd (revoke_proxy_token_jti j now0 t))) \<noteq> Some p"
    by (rule no) (use assms(1) in \<open>auto simp: token_record_def revoke_proxy_token_jti_def find_map_keep\<close>)
  show "jr_session r = JStr sid \<Longrightarrow>
      fst (validate_proxy_token e w now token (snd (revoke_proxy_tokens_for_session sid reason now0 t))) \<noteq> Some p"
    by (rule no) (use assms in \<open>auto simp: token_record_def revoke_proxy_tokens_for_session_def find_map_keep Let_def\<close>)
qed

text \<open>A revocation that falls between the reads of a validation and its last statement stops a
  single-use token, whose last statement asks again, but not a multi-use token, whose last statement
  only counts the use.\<close>

theorem revocation_between_reads:
  assumes "check_token e w now token t = Ready q" and "rt_jti q \<noteq> []"
  shows "fst (finish_token now' q (snd (revoke_proxy_token_jti (rt_jti q) now0 t))) = (if rt_single q then None else Some (rt_payload q))"
  using assms(2) by (auto simp: finish_token_def consume_single_use_def revoke_proxy_token_jti_def list_ex_iff consumable_token_def)

lemma check_record_bad_skew:
  "clock_skew_seconds e (token_session_type e p) = Inl x \<Longrightarrow> check_record e w now j p r \<noteq> Inr c"
  unfolding check_record_def by (cases "session_of p") (auto split: option.splits)

text \<open>A clock tolerance that is not an integer in the environment refuses every token of every kind:
  the conversion raises, and the validation answers an exception with a refusal.\<close>

theorem bad_skew_refuses_all:
  assumes "te_var e ''OPENACE_PROXY_TOKEN_CLOCK_SKEW_DEFAULT_SECONDS'' = Some v" and "parse_int v = None"
  shows "validate_proxy_token e w now token t = (None, t)"
proof -
  have "clock_skew_seconds e ty = Inl ValueError" for ty using assms by (simp add: clock_skew_seconds_def)
  note r = check_record_bad_skew [OF this]
  have "check_token e w now token t = Refused"
  proof (cases "decode_proxy_token e (plain_token e token)")
    case (Some p)
    then show ?thesis using r [of w now "token_jti e p" p]
      by (auto simp: check_token_def plain_token_def [symmetric] Let_def split: option.splits sum.splits)
  qed (simp add: check_token_def plain_token_def [symmetric])
  then show ?thesis by (simp add: validate_proxy_token_def)
qed

lemma first_ttl_cases: "(0 < first_ttl e least names \<and> least \<le> first_ttl e least names) \<or> first_ttl e least names = default_ttl_minutes"
  by (induction names) (auto split: option.splits)

text \<open>The default lifetime is always positive, whatever the environment says, and it is at least the
  minimum when an override is used; the built-in default is not compared with the minimum.\<close>

theorem default_ttl_positive:
  "0 < default_proxy_token_ttl_minutes e ty \<and>
   (min_ttl_minutes e \<le> default_proxy_token_ttl_minutes e ty \<or> default_proxy_token_ttl_minutes e ty = 240)"
  using first_ttl_cases unfolding default_proxy_token_ttl_minutes_def by (metis default_ttl_minutes_def zero_less_numeral)

lemma consumed_refused:
  assumes "\<forall>r\<in>set t. jr_jti r = token_jti e p \<longrightarrow> jr_consumed r \<noteq> None"
  shows "fst (validate_proxy_token e w now token t) \<noteq> Some p"
proof
  assume "fst (validate_proxy_token e w now token t) = Some p"
  then obtain q t' where q: "check_token e w now token t = Ready q" "finish_token now q t = (Some p, t')"
    using validate_Some by (metis prod.collapse)
  have j: "rt_jti q = token_jti e p" using check_token_ready(2) [OF q(1)] finish_Some(1) [OF q(2)] by simp
  obtain r where r: "token_record (rt_jti q) t = Some r" "check_record e w now (rt_jti q) (rt_payload q) r = Inr (Ready q)"
    using check_token_ready(3) [OF q(1)] by blast
  have s: "rt_single q"
    using check_record_ready(1,4) [OF r(2)] assms token_recordD [OF r(1)] j by (metis ready_token.select_convs(3))
  show False using finish_Some(2) [OF q(2) s] assms j by (auto simp: consumable_token_def)
qed

text \<open>The check for a valid token of a session also counts single-use tokens that have been consumed,
  which no validation accepts any more.\<close>

theorem consumed_counts_as_valid:
  assumes "r \<in> set t" and "jr_session r = JStr sid" and "sid \<noteq> []" and "jr_revoked r = None" and "now < jr_expires r"
    and "jr_consumed r \<noteq> None" and "distinct (map jr_jti t)" and "token_jti e p = jr_jti r"
  shows "has_valid_proxy_token sid now t \<and> fst (validate_proxy_token e w now' token t) \<noteq> Some p"
proof
  show "has_valid_proxy_token sid now t" using assms(1-5) unfolding has_valid_proxy_token_def list_ex_iff by blast
  have "x = r" if "x \<in> set t" "jr_jti x = token_jti e p" for x
    using that assms(1,7,8) by (auto simp: distinct_map inj_on_def)
  then show "fst (validate_proxy_token e w now' token t) \<noteq> Some p" using consumed_refused assms(6) by blast
qed

section \<open>Issued tokens are accepted\<close>

lemma map_of_foldl_update:
  "k \<notin> fst ` set xs \<Longrightarrow> map_of (foldl (\<lambda>d (k, v). AList.update k v d) d xs) k = map_of d k"
  by (induction xs arbitrary: d) (auto simp: update_conv')

definition reserved_keys :: "string list" where
  "reserved_keys = [''user_id'', ''session_id'', ''tenant_id'', ''provider'', ''session_type'', ''exp'', ''jti'', ''reuse_mode'']"

lemma token_payload_entries:
  assumes "\<forall>k\<in>set reserved_keys. k \<notin> fst ` set (tr_extra q)"
  shows "map_of (token_payload e jti x q) ''user_id'' = Some (tr_user q)" "map_of (token_payload e jti x q) ''session_id'' = Some (JStr (tr_session q))"
    "map_of (token_payload e jti x q) ''tenant_id'' = Some (tr_tenant q)" "map_of (token_payload e jti x q) ''session_type'' = Some (JStr (tr_session_type q))"
    "map_of (token_payload e jti x q) ''exp'' = Some (JStr (te_isof e x))" "map_of (token_payload e jti x q) ''jti'' = Some (JStr jti)"
proof -
  have "k \<notin> fst ` set (own_entries (tr_extra q))" if "k \<in> set reserved_keys" for k
    using assms that by (force simp: own_entries_def)
  note f = map_of_foldl_update [OF this, unfolded reserved_keys_def]
  show "map_of (token_payload e jti x q) ''user_id'' = Some (tr_user q)" "map_of (token_payload e jti x q) ''session_id'' = Some (JStr (tr_session q))"
    "map_of (token_payload e jti x q) ''tenant_id'' = Some (tr_tenant q)" "map_of (token_payload e jti x q) ''session_type'' = Some (JStr (tr_session_type q))"
    "map_of (token_payload e jti x q) ''exp'' = Some (JStr (te_isof e x))" "map_of (token_payload e jti x q) ''jti'' = Some (JStr jti)"
    unfolding token_payload_def by (simp_all add: f)
qed

lemma normalize_own: "normalize_reuse_mode e (JStr (normalize_reuse_mode e v)) = normalize_reuse_mode e v"
proof -
  have n: "py_lower (py_strip ''single_use'') = ''single_use''" "py_lower (py_strip ''multi_use'') = ''multi_use''" by (code_simp, code_simp)
  then have "normalize_reuse_mode e (JStr m) = m" if "m = ''single_use'' \<or> m = ''multi_use''" for m
    using that by (auto simp: normalize_reuse_mode_def json_text_def Let_def)
  moreover have "normalize_reuse_mode e v = ''single_use'' \<or> normalize_reuse_mode e v = ''multi_use''"
    by (auto simp: normalize_reuse_mode_def Let_def)
  ultimately show ?thesis by metis
qed

text \<open>What reading a printed payload gives has its entries, in an order of its own.\<close>

definition codec_ok :: "token_env \<Rightarrow> payload \<Rightarrow> payload \<Rightarrow> instant \<Rightarrow> bool" where
  "codec_ok e p p' x \<longleftrightarrow> map_of p' = map_of p \<and> (let d = te_dumps e (JObj p); b = te_b64e e d in
     te_loads e d = Some (JObj p') \<and> te_b64d e b = Some d \<and> CHR ''.'' \<notin> set b \<and> CHR ''.'' \<notin> set (te_mac e b) \<and>
     te_unquote e (sign_payload e p) = sign_payload e p \<and> te_of_iso e (te_isof e x) = Some x)"

lemma decode_own:
  assumes "codec_ok e p p' x"
  shows "decode_proxy_token e (plain_token e (sign_payload e p)) = Some p'"
proof -
  let ?b = "te_b64e e (te_dumps e (JObj p))"
  have s: "sign_payload e p = ?b @ CHR ''.'' # te_mac e ?b" by (simp add: sign_payload_def Let_def)
  have "plain_token e (sign_payload e p) = ?b @ CHR ''.'' # te_mac e ?b"
    using assms unfolding plain_token_def codec_ok_def Let_def by (auto simp: s)
  then show ?thesis using assms by (simp add: codec_ok_def Let_def decode_proxy_token_def split_char_pair)
qed

lemma generated_row:
  assumes "generate_proxy_token e jti now q t = (Inr token, t')" and "expiry e now q = Inr x"
    and "pl (token_payload e jti x q) ''jti'' = JStr jti"
  shows "token = sign_payload e (token_payload e jti x q)"
    and "\<exists>n. t' = t @ [n] \<and> (\<forall>r\<in>set t. jr_jti r \<noteq> jti) \<and> jr_jti n = jti \<and> jr_hash n = te_sha e token \<and> jr_expires n = x \<and>
      jr_reuse n = requested_mode e (tr_extra q) \<and> jr_revoked n = None \<and> jr_consumed n = None"
  using assms unfolding generate_proxy_token_def record_issue_def Let_def
  by (auto simp: list_ex_iff split: prod.splits if_splits)

text \<open>C14: A token that has been issued is accepted with the entries it was issued with, as long as its
  lifetime, its session and its principal are live; for a web interface the lifetime does not matter,
  only that an instance of its user is alive. A single-use token is then refused at its second use,
  whatever happens to the sessions in between.\<close>

theorem generated_token_accepted:
  assumes "generate_proxy_token e jti now q t = (Inr token, t')" and "expiry e now q = Inr x"
    and codec: "codec_ok e (token_payload e jti x q) p x"
    and "\<forall>k\<in>set reserved_keys. k \<notin> fst ` set (tr_extra q)" and "py_strip jti = jti" and "jti \<noteq> []"
    and "clock_skew_seconds e (tr_session_type q) = Inr skew"
    and live: "if webui_session (tr_session q) (tr_user q) then pw_alive w (tr_user q) = Inr True
         else now' \<le> x + seconds skew \<and> (tr_session q = [] \<or> tr_session_type q = ''ha_pool'' \<or> pw_status w (tr_session q) = Inr (Some ''active''))"
    and ext: "tr_session_type q = ''external'' \<Longrightarrow> external_principal_alive w (tr_user q) (tr_tenant q)"
  shows "fst (validate_proxy_token e w now' token t') = Some p \<and>
    (requested_mode e (tr_extra q) = ''single_use'' \<longrightarrow>
       fst (validate_proxy_token e w' now'' token (snd (validate_proxy_token e w now' token t'))) = None)"
proof -
  have same: "map_of p = map_of (token_payload e jti x q)" using codec by (simp add: codec_ok_def)
  note en = token_payload_entries [OF assms(4), of e jti x, folded same]
  have pl: "pl p ''user_id'' = tr_user q" "pl p ''tenant_id'' = tr_tenant q" "session_of p = Inr (tr_session q)"
    "token_session_type e p = tr_session_type q" "token_jti e p = jti" "p \<noteq> []"
    using en assms(5,6) by (auto simp: pl_def session_of_def token_session_type_def pl_or_def json_text_def token_jti_def)
  obtain n where n: "t' = t @ [n]" "\<forall>r\<in>set t. jr_jti r \<noteq> jti" "jr_jti n = jti" "jr_hash n = te_sha e token" "jr_expires n = x"
    "jr_reuse n = requested_mode e (tr_extra q)" "jr_revoked n = None" "jr_consumed n = None"
    using generated_row(2) [OF assms(1,2)] en(6) by (auto simp: pl_def same)
  have tk: "token = sign_payload e (token_payload e jti x q)" using generated_row(1) [OF assms(1,2)] en(6) by (auto simp: pl_def same)
  have iso: "te_of_iso e (te_isof e x) = Some x" and plain: "plain_token e token = token"
    using codec by (auto simp: codec_ok_def Let_def plain_token_def tk)
  have dec: "decode_proxy_token e token = Some p" using decode_own [OF codec] plain tk by simp
  have allow: "session_allows_proxy_token e w (tr_session q) (tr_session_type q) (tr_user q) now' x = Inr True"
    using live assms(7) by (auto simp: session_allows_iff split: if_splits)
  have single: "single_use_row e n \<longleftrightarrow> requested_mode e (tr_extra q) = ''single_use''"
    by (simp add: single_use_row_def n(6) requested_mode_def normalize_own)
  have cr: "check_record e w now' jti p n = Inr (Ready \<lparr>rt_jti = jti, rt_payload = p, rt_single = single_use_row e n\<rparr>)"
    using live ext by (auto simp: check_record_def en pl json_text_def iso assms(7) n(5,8) allow webui_instance_alive_def split: if_splits)
  have rec: "token_record jti t' = Some n" unfolding token_record_def n(1) by (rule find_snoc) (use n in auto)
  have ct: "check_token e w now' token t' = Ready \<lparr>rt_jti = jti, rt_payload = p, rt_single = single_use_row e n\<rparr>"
    unfolding check_token_def plain_token_def [symmetric] plain using assms(6) by (simp add: dec pl rec n(4,7) cr)
  have ok: "fst (validate_proxy_token e w now' token t') = Some p"
    unfolding validate_proxy_token_def ct by (simp add: finish_token_def consume_single_use_def n(1,3,7,8) consumable_token_def)
  have "fst (validate_proxy_token e w' now'' token (snd (validate_proxy_token e w now' token t'))) = None" if "single_use_row e n"
  proof -
    let ?t = "snd (validate_proxy_token e w now' token t')"
    have "?t = snd (consume_single_use jti now' t')"
      using that unfolding validate_proxy_token_def ct by (simp add: finish_token_def split: prod.splits)
    then have "\<forall>r\<in>set ?t. jr_jti r = token_jti e p \<longrightarrow> jr_consumed r \<noteq> None"
      using n by (auto simp: consume_single_use_def consumable_token_def used_now_def pl(5))
    then have "fst (validate_proxy_token e w' now'' token ?t) \<noteq> Some p" by (rule consumed_refused)
    moreover have "a = p" if "fst (validate_proxy_token e w' now'' token ?t) = Some a" for a
      using that check_token_ready(1) validate_Some finish_Some(1) dec plain by (metis option.inject prod.collapse)
    ultimately show ?thesis by (cases "fst (validate_proxy_token e w' now'' token ?t)") simp_all
  qed
  with ok single show ?thesis by blast
qed

lemma drop_first_all: "length xs \<le> n \<Longrightarrow> drop_first n P xs = filter (\<lambda>x. \<not> P x) xs"
proof (induction n P xs rule: drop_first.induct)
  case (2 n P x xs)
  then show ?case by (cases n) (auto intro: 2)
qed simp

text \<open>The cleanup deletes the record of a token a week after its first expiry, also of a web interface
  whose instance is alive and whose token has been accepted until then: the next request is refused.\<close>

theorem cleanup_ends_live_webui:
  assumes "fst (validate_proxy_token e w now token t) = Some p" and "distinct (map jr_jti t)"
    and "r \<in> set t" and "jr_jti r = token_jti e p" and "jr_expires r < now - seconds 86400 * days"
    and "length t \<le> 1000" and "te_var e ''OPENACE_PROXY_TOKEN_CLEANUP_TERMINATED_DAYS'' = None"
  shows "fst (validate_proxy_token e w now' token (snd (cleanup_proxy_token_jtis e days now t))) \<noteq> Some p"
proof (rule consumed_refused)
  have p: "parse_int ''7'' = Some 7" by code_simp
  have "snd (cleanup_proxy_token_jtis e days now t) = filter (\<lambda>r. \<not> stale_token now days 7 r) t"
    using assms(6,7) p by (simp add: cleanup_proxy_token_jtis_def Let_def drop_first_all)
  moreover have "x = r" if "x \<in> set t" "jr_jti x = token_jti e p" for x
    using that assms(2-4) by (auto simp: distinct_map inj_on_def)
  ultimately show "\<forall>r\<in>set (snd (cleanup_proxy_token_jtis e days now t)). jr_jti r = token_jti e p \<longrightarrow> jr_consumed r \<noteq> None"
    using assms(5) by (auto simp: stale_token_def)
qed

section \<open>Witnesses\<close>

definition token_env1 :: token_env where
  "token_env1 = \<lparr>te_mac = (\<lambda>_. ''m''), te_sha = (\<lambda>s. s), te_b64e = (\<lambda>s. s), te_b64d = Some, te_dumps = (\<lambda>_. ''d''),
     te_loads = (\<lambda>_. Some (JObj [(''exp'', JStr ''x''), (''jti'', JStr ''j''), (''provider'', JStr ''openai''), (''reuse_mode'', JStr ''single_use''),
        (''session_id'', JStr ''webui:3''), (''session_type'', JStr ''webui''), (''tenant_id'', JInt 1), (''user_id'', JInt 3)])),
     te_isof = (\<lambda>_. ''x''), te_of_iso = (\<lambda>_. Some 60000000), te_str = (\<lambda>_. ''?''), te_unquote = (\<lambda>s. s), te_upper = (\<lambda>s. s), te_var = (\<lambda>_. None)\<rparr>"

definition token_world1 :: token_world where
  "token_world1 = \<lparr>pw_alive = (\<lambda>_. Inr True), pw_status = (\<lambda>_. Inr None), pw_principal = (\<lambda>_ _. Inr None)\<rparr>"

definition token_request1 :: "json \<Rightarrow> token_request" where
  "token_request1 single = \<lparr>tr_user = JInt 3, tr_session = ''webui:3'', tr_tenant = JInt 1, tr_provider = ''openai'', tr_minutes = Some 1, tr_seconds = None,
     tr_session_type = ''webui'', tr_extra = [(''single_use'', single)]\<rparr>"

definition payload1 :: payload where
  "payload1 = [(''exp'', JStr ''x''), (''jti'', JStr ''j''), (''provider'', JStr ''openai''), (''reuse_mode'', JStr ''single_use''),
        (''session_id'', JStr ''webui:3''), (''session_type'', JStr ''webui''), (''tenant_id'', JInt 1), (''user_id'', JInt 3)]"

lemma default_skew1: "parse_int ''30'' = Some 30" by code_simp

lemma generated1:
  "generate_proxy_token token_env1 ''j'' 0 (token_request1 (JBool True)) [] = (Inr ''d.m'', snd (generate_proxy_token token_env1 ''j'' 0 (token_request1 (JBool True)) []))"
  "token_payload token_env1 ''j'' 60000000 (token_request1 (JBool True)) =
     [(''user_id'', JInt 3), (''session_id'', JStr ''webui:3''), (''tenant_id'', JInt 1), (''provider'', JStr ''openai''),
      (''session_type'', JStr ''webui''), (''exp'', JStr ''x''), (''jti'', JStr ''j''), (''reuse_mode'', JStr ''single_use'')]"
  "requested_mode token_env1 (tr_extra (token_request1 (JBool True))) = ''single_use''"
  by (code_simp, code_simp, code_simp)

theorem generated_token_accepted_witness:
  "(let t = snd (generate_proxy_token token_env1 ''j'' 0 (token_request1 (JBool True)) []) in
     fst (validate_proxy_token token_env1 token_world1 (seconds 1000000) ''d.m'' t) \<noteq> None \<and>
     fst (validate_proxy_token token_env1 token_world1 0 ''d.m'' (snd (validate_proxy_token token_env1 token_world1 (seconds 1000000) ''d.m'' t))) = None)"
proof -
  have x: "expiry token_env1 0 (token_request1 (JBool True)) = Inr 60000000" by (simp add: expiry_def token_request1_def)
  have "codec_ok token_env1 (token_payload token_env1 ''j'' 60000000 (token_request1 (JBool True))) payload1 60000000"
    unfolding generated1(2) by (auto simp: codec_ok_def token_env1_def payload1_def fun_eq_iff)
  moreover have "\<forall>k\<in>set reserved_keys. k \<notin> fst ` set (tr_extra (token_request1 (JBool True)))"
    by (simp add: reserved_keys_def token_request1_def)
  moreover have "py_strip ''j'' = ''j''" by code_simp
  moreover have "clock_skew_seconds token_env1 (tr_session_type (token_request1 (JBool True))) = Inr 30"
  proof -
    have "env_text token_env1 n = []" for n by (simp add: env_text_def token_env1_def)
    then show ?thesis by (simp add: clock_skew_seconds_def token_env1_def default_skew1)
  qed
  moreover have "webui_session ''webui:3'' (JInt 3)" by code_simp
  then have "if webui_session (tr_session (token_request1 (JBool True))) (tr_user (token_request1 (JBool True)))
      then pw_alive token_world1 (tr_user (token_request1 (JBool True))) = Inr True
      else seconds 1000000 \<le> 60000000 + seconds 30 \<and> (tr_session (token_request1 (JBool True)) = [] \<or>
        tr_session_type (token_request1 (JBool True)) = ''ha_pool'' \<or> pw_status token_world1 (tr_session (token_request1 (JBool True))) = Inr (Some ''active''))"
    by (simp add: token_request1_def token_world1_def)
  moreover have "tr_session_type (token_request1 (JBool True)) \<noteq> ''external''" by (simp add: token_request1_def)
  ultimately show ?thesis
    using generated_token_accepted [OF generated1(1) x, of payload1 30 token_world1 "seconds 1000000" token_world1 0] generated1(3)
    by (simp add: Let_def)
qed

definition issued1 :: jti_table where
  "issued1 = [\<lparr>jr_jti = ''j'', jr_hash = ''d.m'', jr_user = JInt 3, jr_session = JStr ''webui:3'', jr_tenant = JInt 1, jr_provider = JStr ''openai'',
     jr_session_type = JStr ''webui'', jr_scope = JNull, jr_reuse = ''single_use'', jr_expires = 60000000, jr_first_used = None, jr_last_used = None,
     jr_consumed = None, jr_revoked = None, jr_revoke_reason = None, jr_uses = 0, jr_terminated = None\<rparr>]"

definition ready1 :: ready_token where "ready1 = \<lparr>rt_jti = ''j'', rt_payload = payload1, rt_single = True\<rparr>"

lemma issued1_facts:
  "generate_proxy_token token_env1 ''j'' 0 (token_request1 (JBool True)) [] = (Inr ''d.m'', issued1)"
  "check_token token_env1 token_world1 (seconds 1000000000) ''d.m'' issued1 = Ready ready1"
  "token_jti token_env1 payload1 = ''j''"
  by (code_simp, code_simp, code_simp)

lemma finish1: "finish_token (seconds 1000000000) ready1 issued1 = (Some payload1, snd (consume_single_use ''j'' (seconds 1000000000) issued1))"
  by (simp add: finish_token_def ready1_def consume_single_use_def issued1_def consumable_token_def)

lemma validate1:
  "validate_proxy_token token_env1 token_world1 (seconds 1000000000) ''d.m'' issued1 =
     (Some payload1, snd (consume_single_use ''j'' (seconds 1000000000) issued1))"
  unfolding validate_proxy_token_def issued1_facts(2) check_outcome.case by (rule finish1)

theorem accepted_token_justified_witness:
  "\<exists>b r. plain_token token_env1 ''d.m'' = b @ ''.'' @ te_mac token_env1 b \<and> r \<in> set issued1 \<and>
     row_open token_env1 token_world1 (seconds 1000000000) payload1 r"
proof -
  have "distinct (map jr_jti issued1)" by (simp add: issued1_def)
  from accepted_token_justified [OF validate1 this] show ?thesis by blast
qed

definition run1 :: "token_state list" where
  "run1 = (let s1 = no_tokens\<lparr>ts_table := issued1, ts_issued := insert ''j'' (ts_issued no_tokens)\<rparr>; s2 = s1\<lparr>ts_pending := (ts_pending s1)(0 \<mapsto> ready1)\<rparr>;
     s3 = s2\<lparr>ts_pending := (ts_pending s2)(1 \<mapsto> ready1)\<rparr>
   in [s1, s2, s3, s3\<lparr>ts_table := snd (consume_single_use ''j'' (seconds 1000000000) issued1), ts_pending := (ts_pending s3)(0 := None)\<rparr>])"

lemma run1_steps: "runs (token_step token_env1) no_tokens [None, None, None, Some (''j'', True)] (run1 ! 3)"
proof -
  have x: "expiry token_env1 0 (token_request1 (JBool True)) = Inr 60000000" by (simp add: expiry_def token_request1_def)
  have i: "token_step token_env1 no_tokens None (run1 ! 0)"
    using token_step.issue [of "''j''" no_tokens token_env1 0 "token_request1 (JBool True)" "Inr ''d.m''" issued1 60000000] issued1_facts(1) x
    by (simp add: no_tokens_def run1_def Let_def generated1(2) pl_def)
  have b: "token_step token_env1 (run1 ! 0) None (run1 ! 1)" "token_step token_env1 (run1 ! 1) None (run1 ! 2)"
    using token_step.begin_check [of "run1 ! 0" 0 token_env1 token_world1 "seconds 1000000000" "''d.m''" ready1]
      token_step.begin_check [of "run1 ! 1" 1 token_env1 token_world1 "seconds 1000000000" "''d.m''" ready1] issued1_facts(2)
    by (simp_all add: run1_def Let_def no_tokens_def)
  have "accepted_event ready1 (Some payload1) = Some (''j'', True)" by (simp add: accepted_event_def ready1_def)
  then have "token_step token_env1 (run1 ! 2) (Some (''j'', True)) (run1 ! 3)"
    using token_step.finish [of "run1 ! 2" 0 ready1 "seconds 1000000000" "Some payload1" _ token_env1] finish1
    by (simp add: run1_def Let_def no_tokens_def)
  with i b show ?thesis by (blast intro: runs.intros)
qed

theorem single_use_once_witness: "length (filter (\<lambda>ev. spends ev = Some ''j'') [None, None, None, Some (''j'', True)]) \<le> 1"
  by (rule single_use_once [OF run1_steps])

theorem revoked_tokens_refused_witness:
  "fst (validate_proxy_token token_env1 token_world1 0 ''d.m'' (snd (revoke_proxy_token_jti ''j'' 0 issued1))) \<noteq> Some payload1 \<and>
   fst (validate_proxy_token token_env1 token_world1 0 ''d.m'' (snd (revoke_proxy_tokens_for_session ''webui:3'' ''stopped'' 0 issued1))) \<noteq> Some payload1"
proof -
  have r: "token_record (token_jti token_env1 payload1) issued1 = Some (hd issued1)" by (simp add: issued1_facts(3) token_record_def issued1_def)
  have "''webui:3'' \<noteq> []" by simp
  note f = revoked_tokens_refused [OF r this]
  show ?thesis using f(1) [of "''j''" token_world1 0 "''d.m''" 0] f(2) [of token_world1 0 "''d.m''" "''stopped''" 0] by (simp add: issued1_def)
qed

theorem revocation_between_reads_witness:
  "fst (finish_token 5 ready1 (snd (revoke_proxy_token_jti (rt_jti ready1) 4 issued1))) = (if rt_single ready1 then None else Some (rt_payload ready1))"
  by (rule revocation_between_reads [OF issued1_facts(2)]) (simp add: ready1_def)

theorem bad_skew_refuses_all_witness:
  "validate_proxy_token (token_env1\<lparr>te_var := (\<lambda>_. Some ''half a minute'')\<rparr>) token_world1 0 ''d.m'' issued1 = (None, issued1)"
proof -
  have "parse_int ''half a minute'' = None" by code_simp
  then show ?thesis by (rule bad_skew_refuses_all [rotated]) (simp add: token_env1_def)
qed

theorem consumed_counts_as_valid_witness:
  "has_valid_proxy_token ''webui:3'' 5 [(hd issued1)\<lparr>jr_consumed := Some 4\<rparr>]"
proof -
  let ?r = "(hd issued1)\<lparr>jr_consumed := Some 4\<rparr>"
  have "?r \<in> set [?r]" "jr_session ?r = JStr ''webui:3''" "''webui:3'' \<noteq> []" "jr_revoked ?r = None" "5 < jr_expires ?r" "jr_consumed ?r \<noteq> None"
    "distinct (map jr_jti [?r])" "token_jti token_env1 payload1 = jr_jti ?r" by (simp_all add: issued1_facts(3)) (simp_all add: issued1_def)
  from consumed_counts_as_valid [OF this] show ?thesis by blast
qed

theorem cleanup_ends_live_webui_witness:
  "fst (validate_proxy_token token_env1 token_world1 0 ''d.m'' (snd (cleanup_proxy_token_jtis token_env1 7 (seconds 1000000000) issued1))) \<noteq> Some payload1"
proof (rule cleanup_ends_live_webui)
  show "fst (validate_proxy_token token_env1 token_world1 (seconds 1000000000) ''d.m'' issued1) = Some payload1" unfolding validate1 by simp
  show "te_var token_env1 ''OPENACE_PROXY_TOKEN_CLEANUP_TERMINATED_DAYS'' = None" by (simp add: token_env1_def)
  show "hd issued1 \<in> set issued1" "jr_jti (hd issued1) = token_jti token_env1 payload1" by (simp_all add: issued1_facts(3)) (simp_all add: issued1_def)
qed (simp_all add: issued1_def)

end
