(* ===== verification/Agent_Tokens.thy ===== *)
theory Agent_Tokens
  imports Py_Text Single_Use
begin

text \<open>
  The credentials of remote agents (\<^verbatim>\<open>modules/workspace/remote_agent_manager.py\<close>, token management, and
  \<^verbatim>\<open>services/pending_revoke_cleanup.py\<close>): one-time registration tokens, and agent tokens that are
  issued, validated, rotated with a period in which the old one still works, confirmed and revoked. The
  hash, the signature and the random tokens are parameters. The two transactions of a rotation are
  definitions of their own, since rotations and confirmations of several processes interleave.
\<close>

section \<open>Registration tokens\<close>

record registration_row =
  rg_id :: nat
  rg_hash :: string
  rg_tenant :: int
  rg_created_by :: int
  rg_expires :: "instant option"
  rg_consumed :: bool
  rg_consumed_at :: "instant option"

definition registration_token_ttl :: int where "registration_token_ttl = 3600"

definition create_registration_token ::
    "(string \<Rightarrow> string) \<Rightarrow> nat \<Rightarrow> string \<Rightarrow> instant \<Rightarrow> int \<Rightarrow> int \<Rightarrow> registration_row list \<Rightarrow> string result \<times> registration_row list" where
  "create_registration_token hash i token now tenant by rows =
     (if list_ex (\<lambda>r. rg_hash r = hash token) rows then (Inl DBError, rows)
      else (Inr token, rows @ [\<lparr>rg_id = i, rg_hash = hash token, rg_tenant = tenant, rg_created_by = by,
        rg_expires = Some (now + seconds registration_token_ttl), rg_consumed = False, rg_consumed_at = None\<rparr>]))"

text \<open>The lookup and its checks, and the update that marks the row it found.\<close>

definition registration_open :: "(string \<Rightarrow> string) \<Rightarrow> instant \<Rightarrow> string \<Rightarrow> registration_row list \<Rightarrow> registration_row option" where
  "registration_open hash now token rows =
     (case find (\<lambda>r. rg_hash r = hash token) rows of
        None \<Rightarrow> None
      | Some r \<Rightarrow> if rg_consumed r then None
          else (case rg_expires r of Some x \<Rightarrow> if x < now then None else Some r | None \<Rightarrow> Some r))"

definition mark_consumed :: "nat \<Rightarrow> instant \<Rightarrow> registration_row list \<Rightarrow> registration_row list" where
  "mark_consumed i now rows = map (\<lambda>r. if rg_id r = i then r\<lparr>rg_consumed := True, rg_consumed_at := Some now\<rparr> else r) rows"

definition consume_registration_token ::
    "(string \<Rightarrow> string) \<Rightarrow> instant \<Rightarrow> string \<Rightarrow> registration_row list \<Rightarrow> (int \<times> int) option \<times> registration_row list" where
  "consume_registration_token hash now token rows =
     (case registration_open hash now token rows of
        None \<Rightarrow> (None, rows)
      | Some r \<Rightarrow> (Some (rg_tenant r, rg_created_by r), mark_consumed (rg_id r) now rows))"

definition cleanup_expired_registration_tokens :: "instant \<Rightarrow> registration_row list \<Rightarrow> int \<times> registration_row list" where
  "cleanup_expired_registration_tokens now rows =
     (let dead = (\<lambda>r. \<not> rg_consumed r \<and> (case rg_expires r of Some x \<Rightarrow> x < now | None \<Rightarrow> False))
      in (int (length (filter dead rows)), filter (\<lambda>r. \<not> dead r) rows))"

section \<open>Agent tokens\<close>

record agent_token =
  tk_id :: nat
  tk_hash :: string
  tk_machine :: string
  tk_revoked :: bool
  tk_revoked_at :: "instant option"
  tk_revoked_by :: "int option"
  tk_pending :: bool
  tk_after :: "instant option"
  tk_rotation :: "string option"
  tk_version :: int

record token_table =
  tt_rows :: "agent_token list"
  tt_next :: nat

definition live_token :: "agent_token \<Rightarrow> bool" where "live_token r \<longleftrightarrow> \<not> tk_revoked r \<and> \<not> tk_pending r"

text \<open>The table has unique hashes and at most one live token of a machine.\<close>

definition insert_token :: "string \<Rightarrow> string \<Rightarrow> string option \<Rightarrow> int \<Rightarrow> token_table \<Rightarrow> unit result \<times> token_table" where
  "insert_token h machine rotation version t =
     (if list_ex (\<lambda>r. tk_hash r = h \<or> (tk_machine r = machine \<and> live_token r)) (tt_rows t) then (Inl DBError, t)
      else (Inr (), t\<lparr>tt_rows := tt_rows t @ [\<lparr>tk_id = tt_next t, tk_hash = h, tk_machine = machine, tk_revoked = False, tk_revoked_at = None,
        tk_revoked_by = None, tk_pending = False, tk_after = None, tk_rotation = rotation, tk_version = version\<rparr>], tt_next := tt_next t + 1\<rparr>))"

definition top_version :: "string \<Rightarrow> token_table \<Rightarrow> int" where
  "top_version machine t = foldl max 0 (map tk_version (filter (\<lambda>r. tk_machine r = machine) (tt_rows t)))"

definition create_agent_token :: "(string \<Rightarrow> string) \<Rightarrow> string \<Rightarrow> string \<Rightarrow> int option \<Rightarrow> token_table \<Rightarrow> string result \<times> token_table" where
  "create_agent_token hash token machine version t =
     (let (r, t') = insert_token (hash token) machine None (case version of None \<Rightarrow> top_version machine t + 1 | Some v \<Rightarrow> v) t
      in (rbind r (\<lambda>_. Inr token), t'))"

definition create_agent_token_with_rotation ::
    "(string \<Rightarrow> string) \<Rightarrow> string \<Rightarrow> string \<Rightarrow> string \<Rightarrow> int \<Rightarrow> token_table \<Rightarrow> string result \<times> token_table" where
  "create_agent_token_with_rotation hash token machine rotation version t =
     (let (r, t') = insert_token (hash token) machine (Some rotation) version t in (rbind r (\<lambda>_. Inr token), t'))"

text \<open>How the database compares a stored instant with its own clock. The stored text is UTC: Postgres
  reads it in the zone of its session (offset in microseconds); SQLite compares texts, where the letter
  between day and time is T in the stored one and a space in the clock's.\<close>

datatype database = Postgres int | Sqlite

definition day :: "instant \<Rightarrow> int" where "day t = t div seconds 86400"

definition after_now :: "database \<Rightarrow> instant \<Rightarrow> instant \<Rightarrow> bool" where
  "after_now db a now = (case db of Postgres zone \<Rightarrow> now < a - zone | Sqlite \<Rightarrow> day now \<le> day a)"

definition before_now :: "database \<Rightarrow> instant \<Rightarrow> instant \<Rightarrow> bool" where
  "before_now db a now = (case db of Postgres zone \<Rightarrow> a - zone < now | Sqlite \<Rightarrow> day a < day now)"

text \<open>The comparison of days is what the texts give: for any rendering of days by texts of one length that
  are ordered like the days, the clock's text is below the stored one as long as its day is not later.\<close>

definition text_less :: "string \<Rightarrow> string \<Rightarrow> bool" where
  "text_less s t = ord_class.lexordp (map of_char s :: nat list) (map of_char t)"

definition stored_text :: "(int \<Rightarrow> string) \<Rightarrow> (instant \<Rightarrow> string) \<Rightarrow> instant \<Rightarrow> string" where
  "stored_text date time a = date (day a) @ CHR ''T'' # time a"

definition clock_text :: "(int \<Rightarrow> string) \<Rightarrow> (instant \<Rightarrow> string) \<Rightarrow> instant \<Rightarrow> string" where
  "clock_text date time now = date (day now) @ CHR '' '' # time now"

lemma text_less_prefix: "length x = length y \<Longrightarrow> text_less (x @ s) (y @ t) \<longleftrightarrow> text_less x y \<or> x = y \<and> text_less s t"
  unfolding text_less_def by (induction x y rule: list_induct2) auto

lemma sqlite_comparison:
  assumes len: "\<And>d. length (date d) = n" and order: "\<And>d d'. text_less (date d) (date d') \<longleftrightarrow> d < d'"
  shows "after_now Sqlite a now \<longleftrightarrow> text_less (clock_text date time' now) (stored_text date time a)"
    and "before_now Sqlite a now \<longleftrightarrow> text_less (stored_text date time a) (clock_text date time' now)"
proof -
  have eq: "date d = date d' \<longleftrightarrow> d = d'" for d d' using order [of d d'] order [of d' d] order [of d d] by (metis not_less_iff_gr_or_eq)
  have "text_less (CHR '' '' # x) (CHR ''T'' # y)" "\<not> text_less (CHR ''T'' # y) (CHR '' '' # x)" for x y
    by (simp_all add: text_less_def)
  then show "after_now Sqlite a now \<longleftrightarrow> text_less (clock_text date time' now) (stored_text date time a)"
    and "before_now Sqlite a now \<longleftrightarrow> text_less (stored_text date time a) (clock_text date time' now)"
    by (auto simp: after_now_def before_now_def clock_text_def stored_text_def text_less_prefix len order eq)
qed

definition validate_agent_token :: "database \<Rightarrow> (string \<Rightarrow> string) \<Rightarrow> instant \<Rightarrow> string \<Rightarrow> string \<Rightarrow> token_table \<Rightarrow> bool" where
  "validate_agent_token db hash now token machine t =
     (case find (\<lambda>r. tk_hash r = hash token) (tt_rows t) of
        None \<Rightarrow> False
      | Some r \<Rightarrow>
          if tk_revoked r then False
          else if tk_pending r \<and> \<not> (case tk_after r of None \<Rightarrow> False | Some a \<Rightarrow> after_now db a now) then False
          else tk_machine r = machine)"

section \<open>Rotation\<close>

definition clamp_timeout :: "int \<Rightarrow> int" where "clamp_timeout n = max 60 (min n 3600)"

text \<open>The timeout configured for the machine: a failed query, no machine or no value give the default of
  the environment.\<close>

definition get_token_revoke_timeout :: "int \<Rightarrow> int option option result \<Rightarrow> int" where
  "get_token_revoke_timeout preset row =
     (case row of Inr (Some (Some n)) \<Rightarrow> if n \<noteq> 0 then clamp_timeout n else clamp_timeout preset | _ \<Rightarrow> clamp_timeout preset)"

definition revoke_where :: "(agent_token \<Rightarrow> bool) \<Rightarrow> instant \<Rightarrow> int option \<Rightarrow> agent_token list \<Rightarrow> agent_token list" where
  "revoke_where P now by rows = map (\<lambda>r. if P r \<and> \<not> tk_revoked r then r\<lparr>tk_revoked := True, tk_revoked_at := Some now, tk_revoked_by := by\<rparr> else r) rows"

record rotation =
  ro_token :: string
  ro_id :: string
  ro_version :: int
  ro_unrevoked :: bool
  ro_immediate :: bool

text \<open>The first transaction of a rotation: the version of the new token, and whether the machine had
  only revoked ones.\<close>

definition rotate_mark :: "bool \<Rightarrow> string \<Rightarrow> instant \<Rightarrow> int \<Rightarrow> int option \<Rightarrow> string \<Rightarrow> token_table \<Rightarrow> (int \<times> bool) \<times> token_table" where
  "rotate_mark immediate rid now timeout by machine t =
     (let rows = revoke_where (\<lambda>r. tk_machine r = machine \<and> tk_pending r) now by (tt_rows t);
          existing = filter (\<lambda>r. tk_machine r = machine) rows;
          rows' = (if immediate then revoke_where (\<lambda>r. tk_machine r = machine) now by rows
            else map (\<lambda>r. if tk_machine r = machine \<and> \<not> tk_revoked r
              then r\<lparr>tk_pending := True, tk_after := Some (now + seconds timeout), tk_rotation := Some rid\<rparr> else r) rows)
      in ((top_version machine t + 1, existing \<noteq> [] \<and> list_all tk_revoked existing), t\<lparr>tt_rows := rows'\<rparr>))"

definition rotate_agent_token ::
    "(string \<Rightarrow> string) \<Rightarrow> bool \<Rightarrow> bool \<Rightarrow> string \<Rightarrow> string \<Rightarrow> instant \<Rightarrow> int \<Rightarrow> int option \<Rightarrow> string \<Rightarrow> token_table \<Rightarrow> rotation option result \<times> token_table" where
  "rotate_agent_token hash known immediate rid token now timeout by machine t =
     (if \<not> known then (Inr None, t)
      else (let ((version, unrevoked), t1) = rotate_mark immediate rid now timeout by machine t;
                (r, t2) = create_agent_token_with_rotation hash token machine rid version t1
            in (rbind r (\<lambda>new. Inr (Some \<lparr>ro_token = new, ro_id = rid, ro_version = version, ro_unrevoked = unrevoked, ro_immediate = immediate\<rparr>)), t2)))"

text \<open>\<open>mac key rotation timestamp\<close> signs the rotation and the timestamp with the token the agent presents.\<close>

definition confirm_token_rotation ::
    "(string \<Rightarrow> string \<Rightarrow> int \<Rightarrow> string) \<Rightarrow> instant \<Rightarrow> int \<Rightarrow> string \<Rightarrow> string \<Rightarrow> string \<Rightarrow> int \<Rightarrow> string \<Rightarrow> token_table \<Rightarrow> bool \<times> token_table" where
  "confirm_token_rotation mac now clock machine rid signature stamp presented t =
     (if 300 < \<bar>clock - stamp\<bar> then (False, t)
      else if signature \<noteq> mac presented rid stamp then (False, t)
      else (case find (\<lambda>r. tk_rotation r = Some rid \<and> tk_pending r \<and> \<not> tk_revoked r) (tt_rows t) of
          None \<Rightarrow> (True, t)
        | Some r \<Rightarrow>
            if tk_machine r \<noteq> machine then (False, t)
            else (True, t\<lparr>tt_rows := map (\<lambda>x. if tk_id x = tk_id r then x\<lparr>tk_revoked := True, tk_revoked_at := Some now, tk_pending := False\<rparr> else x) (tt_rows t)\<rparr>)))"

definition revoke_agent_token :: "instant \<Rightarrow> int option \<Rightarrow> string \<Rightarrow> token_table \<Rightarrow> bool \<times> token_table" where
  "revoke_agent_token now by machine t =
     (list_ex (\<lambda>r. tk_machine r = machine \<and> \<not> tk_revoked r) (tt_rows t), t\<lparr>tt_rows := revoke_where (\<lambda>r. tk_machine r = machine) now by (tt_rows t)\<rparr>)"

text \<open>The background job that ends the period of the old tokens.\<close>

definition cleanup_expired_tokens :: "database \<Rightarrow> instant \<Rightarrow> token_table \<Rightarrow> token_table" where
  "cleanup_expired_tokens db now t =
     (let dead = (\<lambda>r. tk_pending r \<and> \<not> tk_revoked r \<and> (case tk_after r of None \<Rightarrow> False | Some a \<Rightarrow> before_now db a now));
          ids = map tk_id (filter dead (tt_rows t))
      in t\<lparr>tt_rows := map (\<lambda>r. if tk_id r \<in> set ids then r\<lparr>tk_revoked := True, tk_revoked_at := Some now, tk_pending := False\<rparr> else r) (tt_rows t)\<rparr>)"

text \<open>The status of the token of each machine in the lists: \<open>legacy\<close> are the machines without a token
  that were registered before tokens were required.\<close>

definition token_status :: "string list \<Rightarrow> string \<Rightarrow> token_table \<Rightarrow> string" where
  "token_status legacy machine t =
     (if list_ex (\<lambda>r. tk_machine r = machine \<and> \<not> tk_revoked r) (tt_rows t) then ''active''
      else if list_ex (\<lambda>r. tk_machine r = machine) (tt_rows t) then ''revoked''
      else if machine \<in> set legacy then ''legacy'' else ''none'')"

section \<open>The invariant of the table\<close>

definition ending_token :: "agent_token \<Rightarrow> bool" where "ending_token r \<longleftrightarrow> tk_pending r \<and> \<not> tk_revoked r"

definition token_table_ok :: "token_table \<Rightarrow> bool" where
  "token_table_ok t \<longleftrightarrow> distinct (map tk_id (tt_rows t)) \<and> distinct (map tk_hash (tt_rows t)) \<and> (\<forall>r\<in>set (tt_rows t). tk_id r < tt_next t) \<and>
     (\<forall>r\<in>set (tt_rows t). \<forall>r'\<in>set (tt_rows t). tk_machine r = tk_machine r' \<longrightarrow>
        (live_token r \<and> live_token r' \<longrightarrow> r = r') \<and> (ending_token r \<and> ending_token r' \<longrightarrow> r = r'))"

text \<open>Every statement but the insertion changes rows in place: it never brings a token back to life, and
  the ending tokens of a machine are old ending ones or old live ones.\<close>

lemma token_table_ok_map:
  assumes ok: "token_table_ok t"
    and same: "\<And>r. r \<in> set (tt_rows t) \<Longrightarrow> tk_id (f r) = tk_id r \<and> tk_hash (f r) = tk_hash r \<and> tk_machine (f r) = tk_machine r \<and> (live_token (f r) \<longrightarrow> live_token r)"
    and ends: "\<And>m. (\<forall>r\<in>set (tt_rows t). tk_machine r = m \<and> ending_token (f r) \<longrightarrow> ending_token r) \<or>
        (\<forall>r\<in>set (tt_rows t). tk_machine r = m \<and> ending_token (f r) \<longrightarrow> live_token r)"
  shows "token_table_ok (t\<lparr>tt_rows := map f (tt_rows t)\<rparr>)"
proof -
  have "map tk_id (map f (tt_rows t)) = map tk_id (tt_rows t)" "map tk_hash (map f (tt_rows t)) = map tk_hash (tt_rows t)"
    using same by simp_all
  moreover have "f r = f r'" if "r \<in> set (tt_rows t)" "r' \<in> set (tt_rows t)" "tk_machine r = tk_machine r'"
      "live_token (f r) \<and> live_token (f r') \<or> ending_token (f r) \<and> ending_token (f r')" for r r'
  proof -
    have "live_token r \<and> live_token r' \<or> ending_token r \<and> ending_token r'"
      using that same ends [of "tk_machine r"] by metis
    then have "r = r'" using ok that(1-3) unfolding token_table_ok_def by blast
    then show ?thesis by simp
  qed
  ultimately show ?thesis
    using ok same unfolding token_table_ok_def by (simp del: map_map)
qed

lemma insert_token_ok [inv_intros]: "token_table_ok t \<Longrightarrow> token_table_ok (snd (insert_token h machine rid v t))"
  unfolding token_table_ok_def insert_token_def
  by (auto simp: live_token_def ending_token_def list_ex_iff less_Suc_eq)

lemma create_token_ok [inv_intros]:
  "token_table_ok t \<Longrightarrow> token_table_ok (snd (create_agent_token hash token machine v t))"
  "token_table_ok t \<Longrightarrow> token_table_ok (snd (create_agent_token_with_rotation hash token machine rid ver t))"
  using insert_token_ok by (auto simp: create_agent_token_def create_agent_token_with_rotation_def split: prod.splits) (metis snd_conv)+

lemma revoke_agent_token_ok [inv_intros]: "token_table_ok t \<Longrightarrow> token_table_ok (snd (revoke_agent_token now by machine t))"
  unfolding revoke_agent_token_def revoke_where_def snd_conv
  by (rule token_table_ok_map) (auto simp: live_token_def ending_token_def)

lemma confirm_ok [inv_intros]: "token_table_ok t \<Longrightarrow> token_table_ok (snd (confirm_token_rotation mac now clock machine rid s stamp key t))"
  unfolding confirm_token_rotation_def
  by (auto split: option.splits if_splits intro!: token_table_ok_map simp: live_token_def ending_token_def)

lemma cleanup_ok [inv_intros]: "token_table_ok t \<Longrightarrow> token_table_ok (cleanup_expired_tokens db now t)"
  unfolding cleanup_expired_tokens_def Let_def
  by (rule token_table_ok_map) (auto simp: live_token_def ending_token_def)

text \<open>What the first transaction of a rotation does to a row.\<close>

definition marked :: "bool \<Rightarrow> string \<Rightarrow> instant \<Rightarrow> int \<Rightarrow> int option \<Rightarrow> string \<Rightarrow> agent_token \<Rightarrow> agent_token" where
  "marked immediate rid now timeout by machine r =
     (if tk_machine r \<noteq> machine \<or> tk_revoked r then r
      else if tk_pending r \<or> immediate then r\<lparr>tk_revoked := True, tk_revoked_at := Some now, tk_revoked_by := by\<rparr>
      else r\<lparr>tk_pending := True, tk_after := Some (now + seconds timeout), tk_rotation := Some rid\<rparr>)"

lemma rotate_mark_rows: "tt_rows (snd (rotate_mark immediate rid now timeout by machine t)) = map (marked immediate rid now timeout by machine) (tt_rows t)"
  "tt_next (snd (rotate_mark immediate rid now timeout by machine t)) = tt_next t"
  by (auto simp: rotate_mark_def revoke_where_def marked_def Let_def)

lemma rotate_mark_eq: "snd (rotate_mark immediate rid now timeout by machine t) = t\<lparr>tt_rows := map (marked immediate rid now timeout by machine) (tt_rows t)\<rparr>"
  by (rule token_table.equality) (simp_all add: rotate_mark_rows)

lemma marked_same [simp]: "tk_id (marked i rid now to by m r) = tk_id r" "tk_hash (marked i rid now to by m r) = tk_hash r"
  "tk_machine (marked i rid now to by m r) = tk_machine r"
  by (simp_all add: marked_def)

lemma rotate_mark_ok [inv_intros]: "token_table_ok t \<Longrightarrow> token_table_ok (snd (rotate_mark immediate rid now timeout by machine t))"
  unfolding rotate_mark_eq
proof (rule token_table_ok_map)
  fix m
  show "(\<forall>r\<in>set (tt_rows t). tk_machine r = m \<and> ending_token (marked immediate rid now timeout by machine r) \<longrightarrow> ending_token r) \<or>
      (\<forall>r\<in>set (tt_rows t). tk_machine r = m \<and> ending_token (marked immediate rid now timeout by machine r) \<longrightarrow> live_token r)"
    by (cases "m = machine") (auto simp: marked_def live_token_def ending_token_def)
qed (auto simp: marked_def live_token_def)

lemma rotate_ok [inv_intros]: "token_table_ok t \<Longrightarrow> token_table_ok (snd (rotate_agent_token hash known i rid token now timeout by machine t))"
  using rotate_mark_ok create_token_ok(2) unfolding rotate_agent_token_def
  by (auto simp: Let_def split: prod.splits) (metis snd_conv)

text \<open>C22: Every operation on the table, also the two halves of a rotation on their own, keeps hashes and
  identifiers unique and leaves a machine at most one live token and at most one ending one.\<close>

theorem agent_tokens_one_live:
  assumes "token_table_ok t"
  shows "token_table_ok (snd (create_agent_token hash token machine v t)) \<and>
    token_table_ok (snd (rotate_mark immediate rid now timeout by machine t)) \<and>
    token_table_ok (snd (create_agent_token_with_rotation hash token machine rid ver t)) \<and>
    token_table_ok (snd (rotate_agent_token hash known immediate rid token now timeout by machine t)) \<and>
    token_table_ok (snd (confirm_token_rotation mac now clock machine rid signature stamp token t)) \<and>
    token_table_ok (snd (revoke_agent_token now by machine t)) \<and> token_table_ok (cleanup_expired_tokens db now t)"
  using assms by (intro conjI inv_intros)

theorem agent_tokens_one_live_witness: "token_table_ok (snd (revoke_agent_token 0 None ''m'' \<lparr>tt_rows = [], tt_next = 0\<rparr>))"
proof -
  have "token_table_ok \<lparr>tt_rows = [], tt_next = 0\<rparr>" by (simp add: token_table_ok_def)
  from agent_tokens_one_live [OF this] show ?thesis by blast
qed

section \<open>Validation\<close>

text \<open>A token is accepted for a machine only when its row is the machine's, has not been revoked, and
  is live or within the period of its rotation.\<close>

theorem agent_token_justified:
  assumes "validate_agent_token db hash now token machine t"
  shows "\<exists>r\<in>set (tt_rows t). tk_hash r = hash token \<and> tk_machine r = machine \<and> \<not> tk_revoked r \<and>
    (live_token r \<or> (\<exists>a. tk_after r = Some a \<and> after_now db a now))"
  using assms unfolding validate_agent_token_def
  by (auto simp: live_token_def split: option.splits if_splits dest!: find_SomeD)

lemma find_append_Some: "find P xs = Some x \<Longrightarrow> find P (xs @ ys) = Some x"
  by (induction xs) auto

lemma find_append_other: "\<not> P n \<Longrightarrow> find P (xs @ [n]) = find P xs"
  by (induction xs) auto

definition row_accepts :: "database \<Rightarrow> instant \<Rightarrow> string \<Rightarrow> agent_token \<Rightarrow> bool" where
  "row_accepts db now machine r \<longleftrightarrow> \<not> tk_revoked r \<and> (tk_pending r \<longrightarrow> (case tk_after r of None \<Rightarrow> False | Some a \<Rightarrow> after_now db a now)) \<and> tk_machine r = machine"

lemma validate_find: "validate_agent_token db hash now token machine t \<longleftrightarrow>
    (case find (\<lambda>r. tk_hash r = hash token) (tt_rows t) of None \<Rightarrow> False | Some r \<Rightarrow> row_accepts db now machine r)"
  by (auto simp: validate_agent_token_def row_accepts_def split: option.splits)

lemma validate_map:
  assumes "\<And>r. tk_hash (f r) = tk_hash r"
  shows "validate_agent_token db hash now token machine (t\<lparr>tt_rows := map f (tt_rows t)\<rparr>) \<longleftrightarrow>
    (case find (\<lambda>r. tk_hash r = hash token) (tt_rows t) of None \<Rightarrow> False | Some r \<Rightarrow> row_accepts db now machine (f r))"
  using assms by (simp add: validate_find find_map_keep option.case_eq_if option.map_sel)

section \<open>Rotations\<close>

lemma rotate_success:
  assumes "rotate_agent_token hash known immediate rid token now timeout by machine t = (Inr (Some ro), t2)"
  shows "\<exists>n. tt_rows t2 = map (marked immediate rid now timeout by machine) (tt_rows t) @ [n] \<and> tk_hash n = hash token \<and> tk_machine n = machine \<and>
    live_token n \<and> tk_version n = top_version machine t + 1 \<and> (\<forall>r\<in>set (tt_rows t). tk_hash r \<noteq> hash token)"
proof -
  let ?t1 = "snd (rotate_mark immediate rid now timeout by machine t)"
  have "fst (fst (rotate_mark immediate rid now timeout by machine t)) = top_version machine t + 1" by (simp add: rotate_mark_def Let_def)
  then have "insert_token (hash token) machine (Some rid) (top_version machine t + 1) ?t1 = (Inr (), t2)"
    using assms unfolding rotate_agent_token_def create_agent_token_with_rotation_def Let_def
    by (auto split: if_splits prod.splits)
  then show ?thesis
    unfolding insert_token_def rotate_mark_rows by (auto simp: live_token_def list_ex_iff rotate_mark_rows split: if_splits)
qed

lemma rotated_old:
  assumes "rotate_agent_token hash known immediate rid token now timeout by machine t = (Inr (Some ro), t2)"
    and r: "find (\<lambda>r. tk_hash r = hash old) (tt_rows t) = Some r" "tk_machine r = machine" "\<not> tk_revoked r"
  shows "validate_agent_token db hash now' old machine t2 \<longleftrightarrow> \<not> immediate \<and> \<not> tk_pending r \<and> after_now db (now + seconds timeout) now'"
proof -
  let ?m = "marked immediate rid now timeout by machine"
  obtain n where n: "tt_rows t2 = map ?m (tt_rows t) @ [n]" using rotate_success [OF assms(1)] by blast
  have "find (\<lambda>r. tk_hash r = hash old) (tt_rows t2) = Some (?m r)"
    unfolding n by (rule find_append_Some) (simp add: find_map_keep r(1))
  then show ?thesis using r(2,3) by (auto simp: validate_find row_accepts_def marked_def)
qed

lemma grace_helper:
  assumes "rotate_agent_token hash known False rid token now timeout by machine t = (Inr (Some ro), t2)"
    and "find (\<lambda>r. tk_hash r = hash old) (tt_rows t) = Some r" and "tk_machine r = machine" and "live_token r"
  shows "validate_agent_token db hash now' old machine t2 \<longleftrightarrow> after_now db (now + seconds timeout) now'"
  using rotated_old [OF assms(1-3)] assms(4) by (simp add: live_token_def)

lemma rotated_new:
  assumes "rotate_agent_token hash known immediate rid token now timeout by machine t = (Inr (Some ro), t2)"
  shows "validate_agent_token db hash now' token machine t2"
proof -
  let ?m = "marked immediate rid now timeout by machine"
  obtain n where n: "tt_rows t2 = map ?m (tt_rows t) @ [n]" "tk_hash n = hash token" "tk_machine n = machine" "live_token n"
    "\<forall>r\<in>set (tt_rows t). tk_hash r \<noteq> hash token"
    using rotate_success [OF assms] by blast
  have "find (\<lambda>r. tk_hash r = hash token) (map ?m (tt_rows t) @ [n]) = Some n" by (rule find_snoc) (use n in auto)
  then show ?thesis using n by (simp add: validate_find row_accepts_def live_token_def)
qed

lemma rotated_other:
  assumes "rotate_agent_token hash known immediate rid token now timeout by machine t = (Inr (Some ro), t2)"
    and other: "other \<noteq> machine" "hash x \<noteq> hash token"
  shows "validate_agent_token db hash now' x other t2 = validate_agent_token db hash now' x other t"
proof -
  let ?m = "marked immediate rid now timeout by machine"
  obtain n where n: "tt_rows t2 = map ?m (tt_rows t) @ [n]" "tk_hash n = hash token"
    using rotate_success [OF assms(1)] by blast
  have "find (\<lambda>r. tk_hash r = hash x) (tt_rows t2) = map_option ?m (find (\<lambda>r. tk_hash r = hash x) (tt_rows t))"
    unfolding n(1) using other(2) n(2) by (simp add: find_append_other find_map_keep)
  then show ?thesis using other(1) by (auto simp: validate_find row_accepts_def marked_def split: option.splits)
qed

text \<open>C13: After a rotation the new token is accepted at once. The old one is refused when the rotation was
  immediate or its own period from an earlier rotation was running. Otherwise PostgreSQL accepts it while the
  clock, shifted by the offset of the session's zone, is before the end of the timeout, so exactly for the
  timeout when the zone is UTC; SQLite accepts it until the end of the day on which the timeout ends. Tokens
  of other machines are accepted as before.\<close>

theorem rotation_outcome:
  assumes "rotate_agent_token hash known immediate rid token now timeout by machine t = (Inr (Some ro), t2)"
  shows "validate_agent_token db hash now' token machine t2 \<and>
    (\<forall>old r. find (\<lambda>r. tk_hash r = hash old) (tt_rows t) = Some r \<and> tk_machine r = machine \<and> \<not> tk_revoked r \<longrightarrow>
      (validate_agent_token db hash now' old machine t2 \<longleftrightarrow> \<not> immediate \<and> \<not> tk_pending r \<and>
        (case db of Postgres zone \<Rightarrow> now' + zone < now + seconds timeout
         | Sqlite \<Rightarrow> now' div seconds 86400 \<le> (now + seconds timeout) div seconds 86400))) \<and>
    (\<forall>x other. other \<noteq> machine \<and> hash x \<noteq> hash token \<longrightarrow> validate_agent_token db hash now' x other t2 = validate_agent_token db hash now' x other t)"
proof -
  have "after_now db (now + seconds timeout) now' \<longleftrightarrow> (case db of Postgres zone \<Rightarrow> now' + zone < now + seconds timeout
      | Sqlite \<Rightarrow> now' div seconds 86400 \<le> (now + seconds timeout) div seconds 86400)"
    by (auto simp: after_now_def day_def split: database.splits)
  then show ?thesis using rotated_new [OF assms] rotated_old [OF assms] rotated_other [OF assms] by simp
qed

lemma same_id: "token_table_ok t \<Longrightarrow> r \<in> set (tt_rows t) \<Longrightarrow> r' \<in> set (tt_rows t) \<Longrightarrow> tk_id r = tk_id r' \<Longrightarrow> r = r'"
  unfolding token_table_ok_def by (auto simp: distinct_map inj_on_def)

lemma before_not_after: "before_now db a now \<Longrightarrow> now \<le> now' \<Longrightarrow> \<not> after_now db a now'"
  by (cases db) (auto simp: before_now_def after_now_def day_def not_le dest: zdiv_mono1 [of now now' "seconds 86400"])

text \<open>The background job revokes only tokens that are refused from then on anyway: it changes no answer
  of the validation.\<close>

theorem cleanup_changes_no_answer:
  assumes "token_table_ok t" and "now \<le> now'"
  shows "validate_agent_token db hash now' token machine (cleanup_expired_tokens db now t) = validate_agent_token db hash now' token machine t"
proof (cases "find (\<lambda>r. tk_hash r = hash token) (tt_rows t)")
  case (Some r)
  let ?dead = "\<lambda>r. tk_pending r \<and> \<not> tk_revoked r \<and> (case tk_after r of None \<Rightarrow> False | Some a \<Rightarrow> before_now db a now)"
  have "?dead r" if h: "tk_id r \<in> set (map tk_id (filter ?dead (tt_rows t)))"
  proof -
    obtain r' where "r' \<in> set (tt_rows t)" "?dead r'" "tk_id r' = tk_id r" using h by auto
    then show ?thesis using same_id [OF assms(1)] find_SomeD [OF Some] by metis
  qed
  moreover have "\<not> row_accepts db now' machine r" if "?dead r"
    using that before_not_after [OF _ assms(2), of db] by (cases "tk_after r") (simp_all add: row_accepts_def)
  ultimately have "row_accepts db now' machine (if tk_id r \<in> set (map tk_id (filter ?dead (tt_rows t)))
      then r\<lparr>tk_revoked := True, tk_revoked_at := Some now, tk_pending := False\<rparr> else r) = row_accepts db now' machine r"
    by (cases "tk_id r \<in> set (map tk_id (filter ?dead (tt_rows t)))") (simp_all only: if_True if_False, simp add: row_accepts_def)
  then show ?thesis unfolding cleanup_expired_tokens_def Let_def
    by (subst validate_map) (simp, simp only: Some validate_find option.case)
next
  case None
  then show ?thesis unfolding cleanup_expired_tokens_def Let_def by (subst validate_map) (auto simp: validate_find)
qed


text \<open>On Postgres the period is right only when the session's time zone is UTC: east of it, by more than
  the timeout, the old token is refused from the moment of the rotation.\<close>

theorem postgres_zone_ends_grace:
  assumes "rotate_agent_token hash known False rid token now timeout by machine t = (Inr (Some ro), t2)"
    and "find (\<lambda>r. tk_hash r = hash old) (tt_rows t) = Some r" and "tk_machine r = machine" and "live_token r"
  shows "(validate_agent_token (Postgres 0) hash now' old machine t2 \<longleftrightarrow> now' < now + seconds timeout) \<and>
    (seconds timeout \<le> zone \<and> now \<le> now' \<longrightarrow> \<not> validate_agent_token (Postgres zone) hash now' old machine t2)"
  using grace_helper [OF assms] by (auto simp: after_now_def)

lemma confirm_cases:
  assumes "confirm_token_rotation mac now clock machine rid signature stamp presented t = (True, t')"
  shows "(t' = t \<and> find (\<lambda>r. tk_rotation r = Some rid \<and> ending_token r) (tt_rows t) = None) \<or>
    (\<exists>r. find (\<lambda>r. tk_rotation r = Some rid \<and> ending_token r) (tt_rows t) = Some r \<and> tk_machine r = machine \<and>
       t' = t\<lparr>tt_rows := map (\<lambda>x. if tk_id x = tk_id r then x\<lparr>tk_revoked := True, tk_revoked_at := Some now, tk_pending := False\<rparr> else x) (tt_rows t)\<rparr>)"
  using assms unfolding confirm_token_rotation_def ending_token_def by (auto split: if_splits option.splits)

text \<open>A confirmed rotation refuses the old token of the machine from then on, whatever its period, and
  leaves every other token as it was.\<close>

theorem confirmation_ends_old_token:
  assumes "confirm_token_rotation mac now clock machine rid signature stamp presented t = (True, t')" and "token_table_ok t"
    and "find (\<lambda>r. tk_hash r = hash token) (tt_rows t) = Some r"
  shows "ending_token r \<Longrightarrow> tk_rotation r = Some rid \<Longrightarrow> tk_machine r = machine \<Longrightarrow> \<not> validate_agent_token db hash now' token m t'"
    and "\<not> (ending_token r \<and> tk_rotation r = Some rid \<and> tk_machine r = machine) \<Longrightarrow>
      validate_agent_token db hash now' token m t' = validate_agent_token db hash now' token m t"
proof -
  let ?P = "\<lambda>r. tk_rotation r = Some rid \<and> ending_token r"
  have r: "r \<in> set (tt_rows t)" using find_SomeD [OF assms(3)] by blast
  note c = confirm_cases [OF assms(1)]
  show "\<not> validate_agent_token db hash now' token m t'" if "ending_token r" "tk_rotation r = Some rid" "tk_machine r = machine"
  proof -
    have "find ?P (tt_rows t) \<noteq> None" using r that by (auto simp: find_None_iff)
    with c obtain x where x: "find ?P (tt_rows t) = Some x" "tk_machine x = machine"
      "t' = t\<lparr>tt_rows := map (\<lambda>y. if tk_id y = tk_id x then y\<lparr>tk_revoked := True, tk_revoked_at := Some now, tk_pending := False\<rparr> else y) (tt_rows t)\<rparr>"
      by blast
    have "x = r" using assms(2) r that find_SomeD [OF x(1)] x(2) unfolding token_table_ok_def by blast
    then show ?thesis unfolding x(3) by (subst validate_map) (simp_all add: assms(3) row_accepts_def)
  qed
  show "validate_agent_token db hash now' token m t' = validate_agent_token db hash now' token m t"
    if other: "\<not> (ending_token r \<and> tk_rotation r = Some rid \<and> tk_machine r = machine)"
  proof (cases "t' = t")
    case False
    then obtain x where x: "find ?P (tt_rows t) = Some x" "tk_machine x = machine"
      "t' = t\<lparr>tt_rows := map (\<lambda>y. if tk_id y = tk_id x then y\<lparr>tk_revoked := True, tk_revoked_at := Some now, tk_pending := False\<rparr> else y) (tt_rows t)\<rparr>"
      using c by blast
    have "tk_id r \<noteq> tk_id x" using same_id [OF assms(2) r] find_SomeD [OF x(1)] x(2) other by blast
    then show ?thesis unfolding x(3) by (subst validate_map) (simp_all add: assms(3) validate_find)
  qed simp
qed

text \<open>The confirmation does not show that the agent has the new token: the key of the signature is
  whatever token the request carries, so the old one confirms as well.\<close>

theorem any_token_confirms:
  "confirm_token_rotation mac now clock machine rid (mac key rid stamp) stamp key t =
   confirm_token_rotation mac now clock machine rid (mac key' rid stamp) stamp key' t"
  by (simp add: confirm_token_rotation_def)

text \<open>Revoking the tokens of a machine refuses all of them at any later time, and leaves the tokens of
  the others alone.\<close>

theorem revoked_agent_refused:
  assumes "find (\<lambda>r. tk_hash r = hash token) (tt_rows t) = Some r"
  shows "validate_agent_token db hash now' token m (snd (revoke_agent_token now by machine t)) \<longleftrightarrow>
    tk_machine r \<noteq> machine \<and> validate_agent_token db hash now' token m t"
  unfolding revoke_agent_token_def revoke_where_def snd_conv
  by (subst validate_map) (auto simp: assms validate_find row_accepts_def)

text \<open>The period of an old token is between a minute and an hour, whatever the machine and the
  environment say.\<close>

theorem revoke_timeout_bounds: "60 \<le> get_token_revoke_timeout preset row \<and> get_token_revoke_timeout preset row \<le> 3600"
  by (auto simp: get_token_revoke_timeout_def clamp_timeout_def split: sum.splits option.splits)

section \<open>Registration tokens are used once\<close>

text \<open>Within a process the lookup and the update run under one lock. \<open>rs_issued\<close> are the hashes ever
  stored; a new one is fresh.\<close>

record registration_state =
  rs_rows :: "registration_row list"
  rs_issued :: "string set"

inductive registration_step :: "(string \<Rightarrow> string) \<Rightarrow> registration_state \<Rightarrow> string option \<Rightarrow> registration_state \<Rightarrow> bool" for hash where
  create: "hash token \<notin> rs_issued s \<Longrightarrow> i \<notin> rg_id ` set (rs_rows s) \<Longrightarrow>
     registration_step hash s None (s\<lparr>rs_rows := snd (create_registration_token hash i token now tenant who (rs_rows s)), rs_issued := insert (hash token) (rs_issued s)\<rparr>)"
| consume: "consume_registration_token hash now token (rs_rows s) = (r, rows) \<Longrightarrow>
     registration_step hash s (if r = None then None else Some (hash token)) (s\<lparr>rs_rows := rows\<rparr>)"
| cleanup: "registration_step hash s None (s\<lparr>rs_rows := snd (cleanup_expired_registration_tokens now (rs_rows s))\<rparr>)"

definition registration_inv :: "registration_state \<Rightarrow> bool" where
  "registration_inv s \<longleftrightarrow> distinct (map rg_id (rs_rows s)) \<and> distinct (map rg_hash (rs_rows s)) \<and> rg_hash ` set (rs_rows s) \<subseteq> rs_issued s"

definition registration_spent :: "string \<Rightarrow> registration_state \<Rightarrow> bool" where
  "registration_spent h s \<longleftrightarrow> h \<in> rs_issued s \<and> (\<forall>r\<in>set (rs_rows s). rg_hash r = h \<longrightarrow> rg_consumed r)"

lemma mark_consumed_maps: "map rg_id (mark_consumed i now rows) = map rg_id rows" "map rg_hash (mark_consumed i now rows) = map rg_hash rows"
  by (induction rows) (auto simp: mark_consumed_def)

lemma mark_consumed_image: "rg_hash ` set (mark_consumed i now rows) = rg_hash ` set rows"
  by (metis mark_consumed_maps(2) set_map)

lemma mark_consumed_spent: "h \<in> rs_issued s \<Longrightarrow> registration_spent h s \<Longrightarrow> registration_spent h (s\<lparr>rs_rows := mark_consumed i now (rs_rows s)\<rparr>)"
  by (auto simp: registration_spent_def mark_consumed_def)

lemma consume_cases:
  "consume_registration_token hash now token rows = (r, rows') \<Longrightarrow> (r = None \<and> rows' = rows) \<or>
   (\<exists>x. r = Some (rg_tenant x, rg_created_by x) \<and> x \<in> set rows \<and> rg_hash x = hash token \<and> \<not> rg_consumed x \<and> rows' = mark_consumed (rg_id x) now rows)"
  unfolding consume_registration_token_def registration_open_def
  by (auto split: option.splits if_splits dest!: find_SomeD)

lemma cleanup_rows: "snd (cleanup_expired_registration_tokens now rows) =
    filter (\<lambda>r. rg_consumed r \<or> (case rg_expires r of Some x \<Rightarrow> \<not> x < now | None \<Rightarrow> True)) rows"
  by (auto simp: cleanup_expired_registration_tokens_def Let_def intro!: filter_cong split: option.splits)

lemma registration_step_keeps:
  assumes "registration_step hash s e s'" and "registration_inv s"
  shows "registration_inv s' \<and> (registration_spent h s \<longrightarrow> registration_spent h s')"
  using assms
proof (cases rule: registration_step.cases)
  case (create token i now tenant who)
  then have "create_registration_token hash i token now tenant who (rs_rows s) = (Inr token, rs_rows s @ [\<lparr>rg_id = i, rg_hash = hash token,
      rg_tenant = tenant, rg_created_by = who, rg_expires = Some (now + seconds registration_token_ttl), rg_consumed = False, rg_consumed_at = None\<rparr>])"
    using assms(2) by (auto simp: create_registration_token_def registration_inv_def list_ex_iff)
  then show ?thesis using create assms(2) by (auto simp: registration_inv_def registration_spent_def)
next
  case (consume now token r rows)
  have "registration_inv (s\<lparr>rs_rows := mark_consumed i now (rs_rows s)\<rparr>)" for i
    using assms(2) by (simp add: registration_inv_def mark_consumed_maps mark_consumed_image)
  moreover have "registration_spent h s \<longrightarrow> registration_spent h (s\<lparr>rs_rows := mark_consumed i now (rs_rows s)\<rparr>)" for i
    using mark_consumed_spent by (auto simp: registration_spent_def)
  ultimately show ?thesis using consume_cases [OF consume(3)] consume(2) assms(2) by auto
next
  case (cleanup now)
  then show ?thesis using assms(2) by (auto simp: registration_inv_def registration_spent_def cleanup_rows distinct_map_filter)
qed

lemma registration_step_accepts:
  assumes "registration_step hash s (Some h) s'" and "registration_inv s"
  shows "\<not> registration_spent h s \<and> registration_spent h s'"
  using assms
proof (cases rule: registration_step.cases)
  case (consume now token r rows)
  then obtain x where x: "x \<in> set (rs_rows s)" "rg_hash x = h" "\<not> rg_consumed x" "rows = mark_consumed (rg_id x) now (rs_rows s)"
    using consume_cases [OF consume(3)] by (auto split: if_splits)
  have same: "y = x" if "y \<in> set (rs_rows s)" "rg_hash y = h" for y
    using that x(1,2) assms(2) by (auto simp: registration_inv_def distinct_map inj_on_def)
  have "h \<in> rs_issued s" using x(1,2) assms(2) by (auto simp: registration_inv_def)
  moreover have "rg_consumed r" if r: "r \<in> set rows" "rg_hash r = h" for r
  proof -
    obtain y where y: "y \<in> set (rs_rows s)" "r = (if rg_id y = rg_id x then y\<lparr>rg_consumed := True, rg_consumed_at := Some now\<rparr> else y)"
      using r(1) unfolding x(4) mark_consumed_def by auto
    then have "rg_hash y = h" using r(2) by (simp split: if_splits)
    then show ?thesis using same [OF y(1)] y(2) by simp
  qed
  moreover have "\<not> registration_spent h s" using x(1-3) by (auto simp: registration_spent_def)
  ultimately show ?thesis using consume(2) by (simp add: registration_spent_def)
qed

interpretation registration: single_use "registration_step hash" registration_inv registration_spent "\<lambda>e. e"
  by unfold_locales (use registration_step_keeps registration_step_accepts in blast)+

text \<open>Within one process a registration token registers at most one machine, however registrations,
  new tokens and cleanups follow each other.\<close>

theorem registration_once:
  assumes "runs (registration_step hash) \<lparr>rs_rows = [], rs_issued = {}\<rparr> events s"
  shows "length (filter (\<lambda>e. e = Some h) events) \<le> 1"
proof -
  have "registration_inv \<lparr>rs_rows = [], rs_issued = {}\<rparr>" by (simp add: registration_inv_def)
  then show ?thesis by (rule registration.accepted_once [OF assms])
qed

text \<open>Between processes the lookup and the update are separate: the lock is the process's own, and the
  update does not ask whether the row is still open.\<close>

record registration_split =
  rp_rows :: "registration_row list"
  rp_read :: "nat \<Rightarrow> registration_row option"

inductive registration_split_step :: "(string \<Rightarrow> string) \<Rightarrow> registration_split \<Rightarrow> string option \<Rightarrow> registration_split \<Rightarrow> bool" for hash where
  look_up: "registration_open hash now token (rp_rows s) = Some r \<Longrightarrow>
     registration_split_step hash s None (s\<lparr>rp_read := (rp_read s)(c \<mapsto> r)\<rparr>)"
| update: "rp_read s c = Some r \<Longrightarrow>
     registration_split_step hash s (Some (rg_hash r)) (s\<lparr>rp_rows := mark_consumed (rg_id r) now (rp_rows s), rp_read := (rp_read s)(c := None)\<rparr>)"

text \<open>Between two processes an open registration token can register two machines.\<close>

theorem registration_race:
  assumes "registration_open hash now token rows = Some r"
  shows "\<exists>events s. runs (registration_split_step hash) \<lparr>rp_rows = rows, rp_read = (\<lambda>_. None)\<rparr> events s \<and>
    length (filter (\<lambda>e. e = Some (hash token)) events) = 2"
proof -
  have h: "rg_hash r = hash token"
    using assms unfolding registration_open_def by (auto split: option.splits if_splits dest!: find_SomeD)
  let ?s0 = "\<lparr>rp_rows = rows, rp_read = (\<lambda>_. None)\<rparr>"
  let ?s1 = "?s0\<lparr>rp_read := (rp_read ?s0)(0 \<mapsto> r)\<rparr>"
  let ?s2 = "?s1\<lparr>rp_read := (rp_read ?s1)(1 \<mapsto> r)\<rparr>"
  let ?s3 = "?s2\<lparr>rp_rows := mark_consumed (rg_id r) now (rp_rows ?s2), rp_read := (rp_read ?s2)(0 := None)\<rparr>"
  let ?s4 = "?s3\<lparr>rp_rows := mark_consumed (rg_id r) now (rp_rows ?s3), rp_read := (rp_read ?s3)(1 := None)\<rparr>"
  have "registration_split_step hash ?s0 None ?s1" by (rule look_up [where now = now and token = token]) (simp add: assms)
  moreover have "registration_split_step hash ?s1 None ?s2" by (rule look_up [where now = now and token = token]) (simp add: assms)
  moreover have "registration_split_step hash ?s2 (Some (rg_hash r)) ?s3" by (rule update) simp
  moreover have "registration_split_step hash ?s3 (Some (rg_hash r)) ?s4" by (rule update) simp
  ultimately have "runs (registration_split_step hash) ?s0 [None, None, Some (rg_hash r), Some (rg_hash r)] ?s4"
    by (blast intro: runs.intros)
  then show ?thesis using h by fastforce
qed

section \<open>Witnesses\<close>

definition agent1 :: agent_token where
  "agent1 = \<lparr>tk_id = 0, tk_hash = ''a'', tk_machine = ''m'', tk_revoked = False, tk_revoked_at = None, tk_revoked_by = None, tk_pending = False,
     tk_after = None, tk_rotation = None, tk_version = 1\<rparr>"

definition agents1 :: token_table where "agents1 = \<lparr>tt_rows = [agent1], tt_next = 1\<rparr>"

definition agents2 :: token_table where
  "agents2 = snd (rotate_agent_token (\<lambda>x. x) True False ''r'' ''b'' 0 300 None ''m'' agents1)"

lemma agents1_facts: "token_table_ok agents1" "find (\<lambda>r. tk_hash r = ''a'') (tt_rows agents1) = Some agent1" "tk_machine agent1 = ''m''"
  "live_token agent1" "\<not> tk_revoked agent1"
  by (auto simp: token_table_ok_def agents1_def agent1_def live_token_def)

lemma agents2_rotated: "rotate_agent_token (\<lambda>x. x) True False ''r'' ''b'' 0 300 None ''m'' agents1 =
    (Inr (Some \<lparr>ro_token = ''b'', ro_id = ''r'', ro_version = 2, ro_unrevoked = False, ro_immediate = False\<rparr>), agents2)"
  unfolding agents2_def by code_simp

theorem agent_token_justified_witness: "\<exists>r\<in>set (tt_rows agents1). tk_hash r = ''a'' \<and> tk_machine r = ''m'' \<and> \<not> tk_revoked r"
proof -
  have "validate_agent_token Sqlite (\<lambda>x. x) 0 ''a'' ''m'' agents1" by (simp add: validate_agent_token_def agents1_def agent1_def)
  from agent_token_justified [OF this] show ?thesis by blast
qed

theorem rotation_outcome_witness:
  "validate_agent_token (Postgres 0) (\<lambda>x. x) 5 ''b'' ''m'' agents2 \<and>
   (validate_agent_token (Postgres 0) (\<lambda>x. x) 5 ''a'' ''m'' agents2 \<longleftrightarrow> 5 < seconds 300)"
  using rotation_outcome [OF agents2_rotated, of "Postgres 0" 5] agents1_facts
  by (simp add: live_token_def)

theorem cleanup_changes_no_answer_witness:
  "validate_agent_token Sqlite (\<lambda>x. x) 5 ''a'' ''m'' (cleanup_expired_tokens Sqlite 4 agents1) = validate_agent_token Sqlite (\<lambda>x. x) 5 ''a'' ''m'' agents1"
  by (rule cleanup_changes_no_answer [OF agents1_facts(1)]) simp


theorem postgres_zone_ends_grace_witness:
  "validate_agent_token (Postgres 0) (\<lambda>x. x) 1 ''a'' ''m'' agents2 \<and> \<not> validate_agent_token (Postgres (seconds 3600)) (\<lambda>x. x) 1 ''a'' ''m'' agents2"
  using postgres_zone_ends_grace [OF agents2_rotated, of "''a''" agent1 1 "seconds 3600"] agents1_facts by simp

lemma agents2_facts: "token_table_ok agents2"
  "find (\<lambda>r. tk_hash r = ''a'') (tt_rows agents2) = Some (agent1\<lparr>tk_pending := True, tk_after := Some (seconds 300), tk_rotation := Some ''r''\<rparr>)"
  "fst (confirm_token_rotation (\<lambda>k r s. k) 5 0 ''m'' ''r'' ''b'' 0 ''b'' agents2) = True"
  using rotate_ok [OF agents1_facts(1)] unfolding agents2_def by (simp, code_simp, code_simp)

theorem confirmation_ends_old_token_witness:
  "\<not> validate_agent_token Sqlite (\<lambda>x. x) 6 ''a'' ''m'' (snd (confirm_token_rotation (\<lambda>k r s. k) 5 0 ''m'' ''r'' ''b'' 0 ''b'' agents2))"
proof -
  have c: "confirm_token_rotation (\<lambda>k r s. k) 5 0 ''m'' ''r'' ''b'' 0 ''b'' agents2 =
      (True, snd (confirm_token_rotation (\<lambda>k r s. k) 5 0 ''m'' ''r'' ''b'' 0 ''b'' agents2))"
    using agents2_facts(3) by (metis prod.collapse)
  show ?thesis
    by (rule confirmation_ends_old_token(1) [where hash = "\<lambda>x. x", OF c agents2_facts(1,2)]) (simp_all add: ending_token_def agent1_def)
qed

theorem revoked_agent_refused_witness: "\<not> validate_agent_token Sqlite (\<lambda>x. x) 6 ''a'' ''m'' (snd (revoke_agent_token 5 None ''m'' agents1))"
  using revoked_agent_refused [where hash = "\<lambda>x. x", OF agents1_facts(2), of Sqlite 6 "''m''" 5 None "''m''"] agents1_facts(3) by simp

definition registered1 :: registration_row where
  "registered1 = \<lparr>rg_id = 0, rg_hash = ''t'', rg_tenant = 1, rg_created_by = 2, rg_expires = None, rg_consumed = False, rg_consumed_at = None\<rparr>"

theorem registration_race_witness:
  "\<exists>events s. runs (registration_split_step (\<lambda>x. x)) \<lparr>rp_rows = [registered1], rp_read = (\<lambda>_. None)\<rparr> events s \<and>
    length (filter (\<lambda>e. e = Some ''t'') events) = 2"
proof -
  have "registration_open (\<lambda>x. x) 0 ''t'' [registered1] = Some registered1" by (simp add: registration_open_def registered1_def)
  from registration_race [OF this] show ?thesis by simp
qed

lemma registration_run1: "runs (registration_step (\<lambda>x. x)) \<lparr>rs_rows = [], rs_issued = {}\<rparr> [None, Some ''t'']
    \<lparr>rs_rows = snd (consume_registration_token (\<lambda>x. x) 5 ''t'' (snd (create_registration_token (\<lambda>x. x) 0 ''t'' 0 1 2 []))), rs_issued = {''t''}\<rparr>"
proof -
  let ?s1 = "\<lparr>rs_rows = snd (create_registration_token (\<lambda>x. x) 0 ''t'' 0 1 2 []), rs_issued = {''t''}\<rparr>"
  have "registration_step (\<lambda>x. x) \<lparr>rs_rows = [], rs_issued = {}\<rparr> None ?s1"
    using registration_step.create [of "\<lambda>x. x" "''t''" "\<lparr>rs_rows = [], rs_issued = {}\<rparr>" 0 0 1 2] by simp
  moreover have "registration_step (\<lambda>x. x) ?s1 (Some ''t'') (?s1\<lparr>rs_rows := snd (consume_registration_token (\<lambda>x. x) 5 ''t'' (rs_rows ?s1))\<rparr>)"
    using registration_step.consume [of "\<lambda>x. x" 5 "''t''" ?s1 "Some (1, 2)"]
    by (simp add: create_registration_token_def consume_registration_token_def registration_open_def registration_token_ttl_def)
  ultimately show ?thesis by (auto intro: runs.intros)
qed

theorem registration_once_witness: "length (filter (\<lambda>e. e = Some ''t'') [None, Some ''t'']) \<le> 1"
  by (rule registration_once [OF registration_run1])

end
