(* ===== verification/Remote_Commands.thy ===== *)
theory Remote_Commands
  imports Agent_Tokens Proxy_Token
begin

text \<open>
  The commands for remote agents (\<^verbatim>\<open>modules/workspace/remote_agent_manager.py\<close>, command dispatch): a row of
  \<^verbatim>\<open>remote_runtime_commands\<close> when the database takes it, an entry of the process's own queue otherwise;
  claimed by the next poll of the machine, claimed again when no answer has come for five minutes, and
  answered. JSON, the text of values and the identifiers of new commands are parameters; \<open>ok\<close> says
  whether the database executes a statement.
\<close>

section \<open>The table and the queues\<close>

record command_row =
  cm_id :: nat
  cm_command_id :: string
  cm_machine :: string
  cm_session :: "string option"
  cm_type :: string
  cm_payload :: string
  cm_status :: string
  cm_response :: "string option"
  cm_delivered :: "instant option"
  cm_expires :: "instant option"
  cm_responded :: "instant option"

record command_env =
  ce_str :: "json \<Rightarrow> string"
  ce_dumps :: "json \<Rightarrow> string"
  ce_loads :: "string \<Rightarrow> json option"

record command_state =
  cs_rows :: "command_row list"
  cs_next :: nat
  cs_queues :: "string \<Rightarrow> payload list"

definition command_ttl_seconds :: int where "command_ttl_seconds = 3600"
definition command_claim_timeout_seconds :: int where "command_claim_timeout_seconds = 300"

definition str_value :: "command_env \<Rightarrow> json \<Rightarrow> string" where
  "str_value e v = (case v of JStr s \<Rightarrow> s | _ \<Rightarrow> ce_str e v)"

text \<open>\<open>a or b or c\<close> on the entries of a command.\<close>

definition first_true :: "payload \<Rightarrow> string list \<Rightarrow> json option" where
  "first_true p ks = find truthy (map (pl p) ks)"

definition command_identifier :: "command_env \<Rightarrow> string \<Rightarrow> payload \<Rightarrow> string" where
  "command_identifier e fresh c = (case first_true c [''command_id'', ''request_id''] of None \<Rightarrow> fresh | Some v \<Rightarrow> str_value e v)"

definition command_type :: "command_env \<Rightarrow> payload \<Rightarrow> string" where
  "command_type e c = (case first_true c [''command'', ''type''] of None \<Rightarrow> [] | Some v \<Rightarrow> str_value e v)"

definition persist_command :: "command_env \<Rightarrow> bool \<Rightarrow> string \<Rightarrow> instant \<Rightarrow> string \<Rightarrow> payload \<Rightarrow> command_state \<Rightarrow> bool \<times> command_state" where
  "persist_command e ok fresh now machine c s =
     (let key = command_identifier e fresh c; c' = AList.update ''command_id'' (JStr key) c in
      if \<not> ok \<or> list_ex (\<lambda>r. cm_command_id r = key) (cs_rows s) then (False, s)
      else (True, s\<lparr>cs_rows := cs_rows s @ [\<lparr>cm_id = cs_next s, cm_command_id = key, cm_machine = machine,
          cm_session = (if truthy (pl c' ''session_id'') then Some (str_value e (pl c' ''session_id'')) else None), cm_type = command_type e c',
          cm_payload = ce_dumps e (JObj c'), cm_status = ''pending'', cm_response = None, cm_delivered = None,
          cm_expires = Some (now + seconds command_ttl_seconds), cm_responded = None\<rparr>], cs_next := cs_next s + 1\<rparr>))"

record command_result =
  cr_queued :: bool
  cr_persisted :: bool
  cr_degraded :: bool

definition send_command_with_status ::
    "command_env \<Rightarrow> bool \<Rightarrow> string \<Rightarrow> instant \<Rightarrow> string \<Rightarrow> payload \<Rightarrow> command_state \<Rightarrow> command_result \<times> command_state" where
  "send_command_with_status e ok fresh now machine c s =
     (let (persisted, s') = persist_command e ok fresh now machine c s in
      (\<lparr>cr_queued = True, cr_persisted = persisted, cr_degraded = \<not> persisted\<rparr>,
       if persisted then s' else s'\<lparr>cs_queues := (cs_queues s')(machine := cs_queues s' machine @ [c])\<rparr>))"

definition send_command :: "command_env \<Rightarrow> bool \<Rightarrow> string \<Rightarrow> instant \<Rightarrow> string \<Rightarrow> payload \<Rightarrow> command_state \<Rightarrow> bool \<times> command_state" where
  "send_command e ok fresh now machine c s = map_prod cr_queued (\<lambda>s. s) (send_command_with_status e ok fresh now machine c s)"

section \<open>Claiming\<close>

definition claimable :: "instant \<Rightarrow> string \<Rightarrow> command_row \<Rightarrow> bool" where
  "claimable now machine r \<longleftrightarrow> cm_machine r = machine \<and>
     (cm_status r = ''pending'' \<or> (cm_status r = ''delivered'' \<and>
        (case cm_delivered r of None \<Rightarrow> False | Some d \<Rightarrow> d < now - seconds command_claim_timeout_seconds))) \<and>
     (case cm_expires r of None \<Rightarrow> True | Some x \<Rightarrow> now < x)"

record claim =
  cl_id :: nat
  cl_payload :: payload
  cl_rotate :: bool

definition read_claim :: "command_env \<Rightarrow> command_row \<Rightarrow> claim option" where
  "read_claim e r =
     (case ce_loads e (cm_payload r) of
        Some (JObj p) \<Rightarrow> Some \<lparr>cl_id = cm_id r, cl_payload = p,
          cl_rotate = (if cm_type r \<noteq> [] then cm_type r = ''rotate_token'' else pl_or p ''command'' (JStr []) = JStr ''rotate_token'')\<rparr>
      | _ \<Rightarrow> None)"

definition rotate_version :: "claim \<Rightarrow> int option" where
  "rotate_version c = (case pl_or (cl_payload c) ''token_version'' (JInt 0) of JInt n \<Rightarrow> Some n | _ \<Rightarrow> None)"

definition latest_rotate :: "claim list \<Rightarrow> claim" where
  "latest_rotate cs = hd (sort_key (\<lambda>c. - the (rotate_version c)) cs)"

text \<open>Whether the token a rotation brings has not been revoked.\<close>

definition rotation_live :: "string \<Rightarrow> token_table \<Rightarrow> claim \<Rightarrow> bool" where
  "rotation_live machine tokens c \<longleftrightarrow> (case rotate_version c of None \<Rightarrow> False
     | Some v \<Rightarrow> list_ex (\<lambda>r. tk_machine r = machine \<and> tk_version r = v \<and> \<not> tk_revoked r) (tt_rows tokens))"

definition set_status :: "string \<Rightarrow> nat list \<Rightarrow> command_row list \<Rightarrow> command_row list" where
  "set_status status ids rows = map (\<lambda>r. if cm_id r \<in> set ids then r\<lparr>cm_status := status\<rparr> else r) rows"

definition set_delivered :: "instant \<Rightarrow> nat list \<Rightarrow> command_row list \<Rightarrow> command_row list" where
  "set_delivered now ids rows = map (\<lambda>r. if cm_id r \<in> set ids \<and> (cm_status r = ''pending'' \<or> cm_status r = ''delivered'')
     then r\<lparr>cm_status := ''delivered'', cm_delivered := Some now\<rparr> else r) rows"

text \<open>The commands a poll reads, a hundred at most, without the corrupt ones; of several rotations the
  latest is kept.\<close>

definition read_claims :: "command_env \<Rightarrow> instant \<Rightarrow> string \<Rightarrow> command_row list \<Rightarrow> claim list" where
  "read_claims e now machine rows = List.map_filter (read_claim e) (take 100 (filter (claimable now machine) rows))"

definition kept_rotates :: "claim list \<Rightarrow> claim list" where
  "kept_rotates cs = (let rotates = filter cl_rotate cs in if 1 < length rotates then [latest_rotate rotates] else rotates)"

definition claims_to_take :: "string \<Rightarrow> token_table \<Rightarrow> claim list \<Rightarrow> claim list" where
  "claims_to_take machine tokens cs = filter (rotation_live machine tokens) (kept_rotates cs) @ filter (\<lambda>c. \<not> cl_rotate c) cs"

definition expired_claims :: "string \<Rightarrow> token_table \<Rightarrow> claim list \<Rightarrow> nat list" where
  "expired_claims machine tokens cs =
     filter (\<lambda>i. i \<notin> cl_id ` set (kept_rotates cs)) (map cl_id (filter cl_rotate cs)) @
     map cl_id (filter (\<lambda>c. \<not> rotation_live machine tokens c) (kept_rotates cs))"

text \<open>Versions that cannot be compared raise, and the failed claim takes nothing. Without a command to claim
  the transaction is not committed.\<close>

definition claim_transaction :: "command_env \<Rightarrow> instant \<Rightarrow> token_table \<Rightarrow> string \<Rightarrow> command_row list \<Rightarrow> payload list \<times> command_row list" where
  "claim_transaction e now tokens machine rows =
     (let cs = read_claims e now machine rows; rotates = filter cl_rotate cs; claimed = claims_to_take machine tokens cs
      in if 1 < length rotates \<and> list_ex (\<lambda>c. rotate_version c = None) rotates \<or> claimed = [] then ([], rows)
         else (map cl_payload claimed, set_delivered now (map cl_id claimed) (set_status ''expired'' (expired_claims machine tokens cs) rows)))"

text \<open>How the claim runs: a statement fails, the commit fails, which rolls the rows back but hands out the
  commands already collected, or it commits.\<close>

datatype claim_run = Query_Fails | Commit_Fails | Commits

definition claim_persisted_commands ::
    "command_env \<Rightarrow> claim_run \<Rightarrow> instant \<Rightarrow> token_table \<Rightarrow> string \<Rightarrow> command_row list \<Rightarrow> payload list \<times> command_row list" where
  "claim_persisted_commands e run now tokens machine rows =
     (case run of Query_Fails \<Rightarrow> ([], rows)
      | Commit_Fails \<Rightarrow> (fst (claim_transaction e now tokens machine rows), rows)
      | Commits \<Rightarrow> claim_transaction e now tokens machine rows)"

definition get_pending_commands :: "command_env \<Rightarrow> claim_run \<Rightarrow> instant \<Rightarrow> token_table \<Rightarrow> string \<Rightarrow> command_state \<Rightarrow> payload list \<times> command_state" where
  "get_pending_commands e run now tokens machine s =
     (let (claimed, rows) = claim_persisted_commands e run now tokens machine (cs_rows s)
      in (cs_queues s machine @ claimed, s\<lparr>cs_rows := rows, cs_queues := (cs_queues s)(machine := [])\<rparr>))"

section \<open>Responses\<close>

definition persist_command_response :: "command_env \<Rightarrow> string \<Rightarrow> json \<Rightarrow> instant \<Rightarrow> command_row list \<Rightarrow> bool \<times> command_row list" where
  "persist_command_response e rid result now rows =
     (list_ex (\<lambda>r. cm_command_id r = rid) rows,
      map (\<lambda>r. if cm_command_id r = rid then r\<lparr>cm_status := ''responded'',
          cm_response := (if result = JNull then None else Some (ce_dumps e result)), cm_responded := Some now\<rparr> else r) rows)"

definition get_persisted_command_response :: "command_env \<Rightarrow> string \<Rightarrow> command_row list \<Rightarrow> payload option" where
  "get_persisted_command_response e rid rows =
     (case find (\<lambda>r. cm_command_id r = rid) rows of
        None \<Rightarrow> None
      | Some r \<Rightarrow> (case cm_response r of None \<Rightarrow> None
          | Some text \<Rightarrow> if text = [] then None else (case ce_loads e text of Some (JObj p) \<Rightarrow> Some p | _ \<Rightarrow> None)))"

text \<open>A waiter looks every fifth of a second, until its deadline, at the event of its own process and then at
  the table; the polls before the deadline are given with what it finds.\<close>

fun await_response :: "command_env \<Rightarrow> string \<Rightarrow> (json option \<times> command_row list) list \<Rightarrow> json" where
  "await_response e rid [] = JNull"
| "await_response e rid ((Some result, rows) # polls) = result"
| "await_response e rid ((None, rows) # polls) =
     (case get_persisted_command_response e rid rows of Some p \<Rightarrow> JObj p | None \<Rightarrow> await_response e rid polls)"

section \<open>The table stays well formed\<close>

definition command_rows_ok :: "command_state \<Rightarrow> bool" where
  "command_rows_ok s \<longleftrightarrow> distinct (map cm_id (cs_rows s)) \<and> distinct (map cm_command_id (cs_rows s)) \<and> (\<forall>r\<in>set (cs_rows s). cm_id r < cs_next s)"

lemma command_rows_ok_map:
  assumes "command_rows_ok s" and "\<And>r. cm_id (f r) = cm_id r \<and> cm_command_id (f r) = cm_command_id r"
  shows "command_rows_ok (s\<lparr>cs_rows := map f (cs_rows s)\<rparr>)" and "command_rows_ok (s\<lparr>cs_rows := map f (cs_rows s), cs_queues := q\<rparr>)"
  using assms by (auto simp: command_rows_ok_def comp_def)

lemma command_rows_ok_queues [simp]: "command_rows_ok (s\<lparr>cs_queues := q\<rparr>) = command_rows_ok s" "command_rows_ok (s\<lparr>cs_rows := cs_rows s, cs_queues := q\<rparr>) = command_rows_ok s"
  by (simp_all add: command_rows_ok_def)

lemma persist_ok [inv_intros]: "command_rows_ok s \<Longrightarrow> command_rows_ok (snd (persist_command e ok fresh now machine c s))"
  unfolding persist_command_def command_rows_ok_def by (auto simp: Let_def list_ex_iff less_Suc_eq)

lemma send_ok [inv_intros]: "command_rows_ok s \<Longrightarrow> command_rows_ok (snd (send_command_with_status e ok fresh now machine c s))"
  using persist_ok [of s e ok fresh now machine c] unfolding send_command_with_status_def by (auto split: prod.splits)

lemma claim_rows_map: "\<exists>f. snd (claim_transaction e now tokens machine rows) = map f rows \<and>
    (\<forall>r. cm_id (f r) = cm_id r \<and> cm_command_id (f r) = cm_command_id r \<and> cm_machine (f r) = cm_machine r \<and> cm_response (f r) = cm_response r)"
proof -
  have "\<exists>f. rows = map f rows \<and> (\<forall>r. cm_id (f r) = cm_id r \<and> cm_command_id (f r) = cm_command_id r \<and> cm_machine (f r) = cm_machine r \<and> cm_response (f r) = cm_response r)"
    by (rule exI [of _ "\<lambda>r. r"]) simp
  moreover have "\<exists>f. set_delivered now ids (set_status ''expired'' ids' rows) = map f rows \<and>
      (\<forall>r. cm_id (f r) = cm_id r \<and> cm_command_id (f r) = cm_command_id r \<and> cm_machine (f r) = cm_machine r \<and> cm_response (f r) = cm_response r)" for ids ids'
    unfolding set_delivered_def set_status_def map_map by (rule exI, rule conjI, rule refl) simp
  ultimately show ?thesis unfolding claim_transaction_def Let_def by simp
qed

lemma persisted_rows_map: "\<exists>f. snd (claim_persisted_commands e run now tokens machine rows) = map f rows \<and> (\<forall>r. cm_id (f r) = cm_id r \<and> cm_command_id (f r) = cm_command_id r)"
proof (cases run)
  case Commits
  then show ?thesis using claim_rows_map [of e now tokens machine rows] unfolding claim_persisted_commands_def by auto
qed (auto simp: claim_persisted_commands_def intro: exI [of _ "\<lambda>r. r"])

lemma get_pending_ok [inv_intros]: "command_rows_ok s \<Longrightarrow> command_rows_ok (snd (get_pending_commands e run now tokens machine s))"
proof -
  assume ok: "command_rows_ok s"
  obtain f where f: "snd (claim_persisted_commands e run now tokens machine (cs_rows s)) = map f (cs_rows s)"
    "\<And>r. cm_id (f r) = cm_id r \<and> cm_command_id (f r) = cm_command_id r" using persisted_rows_map by metis
  then show ?thesis using command_rows_ok_map(2) [OF ok f(2)]
    unfolding get_pending_commands_def by (auto split: prod.splits)
qed

lemma response_ok [inv_intros]: "command_rows_ok s \<Longrightarrow> command_rows_ok (s\<lparr>cs_rows := snd (persist_command_response e rid result now (cs_rows s))\<rparr>)"
  unfolding persist_command_response_def snd_conv by (rule command_rows_ok_map) simp_all

text \<open>Sending, claiming and answering keep the identifiers of the rows and of the commands unique.\<close>

theorem command_table_kept:
  assumes "command_rows_ok s"
  shows "command_rows_ok (snd (send_command_with_status e ok fresh now machine c s)) \<and>
    command_rows_ok (snd (get_pending_commands e run now tokens machine s)) \<and>
    command_rows_ok (s\<lparr>cs_rows := snd (persist_command_response e rid result now (cs_rows s))\<rparr>)"
  using assms by (intro conjI inv_intros)

section \<open>Claims\<close>

lemma read_claims_row:
  assumes "c \<in> set (read_claims e now machine rows)"
  shows "\<exists>r\<in>set rows. claimable now machine r \<and> read_claim e r = Some c \<and> cl_id c = cm_id r"
proof -
  obtain r where "r \<in> set (take 100 (filter (claimable now machine) rows))" "read_claim e r = Some c"
    using assms by (auto simp: read_claims_def map_filter_def)
  then show ?thesis by (auto simp: read_claim_def dest!: in_set_takeD split: option.splits json.splits)
qed

lemma latest_rotate_in: "cs \<noteq> [] \<Longrightarrow> latest_rotate cs \<in> set cs"
  unfolding latest_rotate_def by (metis hd_in_set length_0_conv length_sort set_sort)

lemma latest_rotate_greatest: "c \<in> set cs \<Longrightarrow> the (rotate_version c) \<le> the (rotate_version (latest_rotate cs))"
proof -
  assume c: "c \<in> set cs"
  let ?s = "sort_key (\<lambda>c. - the (rotate_version c)) cs"
  have "sorted (map (\<lambda>c. - the (rotate_version c)) ?s)" "c \<in> set ?s" using c by simp_all
  then show ?thesis unfolding latest_rotate_def by (cases ?s) auto
qed

lemma kept_rotates_subset: "set (kept_rotates cs) \<subseteq> set (filter cl_rotate cs)"
  using latest_rotate_in [of "filter cl_rotate cs"] by (cases "filter cl_rotate cs = []") (simp_all add: kept_rotates_def Let_def)

lemma kept_rotates_le: "length (kept_rotates cs) \<le> 1" by (simp add: kept_rotates_def Let_def)

lemma to_take_subset: "set (claims_to_take machine tokens cs) \<subseteq> set cs"
  using kept_rotates_subset [of cs] by (auto simp: claims_to_take_def)

lemma claim_cases:
  obtains (nothing) "claim_transaction e now tokens machine rows = ([], rows)"
  | (some) "claim_transaction e now tokens machine rows =
      (map cl_payload (claims_to_take machine tokens (read_claims e now machine rows)),
       set_delivered now (map cl_id (claims_to_take machine tokens (read_claims e now machine rows)))
         (set_status ''expired'' (expired_claims machine tokens (read_claims e now machine rows)) rows))"
    "\<not> (1 < length (filter cl_rotate (read_claims e now machine rows)) \<and> list_ex (\<lambda>c. rotate_version c = None) (filter cl_rotate (read_claims e now machine rows)))"
proof (cases "1 < length (filter cl_rotate (read_claims e now machine rows)) \<and> list_ex (\<lambda>c. rotate_version c = None) (filter cl_rotate (read_claims e now machine rows)) \<or>
    claims_to_take machine tokens (read_claims e now machine rows) = []")
  case True
  show ?thesis by (rule nothing) (simp only: claim_transaction_def Let_def True if_True)
next
  case False
  show ?thesis
  proof (rule some)
    show "\<not> (1 < length (filter cl_rotate (read_claims e now machine rows)) \<and> list_ex (\<lambda>c. rotate_version c = None) (filter cl_rotate (read_claims e now machine rows)))"
      using False by blast
  qed (simp only: claim_transaction_def Let_def False if_False)
qed

lemma filter_set_status:
  "\<forall>r\<in>set rows. cm_machine r \<noteq> m \<longrightarrow> cm_id r \<notin> set ids \<Longrightarrow>
   filter (\<lambda>r. cm_machine r \<noteq> m) (set_status st ids rows) = filter (\<lambda>r. cm_machine r \<noteq> m) rows"
  by (induction rows) (auto simp: set_status_def)

lemma filter_set_delivered:
  "\<forall>r\<in>set rows. cm_machine r \<noteq> m \<longrightarrow> cm_id r \<notin> set ids \<Longrightarrow>
   filter (\<lambda>r. cm_machine r \<noteq> m) (set_delivered now ids rows) = filter (\<lambda>r. cm_machine r \<noteq> m) rows"
  by (induction rows) (auto simp: set_delivered_def)

text \<open>A poll is given only commands of its own machine that were waiting, or had been delivered more than
  five minutes before without an answer, and that had not expired; it leaves the rows of every other machine
  as they were.\<close>

theorem claimed_commands_own:
  assumes "claim_transaction e now tokens machine rows = (ps, rows')"
  shows "p \<in> set ps \<Longrightarrow> \<exists>r\<in>set rows. claimable now machine r \<and> ce_loads e (cm_payload r) = Some (JObj p)"
    and "distinct (map cm_id rows) \<Longrightarrow> filter (\<lambda>r. cm_machine r \<noteq> machine) rows' = filter (\<lambda>r. cm_machine r \<noteq> machine) rows"
proof -
  let ?cs = "read_claims e now machine rows"
  show "\<exists>r\<in>set rows. claimable now machine r \<and> ce_loads e (cm_payload r) = Some (JObj p)" if "p \<in> set ps"
  proof (cases rule: claim_cases [of e now tokens machine rows])
    case some
    then have "p \<in> cl_payload ` set (claims_to_take machine tokens ?cs)" using assms that by simp
    then obtain c where "c \<in> set ?cs" "cl_payload c = p" using to_take_subset by blast
    then obtain r where "r \<in> set rows" "claimable now machine r" "read_claim e r = Some c" using read_claims_row by blast
    moreover from this(3) have "ce_loads e (cm_payload r) = Some (JObj p)"
      using \<open>cl_payload c = p\<close> by (auto simp: read_claim_def split: option.splits json.splits)
    ultimately show ?thesis by blast
  qed (use assms that in simp)
  show "filter (\<lambda>r. cm_machine r \<noteq> machine) rows' = filter (\<lambda>r. cm_machine r \<noteq> machine) rows" if d: "distinct (map cm_id rows)"
  proof (cases rule: claim_cases [of e now tokens machine rows])
    case some
    let ?ids = "map cl_id (claims_to_take machine tokens ?cs)" let ?old = "expired_claims machine tokens ?cs"
    have own: "cm_id r \<notin> set ?ids \<and> cm_id r \<notin> set ?old" if r: "r \<in> set rows" "cm_machine r \<noteq> machine" for r
    proof -
      have "cl_id c \<noteq> cm_id r" if c: "c \<in> set ?cs" for c
      proof
        assume "cl_id c = cm_id r"
        moreover obtain x where "x \<in> set rows" "claimable now machine x" "cl_id c = cm_id x" using read_claims_row [OF c] by blast
        ultimately have "x = r" using d r(1) by (auto simp: distinct_map inj_on_def)
        with \<open>claimable now machine x\<close> r(2) show False by (simp add: claimable_def)
      qed
      then show ?thesis using to_take_subset [of machine tokens ?cs] kept_rotates_subset [of ?cs] by (fastforce simp: expired_claims_def)
    qed
    have rows: "rows' = set_delivered now ?ids (set_status ''expired'' ?old rows)" using some(1) assms by simp
    have "\<forall>r\<in>set (set_status ''expired'' ?old rows). cm_machine r \<noteq> machine \<longrightarrow> cm_id r \<notin> set ?ids"
      using own by (force simp: set_status_def)
    then have "filter (\<lambda>r. cm_machine r \<noteq> machine) rows' = filter (\<lambda>r. cm_machine r \<noteq> machine) (set_status ''expired'' ?old rows)"
      unfolding rows by (rule filter_set_delivered)
    also have "\<dots> = filter (\<lambda>r. cm_machine r \<noteq> machine) rows" by (rule filter_set_status) (use own in blast)
    finally show ?thesis .
  qed (use assms in simp)
qed

lemma set_delivered_row:
  "r \<in> set (set_delivered now ids rows) \<Longrightarrow> \<exists>z\<in>set rows. cm_id z = cm_id r \<and>
     r = (if cm_id z \<in> set ids \<and> (cm_status z = ''pending'' \<or> cm_status z = ''delivered'') then z\<lparr>cm_status := ''delivered'', cm_delivered := Some now\<rparr> else z)"
  unfolding set_delivered_def by force

lemma set_status_other: "z \<in> set (set_status st ids rows) \<Longrightarrow> cm_id z \<notin> set ids \<Longrightarrow> z \<in> set rows"
  unfolding set_status_def by (auto split: if_splits)

lemma read_claims_same_id:
  assumes "distinct (map cm_id rows)" and "c \<in> set (read_claims e now machine rows)" and "c' \<in> set (read_claims e now machine rows)" and "cl_id c = cl_id c'"
  shows "c = c'"
proof -
  obtain r r' where "r \<in> set rows" "read_claim e r = Some c" "cl_id c = cm_id r" "r' \<in> set rows" "read_claim e r' = Some c'" "cl_id c' = cm_id r'"
    using read_claims_row [OF assms(2)] read_claims_row [OF assms(3)] by blast
  then show ?thesis using assms(1,4) by (metis distinct_map inj_on_def option.inject)
qed

lemma taken_not_expired:
  assumes "distinct (map cm_id rows)" and "c \<in> set (claims_to_take machine tokens (read_claims e now machine rows))"
  shows "cl_id c \<notin> set (expired_claims machine tokens (read_claims e now machine rows))"
proof
  let ?cs = "read_claims e now machine rows"
  have c: "c \<in> set ?cs" using assms(2) to_take_subset by blast
  assume "cl_id c \<in> set (expired_claims machine tokens ?cs)"
  then consider c' where "c' \<in> set ?cs" "cl_rotate c'" "cl_id c' \<notin> cl_id ` set (kept_rotates ?cs)" "cl_id c' = cl_id c"
    | c' where "c' \<in> set (kept_rotates ?cs)" "\<not> rotation_live machine tokens c'" "cl_id c' = cl_id c"
    by (auto simp: expired_claims_def)
  then show False
  proof cases
    case 1
    then have "c' = c" using read_claims_same_id [OF assms(1) _ c] by blast
    then show False using 1 assms(2) by (auto simp: claims_to_take_def)
  next
    case 2
    then have "c' = c" "cl_rotate c'" using read_claims_same_id [OF assms(1) _ c] kept_rotates_subset [of ?cs] by auto
    then show False using 2 assms(2) by (auto simp: claims_to_take_def)
  qed
qed

text \<open>A claimed command is claimed again when, and only when, five minutes have passed without an answer
  and it has not expired: a command reaches its machine once within that time, and again if the answer is
  lost.\<close>

theorem claimed_again_after_timeout:
  assumes "claim_transaction e now tokens machine rows = (ps, rows')" and "ps \<noteq> []" and "distinct (map cm_id rows)"
    and "c \<in> set (claims_to_take machine tokens (read_claims e now machine rows))" and "r \<in> set rows'" and "cm_id r = cl_id c"
  shows "claimable now' machine r \<longleftrightarrow> now + seconds command_claim_timeout_seconds < now' \<and> (case cm_expires r of None \<Rightarrow> True | Some x \<Rightarrow> now' < x)"
proof (cases rule: claim_cases [of e now tokens machine rows])
  case some
  let ?cs = "read_claims e now machine rows"
  let ?ids = "map cl_id (claims_to_take machine tokens ?cs)"
  obtain y where y: "y \<in> set rows" "cm_id y = cm_id r"
    "r = (if cm_id y \<in> set ?ids \<and> (cm_status y = ''pending'' \<or> cm_status y = ''delivered'') then y\<lparr>cm_status := ''delivered'', cm_delivered := Some now\<rparr> else y)"
  proof -
    have "r \<in> set (set_delivered now ?ids (set_status ''expired'' (expired_claims machine tokens ?cs) rows))" using some(1) assms(1,5) by simp
    then obtain z where z: "z \<in> set (set_status ''expired'' (expired_claims machine tokens ?cs) rows)" "cm_id z = cm_id r"
      "r = (if cm_id z \<in> set ?ids \<and> (cm_status z = ''pending'' \<or> cm_status z = ''delivered'') then z\<lparr>cm_status := ''delivered'', cm_delivered := Some now\<rparr> else z)"
      using set_delivered_row by blast
    then have "z \<in> set rows" using set_status_other taken_not_expired [OF assms(3,4)] assms(6) by metis
    then show thesis using z that by blast
  qed
  obtain x where x: "x \<in> set rows" "claimable now machine x" "cl_id c = cm_id x"
    using read_claims_row assms(4) to_take_subset by (metis subset_iff)
  then have "x = y" using y assms(3,6) by (auto simp: distinct_map inj_on_def)
  moreover have "cm_id y \<in> set ?ids" using assms(4,6) y(2) by auto
  ultimately have "cm_status r = ''delivered''" "cm_delivered r = Some now" "cm_machine r = machine"
    using x(2) y(3) by (auto simp: claimable_def)
  then show ?thesis by (auto simp: claimable_def)
qed (use assms in simp)

lemma rotation_live_row:
  "rotation_live machine tokens c \<Longrightarrow> \<exists>r\<in>set (tt_rows tokens). tk_machine r = machine \<and> rotate_version c = Some (tk_version r) \<and> \<not> tk_revoked r"
  by (auto simp: rotation_live_def list_ex_iff split: option.splits)

lemma kept_rotate_greatest:
  assumes "c \<in> set (kept_rotates cs)" "c' \<in> set cs" "cl_rotate c'"
  shows "the (rotate_version c') \<le> the (rotate_version c)"
proof (cases "1 < length (filter cl_rotate cs)")
  case True
  then show ?thesis using latest_rotate_greatest [of c' "filter cl_rotate cs"] assms by (simp add: kept_rotates_def)
next
  case False
  moreover have "c \<in> set (filter cl_rotate cs)" "c' \<in> set (filter cl_rotate cs)" using assms kept_rotates_subset [of cs] by auto
  ultimately have "c = c'" by (cases "filter cl_rotate cs") (auto simp: not_less)
  then show ?thesis by simp
qed

definition comparable :: "claim list \<Rightarrow> bool" where
  "comparable cs \<longleftrightarrow> length (filter cl_rotate cs) \<le> 1 \<or> (\<forall>c\<in>set cs. cl_rotate c \<longrightarrow> rotate_version c \<noteq> None)"

lemma claimed_exactly:
  assumes "run \<noteq> Query_Fails" and "comparable (read_claims e now machine rows)"
  shows "fst (claim_persisted_commands e run now tokens machine rows) = map cl_payload (claims_to_take machine tokens (read_claims e now machine rows))"
proof -
  have "\<not> (1 < length (filter cl_rotate (read_claims e now machine rows)) \<and> list_ex (\<lambda>c. rotate_version c = None) (filter cl_rotate (read_claims e now machine rows)))"
    using assms(2) by (auto simp: comparable_def list_ex_iff)
  then have "fst (claim_transaction e now tokens machine rows) = map cl_payload (claims_to_take machine tokens (read_claims e now machine rows))"
    unfolding claim_transaction_def Let_def by auto
  then show ?thesis using assms(1) by (cases run) (simp_all add: claim_persisted_commands_def)
qed

lemma polled_commands: "fst (get_pending_commands e run now tokens machine s) = cs_queues s machine @ fst (claim_persisted_commands e run now tokens machine (cs_rows s))"
  by (simp add: get_pending_commands_def split: prod.splits)

lemma kept_rotate_live:
  assumes "comparable cs" and "c \<in> set cs" and "cl_rotate c" and "\<forall>c'\<in>set cs. cl_rotate c' \<longrightarrow> the (rotate_version c') \<le> the (rotate_version c)"
    and "rotation_live machine tokens c"
  shows "filter (rotation_live machine tokens) (kept_rotates cs) \<noteq> []"
proof -
  have "kept_rotates cs \<noteq> []" using assms(2,3) by (auto simp: kept_rotates_def Let_def filter_empty_conv)
  then obtain k where k: "k \<in> set (kept_rotates cs)" by (cases "kept_rotates cs") auto
  then have in_cs: "k \<in> set cs" "cl_rotate k" using kept_rotates_subset [of cs] by auto
  have le: "the (rotate_version c) \<le> the (rotate_version k)" "the (rotate_version k) \<le> the (rotate_version c)"
    using kept_rotate_greatest [OF k assms(2,3)] assms(4) in_cs by auto
  have "rotation_live machine tokens k"
  proof (cases "length (filter cl_rotate cs) \<le> 1")
    case True
    moreover have "c \<in> set (filter cl_rotate cs)" "k \<in> set (filter cl_rotate cs)" using assms(2,3) in_cs by auto
    ultimately have "c = k" by (cases "filter cl_rotate cs") auto
    then show ?thesis using assms(5) by simp
  next
    case False
    then have "rotate_version c \<noteq> None" "rotate_version k \<noteq> None" using assms(1-3) in_cs by (auto simp: comparable_def)
    with le have "rotate_version c = rotate_version k" by auto
    then show ?thesis using assms(5) by (simp add: rotation_live_def)
  qed
  then show ?thesis using k by (auto simp: filter_empty_conv)
qed

text \<open>C23: A poll answers with the process's own queue, as it is, followed by the commands of the table, a
  hundred rows at most. When the statements run and the versions of several rotations compare, all
  commands among those rows that are not rotations are there, and of the rotations at most one: the
  latest, and exactly when the token it brings has not been revoked.\<close>

theorem claimed_rotation_latest_live:
  assumes "run \<noteq> Query_Fails" and "cs = read_claims e now machine (cs_rows s)" and "comparable cs"
  shows "\<exists>keep. fst (get_pending_commands e run now tokens machine s) = cs_queues s machine @ map cl_payload (keep @ filter (\<lambda>c. \<not> cl_rotate c) cs) \<and>
    length keep \<le> 1 \<and>
    (\<forall>c\<in>set keep. c \<in> set cs \<and> cl_rotate c \<and> (\<forall>c'\<in>set cs. cl_rotate c' \<longrightarrow> the (rotate_version c') \<le> the (rotate_version c)) \<and>
       (\<exists>r\<in>set (tt_rows tokens). tk_machine r = machine \<and> rotate_version c = Some (tk_version r) \<and> \<not> tk_revoked r)) \<and>
    (\<forall>c\<in>set cs. cl_rotate c \<and> (\<forall>c'\<in>set cs. cl_rotate c' \<longrightarrow> the (rotate_version c') \<le> the (rotate_version c)) \<and>
       (\<exists>r\<in>set (tt_rows tokens). tk_machine r = machine \<and> rotate_version c = Some (tk_version r) \<and> \<not> tk_revoked r) \<longrightarrow> keep \<noteq> [])"
proof (intro exI conjI)
  let ?keep = "filter (rotation_live machine tokens) (kept_rotates cs)"
  show "fst (get_pending_commands e run now tokens machine s) = cs_queues s machine @ map cl_payload (?keep @ filter (\<lambda>c. \<not> cl_rotate c) cs)"
    using claimed_exactly [OF assms(1)] assms(2,3) by (simp add: polled_commands claims_to_take_def)
  show "length ?keep \<le> 1" using kept_rotates_le [of cs] length_filter_le order_trans by blast
  show "\<forall>c\<in>set ?keep. c \<in> set cs \<and> cl_rotate c \<and> (\<forall>c'\<in>set cs. cl_rotate c' \<longrightarrow> the (rotate_version c') \<le> the (rotate_version c)) \<and>
       (\<exists>r\<in>set (tt_rows tokens). tk_machine r = machine \<and> rotate_version c = Some (tk_version r) \<and> \<not> tk_revoked r)"
    using kept_rotates_subset [of cs] kept_rotate_greatest [of _ cs] rotation_live_row by fastforce
  show "\<forall>c\<in>set cs. cl_rotate c \<and> (\<forall>c'\<in>set cs. cl_rotate c' \<longrightarrow> the (rotate_version c') \<le> the (rotate_version c)) \<and>
       (\<exists>r\<in>set (tt_rows tokens). tk_machine r = machine \<and> rotate_version c = Some (tk_version r) \<and> \<not> tk_revoked r) \<longrightarrow> ?keep \<noteq> []"
  proof (intro ballI impI, elim conjE)
    fix c assume "c \<in> set cs" "cl_rotate c" "\<forall>c'\<in>set cs. cl_rotate c' \<longrightarrow> the (rotate_version c') \<le> the (rotate_version c)"
      and "\<exists>r\<in>set (tt_rows tokens). tk_machine r = machine \<and> rotate_version c = Some (tk_version r) \<and> \<not> tk_revoked r"
    then show "?keep \<noteq> []" by (intro kept_rotate_live [OF assms(3)]) (auto simp: rotation_live_def list_ex_iff)
  qed
qed

text \<open>When only rotations to revoked tokens wait, nothing is written: the transaction that marks them as
  expired is not committed, and every poll reads them again.\<close>

theorem dead_rotations_never_marked:
  assumes "\<forall>c\<in>set (read_claims e now machine rows). cl_rotate c \<and> \<not> rotation_live machine tokens c"
  shows "claim_persisted_commands e run now tokens machine rows = ([], rows)"
proof -
  have "claims_to_take machine tokens (read_claims e now machine rows) = []"
    using assms kept_rotates_subset [of "read_claims e now machine rows"] by (auto simp: claims_to_take_def filter_empty_conv)
  then show ?thesis by (cases run) (simp_all add: claim_persisted_commands_def claim_transaction_def)
qed

section \<open>Commands arrive, and so do their answers\<close>

lemma map_filter_snoc: "List.map_filter f (xs @ [x]) = List.map_filter f xs @ (case f x of None \<Rightarrow> [] | Some y \<Rightarrow> [y])"
  by (simp add: map_filter_def split: option.splits)

text \<open>C24: A command that the database took, and that is not itself a rotation, is in the answer to the next
  poll of its machine within the hour, by whichever process, also when rotations wait, as long as fewer than a
  hundred earlier rows wait, the statements run and the versions of several rotations compare. A command that
  it did not take is in the answer of the process it was sent to, whatever the database does.\<close>

theorem sent_command_arrives:
  assumes "send_command_with_status e ok fresh now machine c s = (res, s')"
  shows "cr_queued res \<and>
    (\<not> cr_persisted res \<longrightarrow> c \<in> set (fst (get_pending_commands e run now' tokens machine s'))) \<and>
    (cr_persisted res \<and> run \<noteq> Query_Fails \<and> now' < now + seconds command_ttl_seconds \<and> length (filter (claimable now' machine) (cs_rows s)) < 100 \<and>
       comparable (read_claims e now' machine (cs_rows s)) \<and> command_type e c \<noteq> [] \<and> command_type e c \<noteq> ''rotate_token'' \<and>
       ce_loads e (ce_dumps e (JObj (AList.update ''command_id'' (JStr (command_identifier e fresh c)) c))) = Some (JObj sent) \<longrightarrow>
     sent \<in> set (fst (get_pending_commands e run now' tokens machine (s'\<lparr>cs_queues := other_queues\<rparr>))))"
proof (intro conjI impI)
  show "cr_queued res" using assms unfolding send_command_with_status_def by (auto split: prod.splits)
  show "c \<in> set (fst (get_pending_commands e run now' tokens machine s'))" if "\<not> cr_persisted res"
  proof -
    have "c \<in> set (cs_queues s' machine)" using assms that unfolding send_command_with_status_def by (auto split: prod.splits)
    then show ?thesis by (simp add: polled_commands)
  qed
next
  assume h: "cr_persisted res \<and> run \<noteq> Query_Fails \<and> now' < now + seconds command_ttl_seconds \<and> length (filter (claimable now' machine) (cs_rows s)) < 100 \<and>
       comparable (read_claims e now' machine (cs_rows s)) \<and> command_type e c \<noteq> [] \<and> command_type e c \<noteq> ''rotate_token'' \<and>
       ce_loads e (ce_dumps e (JObj (AList.update ''command_id'' (JStr (command_identifier e fresh c)) c))) = Some (JObj sent)"
  let ?c = "AList.update ''command_id'' (JStr (command_identifier e fresh c)) c"
  obtain row where row: "cs_rows s' = cs_rows s @ [row]" "cm_machine row = machine" "cm_status row = ''pending''" "cm_payload row = ce_dumps e (JObj ?c)"
    "cm_expires row = Some (now + seconds command_ttl_seconds)" "cm_type row = command_type e ?c"
    using h assms(1) unfolding send_command_with_status_def persist_command_def Let_def
    by (auto split: prod.splits if_splits)
  have "command_type e ?c = command_type e c"
    by (simp add: command_type_def first_true_def pl_def update_conv')
  then have read: "read_claim e row = Some \<lparr>cl_id = cm_id row, cl_payload = sent, cl_rotate = False\<rparr>"
    using row h by (simp add: read_claim_def)
  have "claimable now' machine row" using row h by (simp add: claimable_def)
  then have cs: "read_claims e now' machine (cs_rows s') = read_claims e now' machine (cs_rows s) @ [\<lparr>cl_id = cm_id row, cl_payload = sent, cl_rotate = False\<rparr>]"
    using h row(1) by (simp add: read_claims_def take_Cons' map_filter_snoc read)
  then have "comparable (read_claims e now' machine (cs_rows s'))" using h by (simp add: comparable_def)
  then have "fst (claim_persisted_commands e run now' tokens machine (cs_rows s')) = map cl_payload (claims_to_take machine tokens (read_claims e now' machine (cs_rows s')))"
    using claimed_exactly h by blast
  then show "sent \<in> set (fst (get_pending_commands e run now' tokens machine (s'\<lparr>cs_queues := other_queues\<rparr>)))"
    by (simp add: polled_commands cs claims_to_take_def)
qed

lemma persisted_response:
  assumes "row \<in> set rows" and "cm_command_id row = rid"
  shows "get_persisted_command_response e rid (snd (persist_command_response e rid result now rows)) =
    (if result = JNull \<or> ce_dumps e result = [] then None else (case ce_loads e (ce_dumps e result) of Some (JObj p) \<Rightarrow> Some p | _ \<Rightarrow> None))"
proof -
  let ?f = "\<lambda>r. if cm_command_id r = rid then r\<lparr>cm_status := ''responded'',
          cm_response := (if result = JNull then None else Some (ce_dumps e result)), cm_responded := Some now\<rparr> else r"
  obtain r where r: "find (\<lambda>r. cm_command_id r = rid) rows = Some r" "cm_command_id r = rid"
    using assms by (metis (mono_tags, lifting) find_None_iff find_SomeD option.exhaust)
  have "find (\<lambda>r. cm_command_id r = rid) (map ?f rows) = Some (?f r)" by (subst find_map_keep) (auto simp: r(1))
  then show ?thesis using r(2) by (simp add: get_persisted_command_response_def persist_command_response_def)
qed

text \<open>An answer that is a dictionary reaches a waiter of any process at its next look at the table.\<close>

theorem answer_reaches_waiter:
  assumes "row \<in> set rows" and "cm_command_id row = rid" and "ce_dumps e (JObj p) \<noteq> []" and "ce_loads e (ce_dumps e (JObj p)) = Some (JObj p')"
  shows "await_response e rid ((None, snd (persist_command_response e rid (JObj p) now rows)) # polls) = JObj p'"
  using persisted_response [OF assms(1,2), of e "JObj p"] assms(3,4) by simp

text \<open>An answer that is not a dictionary never reaches a waiter of another process: it waits until its
  deadline, although the command has been answered.\<close>

theorem other_answers_time_out:
  assumes "row \<in> set rows" and "cm_command_id row = rid" and "\<And>p. ce_loads e (ce_dumps e result) \<noteq> Some (JObj p)"
  shows "await_response e rid (replicate n (None, snd (persist_command_response e rid result now rows))) = JNull \<and>
    fst (persist_command_response e rid result now rows)"
proof -
  have "get_persisted_command_response e rid (snd (persist_command_response e rid result now rows)) = None"
    using persisted_response [OF assms(1,2), of e result now] assms(3) by (auto split: option.splits json.splits)
  then have "await_response e rid (replicate n (None, snd (persist_command_response e rid result now rows))) = JNull"
    by (induction n) auto
  then show ?thesis using assms(1,2) by (auto simp: persist_command_response_def list_ex_iff)
qed

section \<open>Witnesses\<close>

definition command_env1 :: "payload \<Rightarrow> command_env" where
  "command_env1 p = \<lparr>ce_str = (\<lambda>_. ''?''), ce_dumps = (\<lambda>v. case v of JInt _ \<Rightarrow> ''5'' | _ \<Rightarrow> ''d''), ce_loads = (\<lambda>s. if s = ''5'' then Some (JInt 5) else Some (JObj p))\<rparr>"

definition stop1 :: payload where "stop1 = [(''command'', JStr ''stop''), (''command_id'', JStr ''k'')]"

definition waiting1 :: "string \<Rightarrow> command_row" where
  "waiting1 type = \<lparr>cm_id = 0, cm_command_id = ''k'', cm_machine = ''m'', cm_session = None, cm_type = type, cm_payload = ''d'', cm_status = ''pending'',
     cm_response = None, cm_delivered = None, cm_expires = Some (seconds 3600), cm_responded = None\<rparr>"

definition no_commands :: command_state where "no_commands = \<lparr>cs_rows = [], cs_next = 0, cs_queues = (\<lambda>_. [])\<rparr>"

definition rotation1 :: payload where "rotation1 = [(''command'', JStr ''rotate_token''), (''token_version'', JInt 1)]"

lemma claim1: "claim_transaction (command_env1 stop1) 0 agents1 ''m'' [waiting1 ''stop''] =
    ([stop1], [(waiting1 ''stop'')\<lparr>cm_status := ''delivered'', cm_delivered := Some 0\<rparr>])"
  "claims_to_take ''m'' agents1 (read_claims (command_env1 stop1) 0 ''m'' [waiting1 ''stop'']) = [\<lparr>cl_id = 0, cl_payload = stop1, cl_rotate = False\<rparr>]"
  by (code_simp, code_simp)

theorem command_table_kept_witness: "command_rows_ok (snd (get_pending_commands (command_env1 stop1) Commits 0 agents1 ''m'' (no_commands\<lparr>cs_rows := [waiting1 ''stop''], cs_next := 1\<rparr>)))"
proof -
  have "command_rows_ok (no_commands\<lparr>cs_rows := [waiting1 ''stop''], cs_next := 1\<rparr>)" by (simp add: command_rows_ok_def waiting1_def no_commands_def)
  from command_table_kept [OF this] show ?thesis by blast
qed

theorem claimed_commands_own_witness: "\<exists>r\<in>set [waiting1 ''stop'']. claimable 0 ''m'' r"
  using claimed_commands_own(1) [OF claim1(1), of stop1] by auto

theorem claimed_again_after_timeout_witness:
  "claimable now' ''m'' ((waiting1 ''stop'')\<lparr>cm_status := ''delivered'', cm_delivered := Some 0\<rparr>) \<longleftrightarrow> 0 + seconds 300 < now' \<and> now' < seconds 3600"
  using claimed_again_after_timeout [OF claim1(1), of "\<lparr>cl_id = 0, cl_payload = stop1, cl_rotate = False\<rparr>"
      "(waiting1 ''stop'')\<lparr>cm_status := ''delivered'', cm_delivered := Some 0\<rparr>" now'] claim1(2)
  by (simp add: waiting1_def command_claim_timeout_seconds_def)

theorem claimed_rotation_latest_live_witness:
  "fst (get_pending_commands (command_env1 rotation1) Commits 0 agents1 ''m'' (no_commands\<lparr>cs_rows := [waiting1 ''rotate_token'']\<rparr>)) \<noteq> []"
proof -
  have cs: "read_claims (command_env1 rotation1) 0 ''m'' [waiting1 ''rotate_token''] = [\<lparr>cl_id = 0, cl_payload = rotation1, cl_rotate = True\<rparr>]" by code_simp
  have v: "rotate_version \<lparr>cl_id = 0, cl_payload = rotation1, cl_rotate = True\<rparr> = Some 1" by code_simp
  show ?thesis
    using claimed_rotation_latest_live [of Commits _ "command_env1 rotation1" 0 "''m''" "no_commands\<lparr>cs_rows := [waiting1 ''rotate_token'']\<rparr>" agents1, OF _ refl]
    by (auto simp: cs v comparable_def agents1_def agent1_def)
qed

theorem dead_rotations_never_marked_witness:
  "claim_persisted_commands (command_env1 rotation1) Commits 0 \<lparr>tt_rows = [], tt_next = 0\<rparr> ''m'' [waiting1 ''rotate_token''] = ([], [waiting1 ''rotate_token''])"
proof (rule dead_rotations_never_marked)
  have "list_all (\<lambda>c. cl_rotate c \<and> \<not> rotation_live ''m'' \<lparr>tt_rows = [], tt_next = 0\<rparr> c) (read_claims (command_env1 rotation1) 0 ''m'' [waiting1 ''rotate_token''])"
    by code_simp
  then show "\<forall>c\<in>set (read_claims (command_env1 rotation1) 0 ''m'' [waiting1 ''rotate_token'']). cl_rotate c \<and> \<not> rotation_live ''m'' \<lparr>tt_rows = [], tt_next = 0\<rparr> c"
    by (simp add: list_all_iff)
qed

theorem sent_command_arrives_witness:
  "(let (res, s) = send_command_with_status (command_env1 stop1) True ''k'' 0 ''m'' [(''command'', JStr ''stop'')] no_commands
    in stop1 \<in> set (fst (get_pending_commands (command_env1 stop1) Commits 5 agents1 ''m'' (s\<lparr>cs_queues := (\<lambda>_. [])\<rparr>))))"
proof -
  let ?e = "command_env1 stop1" let ?c = "[(''command'', JStr ''stop'')]"
  obtain res s where s: "send_command_with_status ?e True ''k'' 0 ''m'' ?c no_commands = (res, s)" by fastforce
  then have p: "cr_persisted res" by (auto simp: send_command_with_status_def persist_command_def Let_def no_commands_def)
  have t: "command_type ?e ?c = ''stop''" by code_simp
  have "stop1 \<in> set (fst (get_pending_commands ?e Commits 5 agents1 ''m'' (s\<lparr>cs_queues := (\<lambda>_. [])\<rparr>)))"
    using sent_command_arrives [OF s, of Commits 5 agents1 stop1 "\<lambda>_. []"] p t
    by (simp add: no_commands_def command_env1_def command_ttl_seconds_def read_claims_def List.map_filter_simps comparable_def)
  then show ?thesis using s by simp
qed

theorem answer_reaches_waiter_witness:
  "await_response (command_env1 stop1) ''k'' [(None, snd (persist_command_response (command_env1 stop1) ''k'' (JObj [(''a'', JInt 1)]) 0 [waiting1 ''stop'']))] = JObj stop1"
  by (rule answer_reaches_waiter [where row = "waiting1 ''stop''"]) (simp_all add: waiting1_def command_env1_def)

theorem other_answers_time_out_witness:
  "await_response (command_env1 stop1) ''k'' (replicate 25 (None, snd (persist_command_response (command_env1 stop1) ''k'' (JInt 5) 0 [waiting1 ''stop'']))) = JNull"
  using other_answers_time_out [of "waiting1 ''stop''" "[waiting1 ''stop'']" "''k''" "command_env1 stop1" "JInt 5" 25 0] by (simp add: waiting1_def command_env1_def)

end
