(* ===== verification/Remote_Output.thy ===== *)
theory Remote_Output
  imports Proxy_Token
begin

text \<open>
  The output of remote sessions (\<^verbatim>\<open>modules/workspace/remote_agent_manager.py\<close>, output buffering): a buffer of
  bounded length in the process, an accumulator that is written to \<^verbatim>\<open>remote_runtime_outputs\<close> in batches with
  an index per session, the replay after an index with markers for gaps, and the retention cleanup. JSON
  is a parameter; what the database does with each attempt to write a batch is given.
\<close>

section \<open>Buffers\<close>

definition max_buffer_size :: nat where "max_buffer_size = 5000"
definition output_batch_size :: nat where "output_batch_size = 50"
definition output_accumulator_max_size :: nat where "output_accumulator_max_size = 500"
definition output_batch_interval :: int where "output_batch_interval = 100000"
definition output_retention_seconds :: int where "output_retention_seconds = 24 * 3600"
definition persist_output_max_retries :: nat where "persist_output_max_retries = 8"

text \<open>Gap markers: of a trimmed buffer, and of missing rows; from, to, number missing.\<close>

datatype out_event = Out payload | Trim_Gap int int int | Query_Gap int int int

text \<open>\<open>deque(maxlen)\<close>.\<close>

definition push :: "nat \<Rightarrow> 'a \<Rightarrow> 'a list \<Rightarrow> 'a list" where
  "push limit x buf = (let b = buf @ [x] in drop (length b - limit) b)"

definition add_to_buffer :: "nat \<Rightarrow> int \<Rightarrow> payload \<Rightarrow> out_event list \<times> int \<Rightarrow> out_event list \<times> int" where
  "add_to_buffer limit delivered output b =
     (let (buf, offset) = b in
      if length buf = limit then (push limit (Out output) (push limit (Trim_Gap delivered (delivered + int limit) 1) buf), offset + 1)
      else (push limit (Out output) buf, offset))"

text \<open>The slice of the buffer after an index.\<close>

definition buffer_slice :: "int \<Rightarrow> out_event list \<times> int \<Rightarrow> out_event list" where
  "buffer_slice after b = (let (buf, offset) = b in drop (nat (max 0 (after - offset))) buf)"

section \<open>The table of outputs\<close>

record output_row =
  ou_session :: string
  ou_index :: int
  ou_payload :: string
  ou_expires :: "instant option"

definition next_event_index :: "string \<Rightarrow> output_row list \<Rightarrow> int" where
  "next_event_index sid rows = foldl max 0 (map ou_index (filter (\<lambda>r. ou_session r = sid) rows)) + 1"

fun number_rows :: "(json \<Rightarrow> string) \<Rightarrow> string \<Rightarrow> instant \<Rightarrow> int \<Rightarrow> payload list \<Rightarrow> output_row list" where
  "number_rows dumps sid expires i [] = []"
| "number_rows dumps sid expires i (p # ps) =
     \<lparr>ou_session = sid, ou_index = i, ou_payload = dumps (JObj p), ou_expires = Some expires\<rparr> # number_rows dumps sid expires (i + 1) ps"

text \<open>An attempt commits, fails in a way that is tried again (a collision of indices, a locked database), or
  fails otherwise; attempts not given commit.\<close>

datatype batch_attempt = Commit | Retry | Fail

fun attempts_commit :: "nat \<Rightarrow> batch_attempt list \<Rightarrow> bool" where
  "attempts_commit 0 as = False"
| "attempts_commit (Suc n) [] = True"
| "attempts_commit (Suc n) (Commit # as) = True"
| "attempts_commit (Suc n) (Retry # as) = attempts_commit n as"
| "attempts_commit (Suc n) (Fail # as) = False"

definition persist_output_batch ::
    "(json \<Rightarrow> string) \<Rightarrow> batch_attempt list \<Rightarrow> instant \<Rightarrow> string \<Rightarrow> payload list \<Rightarrow> output_row list \<Rightarrow> unit result \<times> output_row list" where
  "persist_output_batch dumps as now sid outputs rows =
     (if outputs = [] then (Inr (), rows)
      else if attempts_commit persist_output_max_retries as
        then (Inr (), rows @ number_rows dumps sid (now + seconds output_retention_seconds) (next_event_index sid rows) outputs)
      else (Inl DBError, rows))"

section \<open>The state of a process and the table\<close>

record accumulator =
  ac_items :: "payload list"
  ac_flushed :: instant

record output_state =
  os_rows :: "output_row list"
  os_buffers :: "string \<rightharpoonup> out_event list \<times> int"
  os_delivered :: "string \<rightharpoonup> int"
  os_acc :: "(string \<times> accumulator) list"
  os_ended :: "string set"

definition flush_accumulator ::
    "(json \<Rightarrow> string) \<Rightarrow> batch_attempt list \<Rightarrow> instant \<Rightarrow> string \<Rightarrow> accumulator \<Rightarrow> output_row list \<Rightarrow> unit result \<times> accumulator \<times> output_row list" where
  "flush_accumulator dumps as now sid acc rows =
     (if ac_items acc = [] then (Inr (), acc, rows)
      else (case persist_output_batch dumps as now sid (ac_items acc) rows of
          (Inr _, rows') \<Rightarrow> (Inr (), \<lparr>ac_items = [], ac_flushed = now\<rparr>, rows')
        | (Inl x, rows') \<Rightarrow> (Inl x, \<lparr>ac_items = ac_items acc, ac_flushed = now\<rparr>, rows')))"

definition must_flush :: "instant \<Rightarrow> accumulator \<Rightarrow> bool" where
  "must_flush now acc \<longleftrightarrow> output_batch_size \<le> length (ac_items acc) \<or> output_batch_interval \<le> now - ac_flushed acc \<or>
     output_accumulator_max_size \<le> length (ac_items acc)"

definition delivered_index :: "string \<Rightarrow> output_state \<Rightarrow> int" where
  "delivered_index sid s = (case os_delivered s sid of None \<Rightarrow> 0 | Some i \<Rightarrow> i)"

definition buffer_of :: "string \<Rightarrow> output_state \<Rightarrow> out_event list \<times> int" where
  "buffer_of sid s = (case os_buffers s sid of None \<Rightarrow> ([], 0) | Some b \<Rightarrow> b)"

definition accumulator_of :: "instant \<Rightarrow> string \<Rightarrow> output_state \<Rightarrow> accumulator" where
  "accumulator_of now sid s = (case map_of (os_acc s) sid of None \<Rightarrow> \<lparr>ac_items = [], ac_flushed = now\<rparr> | Some a \<Rightarrow> a)"

definition buffer_output :: "(json \<Rightarrow> string) \<Rightarrow> batch_attempt list \<Rightarrow> instant \<Rightarrow> string \<Rightarrow> payload \<Rightarrow> output_state \<Rightarrow> unit result \<times> output_state" where
  "buffer_output dumps as now sid output s =
     (let s1 = s\<lparr>os_buffers := (os_buffers s)(sid \<mapsto> add_to_buffer max_buffer_size (delivered_index sid s) output (buffer_of sid s))\<rparr>;
          acc = accumulator_of now sid s; acc' = acc\<lparr>ac_items := ac_items acc @ [output]\<rparr>
      in if must_flush now acc' then
           (let (r, acc'', rows) = flush_accumulator dumps as now sid acc' (os_rows s)
            in (r, s1\<lparr>os_acc := AList.update sid acc'' (os_acc s), os_rows := rows\<rparr>))
         else (Inr (), s1\<lparr>os_acc := AList.update sid acc' (os_acc s)\<rparr>))"

text \<open>The stale accumulators of all sessions, in the order of the dictionary; the first failure raises.\<close>

fun flush_stale ::
    "(json \<Rightarrow> string) \<Rightarrow> (string \<Rightarrow> batch_attempt list) \<Rightarrow> instant \<Rightarrow> (string \<times> accumulator) list \<Rightarrow> output_row list \<Rightarrow>
     unit result \<times> (string \<times> accumulator) list \<times> output_row list" where
  "flush_stale dumps as now [] rows = (Inr (), [], rows)"
| "flush_stale dumps as now ((sid, acc) # rest) rows =
     (if ac_items acc \<noteq> [] \<and> output_batch_interval \<le> now - ac_flushed acc then
        (case flush_accumulator dumps (as sid) now sid acc rows of
           (Inl x, acc', rows') \<Rightarrow> (Inl x, (sid, acc') # rest, rows')
         | (Inr _, acc', rows') \<Rightarrow> (let (r, rest', rows'') = flush_stale dumps as now rest rows' in (r, (sid, acc') # rest', rows'')))
      else (let (r, rest', rows'') = flush_stale dumps as now rest rows in (r, (sid, acc) # rest', rows'')))"

section \<open>Replay\<close>

text \<open>A corrupt payload is skipped without moving the expected index; one that is not a dictionary is dropped.\<close>

fun replay :: "(string \<Rightarrow> json option) \<Rightarrow> int \<Rightarrow> output_row list \<Rightarrow> out_event list" where
  "replay loads expected [] = []"
| "replay loads expected (r # rows) =
     (if expected < ou_index r then [Query_Gap (expected - 1) (ou_index r - 1) (ou_index r - expected)] else []) @
     (case loads (ou_payload r) of
        None \<Rightarrow> replay loads expected rows
      | Some (JObj p) \<Rightarrow> Out (if map_of p ''event_index'' = None then p @ [(''event_index'', JInt (ou_index r))] else p) # replay loads (ou_index r + 1) rows
      | Some _ \<Rightarrow> replay loads (ou_index r + 1) rows)"

definition unexpired_output :: "instant \<Rightarrow> output_row \<Rightarrow> bool" where
  "unexpired_output now r \<longleftrightarrow> (case ou_expires r of None \<Rightarrow> True | Some x \<Rightarrow> now < x)"

definition get_persisted_output :: "(string \<Rightarrow> json option) \<Rightarrow> bool \<Rightarrow> instant \<Rightarrow> string \<Rightarrow> int \<Rightarrow> output_row list \<Rightarrow> out_event list" where
  "get_persisted_output loads ok now sid after rows =
     (if \<not> ok then []
      else replay loads (after + 1) (take max_buffer_size (sort_key ou_index
        (filter (\<lambda>r. ou_session r = sid \<and> max 0 after < ou_index r \<and> unexpired_output now r) rows))))"

definition get_buffered_output ::
    "(json \<Rightarrow> string) \<Rightarrow> (string \<Rightarrow> json option) \<Rightarrow> (string \<Rightarrow> batch_attempt list) \<Rightarrow> bool \<Rightarrow> instant \<Rightarrow> string \<Rightarrow> int \<Rightarrow> output_state \<Rightarrow>
     out_event list result \<times> output_state" where
  "get_buffered_output dumps loads as ok now sid after s =
     (let (r, acc, rows) = flush_stale dumps as now (os_acc s) (os_rows s); s' = s\<lparr>os_acc := acc, os_rows := rows\<rparr>
      in case r of Inl x \<Rightarrow> (Inl x, s')
         | Inr _ \<Rightarrow> (let persisted = get_persisted_output loads ok now sid after rows
             in (Inr (if persisted \<noteq> [] then persisted else buffer_slice after (buffer_of sid s)), s')))"

section \<open>Ends of sessions and cleanup\<close>

definition bind_session_output :: "string \<Rightarrow> output_state \<Rightarrow> output_state" where
  "bind_session_output sid s = s\<lparr>os_buffers := (os_buffers s)(sid \<mapsto> ([], snd (buffer_of sid s)))\<rparr>"

text \<open>Unbinding forgets the buffer and writes what is left; a failure is logged and what is left is lost.\<close>

definition unbind_session_output :: "(json \<Rightarrow> string) \<Rightarrow> batch_attempt list \<Rightarrow> instant \<Rightarrow> string \<Rightarrow> output_state \<Rightarrow> output_state" where
  "unbind_session_output dumps as now sid s =
     s\<lparr>os_buffers := (os_buffers s)(sid := None), os_delivered := (os_delivered s)(sid := None), os_acc := AList.delete sid (os_acc s),
       os_rows := (case map_of (os_acc s) sid of None \<Rightarrow> os_rows s | Some acc \<Rightarrow> snd (snd (flush_accumulator dumps as now sid acc (os_rows s))))\<rparr>"

definition mark_session_ended :: "string \<Rightarrow> output_state \<Rightarrow> output_state" where
  "mark_session_ended sid s = s\<lparr>os_ended := insert sid (os_ended s), os_delivered := (os_delivered s)(sid := None)\<rparr>"

definition clear_session_end_flag :: "string \<Rightarrow> output_state \<Rightarrow> output_state" where
  "clear_session_end_flag sid s = s\<lparr>os_ended := os_ended s - {sid}\<rparr>"

definition is_session_ended :: "string option result \<Rightarrow> string \<Rightarrow> output_state \<Rightarrow> bool \<times> output_state" where
  "is_session_ended status sid s =
     (if sid \<in> os_ended s then (True, s)
      else (case status of
          Inr (Some st) \<Rightarrow> if st = ''completed'' \<or> st = ''error'' \<or> st = ''stopped'' then (True, s\<lparr>os_ended := insert sid (os_ended s)\<rparr>) else (False, s)
        | _ \<Rightarrow> (False, s)))"

definition set_last_delivered :: "string \<Rightarrow> int \<Rightarrow> output_state \<Rightarrow> output_state" where
  "set_last_delivered sid i s = s\<lparr>os_delivered := (os_delivered s)(sid \<mapsto> i)\<rparr>"

text \<open>The retention cleanup deletes the expired rows a thousand at a time, until none is left or more than a
  million are gone.\<close>

lemma drop_first_length: "length (drop_first n P xs) \<le> length xs"
  by (induction n P xs rule: drop_first.induct) auto

function cleanup_loop :: "('a \<Rightarrow> bool) \<Rightarrow> int \<Rightarrow> 'a list \<Rightarrow> 'a list" where
  "cleanup_loop P gone rows =
     (let rows' = drop_first 1000 P rows
      in if length rows' = length rows then rows'
         else if 1000000 < gone + (int (length rows) - int (length rows')) then rows'
         else cleanup_loop P (gone + (int (length rows) - int (length rows'))) rows')"
  by pat_completeness auto
termination
  by (relation "measure (\<lambda>(P, gone, rows). length rows)") (simp_all add: le_neq_implies_less drop_first_length)

declare cleanup_loop.simps [simp del]

definition cleanup_outputs :: "instant \<Rightarrow> output_row list \<Rightarrow> output_row list" where
  "cleanup_outputs now rows = cleanup_loop (\<lambda>r. case ou_expires r of None \<Rightarrow> False | Some x \<Rightarrow> x < now) 0 rows"

section \<open>Indices\<close>

definition output_rows_ok :: "output_row list \<Rightarrow> bool" where
  "output_rows_ok rows \<longleftrightarrow> (\<forall>sid. sorted_wrt (<) (map ou_index (filter (\<lambda>r. ou_session r = sid) rows))) \<and> (\<forall>r\<in>set rows. 0 < ou_index r)"

lemma foldl_max_ge: "(a::int) \<le> foldl max a xs" "x \<in> set xs \<Longrightarrow> x \<le> foldl max a xs"
proof (induction xs arbitrary: a)
  case (Cons y ys)
  { case 1 show ?case using Cons(1)[of "max a y"] by simp }
  { case 2 then show ?case using Cons(1)[of "max a y"] Cons(2)[of "max a y"] by auto }
qed simp_all

lemma next_index_above: "r \<in> set rows \<Longrightarrow> ou_session r = sid \<Longrightarrow> ou_index r < next_event_index sid rows"
  using foldl_max_ge(2) [of "ou_index r" "map ou_index (filter (\<lambda>r. ou_session r = sid) rows)" 0] by (force simp: next_event_index_def)

lemma next_index_pos: "0 < next_event_index sid rows"
  using foldl_max_ge(1) [of 0 "map ou_index (filter (\<lambda>r. ou_session r = sid) rows)"] by (simp add: next_event_index_def)

lemma number_rows_index:
  "map ou_index (number_rows dumps sid x i ps) = map (\<lambda>k. i + int k) [0..<length ps]"
proof (induction dumps sid x i ps rule: number_rows.induct)
  case (2 dumps sid x i p ps)
  then show ?case by (simp add: upt_conv_Cons map_Suc_upt [symmetric] comp_def del: upt_Suc map_Suc_upt)
qed simp

lemma number_rows_session: "r \<in> set (number_rows dumps sid x i ps) \<Longrightarrow> ou_session r = sid \<and> i \<le> ou_index r \<and> ou_expires r = Some x"
  by (induction dumps sid x i ps rule: number_rows.induct) auto

lemma number_rows_filter: "filter (\<lambda>r. ou_session r = sid') (number_rows dumps sid x i ps) = (if sid' = sid then number_rows dumps sid x i ps else [])"
  by (induction dumps sid x i ps rule: number_rows.induct) auto

lemma number_rows_sorted: "sorted_wrt (<) (map ou_index (number_rows dumps sid x i ps))"
  by (induction dumps sid x i ps rule: number_rows.induct) (auto dest: number_rows_session)

lemma persist_rows_ok: "output_rows_ok rows \<Longrightarrow> output_rows_ok (snd (persist_output_batch dumps as now sid outputs rows))"
proof -
  assume ok: "output_rows_ok rows"
  let ?new = "number_rows dumps sid (now + seconds output_retention_seconds) (next_event_index sid rows) outputs"
  have "sorted_wrt (<) (map ou_index (filter (\<lambda>r. ou_session r = sid') (rows @ ?new)))" for sid'
  proof (cases "sid' = sid")
    case True
    have "ou_index r < ou_index r'" if "r \<in> set rows" "ou_session r = sid" "r' \<in> set ?new" for r r'
      using next_index_above [OF that(1,2)] number_rows_session [OF that(3)] by simp
    then show ?thesis using ok True by (simp add: output_rows_ok_def sorted_wrt_append number_rows_filter number_rows_sorted)
  next
    case False
    then show ?thesis using ok by (simp add: output_rows_ok_def number_rows_filter)
  qed
  moreover have "0 < ou_index r" if "r \<in> set (rows @ ?new)" for r
    using that ok number_rows_session [of r dumps sid] next_index_pos [of sid rows] by (fastforce simp: output_rows_ok_def)
  ultimately have "output_rows_ok (rows @ ?new)" unfolding output_rows_ok_def by blast
  then show ?thesis using ok by (simp add: persist_output_batch_def)
qed

lemma sort_key_sorted: "sorted_wrt (<) (map (f :: 'a \<Rightarrow> int) xs) \<Longrightarrow> sort_key f xs = xs"
  by (simp add: sorted_sort_id strict_sorted_imp_sorted sort_key_id_if_sorted)

section \<open>Nothing is lost or reordered on the way to the table\<close>

definition stored_output :: "string \<Rightarrow> output_row list \<Rightarrow> string list" where
  "stored_output sid rows = map ou_payload (filter (\<lambda>r. ou_session r = sid) rows)"

definition waiting :: "string \<Rightarrow> (string \<times> accumulator) list \<Rightarrow> payload list" where
  "waiting sid acc = (case map_of acc sid of None \<Rightarrow> [] | Some a \<Rightarrow> ac_items a)"

text \<open>The output of a session: its rows in the order of their indices, as the readers sort them, and then
  what waits in the accumulator.\<close>

definition all_output :: "(json \<Rightarrow> string) \<Rightarrow> string \<Rightarrow> output_state \<Rightarrow> string list" where
  "all_output dumps sid s = map ou_payload (sort_key ou_index (filter (\<lambda>r. ou_session r = sid) (os_rows s))) @ map (\<lambda>p. dumps (JObj p)) (waiting sid (os_acc s))"

lemma all_output_stored: "output_rows_ok (os_rows s) \<Longrightarrow> all_output dumps sid s = stored_output sid (os_rows s) @ map (\<lambda>p. dumps (JObj p)) (waiting sid (os_acc s))"
  by (simp add: all_output_def stored_output_def output_rows_ok_def sort_key_sorted)

lemma stored_append: "stored_output sid (rows @ rows') = stored_output sid rows @ stored_output sid rows'"
  by (simp add: stored_output_def)

lemma stored_number_rows: "stored_output sid (number_rows dumps sid' x i ps) = (if sid = sid' then map (\<lambda>p. dumps (JObj p)) ps else [])"
  by (induction dumps sid' x i ps rule: number_rows.induct) (auto simp: stored_output_def)

lemma flush_keeps:
  assumes "flush_accumulator dumps as now sid' acc rows = (r, acc', rows')"
  shows "stored_output sid rows' @ (if sid = sid' then map (\<lambda>p. dumps (JObj p)) (ac_items acc') else []) =
    stored_output sid rows @ (if sid = sid' then map (\<lambda>p. dumps (JObj p)) (ac_items acc) else [])"
  using assms unfolding flush_accumulator_def persist_output_batch_def
  by (auto simp: stored_append stored_number_rows split: if_splits)

lemma flush_rows_ok:
  assumes "output_rows_ok rows" and "flush_accumulator dumps as now sid acc rows = (r, acc', rows')"
  shows "output_rows_ok rows'"
  using assms persist_rows_ok [OF assms(1), of dumps as now sid "ac_items acc"]
  by (auto simp: flush_accumulator_def split: if_splits prod.splits sum.splits)

lemma flush_stale_rows_ok: "flush_stale dumps as now acc rows = (r, acc', rows') \<Longrightarrow> output_rows_ok rows \<Longrightarrow> output_rows_ok rows'"
proof (induction acc arbitrary: rows r acc' rows')
  case (Cons a acc)
  obtain i b where a: "a = (i, b)" by (cases a)
  show ?case
  proof (cases "ac_items b \<noteq> [] \<and> output_batch_interval \<le> now - ac_flushed b")
    case True
    obtain x b' rows1 where f: "flush_accumulator dumps (as i) now i b rows = (x, b', rows1)" by (metis prod_cases3)
    then have ok: "output_rows_ok rows1" using flush_rows_ok Cons.prems(2) by blast
    show ?thesis using Cons.prems(1) True a f ok Cons.IH [of rows1] by (auto split: prod.splits sum.splits)
  next
    case False
    then show ?thesis using Cons.prems Cons.IH [of rows] a by (auto split: prod.splits)
  qed
qed simp

lemma flush_stale_keys: "flush_stale dumps as now acc rows = (r, acc', rows') \<Longrightarrow> map fst acc' = map fst acc"
proof (induction acc arbitrary: rows r acc' rows')
  case (Cons a acc)
  then show ?case by (cases a) (fastforce split: prod.splits sum.splits if_splits)
qed simp

lemma flush_stale_keeps:
  assumes "flush_stale dumps as now acc rows = (r, acc', rows')" and "distinct (map fst acc)"
  shows "stored_output sid rows' @ map (\<lambda>p. dumps (JObj p)) (waiting sid acc') = stored_output sid rows @ map (\<lambda>p. dumps (JObj p)) (waiting sid acc)"
  using assms
proof (induction acc arbitrary: rows r acc' rows')
  case (Cons a acc)
  obtain i b where a: "a = (i, b)" by (cases a)
  have absent: "waiting i acc = []" and d: "distinct (map fst acc)"
    using Cons.prems(2) a by (auto simp: waiting_def split: option.splits dest: map_of_SomeD) (metis fst_conv image_eqI map_of_SomeD)
  show ?case
  proof (cases "ac_items b \<noteq> [] \<and> output_batch_interval \<le> now - ac_flushed b")
    case False
    then obtain acc1 where 1: "flush_stale dumps as now acc rows = (r, acc1, rows')" "acc' = (i, b) # acc1"
      using Cons.prems(1) a by (auto split: prod.splits)
    have "waiting i acc1 = []" if "map fst acc1 = map fst acc"
      using that Cons.prems(2) a by (metis (no_types, lifting) distinct.simps(2) fst_conv list.simps(9) map_of_eq_None_iff option.simps(4) set_map waiting_def)
    then show ?thesis using Cons.IH [OF 1(1) d] 1(2) a flush_stale_keys [OF 1(1)] absent by (auto simp: waiting_def)
  next
    case True
    obtain x b' rows1 where f: "flush_accumulator dumps (as i) now i b rows = (x, b', rows1)" by (metis prod_cases3)
    note k = flush_keeps [OF f, of sid]
    show ?thesis
    proof (cases x)
      case (Inl y)
      then show ?thesis using Cons.prems(1) True a f k by (auto simp: waiting_def split: if_splits)
    next
      case (Inr y)
      obtain r1 acc1 rows2 where 1: "flush_stale dumps as now acc rows1 = (r1, acc1, rows2)" by (metis prod_cases3)
      then have 2: "acc' = (i, b') # acc1" "rows' = rows2" using Cons.prems(1) True a f Inr by auto
      have "waiting i acc1 = []"
        using flush_stale_keys [OF 1] Cons.prems(2) a by (metis (no_types, lifting) distinct.simps(2) fst_conv list.simps(9) map_of_eq_None_iff option.simps(4) set_map waiting_def)
      then show ?thesis using Cons.IH [OF 1 d] k 2 a absent by (auto simp: waiting_def split: if_splits)
    qed
  qed
qed simp

lemma waiting_update: "waiting sid' (AList.update sid a acc) = (if sid' = sid then ac_items a else waiting sid' acc)"
  by (simp add: waiting_def update_conv')

lemma buffered_output:
  assumes d: "distinct (map fst (os_acc s))" and ok: "output_rows_ok (os_rows s)" and b: "buffer_output dumps as now sid output s = (r, s')"
  shows "all_output dumps sid' s' = all_output dumps sid' s @ (if sid' = sid then [dumps (JObj output)] else [])"
    and "distinct (map fst (os_acc s')) \<and> output_rows_ok (os_rows s')"
proof -
  let ?acc = "accumulator_of now sid s" let ?acc' = "?acc\<lparr>ac_items := ac_items ?acc @ [output]\<rparr>"
  have items: "ac_items ?acc = waiting sid (os_acc s)" by (simp add: accumulator_of_def waiting_def split: option.splits)
  have "all_output dumps sid' s' = all_output dumps sid' s @ (if sid' = sid then [dumps (JObj output)] else []) \<and> distinct (map fst (os_acc s')) \<and> output_rows_ok (os_rows s')"
  proof (cases "must_flush now ?acc'")
    case True
    obtain x acc2 rows where f: "flush_accumulator dumps as now sid ?acc' (os_rows s) = (x, acc2, rows)" by (metis prod_cases3)
    then have s': "os_rows s' = rows" "os_acc s' = AList.update sid acc2 (os_acc s)" using b True by (auto simp: buffer_output_def Let_def)
    moreover have ok': "output_rows_ok rows" by (rule flush_rows_ok [OF ok f])
    ultimately show ?thesis using flush_keeps [OF f, of sid'] items d ok
      by (auto simp: all_output_stored waiting_update distinct_update)
  next
    case False
    then have s': "os_rows s' = os_rows s" "os_acc s' = AList.update sid ?acc' (os_acc s)" using b by (auto simp: buffer_output_def Let_def)
    then show ?thesis using items d ok by (auto simp: all_output_stored waiting_update distinct_update)
  qed
  then show "all_output dumps sid' s' = all_output dumps sid' s @ (if sid' = sid then [dumps (JObj output)] else [])"
    and "distinct (map fst (os_acc s')) \<and> output_rows_ok (os_rows s')" by blast+
qed

lemma read_output:
  assumes d: "distinct (map fst (os_acc s))" and ok: "output_rows_ok (os_rows s)" and g: "get_buffered_output dumps loads as' ok' now sid after s = (r', s'')"
  shows "all_output dumps sid' s'' = all_output dumps sid' s" and "distinct (map fst (os_acc s'')) \<and> output_rows_ok (os_rows s'')"
proof -
  obtain x acc rows where f: "flush_stale dumps as' now (os_acc s) (os_rows s) = (x, acc, rows)" by (metis prod_cases3)
  then have s'': "s'' = s\<lparr>os_acc := acc, os_rows := rows\<rparr>" using g by (auto simp: get_buffered_output_def Let_def split: sum.splits)
  have ok'': "output_rows_ok rows" by (rule flush_stale_rows_ok [OF f ok])
  show "all_output dumps sid' s'' = all_output dumps sid' s" "distinct (map fst (os_acc s'')) \<and> output_rows_ok (os_rows s'')"
    using flush_stale_keeps [OF f d] flush_stale_keys [OF f] d ok ok'' by (simp_all add: all_output_stored s'')
qed

text \<open>C12: As long as a session is bound, and whatever the database does with the attempts to write, also when
  a call raises: its output is its rows in the order of their indices followed by what waits in the
  accumulator; a new output is added at the end, a read moves outputs to the table without changing that
  order, and no other session is touched. The indices of a session stay distinct and positive, and its rows
  are stored in their order.\<close>

theorem output_kept_in_order:
  assumes "distinct (map fst (os_acc s))" and "output_rows_ok (os_rows s)"
  shows "all_output dumps sid' (snd (buffer_output dumps as now sid output s)) = all_output dumps sid' s @ (if sid' = sid then [dumps (JObj output)] else []) \<and>
    all_output dumps sid' (snd (get_buffered_output dumps loads as' ok now sid after s)) = all_output dumps sid' s \<and>
    distinct (map fst (os_acc (snd (buffer_output dumps as now sid output s)))) \<and> output_rows_ok (os_rows (snd (buffer_output dumps as now sid output s))) \<and>
    distinct (map fst (os_acc (snd (get_buffered_output dumps loads as' ok now sid after s)))) \<and>
    output_rows_ok (os_rows (snd (get_buffered_output dumps loads as' ok now sid after s)))"
  using buffered_output [OF assms prod.collapse [symmetric]] read_output [OF assms prod.collapse [symmetric]] by simp

text \<open>When a session is unbound, a last batch that cannot be written is lost: nothing of it is left.\<close>

theorem unbinding_loses_last_batch:
  assumes "output_rows_ok (os_rows s)" and "\<not> attempts_commit persist_output_max_retries as"
  shows "all_output dumps sid (unbind_session_output dumps as now sid s) = stored_output sid (os_rows s)"
proof -
  have "os_rows (unbind_session_output dumps as now sid s) = os_rows s"
    using assms(2) by (auto simp: unbind_session_output_def flush_accumulator_def persist_output_batch_def split: option.splits)
  moreover have "waiting sid (os_acc (unbind_session_output dumps as now sid s)) = []"
    by (simp add: unbind_session_output_def waiting_def delete_conv')
  ultimately show ?thesis using assms(1) by (simp add: all_output_stored)
qed

section \<open>Batches and replay\<close>

text \<open>A batch is written whole or not at all. The indices of a session always grow along its rows, and a
  batch gets the numbers that follow the greatest one, without a gap.\<close>

theorem batch_indices_follow:
  assumes "output_rows_ok rows" and "persist_output_batch dumps as now sid outputs rows = (r, rows')"
  shows "output_rows_ok rows'" and "r = Inl e \<Longrightarrow> rows' = rows"
    and "r = Inr () \<Longrightarrow> \<exists>new. rows' = rows @ new \<and> map ou_index new = map (\<lambda>k. next_event_index sid rows + int k) [0..<length outputs] \<and>
      (\<forall>x\<in>set rows. ou_session x = sid \<longrightarrow> ou_index x < next_event_index sid rows)"
proof -
  show "output_rows_ok rows'" using persist_rows_ok [OF assms(1), of dumps as now sid outputs] assms(2) by simp
  show "r = Inl e \<Longrightarrow> rows' = rows" using assms(2) by (auto simp: persist_output_batch_def split: if_splits)
  show "\<exists>new. rows' = rows @ new \<and> map ou_index new = map (\<lambda>k. next_event_index sid rows + int k) [0..<length outputs] \<and>
      (\<forall>x\<in>set rows. ou_session x = sid \<longrightarrow> ou_index x < next_event_index sid rows)" if "r = Inr ()"
    using that assms(2) next_index_above number_rows_index by (auto simp: persist_output_batch_def split: if_splits)
qed

text \<open>A batch is written exactly when one of the first eight attempts commits and those before it fail in a
  way that is tried again.\<close>

theorem batch_retries_bounded:
  "attempts_commit n as \<longleftrightarrow> (\<exists>k<n. k \<le> length as \<and> (\<forall>i<k. as ! i = Retry) \<and> (k < length as \<longrightarrow> as ! k = Commit))"
proof (induction n as rule: attempts_commit.induct)
  case (4 n as)
  have "(\<exists>k<Suc n. k \<le> length (Retry # as) \<and> (\<forall>i<k. (Retry # as) ! i = Retry) \<and> (k < length (Retry # as) \<longrightarrow> (Retry # as) ! k = Commit)) \<longleftrightarrow>
    (\<exists>k<n. k \<le> length as \<and> (\<forall>i<k. as ! i = Retry) \<and> (k < length as \<longrightarrow> as ! k = Commit))" (is "?l = ?r")
  proof
    assume ?l
    then obtain k where k: "k < Suc n" "k \<le> length (Retry # as)" "\<forall>i<k. (Retry # as) ! i = Retry" "k < length (Retry # as) \<longrightarrow> (Retry # as) ! k = Commit" by blast
    then obtain j where j: "k = Suc j" by (cases k) auto
    then have "\<forall>i<j. as ! i = Retry" using k(3) by (metis Suc_less_eq nth_Cons_Suc)
    then show ?r using k j by auto
  next
    assume ?r
    then obtain k where k: "k < n" "k \<le> length as" "\<forall>i<k. as ! i = Retry" "k < length as \<longrightarrow> as ! k = Commit" by blast
    then have "\<forall>i<Suc k. (Retry # as) ! i = Retry" by (auto simp: less_Suc_eq_0_disj)
    then show ?l using k by (intro exI [of _ "Suc k"]) auto
  qed
  then show ?case using 4 by simp
next
  case (3 n as)
  then show ?case by (simp, intro exI [of _ 0]) simp
next
  case (5 n as)
  then show ?case by (auto simp: nth_Cons' split: if_splits)
qed auto

definition numbered :: "int \<Rightarrow> payload list \<Rightarrow> out_event list" where
  "numbered i ps = map (\<lambda>(k, p). Out (p @ [(''event_index'', JInt k)])) (zip (map (\<lambda>k. i + int k) [0..<length ps]) ps)"

lemma numbered_simps: "numbered i [] = []" "numbered i (p # ps) = Out (p @ [(''event_index'', JInt i)]) # numbered (i + 1) ps"
  by (simp_all add: numbered_def upt_conv_Cons map_Suc_upt [symmetric] comp_def add.assoc del: upt_Suc map_Suc_upt)

lemma replay_numbered:
  assumes "\<forall>p\<in>set ps. loads (dumps (JObj p)) = Some (JObj p) \<and> map_of p ''event_index'' = None"
  shows "replay loads i (number_rows dumps sid x i ps) = numbered i ps"
  using assms by (induction dumps sid x i ps rule: number_rows.induct) (auto simp: numbered_simps)

lemma number_rows_drop:
  assumes "0 \<le> k"
  shows "filter (\<lambda>r. i + k \<le> ou_index r) (number_rows dumps sid x i ps) = number_rows dumps sid x (i + k) (drop (nat k) ps)"
  using assms
proof (induction ps arbitrary: i k)
  case (Cons p ps)
  show ?case
  proof (cases "k = 0")
    case True
    have "filter (\<lambda>r. i \<le> ou_index r) (number_rows dumps sid x (i + 1) ps) = number_rows dumps sid x (i + 1) ps"
      using number_rows_session by (fastforce intro!: filter_True)
    with True show ?thesis by simp
  next
    case False
    with Cons.prems have k: "0 \<le> k - 1" "nat k = Suc (nat (k - 1))" by auto
    have "filter (\<lambda>r. i + k \<le> ou_index r) (number_rows dumps sid x (i + 1) ps) = number_rows dumps sid x (i + k) (drop (nat (k - 1)) ps)"
      using Cons.IH [OF k(1), of "i + 1"] by simp
    then show ?thesis using k False Cons.prems by simp
  qed
qed simp

fun missing :: "out_event \<Rightarrow> int" where
  "missing (Out p) = 0"
| "missing (Trim_Gap a b n) = n"
| "missing (Query_Gap a b n) = n"

definition outputs_of :: "out_event list \<Rightarrow> payload list" where
  "outputs_of evs = List.map_filter (\<lambda>ev. case ev of Out p \<Rightarrow> Some p | _ \<Rightarrow> None) evs"

lemma outputs_of_simps [simp]: "outputs_of [] = []" "outputs_of (Out p # evs) = p # outputs_of evs"
  "outputs_of (Query_Gap a b n # evs) = outputs_of evs" "outputs_of (Trim_Gap a b n # evs) = outputs_of evs"
  by (simp_all add: outputs_of_def List.map_filter_simps)

lemma replay_accounts:
  assumes "sorted_wrt (<) (map ou_index rows)" and "\<forall>r\<in>set rows. i \<le> ou_index r \<and> (\<exists>p. loads (ou_payload r) = Some (JObj p))"
  shows "int (length (outputs_of (replay loads i rows))) + sum_list (map missing (replay loads i rows)) = (if rows = [] then 0 else ou_index (last rows) - i + 1)"
  using assms
proof (induction rows arbitrary: i)
  case (Cons r rows)
  obtain p where p: "loads (ou_payload r) = Some (JObj p)" using Cons.prems(2) by auto
  have "\<forall>x\<in>set rows. ou_index r + 1 \<le> ou_index x \<and> (\<exists>p. loads (ou_payload x) = Some (JObj p))" using Cons.prems by auto
  then show ?case using Cons.IH [of "ou_index r + 1"] Cons.prems p by auto
qed simp

text \<open>The gap markers account for every missing row: outputs and missing numbers add up to the distance
  between the index a client had and the last one it got.\<close>

theorem gaps_account:
  assumes "rows \<noteq> []" and "sorted_wrt (<) (map ou_index rows)" and "\<forall>r\<in>set rows. expected \<le> ou_index r \<and> (\<exists>p. loads (ou_payload r) = Some (JObj p))"
  shows "int (length (outputs_of (replay loads expected rows))) + sum_list (map missing (replay loads expected rows)) = ou_index (last rows) - expected + 1"
  using replay_accounts [of rows expected loads] assms by simp

definition with_index :: "payload \<Rightarrow> int \<Rightarrow> payload" where
  "with_index p i = (if map_of p ''event_index'' = None then p @ [(''event_index'', JInt i)] else p)"

lemma replay_outputs:
  assumes "\<forall>r\<in>set rows. loads (ou_payload r) = Some (JObj (body r))"
  shows "outputs_of (replay loads i rows) = map (\<lambda>r. with_index (body r) (ou_index r)) rows"
  using assms by (induction rows arbitrary: i) (auto simp: with_index_def)

lemma number_rows_length [simp]: "length (number_rows dumps sid x i ps) = length ps"
  using arg_cong [OF number_rows_index, of length] by simp

lemma rows_above_sorted:
  assumes "output_rows_ok rows"
  shows "sorted_wrt (<) (map ou_index (filter (\<lambda>r. ou_session r = sid \<and> Q r) rows))"
proof -
  have "sorted_wrt (\<lambda>x y. ou_index x < ou_index y) (filter (\<lambda>r. ou_session r = sid) rows)"
    using assms by (simp add: output_rows_ok_def sorted_wrt_map)
  from sorted_wrt_filter [OF this, of Q] show ?thesis by (simp add: sorted_wrt_map)
qed

lemma persisted_rows:
  assumes "output_rows_ok rows" and "0 \<le> after"
  shows "get_persisted_output loads True now sid after rows =
    replay loads (after + 1) (take max_buffer_size (filter (\<lambda>r. ou_session r = sid \<and> after < ou_index r \<and> unexpired_output now r) rows))"
proof -
  have "sort_key ou_index (filter (\<lambda>r. ou_session r = sid \<and> after < ou_index r \<and> unexpired_output now r) rows) =
      filter (\<lambda>r. ou_session r = sid \<and> after < ou_index r \<and> unexpired_output now r) rows"
    by (rule sort_key_sorted [OF rows_above_sorted [OF assms(1)]])
  then show ?thesis using assms(2) by (simp add: get_persisted_output_def max_absorb2)
qed

lemma replay_batch:
  assumes "output_rows_ok rows" and "0 \<le> after" and "next_event_index sid rows \<le> after + 1"
    and "persist_output_batch dumps as now sid ps rows = (Inr (), rows')"
    and "\<forall>p\<in>set ps. loads (dumps (JObj p)) = Some (JObj p) \<and> map_of p ''event_index'' = None"
    and "length ps \<le> max_buffer_size" and "now' < now + seconds output_retention_seconds"
  shows "get_persisted_output loads True now' sid after rows' = numbered (after + 1) (drop (nat (after + 1 - next_event_index sid rows)) ps)"
proof -
  let ?n = "next_event_index sid rows" let ?x = "now + seconds output_retention_seconds" let ?k = "after + 1 - next_event_index sid rows"
  have rows': "rows' = rows @ number_rows dumps sid ?x ?n ps"
    using assms(4) by (auto simp: persist_output_batch_def split: if_splits)
  have ok: "output_rows_ok rows'" using persist_rows_ok [OF assms(1), of dumps as now sid ps] assms(4) by simp
  have old: "filter (\<lambda>r. ou_session r = sid \<and> after < ou_index r \<and> unexpired_output now' r) rows = []"
    using next_index_above [of _ rows sid] assms(3) by (fastforce simp: filter_empty_conv)
  have "filter (\<lambda>r. ou_session r = sid \<and> after < ou_index r \<and> unexpired_output now' r) (number_rows dumps sid ?x ?n ps) =
      filter (\<lambda>r. ?n + ?k \<le> ou_index r) (number_rows dumps sid ?x ?n ps)"
    using assms(7) by (intro filter_cong) (auto simp: unexpired_output_def dest!: number_rows_session)
  also have "\<dots> = number_rows dumps sid ?x (?n + ?k) (drop (nat ?k) ps)" by (rule number_rows_drop) (use assms(3) in simp)
  finally have f: "filter (\<lambda>r. ou_session r = sid \<and> after < ou_index r \<and> unexpired_output now' r) rows' = number_rows dumps sid ?x (after + 1) (drop (nat ?k) ps)"
    using old by (simp add: rows')
  have "take max_buffer_size (number_rows dumps sid ?x (after + 1) (drop (nat ?k) ps)) = number_rows dumps sid ?x (after + 1) (drop (nat ?k) ps)"
    using assms(6) by simp
  moreover have "\<forall>p\<in>set (drop (nat ?k) ps). loads (dumps (JObj p)) = Some (JObj p) \<and> map_of p ''event_index'' = None"
    using assms(5) in_set_dropD by metis
  ultimately show ?thesis unfolding persisted_rows [OF ok assms(2)] f by (simp only: replay_numbered)
qed

text \<open>C28: Where the query succeeds and the payloads read back as objects, a replay from the table answers with
  all unexpired rows of the session above the index, up to the limit of five thousand, in the order of their indices and each with its index; outputs and the numbers the
  gap markers name add up to the distance to the last one. A batch that was just written comes back whole and
  without a gap to a reader that has at least everything before it. (Numbers that start again after the
  retention, and the trimmed buffer that answers when the table has nothing, are the theorems below.)\<close>

theorem replay_roundtrip:
  assumes "output_rows_ok rows" and "0 \<le> after"
    and "\<forall>r\<in>set rows. ou_session r = sid \<longrightarrow> loads (ou_payload r) = Some (JObj (body r))"
    and "shown = take max_buffer_size (filter (\<lambda>r. ou_session r = sid \<and> after < ou_index r \<and> unexpired_output now' r) rows)"
  shows "outputs_of (get_persisted_output loads True now' sid after rows) = map (\<lambda>r. with_index (body r) (ou_index r)) shown \<and>
    (shown \<noteq> [] \<longrightarrow> int (length shown) + sum_list (map missing (get_persisted_output loads True now' sid after rows)) = ou_index (last shown) - after) \<and>
    (\<forall>as now ps rows'. persist_output_batch dumps as now sid ps rows = (Inr (), rows') \<and> next_event_index sid rows \<le> after + 1 \<and>
       (\<forall>p\<in>set ps. loads (dumps (JObj p)) = Some (JObj p) \<and> map_of p ''event_index'' = None) \<and>
       length ps \<le> max_buffer_size \<and> now' < now + seconds output_retention_seconds \<longrightarrow>
     get_persisted_output loads True now' sid after rows' = numbered (after + 1) (drop (nat (after + 1 - next_event_index sid rows)) ps))"
proof -
  have in_rows: "r \<in> set rows \<and> ou_session r = sid \<and> after < ou_index r" if "r \<in> set shown" for r
    using in_set_takeD [OF that [unfolded assms(4)]] by simp
  have bodies: "\<forall>r\<in>set shown. loads (ou_payload r) = Some (JObj (body r))" using in_rows assms(3) by blast
  have "sorted_wrt (<) (map ou_index shown)"
    unfolding assms(4) take_map [symmetric] by (rule sorted_wrt_take [OF rows_above_sorted [OF assms(1)]])
  note accounts = replay_accounts [OF this, of "after + 1" loads]
  have p: "get_persisted_output loads True now' sid after rows = replay loads (after + 1) shown" using persisted_rows [OF assms(1,2)] assms(4) by simp
  have outs: "outputs_of (replay loads (after + 1) shown) = map (\<lambda>r. with_index (body r) (ou_index r)) shown" by (rule replay_outputs [OF bodies])
  have "\<forall>r\<in>set shown. after + 1 \<le> ou_index r \<and> (\<exists>p. loads (ou_payload r) = Some (JObj p))" using in_rows bodies by fastforce
  then have "shown \<noteq> [] \<longrightarrow> int (length shown) + sum_list (map missing (replay loads (after + 1) shown)) = ou_index (last shown) - after"
    using accounts outs by simp
  moreover have "get_persisted_output loads True now' sid after rows' = numbered (after + 1) (drop (nat (after + 1 - next_event_index sid rows)) ps)"
    if "persist_output_batch dumps as now sid ps rows = (Inr (), rows')" "next_event_index sid rows \<le> after + 1"
      "\<forall>p\<in>set ps. loads (dumps (JObj p)) = Some (JObj p) \<and> map_of p ''event_index'' = None" "length ps \<le> max_buffer_size"
      "now' < now + seconds output_retention_seconds" for as now ps rows'
    using replay_batch [OF assms(1,2) that(2,1,3,4,5)] .
  ultimately show ?thesis unfolding p outs by (intro conjI allI impI; (elim conjE)?) simp_all
qed

section \<open>Where output is lost\<close>

lemma drop_first_same: "0 < n \<Longrightarrow> length (drop_first n P xs) = length xs \<Longrightarrow> \<forall>x\<in>set xs. \<not> P x"
proof (induction n P xs rule: drop_first.induct)
  case (2 n P x xs)
  show ?case
  proof (cases "P x \<and> 0 < n")
    case True
    then show ?thesis using 2(4) drop_first_length [of "n - 1" P xs] by simp
  next
    case False
    then have "length (drop_first n P xs) = length xs" "\<not> P x" using 2(3,4) by auto
    then show ?thesis using 2(2) [OF False 2(3)] by simp
  qed
qed simp

lemma drop_first_none: "\<forall>x\<in>set xs. \<not> P x \<Longrightarrow> drop_first n P xs = xs"
  by (induction n P xs rule: drop_first.induct) auto

lemma drop_first_filter: "filter (\<lambda>x. \<not> P x) (drop_first n P xs) = filter (\<lambda>x. \<not> P x) xs"
  by (induction n P xs rule: drop_first.induct) auto

lemma cleanup_loop_filter: "int (length rows) + gone \<le> 1000000 \<Longrightarrow> cleanup_loop P gone rows = filter (\<lambda>x. \<not> P x) rows"
proof (induction P gone rows rule: cleanup_loop.induct)
  case (1 P gone rows)
  let ?rows = "drop_first 1000 P rows"
  have le: "length ?rows \<le> length rows" by (rule drop_first_length)
  show ?case
  proof (cases "length ?rows = length rows")
    case True
    then have "\<forall>x\<in>set rows. \<not> P x" using drop_first_same [of 1000 P rows] by simp
    then show ?thesis by (subst cleanup_loop.simps) (simp add: Let_def drop_first_none)
  next
    case False
    have small: "\<not> 1000000 < gone + (int (length rows) - int (length ?rows))" using 1(2) by simp
    have "cleanup_loop P (gone + (int (length rows) - int (length ?rows))) ?rows = filter (\<lambda>x. \<not> P x) ?rows"
      by (rule 1(1)) (use False small 1(2) in simp_all)
    then show ?thesis using False small by (subst cleanup_loop.simps) (simp add: Let_def drop_first_filter)
  qed
qed

text \<open>The numbering of a session starts again when the retention cleanup has deleted all its rows: a
  client that had come to an index gets none of the following outputs until there are more of them than
  before.\<close>

theorem numbering_restarts:
  assumes "\<forall>r\<in>set rows. ou_session r = sid \<longrightarrow> (\<exists>x. ou_expires r = Some x \<and> x < now)" and "length rows \<le> 1000000"
    and "persist_output_batch dumps [] now' sid outputs (cleanup_outputs now rows) = (r, rows')" and "int (length outputs) \<le> after"
  shows "get_persisted_output loads True now'' sid after rows' = []"
proof -
  have "cleanup_outputs now rows = filter (\<lambda>r. \<not> (case ou_expires r of None \<Rightarrow> False | Some x \<Rightarrow> x < now)) rows"
    unfolding cleanup_outputs_def by (rule cleanup_loop_filter) (use assms(2) in simp)
  then have none: "filter (\<lambda>r. ou_session r = sid) (cleanup_outputs now rows) = []"
    using assms(1) by (auto simp: filter_empty_conv)
  then have next1: "next_event_index sid (cleanup_outputs now rows) = 1" by (simp add: next_event_index_def)
  have "ou_index x \<le> after" if "x \<in> set rows'" "ou_session x = sid" for x
  proof -
    have "x \<in> set (number_rows dumps sid (now' + seconds output_retention_seconds) 1 outputs)"
      using that assms(3) none next1 by (auto simp: persist_output_batch_def filter_empty_conv split: if_splits)
    then have "ou_index x \<in> set (map (\<lambda>k. 1 + int k) [0..<length outputs])" by (metis image_eqI number_rows_index set_map)
    then show ?thesis using assms(4) by auto
  qed
  then have "filter (\<lambda>r. ou_session r = sid \<and> max 0 after < ou_index r \<and> unexpired_output now'' r) rows' = []" by (force simp: filter_empty_conv)
  then show ?thesis by (simp add: get_persisted_output_def)
qed

lemma push_full: "length buf = limit \<Longrightarrow> 0 < limit \<Longrightarrow> push limit x buf = drop 1 (buf @ [x]) \<and> length (push limit x buf) = limit"
  by (simp add: push_def)

text \<open>A full buffer drops two entries for each output but counts one: a client that has got everything up
  to the moment the buffer was full and missed the next two outputs gets only the second of them, although
  the buffer has both.\<close>

theorem trimmed_buffer_skips:
  assumes "length buf = limit" and "4 \<le> limit"
  shows "buffer_slice (int limit) (add_to_buffer limit d b (add_to_buffer limit d a (buf, 0))) = [Trim_Gap d (d + int limit) 1, Out b]"
    and "Out a \<in> set (fst (add_to_buffer limit d b (add_to_buffer limit d a (buf, 0))))"
proof -
  let ?g = "Trim_Gap d (d + int limit) 1"
  have p: "0 < limit" using assms(2) by simp
  have two: "push limit (Out x) (push limit ?g bf) = drop 2 (bf @ [?g, Out x])" if "length bf = limit" for x bf
  proof -
    have "push limit ?g bf = drop 1 (bf @ [?g])" "length (push limit ?g bf) = limit" using push_full [OF that p] by blast+
    then have "push limit (Out x) (push limit ?g bf) = drop 1 (drop 1 (bf @ [?g]) @ [Out x])" using push_full [OF _ p] by metis
    then show ?thesis using that p by (simp add: numeral_2_eq_2)
  qed
  have 1: "push limit (Out a) (push limit ?g buf) = drop 2 (buf @ [?g, Out a])" by (rule two [OF assms(1)])
  have 2: "push limit (Out b) (push limit ?g (push limit (Out a) (push limit ?g buf))) = drop 4 (buf @ [?g, Out a, ?g, Out b])"
    unfolding 1 using assms by (subst two) simp_all
  have len: "length (drop 2 (buf @ [?g, Out a])) = limit" using assms by simp
  have all: "add_to_buffer limit d b (add_to_buffer limit d a (buf, 0)) = (drop 4 (buf @ [?g, Out a, ?g, Out b]), 2)"
    using assms(1) len 2 by (simp add: add_to_buffer_def 1)
  show "buffer_slice (int limit) (add_to_buffer limit d b (add_to_buffer limit d a (buf, 0))) = [?g, Out b]"
    unfolding all using assms by (simp add: buffer_slice_def nat_diff_distrib)
  show "Out a \<in> set (fst (add_to_buffer limit d b (add_to_buffer limit d a (buf, 0))))"
    unfolding all using assms by simp
qed

text \<open>A session cannot be read while the waiting output of another one cannot be written.\<close>

theorem read_blocked_by_other_session:
  assumes "os_acc s = (other, acc) # rest" and "ac_items acc \<noteq> []" and "output_batch_interval \<le> now - ac_flushed acc"
    and "\<not> attempts_commit persist_output_max_retries (as other)"
  shows "fst (get_buffered_output dumps loads as ok now sid after s) = Inl DBError"
  using assms by (simp add: get_buffered_output_def flush_accumulator_def persist_output_batch_def)

text \<open>The flag that a session has ended holds against the table until it is cleared; after that the table
  decides, and a session restored to active is open again. A failed query leaves it open.\<close>

theorem ended_until_cleared:
  "fst (is_session_ended status sid (mark_session_ended sid s)) \<and>
   (fst (is_session_ended status sid (clear_session_end_flag sid s)) \<longleftrightarrow>
      (\<exists>st. status = Inr (Some st) \<and> st \<in> {''completed'', ''error'', ''stopped''}))"
  by (auto simp: is_session_ended_def mark_session_ended_def clear_session_end_flag_def split: sum.splits option.splits)

section \<open>Witnesses\<close>

definition dumps1 :: "json \<Rightarrow> string" where "dumps1 v = (case v of JObj ((k, JStr s) # p) \<Rightarrow> s | _ \<Rightarrow> [])"
definition loads1 :: "string \<Rightarrow> json option" where "loads1 s = Some (JObj [(''data'', JStr s)])"
definition said :: "string \<Rightarrow> payload" where "said s = [(''data'', JStr s)]"

definition quiet :: output_state where
  "quiet = \<lparr>os_rows = [], os_buffers = (\<lambda>_. None), os_delivered = (\<lambda>_. None), os_acc = [], os_ended = {}\<rparr>"

definition written1 :: "output_row list" where "written1 = number_rows dumps1 ''s'' 10 1 [said ''a'', said ''b'']"

lemma written1_ok: "output_rows_ok written1"
  by (auto simp: output_rows_ok_def written1_def number_rows_filter number_rows_sorted dest!: number_rows_session)

theorem output_kept_in_order_witness:
  "all_output dumps1 ''s'' (snd (buffer_output dumps1 [Fail] 0 ''s'' (said ''a'') quiet)) = [''a'']"
proof -
  have "distinct (map fst (os_acc quiet))" "output_rows_ok (os_rows quiet)" by (simp_all add: quiet_def output_rows_ok_def)
  from output_kept_in_order [OF this, of dumps1 "''s''" "[Fail]" 0 "''s''" "said ''a''"]
  show ?thesis by (simp add: all_output_def quiet_def waiting_def dumps1_def said_def)
qed

theorem unbinding_loses_last_batch_witness:
  "all_output dumps1 ''s'' (unbind_session_output dumps1 [Fail] 0 ''s'' (quiet\<lparr>os_acc := [(''s'', \<lparr>ac_items = [said ''a''], ac_flushed = 0\<rparr>)]\<rparr>)) = []"
  using unbinding_loses_last_batch [of "quiet\<lparr>os_acc := [(''s'', \<lparr>ac_items = [said ''a''], ac_flushed = 0\<rparr>)]\<rparr>" "[Fail]" dumps1 "''s''" 0]
  by (simp add: quiet_def output_rows_ok_def stored_output_def persist_output_max_retries_def eval_nat_numeral)

theorem batch_indices_follow_witness:
  "\<exists>new. snd (persist_output_batch dumps1 [] 0 ''s'' [said ''c''] written1) = written1 @ new \<and> map ou_index new = map (\<lambda>k. 3 + int k) [0..<1]"
proof -
  have p: "persist_output_batch dumps1 [] 0 ''s'' [said ''c''] written1 = (Inr (), snd (persist_output_batch dumps1 [] 0 ''s'' [said ''c''] written1))"
    by (simp add: persist_output_batch_def persist_output_max_retries_def eval_nat_numeral)
  have "next_event_index ''s'' written1 = 3" by code_simp
  then show ?thesis using batch_indices_follow(3) [OF written1_ok p refl] by auto
qed

theorem replay_roundtrip_witness:
  "outputs_of (get_persisted_output loads1 True 5 ''s'' 1 written1) = [said ''b'' @ [(''event_index'', JInt 2)]]"
proof -
  have "take max_buffer_size (filter (\<lambda>r. ou_session r = ''s'' \<and> 1 < ou_index r \<and> unexpired_output 5 r) written1) = [written1 ! 1]"
    by (simp add: written1_def unexpired_output_def max_buffer_size_def)
  then show ?thesis
    using replay_roundtrip [OF written1_ok, of 1 "''s''" loads1 "\<lambda>r. [(''data'', JStr (ou_payload r))]" _ 5, OF _ _ refl]
    by (simp add: loads1_def written1_def with_index_def said_def dumps1_def)
qed

theorem gaps_account_witness:
  "int (length (outputs_of (replay loads1 1 [written1 ! 1]))) + sum_list (map missing (replay loads1 1 [written1 ! 1])) = 2"
  using gaps_account [of "[written1 ! 1]" 1 loads1] by (simp add: written1_def loads1_def)

theorem numbering_restarts_witness:
  "get_persisted_output loads1 True 30 ''s'' 2 (snd (persist_output_batch dumps1 [] 25 ''s'' [said ''c''] (cleanup_outputs 20 written1))) = []"
proof -
  have "\<forall>r\<in>set written1. ou_session r = ''s'' \<longrightarrow> (\<exists>x. ou_expires r = Some x \<and> x < 20)"
    by (auto simp: written1_def dest!: number_rows_session)
  moreover have "length written1 \<le> 1000000" by (simp add: written1_def)
  ultimately show ?thesis
    using numbering_restarts [of written1 "''s''" 20 dumps1 25 "[said ''c'']" "fst (persist_output_batch dumps1 [] 25 ''s'' [said ''c''] (cleanup_outputs 20 written1))"
        "snd (persist_output_batch dumps1 [] 25 ''s'' [said ''c''] (cleanup_outputs 20 written1))" 2 loads1 30] by simp
qed

theorem trimmed_buffer_skips_witness:
  "buffer_slice 4 (add_to_buffer 4 0 (said ''y'') (add_to_buffer 4 0 (said ''x'') (replicate 4 (Out []), 0))) = [Trim_Gap 0 (0 + int 4) 1, Out (said ''y'')]"
  using trimmed_buffer_skips(1) [of "replicate 4 (Out [])" 4 0 "said ''y''" "said ''x''"] by simp

theorem read_blocked_by_other_session_witness:
  "fst (get_buffered_output dumps1 loads1 (\<lambda>_. [Fail]) True 200000 ''s'' 0 (quiet\<lparr>os_acc := [(''o'', \<lparr>ac_items = [said ''a''], ac_flushed = 0\<rparr>)]\<rparr>)) = Inl DBError"
  by (rule read_blocked_by_other_session [where other = "''o''" and acc = "\<lparr>ac_items = [said ''a''], ac_flushed = 0\<rparr>" and rest = "[]"])
    (simp_all add: output_batch_interval_def persist_output_max_retries_def eval_nat_numeral)

theorem batch_retries_bounded_witness: "\<exists>k<8. k \<le> length [Retry, Commit] \<and> (\<forall>i<k. [Retry, Commit] ! i = Retry)"
proof -
  have "attempts_commit 8 [Retry, Commit]" by (simp add: eval_nat_numeral)
  then show ?thesis using batch_retries_bounded [of 8 "[Retry, Commit]"] by blast
qed

end
