(* ===== verification/Remote_Machines.thy ===== *)
theory Remote_Machines
  imports Remote_Commands Remote_Output
begin

text \<open>
  Remote machines (\<^verbatim>\<open>modules/workspace/remote_agent_manager.py\<close>): registration with a one-time token,
  the merge of a machine that comes back under a new identifier, deregistration, heartbeats, users of a
  machine, and who may see a session or a machine (\<^verbatim>\<open>session_access.py\<close>, \<^verbatim>\<open>routes/remote.py\<close>). The tables
  and one process's memory are one state; random tokens and the outcome of statements are given.
\<close>

section \<open>The state\<close>

record machine_report =
  mr_name :: string
  mr_hostname :: "string option"
  mr_os :: "string option \<times> string option"
  mr_agent_version :: "string option"
  mr_capabilities :: "json option"
  mr_ip :: "string option"

record machine_row =
  mc_id :: string
  mc_report :: machine_report
  mc_status :: "string option"
  mc_tenant :: int
  mc_created_by :: int
  mc_created_at :: "instant option"
  mc_updated_at :: instant
  mc_heartbeat :: "instant option"
  mc_legacy :: bool
  mc_timeout :: "int option"

record assignment =
  as_machine :: string
  as_user :: int
  as_permission :: string
  as_granted_by :: int

record session_row =
  sr_id :: string
  sr_machine :: "string option"
  sr_context_machine :: "string option"
  sr_status :: string
  sr_remote :: bool
  sr_updated :: instant
  sr_tenant :: "int option"
  sr_user :: int

record fleet =
  fl_regs :: "registration_row list"
  fl_tokens :: token_table
  fl_machines :: "machine_row list"
  fl_assigned :: "assignment list"
  fl_sessions :: "session_row list"
  fl_commands :: command_state
  fl_output :: output_state
  fl_connected :: "string set"
  fl_bound :: "string \<rightharpoonup> string"
  fl_writes :: "string \<rightharpoonup> instant"
  fl_failures :: "(string \<times> nat \<times> string list) list"

section \<open>Users of a machine\<close>

definition add_assignment :: "assignment \<Rightarrow> assignment list \<Rightarrow> assignment list" where
  "add_assignment a rows = (if list_ex (\<lambda>x. as_machine x = as_machine a \<and> as_user x = as_user a) rows then rows else rows @ [a])"

definition assign_user :: "bool \<Rightarrow> string \<Rightarrow> int \<Rightarrow> int \<Rightarrow> string \<Rightarrow> assignment list \<Rightarrow> bool \<times> assignment list" where
  "assign_user ok machine user by permission rows =
     (if ok then (True, add_assignment \<lparr>as_machine = machine, as_user = user, as_permission = permission, as_granted_by = by\<rparr> rows) else (False, rows))"

definition revoke_user :: "string \<Rightarrow> int \<Rightarrow> assignment list \<Rightarrow> bool \<times> assignment list" where
  "revoke_user machine user rows =
     (list_ex (\<lambda>a. as_machine a = machine \<and> as_user a = user) rows, filter (\<lambda>a. \<not> (as_machine a = machine \<and> as_user a = user)) rows)"

definition check_user_access :: "string \<Rightarrow> int \<Rightarrow> assignment list \<Rightarrow> string option" where
  "check_user_access machine user rows = map_option as_permission (find (\<lambda>a. as_machine a = machine \<and> as_user a = user) rows)"

section \<open>Registration\<close>

datatype register_answer = Rejected | Hostname_Conflict string "string option" | Registered string

definition insert_machine :: "machine_row \<Rightarrow> machine_row list \<Rightarrow> machine_row list result" where
  "insert_machine m rows = (if list_ex (\<lambda>r. mc_id r = mc_id m) rows then Inl DBError else Inr (rows @ [m]))"

definition merge_assignments :: "string \<Rightarrow> string \<Rightarrow> assignment list \<Rightarrow> assignment list" where
  "merge_assignments old new rows =
     (let users = map as_user (filter (\<lambda>a. as_machine a = new) rows)
      in map (\<lambda>a. if as_machine a = old then a\<lparr>as_machine := new\<rparr> else a) (filter (\<lambda>a. \<not> (as_machine a = old \<and> as_user a \<in> set users)) rows))"

definition merge_sessions :: "string \<Rightarrow> string \<Rightarrow> session_row list \<Rightarrow> session_row list" where
  "merge_sessions old new rows = map (\<lambda>s. if sr_machine s = Some old then s\<lparr>sr_machine := Some new\<rparr> else s) rows"

text \<open>The machines of the tenant with the hostname, the last updated first.\<close>

definition same_host :: "machine_report \<Rightarrow> int \<Rightarrow> machine_row list \<Rightarrow> machine_row list" where
  "same_host report tenant rows =
     (case mr_hostname report of
        Some (c # cs) \<Rightarrow> sort_key (\<lambda>m. - mc_updated_at m) (filter (\<lambda>m. mr_hostname (mc_report m) = Some (c # cs) \<and> mc_tenant m = tenant) rows)
      | _ \<Rightarrow> [])"

definition offline_machine :: "machine_row \<Rightarrow> bool" where "offline_machine m \<longleftrightarrow> mc_status m = Some ''offline''"

definition new_machine :: "string \<Rightarrow> machine_report \<Rightarrow> int \<Rightarrow> int \<Rightarrow> instant option \<Rightarrow> instant \<Rightarrow> machine_row" where
  "new_machine i report tenant by created now =
     \<lparr>mc_id = i, mc_report = report, mc_status = Some ''online'', mc_tenant = tenant, mc_created_by = by, mc_created_at = created,
      mc_updated_at = now, mc_heartbeat = Some now, mc_legacy = False, mc_timeout = Some 300\<rparr>"

text \<open>The transaction that stores the machine: the tables and the memory after it, or the exception that
  rolls it back. The update that moves the sessions may fail: SQLite goes on without it, and PostgreSQL
  refuses the statements that follow.\<close>

datatype merge_run = Moved | Skipped | Aborted

definition store_machine :: "merge_run \<Rightarrow> instant \<Rightarrow> int \<Rightarrow> int \<Rightarrow> string \<Rightarrow> machine_report \<Rightarrow> machine_row option \<Rightarrow> fleet \<Rightarrow> fleet result" where
  "store_machine run now tenant by i report old f =
     (case old of
        Some m \<Rightarrow> rbind (insert_machine (new_machine i report (mc_tenant m) by (mc_created_at m) now) (fl_machines f)) (\<lambda>rows.
          if run = Aborted then Inl DBError
          else Inr (f\<lparr>fl_machines := filter (\<lambda>r. mc_id r \<noteq> mc_id m) rows, fl_assigned := merge_assignments (mc_id m) i (fl_assigned f),
             fl_sessions := (if run = Skipped then fl_sessions f else merge_sessions (mc_id m) i (fl_sessions f)), fl_connected := fl_connected f - {mc_id m},
             fl_commands := (fl_commands f)\<lparr>cs_queues := (cs_queues (fl_commands f))(mc_id m := [])\<rparr>, fl_writes := (fl_writes f)(mc_id m := None),
             fl_bound := (\<lambda>s. if fl_bound f s = Some (mc_id m) then Some i else fl_bound f s)\<rparr>))
      | None \<Rightarrow> rbind (insert_machine (new_machine i report tenant by (Some now) now) (fl_machines f)) (\<lambda>rows. Inr (f\<lparr>fl_machines := rows\<rparr>)))"

definition register_machine ::
    "merge_run \<Rightarrow> (string \<Rightarrow> string) \<Rightarrow> instant \<Rightarrow> string \<Rightarrow> string \<Rightarrow> string \<Rightarrow> machine_report \<Rightarrow> fleet \<Rightarrow> register_answer \<times> fleet" where
  "register_machine run hash now reg_token new_token i report f =
     (let (info, regs) = consume_registration_token hash now reg_token (fl_regs f); f1 = f\<lparr>fl_regs := regs\<rparr> in
      case info of
        None \<Rightarrow> (Rejected, f1)
      | Some (tenant, by) \<Rightarrow>
          (let hosts = same_host report tenant (fl_machines f1) in
           case filter (\<lambda>m. \<not> offline_machine m) hosts of
             m # _ \<Rightarrow> (Hostname_Conflict (mc_id m) (mc_status m), f1)
           | [] \<Rightarrow>
               (case store_machine run now tenant by i report (case filter offline_machine hosts of [] \<Rightarrow> None | m # _ \<Rightarrow> Some m) f1 of
                  Inl _ \<Rightarrow> (Rejected, f1)
                | Inr f2 \<Rightarrow>
                    (let f3 = f2\<lparr>fl_assigned := add_assignment \<lparr>as_machine = i, as_user = by, as_permission = ''admin'', as_granted_by = by\<rparr> (fl_assigned f2)\<rparr>;
                         (r, tokens) = create_agent_token hash new_token i None (fl_tokens f3)
                     in (case r of Inl _ \<Rightarrow> Rejected | Inr t \<Rightarrow> Registered t, f3\<lparr>fl_tokens := tokens\<rparr>)))))"

section \<open>Deregistration\<close>

definition states_to_terminate :: "string list" where
  "states_to_terminate = [''active'', ''paused'', ''pending'', ''starting'', ''stopping'']"

definition sessions_to_terminate :: "string \<Rightarrow> session_row list \<Rightarrow> string list" where
  "sessions_to_terminate machine rows = map sr_id (filter (\<lambda>s. sr_machine s = Some machine \<and> sr_status s \<in> set states_to_terminate) rows)"

text \<open>Batches of a size from the environment; a size of zero raises in the source and is not modelled.\<close>

fun batches :: "nat \<Rightarrow> 'a list \<Rightarrow> 'a list list" where
  "batches n [] = []"
| "batches n (x # xs) = take (Suc n) (x # xs) # batches n (drop n xs)"

definition stop_sessions :: "instant \<Rightarrow> string list \<Rightarrow> session_row list \<Rightarrow> session_row list" where
  "stop_sessions now ids rows = map (\<lambda>s. if sr_id s \<in> set ids then s\<lparr>sr_status := ''stopped'', sr_updated := now\<rparr> else s) rows"

definition stop_command :: "string \<Rightarrow> payload" where
  "stop_command machine = [(''type'', JStr ''command''), (''command'', JStr ''stop_all_sessions''), (''machine_id'', JStr machine), (''reason'', JStr ''machine_deregistered'')]"

text \<open>Which statements the database executes: the notice for the agent, the query for its sessions (a failed
  one finds none), the updates of the batches, the two deletions of runtime rows, the transaction that deletes
  the machine (whose failure is raised) and the record of failed batches. A batch has \<open>Suc n\<close> sessions.\<close>

record deregister_run =
  dg_send :: bool
  dg_fresh :: string
  dg_query :: bool
  dg_batch :: "nat \<Rightarrow> bool"
  dg_commands :: bool
  dg_outputs :: bool
  dg_delete :: bool
  dg_record :: bool

definition clear_commands :: "bool \<Rightarrow> string \<Rightarrow> command_state \<Rightarrow> command_state" where
  "clear_commands ok machine s = (if ok then s\<lparr>cs_rows := filter (\<lambda>r. cm_machine r \<noteq> machine) (cs_rows s)\<rparr> else s)"

definition clear_outputs :: "bool \<Rightarrow> string list \<Rightarrow> output_state \<Rightarrow> output_state" where
  "clear_outputs ok ids s = (if ok then s\<lparr>os_rows := filter (\<lambda>r. ou_session r \<notin> set ids) (os_rows s)\<rparr> else s)"

definition deregister_machine :: "command_env \<Rightarrow> deregister_run \<Rightarrow> nat \<Rightarrow> instant \<Rightarrow> string \<Rightarrow> fleet \<Rightarrow> bool result \<times> fleet" where
  "deregister_machine e run n now machine f =
     (let commands = (if machine \<in> fl_connected f then snd (send_command e (dg_send run) (dg_fresh run) now machine (stop_command machine) (fl_commands f)) else fl_commands f);
          ids = (if dg_query run then sessions_to_terminate machine (fl_sessions f) else []); bs = enumerate 0 (batches n ids);
          stopped = concat (map snd (filter (\<lambda>(k, b). dg_batch run k) bs)); failed = filter (\<lambda>(k, b). \<not> dg_batch run k) bs;
          f1 = f\<lparr>fl_sessions := stop_sessions now stopped (fl_sessions f),
            fl_commands := (if ids = [] then commands else clear_commands (dg_commands run) machine commands),
            fl_output := clear_outputs (dg_outputs run) ids (fl_output f)\<rparr>;
          out = fl_output f1
      in if \<not> dg_delete run then (Inl DBError, f1)
         else (Inr (list_ex (\<lambda>m. mc_id m = machine) (fl_machines f)),
          f1\<lparr>fl_output := out\<lparr>os_buffers := (\<lambda>s. if s \<in> set ids then None else os_buffers out s),
               os_delivered := (\<lambda>s. if s \<in> set ids then None else os_delivered out s),
               os_acc := filter (\<lambda>(s, _). s \<notin> set ids) (os_acc out), os_ended := os_ended out \<union> set ids\<rparr>,
            fl_assigned := filter (\<lambda>a. as_machine a \<noteq> machine) (fl_assigned f),
            fl_tokens := (fl_tokens f)\<lparr>tt_rows := filter (\<lambda>t. tk_machine t \<noteq> machine) (tt_rows (fl_tokens f))\<rparr>,
            fl_machines := filter (\<lambda>m. mc_id m \<noteq> machine) (fl_machines f),
            fl_connected := fl_connected f - {machine}, fl_bound := (\<lambda>s. if s \<in> set ids then None else fl_bound f s),
            fl_writes := (fl_writes f)(machine := None),
            fl_failures := fl_failures f @ (if dg_record run then map (\<lambda>(k, b). (machine, k, b)) failed else [])\<rparr>))"

section \<open>Connections and heartbeats\<close>

definition machine_heartbeat_timeout :: int where "machine_heartbeat_timeout = 180"
definition heartbeat_db_write_interval :: int where "heartbeat_db_write_interval = 30"
definition session_recovery_window_seconds :: int where "session_recovery_window_seconds = 300"

definition on_machine :: "string \<Rightarrow> (machine_row \<Rightarrow> machine_row) \<Rightarrow> machine_row list \<Rightarrow> machine_row list" where
  "on_machine i g rows = map (\<lambda>m. if mc_id m = i then g m else m) rows"

definition register_connection :: "instant \<Rightarrow> string \<Rightarrow> fleet \<Rightarrow> fleet" where
  "register_connection now i f = f\<lparr>fl_connected := insert i (fl_connected f),
     fl_machines := on_machine i (\<lambda>m. m\<lparr>mc_status := Some ''online'', mc_heartbeat := Some now, mc_updated_at := now\<rparr>) (fl_machines f)\<rparr>"

definition unregister_connection :: "instant \<Rightarrow> string \<Rightarrow> fleet \<Rightarrow> fleet" where
  "unregister_connection now i f = f\<lparr>fl_connected := fl_connected f - {i}, fl_writes := (fl_writes f)(i := None),
     fl_machines := on_machine i (\<lambda>m. m\<lparr>mc_status := Some ''offline'', mc_updated_at := now\<rparr>) (fl_machines f)\<rparr>"

definition process_heartbeat :: "instant \<Rightarrow> string \<Rightarrow> string \<Rightarrow> json option \<Rightarrow> fleet \<Rightarrow> fleet" where
  "process_heartbeat now i status capabilities f =
     (let f1 = f\<lparr>fl_connected := insert i (fl_connected f)\<rparr> in
      if now - (case fl_writes f i of None \<Rightarrow> 0 | Some w \<Rightarrow> w) < seconds heartbeat_db_write_interval then f1
      else f1\<lparr>fl_writes := (fl_writes f)(i \<mapsto> now),
        fl_machines := on_machine i (\<lambda>m. m\<lparr>mc_report := (case capabilities of None \<Rightarrow> mc_report m | Some c \<Rightarrow> (mc_report m)\<lparr>mr_capabilities := Some c\<rparr>),
          mc_heartbeat := Some now, mc_status := Some status, mc_updated_at := now\<rparr>) (fl_machines f)\<rparr>)"

definition stale_heartbeat :: "instant \<Rightarrow> machine_row \<Rightarrow> bool" where
  "stale_heartbeat now m \<longleftrightarrow> (case mc_heartbeat m of None \<Rightarrow> False | Some h \<Rightarrow> h < now - seconds machine_heartbeat_timeout)"

text \<open>A machine without a status is not marked: NULL is not different from offline for the database.\<close>

definition mark_offline :: "instant \<Rightarrow> machine_row \<Rightarrow> machine_row" where
  "mark_offline now m = (if mc_status m \<noteq> None \<and> \<not> offline_machine m \<and> stale_heartbeat now m then m\<lparr>mc_status := Some ''offline'', mc_updated_at := now\<rparr> else m)"

definition abandoned :: "instant \<Rightarrow> machine_row list \<Rightarrow> session_row \<Rightarrow> bool" where
  "abandoned now machines s \<longleftrightarrow> sr_status s = ''active'' \<and> sr_remote s \<and> sr_updated s < now - seconds session_recovery_window_seconds \<and>
     list_ex (\<lambda>m. sr_machine s = Some (mc_id m) \<and> offline_machine m) machines"

definition check_heartbeats :: "instant \<Rightarrow> fleet \<Rightarrow> fleet" where
  "check_heartbeats now f =
     (let machines = map (mark_offline now) (fl_machines f);
          gone = map mc_id (filter (\<lambda>m. offline_machine m \<and> stale_heartbeat now m) machines);
          ids = map sr_id (filter (abandoned now machines) (fl_sessions f))
      in f\<lparr>fl_machines := machines, fl_connected := fl_connected f - set gone,
           fl_output := (fl_output f)\<lparr>os_ended := os_ended (fl_output f) \<union> set ids\<rparr>,
           fl_sessions := map (\<lambda>s. if sr_id s \<in> set ids then s\<lparr>sr_status := ''completed'', sr_updated := now\<rparr> else s) (fl_sessions f)\<rparr>)"

section \<open>Who may see a session\<close>

record actor =
  ac_id :: int
  ac_role :: string
  ac_tenant :: "int option"

type_synonym denial = "nat \<times> string"

definition admin_roles :: "string list" where "admin_roles = [''admin'', ''platform_admin'', ''tenant_admin'']"

definition is_admin_role :: "string \<Rightarrow> bool" where "is_admin_role role \<longleftrightarrow> role \<in> set admin_roles"

definition find_session :: "string \<Rightarrow> fleet \<Rightarrow> session_row option" where
  "find_session sid f = find (\<lambda>s. sr_id s = sid) (fl_sessions f)"

definition set_text :: "string option \<Rightarrow> string option" where
  "set_text x = (case x of Some (c # cs) \<Rightarrow> Some (c # cs) | _ \<Rightarrow> None)"

definition first_set :: "'a option \<Rightarrow> 'a option \<Rightarrow> 'a option" where
  "first_set a b = (case a of None \<Rightarrow> b | Some x \<Rightarrow> Some x)"

text \<open>The machine of a session: this process's binding, else the context of the session, else its column;
  what the database answers becomes the binding, with an empty buffer.\<close>

definition get_machine_id :: "string \<Rightarrow> fleet \<Rightarrow> string option \<times> fleet" where
  "get_machine_id sid f =
     (case set_text (fl_bound f sid) of
        Some m \<Rightarrow> (Some m, f)
      | None \<Rightarrow>
          (case Option.bind (find_session sid f) (\<lambda>s. first_set (set_text (sr_context_machine s)) (set_text (sr_machine s))) of
             None \<Rightarrow> (None, f)
           | Some m \<Rightarrow> (Some m, f\<lparr>fl_bound := (fl_bound f)(sid \<mapsto> m), fl_output := bind_session_output sid (fl_output f)\<rparr>)))"

text \<open>The status dict; \<open>detail\<close> gives the values read from the row and the buffers.\<close>

definition status_details :: "string list" where
  "status_details = [''project_path'', ''model'', ''total_tokens'', ''total_input_tokens'', ''total_output_tokens'', ''message_count'',
     ''request_count'', ''output'', ''messages'', ''created_at'', ''paused_at'']"

definition get_session_status :: "(string \<Rightarrow> json) \<Rightarrow> string \<Rightarrow> fleet \<Rightarrow> payload option \<times> fleet" where
  "get_session_status detail sid f =
     (case find_session sid f of
        None \<Rightarrow> (None, f)
      | Some s \<Rightarrow>
          (let (m, f') = get_machine_id sid f
           in (Some ([(''session_id'', JStr sid), (''status'', JStr (sr_status s)), (''machine_id'', case m of None \<Rightarrow> JNull | Some i \<Rightarrow> JStr i)] @
                 map (\<lambda>k. (k, detail k)) status_details), f')))"

record access_audit =
  aa_user :: int
  aa_tenant :: json
  aa_session :: string

definition tenant_json :: "int option \<Rightarrow> json" where "tenant_json t = (case t of None \<Rightarrow> JNull | Some n \<Rightarrow> JInt n)"

definition check_session_access :: "(string \<Rightarrow> json) \<Rightarrow> actor \<Rightarrow> string \<Rightarrow> fleet \<Rightarrow> (denial + payload) \<times> access_audit list \<times> fleet" where
  "check_session_access detail u sid f =
     (let (st, f') = get_session_status detail sid f; gone = Inl (404, ''Session not found'') in
      case st of
        None \<Rightarrow> (gone, [], f')
      | Some status \<Rightarrow>
          if is_admin_role (ac_role u) then
            (let t = pl status ''tenant_id'' in
             (Inr status, if t \<noteq> JNull \<and> tenant_json (ac_tenant u) \<noteq> t then [\<lparr>aa_user = ac_id u, aa_tenant = t, aa_session = sid\<rparr>] else [], f'))
          else if ac_tenant u = None then (gone, [], f')
          else if (case find (\<lambda>s. sr_id s = sid \<and> sr_tenant s = ac_tenant u) (fl_sessions f) of None \<Rightarrow> False | Some s \<Rightarrow> sr_user s = ac_id u)
            then (Inr status, [], f')
          else if (case pl status ''machine_id'' of JStr m \<Rightarrow> m \<noteq> [] \<and> check_user_access m (ac_id u) (fl_assigned f') = Some ''admin'' | _ \<Rightarrow> False)
            then (Inr status, [], f')
          else (gone, [], f'))"

section \<open>Who may see a machine\<close>

definition find_machine :: "string \<Rightarrow> fleet \<Rightarrow> machine_row option" where
  "find_machine i f = find (\<lambda>m. mc_id m = i) (fl_machines f)"

definition check_machine_tenant_access :: "actor \<Rightarrow> string \<Rightarrow> fleet \<Rightarrow> denial + machine_row" where
  "check_machine_tenant_access u i f =
     (case find_machine i f of
        None \<Rightarrow> Inl (404, ''Machine not found'')
      | Some m \<Rightarrow>
          if ac_role u = ''platform_admin'' then Inr m
          else if ac_role u = ''tenant_admin'' then
            (if ac_tenant u = None then Inl (403, ''Tenant admin must have tenant_id'')
             else if ac_tenant u \<noteq> Some (mc_tenant m) then Inl (404, ''Machine not found'') else Inr m)
          else if is_admin_role (ac_role u) then
            (if ac_tenant u \<noteq> None \<and> ac_tenant u \<noteq> Some (mc_tenant m) then Inl (404, ''Machine not found'') else Inr m)
          else if check_user_access i (ac_id u) (fl_assigned f) = Some ''admin'' then Inr m
          else if ac_tenant u \<noteq> Some (mc_tenant m) then Inl (404, ''Machine not found'')
          else if (case check_user_access i (ac_id u) (fl_assigned f) of None \<Rightarrow> True | Some p \<Rightarrow> p = []) then Inl (403, ''Permission denied'')
          else Inr m)"

section \<open>What an agent must present\<close>

definition legacy_mode_deadline_days :: int where "legacy_mode_deadline_days = 90"

definition is_legacy_machine :: "string \<Rightarrow> fleet \<Rightarrow> bool" where
  "is_legacy_machine i f = (case find_machine i f of None \<Rightarrow> False | Some m \<Rightarrow> mc_legacy m)"

definition clear_legacy_mode :: "instant \<Rightarrow> string \<Rightarrow> fleet \<Rightarrow> fleet" where
  "clear_legacy_mode now i f = f\<lparr>fl_machines := on_machine i (\<lambda>m. if mc_legacy m then m\<lparr>mc_legacy := False, mc_updated_at := now\<rparr> else m) (fl_machines f)\<rparr>"

definition bearer :: string where "bearer = ''Bearer ''"

definition starts_bearer :: "string \<Rightarrow> bool" where "starts_bearer header \<longleftrightarrow> take 7 header = bearer"

text \<open>\<open>parse\<close> is what \<^verbatim>\<open>fromisoformat\<close> makes of the text of the creation time with its Z, and None when it
  raises, as it does before Python 3.11; like a missing time, that lets the machine pass.\<close>

definition check_legacy_fallback :: "(instant \<Rightarrow> instant option) \<Rightarrow> instant \<Rightarrow> string \<Rightarrow> string \<Rightarrow> fleet \<Rightarrow> (denial + bool) \<times> fleet" where
  "check_legacy_fallback parse now header i f =
     (if starts_bearer header then (Inr False, if is_legacy_machine i f then clear_legacy_mode now i f else f)
      else if \<not> is_legacy_machine i f then (Inl (401, ''Missing Bearer token''), f)
      else (case find_machine i f of
              Some m \<Rightarrow>
                (case Option.bind (mc_created_at m) parse of
                   None \<Rightarrow> (Inr True, f)
                 | Some created \<Rightarrow> if legacy_mode_deadline_days < (now - created) div seconds 86400
                     then (Inl (401, ''Legacy mode expired. Please re-register the agent.''), f) else (Inr True, f))
            | None \<Rightarrow> (Inr True, f)))"

definition validate_agent_bearer :: "database \<Rightarrow> (string \<Rightarrow> string) \<Rightarrow> instant \<Rightarrow> string \<Rightarrow> string \<Rightarrow> fleet \<Rightarrow> denial + string" where
  "validate_agent_bearer db hash now header i f =
     (if \<not> starts_bearer header then Inl (401, ''Missing Bearer token'')
      else if drop 7 header = [] then Inl (401, ''Empty Bearer token'')
      else if validate_agent_token db hash now (drop 7 header) i (fl_tokens f) then Inr (drop 7 header)
      else Inl (401, ''Invalid or revoked Bearer token''))"

text \<open>The gate before the messages of an agent: the answer when it is refused, the failures to be written to
  the audit log (\<open>audit_usage\<close>: whether the limit of failures of usage reports lets this one through), and
  the tables.\<close>

definition agent_gate ::
    "database \<Rightarrow> (instant \<Rightarrow> instant option) \<Rightarrow> (string \<Rightarrow> string) \<Rightarrow> instant \<Rightarrow> bool \<Rightarrow> string \<Rightarrow> string \<Rightarrow> string \<Rightarrow> fleet \<Rightarrow> (denial + unit) \<times> (string \<times> string) list \<times> fleet" where
  "agent_gate db parse hash now audit_usage kind header i f =
     (if kind = ''register'' then (Inr (), [], f)
      else case find_machine i f of
        None \<Rightarrow> (Inl (404, ''Unknown machine_id''), [], f)
      | Some _ \<Rightarrow>
          (let (legacy, f') = check_legacy_fallback parse now header i f; logged = starts_bearer header \<and> (kind \<noteq> ''usage_report'' \<or> audit_usage) in
           case legacy of
             Inl e \<Rightarrow> (Inl e, if logged then [(drop 7 header, ''invalid_or_revoked'')] else [], f')
           | Inr True \<Rightarrow> (Inr (), [], f')
           | Inr False \<Rightarrow>
               (case validate_agent_bearer db hash now header i f' of
                  Inl e \<Rightarrow> (Inl e, if logged then [(drop 7 header, snd e)] else [], f')
                | Inr _ \<Rightarrow> (Inr (), [], f'))))"

section \<open>The fleet's invariant\<close>

definition fleet_ok :: "fleet \<Rightarrow> bool" where
  "fleet_ok f \<longleftrightarrow> distinct (map mc_id (fl_machines f)) \<and> distinct (map (\<lambda>a. (as_machine a, as_user a)) (fl_assigned f)) \<and>
     distinct (map sr_id (fl_sessions f)) \<and> token_table_ok (fl_tokens f)"

lemma add_assignment_ok [inv_intros]:
  "distinct (map (\<lambda>a. (as_machine a, as_user a)) rows) \<Longrightarrow> distinct (map (\<lambda>a. (as_machine a, as_user a)) (add_assignment a rows))"
  by (auto simp: add_assignment_def list_ex_iff)

lemma merge_assignments_ok [inv_intros]:
  assumes "distinct (map (\<lambda>a. (as_machine a, as_user a)) rows)"
  shows "distinct (map (\<lambda>a. (as_machine a, as_user a)) (merge_assignments old new rows))"
  using assms unfolding merge_assignments_def Let_def
  by (auto simp: distinct_map inj_on_def image_iff split: if_splits)

lemma merge_sessions_ids [simp]: "map sr_id (merge_sessions old new rows) = map sr_id rows"
  by (simp add: merge_sessions_def)

lemma on_machine_ids [simp]: "(\<And>m. mc_id (g m) = mc_id m) \<Longrightarrow> map mc_id (on_machine i g rows) = map mc_id rows"
  by (simp add: on_machine_def)

lemma store_machine_ok:
  assumes "store_machine run now tenant by i report old f = Inr f2" and "fleet_ok f"
  shows "fleet_ok f2"
  using assms unfolding store_machine_def insert_machine_def fleet_ok_def
  by (auto simp: new_machine_def list_ex_iff distinct_map_filter merge_assignments_ok split: option.splits if_splits)

lemma fleet_okI:
  "fleet_ok f \<Longrightarrow> fleet_ok (f\<lparr>fl_regs := regs\<rparr>)"
  "fleet_ok f \<Longrightarrow> token_table_ok t \<Longrightarrow> fleet_ok (f\<lparr>fl_tokens := t\<rparr>)"
  "fleet_ok f \<Longrightarrow> fleet_ok (f\<lparr>fl_assigned := add_assignment a (fl_assigned f)\<rparr>)"
  by (simp_all add: fleet_ok_def add_assignment_ok)

lemma fleet_tokens_ok: "fleet_ok f \<Longrightarrow> token_table_ok (fl_tokens f)"
  by (simp add: fleet_ok_def)

lemma register_cases:
  assumes "register_machine run hash now rt nt i report f = (answer, f')"
  obtains (refused) "fst (consume_registration_token hash now rt (fl_regs f)) = None" "answer = Rejected"
      "f' = f\<lparr>fl_regs := snd (consume_registration_token hash now rt (fl_regs f))\<rparr>"
  | (conflict) tenant by' m ms where "fst (consume_registration_token hash now rt (fl_regs f)) = Some (tenant, by')"
      "filter (\<lambda>m. \<not> offline_machine m) (same_host report tenant (fl_machines f)) = m # ms" "answer = Hostname_Conflict (mc_id m) (mc_status m)"
      "f' = f\<lparr>fl_regs := snd (consume_registration_token hash now rt (fl_regs f))\<rparr>"
  | (failed) tenant by' old where "fst (consume_registration_token hash now rt (fl_regs f)) = Some (tenant, by')"
      "old = (case same_host report tenant (fl_machines f) of [] \<Rightarrow> None | m # _ \<Rightarrow> Some m)"
      "store_machine run now tenant by' i report old (f\<lparr>fl_regs := snd (consume_registration_token hash now rt (fl_regs f))\<rparr>) = Inl DBError"
      "answer = Rejected" "f' = f\<lparr>fl_regs := snd (consume_registration_token hash now rt (fl_regs f))\<rparr>"
  | (stored) tenant by' old f2 where "fst (consume_registration_token hash now rt (fl_regs f)) = Some (tenant, by')"
      "\<forall>m\<in>set (same_host report tenant (fl_machines f)). offline_machine m"
      "old = (case same_host report tenant (fl_machines f) of [] \<Rightarrow> None | m # _ \<Rightarrow> Some m)"
      "store_machine run now tenant by' i report old (f\<lparr>fl_regs := snd (consume_registration_token hash now rt (fl_regs f))\<rparr>) = Inr f2"
      "f' = f2\<lparr>fl_assigned := add_assignment \<lparr>as_machine = i, as_user = by', as_permission = ''admin'', as_granted_by = by'\<rparr> (fl_assigned f2),
         fl_tokens := snd (create_agent_token hash nt i None (fl_tokens f2))\<rparr>"
      "answer = (case fst (create_agent_token hash nt i None (fl_tokens f2)) of Inl _ \<Rightarrow> Rejected | Inr t \<Rightarrow> Registered t)"
proof -
  obtain info regs where c: "consume_registration_token hash now rt (fl_regs f) = (info, regs)" by force
  show thesis
  proof (cases info)
    case None
    then show ?thesis using assms c refused by (simp add: register_machine_def)
  next
    case (Some p)
    obtain tenant by' where p: "p = (tenant, by')" by force
    let ?hosts = "same_host report tenant (fl_machines f)"
    show ?thesis
    proof (cases "filter (\<lambda>m. \<not> offline_machine m) ?hosts")
      case (Cons m ms)
      then show ?thesis using assms c Some p conflict by (simp add: register_machine_def Let_def)
    next
      case Nil
      then have off: "\<forall>m\<in>set ?hosts. offline_machine m" by (simp add: filter_empty_conv)
      then have all: "filter offline_machine ?hosts = ?hosts" by (simp add: filter_id_conv)
      let ?old = "case ?hosts of [] \<Rightarrow> None | m # _ \<Rightarrow> Some m"
      show ?thesis
      proof (cases "store_machine run now tenant by' i report ?old (f\<lparr>fl_regs := regs\<rparr>)")
        case (Inl e)
        have e: "e = DBError"
          using Inl unfolding store_machine_def insert_machine_def by (auto split: option.splits if_splits list.splits)
        have "answer = Rejected \<and> f' = f\<lparr>fl_regs := regs\<rparr>"
          using assms c Some p Nil all Inl by (simp add: register_machine_def Let_def)
        then show ?thesis by (intro failed [of tenant by' ?old]) (simp_all only: c Some p Inl e fst_conv snd_conv)
      next
        case (Inr f2)
        then show ?thesis using assms c Some p Nil all off stored [of tenant by' ?old f2]
          by (simp add: register_machine_def Let_def split: prod.splits)
      qed
    qed
  qed
qed

lemma register_machine_ok [inv_intros]:
  assumes "fleet_ok f" shows "fleet_ok (snd (register_machine run hash now rt nt i report f))"
proof -
  obtain answer f' where r: "register_machine run hash now rt nt i report f = (answer, f')" by force
  have "fleet_ok f'" using r
  proof (cases rule: register_cases)
    case (stored tenant by' old f2)
    have "fleet_ok f2" by (rule store_machine_ok [OF stored(4)]) (simp add: fleet_okI assms)
    then show ?thesis unfolding stored(5) by (intro fleet_okI(2,3) create_token_ok) (simp_all add: fleet_okI fleet_tokens_ok)
  qed (simp_all add: fleet_okI assms)
  then show ?thesis using r by simp
qed

lemma token_table_ok_filter [inv_intros]: "token_table_ok t \<Longrightarrow> token_table_ok (t\<lparr>tt_rows := filter P (tt_rows t)\<rparr>)"
  unfolding token_table_ok_def by (auto simp: distinct_map_filter)

lemma stop_sessions_ids [simp]: "map sr_id (stop_sessions now ids rows) = map sr_id rows"
  by (simp add: stop_sessions_def)

lemma deregister_machine_ok [inv_intros]: "fleet_ok f \<Longrightarrow> fleet_ok (snd (deregister_machine e run' n now machine f))"
  unfolding fleet_ok_def deregister_machine_def Let_def
  by (simp add: distinct_map_filter token_table_ok_filter)

lemma connection_ok [inv_intros]:
  "fleet_ok f \<Longrightarrow> fleet_ok (register_connection now i f)"
  "fleet_ok f \<Longrightarrow> fleet_ok (unregister_connection now i f)"
  "fleet_ok f \<Longrightarrow> fleet_ok (process_heartbeat now i status capabilities f)"
  "fleet_ok f \<Longrightarrow> fleet_ok (clear_legacy_mode now i f)"
  by (simp_all add: fleet_ok_def register_connection_def unregister_connection_def process_heartbeat_def clear_legacy_mode_def Let_def)

lemma mark_offline_id [simp]: "mc_id (mark_offline now m) = mc_id m"
  by (simp add: mark_offline_def)

lemma completed_ids [simp]: "map sr_id (map (\<lambda>s. if P s then s\<lparr>sr_status := x, sr_updated := now\<rparr> else s) xs) = map sr_id xs"
  by (induction xs) auto

lemma marked_ids [simp]: "map mc_id (map (mark_offline now) xs) = map mc_id xs"
  by (induction xs) auto

lemma check_heartbeats_ok [inv_intros]: "fleet_ok f \<Longrightarrow> fleet_ok (check_heartbeats now f)"
  unfolding fleet_ok_def check_heartbeats_def Let_def by (simp del: map_map)

lemma assign_ok [inv_intros]:
  "fleet_ok f \<Longrightarrow> fleet_ok (f\<lparr>fl_assigned := snd (assign_user ok machine user by permission (fl_assigned f))\<rparr>)"
  "fleet_ok f \<Longrightarrow> fleet_ok (f\<lparr>fl_assigned := snd (revoke_user machine user (fl_assigned f))\<rparr>)"
  by (simp_all add: fleet_ok_def assign_user_def revoke_user_def add_assignment_ok distinct_map_filter)

text \<open>Machines and sessions keep their identifiers unique, a user has one assignment to a machine, and
  the tokens keep their rules, through registrations and merges, deregistrations, assignments,
  connections and heartbeats.\<close>

theorem fleet_kept:
  assumes "fleet_ok f"
  shows "fleet_ok (snd (register_machine run hash now rt nt i report f)) \<and> fleet_ok (snd (deregister_machine e run' n now i f)) \<and>
    fleet_ok (f\<lparr>fl_assigned := snd (assign_user ok i user by permission (fl_assigned f))\<rparr>) \<and> fleet_ok (f\<lparr>fl_assigned := snd (revoke_user i user (fl_assigned f))\<rparr>) \<and>
    fleet_ok (register_connection now i f) \<and> fleet_ok (unregister_connection now i f) \<and> fleet_ok (process_heartbeat now i status capabilities f) \<and>
    fleet_ok (clear_legacy_mode now i f) \<and> fleet_ok (check_heartbeats now f)"
  using assms by (intro conjI inv_intros)

section \<open>Outcomes of a registration\<close>

lemma same_host_tenant: "m \<in> set (same_host report tenant rows) \<Longrightarrow> m \<in> set rows \<and> mc_tenant m = tenant \<and> mr_hostname (mc_report m) = mr_hostname report"
  by (auto simp: same_host_def split: option.splits list.splits)

lemma new_machine_sel [simp]: "mc_id (new_machine i report tenant by created now) = i" "mc_tenant (new_machine i report tenant by created now) = tenant"
  by (simp_all add: new_machine_def)

lemma store_machine_cases:
  assumes "store_machine run now tenant by i report old f = Inr f2"
  shows "\<forall>m\<in>set (fl_machines f). mc_id m \<noteq> i"
    and "fl_tokens f2 = fl_tokens f" and "fl_regs f2 = fl_regs f"
    and "fl_machines f2 = (case old of None \<Rightarrow> fl_machines f @ [new_machine i report tenant by (Some now) now]
      | Some m \<Rightarrow> filter (\<lambda>r. mc_id r \<noteq> mc_id m) (fl_machines f @ [new_machine i report (mc_tenant m) by (mc_created_at m) now]))"
  using assms unfolding store_machine_def insert_machine_def
  by (auto simp: list_ex_iff split: option.splits if_splits)

lemma store_machine_new:
  assumes "store_machine run now tenant by i report old f = Inr f2" and "\<forall>m. old = Some m \<longrightarrow> m \<in> set (fl_machines f) \<and> mc_tenant m = tenant"
  shows "\<exists>m\<in>set (fl_machines f2). mc_id m = i \<and> mc_tenant m = tenant \<and> mc_status m = Some ''online'' \<and> mc_report m = report"
  using store_machine_cases(1,4) [OF assms(1)] assms(2)
  by (cases old) (force simp: new_machine_def)+

lemma store_machine_other_tenants:
  assumes "store_machine run now tenant by i report old f = Inr f2" and "\<forall>m. old = Some m \<longrightarrow> m \<in> set (fl_machines f) \<and> mc_tenant m = tenant"
    and "distinct (map mc_id (fl_machines f))"
  shows "filter (\<lambda>m. mc_tenant m \<noteq> tenant) (fl_machines f2) = filter (\<lambda>m. mc_tenant m \<noteq> tenant) (fl_machines f)"
proof (cases old)
  case None
  then show ?thesis using store_machine_cases(4) [OF assms(1)] by (simp add: new_machine_def)
next
  case (Some m)
  have "filter (\<lambda>r. mc_id r \<noteq> mc_id m \<and> mc_tenant r \<noteq> tenant) (fl_machines f) = filter (\<lambda>r. mc_tenant r \<noteq> tenant) (fl_machines f)"
    using assms(2,3) Some by (auto intro!: filter_cong simp: distinct_map inj_on_def)
  then show ?thesis using store_machine_cases(4) [OF assms(1)] Some assms(2) by simp
qed

lemma first_host: "old = (case same_host report tenant rows of [] \<Rightarrow> None | m # _ \<Rightarrow> Some m) \<Longrightarrow> old = Some m \<Longrightarrow> m \<in> set rows \<and> mc_tenant m = tenant"
  using same_host_tenant [of m report tenant rows] by (auto split: list.splits)

lemma insert_token_new:
  assumes "insert_token h machine rid v t = (Inr (), t')"
  shows "\<exists>n. tt_rows t' = tt_rows t @ [n] \<and> tk_hash n = h \<and> tk_machine n = machine \<and> live_token n \<and> (\<forall>r\<in>set (tt_rows t). tk_hash r \<noteq> h)"
  using assms unfolding insert_token_def by (auto simp: live_token_def list_ex_iff split: if_splits)

lemma created_token_valid:
  assumes "create_agent_token hash token machine v t = (Inr x, t')"
  shows "x = token" and "validate_agent_token db hash now token machine t'"
proof -
  obtain r t1 where i': "insert_token (hash token) machine None (case v of None \<Rightarrow> top_version machine t + 1 | Some w \<Rightarrow> w) t = (r, t1)" by force
  then have r: "rbind r (\<lambda>_. Inr token) = Inr x" "t1 = t'" using assms by (simp_all add: create_agent_token_def)
  then have x: "x = token" and "r = Inr ()" by (cases r; simp)+
  then have i: "insert_token (hash token) machine None (case v of None \<Rightarrow> top_version machine t + 1 | Some w \<Rightarrow> w) t = (Inr (), t')" using i' r(2) by simp
  obtain n where n: "tt_rows t' = tt_rows t @ [n]" "tk_hash n = hash token" "tk_machine n = machine" "live_token n" "\<forall>r\<in>set (tt_rows t). tk_hash r \<noteq> hash token"
    using insert_token_new [OF i] by blast
  have "find (\<lambda>r. tk_hash r = hash token) (tt_rows t') = Some n" unfolding n(1) by (rule find_snoc) (use n in auto)
  then show "validate_agent_token db hash now token machine t'" using n by (simp add: validate_find row_accepts_def live_token_def)
  show "x = token" by (rule x)
qed

lemma added_assignment: "check_user_access machine user (add_assignment \<lparr>as_machine = machine, as_user = user, as_permission = p, as_granted_by = by\<rparr> rows) \<noteq> None"
  by (auto simp: check_user_access_def add_assignment_def list_ex_iff find_None_iff intro: exI [of _ "\<lparr>as_machine = machine, as_user = user, as_permission = p, as_granted_by = by\<rparr>"])

text \<open>A registration that answers with a token has stored the machine, online, under its identifier and
  the tenant of the registration token; the creator of the token may use it, the agent's token is
  accepted for it, and no machine of another tenant has changed.\<close>

theorem registered_machine:
  assumes "register_machine run hash now rt nt i report f = (Registered t, f')" and "fleet_ok f"
  shows "\<exists>tenant by'. fst (consume_registration_token hash now rt (fl_regs f)) = Some (tenant, by') \<and>
    (\<exists>m\<in>set (fl_machines f'). mc_id m = i \<and> mc_tenant m = tenant \<and> mc_status m = Some ''online'' \<and> mc_report m = report) \<and>
    check_user_access i by' (fl_assigned f') \<noteq> None \<and> t = nt \<and> validate_agent_token db hash now' t i (fl_tokens f') \<and>
    filter (\<lambda>m. mc_tenant m \<noteq> tenant) (fl_machines f') = filter (\<lambda>m. mc_tenant m \<noteq> tenant) (fl_machines f)"
  using assms(1)
proof (cases rule: register_cases)
  case (stored tenant by' old f2)
  have old: "\<forall>m. old = Some m \<longrightarrow> m \<in> set (fl_machines (f\<lparr>fl_regs := snd (consume_registration_token hash now rt (fl_regs f))\<rparr>)) \<and> mc_tenant m = tenant"
    using first_host [OF stored(3)] by simp
  obtain x where x: "create_agent_token hash nt i None (fl_tokens f2) = (Inr x, fl_tokens f')" "t = x"
    using stored(5,6) by (cases "create_agent_token hash nt i None (fl_tokens f2)") (auto split: sum.splits)
  show ?thesis
    using store_machine_new [OF stored(4) old] store_machine_other_tenants [OF stored(4) old] created_token_valid(1) [OF x(1)] created_token_valid(2) [OF x(1), of db now']
      added_assignment [of i by' "''admin''" by' "fl_assigned f2"] stored(1,5) x(2) assms(2) by (auto simp: fleet_ok_def)
qed auto

lemma spent_registration:
  assumes "fst (consume_registration_token hash now rt rows) \<noteq> None"
  shows "fst (consume_registration_token hash now' rt (snd (consume_registration_token hash now rt rows))) = None"
proof -
  obtain r where r: "registration_open hash now rt rows = Some r" using assms by (cases "registration_open hash now rt rows") (auto simp: consume_registration_token_def)
  then have "find (\<lambda>x. rg_hash x = hash rt) rows = Some r" unfolding registration_open_def by (auto split: option.splits if_splits)
  then have "find (\<lambda>x. rg_hash x = hash rt) (mark_consumed (rg_id r) now rows) = Some (r\<lparr>rg_consumed := True, rg_consumed_at := Some now\<rparr>)"
    unfolding mark_consumed_def by (subst find_map_keep) auto
  then show ?thesis using r by (simp add: consume_registration_token_def registration_open_def)
qed

lemma register_refused: "fst (consume_registration_token hash now rt (fl_regs f)) = None \<Longrightarrow> fst (register_machine run hash now rt nt i report f) = Rejected"
  by (cases "consume_registration_token hash now rt (fl_regs f)") (simp add: register_machine_def)

lemma store_machine_same_id:
  assumes "m \<in> set (fl_machines f)" and "mc_id m = i"
  shows "\<exists>e. store_machine run now tenant by i report old f = Inl e"
  using assms unfolding store_machine_def insert_machine_def by (auto simp: list_ex_iff split: option.splits)

text \<open>A machine that is still in the table cannot register again under its own identifier, even when it
  is offline: no table but the registration tokens changes, and the token is spent, so that repeating the
  registration is refused too.\<close>

theorem same_identifier_refused:
  assumes "m \<in> set (fl_machines f)" and "mc_id m = i" and "register_machine run hash now rt nt i report f = (answer, f')"
  shows "(\<forall>t. answer \<noteq> Registered t) \<and> f'\<lparr>fl_regs := fl_regs f\<rparr> = f \<and>
    (fst (consume_registration_token hash now rt (fl_regs f)) \<noteq> None \<longrightarrow> fst (register_machine run' hash now' rt nt' i' report' f') = Rejected)"
  using assms(3)
proof (cases rule: register_cases)
  case refused
  then show ?thesis by simp
next
  case conflict
  then show ?thesis using spent_registration [of hash now rt "fl_regs f" now'] by (simp add: register_refused)
next
  case failed
  then show ?thesis using spent_registration [of hash now rt "fl_regs f" now'] by (simp add: register_refused)
next
  case (stored tenant by' old f2)
  have "\<exists>e. store_machine run now tenant by' i report old (f\<lparr>fl_regs := snd (consume_registration_token hash now rt (fl_regs f))\<rparr>) = Inl e"
    by (rule store_machine_same_id [of m]) (use assms(1,2) in simp_all)
  then show ?thesis using stored(4) by simp
qed

section \<open>A machine that comes back\<close>


lemma merged_session: "s \<in> set (merge_sessions old new rows) \<longleftrightarrow>
    (\<exists>r\<in>set rows. s = (if sr_machine r = Some old then r\<lparr>sr_machine := Some new\<rparr> else r))"
  by (auto simp: merge_sessions_def)






lemma register_tokens:
  assumes "register_machine run hash now rt nt i report f = (answer, f')" and "machine \<noteq> i"
  shows "filter (\<lambda>r. tk_machine r = machine) (tt_rows (fl_tokens f')) = filter (\<lambda>r. tk_machine r = machine) (tt_rows (fl_tokens f))"
  using assms(1)
proof (cases rule: register_cases)
  case (stored tenant by' old f2)
  have "filter (\<lambda>r. tk_machine r = machine) (tt_rows (snd (create_agent_token hash nt i v t))) = filter (\<lambda>r. tk_machine r = machine) (tt_rows t)" for v t
    using assms(2) by (simp add: create_agent_token_def insert_token_def)
  then show ?thesis using store_machine_cases(2) [OF stored(4)] by (simp add: stored(5))
qed simp_all

lemma create_blocked: "r \<in> set (tt_rows t) \<Longrightarrow> tk_machine r = machine \<Longrightarrow> live_token r \<Longrightarrow> create_agent_token hash token machine v t = (Inl DBError, t)"
  by (auto simp: create_agent_token_def insert_token_def list_ex_iff)

text \<open>The merge deletes the machine's row but not its tokens. A machine that later registers under that
  identifier again is stored, online, but gets no token and the answer of a failed registration.\<close>

theorem merged_identifier_poisoned:
  assumes "register_machine run hash now rt nt i report f = (answer, f1)" and "old \<noteq> i" and "r \<in> set (tt_rows (fl_tokens f))" and "tk_machine r = old" and "live_token r"
    and "register_machine run' hash now' rt' nt' old report' f1 = (answer', f2)"
  shows "(\<forall>t. answer' \<noteq> Registered t) \<and> fl_tokens f2 = fl_tokens f1 \<and>
    (\<forall>tenant by'. fst (consume_registration_token hash now' rt' (fl_regs f1)) = Some (tenant, by') \<and> (\<forall>m\<in>set (fl_machines f1). mc_id m \<noteq> old) \<and>
       same_host report' tenant (fl_machines f1) = [] \<longrightarrow> answer' = Rejected \<and> (\<exists>m\<in>set (fl_machines f2). mc_id m = old \<and> mc_status m = Some ''online''))"
proof -
  have r: "r \<in> set (tt_rows (fl_tokens f1))"
    using arg_cong [OF register_tokens [OF assms(1,2)], of set] assms(3,4) by auto
  note blocked = create_blocked [OF r assms(4,5)]
  from assms(6) show ?thesis
  proof (cases rule: register_cases)
    case (conflict tenant by' m ms)
    then show ?thesis by auto
  next
    case (failed tenant by' host)
    then show ?thesis by (auto simp: store_machine_def insert_machine_def list_ex_iff split: option.splits if_splits)
  next
    case (stored tenant by' host f3)
    have f3: "fl_tokens f3 = fl_tokens f1" using store_machine_cases(2) [OF stored(4)] by simp
    have "\<exists>m\<in>set (fl_machines f3). mc_id m = old \<and> mc_status m = Some ''online''"
      using store_machine_new [OF stored(4)] first_host [OF stored(3)] by fastforce
    then show ?thesis using stored(5,6) by (simp add: f3 blocked)
  qed simp
qed

section \<open>Deregistration\<close>

lemma concat_batches: "concat (batches n xs) = xs"
  by (induction n xs rule: batches.induct) simp_all

lemma batches_bounded: "b \<in> set (batches n xs) \<Longrightarrow> b \<noteq> [] \<and> length b \<le> Suc n"
  by (induction n xs rule: batches.induct) (auto simp: min_def)

text \<open>The batches in which the sessions are stopped cover all of them once, in order, and none is empty
  or larger than the size.\<close>

theorem batches_cover: "concat (batches n xs) = xs \<and> list_all (\<lambda>b. b \<noteq> [] \<and> length b \<le> Suc n) (batches n xs)"
  by (simp add: concat_batches list_all_iff batches_bounded)

lemma stopped_all:
  assumes "\<forall>k. dg_batch run k"
  shows "concat (map snd (filter (\<lambda>(k, b). dg_batch run k) (enumerate m (batches n ids)))) = ids"
proof -
  have "filter (\<lambda>(k, b). dg_batch run k) (enumerate m (batches n ids)) = enumerate m (batches n ids)"
    by (rule filter_True) (use assms in auto)
  then show ?thesis by (simp only: map_snd_enumerate concat_batches)
qed

lemma deregister_parts:
  assumes "deregister_machine e run n now machine f = (Inr known, f')" and "ids = (if dg_query run then sessions_to_terminate machine (fl_sessions f) else [])"
  shows "fl_machines f' = filter (\<lambda>m. mc_id m \<noteq> machine) (fl_machines f)" and "fl_assigned f' = filter (\<lambda>a. as_machine a \<noteq> machine) (fl_assigned f)"
    and "tt_rows (fl_tokens f') = filter (\<lambda>t. tk_machine t \<noteq> machine) (tt_rows (fl_tokens f))" and "fl_connected f' = fl_connected f - {machine}"
    and "known \<longleftrightarrow> list_ex (\<lambda>m. mc_id m = machine) (fl_machines f)"
    and "fl_sessions f' = stop_sessions now (concat (map snd (filter (\<lambda>(k, b). dg_batch run k) (enumerate 0 (batches n ids))))) (fl_sessions f)"
    and "os_rows (fl_output f') = os_rows (clear_outputs (dg_outputs run) ids (fl_output f))" and "set ids \<subseteq> os_ended (fl_output f')"
    and "ids \<noteq> [] \<Longrightarrow> dg_commands run \<Longrightarrow> filter (\<lambda>r. cm_machine r = machine) (cs_rows (fl_commands f')) = []"
    and "ids = [] \<Longrightarrow> fl_commands f' = (if machine \<in> fl_connected f then snd (send_command e (dg_send run) (dg_fresh run) now machine (stop_command machine) (fl_commands f)) else fl_commands f)"
  using assms(1) unfolding deregister_machine_def Let_def assms(2) [symmetric]
  by (clarsimp simp: clear_commands_def split: if_split_asm)+

text \<open>C29: A deregistration whose last transaction commits leaves no row, assignment, token or connection of the
  machine: its tokens are refused and its agent gets 404. When the query and every batch succeed its open
  sessions are all stopped and no other session changes; the ends of the sessions it found are flagged, their
  stored output is gone when that deletion succeeds, and so are the machine's commands, if it had an open
  session. A failed query stops nothing.\<close>

theorem deregistered_machine:
  assumes "deregister_machine e run n now machine f = (Inr known, f')"
  shows "find_machine machine f' = None \<and> check_user_access machine u (fl_assigned f') = None \<and>
    \<not> validate_agent_token db hash now' token machine (fl_tokens f') \<and> machine \<notin> fl_connected f' \<and>
    (known \<longleftrightarrow> find_machine machine f \<noteq> None) \<and>
    (kind \<noteq> ''register'' \<longrightarrow> fst (agent_gate db parse hash now' audit kind header machine f') = Inl (404, ''Unknown machine_id'')) \<and>
    (if dg_query run then
       ((\<forall>k. dg_batch run k) \<longrightarrow> fl_sessions f' = map (\<lambda>s. if sr_id s \<in> set (sessions_to_terminate machine (fl_sessions f))
          then s\<lparr>sr_status := ''stopped'', sr_updated := now\<rparr> else s) (fl_sessions f)) \<and>
       set (sessions_to_terminate machine (fl_sessions f)) \<subseteq> os_ended (fl_output f') \<and>
       (dg_outputs run \<longrightarrow> (\<forall>r\<in>set (os_rows (fl_output f')). ou_session r \<notin> set (sessions_to_terminate machine (fl_sessions f)))) \<and>
       (dg_commands run \<and> sessions_to_terminate machine (fl_sessions f) \<noteq> [] \<longrightarrow> (\<forall>r\<in>set (cs_rows (fl_commands f')). cm_machine r \<noteq> machine))
     else fl_sessions f' = fl_sessions f)"
proof -
  note parts = deregister_parts [OF assms refl]
  have m: "find_machine machine f' = None" by (auto simp: parts(1) find_machine_def find_None_iff)
  have "\<not> validate_agent_token db hash now' token machine (fl_tokens f')"
    by (auto simp: validate_find row_accepts_def parts(3) split: option.splits dest!: find_SomeD)
  moreover have "kind \<noteq> ''register'' \<longrightarrow> fst (agent_gate db parse hash now' audit kind header machine f') = Inl (404, ''Unknown machine_id'')"
    by (simp add: agent_gate_def m)
  moreover have "check_user_access machine u (fl_assigned f') = None" "machine \<notin> fl_connected f'" "known \<longleftrightarrow> find_machine machine f \<noteq> None"
    by (auto simp: parts(2,4,5) check_user_access_def find_machine_def find_None_iff list_ex_iff)
  moreover have "if dg_query run then
       ((\<forall>k. dg_batch run k) \<longrightarrow> fl_sessions f' = map (\<lambda>s. if sr_id s \<in> set (sessions_to_terminate machine (fl_sessions f))
          then s\<lparr>sr_status := ''stopped'', sr_updated := now\<rparr> else s) (fl_sessions f)) \<and>
       set (sessions_to_terminate machine (fl_sessions f)) \<subseteq> os_ended (fl_output f') \<and>
       (dg_outputs run \<longrightarrow> (\<forall>r\<in>set (os_rows (fl_output f')). ou_session r \<notin> set (sessions_to_terminate machine (fl_sessions f)))) \<and>
       (dg_commands run \<and> sessions_to_terminate machine (fl_sessions f) \<noteq> [] \<longrightarrow> (\<forall>r\<in>set (cs_rows (fl_commands f')). cm_machine r \<noteq> machine))
     else fl_sessions f' = fl_sessions f"
  proof (cases "dg_query run")
    case True
    have "fl_sessions f' = stop_sessions now (sessions_to_terminate machine (fl_sessions f)) (fl_sessions f)" if "\<forall>k. dg_batch run k"
      using parts(6) unfolding stopped_all [OF that] if_P [OF True] .
    then show ?thesis using True parts(7-9) by (auto simp: stop_sessions_def clear_outputs_def filter_empty_conv)
  next
    case False
    then show ?thesis using parts(6) by (simp add: stop_sessions_def)
  qed
  ultimately show ?thesis using m by blast
qed

text \<open>The commands of a machine without an open session stay in the table when it is deregistered.\<close>

theorem commands_left_behind:
  assumes "deregister_machine e run n now machine f = (Inr known, f')" and "sessions_to_terminate machine (fl_sessions f) = []" and "machine \<notin> fl_connected f"
  shows "fl_commands f' = fl_commands f"
  using deregister_parts(10) [OF assms(1) refl] assms(2,3) by simp

text \<open>The agent is told to stop its sessions by a command that the same call deletes again: when the
  machine has an open session, no command of it is left in the table, so that a poll can find the notice
  only where the database had refused it.\<close>

theorem stop_notice_deleted:
  assumes "deregister_machine e run n now machine f = (Inr known, f')" and "dg_query run" and "dg_commands run"
    and "sessions_to_terminate machine (fl_sessions f) \<noteq> []"
  shows "filter (\<lambda>r. cm_machine r = machine) (cs_rows (fl_commands f')) = [] \<and>
    fst (claim_persisted_commands e how now' tokens machine (cs_rows (fl_commands f'))) = []"
proof -
  have none: "filter (\<lambda>r. cm_machine r = machine) (cs_rows (fl_commands f')) = []"
    using deregister_parts(9) [OF assms(1) refl] assms(2-4) by simp
  then have "filter (claimable now' machine) (cs_rows (fl_commands f')) = []"
    by (auto simp: filter_empty_conv claimable_def)
  then show ?thesis using none
    by (cases how) (simp_all add: claim_persisted_commands_def claim_transaction_def read_claims_def claims_to_take_def kept_rotates_def Let_def List.map_filter_def)
qed

section \<open>Heartbeats\<close>

text \<open>The check marks no machine whose heartbeat is at most three minutes old, and completes only active
  remote sessions that have been idle for five minutes on a machine that is offline; those are the sessions
  whose end it flags.\<close>

theorem heartbeat_check_justified:
  assumes "check_heartbeats now f = f'"
  shows "(\<forall>m\<in>set (fl_machines f). (\<exists>h. mc_heartbeat m = Some h \<and> now - seconds 180 \<le> h) \<longrightarrow> m \<in> set (fl_machines f')) \<and>
    (\<forall>s\<in>set (fl_sessions f'). s \<in> set (fl_sessions f) \<or>
      (sr_status s = ''completed'' \<and> sr_id s \<in> os_ended (fl_output f') \<and>
       (\<exists>q\<in>set (fl_sessions f). sr_id q = sr_id s \<and> sr_status q = ''active'' \<and> sr_remote q \<and>
         sr_updated q < now - seconds 300 \<and> (\<exists>m\<in>set (fl_machines f'). sr_machine q = Some (mc_id m) \<and> offline_machine m))))"
proof -
  let ?ids = "map sr_id (filter (abandoned now (fl_machines f')) (fl_sessions f))"
  have machines: "fl_machines f' = map (mark_offline now) (fl_machines f)" and ended: "set ?ids \<subseteq> os_ended (fl_output f')"
    and sessions: "fl_sessions f' = map (\<lambda>s. if sr_id s \<in> set ?ids then s\<lparr>sr_status := ''completed'', sr_updated := now\<rparr> else s) (fl_sessions f)"
    using assms by (auto simp: check_heartbeats_def Let_def)
  have "m \<in> set (fl_machines f')" if "m \<in> set (fl_machines f)" "mc_heartbeat m = Some h" "now - seconds 180 \<le> h" for m h
  proof -
    have "mark_offline now m = m" using that by (simp add: mark_offline_def stale_heartbeat_def machine_heartbeat_timeout_def)
    then show ?thesis using that(1) unfolding machines by (metis image_eqI set_map)
  qed
  moreover have "sr_status s = ''completed'' \<and> sr_id s \<in> os_ended (fl_output f') \<and>
       (\<exists>q\<in>set (fl_sessions f). sr_id q = sr_id s \<and> sr_status q = ''active'' \<and> sr_remote q \<and>
         sr_updated q < now - seconds 300 \<and> (\<exists>m\<in>set (fl_machines f'). sr_machine q = Some (mc_id m) \<and> offline_machine m))"
    if s: "s \<in> set (fl_sessions f')" "s \<notin> set (fl_sessions f)" for s
  proof -
    obtain r where r: "r \<in> set (fl_sessions f)" "s = (if sr_id r \<in> set ?ids then r\<lparr>sr_status := ''completed'', sr_updated := now\<rparr> else r)"
      using s(1) unfolding sessions by auto
    then have i: "sr_id r \<in> set ?ids" and s': "sr_status s = ''completed''" "sr_id s = sr_id r" using s(2) by (auto split: if_splits)
    obtain q where "q \<in> set (fl_sessions f)" "abandoned now (fl_machines f') q" "sr_id q = sr_id r" using i by auto
    then show ?thesis using ended i s' by (auto simp: abandoned_def list_ex_iff session_recovery_window_seconds_def)
  qed
  ultimately show ?thesis by blast
qed

section \<open>Access\<close>

lemma get_session_status_machine:
  assumes "get_session_status detail sid f = (Some st, f')"
  shows "pl st ''machine_id'' = (case fst (get_machine_id sid f) of None \<Rightarrow> JNull | Some i \<Rightarrow> JStr i)" and "pl st ''tenant_id'' = JNull"
    and "f' = snd (get_machine_id sid f)" and "find_session sid f \<noteq> None"
  using assms unfolding get_session_status_def
  by (auto simp: pl_def status_details_def split: option.splits prod.splits)

lemma get_machine_id_keeps: "fl_sessions (snd (get_machine_id sid f)) = fl_sessions f" "fl_assigned (snd (get_machine_id sid f)) = fl_assigned f"
  by (simp_all add: get_machine_id_def split: option.splits)

text \<open>C30: The status of a session goes only to an administrator, to its owner within the tenant, or to a user
  with a tenant and the admin permission on the machine the session resolves to; and it is the status of an
  existing session.\<close>

theorem session_access_justified:
  assumes "check_session_access detail u sid f = (Inr st, audits, f')"
  shows "(\<exists>s\<in>set (fl_sessions f). sr_id s = sid) \<and> (is_admin_role (ac_role u) \<or>
    (ac_tenant u \<noteq> None \<and> (\<exists>s\<in>set (fl_sessions f). sr_id s = sid \<and> sr_tenant s = ac_tenant u \<and> sr_user s = ac_id u)) \<or>
    (ac_tenant u \<noteq> None \<and> (\<exists>m. fst (get_machine_id sid f) = Some m \<and> check_user_access m (ac_id u) (fl_assigned f) = Some ''admin'')))"
proof -
  obtain status g where g: "get_session_status detail sid f = (Some status, g)"
    using assms unfolding check_session_access_def Let_def
    by (cases "get_session_status detail sid f") (simp split: option.splits)
  note st = get_session_status_machine [OF g]
  have "\<exists>s\<in>set (fl_sessions f). sr_id s = sid" using st(4) by (auto simp: find_session_def dest!: find_SomeD)
  then show ?thesis
    using assms unfolding check_session_access_def g Let_def prod.case option.case st(1,3) get_machine_id_keeps
    by (auto split: if_splits option.splits dest!: find_SomeD)
qed

text \<open>Every session of every tenant is shown to every administrator, those of a single tenant included,
  and the access is never written to the audit log: the status has no entry for the tenant it is compared
  with.\<close>

theorem admin_access_unaudited:
  assumes "is_admin_role (ac_role u)" and "find_session sid f = Some s"
  shows "\<exists>st. check_session_access detail u sid f = (Inr st, [], snd (get_machine_id sid f)) \<and> pl st ''session_id'' = JStr sid \<and> pl st ''status'' = JStr (sr_status s)"
proof -
  obtain status g where g: "get_session_status detail sid f = (Some status, g)" and s: "pl status ''session_id'' = JStr sid" "pl status ''status'' = JStr (sr_status s)"
    using assms(2) unfolding get_session_status_def by (cases "get_machine_id sid f") (simp add: pl_def)
  then show ?thesis
    using assms(1) get_session_status_machine [OF g] by (simp add: check_session_access_def)
qed

text \<open>A session whose context names the machine it was started on resolves to that identifier in a new
  process even after a merge has moved it: every recovered binding is to a machine that is gone.\<close>

theorem stale_context_after_merge:
  assumes "store_machine Moved now tenant by i report (Some m) f = Inr f2" and "m \<in> set (fl_machines f)" and "mc_id m \<noteq> []"
    and "find_session sid f = Some s" and "sr_context_machine s = Some (mc_id m)" and "fl_bound f2 sid = None"
  shows "fst (get_machine_id sid f2) = Some (mc_id m) \<and> find_machine (mc_id m) f2 = None"
proof -
  have f2: "fl_sessions f2 = merge_sessions (mc_id m) i (fl_sessions f)" using assms(1) by (auto simp: store_machine_def)
  have "find (\<lambda>x. sr_id x = sid) (map g (fl_sessions f)) = Some (g s)" if "\<And>x. sr_id (g x) = sr_id x" for g :: "session_row \<Rightarrow> session_row"
    using assms(4) find_map_keep [of "\<lambda>x. sr_id x = sid" g "fl_sessions f"] that by (simp add: find_session_def)
  then have "\<exists>s'. find_session sid f2 = Some s' \<and> sr_context_machine s' = Some (mc_id m)"
    using assms(5) by (simp add: find_session_def f2 merge_sessions_def)
  then have "fst (get_machine_id sid f2) = Some (mc_id m)"
    using assms(3,6) by (auto simp: get_machine_id_def set_text_def first_set_def split: list.splits)
  moreover have "find_machine (mc_id m) f2 = None"
    using store_machine_cases(4) [OF assms(1)] by (auto simp: find_machine_def find_None_iff)
  ultimately show ?thesis by blast
qed

text \<open>Access to a machine: a platform administrator to any; a tenant administrator to the machines of the
  own tenant only; others to the machines they administer, or are assigned to within their tenant.\<close>

theorem machine_access_justified:
  assumes "check_machine_tenant_access u i f = Inr m"
  shows "m \<in> set (fl_machines f) \<and> mc_id m = i \<and>
    (ac_role u = ''tenant_admin'' \<longrightarrow> ac_tenant u = Some (mc_tenant m)) \<and>
    (\<not> is_admin_role (ac_role u) \<longrightarrow> check_user_access i (ac_id u) (fl_assigned f) = Some ''admin'' \<or>
       (ac_tenant u = Some (mc_tenant m) \<and> check_user_access i (ac_id u) (fl_assigned f) \<noteq> None))"
  using assms unfolding check_machine_tenant_access_def find_machine_def
  by (auto simp: is_admin_role_def admin_roles_def split: option.splits if_splits dest!: find_SomeD)


text \<open>Where the text of the creation time cannot be read, as with Python 3.10 and the Z that is appended to it,
  the deadline does not exist: a legacy machine passes without a token for ever.\<close>

theorem unreadable_time_never_expires:
  assumes "find_machine i f = Some m" and "mc_legacy m" and "\<And>t. parse t = None" and "\<not> starts_bearer header"
  shows "agent_gate db parse hash now audit kind header i f = (Inr (), [], f)"
proof -
  have "Option.bind (mc_created_at m) parse = None" using assms(3) by (cases "mc_created_at m") simp_all
  then show ?thesis using assms by (simp add: agent_gate_def check_legacy_fallback_def is_legacy_machine_def)
qed

text \<open>Whoever knows the identifier of a legacy machine ends its legacy mode with any Bearer header: the
  message is refused, but from then on the agent, which has no token, is refused as well.\<close>

theorem forged_bearer_ends_legacy:
  assumes "starts_bearer header" and "\<not> validate_agent_token db hash now (drop 7 header) i (fl_tokens f)" and "kind \<noteq> ''register''"
    and "find_machine i f = Some m" and "agent_gate db parse hash now audit kind header i f = (answer, audits, f')"
    and "\<not> starts_bearer none" and "kind' \<noteq> ''register''"
  shows "(\<exists>e. answer = Inl e) \<and> fst (agent_gate db parse hash now' audit' kind' none i f') = Inl (401, ''Missing Bearer token'')"
proof -
  have tokens: "fl_tokens (clear_legacy_mode now i f) = fl_tokens f" by (simp add: clear_legacy_mode_def)
  have f': "f' = (if is_legacy_machine i f then clear_legacy_mode now i f else f)"
    using assms(1-5) by (auto simp: agent_gate_def check_legacy_fallback_def Let_def split: sum.splits)
  have "find_machine i f' = Some (if mc_legacy m then m\<lparr>mc_legacy := False, mc_updated_at := now\<rparr> else m)"
  proof -
    have "find (\<lambda>x. mc_id x = i) (on_machine i g (fl_machines f)) = map_option (\<lambda>m. if mc_id m = i then g m else m) (find (\<lambda>x. mc_id x = i) (fl_machines f))"
      if "\<And>x. mc_id (g x) = mc_id x" for g
      unfolding on_machine_def by (rule find_map_keep) (simp add: that)
    then show ?thesis using assms(4) unfolding f' is_legacy_machine_def
      by (auto simp: clear_legacy_mode_def find_machine_def dest!: find_SomeD)
  qed
  then have "\<not> is_legacy_machine i f'" "find_machine i f' \<noteq> None" by (simp_all add: is_legacy_machine_def)
  then have "fst (agent_gate db parse hash now' audit' kind' none i f') = Inl (401, ''Missing Bearer token'')"
    using assms(6,7) by (auto simp: agent_gate_def check_legacy_fallback_def split: option.splits)
  moreover have "\<exists>e. answer = Inl e"
    using assms(1-5) tokens by (auto simp: agent_gate_def check_legacy_fallback_def validate_agent_bearer_def Let_def split: sum.splits if_splits)
  ultimately show ?thesis by blast
qed

section \<open>Witnesses\<close>

definition report1 :: machine_report where
  "report1 = \<lparr>mr_name = ''box'', mr_hostname = Some ''h'', mr_os = (None, None), mr_agent_version = None, mr_capabilities = None, mr_ip = None\<rparr>"

definition host1 :: machine_row where
  "host1 = \<lparr>mc_id = ''m'', mc_report = report1, mc_status = Some ''offline'', mc_tenant = 1, mc_created_by = 2, mc_created_at = Some 0, mc_updated_at = 0,
     mc_heartbeat = Some 0, mc_legacy = True, mc_timeout = None\<rparr>"

definition work1 :: session_row where
  "work1 = \<lparr>sr_id = ''s'', sr_machine = Some ''m'', sr_context_machine = Some ''m'', sr_status = ''active'', sr_remote = True, sr_updated = 0, sr_tenant = Some 1, sr_user = 7\<rparr>"

definition fleet1 :: fleet where
  "fleet1 = \<lparr>fl_regs = [registered1, registered1\<lparr>rg_id := 1, rg_hash := ''u'', rg_tenant := 3\<rparr>], fl_tokens = agents1, fl_machines = [host1],
     fl_assigned = [\<lparr>as_machine = ''m'', as_user = 5, as_permission = ''admin'', as_granted_by = 2\<rparr>], fl_sessions = [work1],
     fl_commands = \<lparr>cs_rows = [], cs_next = 0, cs_queues = (\<lambda>_. [])\<rparr>,
     fl_output = \<lparr>os_rows = [], os_buffers = (\<lambda>_. None), os_delivered = (\<lambda>_. None), os_acc = [], os_ended = {}\<rparr>,
     fl_connected = {''m''}, fl_bound = (\<lambda>_. None), fl_writes = (\<lambda>_. None), fl_failures = []\<rparr>"

lemmas sample_defs = fleet1_def host1_def report1_def work1_def registered1_def agents1_def agent1_def

lemma fleet1_ok: "fleet_ok fleet1"
  using agents1_facts(1) by (simp add: fleet_ok_def fleet1_def)

theorem fleet_kept_witness: "fleet_ok (check_heartbeats (seconds 900) fleet1)"
  using fleet_kept [OF fleet1_ok] by blast

definition merged1 :: fleet where "merged1 = snd (register_machine Moved (\<lambda>x. x) 10 ''t'' ''x'' ''n'' report1 fleet1)"

lemma consumed1: "consume_registration_token (\<lambda>x. x) 10 ''t'' (fl_regs fleet1) =
    (Some (1, 2), [registered1\<lparr>rg_consumed := True, rg_consumed_at := Some 10\<rparr>, registered1\<lparr>rg_id := 1, rg_hash := ''u'', rg_tenant := 3\<rparr>])"
  by (simp add: consume_registration_token_def registration_open_def mark_consumed_def sample_defs)

lemma merge_stored1: "store_machine Moved 10 1 2 ''n'' report1 (Some host1) fleet1 = Inr (fleet1\<lparr>fl_machines := [new_machine ''n'' report1 1 2 (Some 0) 10],
    fl_assigned := [\<lparr>as_machine = ''n'', as_user = 5, as_permission = ''admin'', as_granted_by = 2\<rparr>], fl_sessions := [work1\<lparr>sr_machine := Some ''n''\<rparr>],
    fl_connected := {}\<rparr>)"
  by (simp add: store_machine_def insert_machine_def merge_assignments_def merge_sessions_def sample_defs new_machine_def fun_upd_def)

lemma merged1: "register_machine Moved (\<lambda>x. x) 10 ''t'' ''x'' ''n'' report1 fleet1 = (Registered ''x'', merged1)"
proof -
  have "same_host report1 1 (fl_machines fleet1) = [host1]" "fl_tokens fleet1 = agents1" by (simp_all add: same_host_def sample_defs)
  moreover have "offline_machine host1" by (simp add: offline_machine_def host1_def)
  moreover have "store_machine Moved 10 1 2 ''n'' report1 (Some host1) (fleet1\<lparr>fl_regs := regs\<rparr>) = Inr (fleet1\<lparr>fl_regs := regs, fl_machines := [new_machine ''n'' report1 1 2 (Some 0) 10],
    fl_assigned := [\<lparr>as_machine = ''n'', as_user = 5, as_permission = ''admin'', as_granted_by = 2\<rparr>], fl_sessions := [work1\<lparr>sr_machine := Some ''n''\<rparr>],
    fl_connected := {}\<rparr>)" for regs
    by (simp add: store_machine_def insert_machine_def merge_assignments_def merge_sessions_def sample_defs new_machine_def fun_upd_def)
  ultimately show ?thesis unfolding merged1_def
    by (simp add: register_machine_def consumed1 create_agent_token_def insert_token_def agents1_def agent1_def live_token_def Let_def top_version_def)
qed

theorem registered_machine_witness: "validate_agent_token Sqlite (\<lambda>x. x) 11 ''x'' ''n'' (fl_tokens merged1)"
  using registered_machine [OF merged1 fleet1_ok, of Sqlite 11] by blast

lemma host1_in: "host1 \<in> set (fl_machines fleet1)" "mc_id host1 = ''m''"
  by (simp_all add: fleet1_def host1_def)

theorem same_identifier_refused_witness: "\<forall>t. fst (register_machine Moved (\<lambda>x. x) 10 ''t'' ''x'' ''m'' report1 fleet1) \<noteq> Registered t"
  by (rule same_identifier_refused [OF host1_in prod.collapse [symmetric], THEN conjunct1])


theorem merged_identifier_poisoned_witness: "\<forall>t. fst (register_machine Moved (\<lambda>x. x) 20 ''u'' ''y'' ''m'' report1 merged1) \<noteq> Registered t"
  by (rule merged_identifier_poisoned [OF merged1 _ _ _ _ prod.collapse [symmetric], THEN conjunct1, of "''m''" agent1])
    (use agents1_facts in \<open>simp_all add: fleet1_def agents1_def\<close>)

definition run1 :: deregister_run where
  "run1 = \<lparr>dg_send = True, dg_fresh = ''k'', dg_query = True, dg_batch = (\<lambda>_. True), dg_commands = True, dg_outputs = True, dg_delete = True, dg_record = True\<rparr>"

lemma deregistered1: "\<exists>known. deregister_machine (command_env1 []) run1 49 10 ''m'' fleet1 = (Inr known, snd (deregister_machine (command_env1 []) run1 49 10 ''m'' fleet1))"
  by (auto simp: deregister_machine_def Let_def run1_def)

theorem deregistered_machine_witness:
  "\<not> validate_agent_token Sqlite (\<lambda>x. x) 11 ''a'' ''m'' (fl_tokens (snd (deregister_machine (command_env1 []) run1 49 10 ''m'' fleet1)))"
proof -
  obtain known where "deregister_machine (command_env1 []) run1 49 10 ''m'' fleet1 = (Inr known, snd (deregister_machine (command_env1 []) run1 49 10 ''m'' fleet1))"
    using deregistered1 by blast
  from deregistered_machine [OF this] show ?thesis by blast
qed

theorem stop_notice_deleted_witness:
  "filter (\<lambda>r. cm_machine r = ''m'') (cs_rows (fl_commands (snd (deregister_machine (command_env1 []) run1 49 10 ''m'' fleet1)))) = []"
proof -
  obtain known where "deregister_machine (command_env1 []) run1 49 10 ''m'' fleet1 = (Inr known, snd (deregister_machine (command_env1 []) run1 49 10 ''m'' fleet1))"
    using deregistered1 by blast
  from stop_notice_deleted [OF this] show ?thesis
    by (simp add: run1_def sessions_to_terminate_def states_to_terminate_def fleet1_def work1_def)
qed

theorem commands_left_behind_witness:
  "fl_commands (snd (deregister_machine (command_env1 []) run1 49 10 ''m'' (fleet1\<lparr>fl_sessions := [], fl_connected := {}\<rparr>))) = fl_commands fleet1"
proof -
  have "\<exists>known. deregister_machine (command_env1 []) run1 49 10 ''m'' (fleet1\<lparr>fl_sessions := [], fl_connected := {}\<rparr>) =
      (Inr known, snd (deregister_machine (command_env1 []) run1 49 10 ''m'' (fleet1\<lparr>fl_sessions := [], fl_connected := {}\<rparr>)))"
    by (auto simp: deregister_machine_def Let_def run1_def)
  then obtain known where "deregister_machine (command_env1 []) run1 49 10 ''m'' (fleet1\<lparr>fl_sessions := [], fl_connected := {}\<rparr>) =
      (Inr known, snd (deregister_machine (command_env1 []) run1 49 10 ''m'' (fleet1\<lparr>fl_sessions := [], fl_connected := {}\<rparr>)))" by blast
  from commands_left_behind [OF this] show ?thesis by (simp add: sessions_to_terminate_def)
qed

theorem heartbeat_check_justified_witness: "host1 \<in> set (fl_machines (check_heartbeats (seconds 100) fleet1))"
  using heartbeat_check_justified [of "seconds 100" fleet1, OF refl] by (simp add: fleet1_def host1_def)

definition user1 :: actor where "user1 = \<lparr>ac_id = 7, ac_role = ''user'', ac_tenant = Some 1\<rparr>"

theorem session_access_justified_witness: "\<exists>s\<in>set (fl_sessions fleet1). sr_id s = ''s'' \<and> sr_tenant s = ac_tenant user1 \<and> sr_user s = 7"
proof -
  have "\<exists>st audits f'. check_session_access (\<lambda>_. JNull) user1 ''s'' fleet1 = (Inr st, audits, f')"
    by (auto simp: check_session_access_def get_session_status_def get_machine_id_def find_session_def fleet1_def work1_def user1_def is_admin_role_def
      admin_roles_def split: option.splits prod.splits)
  then obtain st audits f' where "check_session_access (\<lambda>_. JNull) user1 ''s'' fleet1 = (Inr st, audits, f')" by blast
  from session_access_justified [OF this] show ?thesis
    by (auto simp: fleet1_def work1_def user1_def is_admin_role_def admin_roles_def)
qed

theorem admin_access_unaudited_witness:
  "fst (snd (check_session_access (\<lambda>_. JNull) \<lparr>ac_id = 9, ac_role = ''tenant_admin'', ac_tenant = Some 2\<rparr> ''s'' fleet1)) = []"
  using admin_access_unaudited [of "\<lparr>ac_id = 9, ac_role = ''tenant_admin'', ac_tenant = Some 2\<rparr>" "''s''" fleet1 work1 "\<lambda>_. JNull"]
  by (auto simp: is_admin_role_def admin_roles_def find_session_def fleet1_def work1_def)

theorem stale_context_after_merge_witness:
  "fst (get_machine_id ''s'' (fleet1\<lparr>fl_machines := [new_machine ''n'' report1 1 2 (Some 0) 10],
    fl_assigned := [\<lparr>as_machine = ''n'', as_user = 5, as_permission = ''admin'', as_granted_by = 2\<rparr>], fl_sessions := [work1\<lparr>sr_machine := Some ''n''\<rparr>],
    fl_connected := {}\<rparr>)) = Some ''m''"
proof -
  have "host1 \<in> set (fl_machines fleet1)" "mc_id host1 = ''m''" "find_session ''s'' fleet1 = Some work1" "sr_context_machine work1 = Some ''m''"
    by (simp_all add: fleet1_def host1_def find_session_def work1_def)
  then show ?thesis using stale_context_after_merge [OF merge_stored1, of "''s''" work1] by (simp add: fleet1_def)
qed

theorem machine_access_justified_witness: "ac_tenant \<lparr>ac_id = 9, ac_role = ''tenant_admin'', ac_tenant = Some 1\<rparr> = Some (mc_tenant host1)"
proof -
  have "check_machine_tenant_access \<lparr>ac_id = 9, ac_role = ''tenant_admin'', ac_tenant = Some 1\<rparr> ''m'' fleet1 = Inr host1"
    by (simp add: check_machine_tenant_access_def find_machine_def fleet1_def host1_def)
  from machine_access_justified [OF this] show ?thesis by simp
qed


theorem unreadable_time_never_expires_witness:
  "fst (agent_gate Sqlite (\<lambda>_. None) (\<lambda>x. x) (seconds 31536000) True ''heartbeat'' [] ''m'' fleet1) = Inr ()"
proof -
  have "find_machine ''m'' fleet1 = Some host1" "mc_legacy host1" by (simp_all add: find_machine_def fleet1_def host1_def)
  from unreadable_time_never_expires [OF this] show ?thesis by (simp add: starts_bearer_def bearer_def)
qed

theorem forged_bearer_ends_legacy_witness:
  "fst (agent_gate Sqlite Some (\<lambda>x. x) 6 True ''heartbeat'' [] ''m'' (snd (snd (agent_gate Sqlite Some (\<lambda>x. x) 5 True ''heartbeat'' ''Bearer z'' ''m'' fleet1)))) =
     Inl (401, ''Missing Bearer token'')"
proof -
  obtain answer audits f' where g: "agent_gate Sqlite Some (\<lambda>x. x) 5 True ''heartbeat'' ''Bearer z'' ''m'' fleet1 = (answer, audits, f')"
    using prod_cases3 by blast
  have "\<not> validate_agent_token Sqlite (\<lambda>x. x) 5 (drop 7 ''Bearer z'') ''m'' (fl_tokens fleet1)" "find_machine ''m'' fleet1 = Some host1"
    by (simp_all add: validate_agent_token_def find_machine_def sample_defs)
  from forged_bearer_ends_legacy [OF _ this(1) _ this(2) g] show ?thesis by (simp add: g starts_bearer_def bearer_def)
qed

end
