(* ===== verification/Spec2Isabelle.thy ===== *)
theory Spec2Isabelle
  imports Prelude Py_Text Policy_Rules Policy_Cache Policy_Identity Policy_Engine Policy_Gate Lease Leader_Election Exec_Guard Ws_Frame Workflow_Lock Workflow_Phase Tenant_Cache Relay_Store Relay_Terminal Test_Scope Command_Evidence Test_Evidence Test_Verdict Test_Recognition Test_Gate Acceptance_Gates Acceptance_Items Verifier_Output Acceptance_Snapshot Acceptance_Phase Workspace_Paths Alert_Queue Quota Py_Url Outbound_Url Llm_Proxy_Url Api_Keys Proxy_Token Agent_Tokens Remote_Commands Remote_Output Remote_Machines
begin

text \<open>
  Verification of the control plane of Open ACE, a server that supervises AI coding agents: the
  policy engine that decides whether an agent may call a tool, the coordination of the instances
  of the server, the autonomous workflows they advance with the judgement of test runs and of
  finished work, the access of users to files and their quotas, the remote machines with the tokens,
  commands and output of their agents, the guard of outgoing requests with the keys of model
  providers, and the relays and WebSocket frames between browsers and agents. The sources are Python, under \<^verbatim>\<open>src/app\<close>.

  \<^bold>\<open>How the parts interact.\<close> An agent asks for a permission; the remote session manager
  evaluates the current rules of the policy store, which it reads through a cache, records a
  decision and either answers, or buffers the request for a human. An answer is sent only if it
  consumes the decision. Independently, every instance runs scheduled jobs under a lease, and
  advances workflows under the processing lock of their row; a step runs the handler of the
  current phase, commits the result it returns and fences every write by the lock. The test phase
  decides from the commands of the agent, and from the evidence stored about them, whether the
  tests of a run passed; the acceptance phase reads the requirements of the issue once into a
  snapshot, lets a verifier judge them, corrects its verdicts by mechanical checks of the merge
  commit and closes the issue only when everything agrees. The usage of a user counts against
  quotas, and one of the scheduled jobs closes the sessions of users over their quota and writes
  alerts, which are queued for compensation when the database refuses them. The agents run on
  machines that register with a one-time token; a machine's agent presents its own token with
  every message, polls for commands, answers them and sends the output of its sessions, and reaches
  model providers through a proxy that checks a token of the session, picks a key of the tenant and
  guards the address it forwards to.

  \<^bold>\<open>Theories.\<close>
  \<^item> \<open>Prelude\<close>: exceptions and results, dictionaries, time, sorting; \<open>Py_Text\<close>: strings and JSON
    values; \<open>Py_Regex\<close>: a matcher for the regular expressions of the sources, as a datatype of patterns.
  \<^item> \<open>Refresh_Cache\<close> and \<open>Lease\<close>: the two contracts, as locales. \<open>refresh_cache\<close> is a
    read-through cache whose source is read outside the lock; \<open>lease_core\<close>, with its extensions
    \<open>fixed_lease\<close> and \<open>renewable_lease\<close>, is a lease that one client holds at a time. Both are
    proved for every interleaving of their clients and interpreted on the code's definitions.
  \<^item> \<open>Policy_Rules\<close>: the table \<^verbatim>\<open>policy_rules\<close> and the statements on it
    (\<^verbatim>\<open>modules/policy/repo.py\<close>, \<^verbatim>\<open>models.py\<close>). A statement is a function on the list
    of rows; \<open>create_step\<close> interleaves the three statements of concurrent edits.
  \<^item> \<open>Policy_Cache\<close>: the process-wide cache of rules (\<^verbatim>\<open>cache.py\<close>); provides \<open>refresh_cache\<close>.
  \<^item> \<open>Policy_Identity\<close>: normalization of commands and paths, digests, fingerprints (\<^verbatim>\<open>fingerprint.py\<close>).
  \<^item> \<open>Policy_Engine\<close>: matching, ranking and evaluation (\<^verbatim>\<open>evaluator.py\<close>).
  \<^item> \<open>Policy_Gate\<close>: the table of decisions and the permission path of
    \<^verbatim>\<open>modules/workspace/remote_session_manager.py\<close>. A \<open>gate\<close> is the table, the requests that
    wait for a human and the commands that were sent.
  \<^item> \<open>Leader_Election\<close> and \<open>Exec_Guard\<close>: the lease table of scheduled jobs and its two clients
    (\<^verbatim>\<open>services/leader_election.py\<close>, \<^verbatim>\<open>distributed_scheduler.py\<close>, \<^verbatim>\<open>scheduler_guard.py\<close>);
    provides \<open>fixed_lease\<close>.
  \<^item> \<open>Tenant_Cache\<close>: the settings of a tenant, cached for five minutes; provides \<open>refresh_cache\<close>.
  \<^item> \<open>Workflow_Lock\<close>: the row of a workflow, its lock and the fenced update
    (\<^verbatim>\<open>repositories/autonomous_repo.py\<close>); provides \<open>renewable_lease\<close>.
  \<^item> \<open>Workflow_Phase\<close>: phase results, their commit, milestones, retries and \<^verbatim>\<open>advance\<close>
    (\<^verbatim>\<open>modules/workspace/autonomous/phase_contract.py\<close>, \<^verbatim>\<open>orchestrator.py\<close>).
  \<^item> \<open>Test_Scope\<close>, \<open>Test_Recognition\<close>, \<open>Command_Evidence\<close>, \<open>Test_Evidence\<close>, \<open>Test_Verdict\<close>,
    \<open>Test_Gate\<close>: which command counts as a test run and what it selects, the evidence recorded
    about it, the parsers of its output, the verdict of a whole run, and the test phase with its
    retries and repair rounds (\<^verbatim>\<open>orchestrator.py\<close> and the modules of \<^verbatim>\<open>autonomous/\<close> it calls).
  \<^item> \<open>Acceptance_Snapshot\<close>, \<open>Verifier_Output\<close>, \<open>Acceptance_Items\<close>, \<open>Acceptance_Gates\<close>,
    \<open>Acceptance_Phase\<close>: the snapshot of the requirements and its hash, the recovery of JSON from
    the verifier's text, the matching of verdicts with the checklist, the mechanical gates on the
    merge commit, and the phase that puts them together.
  \<^item> \<open>Workspace_Paths\<close>: which paths a user may browse, read, write and register as a project
    (\<^verbatim>\<open>path_guard.py\<close>, \<^verbatim>\<open>routes/fs.py\<close>, \<^verbatim>\<open>routes/projects.py\<close>).
  \<^item> \<open>Alert_Queue\<close>: alerts that are written in one transaction or queued for compensation
    (\<^verbatim>\<open>alert_transaction_manager.py\<close>, \<^verbatim>\<open>alert_compensation_worker.py\<close>); \<open>Quota\<close>: usage, limits, the
    check before a request and the enforcement (\<^verbatim>\<open>quota_manager.py\<close>, \<^verbatim>\<open>quota_enforcement_scheduler.py\<close>).
  \<^item> \<open>Py_Url\<close> and \<open>Outbound_Url\<close>: \<^verbatim>\<open>urlsplit\<close>, addresses and the networks of Python's \<^verbatim>\<open>ipaddress\<close>, and the
    guard of outgoing requests (\<^verbatim>\<open>utils/outbound_url.py\<close>); \<open>Llm_Proxy_Url\<close>: the hosts a tenant may name and the
    check before a model request is forwarded; \<open>Api_Keys\<close>: the keys of providers and the choice among them
    (\<^verbatim>\<open>modules/workspace/api_key_proxy.py\<close>, \<^verbatim>\<open>api_key_router.py\<close>).
  \<^item> \<open>Single_Use\<close>: the contract of identifiers that are accepted at most once, as a locale over the runs of
    any step relation. \<open>Proxy_Token\<close> interprets it for the tokens with which agents reach the model proxy,
    \<open>Agent_Tokens\<close> for the one-time tokens with which machines register.
  \<^item> \<open>Agent_Tokens\<close>, \<open>Remote_Commands\<close>, \<open>Remote_Output\<close>, \<open>Remote_Machines\<close>: the manager of remote machines
    (\<^verbatim>\<open>modules/workspace/remote_agent_manager.py\<close>): agent tokens and their rotation, commands that a machine
    polls and answers, the output of sessions from the buffer to the table and back, and the machines
    themselves with registration, merge, deregistration, heartbeats and access. A \<open>token_table\<close>, a
    \<open>command_state\<close> and an \<open>output_state\<close> are parts of the \<open>fleet\<close> of \<open>Remote_Machines\<close>, whose operations
    use those of the other three; the gate of agent messages validates tokens of \<open>Agent_Tokens\<close>.
  \<^item> \<open>Relay_Store\<close> and \<open>Relay_Terminal\<close>: the registration of relays in Redis behind a circuit
    breaker, and the pairing of browsers with terminals; \<open>Ws_Frame\<close>: reading and writing frames
    and reassembling messages (\<^verbatim>\<open>ws_frame.py\<close>).
  \<^item> This theory: what follows when the parts are put together.

  \<^bold>\<open>What the lemmas show.\<close> For the policies: rules and decisions keep their invariants under
  every statement and interleaving; an evaluation is the effect of the best-ranked rule in scope
  that matches, whatever the order of the rules and the content of the caches; a tool call is
  allowed without a human only on a current allow rule that was in the table less than 60 seconds
  before; a decision is consumed at most once. For the instances: an unexpired lease excludes
  every other client, a lock that is refreshed in time is kept, and what a worker that lost its lock
  still commits, patches, fails or releases changes nothing; what the bodies of the phase handlers
  store by themselves is not fenced. For a step: the phase and the status move as the outcome says,
  unless the patch of the result sets them itself, milestones can be replayed, transient errors are
  retried exactly six times. For
  tests: a run is passed exactly when the latest invocation of every command passed or is covered
  by a later pass; words in the arguments of a command never make it a test run; a run of test
  phases ends. For the acceptance: the issue is closed only when every item, path and gate
  agrees; what a rejection of a gate rests on, an unreadable file counting as an empty one; at most four retries in a row are charged to
  the infrastructure. For files and quotas: with one base directory, plain
  account names and no links in place of the homes no user reaches the home of another account, what may
  be registered as a share can be read by the members of the tenant, an admitted request stays
  below its quotas, enforcement touches only users over a quota. For the relays and the frames: a
  registration stays with its instance until it expires, and a message that was cut into masked
  fragments is delivered whole however the network cuts the bytes. For the machines: a machine has
  one live token and at most one that is ending, through every interleaving of the two transactions
  of a rotation; a command that is no rotation reaches the next poll of its machine; the output of a
  bound session is kept in order through failed batches and replayed with its indices; what a merge and
  a deregistration leave; an agent passes the gate only with a valid token, or as an old machine whose
  creation time is recent, missing or unreadable. For outgoing requests: an address
  counts as public exactly outside the reserved ranges, a request that is forwarded to the base URL of a
  tenant's key was verified or its host is listed with an address that is not public, unless the check is
  off, and the key is the tenant's best one; a single-use token is accepted once.

  Many theorems state what the code does where that is not what its comments promise; the
  findings of the manifest name them. Among them: the cache serves an edited rule for up to 60
  seconds after the invalidation, heartbeats do not extend a leader's lease, a guard never notices
  that its lease is lost, two concurrent edits can leave two current versions of a rule, toggling
  a rule always fails, \<^verbatim>\<open>pytest || true\<close> without a summary is judged passed, a verdict on half of
  a requirement counts for all of it, an account called \<^verbatim>\<open>..\<close> browses every home, a failing
  compensation pass doubles its queue, the alert of a monthly quota reports zero percent, on
  SQLite a rotated token stays valid until midnight, a machine cannot register again under its own
  identifier, the numbering of output starts again after the retention, administrators of one
  tenant see the sessions of all tenants without an audit, any Bearer header ends the legacy mode
  of a machine, a creation time that cannot be read suspends its deadline, a merge whose changed tests
  cannot be read is rejected, the last batch of a session is lost when it cannot be written while the
  session is unbound, and recording a log again overwrites the completion times.

  \<^bold>\<open>Parameters.\<close> The regular-expression engine where patterns come from the database (\<open>rx\<close>), the
  hash functions (\<open>sha\<close>), the JSON printer and parser (\<open>dumps\<close>, \<open>loads\<close>), case folding outside ASCII,
  the text of exceptions and of instants, UTF-8 decoding, the resolution of symbolic links, the
  answers of git, GitHub, Redis, the resolver and the database, signatures, ciphers, Base64 and the
  encodings of host names, random tokens and draws, the text of the agents, and the handlers of the
  phases with the worktree operations are arguments of the definitions that use them. The
  hypotheses on them are stated with each theorem. The database executes the statements of the
  model; \<open>ok\<close> and similar arguments say which of them it refuses, among them the runs of a claim
  (\<open>claim_run\<close>), of a merge (\<open>merge_run\<close>) and of a deregistration (\<open>deregister_run\<close>).

  \<^bold>\<open>Time, termination and bounds.\<close> The clock is read by the caller and passed in, in
  microseconds, but for workflow locks, which the code keeps in seconds. Every loop is a total
  function: reading frames terminates because every frame takes bytes from the stream, and the
  loop that strips output filters because every filter takes characters; no fuel is used but
  where the code has it: two levels of \<^verbatim>\<open>-c\<close> bodies, three attempts to write an alert and ten to
  deliver it, four retries for the infrastructure, eight attempts to write a batch of output, a
  hundred commands in a poll, and batches of a thousand rows up to a million in a cleanup. Bytes are \<open>8 word\<close>; strings are lists of
  characters of the ASCII and Latin-1 range, for which lower-casing is modelled on ASCII letters.
  Percentages are exact rationals.

  \<^bold>\<open>Not modelled.\<close> The HTTP routes but for the path guards, the access to sessions and machines and
  the gate of agent messages, the web interface, the agent runner, the sandboxes, the other phase
  handlers, advisory locks and metrics of the machines, the forwarding of model requests over HTTP,
  \<^verbatim>\<open>permission_service.py\<close>, which the application never calls, the texts of comments and alerts,
  repositories that only store and query, and the integrations with directories and notification
  services. The components of the manifest list them with the reasons.
\<close>

section \<open>From the rule table to the command\<close>

text \<open>A row of the table that permits the request: what revoking a rule takes away.\<close>

definition permits ::
    "(string \<Rightarrow> json option) \<Rightarrow> (instant \<Rightarrow> string) \<Rightarrow> (string \<Rightarrow> matcher option) \<Rightarrow> (json \<Rightarrow> string) \<Rightarrow>
     policy_context \<Rightarrow> rule_row \<Rightarrow> bool" where
  "permits loads isof rx sha ctx row \<longleftrightarrow>
     row_is_current row \<and> rb_enabled row \<and> rb_effect row = effect_allow \<and>
     scope_match (policy_rule_from_row loads isof row) ctx \<and>
     target_answer rx ctx (ctx_target sha ctx) (policy_rule_from_row loads isof row) = Inr True"

lemma rule_for_evaluation_row:
  assumes "q \<in> set (get_rules_for_evaluation loads isof t)" and "rb_effect q = effect_allow"
  obtains row where "row \<in> set (rt_rows t)" and "row_is_current row" and "rb_enabled row"
    and "rb_effect row = effect_allow" and "q = policy_rule_from_row loads isof row"
  using assms
  by (auto simp: get_rules_for_evaluation_def list_current_rules_def policy_rule_from_row_def or_str_def
      effect_allow_def effect_require_approval_def split: if_splits)

lemma get_cached_rules_fresh:
  assumes "fill_reach cache_lookup cache_store invalidate_policy_rule_cache source empty_cache s"
    and "fst (get_cached_rules (Inr (source (fs_now s))) (fs_now s) (fs_cache s)) = Inr rs"
  obtains t0 where "fs_now s - seconds 60 < t0" and "t0 \<le> fs_now s" and "rs = source t0"
proof (cases "cache_lookup (fs_now s) (fs_cache s)")
  case None
  with assms(2) have "rs = source (fs_now s)" by (simp add: get_cached_rules_def)
  then show ?thesis by (intro that [of "fs_now s"]) simp_all
next
  case (Some v)
  with assms(2) have "rs = v" by (simp add: get_cached_rules_def)
  then show ?thesis
    using rule_cache.served_fresh [OF assms(1) order_refl Some] that by (auto simp: cache_ttl_def)
qed

text \<open>C1: From the table of rules to the command that is sent: a tool call is allowed without a human
  only if, less than 60 seconds before, the table held a current and enabled row with the effect
  allow whose scope and target match the request, however the refreshes and invalidations of the
  cache interleaved.\<close>

theorem auto_allow_rule_in_table:
  assumes "fill_reach cache_lookup cache_store invalidate_policy_rule_cache
      (\<lambda>t. get_rules_for_evaluation loads isof (table t)) empty_cache s"
    and "fst (get_cached_rules (Inr (get_rules_for_evaluation loads isof (table (fs_now s)))) (fs_now s) (fs_cache s)) =
      Inr rs"
    and "process_permission_request ok True ttl did now sid scope (evaluate_answer rx sha exn_text (Inr rs)) cr g = (r, g')"
    and "''allow'' \<in> set (new_behaviors g g')"
  shows "\<exists>t0 row. fs_now s - seconds 60 < t0 \<and> t0 \<le> fs_now s \<and> row \<in> set (rt_rows (table t0)) \<and>
    permits loads isof rx sha (normalize_ctx (request_context scope cr)) row"
proof -
  let ?ctx = "normalize_ctx (request_context scope cr)"
  obtain t0 where t0: "fs_now s - seconds 60 < t0" "t0 \<le> fs_now s"
      "rs = get_rules_for_evaluation loads isof (table t0)"
    using get_cached_rules_fresh [OF assms(1,2)] .
  obtain q where q: "q \<in> set rs" "rb_effect q = effect_allow" "scope_match q ?ctx"
      "target_answer rx ?ctx (ctx_target sha ?ctx) q = Inr True"
    using auto_allow_has_rule [OF assms(3,4)] by auto
  obtain row where "row \<in> set (rt_rows (table t0))" "row_is_current row" "rb_enabled row"
      "rb_effect row = effect_allow" "q = policy_rule_from_row loads isof row"
    using rule_for_evaluation_row [OF q(1) [unfolded t0(3)] q(2)] .
  with t0 q show ?thesis unfolding permits_def by blast
qed

section \<open>A takeover in the middle of a step\<close>

text \<open>C8: Once another instance has taken the lock of a workflow over, whatever sequence of commits, patches,
  failures, error handling, lock checks, token counts and releases the old worker still starts, at any
  times, leaves the row and the milestones as the new owner found them. The bodies of the phase handlers
  are not among these operations; what they store by themselves is not fenced.\<close>

theorem takeover_stops_worker:
  assumes "acquire_lock new now (wh_row h) = (True, row')" and "wh_owner h = Some old" and "old \<noteq> new" and "old \<noteq> []"
  shows "wh_row (run_worker py_str ops (h\<lparr>wh_row := row'\<rparr>)) = row' \<and>
    wh_milestones (run_worker py_str ops (h\<lparr>wh_row := row'\<rparr>)) = wh_milestones h"
proof -
  have "superseded (h\<lparr>wh_row := row'\<rparr>)"
    using assms by (auto simp: superseded_def acquire_lock_def truthy_str_def Let_def split: if_splits)
  from respects_run_worker [OF this, of py_str ops] show ?thesis by (simp add: stored_def)
qed

section \<open>Concrete instances\<close>

definition allow_table :: rule_table where
  "allow_table = \<lparr>rt_rows = [(new_row (\<lambda>_. ''[]'') sample_body 1 1 0)\<lparr>rb_effect := effect_allow, rb_pattern := Some ''git *''\<rparr>],
     rt_next_id = 2\<rparr>"

lemma allow_table_rules: "get_rules_for_evaluation (\<lambda>_. None) (\<lambda>_. ''t'') allow_table = [sample_rule]"
  by (simp add: get_rules_for_evaluation_def list_current_rules_def allow_table_def sample_rule_def new_row_def
      sample_body_def)

lemma auto_allow_rule_in_table_witness:
  "\<exists>row. row \<in> set (rt_rows allow_table) \<and>
     permits (\<lambda>_. None) (\<lambda>_. ''t'') (\<lambda>_. None) (\<lambda>_. ''h'') (normalize_ctx (request_context sample_scope sample_request)) row"
proof -
  let ?s = "\<lparr>fs_now = 0, fs_cache = empty_cache, fs_flight = (\<lambda>_. None)\<rparr> :: (rule_cache, policy_rule list) fill_state"
  have reach: "fill_reach cache_lookup cache_store invalidate_policy_rule_cache
      (\<lambda>t. get_rules_for_evaluation (\<lambda>_. None) (\<lambda>_. ''t'') allow_table) empty_cache ?s"
    by (rule fill_reach.start)
  have "fst (get_cached_rules (Inr (get_rules_for_evaluation (\<lambda>_. None) (\<lambda>_. ''t'') allow_table)) (fs_now ?s)
      (fs_cache ?s)) = Inr [sample_rule]"
    by (simp add: get_cached_rules_def cache_lookup_def empty_cache_def allow_table_rules)
  from auto_allow_rule_in_table [OF reach this, of "\<lambda>_. True" 3600 "''d1''" 0 "''s1''" sample_scope "\<lambda>_. None"
      "\<lambda>_. ''h''" "\<lambda>_. ''error''" sample_request empty_gate, OF prod.collapse [symmetric]]
  show ?thesis using sample_allowed_request(3) by auto
qed

lemma takeover_stops_worker_witness:
  "wr_locked_by (wh_row (run_worker (\<lambda>_. []) [(5000, ''t'', Commit_Result plan_done), (5001, ''u'', Release_Lock)]
     (planning_host\<lparr>wh_row := snd (acquire_lock ''w2'' 5000 (wh_row planning_host))\<rparr>))) = Some ''w2''"
proof -
  have acq: "acquire_lock ''w2'' 5000 (wh_row planning_host) = (True, snd (acquire_lock ''w2'' 5000 (wh_row planning_host)))"
    by (simp add: acquire_lock_def planning_host_def sample_host_def lock_timeout_def)
  have "wh_row (run_worker (\<lambda>_. []) [(5000, ''t'', Commit_Result plan_done), (5001, ''u'', Release_Lock)]
     (planning_host\<lparr>wh_row := snd (acquire_lock ''w2'' 5000 (wh_row planning_host))\<rparr>)) = snd (acquire_lock ''w2'' 5000 (wh_row planning_host))"
    by (rule takeover_stops_worker [OF acq, of "''w1''", THEN conjunct1]) (simp_all add: planning_host_def sample_host_def)
  then show ?thesis by (simp add: acquire_lock_def planning_host_def sample_host_def lock_timeout_def)
qed

end
